(* ===== verification/Prelude.thy ===== *)
theory Prelude
  imports Main "HOL-Library.Char_ord" "HOL-Library.List_Lexorder" "HOL-Library.Sublist"
begin

text \<open>
  The vocabulary shared by every component: results of fallible operations, the error codes of the
  domain and of the application ports, the fragment of the JavaScript standard library the sources
  use on strings, numbers and arrays, and the lemma collections the component proofs draw on.

  Conventions. A TypeScript \<open>string\<close> is a HOL \<open>string\<close>; two strings are compared with \<open><\<close> and
  \<open>\<le>\<close> lexicographically, as JavaScript compares them. A TypeScript \<open>number\<close> that the contracts use
  as a count, revision, token, cost or instant is an \<open>int\<close>: fractional values, infinities and NaN
  are not represented, and \<open>Number.isSafeInteger\<close> is the bound it places on an integer. An optional
  or nullable value is an \<open>option\<close>. A thrown error is \<open>Inl\<close> of its code; message texts and detail
  maps are not modelled. \<open>Object.freeze\<close> and structural copies are the identity, because HOL values
  are immutable.
\<close>

section \<open>Results and error codes\<close>

datatype domain_error_code =
    INVALID_IDENTIFIER
  | OWNERSHIP_MISMATCH
  | INVALID_RUN_TRANSITION
  | RUN_ALREADY_TERMINAL
  | AUTHORITY_LEASE_CONFLICT
  | AUTHORITY_LEASE_NOT_HELD
  | AUTHORITY_LEASE_SCOPE_MISMATCH
  | INVALID_STATE_TRANSITION
  | STALE_AUTHORITY_FENCE
  | INVALID_STATE_VALUE

datatype port_error_code =
    CONFLICT
  | NOT_FOUND
  | DUPLICATE
  | INVALID_OPERATION
  | NOT_AUTHORITATIVE
  | OPERATION_NOT_INSTALLED
  | PROVIDER_FAILURE
  | HANDLE_REVOKED
  | INJECTED_FAILURE

datatype error =
    DomainError domain_error_code
  | ApplicationPortError port_error_code
  | RangeError
  | OtherError

type_synonym 'a result = "error + 'a"

abbreviation domain_fail :: "domain_error_code \<Rightarrow> 'a result" where
  "domain_fail c \<equiv> Inl (DomainError c)"

abbreviation port_fail :: "port_error_code \<Rightarrow> 'a result" where
  "port_fail c \<equiv> Inl (ApplicationPortError c)"

text \<open>
  Statements that may throw are composed by \<open>andThen\<close>, and a guard that throws \<open>e\<close> is \<open>ensure\<close>.
\<close>

definition andThen :: "'a result \<Rightarrow> ('a \<Rightarrow> 'b result) \<Rightarrow> 'b result" where
  "andThen r f = (case r of Inl e \<Rightarrow> Inl e | Inr x \<Rightarrow> f x)"

definition ensure :: "bool \<Rightarrow> error \<Rightarrow> unit result" where
  "ensure b e = (if b then Inr () else Inl e)"

section \<open>JavaScript helpers\<close>

definition MAX_SAFE_INTEGER :: int where
  "MAX_SAFE_INTEGER = 9007199254740991"

definition is_safe_integer :: "int \<Rightarrow> bool" where
  "is_safe_integer n \<longleftrightarrow> - MAX_SAFE_INTEGER \<le> n \<and> n \<le> MAX_SAFE_INTEGER"

definition starts_with :: "string \<Rightarrow> string \<Rightarrow> bool" where
  "starts_with s p \<longleftrightarrow> prefix p s"

text \<open>JavaScript truthiness of an optional string: absent and empty are both false.\<close>

definition truthy :: "string option \<Rightarrow> bool" where
  "truthy x \<longleftrightarrow> (case x of None \<Rightarrow> False | Some s \<Rightarrow> s \<noteq> [])"

definition keep_truthy :: "string option \<Rightarrow> string option" where
  "keep_truthy x = (if truthy x then x else None)"

definition is_space :: "char \<Rightarrow> bool" where
  "is_space c \<longleftrightarrow> c \<in> {CHR '' '', CHR 0x09, CHR 0x0A, CHR 0x0B, CHR 0x0C, CHR 0x0D, CHR 0xA0}"

definition trim :: "string \<Rightarrow> string" where
  "trim s = rev (dropWhile is_space (rev (dropWhile is_space s)))"

text \<open>Decimal rendering of integers, as template strings print them.\<close>

fun show_nat :: "nat \<Rightarrow> string" where
  "show_nat n = (if n < 10 then [char_of (48 + n)]
                 else show_nat (n div 10) @ [char_of (48 + n mod 10)])"

declare show_nat.simps [simp del]

definition show_int :: "int \<Rightarrow> string" where
  "show_int n = (if n < 0 then CHR ''-'' # show_nat (nat (- n)) else show_nat (nat n))"

section \<open>Collections of facts\<close>

named_theorems js_defs \<open>unfolding of the JavaScript helpers\<close>
named_theorems rejects \<open>what a rejected call reports\<close>
named_theorems frames \<open>what an operation leaves unchanged\<close>
named_theorems inverts \<open>what a call that succeeded had checked\<close>

lemmas [js_defs] = is_safe_integer_def MAX_SAFE_INTEGER_def starts_with_def
  truthy_def keep_truthy_def

section \<open>Generic lemmas\<close>

lemma keep_truthy_None [simp]: "keep_truthy None = None"
  by (simp add: keep_truthy_def)

lemma keep_truthy_Some [simp]: "keep_truthy (Some s) = (if s = [] then None else Some s)"
  by (simp add: keep_truthy_def truthy_def)

lemma truthy_None [simp]: "\<not> truthy None"
  by (simp add: truthy_def)

lemma truthy_Some [simp]: "truthy (Some s) \<longleftrightarrow> s \<noteq> []"
  by (simp add: truthy_def)

lemma find_SomeD: "List.find P xs = Some x \<Longrightarrow> P x \<and> x \<in> set xs"
  by (induction xs) (auto split: if_splits)

lemma last_Cons_in_set: "last (x # xs) = y \<Longrightarrow> x \<noteq> y \<Longrightarrow> y \<in> set xs"
  by (metis last_ConsL last_ConsR last_in_set)

lemma result_case_Inr: "(case r of Inl e \<Rightarrow> Inl e | Inr x \<Rightarrow> f x) = Inr y \<longleftrightarrow>
    (\<exists>x. r = Inr x \<and> f x = Inr y)"
  by (cases r) auto

lemma andThen_simps [simp]: "andThen (Inl e) f = Inl e" "andThen (Inr x) f = f x"
  by (simp_all add: andThen_def)

lemma andThen_Inr_iff: "andThen r f = Inr y \<longleftrightarrow> (\<exists>x. r = Inr x \<and> f x = Inr y)"
  by (cases r) auto

lemmas [inverts] = andThen_Inr_iff

lemma andThen_assoc: "andThen (andThen r f) g = andThen r (\<lambda>x. andThen (f x) g)"
  by (cases r) auto

lemma andThenE: "andThen r f = Inr y \<Longrightarrow> (\<And>x. r = Inr x \<Longrightarrow> f x = Inr y \<Longrightarrow> P) \<Longrightarrow> P"
  by (cases r) auto

lemma ensure_Inr_iff [simp]: "ensure b e = Inr u \<longleftrightarrow> b"
  by (simp add: ensure_def)

lemma ensure_True [simp]: "ensure True e = Inr ()"
  by (simp add: ensure_def)

lemma ensure_Inl_iff [simp]: "ensure b e = Inl e' \<longleftrightarrow> \<not> b \<and> e' = e"
  by (auto simp: ensure_def)

lemma andThen_ensure_Inr: "andThen (ensure b e) f = Inr y \<longleftrightarrow> b \<and> f () = Inr y"
  by (simp add: ensure_def)

lemma andThen_ensure_Inl: "andThen (ensure b e) f = Inl e' \<longleftrightarrow> \<not> b \<and> e' = e \<or> b \<and> f () = Inl e'"
  by (auto simp: ensure_def)

lemma not_islE: "\<not> isl r \<Longrightarrow> (\<And>x y. r = Inr (x, y) \<Longrightarrow> P) \<Longrightarrow> P"
  by (cases r) auto

section \<open>Decimal rendering is injective\<close>

lemma show_nat_digits: "c \<in> set (show_nat n) \<Longrightarrow> 48 \<le> (of_char c :: nat) \<and> (of_char c :: nat) \<le> 57"
proof (induction n rule: show_nat.induct)
  case (1 n)
  show ?case
  proof (cases "n < 10")
    case True
    with "1.prems" show ?thesis by (subst (asm) show_nat.simps) (simp add: of_char_of take_bit_eq_mod)
  next
    case False
    with "1.prems" have "c \<in> set (show_nat (n div 10)) \<or> c = char_of (48 + n mod 10)"
      by (subst (asm) show_nat.simps) auto
    then show ?thesis
    proof
      assume "c \<in> set (show_nat (n div 10))"
      with "1.IH" [OF False] show ?thesis by blast
    next
      assume "c = char_of (48 + n mod 10)"
      then show ?thesis by (simp add: of_char_of take_bit_eq_mod)
    qed
  qed
qed

lemma show_nat_not_Nil: "show_nat n \<noteq> []"
  by (subst show_nat.simps) simp

lemma last_show_nat: "last (show_nat n) = char_of (48 + n mod 10)"
  by (subst show_nat.simps) simp

lemma butlast_show_nat: "\<not> n < 10 \<Longrightarrow> butlast (show_nat n) = show_nat (n div 10)"
  by (subst show_nat.simps) simp

lemma butlast_show_small: "n < 10 \<Longrightarrow> butlast (show_nat n) = []"
  by (subst show_nat.simps) simp

lemma digit_code_inj: "(char_of (48 + a mod 10 :: nat) = char_of (48 + b mod 10)) = (a mod 10 = b mod (10 :: nat))"
proof
  assume "char_of (48 + a mod 10 :: nat) = char_of (48 + b mod 10)"
  then have "(of_char (char_of (48 + a mod 10 :: nat)) :: nat) = of_char (char_of (48 + b mod 10))" by simp
  then show "a mod 10 = b mod 10" by (simp add: of_char_of take_bit_eq_mod)
qed simp

lemma show_nat_inj: "show_nat a = show_nat b \<Longrightarrow> a = b"
proof (induction a arbitrary: b rule: show_nat.induct)
  case (1 a)
  have l: "a mod 10 = b mod 10" using "1.prems" last_show_nat [of a] last_show_nat [of b] digit_code_inj by metis
  show ?case
  proof (cases "a < 10")
    case True
    then have "b < 10" using "1.prems" butlast_show_small [of a] butlast_show_nat [of b] show_nat_not_Nil by metis
    with True l show ?thesis by simp
  next
    case False
    then have "\<not> b < 10" using "1.prems" butlast_show_small [of b] butlast_show_nat [of a] show_nat_not_Nil by metis
    with False have "show_nat (a div 10) = show_nat (b div 10)" using "1.prems" butlast_show_nat by metis
    then have "a div 10 = b div 10" using "1.IH" [OF False] by blast
    with l show ?thesis by (metis div_mult_mod_eq)
  qed
qed

lemma show_nat_no: "of_char c < (48 :: nat) \<or> of_char c > (57 :: nat) \<Longrightarrow> c \<notin> set (show_nat n)"
  using show_nat_digits [of c n] by auto

lemma show_int_no_colon: "CHR '':'' \<notin> set (show_int n)"
  using show_nat_no [of "CHR '':''"] by (auto simp: show_int_def)

lemma show_int_inj: "show_int a = show_int b \<Longrightarrow> a = b"
proof -
  assume eq: "show_int a = show_int b"
  have "CHR ''-'' \<notin> set (show_nat n)" for n using show_nat_no [of "CHR ''-''"] by simp
  then have ne: "show_nat n \<noteq> CHR ''-'' # xs" "CHR ''-'' # xs \<noteq> show_nat n" for n xs
    by (metis list.set_intros(1))+
  have inj: "show_nat m = show_nat n \<longleftrightarrow> m = n" for m n using show_nat_inj by blast
  show "a = b" using eq by (auto simp: show_int_def ne inj split: if_splits)
qed

lemma split_at_separator:
  "c \<notin> set xs \<Longrightarrow> c \<notin> set ys \<Longrightarrow> xs @ c # u = ys @ c # v \<longleftrightarrow> xs = ys \<and> u = v"
proof (induction xs arbitrary: ys)
  case Nil
  then show ?case by (cases ys) auto
next
  case (Cons x xs)
  then show ?case by (cases ys) auto
qed

lemma split_last_colon:
  assumes "u @ '':'' @ x = v @ '':'' @ y" "CHR '':'' \<notin> set x" "CHR '':'' \<notin> set y"
  shows "u = v \<and> x = y"
proof -
  have "rev x @ CHR '':'' # rev u = rev y @ CHR '':'' # rev v"
    using arg_cong [OF assms(1), of rev] by simp
  then have "rev x = rev y \<and> rev u = rev v"
    using split_at_separator [of "CHR '':''" "rev x" "rev y" "rev u" "rev v"] assms(2,3) by simp
  then show ?thesis by simp
qed

end
