(* ===== verification/Lifecycle.thy ===== *)
theory Lifecycle
  imports Prelude
begin

text \<open>
  The contract every status machine of the domain package keeps. An operation \<open>step\<close> moves an entity
  to a requested status; a table \<open>allowed\<close> lists the statuses each status may move to. The locale
  \<open>lifecycle\<close> states what a status operation promises (it succeeds exactly on the table's entries,
  sets the status it was asked for, and keeps the identity of the entity), and its lemmas are what a
  client may conclude about whole sequences of operations: statuses form a path of the table,
  terminal statuses are final, and identities never change. \<open>ranked_lifecycle\<close> adds a rank that each
  table entry lowers, and bounds how long a history can be.
\<close>

fun steps :: "('a \<Rightarrow> 's \<Rightarrow> 'e + 'a) \<Rightarrow> 'a \<Rightarrow> 's list \<Rightarrow> 'e + 'a" where
  "steps step x [] = Inr x"
| "steps step x (n # ns) = (case step x n of Inl e \<Rightarrow> Inl e | Inr y \<Rightarrow> steps step y ns)"

fun is_path :: "('s \<Rightarrow> 's list) \<Rightarrow> 's \<Rightarrow> 's list \<Rightarrow> bool" where
  "is_path allowed s [] = True"
| "is_path allowed s (n # ns) = (n \<in> set (allowed s) \<and> is_path allowed n ns)"

lemma is_path_append:
  "is_path allowed s (ns @ ms) = (is_path allowed s ns \<and> is_path allowed (last (s # ns)) ms)"
  by (induction ns arbitrary: s) auto

locale lifecycle =
  fixes step :: "'a \<Rightarrow> 's \<Rightarrow> 'e + 'a"
    and status :: "'a \<Rightarrow> 's"
    and ident :: "'a \<Rightarrow> 'k"
    and allowed :: "'s \<Rightarrow> 's list"
  assumes step_iff: "(\<exists>y. step x n = Inr y) \<longleftrightarrow> n \<in> set (allowed (status x))"
    and step_status: "step x n = Inr y \<Longrightarrow> status y = n"
    and step_ident: "step x n = Inr y \<Longrightarrow> ident y = ident x"
begin

lemma steps_iff_path: "(\<exists>y. steps step x ns = Inr y) \<longleftrightarrow> is_path allowed (status x) ns"
proof (induction ns arbitrary: x)
  case (Cons n ns)
  show ?case
  proof (cases "step x n")
    case (Inl e)
    then show ?thesis using step_iff [of x n] by auto
  next
    case (Inr y)
    then have "n \<in> set (allowed (status x))" using step_iff by blast
    with Inr show ?thesis using Cons [of y] step_status [OF Inr] by auto
  qed
qed simp

lemma steps_status: "steps step x ns = Inr y \<Longrightarrow> status y = last (status x # ns)"
proof (induction ns arbitrary: x)
  case (Cons n ns)
  then obtain z where z: "step x n = Inr z" "steps step z ns = Inr y"
    by (auto split: sum.splits)
  with Cons.IH [OF z(2)] step_status [OF z(1)] show ?case by simp
qed simp

lemma steps_ident: "steps step x ns = Inr y \<Longrightarrow> ident y = ident x"
proof (induction ns arbitrary: x)
  case (Cons n ns)
  then obtain z where z: "step x n = Inr z" "steps step z ns = Inr y"
    by (auto split: sum.splits)
  with Cons.IH [OF z(2)] step_ident [OF z(1)] show ?case by simp
qed simp

lemma terminal_final:
  assumes "allowed (status x) = []" and "steps step x ns = Inr y"
  shows "ns = [] \<and> y = x"
proof (cases ns)
  case (Cons n ms)
  with assms(2) obtain z where "step x n = Inr z" by (auto split: sum.splits)
  with step_iff [of x n] assms(1) show ?thesis by auto
qed (use assms in simp)

end

locale ranked_lifecycle = lifecycle +
  fixes rank :: "'s \<Rightarrow> nat"
  assumes rank_decreases: "n \<in> set (allowed s) \<Longrightarrow> rank n < rank s"
begin

lemma path_bounded: "is_path allowed s ns \<Longrightarrow> length ns + rank (last (s # ns)) \<le> rank s"
proof (induction ns arbitrary: s)
  case (Cons n ns)
  then have "rank n < rank s" and "length ns + rank (last (n # ns)) \<le> rank n"
    using rank_decreases by auto
  then show ?case by simp
qed simp

lemma history_bounded: "steps step x ns = Inr y \<Longrightarrow> length ns \<le> rank (status x)"
  using steps_iff_path [of x ns] path_bounded [of "status x" ns] by auto

end

end
