(* ===== verification/Identifiers.thy ===== *)
theory Identifiers
  imports Prelude
begin

text \<open>
  The branded identifiers of \<open>packages/domain/src/identifiers.ts\<close>: one validation,
  \<open>createIdentifier\<close>, shared by the constructor of every identifier type. A brand exists only in
  the TypeScript type checker, so an identifier is a string here too.
\<close>

type_synonym OwnerId = string
type_synonym AgentId = string
type_synonym ThreadId = string
type_synonym SessionId = string
type_synonym RunId = string
type_synonym TurnId = string
type_synonym TriggerId = string
type_synonym IdempotencyKey = string
type_synonym AuthorityLeaseId = string
type_synonym AuthorityHolderId = string
type_synonym DeploymentId = string
type_synonym MessageId = string
type_synonym CheckpointJobId = string
type_synonym MemoryGenerationId = string
type_synonym MemoryId = string
type_synonym DeviceId = string
type_synonym JobId = string
type_synonym OccurrenceId = string
type_synonym GitHubReceiptId = string
type_synonym CoverageGapId = string
type_synonym BackupId = string
type_synonym TransferId = string
type_synonym HealthSnapshotId = string
type_synonym SuggestionId = string
type_synonym ReflectionId = string
type_synonym DelegationId = string
type_synonym WorkerRunId = string
type_synonym ImprovementId = string
type_synonym RunExecutionLeaseId = string

section \<open>Validation\<close>

definition is_alnum :: "char \<Rightarrow> bool" where
  "is_alnum c \<longleftrightarrow> (CHR ''A'' \<le> c \<and> c \<le> CHR ''Z'') \<or> (CHR ''a'' \<le> c \<and> c \<le> CHR ''z'') \<or>
     (CHR ''0'' \<le> c \<and> c \<le> CHR ''9'')"

definition is_identifier_char :: "char \<Rightarrow> bool" where
  "is_identifier_char c \<longleftrightarrow> is_alnum c \<or> c \<in> set ''._:-''"

text \<open>The regular expression \<^verbatim>\<open>/^[A-Za-z0-9][A-Za-z0-9._:-]{0,127}$/\<close>.\<close>

definition MACHINE_IDENTIFIER_PATTERN :: "string \<Rightarrow> bool" where
  "MACHINE_IDENTIFIER_PATTERN s = (case s of
       [] \<Rightarrow> False
     | c # cs \<Rightarrow> is_alnum c \<and> length cs \<le> 127 \<and> list_all is_identifier_char cs)"

definition createIdentifier :: "string \<Rightarrow> string \<Rightarrow> string result" where
  "createIdentifier value kind =
     (if \<not> MACHINE_IDENTIFIER_PATTERN value then domain_fail INVALID_IDENTIFIER else Inr value)"

section \<open>The constructors\<close>

definition createOwnerId :: "string \<Rightarrow> OwnerId result" where
  "createOwnerId value = createIdentifier value ''OwnerId''"

definition createAgentId :: "string \<Rightarrow> AgentId result" where
  "createAgentId value = createIdentifier value ''AgentId''"

definition createThreadId :: "string \<Rightarrow> ThreadId result" where
  "createThreadId value = createIdentifier value ''ThreadId''"

definition createSessionId :: "string \<Rightarrow> SessionId result" where
  "createSessionId value = createIdentifier value ''SessionId''"

definition createRunId :: "string \<Rightarrow> RunId result" where
  "createRunId value = createIdentifier value ''RunId''"

definition createTurnId :: "string \<Rightarrow> TurnId result" where
  "createTurnId value = createIdentifier value ''TurnId''"

definition createTriggerId :: "string \<Rightarrow> TriggerId result" where
  "createTriggerId value = createIdentifier value ''TriggerId''"

definition createIdempotencyKey :: "string \<Rightarrow> IdempotencyKey result" where
  "createIdempotencyKey value = createIdentifier value ''IdempotencyKey''"

definition createAuthorityLeaseId :: "string \<Rightarrow> AuthorityLeaseId result" where
  "createAuthorityLeaseId value = createIdentifier value ''AuthorityLeaseId''"

definition createAuthorityHolderId :: "string \<Rightarrow> AuthorityHolderId result" where
  "createAuthorityHolderId value = createIdentifier value ''AuthorityHolderId''"

definition createDeploymentId :: "string \<Rightarrow> DeploymentId result" where
  "createDeploymentId value = createIdentifier value ''DeploymentId''"

definition createMessageId :: "string \<Rightarrow> MessageId result" where
  "createMessageId value = createIdentifier value ''MessageId''"

definition createCheckpointJobId :: "string \<Rightarrow> CheckpointJobId result" where
  "createCheckpointJobId value = createIdentifier value ''CheckpointJobId''"

definition createMemoryGenerationId :: "string \<Rightarrow> MemoryGenerationId result" where
  "createMemoryGenerationId value = createIdentifier value ''MemoryGenerationId''"

definition createMemoryId :: "string \<Rightarrow> MemoryId result" where
  "createMemoryId value = createIdentifier value ''MemoryId''"

definition createDeviceId :: "string \<Rightarrow> DeviceId result" where
  "createDeviceId value = createIdentifier value ''DeviceId''"

definition createJobId :: "string \<Rightarrow> JobId result" where
  "createJobId value = createIdentifier value ''JobId''"

definition createOccurrenceId :: "string \<Rightarrow> OccurrenceId result" where
  "createOccurrenceId value = createIdentifier value ''OccurrenceId''"

definition createGitHubReceiptId :: "string \<Rightarrow> GitHubReceiptId result" where
  "createGitHubReceiptId value = createIdentifier value ''GitHubReceiptId''"

definition createCoverageGapId :: "string \<Rightarrow> CoverageGapId result" where
  "createCoverageGapId value = createIdentifier value ''CoverageGapId''"

definition createBackupId :: "string \<Rightarrow> BackupId result" where
  "createBackupId value = createIdentifier value ''BackupId''"

definition createTransferId :: "string \<Rightarrow> TransferId result" where
  "createTransferId value = createIdentifier value ''TransferId''"

definition createHealthSnapshotId :: "string \<Rightarrow> HealthSnapshotId result" where
  "createHealthSnapshotId value = createIdentifier value ''HealthSnapshotId''"

definition createSuggestionId :: "string \<Rightarrow> SuggestionId result" where
  "createSuggestionId value = createIdentifier value ''SuggestionId''"

definition createReflectionId :: "string \<Rightarrow> ReflectionId result" where
  "createReflectionId value = createIdentifier value ''ReflectionId''"

definition createDelegationId :: "string \<Rightarrow> DelegationId result" where
  "createDelegationId value = createIdentifier value ''DelegationId''"

definition createWorkerRunId :: "string \<Rightarrow> WorkerRunId result" where
  "createWorkerRunId value = createIdentifier value ''WorkerRunId''"

definition createImprovementId :: "string \<Rightarrow> ImprovementId result" where
  "createImprovementId value = createIdentifier value ''ImprovementId''"

definition createRunExecutionLeaseId :: "string \<Rightarrow> RunExecutionLeaseId result" where
  "createRunExecutionLeaseId value = createIdentifier value ''RunExecutionLeaseId''"

lemmas create_id_defs = createOwnerId_def
  createAgentId_def
  createThreadId_def
  createSessionId_def
  createRunId_def
  createTurnId_def
  createTriggerId_def
  createIdempotencyKey_def
  createAuthorityLeaseId_def
  createAuthorityHolderId_def
  createDeploymentId_def
  createMessageId_def
  createCheckpointJobId_def
  createMemoryGenerationId_def
  createMemoryId_def
  createDeviceId_def
  createJobId_def
  createOccurrenceId_def
  createGitHubReceiptId_def
  createCoverageGapId_def
  createBackupId_def
  createTransferId_def
  createHealthSnapshotId_def
  createSuggestionId_def
  createReflectionId_def
  createDelegationId_def
  createWorkerRunId_def
  createImprovementId_def
  createRunExecutionLeaseId_def

section \<open>Facts\<close>

lemma createIdentifier_ok [simp]:
  "createIdentifier v k = Inr w \<longleftrightarrow> w = v \<and> MACHINE_IDENTIFIER_PATTERN v"
  by (auto simp: createIdentifier_def)

lemma createIdentifier_error [rejects]:
  "createIdentifier v k = Inl e \<longleftrightarrow> e = DomainError INVALID_IDENTIFIER \<and> \<not> MACHINE_IDENTIFIER_PATTERN v"
  by (auto simp: createIdentifier_def)

lemma identifier_nonempty: "MACHINE_IDENTIFIER_PATTERN v \<Longrightarrow> v \<noteq> []"
  by (auto simp: MACHINE_IDENTIFIER_PATTERN_def)

lemma identifier_chars:
  "MACHINE_IDENTIFIER_PATTERN v \<longleftrightarrow>
     1 \<le> length v \<and> length v \<le> 128 \<and> is_alnum (hd v) \<and> (\<forall>c \<in> set v. is_identifier_char c)"
  by (cases v) (auto simp: MACHINE_IDENTIFIER_PATTERN_def is_identifier_char_def list_all_iff)

text \<open>
  The separators the services put between identifiers in composed keys, spaces, slashes and at signs
  included, are either in the identifier alphabet or rejected: whitespace never survives validation,
  so trimming an identifier does nothing.
\<close>

lemma identifier_char_not_space: "is_identifier_char c \<Longrightarrow> \<not> is_space c"
  by (auto simp: is_identifier_char_def is_alnum_def is_space_def less_eq_char_def)

lemma dropWhile_all_not: "\<forall>x \<in> set xs. \<not> P x \<Longrightarrow> dropWhile P xs = xs"
  by (cases xs) auto

lemma trim_identifier: "MACHINE_IDENTIFIER_PATTERN v \<Longrightarrow> trim v = v"
  by (simp add: trim_def identifier_chars dropWhile_all_not identifier_char_not_space)

end
