(* ===== verification/Entities.thy ===== *)
theory Entities
  imports Identifiers
begin

text \<open>
  Owners, Agents, Threads, Sessions and Triggers (\<open>packages/domain/src/entities.ts\<close>). Every entity
  below an Owner copies the owner and agent it belongs to, and a Session or a Trigger that names a
  Thread is only created when the Thread belongs to the same Owner and Agent.
\<close>

record owner =
  owner_id :: OwnerId

record agent =
  agent_id :: AgentId
  agent_ownerId :: OwnerId

record thread =
  thread_id :: ThreadId
  thread_ownerId :: OwnerId
  thread_agentId :: AgentId

record session =
  session_id :: SessionId
  session_ownerId :: OwnerId
  session_agentId :: AgentId
  session_threadId :: "ThreadId option"

record trigger =
  trigger_id :: TriggerId
  trigger_idempotencyKey :: IdempotencyKey
  trigger_ownerId :: OwnerId
  trigger_agentId :: AgentId
  trigger_threadId :: "ThreadId option"

definition assertThreadOwnership :: "agent \<Rightarrow> thread \<Rightarrow> unit result" where
  "assertThreadOwnership a t =
     (if thread_ownerId t \<noteq> agent_ownerId a \<or> thread_agentId t \<noteq> agent_id a
      then domain_fail OWNERSHIP_MISMATCH else Inr ())"

definition createOwner :: "OwnerId \<Rightarrow> owner" where
  "createOwner i = \<lparr>owner_id = i\<rparr>"

definition createAgent :: "AgentId \<Rightarrow> owner \<Rightarrow> agent" where
  "createAgent i ow = \<lparr>agent_id = i, agent_ownerId = owner_id ow\<rparr>"

definition createThread :: "ThreadId \<Rightarrow> agent \<Rightarrow> thread" where
  "createThread i a = \<lparr>thread_id = i, thread_ownerId = agent_ownerId a, thread_agentId = agent_id a\<rparr>"

definition createSession :: "SessionId \<Rightarrow> agent \<Rightarrow> thread option \<Rightarrow> session result" where
  "createSession i a t =
     (let made = \<lparr>session_id = i, session_ownerId = agent_ownerId a, session_agentId = agent_id a,
                  session_threadId = map_option thread_id t\<rparr>
      in case t of
           None \<Rightarrow> Inr made
         | Some th \<Rightarrow> (case assertThreadOwnership a th of Inl e \<Rightarrow> Inl e | Inr _ \<Rightarrow> Inr made))"

definition createTrigger ::
  "TriggerId \<Rightarrow> IdempotencyKey \<Rightarrow> agent \<Rightarrow> thread option \<Rightarrow> trigger result" where
  "createTrigger i k a t =
     (let made = \<lparr>trigger_id = i, trigger_idempotencyKey = k, trigger_ownerId = agent_ownerId a,
                  trigger_agentId = agent_id a, trigger_threadId = map_option thread_id t\<rparr>
      in case t of
           None \<Rightarrow> Inr made
         | Some th \<Rightarrow> (case assertThreadOwnership a th of Inl e \<Rightarrow> Inl e | Inr _ \<Rightarrow> Inr made))"

section \<open>Facts\<close>

lemma assertThreadOwnership_ok [simp]:
  "assertThreadOwnership a t = Inr u \<longleftrightarrow> thread_ownerId t = agent_ownerId a \<and> thread_agentId t = agent_id a"
  by (auto simp: assertThreadOwnership_def)

lemma assertThreadOwnership_error [rejects]:
  "assertThreadOwnership a t = Inl e \<longleftrightarrow>
     e = DomainError OWNERSHIP_MISMATCH \<and> (thread_ownerId t \<noteq> agent_ownerId a \<or> thread_agentId t \<noteq> agent_id a)"
  by (auto simp: assertThreadOwnership_def)

lemma createSession_ok:
  "createSession i a t = Inr s \<longleftrightarrow>
     (\<forall>th. t = Some th \<longrightarrow> thread_ownerId th = agent_ownerId a \<and> thread_agentId th = agent_id a) \<and>
     s = \<lparr>session_id = i, session_ownerId = agent_ownerId a, session_agentId = agent_id a,
          session_threadId = map_option thread_id t\<rparr>"
  by (cases t) (auto simp: createSession_def Let_def result_case_Inr)

lemma createTrigger_ok:
  "createTrigger i k a t = Inr tr \<longleftrightarrow>
     (\<forall>th. t = Some th \<longrightarrow> thread_ownerId th = agent_ownerId a \<and> thread_agentId th = agent_id a) \<and>
     tr = \<lparr>trigger_id = i, trigger_idempotencyKey = k, trigger_ownerId = agent_ownerId a,
           trigger_agentId = agent_id a, trigger_threadId = map_option thread_id t\<rparr>"
  by (cases t) (auto simp: createTrigger_def Let_def result_case_Inr)

lemma createThread_owned [simp]: "assertThreadOwnership a (createThread i a) = Inr ()"
  by (simp add: createThread_def)

end
