(* ===== verification/Run_State.thy ===== *)
theory Run_State
  imports Entities Lifecycle
begin

text \<open>
  Runs, their status machine (\<open>packages/domain/src/run-state.ts\<close>) and the Turns made from them
  (\<open>createTurn\<close> of \<open>entities.ts\<close>). The machine is an instance of the \<open>lifecycle\<close> contract.
\<close>

datatype run_status =
    run_accepted
  | run_building_context
  | run_running
  | run_awaiting_approval
  | run_reconciling_external_result
  | run_completed
  | run_failed
  | run_cancelled

definition RUN_STATUSES :: "run_status list" where
  "RUN_STATUSES = [run_accepted, run_building_context, run_running, run_awaiting_approval,
     run_reconciling_external_result, run_completed, run_failed, run_cancelled]"

record run =
  run_id :: RunId
  run_ownerId :: OwnerId
  run_agentId :: AgentId
  run_sessionId :: SessionId
  run_triggerId :: TriggerId
  run_threadId :: "ThreadId option"
  run_status :: run_status

definition TERMINAL_RUN_STATUSES :: "run_status list" where
  "TERMINAL_RUN_STATUSES = [run_completed, run_failed, run_cancelled]"

fun ALLOWED_TRANSITIONS :: "run_status \<Rightarrow> run_status list" where
  "ALLOWED_TRANSITIONS run_accepted = [run_building_context, run_reconciling_external_result, run_failed, run_cancelled]"
| "ALLOWED_TRANSITIONS run_building_context = [run_running, run_reconciling_external_result, run_failed, run_cancelled]"
| "ALLOWED_TRANSITIONS run_running =
     [run_awaiting_approval, run_reconciling_external_result, run_completed, run_failed, run_cancelled]"
| "ALLOWED_TRANSITIONS run_awaiting_approval = [run_running, run_failed, run_cancelled]"
| "ALLOWED_TRANSITIONS run_reconciling_external_result = [run_completed, run_failed, run_cancelled]"
| "ALLOWED_TRANSITIONS run_completed = []"
| "ALLOWED_TRANSITIONS run_failed = []"
| "ALLOWED_TRANSITIONS run_cancelled = []"

definition assertRunOwnership :: "session \<Rightarrow> trigger \<Rightarrow> unit result" where
  "assertRunOwnership s t =
     (let triggerThreadConflicts = trigger_threadId t \<noteq> None \<and> trigger_threadId t \<noteq> session_threadId s
      in if trigger_ownerId t \<noteq> session_ownerId s \<or> trigger_agentId t \<noteq> session_agentId s
            \<or> triggerThreadConflicts
         then domain_fail OWNERSHIP_MISMATCH else Inr ())"

definition createRun :: "RunId \<Rightarrow> session \<Rightarrow> trigger \<Rightarrow> run result" where
  "createRun i s t = (case assertRunOwnership s t of
       Inl e \<Rightarrow> Inl e
     | Inr _ \<Rightarrow> Inr \<lparr>run_id = i, run_ownerId = session_ownerId s, run_agentId = session_agentId s,
         run_sessionId = session_id s, run_triggerId = trigger_id t,
         run_threadId = keep_truthy (session_threadId s), run_status = run_accepted\<rparr>)"

definition transitionRun :: "run \<Rightarrow> run_status \<Rightarrow> run result" where
  "transitionRun r nxt =
     (if run_status r \<in> set TERMINAL_RUN_STATUSES then domain_fail RUN_ALREADY_TERMINAL
      else if nxt \<notin> set (ALLOWED_TRANSITIONS (run_status r)) then domain_fail INVALID_RUN_TRANSITION
      else Inr (r\<lparr>run_status := nxt\<rparr>))"

record turn =
  turn_id :: TurnId
  turn_ownerId :: OwnerId
  turn_agentId :: AgentId
  turn_sessionId :: SessionId
  turn_runId :: RunId
  turn_threadId :: "ThreadId option"

definition createTurn :: "TurnId \<Rightarrow> run \<Rightarrow> turn" where
  "createTurn i r = \<lparr>turn_id = i, turn_ownerId = run_ownerId r, turn_agentId = run_agentId r,
     turn_sessionId = run_sessionId r, turn_runId = run_id r,
     turn_threadId = keep_truthy (run_threadId r)\<rparr>"

section \<open>Facts\<close>

lemma TERMINAL_iff_stuck: "s \<in> set TERMINAL_RUN_STATUSES \<longleftrightarrow> ALLOWED_TRANSITIONS s = []"
  by (cases s) (simp_all add: TERMINAL_RUN_STATUSES_def)

lemma RUN_STATUSES_complete: "s \<in> set RUN_STATUSES"
  by (cases s) (simp_all add: RUN_STATUSES_def)

lemma assertRunOwnership_ok [simp]:
  "assertRunOwnership s t = Inr u \<longleftrightarrow> trigger_ownerId t = session_ownerId s \<and>
     trigger_agentId t = session_agentId s \<and>
     (trigger_threadId t = None \<or> trigger_threadId t = session_threadId s)"
  by (auto simp: assertRunOwnership_def Let_def)

lemma createRun_ok:
  "createRun i s t = Inr r \<longleftrightarrow>
     trigger_ownerId t = session_ownerId s \<and> trigger_agentId t = session_agentId s \<and>
     (trigger_threadId t = None \<or> trigger_threadId t = session_threadId s) \<and>
     r = \<lparr>run_id = i, run_ownerId = session_ownerId s, run_agentId = session_agentId s,
          run_sessionId = session_id s, run_triggerId = trigger_id t,
          run_threadId = keep_truthy (session_threadId s), run_status = run_accepted\<rparr>"
  by (auto simp: createRun_def result_case_Inr)

lemma transitionRun_ok:
  "transitionRun r n = Inr r' \<longleftrightarrow>
     n \<in> set (ALLOWED_TRANSITIONS (run_status r)) \<and> r' = r\<lparr>run_status := n\<rparr>"
  by (auto simp: transitionRun_def TERMINAL_iff_stuck)

definition run_ident :: "run \<Rightarrow> run" where
  "run_ident r = r\<lparr>run_status := run_accepted\<rparr>"

interpretation run_lc: lifecycle transitionRun run_status run_ident ALLOWED_TRANSITIONS
  by unfold_locales (auto simp: transitionRun_ok run_ident_def)

text \<open>Every live status has a way out that no other condition guards.\<close>

lemma live_run_can_end:
  "run_status r \<notin> set TERMINAL_RUN_STATUSES \<Longrightarrow> n \<in> {run_failed, run_cancelled} \<Longrightarrow>
     transitionRun r n = Inr (r\<lparr>run_status := n\<rparr>)"
  by (cases "run_status r") (auto simp: transitionRun_ok TERMINAL_RUN_STATUSES_def)

lemma completed_predecessors:
  "run_completed \<in> set (ALLOWED_TRANSITIONS s) \<longleftrightarrow> s \<in> {run_running, run_reconciling_external_result}"
  by (cases s) auto

lemma path_to_completed:
  "is_path ALLOWED_TRANSITIONS s ns \<Longrightarrow> run_completed \<in> set ns \<Longrightarrow>
     run_running \<in> set (s # ns) \<or> run_reconciling_external_result \<in> set (s # ns)"
proof (induction ns arbitrary: s)
  case (Cons n ns)
  then show ?case
    by (cases "n = run_completed") (auto simp: completed_predecessors)
qed simp

lemma path_last_terminal:
  "is_path ALLOWED_TRANSITIONS s ns \<Longrightarrow> n \<in> set ns \<Longrightarrow> n \<in> set TERMINAL_RUN_STATUSES \<Longrightarrow> n = last ns"
proof (induction ns arbitrary: s)
  case (Cons m ns)
  show ?case
  proof (cases "n \<in> set ns")
    case True
    with Cons show ?thesis by auto
  next
    case False
    with Cons.prems have "is_path ALLOWED_TRANSITIONS n ns" by auto
    with Cons.prems(3) have "ns = []" by (cases ns) (auto simp: TERMINAL_iff_stuck)
    with Cons.prems False show ?thesis by simp
  qed
qed simp

lemma steps_transitionRun:
  "steps transitionRun r ns = Inr r' \<Longrightarrow> r' = r\<lparr>run_status := last (run_status r # ns)\<rparr>"
  using run_lc.steps_ident [of r ns r'] run_lc.steps_status [of r ns r']
  by (cases r; cases r') (simp add: run_ident_def)

text \<open>
  A Run's history is a path of the transition table: a sequence of status requests succeeds
  exactly when each request is in the table for the status before it, the Run then ends in the last
  status requested, and every other field is the one the Run was created with.
\<close>

theorem run_history_is_table_path:
  "steps transitionRun r ns = Inr r' \<longleftrightarrow>
     is_path ALLOWED_TRANSITIONS (run_status r) ns \<and> r' = r\<lparr>run_status := last (run_status r # ns)\<rparr>"
  using run_lc.steps_iff_path [of r ns] steps_transitionRun [of r ns] by auto

text \<open>
  Every Run whose history reaches \<open>completed\<close> was run_running or had an external result under
  reconciliation before, a terminal status is only ever the last status of a history, and a terminal
  Run rejects every further request as already terminal.
\<close>

theorem run_completion_discipline:
  assumes start: "run_status r = run_accepted" and hist: "steps transitionRun r ns = Inr r'"
    and fin: "run_status r' = run_completed"
  shows "(run_running \<in> set ns \<or> run_reconciling_external_result \<in> set ns) \<and>
    (\<forall>n \<in> set (butlast ns). n \<notin> set TERMINAL_RUN_STATUSES) \<and>
    transitionRun r' n = domain_fail RUN_ALREADY_TERMINAL"
proof -
  have path: "is_path ALLOWED_TRANSITIONS run_accepted ns"
    using run_lc.steps_iff_path [of r ns] hist start by auto
  have final: "last (run_accepted # ns) = run_completed"
    using run_lc.steps_status [OF hist] start fin by simp
  then have nonempty: "ns \<noteq> []" by auto
  with final have "run_completed \<in> set ns" by (metis last_ConsR last_in_set)
  with path_to_completed [OF path] have ends: "run_running \<in> set ns \<or> run_reconciling_external_result \<in> set ns"
    by auto
  have "\<not> is_path ALLOWED_TRANSITIONS run_accepted ns" if n: "n \<in> set (butlast ns)" "n \<in> set TERMINAL_RUN_STATUSES" for n
  proof -
    from n(1) obtain ms ks where "butlast ns = ms @ n # ks" by (meson split_list)
    with nonempty have "ns = (ms @ [n]) @ ks @ [last ns]"
      by (metis append.assoc append_Cons append_Nil append_butlast_last_id)
    then have "is_path ALLOWED_TRANSITIONS run_accepted ns \<Longrightarrow> is_path ALLOWED_TRANSITIONS n (ks @ [last ns])"
      by (metis is_path_append last_ConsR last_snoc snoc_eq_iff_butlast)
    moreover have "\<not> is_path ALLOWED_TRANSITIONS n (ks @ [last ns])"
      using n(2) by (cases ks) (auto simp: TERMINAL_iff_stuck)
    ultimately show ?thesis by blast
  qed
  with path ends fin show ?thesis
    by (auto simp: transitionRun_def TERMINAL_RUN_STATUSES_def)
qed

theorem run_completion_discipline_witness:
  "let r = \<lparr>run_id = ''r'', run_ownerId = ''o'', run_agentId = ''a'', run_sessionId = ''s'',
            run_triggerId = ''t'', run_threadId = None, run_status = run_accepted\<rparr>
   in transitionRun (r\<lparr>run_status := run_completed\<rparr>) run_failed = domain_fail RUN_ALREADY_TERMINAL"
proof -
  let ?r = "\<lparr>run_id = ''r'', run_ownerId = ''o'', run_agentId = ''a'', run_sessionId = ''s'',
            run_triggerId = ''t'', run_threadId = None, run_status = run_accepted\<rparr>"
  have "steps transitionRun ?r [run_building_context, run_running, run_completed] = Inr (?r\<lparr>run_status := run_completed\<rparr>)"
    by (simp add: transitionRun_def TERMINAL_RUN_STATUSES_def)
  from run_completion_discipline [OF _ this] show ?thesis by (simp add: Let_def)
qed

end
