(* ===== verification/Authority.thy ===== *)
theory Authority
  imports Entities
begin

text \<open>
  The single logical authority of an Agent (\<open>packages/domain/src/authority.ts\<close>): a slot that holds at
  most one lease, claimed and released by identity. Besides the three operations, a small step
  relation drives the slot with arbitrary claims and releases, in any interleaving.
\<close>

record agent_authority_lease =
  lease_id :: AuthorityLeaseId
  lease_agentId :: AgentId
  lease_ownerId :: OwnerId
  lease_holderId :: AuthorityHolderId

definition createAgentAuthorityLease ::
  "AuthorityLeaseId \<Rightarrow> agent \<Rightarrow> AuthorityHolderId \<Rightarrow> agent_authority_lease" where
  "createAgentAuthorityLease i a h =
     \<lparr>lease_id = i, lease_agentId = agent_id a, lease_ownerId = agent_ownerId a, lease_holderId = h\<rparr>"

definition claimAgentAuthority ::
  "agent_authority_lease option \<Rightarrow> agent_authority_lease \<Rightarrow> agent_authority_lease result" where
  "claimAgentAuthority current requested = (case current of
       None \<Rightarrow> Inr requested
     | Some c \<Rightarrow>
         if lease_agentId c \<noteq> lease_agentId requested \<or> lease_ownerId c \<noteq> lease_ownerId requested
         then domain_fail AUTHORITY_LEASE_SCOPE_MISMATCH
         else if lease_id c = lease_id requested \<and> lease_holderId c = lease_holderId requested then Inr c
         else domain_fail AUTHORITY_LEASE_CONFLICT)"

definition releaseAgentAuthority ::
  "agent_authority_lease option \<Rightarrow> AuthorityLeaseId \<Rightarrow> agent_authority_lease option result" where
  "releaseAgentAuthority current i = (case current of
       None \<Rightarrow> domain_fail AUTHORITY_LEASE_NOT_HELD
     | Some c \<Rightarrow> if lease_id c \<noteq> i then domain_fail AUTHORITY_LEASE_NOT_HELD else Inr None)"

section \<open>The slot as a state machine\<close>

datatype authority_event = Claimed agent_authority_lease | Released AuthorityLeaseId

inductive slot_step ::
  "agent_authority_lease option \<Rightarrow> authority_event \<Rightarrow> agent_authority_lease option \<Rightarrow> bool" where
  claim: "claimAgentAuthority s l = Inr l' \<Longrightarrow> slot_step s (Claimed l) (Some l')"
| release: "releaseAgentAuthority s i = Inr s' \<Longrightarrow> slot_step s (Released i) s'"

inductive slot_trace ::
  "agent_authority_lease option \<Rightarrow> authority_event list \<Rightarrow> agent_authority_lease option \<Rightarrow> bool" where
  trace_nil: "slot_trace s [] s"
| trace_cons: "slot_step s e t \<Longrightarrow> slot_trace t es u \<Longrightarrow> slot_trace s (e # es) u"

inductive_simps slot_step_Claimed: "slot_step s (Claimed l) t"
inductive_simps slot_step_Released: "slot_step s (Released i) t"
inductive_simps slot_trace_Nil [simp]: "slot_trace s [] u"
inductive_simps slot_trace_Cons [simp]: "slot_trace s (e # es) u"

section \<open>Facts\<close>

lemma claim_ok:
  "claimAgentAuthority s l = Inr l' \<longleftrightarrow> l' = l \<and> (s = None \<or> s = Some l)"
  by (auto simp: claimAgentAuthority_def split: option.splits)

lemma release_ok:
  "releaseAgentAuthority s i = Inr s' \<longleftrightarrow> s' = None \<and> (\<exists>l. s = Some l \<and> lease_id l = i)"
  by (auto simp: releaseAgentAuthority_def split: option.splits)

lemma slot_trace_append:
  "slot_trace s (es @ fs) u \<longleftrightarrow> (\<exists>t. slot_trace s es t \<and> slot_trace t fs u)"
  by (induction es arbitrary: s) auto

lemmas slot_simps = slot_step_Claimed slot_step_Released claim_ok release_ok

text \<open>As long as nobody releases the lease that is held, the slot keeps it.\<close>

lemma slot_keeps_lease:
  "slot_trace s es u \<Longrightarrow> s = Some l \<Longrightarrow> Released (lease_id l) \<notin> set es \<Longrightarrow> u = Some l"
proof (induction rule: slot_trace.induct)
  case (trace_cons s e t es u)
  from \<open>slot_step s e t\<close> have "t = Some l"
    using trace_cons.prems by (cases) (auto simp: claim_ok release_ok)
  with trace_cons show ?case by simp
qed simp

text \<open>
  At most one authority at a time: in any interleaving of claims and releases of one Agent's
  authority slot, if a claim by one lease succeeds and later a claim by another lease succeeds, the
  first lease was released in between.
\<close>

theorem authority_exclusive:
  assumes trace: "slot_trace s ([Claimed a] @ es @ [Claimed b]) u" and distinct: "a \<noteq> b"
  shows "Released (lease_id a) \<in> set es"
proof (rule ccontr)
  assume not_released: "Released (lease_id a) \<notin> set es"
  from trace obtain t v where first: "slot_step s (Claimed a) t" and middle: "slot_trace t es v"
      and last_claim: "slot_trace v [Claimed b] u"
    unfolding slot_trace_append by auto
  from first have "t = Some a" by (auto simp: slot_simps)
  with slot_keeps_lease [OF middle] not_released have "v = Some a" by simp
  with last_claim distinct show False by (auto simp: slot_simps)
qed

definition example_lease :: "string \<Rightarrow> agent_authority_lease" where
  "example_lease i = \<lparr>lease_id = i, lease_agentId = ''agent'', lease_ownerId = ''owner'', lease_holderId = ''host''\<rparr>"

theorem authority_exclusive_witness:
  "let a = example_lease ''l1''; b = example_lease ''l2''; es = [Released ''l1'']
   in slot_trace None ([Claimed a] @ es @ [Claimed b]) (Some b) \<and> Released (lease_id a) \<in> set es"
proof -
  let ?a = "example_lease ''l1''" and ?b = "example_lease ''l2''"
  have run: "slot_trace None ([Claimed ?a] @ [Released ''l1''] @ [Claimed ?b]) (Some ?b)"
    by (simp add: slot_simps example_lease_def)
  from authority_exclusive [OF run] run show ?thesis by (simp add: example_lease_def)
qed

end
