(* ===== verification/Product_Thread.thy ===== *)
theory Product_Thread
  imports Identifiers Lifecycle
begin

text \<open>
  Product threads (\<open>packages/domain/src/thread.ts\<close>): creation, the status machine, titles, the answer
  locale and the pin order. Every mutation bumps the revision and stamps the time it was given;
  a thread whose deletion is verified accepts none of them.
\<close>

datatype thread_status =
    thread_active
  | thread_archived
  | thread_trashed
  | thread_deletion_pending
  | thread_deleted_verified

datatype answer_locale = zh_CN | en | ja

definition answer_locale_of :: "string \<Rightarrow> answer_locale option" where
  "answer_locale_of s =
     (if s = ''zh-CN'' then Some zh_CN else if s = ''en'' then Some en
      else if s = ''ja'' then Some ja else None)"

datatype title_source = title_automatic | title_owner

record thread_fork_lineage =
  fork_sourceThreadId :: ThreadId
  fork_sourceTurnId :: TurnId
  fork_sourceWatermark :: int
  fork_summaryRefs :: "string list"
  fork_policyRefs :: "string list"
  fork_sourceContentAvailable :: bool
  fork_forkedAt :: string

record product_thread =
  pt_id :: ThreadId
  pt_ownerId :: OwnerId
  pt_agentId :: AgentId
  pt_revision :: int
  pt_status :: thread_status
  pt_titleRef :: "string option"
  pt_titleSource :: "title_source option"
  pt_titleRevision :: int
  pt_pinOrder :: "int option"
  pt_answerLocale :: answer_locale
  pt_messageWatermark :: int
  pt_lineage :: "thread_fork_lineage option"
  pt_createdAt :: string
  pt_updatedAt :: string

fun TRANSITIONS :: "thread_status \<Rightarrow> thread_status list" where
  "TRANSITIONS thread_active = [thread_archived, thread_trashed, thread_deletion_pending]"
| "TRANSITIONS thread_archived = [thread_active, thread_trashed, thread_deletion_pending]"
| "TRANSITIONS thread_trashed = [thread_active, thread_archived, thread_deletion_pending]"
| "TRANSITIONS thread_deletion_pending = [thread_trashed, thread_deleted_verified]"
| "TRANSITIONS thread_deleted_verified = []"

definition createProductThread ::
  "ThreadId \<Rightarrow> OwnerId \<Rightarrow> AgentId \<Rightarrow> string \<Rightarrow> answer_locale option \<Rightarrow> thread_fork_lineage option \<Rightarrow>
   product_thread" where
  "createProductThread i ow ag createdAt locale lineage =
     \<lparr>pt_id = i, pt_ownerId = ow, pt_agentId = ag, pt_revision = 1, pt_status = thread_active,
      pt_titleRef = None, pt_titleSource = None, pt_titleRevision = 0, pt_pinOrder = None,
      pt_answerLocale = (case locale of None \<Rightarrow> zh_CN | Some l \<Rightarrow> l), pt_messageWatermark = 0,
      pt_lineage = lineage, pt_createdAt = createdAt, pt_updatedAt = createdAt\<rparr>"

definition assertAnswerLocale :: "string \<Rightarrow> answer_locale result" where
  "assertAnswerLocale value = (case answer_locale_of value of
       None \<Rightarrow> domain_fail INVALID_STATE_VALUE
     | Some l \<Rightarrow> Inr l)"

definition transitionProductThread ::
  "string \<Rightarrow> product_thread \<Rightarrow> thread_status \<Rightarrow> product_thread result" where
  "transitionProductThread updatedAt current status =
     (if status \<notin> set (TRANSITIONS (pt_status current)) then domain_fail INVALID_STATE_TRANSITION
      else Inr (current\<lparr>pt_revision := pt_revision current + 1, pt_status := status,
                        pt_updatedAt := updatedAt\<rparr>))"

definition renameProductThread ::
  "product_thread \<Rightarrow> string \<Rightarrow> title_source \<Rightarrow> string \<Rightarrow> product_thread result" where
  "renameProductThread current titleRef source updatedAt =
     (if titleRef = [] \<or> pt_status current = thread_deleted_verified
      then domain_fail INVALID_STATE_VALUE
      else if source = title_automatic \<and> pt_titleSource current = Some title_owner
      then domain_fail INVALID_STATE_TRANSITION
      else Inr (current\<lparr>pt_revision := pt_revision current + 1, pt_titleRef := Some titleRef,
                        pt_titleSource := Some source,
                        pt_titleRevision := pt_titleRevision current + 1,
                        pt_updatedAt := updatedAt\<rparr>))"

definition setThreadAnswerLocale ::
  "product_thread \<Rightarrow> string \<Rightarrow> string \<Rightarrow> product_thread result" where
  "setThreadAnswerLocale current answerLocale updatedAt = (case assertAnswerLocale answerLocale of
       Inl e \<Rightarrow> Inl e
     | Inr l \<Rightarrow>
         if pt_status current = thread_deleted_verified then domain_fail INVALID_STATE_TRANSITION
         else Inr (current\<lparr>pt_revision := pt_revision current + 1, pt_answerLocale := l,
                           pt_updatedAt := updatedAt\<rparr>))"

definition setThreadPinOrder ::
  "product_thread \<Rightarrow> int option \<Rightarrow> string \<Rightarrow> product_thread result" where
  "setThreadPinOrder current pinOrder updatedAt =
     (if (case pinOrder of None \<Rightarrow> False | Some p \<Rightarrow> \<not> is_safe_integer p \<or> p < 0)
         \<or> pt_status current = thread_deleted_verified
      then domain_fail INVALID_STATE_VALUE
      else Inr (current\<lparr>pt_revision := pt_revision current + 1, pt_pinOrder := pinOrder,
                        pt_updatedAt := updatedAt\<rparr>))"

section \<open>All mutations of one thread\<close>

datatype thread_command =
    Transition thread_status string
  | Rename string title_source string
  | SetAnswerLocale string string
  | SetPinOrder "int option" string

fun thread_apply :: "product_thread \<Rightarrow> thread_command \<Rightarrow> product_thread result" where
  "thread_apply t (Transition s at) = transitionProductThread at t s"
| "thread_apply t (Rename r src at) = renameProductThread t r src at"
| "thread_apply t (SetAnswerLocale l at) = setThreadAnswerLocale t l at"
| "thread_apply t (SetPinOrder p at) = setThreadPinOrder t p at"

section \<open>Facts\<close>

lemmas thread_op_defs = transitionProductThread_def renameProductThread_def
  setThreadAnswerLocale_def setThreadPinOrder_def

definition thread_ident ::
  "product_thread \<Rightarrow> ThreadId \<times> OwnerId \<times> AgentId \<times> thread_fork_lineage option \<times> string" where
  "thread_ident t = (pt_id t, pt_ownerId t, pt_agentId t, pt_lineage t, pt_createdAt t)"

interpretation thread_lc: lifecycle "transitionProductThread at" pt_status thread_ident TRANSITIONS
  for at
  by unfold_locales (auto simp: transitionProductThread_def thread_ident_def split: if_splits)

text \<open>The well-formedness every stored thread has: its counters and its pin order are in range, and it
  has a title exactly when it has a title source.\<close>

definition thread_wf :: "product_thread \<Rightarrow> bool" where
  "thread_wf t \<longleftrightarrow> 1 \<le> pt_revision t \<and> 0 \<le> pt_titleRevision t \<and> pt_titleRevision t < pt_revision t \<and>
     (pt_titleRef t = None \<longleftrightarrow> pt_titleSource t = None) \<and>
     (\<forall>r. pt_titleRef t = Some r \<longrightarrow> r \<noteq> []) \<and>
     (\<forall>p. pt_pinOrder t = Some p \<longrightarrow> 0 \<le> p \<and> is_safe_integer p)"

lemma thread_wf_create: "thread_wf (createProductThread i ow ag at l f)"
  by (simp add: thread_wf_def createProductThread_def)

lemma thread_apply_wf: "thread_wf t \<Longrightarrow> thread_apply t c = Inr t' \<Longrightarrow> thread_wf t'"
  by (cases c) (auto simp: thread_op_defs thread_wf_def split: if_splits option.splits sum.splits)

lemma thread_apply_revision: "thread_apply t c = Inr t' \<Longrightarrow> pt_revision t' = pt_revision t + 1"
  by (cases c) (auto simp: thread_op_defs split: if_splits option.splits sum.splits)

lemma thread_apply_ident: "thread_apply t c = Inr t' \<Longrightarrow> thread_ident t' = thread_ident t"
  by (cases c) (auto simp: thread_op_defs thread_ident_def split: if_splits option.splits sum.splits)

lemma thread_apply_deleted: "pt_status t = thread_deleted_verified \<Longrightarrow> \<exists>e. thread_apply t c = Inl e"
  by (cases c) (auto simp: thread_op_defs split: sum.splits)

lemma title_not_automatic [simp]: "s \<noteq> title_automatic \<longleftrightarrow> s = title_owner"
  by (cases s) simp_all

lemma thread_apply_owner_title:
  "thread_apply t c = Inr t' \<Longrightarrow> pt_titleSource t = Some title_owner \<Longrightarrow>
     pt_titleSource t' = Some title_owner \<and>
     (pt_titleRef t' = pt_titleRef t \<or> (\<exists>r at. c = Rename r title_owner at \<and> pt_titleRef t' = Some r))"
  by (cases c) (auto simp: thread_op_defs split: if_splits option.splits sum.splits)

lemma steps_thread_inv:
  "steps thread_apply t cs = Inr t' \<Longrightarrow> thread_wf t \<Longrightarrow>
     thread_wf t' \<and> pt_revision t' = pt_revision t + int (length cs) \<and> thread_ident t' = thread_ident t"
proof (induction cs arbitrary: t)
  case (Cons c cs)
  then obtain u where u: "thread_apply t c = Inr u" "steps thread_apply u cs = Inr t'"
    by (auto split: sum.splits)
  with Cons.IH [OF u(2)] Cons.prems(2) show ?case
    using thread_apply_wf thread_apply_revision [OF u(1)] thread_apply_ident [OF u(1)] by auto
qed simp

lemma steps_owner_title:
  "steps thread_apply t cs = Inr t' \<Longrightarrow> pt_titleSource t = Some title_owner \<Longrightarrow>
     pt_titleSource t' = Some title_owner \<and>
     (pt_titleRef t' = pt_titleRef t \<or> (\<exists>r at. Rename r title_owner at \<in> set cs \<and> pt_titleRef t' = Some r))"
proof (induction cs arbitrary: t)
  case (Cons c cs)
  then obtain u where u: "thread_apply t c = Inr u" "steps thread_apply u cs = Inr t'"
    by (auto split: sum.splits)
  from thread_apply_owner_title [OF u(1) Cons.prems(2)] Cons.IH [OF u(2)] show ?case by auto
qed simp

text \<open>
  A thread keeps its well-formedness, its identity (id, owner, agent, lineage and creation time)
  and its revision count under every sequence of accepted commands: from a newly created thread, each
  accepted command raises the revision by exactly one.
\<close>

theorem thread_commands_keep_invariant:
  assumes "steps thread_apply (createProductThread i ow ag at l f) cs = Inr t"
  shows "thread_wf t \<and> pt_revision t = 1 + int (length cs) \<and> thread_ident t = (i, ow, ag, f, at)"
  using steps_thread_inv [OF assms thread_wf_create]
  by (simp add: createProductThread_def thread_ident_def)

theorem thread_commands_keep_invariant_witness:
  "pt_revision ((createProductThread ''t'' ''o'' ''a'' ''now'' None None)
     \<lparr>pt_revision := 3, pt_titleRef := Some ''ref'', pt_titleSource := Some title_owner, pt_titleRevision := 1,
      pt_pinOrder := Some 4, pt_updatedAt := ''later''\<rparr>) = 1 + 2"
proof -
  have "steps thread_apply (createProductThread ''t'' ''o'' ''a'' ''now'' None None)
      [Rename ''ref'' title_owner ''soon'', SetPinOrder (Some 4) ''later''] =
    Inr ((createProductThread ''t'' ''o'' ''a'' ''now'' None None)
     \<lparr>pt_revision := 3, pt_titleRef := Some ''ref'', pt_titleSource := Some title_owner, pt_titleRevision := 1,
      pt_pinOrder := Some 4, pt_updatedAt := ''later''\<rparr>)"
    by (simp add: createProductThread_def thread_op_defs js_defs)
  from thread_commands_keep_invariant [OF this] show ?thesis by simp
qed

text \<open>
  A title the Owner chose survives: once the title source is the Owner, no sequence of commands
  brings back an automatic title, and the title only changes to one the Owner supplied.
\<close>

theorem owner_title_survives:
  assumes "steps thread_apply t cs = Inr t'" and "pt_titleSource t = Some title_owner"
  shows "pt_titleSource t' = Some title_owner \<and>
     (pt_titleRef t' = pt_titleRef t \<or> (\<exists>r at. Rename r title_owner at \<in> set cs \<and> pt_titleRef t' = Some r))"
  using assms by (rule steps_owner_title)

theorem owner_title_survives_witness:
  "let t = (createProductThread ''t'' ''o'' ''a'' ''now'' None None)
         \<lparr>pt_titleRef := Some ''mine'', pt_titleSource := Some title_owner\<rparr>
   in thread_apply t (Rename ''auto'' title_automatic ''x'') = domain_fail INVALID_STATE_TRANSITION \<and>
      (\<exists>t'. steps thread_apply t [Transition thread_archived ''x''] = Inr t' \<and> pt_titleRef t' = Some ''mine'')"
proof -
  let ?t = "(createProductThread ''t'' ''o'' ''a'' ''now'' None None)
         \<lparr>pt_titleRef := Some ''mine'', pt_titleSource := Some title_owner\<rparr>"
  obtain t' where run: "steps thread_apply ?t [Transition thread_archived ''x''] = Inr t'"
    by (simp add: thread_op_defs createProductThread_def)
  from owner_title_survives [OF run] have "pt_titleRef t' = Some ''mine''"
    by (auto simp: createProductThread_def)
  with run show ?thesis by (simp add: Let_def thread_op_defs createProductThread_def)
qed

end
