(* ===== verification/Deployment.thy ===== *)
theory Deployment
  imports Identifiers Lifecycle
begin

text \<open>
  Deployments, their authority epoch and fencing token, authority transfers, recovery points and the
  health snapshot (\<open>packages/domain/src/durable-state.ts\<close>). A deployment is activated once, with an
  epoch above the one it was prepared with, and is retired in two steps; every durable write carries
  the fence of the active deployment.
\<close>

datatype product_data_classification =
    class_public
  | class_private
  | class_sensitive
  | class_restricted

record product_authority_fence =
  fence_deploymentId :: DeploymentId
  fence_authorityEpoch :: int
  fence_fencingToken :: int

datatype deployment_status =
    dep_inactive_ready
  | dep_active
  | dep_retired_pending_transfer
  | dep_retired

record deployment_authority_state =
  dep_id :: DeploymentId
  dep_ownerId :: OwnerId
  dep_agentId :: AgentId
  dep_revision :: int
  dep_status :: deployment_status
  dep_authorityEpoch :: int
  dep_fencingToken :: int
  dep_transferId :: "TransferId option"

definition invalidTransition :: "'a result" where
  "invalidTransition = domain_fail INVALID_STATE_TRANSITION"

definition assertPositiveInteger :: "int \<Rightarrow> unit result" where
  "assertPositiveInteger value =
     (if \<not> is_safe_integer value \<or> value < 1 then domain_fail INVALID_STATE_VALUE else Inr ())"

definition activateDeployment ::
  "deployment_authority_state \<Rightarrow> int \<Rightarrow> int \<Rightarrow> deployment_authority_state result" where
  "activateDeployment d authorityEpoch fencingToken =
     (if dep_status d \<noteq> dep_inactive_ready then invalidTransition
      else case assertPositiveInteger authorityEpoch of Inl e \<Rightarrow> Inl e | Inr _ \<Rightarrow>
           (case assertPositiveInteger fencingToken of Inl e \<Rightarrow> Inl e | Inr _ \<Rightarrow>
            (if authorityEpoch \<le> dep_authorityEpoch d then domain_fail STALE_AUTHORITY_FENCE
             else Inr (d\<lparr>dep_revision := dep_revision d + 1, dep_status := dep_active,
                         dep_authorityEpoch := authorityEpoch, dep_fencingToken := fencingToken\<rparr>))))"

datatype retirement = to_retired_pending_transfer | to_retired

fun retirement_status :: "retirement \<Rightarrow> deployment_status" where
  "retirement_status to_retired_pending_transfer = dep_retired_pending_transfer"
| "retirement_status to_retired = dep_retired"

definition retireDeployment ::
  "deployment_authority_state \<Rightarrow> retirement \<Rightarrow> deployment_authority_state result" where
  "retireDeployment d nxt =
     (let allowed = (dep_status d = dep_active \<and> nxt = to_retired_pending_transfer) \<or>
                    (dep_status d = dep_retired_pending_transfer \<and> nxt = to_retired)
      in if \<not> allowed then invalidTransition
         else Inr (d\<lparr>dep_revision := dep_revision d + 1, dep_status := retirement_status nxt\<rparr>))"

definition assertAuthorityFence ::
  "deployment_authority_state \<Rightarrow> product_authority_fence \<Rightarrow> unit result" where
  "assertAuthorityFence d f =
     (if dep_status d \<noteq> dep_active \<or> dep_id d \<noteq> fence_deploymentId f \<or>
         dep_authorityEpoch d \<noteq> fence_authorityEpoch f \<or> dep_fencingToken d \<noteq> fence_fencingToken f
      then domain_fail STALE_AUTHORITY_FENCE else Inr ())"

section \<open>Recovery points and transfers\<close>

datatype recovery_status = rp_creating | rp_verified | rp_failed

record recovery_point_state =
  rp_id :: BackupId
  rp_ownerId :: OwnerId
  rp_agentId :: AgentId
  rp_status :: recovery_status
  rp_manifestRef :: "string option"

text \<open>The target status is \<open>rp_verified\<close> or \<open>rp_failed\<close> by its TypeScript type.\<close>

definition transitionRecoveryPoint ::
  "recovery_point_state \<Rightarrow> recovery_status \<Rightarrow> string option \<Rightarrow> recovery_point_state result" where
  "transitionRecoveryPoint r nxt manifestRef =
     (if rp_status r \<noteq> rp_creating then invalidTransition
      else if (nxt = rp_verified) \<noteq> (manifestRef \<noteq> None) then domain_fail INVALID_STATE_VALUE
      else Inr (r\<lparr>rp_status := nxt, rp_manifestRef := manifestRef\<rparr>))"

datatype transfer_status =
    tr_proposed
  | tr_exporting
  | tr_exported_verified
  | tr_importing
  | tr_inactive_ready
  | tr_activated
  | tr_abandoned

record transfer_state =
  tr_id :: TransferId
  tr_ownerId :: OwnerId
  tr_agentId :: AgentId
  tr_sourceDeploymentId :: DeploymentId
  tr_targetDeploymentId :: DeploymentId
  tr_status :: transfer_status
  tr_authorityEpoch :: int
  tr_packageRef :: "string option"

fun TRANSFER_TRANSITIONS :: "transfer_status \<Rightarrow> transfer_status list" where
  "TRANSFER_TRANSITIONS tr_proposed = [tr_exporting, tr_abandoned]"
| "TRANSFER_TRANSITIONS tr_exporting = [tr_exported_verified, tr_abandoned]"
| "TRANSFER_TRANSITIONS tr_exported_verified = [tr_importing, tr_abandoned]"
| "TRANSFER_TRANSITIONS tr_importing = [tr_inactive_ready, tr_abandoned]"
| "TRANSFER_TRANSITIONS tr_inactive_ready = [tr_activated, tr_abandoned]"
| "TRANSFER_TRANSITIONS tr_activated = []"
| "TRANSFER_TRANSITIONS tr_abandoned = []"

definition transitionTransfer :: "transfer_state \<Rightarrow> transfer_status \<Rightarrow> transfer_state result" where
  "transitionTransfer t nxt =
     (if nxt \<notin> set (TRANSFER_TRANSITIONS (tr_status t)) then invalidTransition
      else Inr (t\<lparr>tr_status := nxt\<rparr>))"

section \<open>Health\<close>

datatype dependency_health_status = dh_healthy | dh_degraded | dh_unavailable

record dependency_health =
  dh_name :: string
  dh_required :: bool
  dh_status :: dependency_health_status
  dh_reasonCode :: "string option"

datatype snapshot_status = hs_healthy | hs_degraded | hs_not_ready | hs_not_live

record deployment_health_snapshot =
  hs_id :: HealthSnapshotId
  hs_live :: bool
  hs_ready :: bool
  hs_status :: snapshot_status
  hs_dependencies :: "dependency_health list"

definition evaluateDeploymentHealth ::
  "bool \<Rightarrow> bool \<Rightarrow> HealthSnapshotId \<Rightarrow> dependency_health list \<Rightarrow> deployment_health_snapshot" where
  "evaluateDeploymentHealth live authorityActive snapshotId dependencies =
     (let requiredUnavailable = list_ex (\<lambda>d. dh_required d \<and> dh_status d \<noteq> dh_healthy) dependencies;
          ready = (live \<and> authorityActive \<and> \<not> requiredUnavailable);
          degraded = list_ex (\<lambda>d. dh_status d \<noteq> dh_healthy) dependencies
      in \<lparr>hs_id = snapshotId, hs_live = live, hs_ready = ready,
          hs_status = (if \<not> live then hs_not_live else if \<not> ready then hs_not_ready
                       else if degraded then hs_degraded else hs_healthy),
          hs_dependencies = dependencies\<rparr>)"

section \<open>Facts\<close>

lemma assertPositiveInteger_ok [simp]:
  "assertPositiveInteger n = Inr u \<longleftrightarrow> is_safe_integer n \<and> 1 \<le> n"
  by (auto simp: assertPositiveInteger_def)

lemma activateDeployment_ok:
  "activateDeployment d e t = Inr d' \<longleftrightarrow>
     dep_status d = dep_inactive_ready \<and> is_safe_integer e \<and> 1 \<le> e \<and> is_safe_integer t \<and> 1 \<le> t \<and>
     dep_authorityEpoch d < e \<and>
     d' = d\<lparr>dep_revision := dep_revision d + 1, dep_status := dep_active,
            dep_authorityEpoch := e, dep_fencingToken := t\<rparr>"
  by (auto simp: activateDeployment_def invalidTransition_def result_case_Inr not_le split: if_splits)

lemma assertAuthorityFence_ok [simp]:
  "assertAuthorityFence d f = Inr u \<longleftrightarrow> dep_status d = dep_active \<and>
     f = \<lparr>fence_deploymentId = dep_id d, fence_authorityEpoch = dep_authorityEpoch d,
          fence_fencingToken = dep_fencingToken d\<rparr>"
  by (cases f) (auto simp: assertAuthorityFence_def)

definition transfer_ident :: "transfer_state \<Rightarrow> transfer_state" where
  "transfer_ident t = t\<lparr>tr_status := tr_proposed\<rparr>"

fun transfer_rank :: "transfer_status \<Rightarrow> nat" where
  "transfer_rank tr_proposed = 5"
| "transfer_rank tr_exporting = 4"
| "transfer_rank tr_exported_verified = 3"
| "transfer_rank tr_importing = 2"
| "transfer_rank tr_inactive_ready = 1"
| "transfer_rank tr_activated = 0"
| "transfer_rank tr_abandoned = 0"

interpretation transfer_lc: ranked_lifecycle transitionTransfer tr_status transfer_ident
  TRANSFER_TRANSITIONS transfer_rank
proof
  fix n s
  assume "n \<in> set (TRANSFER_TRANSITIONS s)"
  then show "transfer_rank n < transfer_rank s" by (cases s) auto
qed (auto simp: transitionTransfer_def transfer_ident_def invalidTransition_def split: if_splits)

section \<open>One deployment over its life\<close>

datatype deployment_command = Activate int int | Retire retirement

fun deployment_apply ::
  "deployment_authority_state \<Rightarrow> deployment_command \<Rightarrow> deployment_authority_state result" where
  "deployment_apply d (Activate e t) = activateDeployment d e t"
| "deployment_apply d (Retire n) = retireDeployment d n"

lemma retireDeployment_ok:
  "retireDeployment d n = Inr d' \<longleftrightarrow>
     ((dep_status d = dep_active \<and> n = to_retired_pending_transfer) \<or>
      (dep_status d = dep_retired_pending_transfer \<and> n = to_retired)) \<and>
     d' = d\<lparr>dep_revision := dep_revision d + 1, dep_status := retirement_status n\<rparr>"
  by (auto simp: retireDeployment_def Let_def invalidTransition_def)

fun deployment_rank :: "deployment_status \<Rightarrow> nat" where
  "deployment_rank dep_inactive_ready = 3"
| "deployment_rank dep_active = 2"
| "deployment_rank dep_retired_pending_transfer = 1"
| "deployment_rank dep_retired = 0"

lemma deployment_apply_rank:
  "deployment_apply d c = Inr d' \<Longrightarrow> deployment_rank (dep_status d) = Suc (deployment_rank (dep_status d'))"
  by (cases c) (auto simp: activateDeployment_ok retireDeployment_ok)

lemma deployment_apply_epoch:
  "deployment_apply d c = Inr d' \<Longrightarrow> dep_authorityEpoch d \<le> dep_authorityEpoch d' \<and> dep_id d' = dep_id d"
  by (cases c) (auto simp: activateDeployment_ok retireDeployment_ok)

lemma deployment_steps:
  "steps deployment_apply d cs = Inr d' \<Longrightarrow>
     deployment_rank (dep_status d) = length cs + deployment_rank (dep_status d') \<and>
     dep_authorityEpoch d \<le> dep_authorityEpoch d' \<and> dep_id d' = dep_id d"
proof (induction cs arbitrary: d)
  case (Cons c cs)
  then obtain u where u: "deployment_apply d c = Inr u" "steps deployment_apply u cs = Inr d'"
    by (auto split: sum.splits)
  from Cons.IH [OF u(2)] deployment_apply_rank [OF u(1)] deployment_apply_epoch [OF u(1)]
  show ?case by auto
qed simp

text \<open>
  Fencing: a fence that an active deployment accepts is rejected as stale by every later state
  of that deployment, and by every deployment that is activated with the epoch raised above it.
\<close>

theorem fence_stale_after_handover:
  assumes held: "assertAuthorityFence old f = Inr ()"
    and later: "steps deployment_apply old cs = Inr old'" and moved: "cs \<noteq> []"
    and successor: "dep_authorityEpoch old \<le> dep_authorityEpoch d"
      "activateDeployment d e t = Inr new"
  shows "assertAuthorityFence old' f = domain_fail STALE_AUTHORITY_FENCE \<and>
    assertAuthorityFence new f = domain_fail STALE_AUTHORITY_FENCE"
proof -
  from held have f: "dep_status old = dep_active" "fence_authorityEpoch f = dep_authorityEpoch old"
    by simp_all
  from deployment_steps [OF later] f moved have "deployment_rank (dep_status old') < 2"
    by (cases cs) auto
  then have "dep_status old' \<noteq> dep_active" by auto
  moreover from successor have "dep_authorityEpoch new \<noteq> fence_authorityEpoch f"
    using f by (auto simp: activateDeployment_ok)
  ultimately show ?thesis by (simp add: assertAuthorityFence_def)
qed

definition example_deployment :: "string \<Rightarrow> deployment_authority_state" where
  "example_deployment i = \<lparr>dep_id = i, dep_ownerId = ''o'', dep_agentId = ''a'', dep_revision = 1,
     dep_status = dep_inactive_ready, dep_authorityEpoch = 3, dep_fencingToken = 1, dep_transferId = None\<rparr>"

theorem fence_stale_after_handover_witness:
  "let old = (example_deployment ''d1'')\<lparr>dep_status := dep_active\<rparr>;
       f = \<lparr>fence_deploymentId = ''d1'', fence_authorityEpoch = 3, fence_fencingToken = 1\<rparr>;
       new = (example_deployment ''d2'')\<lparr>dep_revision := 2, dep_status := dep_active,
               dep_authorityEpoch := 4, dep_fencingToken := 9\<rparr>
   in assertAuthorityFence old f = Inr () \<and> assertAuthorityFence new f = domain_fail STALE_AUTHORITY_FENCE"
proof -
  let ?old = "(example_deployment ''d1'')\<lparr>dep_status := dep_active\<rparr>"
  let ?f = "\<lparr>fence_deploymentId = ''d1'', fence_authorityEpoch = 3, fence_fencingToken = 1\<rparr>"
  let ?new = "(example_deployment ''d2'')\<lparr>dep_revision := 2, dep_status := dep_active,
               dep_authorityEpoch := 4, dep_fencingToken := 9\<rparr>"
  have held: "assertAuthorityFence ?old ?f = Inr ()" by (simp add: example_deployment_def)
  have later: "steps deployment_apply ?old [Retire to_retired_pending_transfer] =
      Inr (?old\<lparr>dep_revision := 2, dep_status := dep_retired_pending_transfer\<rparr>)"
    by (simp add: retireDeployment_def example_deployment_def)
  have "activateDeployment (example_deployment ''d2'') 4 9 = Inr ?new"
    by (simp add: activateDeployment_ok example_deployment_def js_defs)
  from fence_stale_after_handover [OF held later _ _ this] held show ?thesis
    by (simp add: Let_def example_deployment_def)
qed

fun activation_route :: "transfer_status \<Rightarrow> transfer_status list" where
  "activation_route tr_proposed = [tr_exporting, tr_exported_verified, tr_importing, tr_inactive_ready, tr_activated]"
| "activation_route tr_exporting = [tr_exported_verified, tr_importing, tr_inactive_ready, tr_activated]"
| "activation_route tr_exported_verified = [tr_importing, tr_inactive_ready, tr_activated]"
| "activation_route tr_importing = [tr_inactive_ready, tr_activated]"
| "activation_route tr_inactive_ready = [tr_activated]"
| "activation_route tr_activated = []"
| "activation_route tr_abandoned = []"

lemma path_to_activated:
  "is_path TRANSFER_TRANSITIONS s ns \<Longrightarrow> last (s # ns) = tr_activated \<Longrightarrow> ns = activation_route s"
proof (induction ns arbitrary: s)
  case Nil
  then show ?case by simp
next
  case (Cons n ns)
  then have "ns = activation_route n" by simp
  with Cons.prems show ?case by (cases s) auto
qed

text \<open>
  A transfer always ends: no history of accepted status changes from any status is longer than
  five steps, and a transfer that reaches \<open>activated\<close> from \<open>proposed\<close> went through exporting, verified
  export, importing and ready, in that order.
\<close>

theorem transfer_history:
  assumes "steps transitionTransfer t ns = Inr t'"
  shows "length ns \<le> 5 \<and>
    (tr_status t = tr_proposed \<and> tr_status t' = tr_activated \<longrightarrow>
       ns = [tr_exporting, tr_exported_verified, tr_importing, tr_inactive_ready, tr_activated])"
proof -
  have "transfer_rank s \<le> 5" for s by (cases s) auto
  with transfer_lc.history_bounded [OF assms] have "length ns \<le> 5" by (rule le_trans)
  moreover have "is_path TRANSFER_TRANSITIONS (tr_status t) ns"
    using transfer_lc.steps_iff_path [of t ns] assms by auto
  ultimately show ?thesis
    using path_to_activated [of "tr_status t" ns] transfer_lc.steps_status [OF assms] by auto
qed

theorem transfer_history_witness:
  "let t = \<lparr>tr_id = ''t'', tr_ownerId = ''o'', tr_agentId = ''a'', tr_sourceDeploymentId = ''d1'',
            tr_targetDeploymentId = ''d2'', tr_status = tr_proposed, tr_authorityEpoch = 4, tr_packageRef = None\<rparr>;
       ns = activation_route tr_proposed
   in steps transitionTransfer t ns = Inr (t\<lparr>tr_status := tr_activated\<rparr>) \<and> length ns \<le> 5"
proof -
  let ?t = "\<lparr>tr_id = ''t'', tr_ownerId = ''o'', tr_agentId = ''a'', tr_sourceDeploymentId = ''d1'',
            tr_targetDeploymentId = ''d2'', tr_status = tr_proposed, tr_authorityEpoch = 4, tr_packageRef = None\<rparr>"
  have run: "steps transitionTransfer ?t (activation_route tr_proposed) = Inr (?t\<lparr>tr_status := tr_activated\<rparr>)"
    by (simp add: transitionTransfer_def)
  from transfer_history [OF run] run show ?thesis by simp
qed

end
