(* ===== verification/Durable_Work.thy ===== *)
theory Durable_Work
  imports Deployment
begin

text \<open>
  The remaining durable records of \<open>packages/domain/src/durable-state.ts\<close> and their status operations:
  committed messages, checkpoint jobs, memory generations, browser sessions, background jobs and their
  occurrences, the memory lifecycle, and GitHub receipts and coverage gaps.
\<close>

section \<open>Messages\<close>

datatype message_role = role_owner | role_agent | role_system
datatype message_status = msg_committed | msg_partial | msg_failed

record product_thread_message =
  msg_id :: MessageId
  msg_ownerId :: OwnerId
  msg_agentId :: AgentId
  msg_threadId :: ThreadId
  msg_turnId :: "TurnId option"
  msg_runId :: "RunId option"
  msg_sequence :: int
  msg_role :: message_role
  msg_contentRef :: string
  msg_dataClassification :: product_data_classification
  msg_status :: message_status
  msg_committedAt :: string

definition createProductThreadMessage :: "product_thread_message \<Rightarrow> product_thread_message result" where
  "createProductThreadMessage m = (case assertPositiveInteger (msg_sequence m) of
       Inl e \<Rightarrow> Inl e
     | Inr _ \<Rightarrow> if length (msg_contentRef m) = 0 then domain_fail INVALID_STATE_VALUE else Inr m)"

section \<open>Checkpoint jobs\<close>

datatype thread_checkpoint_status =
    ck_pending
  | ck_running
  | ck_completed
  | ck_retry_wait
  | ck_failed_terminal

record thread_checkpoint_job =
  ck_id :: CheckpointJobId
  ck_generationId :: MemoryGenerationId
  ck_ownerId :: OwnerId
  ck_agentId :: AgentId
  ck_threadId :: ThreadId
  ck_sourceWatermark :: int
  ck_policyVersion :: string
  ck_status :: thread_checkpoint_status
  ck_attemptCount :: int
  ck_requestedAt :: string

definition createThreadCheckpointJob ::
  "CheckpointJobId \<Rightarrow> MemoryGenerationId \<Rightarrow> OwnerId \<Rightarrow> AgentId \<Rightarrow> ThreadId \<Rightarrow> int \<Rightarrow> string \<Rightarrow> string \<Rightarrow>
   thread_checkpoint_job result" where
  "createThreadCheckpointJob i g ow ag th sourceWatermark policyVersion requestedAt =
     (case assertPositiveInteger sourceWatermark of
        Inl e \<Rightarrow> Inl e
      | Inr _ \<Rightarrow> Inr \<lparr>ck_id = i, ck_generationId = g, ck_ownerId = ow, ck_agentId = ag, ck_threadId = th,
          ck_sourceWatermark = sourceWatermark, ck_policyVersion = policyVersion,
          ck_status = ck_pending, ck_attemptCount = 0, ck_requestedAt = requestedAt\<rparr>)"

fun CHECKPOINT_TRANSITIONS :: "thread_checkpoint_status \<Rightarrow> thread_checkpoint_status list" where
  "CHECKPOINT_TRANSITIONS ck_pending = [ck_running]"
| "CHECKPOINT_TRANSITIONS ck_running = [ck_completed, ck_retry_wait, ck_failed_terminal]"
| "CHECKPOINT_TRANSITIONS ck_retry_wait = [ck_running, ck_failed_terminal]"
| "CHECKPOINT_TRANSITIONS ck_completed = []"
| "CHECKPOINT_TRANSITIONS ck_failed_terminal = []"

definition transitionCheckpointJob ::
  "thread_checkpoint_job \<Rightarrow> thread_checkpoint_status \<Rightarrow> thread_checkpoint_job result" where
  "transitionCheckpointJob j nxt =
     (if nxt \<notin> set (CHECKPOINT_TRANSITIONS (ck_status j)) then invalidTransition
      else Inr (j\<lparr>ck_status := nxt,
                  ck_attemptCount := (if nxt = ck_running then ck_attemptCount j + 1 else ck_attemptCount j)\<rparr>))"

section \<open>Memory generations\<close>

datatype memory_generation_status = mg_pending | mg_running | mg_completed | mg_failed_terminal

record memory_generation_state =
  mg_id :: MemoryGenerationId
  mg_checkpointJobId :: CheckpointJobId
  mg_ownerId :: OwnerId
  mg_agentId :: AgentId
  mg_threadId :: ThreadId
  mg_status :: memory_generation_status
  mg_modelDescriptorRef :: string
  mg_policyVersion :: string
  mg_outputRef :: "string option"

fun GENERATION_TRANSITIONS :: "memory_generation_status \<Rightarrow> memory_generation_status list" where
  "GENERATION_TRANSITIONS mg_pending = [mg_running, mg_failed_terminal]"
| "GENERATION_TRANSITIONS mg_running = [mg_completed, mg_failed_terminal]"
| "GENERATION_TRANSITIONS mg_completed = []"
| "GENERATION_TRANSITIONS mg_failed_terminal = []"

definition transitionMemoryGeneration ::
  "memory_generation_state \<Rightarrow> memory_generation_status \<Rightarrow> string option \<Rightarrow> memory_generation_state result" where
  "transitionMemoryGeneration g nxt outputRef =
     (if nxt \<notin> set (GENERATION_TRANSITIONS (mg_status g)) then invalidTransition
      else if (nxt = mg_completed) \<noteq> (outputRef \<noteq> None) then domain_fail INVALID_STATE_VALUE
      else Inr (g\<lparr>mg_status := nxt, mg_outputRef := outputRef\<rparr>))"

section \<open>Browser sessions and devices\<close>

datatype revocable_status = st_active | st_revoked

record browser_session_state =
  bs_id :: SessionId
  bs_ownerId :: OwnerId
  bs_deviceId :: DeviceId
  bs_status :: revocable_status
  bs_authenticationRef :: string
  bs_firstAuthenticatedAt :: string
  bs_lastActiveAt :: string
  bs_recentAuthenticatedAt :: string
  bs_revokedAt :: "string option"

record device_state =
  dev_id :: DeviceId
  dev_ownerId :: OwnerId
  dev_label :: string
  dev_status :: revocable_status
  dev_firstSeenAt :: string
  dev_lastSeenAt :: string

definition revokeBrowserSession ::
  "browser_session_state \<Rightarrow> string \<Rightarrow> browser_session_state result" where
  "revokeBrowserSession s revokedAt =
     (if bs_status s \<noteq> st_active then invalidTransition
      else Inr (s\<lparr>bs_status := st_revoked, bs_revokedAt := Some revokedAt\<rparr>))"

section \<open>Background jobs and occurrences\<close>

datatype background_job_status = bj_active | bj_paused | bj_revoked

record background_job_state =
  bj_id :: JobId
  bj_ownerId :: OwnerId
  bj_agentId :: AgentId
  bj_threadId :: "ThreadId option"
  bj_revision :: int
  bj_status :: background_job_status
  bj_authorizationRef :: string
  bj_nextOccurrenceAt :: "string option"

fun BACKGROUND_JOB_TRANSITIONS :: "background_job_status \<Rightarrow> background_job_status list" where
  "BACKGROUND_JOB_TRANSITIONS bj_active = [bj_paused, bj_revoked]"
| "BACKGROUND_JOB_TRANSITIONS bj_paused = [bj_active, bj_revoked]"
| "BACKGROUND_JOB_TRANSITIONS bj_revoked = []"

definition transitionBackgroundJob ::
  "background_job_state \<Rightarrow> background_job_status \<Rightarrow> background_job_state result" where
  "transitionBackgroundJob j nxt =
     (if nxt \<notin> set (BACKGROUND_JOB_TRANSITIONS (bj_status j)) then invalidTransition
      else Inr (j\<lparr>bj_revision := bj_revision j + 1, bj_status := nxt\<rparr>))"

datatype background_occurrence_status =
    occ_queued
  | occ_admitted
  | occ_running
  | occ_retry_wait
  | occ_blocked_credentials
  | occ_blocked_approval
  | occ_budget_blocked
  | occ_capacity_blocked
  | occ_completed
  | occ_failed_terminal
  | occ_missed

record work_lease =
  wl_id :: string
  wl_holderId :: string
  wl_acquiredAt :: string
  wl_expiresAt :: string

record background_occurrence =
  occ_id :: OccurrenceId
  occ_jobId :: JobId
  occ_ownerId :: OwnerId
  occ_agentId :: AgentId
  occ_revision :: int
  occ_stableKey :: string
  occ_status :: background_occurrence_status
  occ_authority :: product_authority_fence
  occ_category :: string
  occ_dataClassification :: product_data_classification
  occ_foreground :: bool
  occ_parallelSafe :: bool
  occ_estimatedCostMicros :: int
  occ_reservedCostMicros :: int
  occ_spentCostMicros :: int
  occ_attemptCount :: int
  occ_nextRetryAt :: "string option"
  occ_deadlineAt :: string
  occ_runId :: "RunId option"
  occ_workLease :: "work_lease option"
  occ_lastErrorCode :: "string option"

fun OCCURRENCE_TRANSITIONS :: "background_occurrence_status \<Rightarrow> background_occurrence_status list" where
  "OCCURRENCE_TRANSITIONS occ_queued = [occ_admitted, occ_retry_wait, occ_blocked_credentials,
     occ_blocked_approval, occ_budget_blocked, occ_capacity_blocked, occ_failed_terminal, occ_missed]"
| "OCCURRENCE_TRANSITIONS occ_admitted = [occ_running, occ_failed_terminal]"
| "OCCURRENCE_TRANSITIONS occ_running = [occ_completed, occ_retry_wait, occ_failed_terminal]"
| "OCCURRENCE_TRANSITIONS occ_retry_wait = [occ_queued, occ_failed_terminal]"
| "OCCURRENCE_TRANSITIONS occ_blocked_credentials = [occ_queued, occ_failed_terminal]"
| "OCCURRENCE_TRANSITIONS occ_blocked_approval = [occ_queued, occ_failed_terminal]"
| "OCCURRENCE_TRANSITIONS occ_budget_blocked = [occ_queued, occ_failed_terminal]"
| "OCCURRENCE_TRANSITIONS occ_capacity_blocked = [occ_queued, occ_failed_terminal]"
| "OCCURRENCE_TRANSITIONS occ_completed = []"
| "OCCURRENCE_TRANSITIONS occ_failed_terminal = []"
| "OCCURRENCE_TRANSITIONS occ_missed = []"

definition transitionOccurrence ::
  "background_occurrence \<Rightarrow> background_occurrence_status \<Rightarrow> background_occurrence result" where
  "transitionOccurrence c nxt =
     (if nxt \<notin> set (OCCURRENCE_TRANSITIONS (occ_status c)) then invalidTransition
      else Inr (c\<lparr>occ_revision := occ_revision c + 1, occ_status := nxt,
                  occ_attemptCount := (if nxt = occ_running then occ_attemptCount c + 1
                                       else occ_attemptCount c)\<rparr>))"

section \<open>Memory lifecycle\<close>

datatype memory_lifecycle_status =
    mem_active
  | mem_archived
  | mem_trashed
  | mem_deletion_pending
  | mem_deleted_verified

record product_memory_lifecycle =
  mem_id :: MemoryId
  mem_ownerId :: OwnerId
  mem_agentId :: AgentId
  mem_revision :: int
  mem_status :: memory_lifecycle_status
  mem_providerRecordId :: "string option"

fun MEMORY_TRANSITIONS :: "memory_lifecycle_status \<Rightarrow> memory_lifecycle_status list" where
  "MEMORY_TRANSITIONS mem_active = [mem_archived, mem_trashed, mem_deletion_pending]"
| "MEMORY_TRANSITIONS mem_archived = [mem_active, mem_trashed, mem_deletion_pending]"
| "MEMORY_TRANSITIONS mem_trashed = [mem_active, mem_deletion_pending]"
| "MEMORY_TRANSITIONS mem_deletion_pending = [mem_deleted_verified]"
| "MEMORY_TRANSITIONS mem_deleted_verified = []"

definition transitionMemoryLifecycle ::
  "product_memory_lifecycle \<Rightarrow> memory_lifecycle_status \<Rightarrow> product_memory_lifecycle result" where
  "transitionMemoryLifecycle m nxt =
     (if nxt \<notin> set (MEMORY_TRANSITIONS (mem_status m)) then invalidTransition
      else Inr (m\<lparr>mem_revision := mem_revision m + 1, mem_status := nxt\<rparr>))"

section \<open>GitHub receipts and coverage gaps\<close>

datatype receipt_status = gh_received | gh_normalized | gh_rejected

record github_webhook_receipt =
  gh_id :: GitHubReceiptId
  gh_ownerId :: OwnerId
  gh_agentId :: AgentId
  gh_providerDeliveryId :: string
  gh_installationRef :: string
  gh_repositoryRef :: string
  gh_payloadRef :: string
  gh_status :: receipt_status
  gh_occurrenceId :: "OccurrenceId option"

datatype gap_status = gap_open | gap_closed

record github_coverage_gap =
  gap_id :: CoverageGapId
  gap_ownerId :: OwnerId
  gap_agentId :: AgentId
  gap_monitorId :: JobId
  gap_startedAt :: string
  gap_endedAt :: "string option"
  gap_status :: gap_status

text \<open>The target status is \<open>gh_normalized\<close> or \<open>gh_rejected\<close> by its TypeScript type.\<close>

definition transitionGitHubReceipt ::
  "github_webhook_receipt \<Rightarrow> receipt_status \<Rightarrow> OccurrenceId option \<Rightarrow> github_webhook_receipt result" where
  "transitionGitHubReceipt r nxt occurrenceId =
     (if gh_status r \<noteq> gh_received then invalidTransition
      else if (nxt = gh_normalized) \<noteq> (occurrenceId \<noteq> None) then domain_fail INVALID_STATE_VALUE
      else Inr (r\<lparr>gh_status := nxt, gh_occurrenceId := occurrenceId\<rparr>))"

definition closeCoverageGap :: "github_coverage_gap \<Rightarrow> string \<Rightarrow> github_coverage_gap result" where
  "closeCoverageGap g endedAt =
     (if gap_status g \<noteq> gap_open then invalidTransition
      else Inr (g\<lparr>gap_status := gap_closed, gap_endedAt := Some endedAt\<rparr>))"

section \<open>Instances of the lifecycle contract\<close>

definition checkpoint_ident :: "thread_checkpoint_job \<Rightarrow> thread_checkpoint_job" where
  "checkpoint_ident j = j\<lparr>ck_status := ck_pending, ck_attemptCount := 0\<rparr>"

definition job_ident :: "background_job_state \<Rightarrow> background_job_state" where
  "job_ident j = j\<lparr>bj_revision := 0, bj_status := bj_active\<rparr>"

definition occurrence_ident :: "background_occurrence \<Rightarrow> background_occurrence" where
  "occurrence_ident c = c\<lparr>occ_revision := 0, occ_status := occ_queued, occ_attemptCount := 0\<rparr>"

definition memory_ident :: "product_memory_lifecycle \<Rightarrow> product_memory_lifecycle" where
  "memory_ident m = m\<lparr>mem_revision := 0, mem_status := mem_active\<rparr>"

lemmas work_op_defs = transitionCheckpointJob_def transitionBackgroundJob_def transitionOccurrence_def
  transitionMemoryLifecycle_def invalidTransition_def

interpretation checkpoint_lc:
  lifecycle transitionCheckpointJob ck_status checkpoint_ident CHECKPOINT_TRANSITIONS
  by unfold_locales (auto simp: work_op_defs checkpoint_ident_def split: if_splits)

interpretation job_lc:
  lifecycle transitionBackgroundJob bj_status job_ident BACKGROUND_JOB_TRANSITIONS
  by unfold_locales (auto simp: work_op_defs job_ident_def split: if_splits)

interpretation occurrence_lc:
  lifecycle transitionOccurrence occ_status occurrence_ident OCCURRENCE_TRANSITIONS
  by unfold_locales (auto simp: work_op_defs occurrence_ident_def split: if_splits)

interpretation memory_lc:
  lifecycle transitionMemoryLifecycle mem_status memory_ident MEMORY_TRANSITIONS
  by unfold_locales (auto simp: work_op_defs memory_ident_def split: if_splits)

section \<open>Facts\<close>

text \<open>The attempt counters count the entries into the running status.\<close>

lemma occurrence_attempts:
  "steps transitionOccurrence c ns = Inr c' \<Longrightarrow>
     occ_attemptCount c' = occ_attemptCount c + int (count_list ns occ_running) \<and>
     occ_revision c' = occ_revision c + int (length ns)"
proof (induction ns arbitrary: c)
  case (Cons n ns)
  then obtain d where d: "transitionOccurrence c n = Inr d" "steps transitionOccurrence d ns = Inr c'"
    by (auto split: sum.splits)
  from d(1) have "occ_attemptCount d = occ_attemptCount c + (if n = occ_running then 1 else 0)"
    and "occ_revision d = occ_revision c + 1"
    by (auto simp: work_op_defs split: if_splits)
  with Cons.IH [OF d(2)] show ?case by auto
qed simp

lemma checkpoint_attempts:
  "steps transitionCheckpointJob j ns = Inr j' \<Longrightarrow>
     ck_attemptCount j' = ck_attemptCount j + int (count_list ns ck_running)"
proof (induction ns arbitrary: j)
  case (Cons n ns)
  then obtain d where d: "transitionCheckpointJob j n = Inr d" "steps transitionCheckpointJob d ns = Inr j'"
    by (auto split: sum.splits)
  from d(1) have "ck_attemptCount d = ck_attemptCount j + (if n = ck_running then 1 else 0)"
    by (auto simp: work_op_defs split: if_splits)
  with Cons.IH [OF d(2)] show ?case by auto
qed simp

lemma path_completed_ran:
  "is_path OCCURRENCE_TRANSITIONS s ns \<Longrightarrow> occ_completed \<in> set ns \<Longrightarrow> occ_running \<in> set (s # ns)"
proof (induction ns arbitrary: s)
  case (Cons n ns)
  then show ?case by (cases "n = occ_completed"; cases s) auto
qed simp

text \<open>
  Counters tell the history: along any accepted history of a background occurrence the revision
  counts the transitions and the attempt counter counts the entries into \<open>running\<close>, so an occurrence
  that completed from \<open>queued\<close> has made at least one attempt.
\<close>

theorem occurrence_counters:
  assumes run: "steps transitionOccurrence c ns = Inr c'"
  shows "occ_revision c' = occ_revision c + int (length ns) \<and>
    occ_attemptCount c' = occ_attemptCount c + int (count_list ns occ_running) \<and>
    (occ_status c = occ_queued \<and> occ_status c' = occ_completed \<longrightarrow> occ_attemptCount c < occ_attemptCount c')"
proof -
  have "occ_running \<in> set ns" if "occ_status c = occ_queued" "occ_status c' = occ_completed"
  proof -
    have path: "is_path OCCURRENCE_TRANSITIONS occ_queued ns"
      using occurrence_lc.steps_iff_path [of c ns] run that by auto
    have "last (occ_queued # ns) = occ_completed"
      using occurrence_lc.steps_status [OF run] that by simp
    then have "occ_completed \<in> set ns" by (rule last_Cons_in_set) simp
    with path_completed_ran [OF path] show ?thesis by auto
  qed
  then have "0 < count_list ns occ_running" if "occ_status c = occ_queued" "occ_status c' = occ_completed"
    using that count_list_0_iff [of ns occ_running] by (metis gr0I)
  with occurrence_attempts [OF run] show ?thesis by auto
qed

definition example_occurrence :: background_occurrence where
  "example_occurrence = \<lparr>occ_id = ''occ'', occ_jobId = ''job'', occ_ownerId = ''o'', occ_agentId = ''a'',
     occ_revision = 1, occ_stableKey = ''key'', occ_status = occ_queued,
     occ_authority = \<lparr>fence_deploymentId = ''d'', fence_authorityEpoch = 1, fence_fencingToken = 1\<rparr>,
     occ_category = ''mail'', occ_dataClassification = class_private, occ_foreground = False,
     occ_parallelSafe = False, occ_estimatedCostMicros = 5, occ_reservedCostMicros = 0,
     occ_spentCostMicros = 0, occ_attemptCount = 0, occ_nextRetryAt = None,
     occ_deadlineAt = ''2026-09-14T00:00:00.000Z'', occ_runId = None, occ_workLease = None,
     occ_lastErrorCode = None\<rparr>"

theorem occurrence_counters_witness:
  "let ns = [occ_admitted, occ_running, occ_completed];
       c' = example_occurrence\<lparr>occ_revision := 4, occ_status := occ_completed, occ_attemptCount := 1\<rparr>
   in steps transitionOccurrence example_occurrence ns = Inr c' \<and>
      occ_attemptCount example_occurrence < occ_attemptCount c'"
proof -
  let ?c = "example_occurrence\<lparr>occ_revision := 4, occ_status := occ_completed, occ_attemptCount := 1\<rparr>"
  have run: "steps transitionOccurrence example_occurrence [occ_admitted, occ_running, occ_completed] = Inr ?c"
    by (simp add: transitionOccurrence_def example_occurrence_def)
  from occurrence_counters [OF run] run show ?thesis by (simp add: example_occurrence_def)
qed

text \<open>
  Deletion of a memory is a one-way street: once deletion is pending, every accepted history is
  the verification of the deletion or nothing at all, and a deleted memory accepts nothing.
\<close>

theorem memory_deletion_is_final:
  assumes "mem_status m = mem_deletion_pending \<or> mem_status m = mem_deleted_verified"
    and run: "steps transitionMemoryLifecycle m ns = Inr m'"
  shows "ns = [] \<or> (mem_status m = mem_deletion_pending \<and> ns = [mem_deleted_verified])"
proof -
  have stuck: "is_path MEMORY_TRANSITIONS mem_deleted_verified ks \<Longrightarrow> ks = []" for ks
    by (cases ks) auto
  have "is_path MEMORY_TRANSITIONS (mem_status m) ns"
    using memory_lc.steps_iff_path [of m ns] run by auto
  with assms(1) show ?thesis by (cases ns) (auto dest: stuck)
qed

theorem memory_deletion_is_final_witness:
  "let m = \<lparr>mem_id = ''m'', mem_ownerId = ''o'', mem_agentId = ''a'', mem_revision = 2,
            mem_status = mem_deletion_pending, mem_providerRecordId = None\<rparr>
   in \<exists>m'. steps transitionMemoryLifecycle m [mem_deleted_verified] = Inr m' \<and> mem_status m' = mem_deleted_verified"
proof -
  let ?m = "\<lparr>mem_id = ''m'', mem_ownerId = ''o'', mem_agentId = ''a'', mem_revision = 2,
            mem_status = mem_deletion_pending, mem_providerRecordId = None\<rparr>"
  obtain m' where run: "steps transitionMemoryLifecycle ?m [mem_deleted_verified] = Inr m'"
    by (simp add: work_op_defs)
  from memory_deletion_is_final [OF _ run] run show ?thesis
    by (auto simp: work_op_defs)
qed

end
