(* ===== verification/JsDate.thy ===== *)
theory JsDate
  imports Prelude
begin

text \<open>
  The part of the JavaScript \<open>Date\<close> object the sources use: \<open>new Date(ms).toISOString()\<close>,
  \<open>new Date(text).valueOf()\<close> and the canonical-timestamp test \<open>isCanonicalTimestamp\<close> of
  \<open>packages/application/src/services/scheduler-service.ts\<close>, \<open>new Date(text).toISOString() === text\<close>. An instant is an integer number of milliseconds since the
  epoch, at most \<open>8.64e15\<close> in absolute value. \<open>toISOString\<close> writes four-digit years, and signed
  six-digit years outside 0 to 9999, in the proleptic Gregorian calendar.

  \<open>date_parse\<close> reads the date-time strings of the form that \<open>toISOString\<close> writes, with the leniency of
  the ECMAScript engines (days up to 31 in every month roll over, the hour 24 at midnight). Every
  other text is an invalid date in this model, while an engine may accept further formats; the
  canonical-timestamp test is exact all the same, because a text in any other format is never equal to
  an output of \<open>toISOString\<close>.

  The theorems show that parsing inverts printing for every valid instant, and that comparing two
  canonical timestamps of the years 0 to 9999 as strings, which is what the services do, compares the
  instants.
\<close>

section \<open>Fixed-width decimal numbers\<close>

definition digit_char :: "int \<Rightarrow> char" where
  "digit_char d = char_of (48 + nat d)"

definition is_digit :: "char \<Rightarrow> bool" where
  "is_digit c \<longleftrightarrow> CHR ''0'' \<le> c \<and> c \<le> CHR ''9''"

definition digit_value :: "char \<Rightarrow> int" where
  "digit_value c = int (of_char c) - 48"

fun pad_digits :: "nat \<Rightarrow> int \<Rightarrow> string" where
  "pad_digits 0 n = []"
| "pad_digits (Suc k) n = pad_digits k (n div 10) @ [digit_char (n mod 10)]"

definition read_digits :: "string \<Rightarrow> int option" where
  "read_digits s = (if list_all is_digit s then Some (foldl (\<lambda>n c. 10 * n + digit_value c) 0 s) else None)"

lemma of_char_digit: "0 \<le> d \<Longrightarrow> d < 10 \<Longrightarrow> (of_char (digit_char d) :: nat) = 48 + nat d"
  by (simp add: digit_char_def of_char_of take_bit_eq_mod)

lemma digit_char_is_digit: "0 \<le> d \<Longrightarrow> d < 10 \<Longrightarrow> is_digit (digit_char d)"
  by (simp add: is_digit_def less_eq_char_def of_char_digit)

lemma digit_value_char: "0 \<le> d \<Longrightarrow> d < 10 \<Longrightarrow> digit_value (digit_char d) = d"
  by (simp add: digit_value_def of_char_digit)

lemma digit_char_less: "0 \<le> a \<Longrightarrow> a < 10 \<Longrightarrow> 0 \<le> b \<Longrightarrow> b < 10 \<Longrightarrow> digit_char a < digit_char b \<longleftrightarrow> a < b"
  by (auto simp: less_char_def of_char_digit)

lemma length_pad_digits [simp]: "length (pad_digits k n) = k"
  by (induction k arbitrary: n) auto

lemma pad_digits_read:
  assumes "0 \<le> n" and "n < 10 ^ k"
  shows "read_digits (pad_digits k n) = Some n"
  using assms
proof (induction k arbitrary: n)
  case (Suc k)
  have "n div 10 < 10 ^ k" using Suc.prems by simp
  moreover have "0 \<le> n div 10" using Suc.prems by simp
  ultimately have "read_digits (pad_digits k (n div 10)) = Some (n div 10)" by (rule Suc.IH[rotated])
  then show ?case
    by (auto simp: read_digits_def digit_char_is_digit digit_value_char split: if_splits)
qed (simp add: read_digits_def)

lemma less_append_same_length:
  fixes u v :: string
  assumes "length u = length v"
  shows "u @ x < v @ y \<longleftrightarrow> u < v \<or> (u = v \<and> x < y)"
  using assms by (induction u v rule: list_induct2) auto

lemma div_mod_less:
  fixes k :: int
  assumes "0 < k"
  shows "a < b \<longleftrightarrow> a div k < b div k \<or> (a div k = b div k \<and> a mod k < b mod k)"
proof -
  have eq: "a = k * (a div k) + a mod k" "b = k * (b div k) + b mod k" by simp_all
  have rem: "0 \<le> a mod k" "a mod k < k" "0 \<le> b mod k" "b mod k < k" using assms by auto
  have "a div k < b div k \<Longrightarrow> a < b" using eq rem assms
    by (metis div_less_dividend linorder_not_less zdiv_mono1)
  moreover have "a < b \<Longrightarrow> a div k \<le> b div k" using assms by (simp add: zdiv_mono1)
  moreover have "a div k = b div k \<Longrightarrow> a < b \<longleftrightarrow> a mod k < b mod k" using eq by (metis add_less_cancel_left)
  ultimately show ?thesis by linarith
qed

lemma div_mod_digit:
  fixes k :: int
  assumes "0 \<le> r" "r < k"
  shows "(k * q + r) div k = q" and "(k * q + r) mod k = r"
  using assms by simp_all

lemma pad_digits_eq:
  assumes "0 \<le> a" and "a < 10 ^ k" and "0 \<le> b" and "b < 10 ^ k"
  shows "pad_digits k a = pad_digits k b \<longleftrightarrow> a = b"
  using pad_digits_read [OF assms(1,2)] pad_digits_read [OF assms(3,4)] by (metis option.inject)

lemma pad_digits_less:
  assumes "0 \<le> a" and "a < 10 ^ k" and "0 \<le> b" and "b < 10 ^ k"
  shows "pad_digits k a < pad_digits k b \<longleftrightarrow> a < b"
  using assms
proof (induction k arbitrary: a b)
  case (Suc k)
  have r: "0 \<le> a div 10" "a div 10 < 10 ^ k" "0 \<le> b div 10" "b div 10 < 10 ^ k"
    using Suc.prems by auto
  have "a < b \<longleftrightarrow> a div 10 < b div 10 \<or> (a div 10 = b div 10 \<and> a mod 10 < b mod 10)"
    by (rule div_mod_less) simp
  then show ?case
    by (simp add: less_append_same_length digit_char_less Suc.IH [OF r] pad_digits_eq [OF r])
qed simp

section \<open>The proleptic Gregorian calendar\<close>

text \<open>
  Day numbers count from 1 January 1970. Years are counted from 1 March, so that the leap day is the
  last day of a year: 146097 days make an era of 400 years, 36524 a century, 1461 four years.
\<close>

definition era_of :: "int \<Rightarrow> int" where
  "era_of z = (z + 719468) div 146097"

definition day_of_era :: "int \<Rightarrow> int" where
  "day_of_era z = (z + 719468) mod 146097"

definition century_of :: "int \<Rightarrow> int" where
  "century_of doe = min 3 (doe div 36524)"

definition day_of_century :: "int \<Rightarrow> int" where
  "day_of_century doe = doe - 36524 * century_of doe"

definition year_of_quad :: "int \<Rightarrow> int" where
  "year_of_quad doq = min 3 (doq div 365)"

definition day_of_year :: "int \<Rightarrow> int" where
  "day_of_year doq = doq - 365 * year_of_quad doq"

definition month_index :: "int \<Rightarrow> int" where
  "month_index doy = (5 * doy + 2) div 153"

definition day_in_month :: "int \<Rightarrow> int" where
  "day_in_month doy = doy - (153 * month_index doy + 2) div 5"

definition civil_from_days :: "int \<Rightarrow> int \<times> int \<times> int" where
  "civil_from_days z =
     (let doe = day_of_era z; doc = day_of_century doe; doq = doc mod 1461; doy = day_of_year doq;
          y = 400 * era_of z + 100 * century_of doe + 4 * (doc div 1461) + year_of_quad doq;
          mp = month_index doy
      in if mp < 10 then (y, mp + 3, day_in_month doy + 1) else (y + 1, mp - 9, day_in_month doy + 1))"

definition days_from_civil :: "int \<Rightarrow> int \<Rightarrow> int \<Rightarrow> int" where
  "days_from_civil y m d =
     (let y' = (if m \<le> 2 then y - 1 else y); yoe = y' mod 400;
          mp = (if m \<le> 2 then m + 9 else m - 3)
      in 146097 * (y' div 400) + 365 * yoe + yoe div 4 - yoe div 100 + (153 * mp + 2) div 5 + d - 1 - 719468)"

lemma doe_range: "0 \<le> day_of_era z" "day_of_era z < 146097"
  by (simp_all add: day_of_era_def)

lemma century_range:
  assumes "0 \<le> doe" "doe < 146097"
  shows "0 \<le> century_of doe" "century_of doe \<le> 3" "0 \<le> day_of_century doe" "day_of_century doe < 36525"
  using assms by (auto simp: century_of_def day_of_century_def min_def)

lemma quad_range:
  fixes doc :: int
  assumes "0 \<le> doc" "doc < 36525"
  shows "0 \<le> doc div 1461" "doc div 1461 \<le> 24" "0 \<le> doc mod 1461" "doc mod 1461 < 1461"
  using assms by auto

lemma year_range:
  assumes "0 \<le> doq" "doq < 1461"
  shows "0 \<le> year_of_quad doq" "year_of_quad doq \<le> 3" "0 \<le> day_of_year doq" "day_of_year doq < 366"
  using assms by (auto simp: year_of_quad_def day_of_year_def min_def)

lemma month_range:
  assumes "0 \<le> doy" "doy < 366"
  shows "0 \<le> month_index doy" "month_index doy \<le> 11" "0 \<le> day_in_month doy" "day_in_month doy \<le> 30"
proof -
  define r s where "r = (5 * doy + 2) mod 153" and "s = (153 * month_index doy + 2) mod 5"
  have r: "5 * doy + 2 = 153 * month_index doy + r" "0 \<le> r" "r < 153"
    by (auto simp: r_def month_index_def)
  have s: "153 * month_index doy + 2 = 5 * (doy - day_in_month doy) + s" "0 \<le> s" "s < 5"
    by (auto simp: s_def day_in_month_def)
  show "0 \<le> month_index doy" "month_index doy \<le> 11" using r assms by linarith+
  have "5 * day_in_month doy = r + s - 4" using r(1) s(1) by simp
  then show "0 \<le> day_in_month doy" "day_in_month doy \<le> 30" using r(2,3) s(2,3) by linarith+
qed

definition march_year :: "int \<Rightarrow> int" where
  "march_year z = (let doe = day_of_era z; doc = day_of_century doe
     in 400 * era_of z + 100 * century_of doe + 4 * (doc div 1461) + year_of_quad (doc mod 1461))"

definition march_day :: "int \<Rightarrow> int" where
  "march_day z = day_of_year (day_of_century (day_of_era z) mod 1461)"

lemma march_day_range: "0 \<le> march_day z" "march_day z < 366"
  unfolding march_day_def by (intro year_range quad_range century_range doe_range)+

lemma civil_from_days_march:
  "civil_from_days z = (let mp = month_index (march_day z); d = day_in_month (march_day z) + 1
     in if mp < 10 then (march_year z, mp + 3, d) else (march_year z + 1, mp - 9, d))"
  by (simp add: civil_from_days_def march_year_def march_day_def Let_def)

lemma days_of_march_year:
  assumes "0 \<le> c" "c \<le> 3" "0 \<le> q" "q \<le> 24" "0 \<le> y" "y \<le> (3::int)"
  shows "(400 * e + 100 * c + 4 * q + y) div 400 = e"
    and "(400 * e + 100 * c + 4 * q + y) mod 400 = 100 * c + 4 * q + y"
    and "(100 * c + 4 * q + y) div 4 = 25 * c + q" and "(100 * c + 4 * q + y) div 100 = c"
proof -
  show "(400 * e + 100 * c + 4 * q + y) div 400 = e"
    using div_mod_digit(1) [of "100 * c + 4 * q + y" 400 e] assms by (simp add: add.assoc)
  show "(400 * e + 100 * c + 4 * q + y) mod 400 = 100 * c + 4 * q + y"
    using div_mod_digit(2) [of "100 * c + 4 * q + y" 400 e] assms by (simp add: add.assoc)
  show "(100 * c + 4 * q + y) div 4 = 25 * c + q"
    using div_mod_digit(1) [of y 4 "25 * c + q"] assms by (simp add: algebra_simps)
  show "(100 * c + 4 * q + y) div 100 = c"
    using div_mod_digit(1) [of "4 * q + y" 100 c] assms by (simp add: add.assoc)
qed

lemma civil_fields:
  assumes "civil_from_days z = (y, m, d)"
  shows "1 \<le> m" "m \<le> 12" "1 \<le> d" "d \<le> 31"
  using assms month_range [OF march_day_range [of z]]
  by (auto simp: civil_from_days_march Let_def split: if_splits)

lemma days_civil_inverse:
  assumes "civil_from_days z = (y, m, d)"
  shows "days_from_civil y m d = z"
proof -
  define doe c doc q doq yq
    where "doe = day_of_era z" and "c = century_of doe" and "doc = day_of_century doe"
      and "q = doc div 1461" and "doq = doc mod 1461" and "yq = year_of_quad doq"
  note defs = this
  have r: "0 \<le> doe" "doe < 146097" by (simp_all add: defs doe_range)
  have rc: "0 \<le> c" "c \<le> 3" "0 \<le> doc" "doc < 36525" using century_range [OF r] by (auto simp: defs)
  have rq: "0 \<le> q" "q \<le> 24" "0 \<le> doq" "doq < 1461" using quad_range [OF rc(3,4)] by (auto simp: defs)
  have ry: "0 \<le> yq" "yq \<le> 3" using year_range [OF rq(3,4)] by (auto simp: defs)
  have Y: "march_year z = 400 * era_of z + 100 * c + 4 * q + yq"
    by (simp add: march_year_def defs Let_def)
  have "z + 719468 = 146097 * era_of z + doe" by (simp add: era_of_def defs day_of_era_def)
  moreover have "doe = 36524 * c + doc" by (simp add: defs day_of_century_def)
  moreover have "doc = 1461 * q + doq" by (simp add: defs)
  moreover have "doq = 365 * yq + march_day z" by (simp add: defs day_of_year_def march_day_def)
  ultimately have z: "z = 146097 * era_of z + 36524 * c + 1461 * q + 365 * yq + march_day z - 719468"
    by simp
  define mp where "mp = month_index (march_day z)"
  define k where "k = (153 * mp + 2) div 5"
  have md: "march_day z = k + day_in_month (march_day z)"
    by (simp add: day_in_month_def mp_def k_def)
  have mr: "0 \<le> mp" "mp \<le> 11" using month_range [OF march_day_range [of z]] by (simp_all add: mp_def)
  have "m \<le> 2 \<longleftrightarrow> \<not> mp < 10" "y = (if mp < 10 then march_year z else march_year z + 1)"
    "m = (if mp < 10 then mp + 3 else mp - 9)" "d = day_in_month (march_day z) + 1"
    using assms mr unfolding civil_from_days_march Let_def mp_def [symmetric] by (auto split: if_splits)
  then have "days_from_civil y m d = 146097 * (march_year z div 400) + 365 * (march_year z mod 400)
      + march_year z mod 400 div 4 - march_year z mod 400 div 100 + k
      + day_in_month (march_day z) - 719468"
    by (simp add: days_from_civil_def Let_def k_def)
  also have "\<dots> = z"
    unfolding Y days_of_march_year [OF rc(1,2) rq(1,2) ry] using z md by (simp add: algebra_simps)
  finally show ?thesis .
qed

section \<open>Printing and parsing instants\<close>

definition MAX_TIME :: int where
  "MAX_TIME = 8640000000000000"

definition valid_time :: "int \<Rightarrow> bool" where
  "valid_time t \<longleftrightarrow> - MAX_TIME \<le> t \<and> t \<le> MAX_TIME"

definition year_string :: "int \<Rightarrow> string" where
  "year_string y = (if 0 \<le> y \<and> y \<le> 9999 then pad_digits 4 y
                    else if y < 0 then CHR ''-'' # pad_digits 6 (- y) else CHR ''+'' # pad_digits 6 y)"

text \<open>\<open>-MM-DDTHH:mm:ss.sssZ\<close>, from the month, the day and the milliseconds of the day.\<close>

definition date_tail :: "int \<Rightarrow> int \<Rightarrow> int \<Rightarrow> string" where
  "date_tail m d ms =
     CHR ''-'' # pad_digits 2 m @ CHR ''-'' # pad_digits 2 d @ CHR ''T'' # pad_digits 2 (ms div 3600000) @
     CHR '':'' # pad_digits 2 (ms div 60000 mod 60) @ CHR '':'' # pad_digits 2 (ms div 1000 mod 60) @
     CHR ''.'' # pad_digits 3 (ms mod 1000) @ ''Z''"

definition iso_string :: "int \<Rightarrow> string" where
  "iso_string t = (case civil_from_days (t div 86400000) of
     (y, m, d) \<Rightarrow> year_string y @ date_tail m d (t mod 86400000))"

definition toISOString :: "int \<Rightarrow> string result" where
  "toISOString t = (if valid_time t then Inr (iso_string t) else Inl RangeError)"

definition make_date :: "int \<Rightarrow> int \<Rightarrow> int \<Rightarrow> int \<Rightarrow> int \<Rightarrow> int \<Rightarrow> int \<Rightarrow> int option" where
  "make_date y m d h mi s ms =
     (if 1 \<le> m \<and> m \<le> 12 \<and> 1 \<le> d \<and> d \<le> 31 \<and>
         (h \<le> 23 \<and> mi \<le> 59 \<and> s \<le> 59 \<or> h = 24 \<and> mi = 0 \<and> s = 0 \<and> ms = 0)
      then (let t = 86400000 * days_from_civil y m d + 3600000 * h + 60000 * mi + 1000 * s + ms
            in if valid_time t then Some t else None)
      else None)"

definition slice :: "nat \<Rightarrow> nat \<Rightarrow> 'a list \<Rightarrow> 'a list" where
  "slice i n s = take n (drop i s)"

definition parse_tail :: "int \<Rightarrow> string \<Rightarrow> int option" where
  "parse_tail y r =
     (if length r = 20 \<and> r ! 0 = CHR ''-'' \<and> r ! 3 = CHR ''-'' \<and> r ! 6 = CHR ''T'' \<and>
         r ! 9 = CHR '':'' \<and> r ! 12 = CHR '':'' \<and> r ! 15 = CHR ''.'' \<and> r ! 19 = CHR ''Z''
      then (case (read_digits (slice 1 2 r), read_digits (slice 4 2 r), read_digits (slice 7 2 r),
                  read_digits (slice 10 2 r), read_digits (slice 13 2 r), read_digits (slice 16 3 r)) of
              (Some m, Some d, Some h, Some mi, Some s, Some ms) \<Rightarrow> make_date y m d h mi s ms
            | _ \<Rightarrow> None)
      else None)"

definition date_parse :: "string \<Rightarrow> int option" where
  "date_parse s =
     (if s = [] then None
      else if hd s = CHR ''+''
        then (case read_digits (slice 1 6 s) of Some y \<Rightarrow> parse_tail y (drop 7 s) | None \<Rightarrow> None)
      else if hd s = CHR ''-''
        then (case read_digits (slice 1 6 s) of
                Some y \<Rightarrow> if y = 0 then None else parse_tail (- y) (drop 7 s) | None \<Rightarrow> None)
      else (case read_digits (take 4 s) of Some y \<Rightarrow> parse_tail y (drop 4 s) | None \<Rightarrow> None))"

definition isCanonicalTimestamp :: "string \<Rightarrow> bool" where
  "isCanonicalTimestamp s = (case date_parse s of None \<Rightarrow> False | Some t \<Rightarrow> toISOString t = Inr s)"

text \<open>\<open>new Date(text).toISOString()\<close>, which throws on an invalid date.\<close>

definition normalize_timestamp :: "string \<Rightarrow> string result" where
  "normalize_timestamp s = (case date_parse s of None \<Rightarrow> Inl RangeError | Some t \<Rightarrow> toISOString t)"

lemma pad_digits_2: "pad_digits 2 n = [digit_char (n div 10 mod 10), digit_char (n mod 10)]"
  by (simp add: numeral_2_eq_2)

lemma pad_digits_3: "pad_digits 3 n = [digit_char (n div 10 div 10 mod 10), digit_char (n div 10 mod 10), digit_char (n mod 10)]"
  by (simp add: numeral_3_eq_3)

lemma day_ms_fields:
  assumes "0 \<le> ms" and "ms < (86400000::int)"
  shows "0 \<le> ms div 3600000" "ms div 3600000 \<le> 23"
    and "0 \<le> ms div 60000 mod 60" "ms div 60000 mod 60 \<le> 59"
    and "0 \<le> ms div 1000 mod 60" "ms div 1000 mod 60 \<le> 59"
    and "0 \<le> ms mod 1000" "ms mod 1000 \<le> 999"
    and "3600000 * (ms div 3600000) + 60000 * (ms div 60000 mod 60) + 1000 * (ms div 1000 mod 60) + ms mod 1000 = ms"
proof -
  have "ms div 60000 = 60 * (ms div 3600000) + ms div 60000 mod 60"
    using zdiv_zmult2_eq [of 60 ms 60000] by simp
  moreover have "ms div 1000 = 60 * (ms div 60000) + ms div 1000 mod 60"
    using zdiv_zmult2_eq [of 60 ms 1000] by simp
  moreover have "ms = 1000 * (ms div 1000) + ms mod 1000" by simp
  ultimately show "3600000 * (ms div 3600000) + 60000 * (ms div 60000 mod 60) + 1000 * (ms div 1000 mod 60) + ms mod 1000 = ms"
    by linarith
qed (use assms in auto)

lemma parse_tail_fields:
  assumes "read_digits [a1, a2] = Some m" "read_digits [b1, b2] = Some d" "read_digits [c1, c2] = Some h"
    "read_digits [d1, d2] = Some mi" "read_digits [e1, e2] = Some s" "read_digits [f1, f2, f3] = Some ms"
  shows "parse_tail y [CHR ''-'', a1, a2, CHR ''-'', b1, b2, CHR ''T'', c1, c2, CHR '':'', d1, d2,
    CHR '':'', e1, e2, CHR ''.'', f1, f2, f3, CHR ''Z''] = make_date y m d h mi s ms"
  using assms by (simp add: parse_tail_def slice_def)

lemma read_pad_2: "0 \<le> n \<Longrightarrow> n \<le> 99 \<Longrightarrow>
    read_digits [digit_char (n div 10 mod 10), digit_char (n mod 10)] = Some n"
  using pad_digits_read [of n 2] by (simp add: pad_digits_2)

lemma read_pad_3: "0 \<le> n \<Longrightarrow> n \<le> 999 \<Longrightarrow>
    read_digits [digit_char (n div 10 div 10 mod 10), digit_char (n div 10 mod 10), digit_char (n mod 10)] = Some n"
  using pad_digits_read [of n 3] by (simp add: pad_digits_3)

lemma parse_tail_inverse:
  assumes "1 \<le> m" "m \<le> 12" "1 \<le> d" "d \<le> 31" "0 \<le> ms" "ms < 86400000"
  shows "parse_tail y (date_tail m d ms) =
    (let t = 86400000 * days_from_civil y m d + ms in if valid_time t then Some t else None)"
proof -
  note f = day_ms_fields [OF assms(5,6)]
  define h mi s milli where "h = ms div 3600000" and "mi = ms div 60000 mod 60"
    and "s = ms div 1000 mod 60" and "milli = ms mod 1000"
  note fs = f [folded this]
  have "parse_tail y (date_tail m d ms) = make_date y m d h mi s milli"
    unfolding date_tail_def h_def [symmetric] mi_def [symmetric] s_def [symmetric] milli_def [symmetric]
      pad_digits_2 pad_digits_3 append.simps
    by (intro parse_tail_fields read_pad_2 read_pad_3; use fs assms in linarith)
  also have "\<dots> = (let t = 86400000 * days_from_civil y m d + ms in if valid_time t then Some t else None)"
    using fs assms by (simp add: make_date_def Let_def add.assoc)
  finally show ?thesis .
qed

lemma valid_time_year:
  assumes "valid_time t" and "civil_from_days (t div 86400000) = (y, m, d)"
  shows "- 999999 \<le> y" and "y \<le> 999999"
proof -
  define z where "z = t div 86400000"
  have z: "- 100000000 \<le> z" "z \<le> 100000000"
    using assms(1) by (auto simp: valid_time_def MAX_TIME_def z_def)
  then have e: "- 700 \<le> era_of z" "era_of z \<le> 700" by (auto simp: era_of_def)
  have r: "0 \<le> day_of_century (day_of_era z)" "day_of_century (day_of_era z) < 36525"
    "0 \<le> century_of (day_of_era z)" "century_of (day_of_era z) \<le> 3"
    by (rule century_range [OF doe_range])+
  note q = quad_range [OF r(1,2)]
  have Y: "- 999998 \<le> march_year z" "march_year z \<le> 999998"
    using e r(3,4) q(1,2) year_range(1,2) [OF q(3,4)] unfolding march_year_def Let_def by linarith+
  have "y = march_year z \<or> y = march_year z + 1"
    using assms(2) by (auto simp: civil_from_days_march Let_def z_def [symmetric] split: if_splits)
  with Y show "- 999999 \<le> y" "y \<le> 999999" by auto
qed

lemma date_parse_year:
  assumes "- 999999 \<le> y" and "y \<le> 999999"
  shows "date_parse (year_string y @ r) = parse_tail y r"
proof -
  consider "0 \<le> y \<and> y \<le> 9999" | "y < 0" | "y > 9999" by linarith
  then show ?thesis
  proof cases
    case 1
    have "hd (pad_digits 4 y) = digit_char (y div 1000 mod 10)"
      by (simp add: eval_nat_numeral div_div_div_same zdiv_zmult2_eq [symmetric])
    moreover have "is_digit (digit_char (y div 1000 mod 10))" by (rule digit_char_is_digit) auto
    ultimately have "is_digit (hd (pad_digits 4 y))" by simp
    then have "hd (pad_digits 4 y) \<noteq> CHR ''+''" "hd (pad_digits 4 y) \<noteq> CHR ''-''"
      by (auto simp: is_digit_def less_eq_char_def)
    moreover have "pad_digits 4 y \<noteq> []" by (metis length_pad_digits list.size(3) zero_neq_numeral)
    ultimately show ?thesis using 1 pad_digits_read [of y 4]
      by (simp add: date_parse_def year_string_def)
  next
    case 2
    then show ?thesis using assms pad_digits_read [of "- y" 6]
      by (simp add: date_parse_def year_string_def slice_def)
  next
    case 3
    then show ?thesis using assms pad_digits_read [of y 6]
      by (simp add: date_parse_def year_string_def slice_def)
  qed
qed

lemma date_parse_iso: "valid_time t \<Longrightarrow> date_parse (iso_string t) = Some t"
proof -
  assume v: "valid_time t"
  obtain y m d where c: "civil_from_days (t div 86400000) = (y, m, d)" by (cases "civil_from_days (t div 86400000)")
  have "date_parse (iso_string t) = parse_tail y (date_tail m d (t mod 86400000))"
    using date_parse_year [OF valid_time_year [OF v c]] by (simp add: iso_string_def c)
  also have "\<dots> = Some t"
    using civil_fields [OF c] parse_tail_inverse [of m d "t mod 86400000" y] days_civil_inverse [OF c] v
    by (simp add: Let_def)
  finally show ?thesis .
qed

lemma canonical_iso: "valid_time t \<Longrightarrow> isCanonicalTimestamp (iso_string t)"
  by (simp add: isCanonicalTimestamp_def date_parse_iso toISOString_def)

lemma canonicalE:
  assumes "isCanonicalTimestamp s"
  obtains t where "valid_time t" and "s = iso_string t" and "date_parse s = Some t"
  using assms that by (auto simp: isCanonicalTimestamp_def toISOString_def split: option.splits if_splits)

lemma toISOString_Inr: "toISOString t = Inr s \<longleftrightarrow> valid_time t \<and> s = iso_string t"
  by (auto simp: toISOString_def)

section \<open>String order is time order\<close>

lemma positional_less:
  fixes k :: int
  assumes "0 \<le> r" "r < k" "0 \<le> r'" "r' < k"
  shows "k * q + r < k * q' + r' \<longleftrightarrow> q < q' \<or> (q = q' \<and> r < r')"
proof -
  have "0 < k" using assms by linarith
  then show ?thesis
    using div_mod_less [of k "k * q + r" "k * q' + r'"] div_mod_digit [OF assms(1,2)] div_mod_digit [OF assms(3,4)]
    by simp
qed

definition calendar_index :: "int \<times> int \<times> int \<Rightarrow> int" where
  "calendar_index = (\<lambda>(y, m, d). 31 * (12 * y + (m - 1)) + (d - 1))"

lemma calendar_index_march: "calendar_index (civil_from_days z) =
    31 * (12 * march_year z + month_index (march_day z) + 2) + day_in_month (march_day z)"
  by (simp add: calendar_index_def civil_from_days_march Let_def)

lemma march_day_mono:
  assumes "0 \<le> a" "a < b" "b < 366"
  shows "31 * month_index a + day_in_month a < 31 * month_index b + day_in_month b"
proof -
  have "month_index a \<le> month_index b" using assms by (simp add: month_index_def zdiv_mono1)
  moreover have "month_index a = month_index b \<Longrightarrow> day_in_month a < day_in_month b"
    using assms by (simp add: day_in_month_def)
  moreover have "0 \<le> day_in_month a" "day_in_month a \<le> 30" "0 \<le> day_in_month b" "day_in_month b \<le> 30"
    using month_range(3,4) [of a] month_range(3,4) [of b] assms by linarith+
  ultimately show ?thesis by (cases "month_index a = month_index b") auto
qed

definition day_index :: "int \<Rightarrow> int" where
  "day_index doy = 31 * month_index doy + day_in_month doy"

definition quad_index :: "int \<Rightarrow> int" where
  "quad_index doq = 372 * year_of_quad doq + day_index (day_of_year doq)"

definition century_index :: "int \<Rightarrow> int" where
  "century_index doc = 1488 * (doc div 1461) + quad_index (doc mod 1461)"

definition era_index :: "int \<Rightarrow> int" where
  "era_index doe = 37200 * century_of doe + century_index (day_of_century doe)"

lemma day_index_range: "0 \<le> a \<Longrightarrow> a < 366 \<Longrightarrow> 0 \<le> day_index a \<and> day_index a < 372"
  using month_range [of a] unfolding day_index_def by linarith

lemma quad_index_range: "0 \<le> a \<Longrightarrow> a < 1461 \<Longrightarrow> 0 \<le> quad_index a \<and> quad_index a < 1488"
  using year_range [of a] day_index_range [of "day_of_year a"] unfolding quad_index_def by linarith

lemma century_index_range: "0 \<le> a \<Longrightarrow> a < 36525 \<Longrightarrow> 0 \<le> century_index a \<and> century_index a < 37200"
  using quad_range [of a] quad_index_range [of "a mod 1461"] unfolding century_index_def by linarith

lemma era_index_range: "0 \<le> a \<Longrightarrow> a < 146097 \<Longrightarrow> 0 \<le> era_index a \<and> era_index a < 148800"
  using century_range [of a] century_index_range [of "day_of_century a"] unfolding era_index_def by linarith

lemma quad_index_mono:
  assumes "0 \<le> a" "a < b" "b < 1461"
  shows "quad_index a < quad_index b"
proof -
  have r: "0 \<le> day_of_year a" "day_of_year a < 366" "0 \<le> day_of_year b" "day_of_year b < 366"
    using year_range [of a] year_range [of b] assms by linarith+
  have "a div 365 \<le> b div 365" using assms by (simp add: zdiv_mono1)
  then have "year_of_quad a \<le> year_of_quad b" by (simp add: year_of_quad_def)
  moreover have "year_of_quad a = year_of_quad b \<Longrightarrow> day_index (day_of_year a) < day_index (day_of_year b)"
    unfolding day_index_def using assms r by (intro march_day_mono) (simp_all add: day_of_year_def)
  ultimately show ?thesis
    using day_index_range [OF r(1,2)] day_index_range [OF r(3,4)] unfolding quad_index_def by linarith
qed

lemma century_index_mono:
  assumes "0 \<le> a" "a < b" "b < 36525"
  shows "century_index a < century_index b"
proof -
  have "a div 1461 < b div 1461 \<or> (a div 1461 = b div 1461 \<and> a mod 1461 < b mod 1461)"
    using div_mod_less [of 1461 a b] assms by simp
  then show ?thesis
    using quad_index_mono [of "a mod 1461" "b mod 1461"] quad_index_range [of "a mod 1461"]
      quad_index_range [of "b mod 1461"] by (auto simp: century_index_def)
qed

lemma era_index_mono:
  assumes "0 \<le> a" "a < b" "b < 146097"
  shows "era_index a < era_index b"
proof -
  have r: "0 \<le> day_of_century a" "day_of_century a < 36525" "0 \<le> day_of_century b" "day_of_century b < 36525"
    using century_range [of a] century_range [of b] assms by linarith+
  have "a div 36524 \<le> b div 36524" using assms by (simp add: zdiv_mono1)
  then have "century_of a \<le> century_of b" by (simp add: century_of_def)
  moreover have "century_of a = century_of b \<Longrightarrow> century_index (day_of_century a) < century_index (day_of_century b)"
    using assms r by (intro century_index_mono) (simp_all add: day_of_century_def)
  ultimately show ?thesis
    using century_index_range [OF r(1,2)] century_index_range [OF r(3,4)] unfolding era_index_def by linarith
qed

lemma calendar_index_eq:
  "calendar_index (civil_from_days z) = 148800 * era_of z + era_index (day_of_era z) + 62"
  by (simp add: calendar_index_march march_year_def march_day_def era_index_def century_index_def
      quad_index_def day_index_def Let_def)

lemma calendar_index_less: "calendar_index (civil_from_days a) < calendar_index (civil_from_days b) \<longleftrightarrow> a < b"
proof -
  have mono: "calendar_index (civil_from_days a) < calendar_index (civil_from_days b)" if "a < b" for a b
  proof -
    have "era_of a < era_of b \<or> (era_of a = era_of b \<and> day_of_era a < day_of_era b)"
      using that div_mod_less [of 146097 "a + 719468" "b + 719468"] by (simp add: era_of_def day_of_era_def)
    then show ?thesis
      using era_index_mono [of "day_of_era a" "day_of_era b"] doe_range [of a] doe_range [of b]
        era_index_range [of "day_of_era a"] era_index_range [of "day_of_era b"]
      unfolding calendar_index_eq by auto
  qed
  show ?thesis using mono [of a b] mono [of b a] by (cases a b rule: linorder_cases) auto
qed

lemma calendar_index_lex:
  assumes "civil_from_days z = (y, m, d)" and "civil_from_days z' = (y', m', d')"
  shows "z < z' \<longleftrightarrow> y < y' \<or> y = y' \<and> (m < m' \<or> m = m' \<and> d < d')"
proof -
  note f = civil_fields [OF assms(1)] civil_fields [OF assms(2)]
  have "z < z' \<longleftrightarrow> 31 * (12 * y + (m - 1)) + (d - 1) < 31 * (12 * y' + (m' - 1)) + (d' - 1)"
    using calendar_index_less [of z z'] assms by (simp add: calendar_index_def)
  also have "\<dots> \<longleftrightarrow> 12 * y + (m - 1) < 12 * y' + (m' - 1) \<or>
      12 * y + (m - 1) = 12 * y' + (m' - 1) \<and> d - 1 < d' - 1"
    by (rule positional_less) (use f in linarith)+
  also have "\<dots> \<longleftrightarrow> y < y' \<or> y = y' \<and> (m < m' \<or> m = m' \<and> d < d')"
    using f by auto
  finally show ?thesis .
qed

lemma positional_eq:
  fixes k :: int
  assumes "0 \<le> r" "r < k" "0 \<le> r'" "r' < k"
  shows "k * q + r = k * q' + r' \<longleftrightarrow> q = q' \<and> r = r'"
  using div_mod_digit [OF assms(1,2), of q] div_mod_digit [OF assms(3,4), of q'] by auto

lemma clock_lex:
  fixes h :: int
  assumes "0 \<le> mi" "mi < 60" "0 \<le> s" "s < 60" "0 \<le> ms" "ms < 1000"
    and "0 \<le> mi'" "mi' < 60" "0 \<le> s'" "s' < 60" "0 \<le> ms'" "ms' < 1000"
  shows "1000 * (60 * (60 * h + mi) + s) + ms < 1000 * (60 * (60 * h' + mi') + s') + ms' \<longleftrightarrow>
    h < h' \<or> h = h' \<and> (mi < mi' \<or> mi = mi' \<and> (s < s' \<or> s = s' \<and> ms < ms'))"
  by (simp only: positional_less [OF assms(5,6,11,12)] positional_less [OF assms(3,4,9,10)]
      positional_less [OF assms(1,2,7,8)] positional_eq [OF assms(3,4,9,10)] positional_eq [OF assms(1,2,7,8)]) blast

lemma day_ms_lex:
  assumes "0 \<le> a" "a < 86400000" "0 \<le> b" "b < (86400000::int)"
  shows "a < b \<longleftrightarrow> a div 3600000 < b div 3600000 \<or> a div 3600000 = b div 3600000 \<and>
    (a div 60000 mod 60 < b div 60000 mod 60 \<or> a div 60000 mod 60 = b div 60000 mod 60 \<and>
    (a div 1000 mod 60 < b div 1000 mod 60 \<or> a div 1000 mod 60 = b div 1000 mod 60 \<and> a mod 1000 < b mod 1000))"
proof -
  have eq: "1000 * (60 * (60 * (x div 3600000) + x div 60000 mod 60) + x div 1000 mod 60) + x mod 1000 = x"
    if "0 \<le> x" "x < 86400000" for x :: int
    using day_ms_fields(9) [OF that] by (simp add: algebra_simps)
  show ?thesis
    using clock_lex [of "a div 60000 mod 60" "a div 1000 mod 60" "a mod 1000"
        "b div 60000 mod 60" "b div 1000 mod 60" "b mod 1000" "a div 3600000" "b div 3600000"]
    by (simp only: eq [OF assms(1,2)] eq [OF assms(3,4)])
qed

text \<open>The instants whose year has four digits: the timestamps a clock produces.\<close>

definition plain_time :: "int \<Rightarrow> bool" where
  "plain_time t \<longleftrightarrow> valid_time t \<and> (case civil_from_days (t div 86400000) of (y, m, d) \<Rightarrow> 0 \<le> y \<and> y \<le> 9999)"

lemma date_tail_less:
  assumes "0 \<le> m" "m < 100" "0 \<le> d" "d < 100" "0 \<le> ms" "ms < 86400000"
    and "0 \<le> m'" "m' < 100" "0 \<le> d'" "d' < 100" "0 \<le> ms'" "ms' < 86400000"
  shows "date_tail m d ms < date_tail m' d' ms' \<longleftrightarrow> m < m' \<or> m = m' \<and> (d < d' \<or> d = d' \<and> ms < ms')"
proof -
  note f = day_ms_fields [OF assms(5,6)] and f' = day_ms_fields [OF assms(11,12)]
  have p2: "pad_digits 2 x < pad_digits 2 y \<longleftrightarrow> x < y" "pad_digits 2 x = pad_digits 2 y \<longleftrightarrow> x = y"
    if "0 \<le> x" "x \<le> 99" "0 \<le> y" "y \<le> 99" for x y
    using that pad_digits_less [of x 2 y] pad_digits_eq [of x 2 y] by auto
  have p3: "pad_digits 3 x < pad_digits 3 y \<longleftrightarrow> x < y" "pad_digits 3 x = pad_digits 3 y \<longleftrightarrow> x = y"
    if "0 \<le> x" "x \<le> 999" "0 \<le> y" "y \<le> 999" for x y
    using that pad_digits_less [of x 3 y] pad_digits_eq [of x 3 y] by auto
  have ms: "ms < ms' \<longleftrightarrow> ms div 3600000 < ms' div 3600000 \<or> ms div 3600000 = ms' div 3600000 \<and>
    (ms div 60000 mod 60 < ms' div 60000 mod 60 \<or> ms div 60000 mod 60 = ms' div 60000 mod 60 \<and>
    (ms div 1000 mod 60 < ms' div 1000 mod 60 \<or> ms div 1000 mod 60 = ms' div 1000 mod 60 \<and> ms mod 1000 < ms' mod 1000))"
    by (rule day_ms_lex [OF assms(5,6,11,12)])
  define h mi s l where "h = ms div 3600000" and "mi = ms div 60000 mod 60"
    and "s = ms div 1000 mod 60" and "l = ms mod 1000"
  note F = this
  define h' mi' s' l' where "h' = ms' div 3600000" and "mi' = ms' div 60000 mod 60"
    and "s' = ms' div 1000 mod 60" and "l' = ms' mod 1000"
  note F' = this
  show ?thesis
    unfolding date_tail_def ms F [symmetric] F' [symmetric]
    using f [folded F] f' [folded F'] assms(1-4,7-10)
    by (simp add: less_append_same_length p2 p3)
qed

lemma iso_string_less:
  assumes "plain_time t" and "plain_time t'"
  shows "iso_string t < iso_string t' \<longleftrightarrow> t < t'"
proof -
  obtain y m d where c: "civil_from_days (t div 86400000) = (y, m, d)" by (cases "civil_from_days (t div 86400000)")
  obtain y' m' d' where c': "civil_from_days (t' div 86400000) = (y', m', d')" by (cases "civil_from_days (t' div 86400000)")
  have y: "0 \<le> y" "y \<le> 9999" "0 \<le> y'" "y' \<le> 9999" using assms c c' by (auto simp: plain_time_def)
  note f = civil_fields [OF c] civil_fields [OF c']
  define r r' where "r = t mod 86400000" and "r' = t' mod 86400000"
  have r: "0 \<le> r" "r < 86400000" "0 \<le> r'" "r' < 86400000" by (auto simp: r_def r'_def)
  have "iso_string t < iso_string t' \<longleftrightarrow> y < y' \<or> y = y' \<and> date_tail m d r < date_tail m' d' r'"
    using y pad_digits_less [of y 4 y'] pad_digits_eq [of y 4 y']
    by (simp add: iso_string_def c c' year_string_def less_append_same_length r_def r'_def)
  also have "\<dots> \<longleftrightarrow> y < y' \<or> y = y' \<and> (m < m' \<or> m = m' \<and> (d < d' \<or> d = d' \<and> r < r'))"
    using f r by (subst date_tail_less) auto
  also have "\<dots> \<longleftrightarrow> t div 86400000 < t' div 86400000 \<or> t div 86400000 = t' div 86400000 \<and> r < r'"
    using calendar_index_lex [OF c c'] days_civil_inverse [OF c] days_civil_inverse [OF c'] c c' by auto
  also have "\<dots> \<longleftrightarrow> t < t'"
    using div_mod_less [of 86400000 t t'] by (simp add: r_def r'_def)
  finally show ?thesis .
qed

lemma iso_string_inj: "valid_time t \<Longrightarrow> valid_time t' \<Longrightarrow> iso_string t = iso_string t' \<longleftrightarrow> t = t'"
  using date_parse_iso by (metis option.inject)

lemma iso_string_le:
  assumes "plain_time t" and "plain_time t'"
  shows "iso_string t \<le> iso_string t' \<longleftrightarrow> t \<le> t'"
  using iso_string_less [OF assms(2,1)] by (metis linorder_not_less)

text \<open>
  Parsing and printing of timestamps are inverse: a text passes \<open>isCanonicalTimestamp\<close> exactly when
  it is what \<open>toISOString\<close> prints for some instant within the range of \<open>Date\<close>, it then parses to that
  instant and no other, and printing the parsed instant gives the text back.
\<close>

theorem canonical_timestamp_roundtrip:
  "(isCanonicalTimestamp s \<longleftrightarrow> (\<exists>t. toISOString t = Inr s)) \<and>
   (\<forall>t. toISOString t = Inr s \<longleftrightarrow> isCanonicalTimestamp s \<and> date_parse s = Some t)"
proof -
  have "toISOString t = Inr s \<longleftrightarrow> isCanonicalTimestamp s \<and> date_parse s = Some t" for t
    unfolding toISOString_Inr by (metis canonical_iso canonicalE date_parse_iso option.inject)
  moreover have "\<exists>t. date_parse s = Some t" if "isCanonicalTimestamp s" using that canonicalE by metis
  ultimately show ?thesis by blast
qed

text \<open>
  The services compare timestamps as strings. For canonical timestamps whose year has four digits
  this is sound: the string order of two of them is the order of the instants they denote, and equal
  instants have equal strings.
\<close>

theorem timestamp_string_order:
  assumes "isCanonicalTimestamp a" and "date_parse a = Some t" and "plain_time t"
    and "isCanonicalTimestamp b" and "date_parse b = Some u" and "plain_time u"
  shows "(a < b \<longleftrightarrow> t < u) \<and> (a \<le> b \<longleftrightarrow> t \<le> u) \<and> (a = b \<longleftrightarrow> t = u)"
proof -
  have "a = iso_string t" "b = iso_string u" "valid_time t" "valid_time u"
    using assms by (auto elim: canonicalE)
  then show ?thesis
    using iso_string_less [OF assms(3,6)] iso_string_le [OF assms(3,6)] iso_string_inj by simp
qed

theorem timestamp_string_order_witness:
  "''2024-02-29T23:59:59.999Z'' < ''2024-03-01T00:00:00.000Z''"
proof -
  have "isCanonicalTimestamp ''2024-02-29T23:59:59.999Z''" "date_parse ''2024-02-29T23:59:59.999Z'' = Some 1709251199999"
    "plain_time 1709251199999" "isCanonicalTimestamp ''2024-03-01T00:00:00.000Z''"
    "date_parse ''2024-03-01T00:00:00.000Z'' = Some 1709251200000" "plain_time 1709251200000"
    by code_simp+
  from timestamp_string_order [OF this] show ?thesis by simp
qed

end
