(* ===== verification/Fingerprint.thy ===== *)
theory Fingerprint
  imports Prelude "HOL-Library.Word"
begin

text \<open>
  \<open>JSON.stringify\<close> on the values the services serialise, the UTF-8 bytes of the result, and the 32-bit
  FNV-1a hash \<open>fnv1a\<close> of \<open>packages/application/src/services/permission-service.ts\<close>, which names the
  exact intent an approval or a one-time grant is bound to. Characters are code units below 256 here,
  so every character encodes as one or two bytes. Keys of an object are listed in insertion order.

  The theorem on \<open>fnv1a\<close> is the guarantee a multiplicative hash of this width can give: changing any
  single byte of the serialised text always changes the fingerprint.
\<close>

unbundle bit_operations_syntax

section \<open>JSON text\<close>

datatype json =
    JNull
  | JBool bool
  | JNum int
  | JString string
  | JArray "json list"
  | JObject "(string \<times> json) list"

definition hex_digit :: "nat \<Rightarrow> char" where
  "hex_digit n = ''0123456789abcdef'' ! n"

definition escape_char :: "char \<Rightarrow> string" where
  "escape_char c =
     (if c = CHR 0x22 then [CHR 0x5C, CHR 0x22]
      else if c = CHR 0x5C then [CHR 0x5C, CHR 0x5C]
      else if c = CHR 0x08 then [CHR 0x5C, CHR ''b'']
      else if c = CHR 0x09 then [CHR 0x5C, CHR ''t'']
      else if c = CHR 0x0A then [CHR 0x5C, CHR ''n'']
      else if c = CHR 0x0C then [CHR 0x5C, CHR ''f'']
      else if c = CHR 0x0D then [CHR 0x5C, CHR ''r'']
      else if (of_char c :: nat) < 32
        then [CHR 0x5C, CHR ''u'', CHR ''0'', CHR ''0'', hex_digit (of_char c div 16), hex_digit (of_char c mod 16)]
      else [c])"

definition quote :: "string \<Rightarrow> string" where
  "quote s = CHR 0x22 # concat (map escape_char s) @ [CHR 0x22]"

fun join :: "string \<Rightarrow> string list \<Rightarrow> string" where
  "join sep [] = []"
| "join sep [x] = x"
| "join sep (x # y # xs) = x @ sep @ join sep (y # xs)"

fun stringify :: "json \<Rightarrow> string" where
  "stringify JNull = ''null''"
| "stringify (JBool b) = (if b then ''true'' else ''false'')"
| "stringify (JNum n) = show_int n"
| "stringify (JString s) = quote s"
| "stringify (JArray xs) = ''['' @ join '','' (map stringify xs) @ '']''"
| "stringify (JObject fs) = ''{'' @ join '','' (map (\<lambda>f. quote (fst f) @ '':'' @ stringify (snd f)) fs) @ ''}''"

definition utf8_char :: "char \<Rightarrow> nat list" where
  "utf8_char c = (let n = of_char c in if n < 128 then [n] else [192 + n div 64, 128 + n mod 64])"

definition utf8 :: "string \<Rightarrow> nat list" where
  "utf8 s = concat (map utf8_char s)"

section \<open>FNV-1a\<close>

definition fnv1a_step :: "32 word \<Rightarrow> nat \<Rightarrow> 32 word" where
  "fnv1a_step hash byte = (hash XOR of_nat byte) * 16777619"

definition fnv1a_hash :: "nat list \<Rightarrow> 32 word" where
  "fnv1a_hash bytes = foldl fnv1a_step 2166136261 bytes"

fun hex_digits :: "nat \<Rightarrow> nat \<Rightarrow> string" where
  "hex_digits 0 n = []"
| "hex_digits (Suc k) n = hex_digits k (n div 16) @ [hex_digit (n mod 16)]"

definition fnv1a :: "string \<Rightarrow> string" where
  "fnv1a value = ''intent-'' @ hex_digits 8 (unat (fnv1a_hash (utf8 value)))"

lemma fnv1a_prime_inverse: "(16777619 :: 32 word) * 899433627 = 1"
  by simp

lemma fnv1a_prime_cancel: "x * 16777619 = y * (16777619 :: 32 word) \<longleftrightarrow> x = y"
proof
  assume "x * 16777619 = y * (16777619 :: 32 word)"
  then have "x * 16777619 * 899433627 = y * 16777619 * 899433627" by (rule arg_cong)
  then show "x = y" by (simp only: mult.assoc fnv1a_prime_inverse mult_1_right)
qed simp

lemma word_xor_cancel: "(c XOR a = c XOR b) = (a = (b :: 'a::len word))"
proof
  assume "c XOR a = c XOR b"
  then have "c XOR (c XOR a) = c XOR (c XOR b)" by (rule arg_cong)
  then show "a = b" by (simp only: xor.assoc [symmetric] xor_self_eq xor.left_neutral)
qed simp

lemma fnv1a_step_inj: "fnv1a_step h b = fnv1a_step h' b \<longleftrightarrow> h = h'"
  unfolding fnv1a_step_def fnv1a_prime_cancel xor.commute [of _ "of_nat b"] word_xor_cancel ..

lemma fnv1a_step_byte:
  assumes "b < 256" "b' < 256"
  shows "fnv1a_step h b = fnv1a_step h b' \<longleftrightarrow> b = b'"
proof
  assume "fnv1a_step h b = fnv1a_step h b'"
  then have "(of_nat b :: 32 word) = of_nat b'"
    unfolding fnv1a_step_def fnv1a_prime_cancel word_xor_cancel .
  then have "unat (of_nat b :: 32 word) = unat (of_nat b' :: 32 word)" by simp
  then show "b = b'" using assms by (simp add: unat_of_nat)
qed simp

lemma foldl_fnv1a_inj: "foldl fnv1a_step h bs = foldl fnv1a_step h' bs \<longleftrightarrow> h = h'"
  by (induction bs arbitrary: h h') (simp_all add: fnv1a_step_inj)

lemma fnv1a_hash_single_byte:
  assumes "b < 256" "b' < 256"
  shows "fnv1a_hash (xs @ b # ys) = fnv1a_hash (xs @ b' # ys) \<longleftrightarrow> b = b'"
  by (simp add: fnv1a_hash_def foldl_fnv1a_inj fnv1a_step_byte [OF assms])

lemma hex_digit_inj: "i < 16 \<Longrightarrow> j < 16 \<Longrightarrow> hex_digit i = hex_digit j \<longleftrightarrow> i = j"
proof -
  have "distinct ''0123456789abcdef''" by simp
  then show "i < 16 \<Longrightarrow> j < 16 \<Longrightarrow> hex_digit i = hex_digit j \<longleftrightarrow> i = j"
    unfolding hex_digit_def by (intro nth_eq_iff_index_eq) simp_all
qed

lemma hex_digits_numeral:
  "hex_digits (numeral k) n = hex_digits (pred_numeral k) (n div 16) @ [hex_digit (n mod 16)]"
  by (simp only: numeral_eq_Suc [of k] hex_digits.simps)

lemma length_hex_digits [simp]: "length (hex_digits k n) = k"
  by (induction k arbitrary: n) simp_all

lemma hex_digits_inj:
  assumes "n < 16 ^ k" "m < 16 ^ k" "hex_digits k n = hex_digits k m"
  shows "n = m"
  using assms
proof (induction k arbitrary: n m)
  case (Suc k)
  have "n div 16 < 16 ^ k" "m div 16 < 16 ^ k" using Suc.prems by auto
  moreover have "hex_digits k (n div 16) = hex_digits k (m div 16)" "n mod 16 = m mod 16"
    using Suc.prems(3) by (auto simp: hex_digit_inj)
  ultimately have "n div 16 = m div 16" using Suc.IH by blast
  with \<open>n mod 16 = m mod 16\<close> show ?case by (metis div_mult_mod_eq)
qed simp

lemma fnv1a_eq_iff: "fnv1a s = fnv1a s' \<longleftrightarrow> fnv1a_hash (utf8 s) = fnv1a_hash (utf8 s')"
proof -
  have "unat h < 16 ^ 8" for h :: "32 word" using unsigned_less [of h] by simp
  then show ?thesis unfolding fnv1a_def using hex_digits_inj by (metis append.right_neutral same_append_eq unsigned_word_eqI)
qed

text \<open>
  Replacing one character of a serialised intent by another one of the same encoded width whose
  bytes differ in one place always changes its fingerprint; in particular this holds for every
  one-character edit of an ASCII text. The fingerprint has the fixed form \<open>intent-\<close> and eight
  hexadecimal digits.
\<close>

theorem fnv1a_single_edit:
  assumes "of_char c < (128 :: nat)" and "of_char c' < (128 :: nat)"
  shows "(fnv1a (u @ c # v) = fnv1a (u @ c' # v) \<longleftrightarrow> c = c') \<and> length (fnv1a (u @ c # v)) = 15"
proof -
  have "fnv1a (u @ c # v) = fnv1a (u @ c' # v) \<longleftrightarrow> (of_char c :: nat) = of_char c'"
    using assms fnv1a_hash_single_byte [of "of_char c" "of_char c'" "utf8 u" "utf8 v"]
    by (simp add: fnv1a_eq_iff utf8_def utf8_char_def Let_def)
  then show ?thesis by (simp add: fnv1a_def)
qed

theorem fnv1a_single_edit_witness:
  "fnv1a ''cost:9'' \<noteq> fnv1a ''cost:8'' \<and> fnv1a ''a'' = ''intent-e40c292c''"
proof -
  have "fnv1a ''cost:9'' \<noteq> fnv1a ''cost:8''"
    using fnv1a_single_edit [of "CHR ''9''" "CHR ''8''" "''cost:''" "[]"] by simp
  moreover have "fnv1a ''a'' = ''intent-e40c292c''" 
    by (simp add: fnv1a_def utf8_def utf8_char_def fnv1a_hash_def fnv1a_step_def hex_digits_numeral hex_digit_def)
  ultimately show ?thesis by simp
qed

end
