(* ===== verification/Store.thy ===== *)
theory Store
  imports Prelude "HOL-Library.Product_Lexorder"
begin

text \<open>
  Tables of the SQLite store and the contract of a versioned table.

  A table is the list of its decoded rows (\<open>record_json\<close>) in insertion order; \<open>row_of\<close> is a lookup by
  primary key, \<open>put_row\<close> an \<open>INSERT ... ON CONFLICT(id) DO UPDATE\<close> and \<open>ORDER BY\<close> a stable sort. A
  failed statement rolls its transaction back, so an operation that fails leaves the store unchanged:
  operations return the new store only with a result.

  The locale \<open>versioned_table\<close> is the contract of optimistic concurrency: every store operation either
  leaves a row alone or replaces it by one with a higher revision. Its consequence, proved once, is that
  a client which read a row and whose write is accepted under that row's revision wrote over exactly the
  row it had read, whatever other clients did in between.
\<close>

section \<open>Rows\<close>

definition row_of :: "('r \<Rightarrow> 'k) \<Rightarrow> 'k \<Rightarrow> 'r list \<Rightarrow> 'r option" where
  "row_of key k rows = List.find (\<lambda>r. key r = k) rows"

definition has_row :: "('r \<Rightarrow> 'k) \<Rightarrow> 'k \<Rightarrow> 'r list \<Rightarrow> bool" where
  "has_row key k rows = list_ex (\<lambda>r. key r = k) rows"

definition put_row :: "('r \<Rightarrow> 'k) \<Rightarrow> 'r \<Rightarrow> 'r list \<Rightarrow> 'r list" where
  "put_row key r rows =
     (if has_row key (key r) rows then map (\<lambda>x. if key x = key r then r else x) rows else rows @ [r])"

lemma row_of_Nil [simp]: "row_of key k [] = None"
  by (simp add: row_of_def)

lemma row_of_Cons [simp]: "row_of key k (x # xs) = (if key x = k then Some x else row_of key k xs)"
  by (simp add: row_of_def)

lemma row_of_append: "row_of key k (xs @ ys) = (case row_of key k xs of None \<Rightarrow> row_of key k ys | Some r \<Rightarrow> Some r)"
  by (induction xs) auto

lemma row_of_SomeD: "row_of key k rows = Some r \<Longrightarrow> key r = k \<and> r \<in> set rows"
  unfolding row_of_def by (rule find_SomeD)

lemma has_row_iff: "has_row key k rows \<longleftrightarrow> row_of key k rows \<noteq> None"
  by (induction rows) (auto simp: has_row_def)

lemma row_of_map_replace:
  "row_of key k (map (\<lambda>x. if key x = key r then r else x) rows) =
     (if k = key r then (if has_row key k rows then Some r else None) else row_of key k rows)"
  by (induction rows) (auto simp: has_row_def)

lemma row_of_put_row: "row_of key k (put_row key r rows) = (if k = key r then Some r else row_of key k rows)"
  by (auto simp: put_row_def row_of_map_replace row_of_append has_row_iff split: option.splits)

lemma set_put_row: "set (put_row key r rows) \<subseteq> insert r (set rows)"
  by (auto simp: put_row_def)

lemma keys_put_row: "distinct (map key rows) \<Longrightarrow> distinct (map key (put_row key r rows))"
proof -
  assume d: "distinct (map key rows)"
  have "map key (map (\<lambda>x. if key x = key r then r else x) rows) = map key rows" by (induction rows) auto
  with d show ?thesis
    by (auto simp: put_row_def has_row_def list_ex_iff simp del: map_map)
qed

lemma row_of_eq_iff: "distinct (map key rows) \<Longrightarrow> row_of key k rows = Some r \<longleftrightarrow> r \<in> set rows \<and> key r = k"
proof (induction rows)
  case (Cons x xs)
  then show ?case by (auto simp: rev_image_eqI)
qed simp

lemma put_row_same:
  assumes "distinct (map key rows)" and "row_of key (key r) rows = Some r"
  shows "put_row key r rows = rows"
proof -
  from row_of_SomeD [OF assms(2)] have "r \<in> set rows" by simp
  with assms(1) have "x = r" if "x \<in> set rows" "key x = key r" for x using that by (auto simp: distinct_map inj_on_def)
  then have "map (\<lambda>x. if key x = key r then r else x) rows = rows" by (intro map_idI) auto
  with assms(2) show ?thesis by (simp add: put_row_def has_row_iff)
qed

section \<open>Versioned tables\<close>

locale versioned_table =
  fixes get :: "'s \<Rightarrow> 'k \<Rightarrow> 'r option"
    and revision :: "'r \<Rightarrow> int"
    and step :: "'s \<Rightarrow> 's \<Rightarrow> bool"
  assumes step_advances: "step s s' \<Longrightarrow> get s k = Some r \<Longrightarrow>
    \<exists>r'. get s' k = Some r' \<and> (r' = r \<or> revision r < revision r')"
begin

lemma history_advances:
  "step\<^sup>*\<^sup>* s s' \<Longrightarrow> get s k = Some r \<Longrightarrow> \<exists>r'. get s' k = Some r' \<and> (r' = r \<or> revision r < revision r')"
proof (induction rule: rtranclp_induct)
  case (step t u)
  then obtain r1 where r1: "get t k = Some r1" "r1 = r \<or> revision r < revision r1" by blast
  from step_advances [OF step.hyps(2) r1(1)]
  obtain r2 where "get u k = Some r2" "r2 = r1 \<or> revision r1 < revision r2" by blast
  with r1(2) show ?case by auto
qed blast

lemma same_revision_same_row:
  assumes "step\<^sup>*\<^sup>* s s'" "get s k = Some r" "get s' k = Some r'" "revision r' = revision r"
  shows "r' = r"
  using history_advances [OF assms(1,2)] assms(3,4) by auto

lemma stale_revision_gone:
  assumes "step\<^sup>*\<^sup>* s s'" "get s k = Some r" "n < revision r" "get s' k = Some r'"
  shows "revision r' \<noteq> n"
  using history_advances [OF assms(1,2)] assms(3,4) by auto

end

end
