(* ===== verification/Authorization.thy ===== *)
theory Authorization
  imports Deployment Fingerprint Store
begin

text \<open>
  The data of \<open>packages/application/src/ports/authorization.ts\<close> and the pure functions of
  \<open>packages/application/src/services/permission-service.ts\<close>: the fingerprint of an intent, the scopes a
  grant may have, and the test whether a grant covers an intent.

  The governed (version 2) contracts extend the foundation ones by further fields. A value of either
  version is one record here whose governed part is optional: it is present exactly when the source's
  value carries the contract version \<open>authorization.v2\<close>.
\<close>

section \<open>Intents\<close>

datatype action_side_effect = effect_none | effect_reversible | effect_irreversible

datatype action_kind =
    READ
  | CREATE_OR_UPDATE
  | DELETE
  | COMMUNICATE
  | PURCHASE_OR_FUNDS
  | CREDENTIAL_OR_ACCESS
  | PRODUCTION_OR_RECOVERY
  | PUBLICATION
  | LEGAL_COMMITMENT
  | PHYSICAL_SAFETY
  | INSTALL_OR_EXECUTE_CODE

datatype action_risk_level = LOW | MEDIUM | HIGH | CRITICAL

datatype disclosure_mode = disc_none | disc_same_owner | disc_named_recipients | disc_public

record action_target =
  at_type :: string
  at_ref :: string

datatype fact_source = src_product | src_manifest | src_runtime

record deterministic_policy_fact =
  pf_code :: string
  pf_minimumRisk :: action_risk_level
  pf_source :: fact_source

record action_frequency =
  fq_count :: int
  fq_intervalMs :: "int option"

record model_classification =
  mc_actionKind :: action_kind
  mc_suggestedRisk :: action_risk_level
  mc_reasonCode :: string

record governed_intent_part =
  gi_threadId :: string
  gi_actionKind :: action_kind
  gi_capabilityVersion :: string
  gi_targets :: "action_target list"
  gi_resourceRefs :: "string list"
  gi_disclosure :: disclosure_mode
  gi_recipients :: "string list"
  gi_credentialOrAccessChange :: bool
  gi_expiresAt :: string
  gi_modelClassification :: model_classification
  gi_deterministicFacts :: "deterministic_policy_fact list"
  gi_finalRisk :: action_risk_level

record action_intent =
  ai_id :: string
  ai_ownerId :: OwnerId
  ai_agentId :: AgentId
  ai_runId :: RunId
  ai_capabilityRef :: string
  ai_operation :: string
  ai_resourceRef :: string
  ai_dataClassification :: product_data_classification
  ai_sideEffect :: action_side_effect
  ai_estimatedCostMicros :: int
  ai_frequency :: action_frequency
  ai_idempotencyKey :: IdempotencyKey
  ai_reversible :: bool
  ai_requestedAt :: string
  ai_governed :: "governed_intent_part option"

section \<open>Policies, grants and approvals\<close>

datatype rule_effect = rule_ALLOW | rule_DENY

record permission_policy_rule =
  pr_id :: string
  pr_effect :: rule_effect
  pr_capabilityRefs :: "string list"
  pr_operations :: "string list"
  pr_resourcePrefixes :: "string list"
  pr_dataClassifications :: "product_data_classification list"
  pr_sideEffects :: "action_side_effect list"
  pr_maxCostMicros :: int
  pr_reasonCode :: string

record permission_policy =
  pp_version :: string
  pp_rules :: "permission_policy_rule list"

record governed_scope_part =
  gs_capabilityVersion :: string
  gs_resourceIdentities :: "string list"
  gs_disclosure :: disclosure_mode
  gs_recipients :: "string list"
  gs_credentialOrAccessChange :: bool

record grant_scope =
  sc_capabilityRef :: string
  sc_operations :: "string list"
  sc_exactResourceRef :: "string option"
  sc_resourcePrefixes :: "string list"
  sc_maxDataClassification :: product_data_classification
  sc_sideEffects :: "action_side_effect list"
  sc_maxCostMicrosPerUse :: int
  sc_maxFrequency :: action_frequency
  sc_governed :: "governed_scope_part option"

record long_term_grant_scope =
  lt_capabilityRef :: string
  lt_operations :: "string list"
  lt_resourcePrefixes :: "string list"
  lt_maxDataClassification :: product_data_classification
  lt_sideEffects :: "action_side_effect list"
  lt_maxCostMicrosPerUse :: int
  lt_maxFrequency :: action_frequency
  lt_maxTotalCostMicros :: int
  lt_maxUses :: int
  lt_expiresAt :: string

datatype grant_kind = one_time | long_term

record grant_record =
  gr_id :: string
  gr_revision :: int
  gr_ownerId :: OwnerId
  gr_agentId :: AgentId
  gr_kind :: grant_kind
  gr_scope :: grant_scope
  gr_intentFingerprint :: "string option"
  gr_sourceApprovalRequestId :: string
  gr_validFrom :: string
  gr_expiresAt :: string
  gr_maxUses :: int
  gr_uses :: int
  gr_maxTotalCostMicros :: int
  gr_spentCostMicros :: int
  gr_revokedAt :: "string option"
  gr_revocationReasonCode :: "string option"

datatype approval_status = ap_pending | ap_approved | ap_denied | ap_expired

datatype delivery_state = deliverable | queued_no_ui

record policy_authorization =
  pa_key :: string
  pa_revision :: int

record governed_approval_part =
  ga_finalRisk :: action_risk_level
  ga_recentAuthenticationRequired :: bool

record approval_request =
  ar_policyAuthorization :: "policy_authorization option"
  ar_id :: string
  ar_revision :: int
  ar_ownerId :: OwnerId
  ar_agentId :: AgentId
  ar_runId :: RunId
  ar_intentId :: string
  ar_intentSnapshot :: action_intent
  ar_semanticSnapshotHash :: string
  ar_status :: approval_status
  ar_deliveryState :: delivery_state
  ar_requestedAt :: string
  ar_expiresAt :: string
  ar_decidedAt :: "string option"
  ar_grantId :: "string option"
  ar_governed :: "governed_approval_part option"
  ar_recentAuthenticationRef :: "string option"

section \<open>Fingerprint of an intent\<close>

fun classification_string :: "product_data_classification \<Rightarrow> string" where
  "classification_string class_public = ''public''"
| "classification_string class_private = ''private''"
| "classification_string class_sensitive = ''sensitive''"
| "classification_string class_restricted = ''restricted''"

fun side_effect_string :: "action_side_effect \<Rightarrow> string" where
  "side_effect_string effect_none = ''none''"
| "side_effect_string effect_reversible = ''reversible''"
| "side_effect_string effect_irreversible = ''irreversible''"

fun action_kind_string :: "action_kind \<Rightarrow> string" where
  "action_kind_string READ = ''READ''"
| "action_kind_string CREATE_OR_UPDATE = ''CREATE_OR_UPDATE''"
| "action_kind_string DELETE = ''DELETE''"
| "action_kind_string COMMUNICATE = ''COMMUNICATE''"
| "action_kind_string PURCHASE_OR_FUNDS = ''PURCHASE_OR_FUNDS''"
| "action_kind_string CREDENTIAL_OR_ACCESS = ''CREDENTIAL_OR_ACCESS''"
| "action_kind_string PRODUCTION_OR_RECOVERY = ''PRODUCTION_OR_RECOVERY''"
| "action_kind_string PUBLICATION = ''PUBLICATION''"
| "action_kind_string LEGAL_COMMITMENT = ''LEGAL_COMMITMENT''"
| "action_kind_string PHYSICAL_SAFETY = ''PHYSICAL_SAFETY''"
| "action_kind_string INSTALL_OR_EXECUTE_CODE = ''INSTALL_OR_EXECUTE_CODE''"

fun risk_string :: "action_risk_level \<Rightarrow> string" where
  "risk_string LOW = ''LOW''"
| "risk_string MEDIUM = ''MEDIUM''"
| "risk_string HIGH = ''HIGH''"
| "risk_string CRITICAL = ''CRITICAL''"

fun disclosure_string :: "disclosure_mode \<Rightarrow> string" where
  "disclosure_string disc_none = ''none''"
| "disclosure_string disc_same_owner = ''same_owner''"
| "disclosure_string disc_named_recipients = ''named_recipients''"
| "disclosure_string disc_public = ''public''"

fun fact_source_string :: "fact_source \<Rightarrow> string" where
  "fact_source_string src_product = ''product''"
| "fact_source_string src_manifest = ''manifest''"
| "fact_source_string src_runtime = ''runtime''"

definition frequency_json :: "action_frequency \<Rightarrow> json" where
  "frequency_json f = JObject [(''count'', JNum (fq_count f)),
     (''intervalMs'', case fq_intervalMs f of None \<Rightarrow> JNull | Some n \<Rightarrow> JNum n)]"

definition governed_fields :: "governed_intent_part \<Rightarrow> (string \<times> json) list" where
  "governed_fields g =
     [(''contractVersion'', JString ''authorization.v2''),
      (''threadId'', JString (gi_threadId g)),
      (''actionKind'', JString (action_kind_string (gi_actionKind g))),
      (''capabilityVersion'', JString (gi_capabilityVersion g)),
      (''targets'', JArray (map (\<lambda>t. JObject [(''type'', JString (at_type t)), (''ref'', JString (at_ref t))]) (gi_targets g))),
      (''resourceRefs'', JArray (map JString (gi_resourceRefs g))),
      (''disclosure'', JString (disclosure_string (gi_disclosure g))),
      (''recipients'', JArray (map JString (gi_recipients g))),
      (''credentialOrAccessChange'', JBool (gi_credentialOrAccessChange g)),
      (''expiresAt'', JString (gi_expiresAt g)),
      (''modelClassification'', JObject
         [(''actionKind'', JString (action_kind_string (mc_actionKind (gi_modelClassification g)))),
          (''suggestedRisk'', JString (risk_string (mc_suggestedRisk (gi_modelClassification g)))),
          (''reasonCode'', JString (mc_reasonCode (gi_modelClassification g)))]),
      (''deterministicFacts'', JArray (map (\<lambda>f. JObject
         [(''code'', JString (pf_code f)), (''minimumRisk'', JString (risk_string (pf_minimumRisk f))),
          (''source'', JString (fact_source_string (pf_source f)))]) (gi_deterministicFacts g))),
      (''finalRisk'', JString (risk_string (gi_finalRisk g)))]"

definition intent_json :: "action_intent \<Rightarrow> json" where
  "intent_json i = JObject (
     [(''id'', JString (ai_id i)),
      (''ownerId'', JString (ai_ownerId i)),
      (''agentId'', JString (ai_agentId i)),
      (''runId'', JString (ai_runId i)),
      (''capabilityRef'', JString (ai_capabilityRef i)),
      (''operation'', JString (ai_operation i)),
      (''resourceRef'', JString (ai_resourceRef i)),
      (''dataClassification'', JString (classification_string (ai_dataClassification i))),
      (''sideEffect'', JString (side_effect_string (ai_sideEffect i))),
      (''estimatedCostMicros'', JNum (ai_estimatedCostMicros i)),
      (''frequency'', frequency_json (ai_frequency i)),
      (''idempotencyKey'', JString (ai_idempotencyKey i)),
      (''reversible'', JBool (ai_reversible i)),
      (''requestedAt'', JString (ai_requestedAt i))] @
     (case ai_governed i of None \<Rightarrow> [] | Some g \<Rightarrow> governed_fields g))"

definition actionIntentFingerprint :: "action_intent \<Rightarrow> string" where
  "actionIntentFingerprint i = fnv1a (stringify (intent_json i))"

section \<open>Scopes and coverage\<close>

fun CLASSIFICATION_RANK :: "product_data_classification \<Rightarrow> int" where
  "CLASSIFICATION_RANK class_public = 0"
| "CLASSIFICATION_RANK class_private = 1"
| "CLASSIFICATION_RANK class_sensitive = 2"
| "CLASSIFICATION_RANK class_restricted = 3"

definition matchesRule :: "permission_policy_rule \<Rightarrow> action_intent \<Rightarrow> bool" where
  "matchesRule rule i \<longleftrightarrow>
     ai_capabilityRef i \<in> set (pr_capabilityRefs rule) \<and>
     ai_operation i \<in> set (pr_operations rule) \<and>
     list_ex (\<lambda>prefix. starts_with (ai_resourceRef i) prefix) (pr_resourcePrefixes rule) \<and>
     ai_dataClassification i \<in> set (pr_dataClassifications rule) \<and>
     ai_sideEffect i \<in> set (pr_sideEffects rule) \<and>
     ai_estimatedCostMicros i \<le> pr_maxCostMicros rule"

definition exactScope :: "action_intent \<Rightarrow> grant_scope" where
  "exactScope i = \<lparr>sc_capabilityRef = ai_capabilityRef i, sc_operations = [ai_operation i],
     sc_exactResourceRef = Some (ai_resourceRef i), sc_resourcePrefixes = [],
     sc_maxDataClassification = ai_dataClassification i, sc_sideEffects = [ai_sideEffect i],
     sc_maxCostMicrosPerUse = ai_estimatedCostMicros i, sc_maxFrequency = ai_frequency i,
     sc_governed = None\<rparr>"

definition longTermScope :: "long_term_grant_scope \<Rightarrow> grant_scope" where
  "longTermScope s = \<lparr>sc_capabilityRef = lt_capabilityRef s, sc_operations = lt_operations s,
     sc_exactResourceRef = None, sc_resourcePrefixes = lt_resourcePrefixes s,
     sc_maxDataClassification = lt_maxDataClassification s, sc_sideEffects = lt_sideEffects s,
     sc_maxCostMicrosPerUse = lt_maxCostMicrosPerUse s, sc_maxFrequency = lt_maxFrequency s,
     sc_governed = None\<rparr>"

definition frequencyWithinScope :: "action_intent \<Rightarrow> grant_scope \<Rightarrow> bool" where
  "frequencyWithinScope i s =
     (if fq_count (ai_frequency i) > fq_count (sc_maxFrequency s) then False
      else case fq_intervalMs (ai_frequency i) of
        None \<Rightarrow> True
      | Some n \<Rightarrow> (case fq_intervalMs (sc_maxFrequency s) of None \<Rightarrow> False | Some k \<Rightarrow> n \<ge> k))"

definition resource_in_scope :: "grant_scope \<Rightarrow> string \<Rightarrow> bool" where
  "resource_in_scope s ref \<longleftrightarrow>
     sc_exactResourceRef s = Some ref \<or> list_ex (\<lambda>prefix. starts_with ref prefix) (sc_resourcePrefixes s)"

definition grantCoversIntent :: "grant_record \<Rightarrow> action_intent \<Rightarrow> string \<Rightarrow> bool" where
  "grantCoversIntent g i now \<longleftrightarrow>
     gr_ownerId g = ai_ownerId i \<and>
     gr_agentId g = ai_agentId i \<and>
     gr_revokedAt g = None \<and>
     now \<ge> gr_validFrom g \<and>
     now < gr_expiresAt g \<and>
     gr_uses g < gr_maxUses g \<and>
     gr_spentCostMicros g + ai_estimatedCostMicros i \<le> gr_maxTotalCostMicros g \<and>
     sc_capabilityRef (gr_scope g) = ai_capabilityRef i \<and>
     ai_operation i \<in> set (sc_operations (gr_scope g)) \<and>
     resource_in_scope (gr_scope g) (ai_resourceRef i) \<and>
     CLASSIFICATION_RANK (ai_dataClassification i) \<le> CLASSIFICATION_RANK (sc_maxDataClassification (gr_scope g)) \<and>
     ai_sideEffect i \<in> set (sc_sideEffects (gr_scope g)) \<and>
     ai_estimatedCostMicros i \<le> sc_maxCostMicrosPerUse (gr_scope g) \<and>
     frequencyWithinScope i (gr_scope g) \<and>
     (case gr_intentFingerprint g of None \<Rightarrow> True | Some f \<Rightarrow> f = actionIntentFingerprint i)"

lemma exactScope_frequency [simp]: "frequencyWithinScope i (exactScope i)"
  by (simp add: frequencyWithinScope_def exactScope_def split: option.splits)

lemma exactScope_resource [simp]: "resource_in_scope (exactScope i) r \<longleftrightarrow> r = ai_resourceRef i"
  by (auto simp: resource_in_scope_def exactScope_def)

end
