(* ===== verification/Authorization_Store.thy ===== *)
theory Authorization_Store
  imports Authorization
begin

text \<open>
  The authorization operations of \<open>packages/persistence-sqlite/src/sqlite-durable-operations.ts\<close>: approvals,
  grants, the consumption of grants with its usage, event, audit and trace rows, and revocation.

  The store holds the tables these operations read or write. \<open>adb_headroom\<close> is the outcome of
  \<open>assertDiskHeadroom\<close>. A violated uniqueness or check constraint of the tables is \<open>OtherError\<close>;
  references to the rows of owners and agents are not checked, since those rows outlive every grant.
  Every operation runs in one transaction or in one statement after its checks, so it is one step here,
  and a failed operation changes nothing.

  \<open>authz_step\<close> is one operation of any client. The theorems are about every sequence of such steps.
\<close>

section \<open>Tables\<close>

record run_row =
  rr_id :: RunId
  rr_ownerId :: OwnerId
  rr_agentId :: AgentId
  rr_sessionId :: SessionId
  rr_threadId :: "ThreadId option"

record policy_row =
  po_key :: string
  po_ownerId :: OwnerId
  po_agentId :: AgentId
  po_revision :: int
  po_enabled :: bool

record payload_row =
  py_ref :: string
  py_ownerId :: OwnerId
  py_agentId :: AgentId
  py_createdAt :: string

record usage_row =
  us_id :: string
  us_grantId :: string
  us_runId :: "RunId option"
  us_operation :: string
  us_costMicros :: int
  us_usedAt :: string

record event_row =
  ev_id :: string
  ev_ownerId :: OwnerId
  ev_agentId :: AgentId
  ev_idempotencyKey :: string
  ev_topic :: string
  ev_payloadRef :: string
  ev_occurredAt :: string

record audit_row =
  au_id :: string
  au_ownerId :: OwnerId
  au_agentId :: AgentId
  au_action :: string
  au_targetRef :: string
  au_occurredAt :: string

record trace_row =
  tr_id :: string
  tr_ownerId :: OwnerId
  tr_agentId :: AgentId
  tr_sessionId :: SessionId
  tr_threadId :: "ThreadId option"
  tr_runId :: RunId
  tr_parentEventId :: "string option"
  tr_causationId :: string
  tr_correlationId :: string
  tr_sequence :: int
  tr_occurredAt :: string
  tr_eventType :: string
  tr_payloadRef :: string

record authz_db =
  adb_headroom :: bool
  adb_runs :: "run_row list"
  adb_policies :: "policy_row list"
  adb_payloads :: "payload_row list"
  adb_approvals :: "approval_request list"
  adb_grants :: "grant_record list"
  adb_usage :: "usage_row list"
  adb_events :: "event_row list"
  adb_audit :: "audit_row list"
  adb_trace :: "trace_row list"

definition approvalRow :: "authz_db \<Rightarrow> string \<Rightarrow> approval_request option" where
  "approvalRow db i = row_of ar_id i (adb_approvals db)"

definition grantRow :: "authz_db \<Rightarrow> string \<Rightarrow> grant_record option" where
  "grantRow db i = row_of gr_id i (adb_grants db)"

definition assertRunScope :: "authz_db \<Rightarrow> RunId \<Rightarrow> OwnerId \<Rightarrow> AgentId \<Rightarrow> unit result" where
  "assertRunScope db runId ownerId agentId =
     (if list_ex (\<lambda>r. rr_id r = runId \<and> rr_ownerId r = ownerId \<and> rr_agentId r = agentId) (adb_runs db)
      then Inr () else port_fail INVALID_OPERATION)"

definition ensureMetadataPayload :: "authz_db \<Rightarrow> OwnerId \<Rightarrow> AgentId \<Rightarrow> string \<Rightarrow> string \<Rightarrow> authz_db" where
  "ensureMetadataPayload db ownerId agentId ref createdAt =
     (if has_row py_ref ref (adb_payloads db) then db
      else db\<lparr>adb_payloads := adb_payloads db @
        [\<lparr>py_ref = ref, py_ownerId = ownerId, py_agentId = agentId, py_createdAt = createdAt\<rparr>]\<rparr>)"

section \<open>Approvals\<close>

definition createApproval :: "authz_db \<Rightarrow> approval_request \<Rightarrow> (authz_db \<times> approval_request) result" where
  "createApproval db request =
     (if \<not> adb_headroom db then port_fail CONFLICT
      else case assertRunScope db (ar_runId request) (ar_ownerId request) (ar_agentId request) of
        Inl e \<Rightarrow> Inl e
      | Inr _ \<Rightarrow>
          if approvalRow db (ar_id request) \<noteq> None then port_fail DUPLICATE
          else if ar_revision request < 0 then Inl OtherError
          else let db1 = ensureMetadataPayload db (ar_ownerId request) (ar_agentId request)
                     (''metadata:approval-intent:'' @ ar_id request) (ar_requestedAt request)
               in Inr (db1\<lparr>adb_approvals := adb_approvals db1 @ [request]\<rparr>, request))"

definition findApprovalByIntent :: "authz_db \<Rightarrow> string \<Rightarrow> approval_request option" where
  "findApprovalByIntent db intentId =
     (case filter (\<lambda>r. ar_intentId r = intentId)
             (sort_key (\<lambda>r. (ar_requestedAt r, ar_id r)) (adb_approvals db)) of
        [] \<Rightarrow> None
      | r # rs \<Rightarrow> Some (last (r # rs)))"

definition listApprovals :: "authz_db \<Rightarrow> OwnerId \<Rightarrow> AgentId \<Rightarrow> approval_request list" where
  "listApprovals db ownerId agentId = sort_key (\<lambda>r. (ar_requestedAt r, ar_id r))
     (filter (\<lambda>r. ar_ownerId r = ownerId \<and> ar_agentId r = agentId) (adb_approvals db))"

datatype approval_resolution = res_approved | res_denied | res_expired

fun resolution_status :: "approval_resolution \<Rightarrow> approval_status" where
  "resolution_status res_approved = ap_approved"
| "resolution_status res_denied = ap_denied"
| "resolution_status res_expired = ap_expired"

record resolve_approval_input =
  ra_approvalRequestId :: string
  ra_expectedRevision :: int
  ra_semanticSnapshotHash :: string
  ra_resolution :: approval_resolution
  ra_decidedAt :: string
  ra_grant :: "grant_record option"
  ra_recentAuthenticationRef :: "string option option"

definition assertApprovalPolicyCurrent :: "authz_db \<Rightarrow> approval_request \<Rightarrow> unit result" where
  "assertApprovalPolicyCurrent db approval =
     (case ar_policyAuthorization approval of
        None \<Rightarrow> Inr ()
      | Some source \<Rightarrow>
          (case List.find (\<lambda>r. po_key r = pa_key source \<and> po_ownerId r = ar_ownerId approval \<and>
                            po_agentId r = ar_agentId approval) (adb_policies db) of
             None \<Rightarrow> port_fail NOT_AUTHORITATIVE
           | Some row \<Rightarrow> if po_revision row \<noteq> pa_revision source \<or> \<not> po_enabled row
               then port_fail NOT_AUTHORITATIVE else Inr ()))"

definition insertGrant :: "authz_db \<Rightarrow> grant_record \<Rightarrow> authz_db result" where
  "insertGrant db g =
     (if gr_revision g < 0 then Inl OtherError else Inr (db\<lparr>adb_grants := adb_grants db @ [g]\<rparr>))"

definition resolved_approval :: "approval_request \<Rightarrow> resolve_approval_input \<Rightarrow> approval_request" where
  "resolved_approval current input =
     current\<lparr>ar_revision := ar_revision current + 1, ar_status := resolution_status (ra_resolution input),
       ar_decidedAt := Some (ra_decidedAt input), ar_grantId := map_option gr_id (ra_grant input),
       ar_recentAuthenticationRef :=
         (case ra_recentAuthenticationRef input of None \<Rightarrow> ar_recentAuthenticationRef current | Some r \<Rightarrow> r)\<rparr>"

definition resolveApproval :: "authz_db \<Rightarrow> resolve_approval_input \<Rightarrow> (authz_db \<times> approval_request) result" where
  "resolveApproval db input =
     (if \<not> adb_headroom db then port_fail CONFLICT
      else case approvalRow db (ra_approvalRequestId input) of
        None \<Rightarrow> port_fail NOT_FOUND
      | Some current \<Rightarrow>
          (case (if ra_resolution input = res_approved then assertApprovalPolicyCurrent db current else Inr ()) of
             Inl e \<Rightarrow> Inl e
           | Inr _ \<Rightarrow>
               if ar_revision current \<noteq> ra_expectedRevision input \<or> ar_status current \<noteq> ap_pending
                 then port_fail CONFLICT
               else if ar_semanticSnapshotHash current \<noteq> ra_semanticSnapshotHash input then port_fail CONFLICT
               else if (ra_resolution input = res_approved) \<noteq> (ra_grant input \<noteq> None)
                 then port_fail INVALID_OPERATION
               else
                 let resolved = resolved_approval current input;
                     store = (\<lambda>db'. Inr (db'\<lparr>adb_approvals := put_row ar_id resolved (adb_approvals db')\<rparr>, resolved))
                 in (case ra_grant input of
                       None \<Rightarrow> store db
                     | Some g \<Rightarrow>
                         if grantRow db (gr_id g) \<noteq> None then port_fail DUPLICATE
                         else (case insertGrant db g of Inl e \<Rightarrow> Inl e | Inr db' \<Rightarrow> store db'))))"

section \<open>Grants\<close>

definition listGrants :: "authz_db \<Rightarrow> OwnerId \<Rightarrow> AgentId \<Rightarrow> grant_record list" where
  "listGrants db ownerId agentId =
     sort_key gr_id (filter (\<lambda>g. gr_ownerId g = ownerId \<and> gr_agentId g = agentId) (adb_grants db))"

datatype grant_status = gst_active | gst_revoked | gst_expired | gst_consumed

definition grantStatus :: "grant_record \<Rightarrow> grant_status" where
  "grantStatus g =
     (if gr_revokedAt g \<noteq> None then gst_revoked
      else if gr_uses g \<ge> gr_maxUses g \<or> gr_spentCostMicros g \<ge> gr_maxTotalCostMicros g then gst_consumed
      else gst_active)"

definition updateGrant :: "authz_db \<Rightarrow> grant_record \<Rightarrow> authz_db" where
  "updateGrant db g = db\<lparr>adb_grants := put_row gr_id g (adb_grants db)\<rparr>"

record consume_grant_input =
  cg_grantId :: string
  cg_expectedRevision :: int
  cg_costMicros :: int
  cg_consumedAt :: string
  cg_usageId :: "string option"
  cg_intentId :: "string option"
  cg_runId :: "RunId option"
  cg_operation :: "string option"

definition grant_consumable :: "grant_record \<Rightarrow> consume_grant_input \<Rightarrow> bool" where
  "grant_consumable current input \<longleftrightarrow>
     \<not> (gr_revokedAt current \<noteq> None \<or>
        cg_consumedAt input < gr_validFrom current \<or>
        cg_consumedAt input \<ge> gr_expiresAt current \<or>
        gr_uses current \<ge> gr_maxUses current \<or>
        gr_spentCostMicros current + cg_costMicros input > gr_maxTotalCostMicros current)"

definition consumed_grant :: "grant_record \<Rightarrow> consume_grant_input \<Rightarrow> grant_record" where
  "consumed_grant current input =
     current\<lparr>gr_revision := gr_revision current + 1, gr_uses := gr_uses current + 1,
             gr_spentCostMicros := gr_spentCostMicros current + cg_costMicros input\<rparr>"

text \<open>The trace event appended to the run's trace, after the run was found inside the grant's scope.\<close>

definition insert_usage_trace :: "authz_db \<Rightarrow> grant_record \<Rightarrow> consume_grant_input \<Rightarrow> string \<Rightarrow> RunId \<Rightarrow> authz_db result" where
  "insert_usage_trace db current input usageId runId =
     (case List.find (\<lambda>r. rr_id r = runId \<and> rr_ownerId r = gr_ownerId current \<and> rr_agentId r = gr_agentId current)
             (adb_runs db) of
        None \<Rightarrow> port_fail INVALID_OPERATION
      | Some run \<Rightarrow>
          let events = filter (\<lambda>t. tr_runId t = runId) (adb_trace db);
              seqno = foldr max (map tr_sequence events) 0 + 1;
              previous = (case sort_key (\<lambda>t. - tr_sequence t) events of [] \<Rightarrow> None | t # ts \<Rightarrow> Some t);
              event = \<lparr>tr_id = ''trace:'' @ usageId, tr_ownerId = gr_ownerId current, tr_agentId = gr_agentId current,
                 tr_sessionId = rr_sessionId run, tr_threadId = rr_threadId run, tr_runId = runId,
                 tr_parentEventId = map_option tr_id previous,
                 tr_causationId = (case cg_intentId input of None \<Rightarrow> usageId | Some i \<Rightarrow> i),
                 tr_correlationId = (case previous of None \<Rightarrow> ''run:'' @ runId | Some t \<Rightarrow> tr_correlationId t),
                 tr_sequence = seqno, tr_occurredAt = cg_consumedAt input,
                 tr_eventType = ''authorization.grant_consumed'', tr_payloadRef = ''metadata:'' @ usageId\<rparr>
          in if has_row tr_id (tr_id event) (adb_trace db) then Inl OtherError
             else Inr (db\<lparr>adb_trace := adb_trace db @ [event]\<rparr>))"

definition insert_usage :: "authz_db \<Rightarrow> grant_record \<Rightarrow> consume_grant_input \<Rightarrow> string \<Rightarrow> string \<Rightarrow> authz_db result" where
  "insert_usage db current input usageId operation =
     (if has_row us_id usageId (adb_usage db) \<or> cg_costMicros input < 0 \<or>
         (case cg_runId input of None \<Rightarrow> False | Some r \<Rightarrow> \<not> has_row rr_id r (adb_runs db))
        then Inl OtherError
      else
        let db1 = db\<lparr>adb_usage := adb_usage db @ [\<lparr>us_id = usageId, us_grantId = cg_grantId input,
                      us_runId = cg_runId input, us_operation = operation, us_costMicros = cg_costMicros input,
                      us_usedAt = cg_consumedAt input\<rparr>]\<rparr>;
            db2 = ensureMetadataPayload db1 (gr_ownerId current) (gr_agentId current)
                    (''metadata:'' @ usageId) (cg_consumedAt input)
        in if has_row ev_id (''event:'' @ usageId) (adb_events db2) then Inl OtherError
           else let db3 = db2\<lparr>adb_events := adb_events db2 @ [\<lparr>ev_id = ''event:'' @ usageId,
                      ev_ownerId = gr_ownerId current, ev_agentId = gr_agentId current,
                      ev_idempotencyKey = usageId, ev_topic = ''authorization.grant_consumed'',
                      ev_payloadRef = ''metadata:'' @ usageId, ev_occurredAt = cg_consumedAt input\<rparr>]\<rparr>
                in if has_row au_id (''audit:'' @ usageId) (adb_audit db3) then Inl OtherError
                   else let db4 = db3\<lparr>adb_audit := adb_audit db3 @ [\<lparr>au_id = ''audit:'' @ usageId,
                              au_ownerId = gr_ownerId current, au_agentId = gr_agentId current,
                              au_action = ''authorization.grant_consumed'', au_targetRef = gr_id current,
                              au_occurredAt = cg_consumedAt input\<rparr>]\<rparr>
                        in (case cg_runId input of
                              None \<Rightarrow> Inr db4
                            | Some runId \<Rightarrow> if runId = [] then Inr db4
                                else insert_usage_trace db4 current input usageId runId))"

definition consumeGrant :: "authz_db \<Rightarrow> consume_grant_input \<Rightarrow> (authz_db \<times> grant_record) result" where
  "consumeGrant db input =
     (if \<not> adb_headroom db then port_fail CONFLICT
      else
        let sourceApproval = (case grantRow db (cg_grantId input) of
              None \<Rightarrow> None | Some g \<Rightarrow> approvalRow db (gr_sourceApprovalRequestId g))
        in (case (case sourceApproval of None \<Rightarrow> Inr () | Some a \<Rightarrow> assertApprovalPolicyCurrent db a) of
              Inl e \<Rightarrow> Inl e
            | Inr _ \<Rightarrow>
                if truthy (cg_usageId input) \<and>
                   list_ex (\<lambda>u. us_id u = the (cg_usageId input) \<and> us_grantId u = cg_grantId input) (adb_usage db)
                  then (case grantRow db (cg_grantId input) of
                          None \<Rightarrow> port_fail NOT_FOUND | Some g \<Rightarrow> Inr (db, g))
                else (case grantRow db (cg_grantId input) of
                  None \<Rightarrow> port_fail NOT_FOUND
                | Some current \<Rightarrow>
                    if gr_revision current \<noteq> cg_expectedRevision input then port_fail CONFLICT
                    else if \<not> grant_consumable current input then port_fail INVALID_OPERATION
                    else
                      let consumed = consumed_grant current input;
                          db1 = updateGrant db consumed
                      in if truthy (cg_usageId input) \<and> truthy (cg_operation input)
                         then (case insert_usage db1 current input (the (cg_usageId input)) (the (cg_operation input)) of
                                 Inl e \<Rightarrow> Inl e | Inr db2 \<Rightarrow> Inr (db2, consumed))
                         else Inr (db1, consumed))))"

definition revokeGrant :: "authz_db \<Rightarrow> string \<Rightarrow> string \<Rightarrow> string \<Rightarrow> int option \<Rightarrow> (authz_db \<times> grant_record) result" where
  "revokeGrant db grantId revokedAt reasonCode expectedRevision =
     (if \<not> adb_headroom db then port_fail CONFLICT
      else case grantRow db grantId of
        None \<Rightarrow> port_fail NOT_FOUND
      | Some current \<Rightarrow>
          if expectedRevision \<noteq> None \<and> gr_revision current \<noteq> the expectedRevision then port_fail CONFLICT
          else if gr_revokedAt current \<noteq> None then Inr (db, current)
          else let revoked = current\<lparr>gr_revision := gr_revision current + 1, gr_revokedAt := Some revokedAt,
                                      gr_revocationReasonCode := Some reasonCode\<rparr>
               in Inr (updateGrant db revoked, revoked))"

section \<open>What a successful operation did\<close>

lemma ensureMetadataPayload_frame [simp, frames]:
  "adb_approvals (ensureMetadataPayload db a b c d) = adb_approvals db"
  "adb_grants (ensureMetadataPayload db a b c d) = adb_grants db"
  "adb_usage (ensureMetadataPayload db a b c d) = adb_usage db"
  by (simp_all add: ensureMetadataPayload_def)

lemma updateGrant_frame [simp, frames]:
  "adb_approvals (updateGrant db g) = adb_approvals db" "adb_usage (updateGrant db g) = adb_usage db"
  "adb_grants (updateGrant db g) = put_row gr_id g (adb_grants db)"
  by (simp_all add: updateGrant_def)

lemma insert_usage_trace_frame:
  "insert_usage_trace db c i u r = Inr db' \<Longrightarrow>
     adb_approvals db' = adb_approvals db \<and> adb_grants db' = adb_grants db \<and> adb_usage db' = adb_usage db"
  by (auto simp: insert_usage_trace_def Let_def split: option.splits if_splits)

definition usage_of :: "consume_grant_input \<Rightarrow> usage_row" where
  "usage_of input = \<lparr>us_id = the (cg_usageId input), us_grantId = cg_grantId input, us_runId = cg_runId input,
     us_operation = the (cg_operation input), us_costMicros = cg_costMicros input, us_usedAt = cg_consumedAt input\<rparr>"

definition metered :: "consume_grant_input \<Rightarrow> bool" where
  "metered input \<longleftrightarrow> truthy (cg_usageId input) \<and> truthy (cg_operation input)"

lemma insert_usage_frame:
  assumes "insert_usage db c input u op = Inr db'"
  shows "adb_approvals db' = adb_approvals db \<and> adb_grants db' = adb_grants db \<and> \<not> has_row us_id u (adb_usage db) \<and>
    0 \<le> cg_costMicros input \<and>
    adb_usage db' = adb_usage db @ [\<lparr>us_id = u, us_grantId = cg_grantId input, us_runId = cg_runId input,
      us_operation = op, us_costMicros = cg_costMicros input, us_usedAt = cg_consumedAt input\<rparr>]"
  using assms by (auto simp: insert_usage_def Let_def dest!: insert_usage_trace_frame split: option.splits if_splits)

lemma consumeGrant_Inr:
  assumes "consumeGrant db input = Inr (db', g)"
  obtains (replay) "db' = db" "grantRow db (cg_grantId input) = Some g" "truthy (cg_usageId input)"
      "\<exists>u\<in>set (adb_usage db). us_id u = the (cg_usageId input) \<and> us_grantId u = cg_grantId input"
  | (use) cur where "grantRow db (cg_grantId input) = Some cur" "gr_revision cur = cg_expectedRevision input"
      "grant_consumable cur input" "g = consumed_grant cur input"
      "adb_grants db' = put_row gr_id g (adb_grants db)" "adb_approvals db' = adb_approvals db"
      "adb_usage db' = adb_usage db @ (if metered input then [usage_of input] else [])"
      "metered input \<Longrightarrow> \<not> has_row us_id (the (cg_usageId input)) (adb_usage db) \<and> 0 \<le> cg_costMicros input"
proof (cases "truthy (cg_usageId input) \<and>
    list_ex (\<lambda>u. us_id u = the (cg_usageId input) \<and> us_grantId u = cg_grantId input) (adb_usage db)")
  case True
  with assms show ?thesis
    by (intro replay) (auto simp: consumeGrant_def list_ex_iff Let_def split: if_splits sum.splits option.splits)
next
  case False
  with assms obtain cur where cur: "grantRow db (cg_grantId input) = Some cur"
    "gr_revision cur = cg_expectedRevision input" "grant_consumable cur input" "g = consumed_grant cur input"
    and upd: "if metered input
      then insert_usage (updateGrant db g) cur input (the (cg_usageId input)) (the (cg_operation input)) = Inr db'
      else db' = updateGrant db g"
    unfolding consumeGrant_def metered_def Let_def
    by (auto split: if_splits sum.splits option.splits)
  show ?thesis
  proof (cases "metered input")
    case True
    with upd have "insert_usage (updateGrant db g) cur input (the (cg_usageId input)) (the (cg_operation input)) = Inr db'"
      by simp
    from insert_usage_frame [OF this] True cur show ?thesis by (intro use [of cur]) (auto simp: usage_of_def)
  next
    case False
    with upd cur show ?thesis by (intro use [of cur]) auto
  qed
qed

lemma resolveApproval_Inr:
  assumes "resolveApproval db input = Inr (db', a)"
  obtains cur where "approvalRow db (ra_approvalRequestId input) = Some cur"
    "ar_revision cur = ra_expectedRevision input" "ar_status cur = ap_pending"
    "ar_semanticSnapshotHash cur = ra_semanticSnapshotHash input" "a = resolved_approval cur input"
    "(ra_resolution input = res_approved) = (ra_grant input \<noteq> None)"
    "adb_approvals db' = put_row ar_id a (adb_approvals db)" "adb_usage db' = adb_usage db"
    "adb_grants db' = adb_grants db @ (case ra_grant input of None \<Rightarrow> [] | Some g \<Rightarrow> [g])"
    "\<And>g. ra_grant input = Some g \<Longrightarrow> grantRow db (gr_id g) = None"
  using assms unfolding resolveApproval_def insertGrant_def Let_def
  by (auto split: if_splits sum.splits option.splits)

lemma createApproval_Inr:
  assumes "createApproval db r = Inr (db', a)"
  shows "a = r \<and> approvalRow db (ar_id r) = None \<and> adb_approvals db' = adb_approvals db @ [r] \<and>
    adb_grants db' = adb_grants db \<and> adb_usage db' = adb_usage db"
  using assms unfolding createApproval_def Let_def by (auto split: if_splits sum.splits)

lemma revokeGrant_Inr:
  assumes "revokeGrant db i at rc e = Inr (db', g)"
  obtains (already) "db' = db" "grantRow db i = Some g" "gr_revokedAt g \<noteq> None"
  | (revoked) cur where "grantRow db i = Some cur" "gr_revokedAt cur = None"
      "g = cur\<lparr>gr_revision := gr_revision cur + 1, gr_revokedAt := Some at, gr_revocationReasonCode := Some rc\<rparr>"
      "adb_grants db' = put_row gr_id g (adb_grants db)" "adb_approvals db' = adb_approvals db"
      "adb_usage db' = adb_usage db"
  using assms unfolding revokeGrant_def Let_def by (auto split: if_splits option.splits)

section \<open>Histories of the store\<close>

text \<open>A grant as the services create it: unused, unspent, not revoked.\<close>

definition fresh_grant :: "grant_record \<Rightarrow> bool" where
  "fresh_grant g \<longleftrightarrow> gr_uses g = 0 \<and> gr_spentCostMicros g = 0 \<and> 1 \<le> gr_maxUses g \<and>
     0 \<le> gr_maxTotalCostMicros g \<and> gr_revokedAt g = None"

text \<open>
  One operation of some client. With the flag set, every consumption carries a usage identity and an
  operation, as those of \<open>ActionPolicyService\<close> and \<open>GrantService\<close> do. \<open>other\<close> is any operation on the
  remaining tables: runs, policies, payloads, events, audit and trace rows, and free disk space.
\<close>

inductive authz_step :: "bool \<Rightarrow> authz_db \<Rightarrow> authz_db \<Rightarrow> bool" for b where
  create: "createApproval db r = Inr (db', a) \<Longrightarrow> authz_step b db db'"
| resolve: "resolveApproval db i = Inr (db', a) \<Longrightarrow> (\<And>g. ra_grant i = Some g \<Longrightarrow> fresh_grant g) \<Longrightarrow>
    authz_step b db db'"
| consume: "consumeGrant db c = Inr (db', g) \<Longrightarrow> (b \<longrightarrow> metered c) \<Longrightarrow> authz_step b db db'"
| revoke: "revokeGrant db gid at rc e = Inr (db', g) \<Longrightarrow> authz_step b db db'"
| other: "adb_approvals db' = adb_approvals db \<Longrightarrow> adb_grants db' = adb_grants db \<Longrightarrow>
    adb_usage db' = adb_usage db \<Longrightarrow> authz_step b db db'"

definition within_budget :: "grant_record \<Rightarrow> bool" where
  "within_budget g \<longleftrightarrow> 0 \<le> gr_uses g \<and> gr_uses g \<le> gr_maxUses g \<and> gr_spentCostMicros g \<le> gr_maxTotalCostMicros g"

definition authz_inv :: "authz_db \<Rightarrow> bool" where
  "authz_inv db \<longleftrightarrow> distinct (map gr_id (adb_grants db)) \<and> distinct (map ar_id (adb_approvals db)) \<and>
     (\<forall>g\<in>set (adb_grants db). within_budget g)"

lemma grantRow_id: "grantRow db i = Some g \<Longrightarrow> gr_id g = i \<and> g \<in> set (adb_grants db)"
  unfolding grantRow_def by (rule row_of_SomeD)

lemma approvalRow_id: "approvalRow db i = Some a \<Longrightarrow> ar_id a = i \<and> a \<in> set (adb_approvals db)"
  unfolding approvalRow_def by (rule row_of_SomeD)

lemma row_of_None_key: "row_of key k rows = None \<Longrightarrow> k \<notin> key ` set rows"
  by (induction rows) (auto split: if_splits)

lemma grant_put_inv:
  assumes "authz_inv db" "within_budget g" "adb_grants db' = put_row gr_id g (adb_grants db)"
    "adb_approvals db' = adb_approvals db"
  shows "authz_inv db'"
  using assms set_put_row [of gr_id g "adb_grants db"] by (auto simp: authz_inv_def keys_put_row)

lemma authz_step_inv: "authz_step b db db' \<Longrightarrow> authz_inv db \<Longrightarrow> authz_inv db'"
proof (induction rule: authz_step.induct)
  case (create db r db' a)
  then show ?case using createApproval_Inr [OF create.hyps]
    by (auto simp: authz_inv_def approvalRow_def dest: row_of_None_key)
next
  case (resolve db i db' a)
  from resolve.hyps(1) show ?case
  proof (rule resolveApproval_Inr)
    fix cur
    assume h: "adb_approvals db' = put_row ar_id a (adb_approvals db)"
      "adb_grants db' = adb_grants db @ (case ra_grant i of None \<Rightarrow> [] | Some g \<Rightarrow> [g])"
      "\<And>g. ra_grant i = Some g \<Longrightarrow> grantRow db (gr_id g) = None"
    show ?thesis
    proof (cases "ra_grant i")
      case None
      with h resolve.prems show ?thesis by (auto simp: authz_inv_def keys_put_row)
    next
      case (Some g)
      with h(3) have "gr_id g \<notin> gr_id ` set (adb_grants db)" by (auto simp: grantRow_def dest: row_of_None_key)
      moreover have "within_budget g" using resolve.hyps(2) [OF Some] by (simp add: fresh_grant_def within_budget_def)
      ultimately show ?thesis using h(1,2) Some resolve.prems by (auto simp: authz_inv_def keys_put_row)
    qed
  qed
next
  case (consume db c db' g)
  from consume.hyps(1) show ?case
  proof (cases rule: consumeGrant_Inr)
    case (use cur)
    then have "within_budget cur" using consume.prems grantRow_id [OF use(1)] by (auto simp: authz_inv_def)
    then have "within_budget g"
      using use(3,4) by (auto simp: within_budget_def grant_consumable_def consumed_grant_def)
    then show ?thesis using grant_put_inv [OF consume.prems _ use(5,6)] by blast
  qed (use consume.prems in simp)
next
  case (revoke db gid at rc e db' g)
  from revoke.hyps(1) show ?case
  proof (cases rule: revokeGrant_Inr)
    case (revoked cur)
    then have "within_budget g" using revoke.prems grantRow_id [OF revoked(1)]
      by (auto simp: authz_inv_def within_budget_def)
    then show ?thesis using grant_put_inv [OF revoke.prems _ revoked(4,5)] by blast
  qed (use revoke.prems in simp)
next
  case (other db' db)
  then show ?case by (simp add: authz_inv_def)
qed

text \<open>The terms of a grant: everything but its revision, its counters and its revocation.\<close>

definition same_terms :: "grant_record \<Rightarrow> grant_record \<Rightarrow> bool" where
  "same_terms g g' \<longleftrightarrow>
     g' = g\<lparr>gr_revision := gr_revision g', gr_uses := gr_uses g', gr_spentCostMicros := gr_spentCostMicros g',
            gr_revokedAt := gr_revokedAt g', gr_revocationReasonCode := gr_revocationReasonCode g'\<rparr>"

definition grant_progress :: "grant_record \<Rightarrow> grant_record \<Rightarrow> bool" where
  "grant_progress g g' \<longleftrightarrow> g' = g \<or>
     (gr_revokedAt g = None \<and> same_terms g g' \<and> gr_revision g < gr_revision g' \<and> gr_uses g \<le> gr_uses g')"

lemma same_terms_refl [simp]: "same_terms g g"
  by (simp add: same_terms_def)

lemma same_terms_fields:
  "same_terms g g' \<Longrightarrow> gr_id g' = gr_id g \<and> gr_scope g' = gr_scope g \<and> gr_maxUses g' = gr_maxUses g \<and>
     gr_maxTotalCostMicros g' = gr_maxTotalCostMicros g \<and> gr_expiresAt g' = gr_expiresAt g"
  unfolding same_terms_def by (cases g; cases g') simp

lemma same_terms_trans: "same_terms f g \<Longrightarrow> same_terms g h \<Longrightarrow> same_terms f h"
  unfolding same_terms_def by (cases f; cases g; cases h) simp

lemma grant_progress_trans: "grant_progress f g \<Longrightarrow> grant_progress g h \<Longrightarrow> grant_progress f h"
  unfolding grant_progress_def using same_terms_trans by fastforce

lemma consumed_progress: "grant_consumable cur c \<Longrightarrow> grant_progress cur (consumed_grant cur c)"
  by (cases cur) (simp add: grant_progress_def same_terms_def consumed_grant_def grant_consumable_def)

lemma grantRow_put:
  "adb_grants db' = put_row gr_id g (adb_grants db) \<Longrightarrow>
     grantRow db' k = (if k = gr_id g then Some g else grantRow db k)"
  by (simp add: grantRow_def row_of_put_row)

lemma grant_step:
  assumes "authz_step b db db'" and "grantRow db k = Some g"
  shows "\<exists>g'. grantRow db' k = Some g' \<and> grant_progress g g'"
  using assms
proof (induction rule: authz_step.induct)
  case (create db r db' a)
  then show ?case using createApproval_Inr [OF create.hyps]
    by (auto simp: grantRow_def grant_progress_def)
next
  case (resolve db i db' a)
  from resolve.hyps(1) show ?case
  proof (rule resolveApproval_Inr)
    fix cur
    assume "adb_grants db' = adb_grants db @ (case ra_grant i of None \<Rightarrow> [] | Some g \<Rightarrow> [g])"
    then show ?thesis using resolve.prems by (auto simp: grantRow_def row_of_append grant_progress_def)
  qed
next
  case (consume db c db' h)
  from consume.hyps(1) show ?case
  proof (cases rule: consumeGrant_Inr)
    case (use cur)
    have "gr_id h = cg_grantId c" using grantRow_id [OF use(1)] use(4) by (simp add: consumed_grant_def)
    then show ?thesis using use(1,4) consume.prems grantRow_put [OF use(5)] consumed_progress [OF use(3)]
      by (auto simp: grant_progress_def)
  qed (use consume.prems in \<open>auto simp: grant_progress_def\<close>)
next
  case (revoke db gid at rc e db' h)
  from revoke.hyps(1) show ?case
  proof (cases rule: revokeGrant_Inr)
    case (revoked cur)
    have "gr_id h = gid" using grantRow_id [OF revoked(1)] revoked(3) by simp
    moreover have "grant_progress cur h"
      using revoked(2,3) by (cases cur) (simp add: grant_progress_def same_terms_def)
    ultimately show ?thesis using revoked(1) revoke.prems grantRow_put [OF revoked(4)]
      by (auto simp: grant_progress_def)
  qed (use revoke.prems in \<open>auto simp: grant_progress_def\<close>)
next
  case (other db' db)
  then show ?case by (auto simp: grantRow_def grant_progress_def)
qed

interpretation grants: versioned_table grantRow gr_revision "authz_step b" for b
  by unfold_locales (use grant_step in \<open>fastforce simp: grant_progress_def\<close>)

lemma approval_step:
  assumes "authz_step b db db'" and "approvalRow db k = Some a"
  shows "\<exists>a'. approvalRow db' k = Some a' \<and>
    (a' = a \<or> ar_status a = ap_pending \<and> ar_status a' \<noteq> ap_pending \<and> ar_revision a' = ar_revision a + 1 \<and>
       ar_intentSnapshot a' = ar_intentSnapshot a \<and> ar_semanticSnapshotHash a' = ar_semanticSnapshotHash a)"
  using assms
proof (induction rule: authz_step.induct)
  case (create db r db' a')
  then show ?case using createApproval_Inr [OF create.hyps]
    by (auto simp: approvalRow_def row_of_append)
next
  case (resolve db i db' a')
  from resolve.hyps(1) show ?case
  proof (rule resolveApproval_Inr)
    fix cur
    assume h: "approvalRow db (ra_approvalRequestId i) = Some cur" "ar_status cur = ap_pending"
      "a' = resolved_approval cur i" "adb_approvals db' = put_row ar_id a' (adb_approvals db)"
    have id: "ar_id a' = ra_approvalRequestId i" using approvalRow_id [OF h(1)] h(3) by (simp add: resolved_approval_def)
    show ?thesis
    proof (cases "k = ra_approvalRequestId i")
      case True
      then have "cur = a" "approvalRow db' k = Some a'"
        using h resolve.prems id by (auto simp: approvalRow_def row_of_put_row)
      then show ?thesis using h(2,3) by (cases "ra_resolution i") (auto simp: resolved_approval_def)
    next
      case False
      then show ?thesis using h(4) id resolve.prems by (auto simp: approvalRow_def row_of_put_row)
    qed
  qed
next
  case (consume db c db' h)
  from consume.hyps(1) show ?case
    by (cases rule: consumeGrant_Inr) (use consume.prems in \<open>auto simp: approvalRow_def\<close>)
next
  case (revoke db gid at rc e db' h)
  from revoke.hyps(1) show ?case
    by (cases rule: revokeGrant_Inr) (use revoke.prems in \<open>auto simp: approvalRow_def\<close>)
next
  case (other db' db)
  then show ?case by (auto simp: approvalRow_def)
qed

interpretation approvals: versioned_table approvalRow ar_revision "authz_step b" for b
  by unfold_locales (use approval_step in fastforce)

lemma grant_history:
  "(authz_step b)\<^sup>*\<^sup>* db db' \<Longrightarrow> grantRow db k = Some g \<Longrightarrow> \<exists>g'. grantRow db' k = Some g' \<and> grant_progress g g'"
proof (induction rule: rtranclp_induct)
  case base
  then show ?case by (auto simp: grant_progress_def)
next
  case (step y z)
  then show ?case using grant_step grant_progress_trans by metis
qed

lemma authz_history_inv: "(authz_step b)\<^sup>*\<^sup>* db db' \<Longrightarrow> authz_inv db \<Longrightarrow> authz_inv db'"
  by (induction rule: rtranclp_induct) (auto intro: authz_step_inv)

lemma approval_history_decided:
  assumes "(authz_step b)\<^sup>*\<^sup>* db db'" "approvalRow db k = Some a" "ar_status a \<noteq> ap_pending"
  shows "approvalRow db' k = Some a"
  using assms
proof (induction rule: rtranclp_induct)
  case (step y z)
  then show ?case using approval_step by metis
qed simp

section \<open>The usage ledger\<close>

definition usage_for :: "authz_db \<Rightarrow> string \<Rightarrow> usage_row list" where
  "usage_for db k = filter (\<lambda>u. us_grantId u = k) (adb_usage db)"

definition ledger_ok :: "authz_db \<Rightarrow> bool" where
  "ledger_ok db \<longleftrightarrow> distinct (map us_id (adb_usage db)) \<and>
     (\<forall>u\<in>set (adb_usage db). grantRow db (us_grantId u) \<noteq> None) \<and>
     (\<forall>k g. grantRow db k = Some g \<longrightarrow>
        gr_uses g = int (length (usage_for db k)) \<and>
        gr_spentCostMicros g = sum_list (map us_costMicros (usage_for db k)))"

lemma usage_for_new_grant:
  "ledger_ok db \<Longrightarrow> grantRow db k = None \<Longrightarrow> usage_for db k = []"
  by (auto simp: ledger_ok_def usage_for_def filter_empty_conv)

lemma ledger_same:
  assumes "ledger_ok db" "adb_usage db' = adb_usage db" "\<And>k. grantRow db' k = grantRow db k"
  shows "ledger_ok db'"
  using assms by (simp add: ledger_ok_def usage_for_def)

lemma ledger_consume:
  assumes l: "ledger_ok db" and cur: "grantRow db (cg_grantId c) = Some cur"
    and g: "g = consumed_grant cur c" "adb_grants db' = put_row gr_id g (adb_grants db)"
    and u: "adb_usage db' = adb_usage db @ [usage_of c]" "\<not> has_row us_id (the (cg_usageId c)) (adb_usage db)"
  shows "ledger_ok db'"
proof -
  have id: "gr_id g = cg_grantId c" using grantRow_id [OF cur] g(1) by (simp add: consumed_grant_def)
  have row: "grantRow db' k = (if k = cg_grantId c then Some g else grantRow db k)" for k
    using grantRow_put [OF g(2)] id by simp
  have us: "us_grantId (usage_of c) = cg_grantId c" "us_costMicros (usage_of c) = cg_costMicros c"
    "us_id (usage_of c) = the (cg_usageId c)" by (simp_all add: usage_of_def)
  have "usage_for db' k = usage_for db k @ (if k = cg_grantId c then [usage_of c] else [])" for k
    by (auto simp: usage_for_def u(1) us)
  moreover have "the (cg_usageId c) \<notin> us_id ` set (adb_usage db)"
    using u(2) by (auto simp: has_row_def list_ex_iff)
  ultimately show ?thesis
    using l cur g(1) unfolding ledger_ok_def row u(1)
    by (auto simp: us consumed_grant_def)
qed

lemma ledger_step: "authz_step True db db' \<Longrightarrow> ledger_ok db \<Longrightarrow> ledger_ok db'"
proof (induction rule: authz_step.induct)
  case (create db r db' a)
  then show ?case using createApproval_Inr [OF create.hyps] ledger_same [of db db'] by (simp add: grantRow_def)
next
  case (resolve db i db' a)
  from resolve.hyps(1) show ?case
  proof (rule resolveApproval_Inr)
    fix cur
    assume h: "adb_usage db' = adb_usage db"
      "adb_grants db' = adb_grants db @ (case ra_grant i of None \<Rightarrow> [] | Some g \<Rightarrow> [g])"
      "\<And>g. ra_grant i = Some g \<Longrightarrow> grantRow db (gr_id g) = None"
    show ?thesis
    proof (cases "ra_grant i")
      case None
      with h resolve.prems ledger_same [of db db'] show ?thesis by (simp add: grantRow_def)
    next
      case (Some g)
      have row: "grantRow db' k = (if k = gr_id g then Some g else grantRow db k)" for k
        using h(2) h(3) [OF Some] Some by (auto simp: grantRow_def row_of_append split: option.splits)
      have "usage_for db (gr_id g) = []" by (rule usage_for_new_grant [OF resolve.prems h(3) [OF Some]])
      with row resolve.hyps(2) [OF Some] h(1) resolve.prems show ?thesis
        by (auto simp: ledger_ok_def usage_for_def fresh_grant_def)
    qed
  qed
next
  case (consume db c db' g)
  from consume.hyps(1) show ?case
  proof (cases rule: consumeGrant_Inr)
    case (use cur)
    then show ?thesis using consume.hyps(2) ledger_consume [OF consume.prems use(1,4,5)] by auto
  qed (use consume.prems in simp)
next
  case (revoke db gid at rc e db' g)
  from revoke.hyps(1) show ?case
  proof (cases rule: revokeGrant_Inr)
    case (revoked cur)
    then have row: "grantRow db' k = (if k = gid then Some g else grantRow db k)" for k
      using grantRow_put [OF revoked(4)] grantRow_id [OF revoked(1)] by simp
    show ?thesis using revoke.prems revoked(1,3,6) unfolding ledger_ok_def usage_for_def row
      by auto
  qed (use revoke.prems in simp)
next
  case (other db' db)
  then show ?case using ledger_same [of db db'] by (simp add: grantRow_def)
qed

lemma ledger_history: "(authz_step True)\<^sup>*\<^sup>* db db' \<Longrightarrow> ledger_ok db \<Longrightarrow> ledger_ok db'"
  by (induction rule: rtranclp_induct) (auto intro: ledger_step)

definition empty_authz_db :: "run_row list \<Rightarrow> authz_db" where
  "empty_authz_db runs = \<lparr>adb_headroom = True, adb_runs = runs, adb_policies = [], adb_payloads = [],
     adb_approvals = [], adb_grants = [], adb_usage = [], adb_events = [], adb_audit = [], adb_trace = []\<rparr>"

lemma empty_authz_db_ok [simp]: "authz_inv (empty_authz_db runs)" "ledger_ok (empty_authz_db runs)"
  by (simp_all add: authz_inv_def ledger_ok_def empty_authz_db_def grantRow_def)

lemma usage_grows: "(authz_step b)\<^sup>*\<^sup>* db db' \<Longrightarrow> set (adb_usage db) \<subseteq> set (adb_usage db')"
proof (induction rule: rtranclp_induct)
  case (step y z)
  from step.hyps(2) have "set (adb_usage y) \<subseteq> set (adb_usage z)"
  proof (induction rule: authz_step.induct)
    case (create db r db' a)
    then show ?case using createApproval_Inr by simp
  next
    case (resolve db i db' a)
    then show ?case by (auto elim: resolveApproval_Inr)
  next
    case (consume db c db' g)
    then show ?case by (auto elim: consumeGrant_Inr)
  next
    case (revoke db gid at rc e db' g)
    then show ?case by (auto elim: revokeGrant_Inr)
  qed simp
  with step.IH show ?case by blast
qed simp

lemma consume_recorded:
  assumes "consumeGrant db c = Inr (db', g)" and "metered c"
  shows "grantRow db' (cg_grantId c) = Some g \<and>
    (\<exists>u\<in>set (adb_usage db'). us_id u = the (cg_usageId c) \<and> us_grantId u = cg_grantId c)"
  using assms(1)
proof (cases rule: consumeGrant_Inr)
  case (use cur)
  have "gr_id g = cg_grantId c" using grantRow_id [OF use(1)] use(4) by (simp add: consumed_grant_def)
  then show ?thesis using grantRow_put [OF use(5)] use(7) assms(2) by (simp add: usage_of_def)
qed (use assms in simp)

lemma consume_replay:
  assumes "consumeGrant db c = Inr (db', g)" and "truthy (cg_usageId c)"
    and "\<exists>u\<in>set (adb_usage db). us_id u = the (cg_usageId c) \<and> us_grantId u = cg_grantId c"
  shows "db' = db \<and> grantRow db (cg_grantId c) = Some g"
  using assms unfolding consumeGrant_def Let_def
  by (auto simp: list_ex_iff split: if_splits sum.splits option.splits)

section \<open>Properties of every history\<close>

text \<open>
  C3. Authority is never widened. Along every interleaving of store operations that starts from a store
  satisfying the invariant, each grant stays within its use and cost budgets, its terms (owner, scope,
  validity, budgets, bound intent) never change, its use counter never decreases, and once it is
  revoked its row never changes again.
\<close>

theorem grants_never_widened:
  assumes "(authz_step b)\<^sup>*\<^sup>* db db'" and "authz_inv db" and "grantRow db k = Some g"
  shows "\<exists>g'. grantRow db' k = Some g' \<and> same_terms g g' \<and> within_budget g' \<and> gr_uses g \<le> gr_uses g' \<and>
    (gr_revokedAt g \<noteq> None \<longrightarrow> g' = g)"
proof -
  obtain g' where g': "grantRow db' k = Some g'" "grant_progress g g'" using grant_history [OF assms(1,3)] by blast
  moreover have "within_budget g'"
    using authz_history_inv [OF assms(1,2)] grantRow_id [OF g'(1)] by (auto simp: authz_inv_def)
  ultimately show ?thesis by (auto simp: grant_progress_def)
qed

text \<open>
  C4. Every use is accounted for. In every history whose consumptions carry usage identities, the use
  counter of a grant is the number of its usage rows and its spent cost is their sum, so the recorded
  costs never exceed the granted total and the recorded uses never exceed the granted number; and no
  usage identity is ever recorded twice.
\<close>

theorem usage_ledger_exact:
  assumes "(authz_step True)\<^sup>*\<^sup>* db db'" and "authz_inv db" and "ledger_ok db" and "grantRow db' k = Some g"
  shows "gr_uses g = int (length (usage_for db' k)) \<and>
    gr_spentCostMicros g = sum_list (map us_costMicros (usage_for db' k)) \<and>
    int (length (usage_for db' k)) \<le> gr_maxUses g \<and>
    sum_list (map us_costMicros (usage_for db' k)) \<le> gr_maxTotalCostMicros g \<and>
    distinct (map us_id (adb_usage db'))"
proof -
  have "ledger_ok db'" by (rule ledger_history [OF assms(1,3)])
  moreover have "within_budget g"
    using authz_history_inv [OF assms(1,2)] grantRow_id [OF assms(4)] by (auto simp: authz_inv_def)
  ultimately show ?thesis using assms(4) by (auto simp: ledger_ok_def within_budget_def)
qed

text \<open>
  C5. An approval is decided at most once. After a resolution succeeded, in every later state the
  approval row is the decided one, and every further resolution of it fails, whatever revision and
  hash it presents.
\<close>

theorem approval_decided_once:
  assumes "resolveApproval db i = Inr (db1, a)" and "(authz_step b)\<^sup>*\<^sup>* db1 db2"
    and "ra_approvalRequestId j = ra_approvalRequestId i"
  shows "approvalRow db2 (ra_approvalRequestId i) = Some a \<and> ar_status a = resolution_status (ra_resolution i) \<and>
    (\<exists>e. resolveApproval db2 j = Inl e)"
proof -
  from assms(1) obtain cur where h: "approvalRow db (ra_approvalRequestId i) = Some cur"
    "a = resolved_approval cur i" "adb_approvals db1 = put_row ar_id a (adb_approvals db)"
    by (rule resolveApproval_Inr)
  have "ar_id a = ra_approvalRequestId i" using approvalRow_id [OF h(1)] h(2) by (simp add: resolved_approval_def)
  then have "approvalRow db1 (ra_approvalRequestId i) = Some a" using h(3) by (simp add: approvalRow_def row_of_put_row)
  moreover have st: "ar_status a = resolution_status (ra_resolution i)" using h(2) by (simp add: resolved_approval_def)
  moreover have np: "ar_status a \<noteq> ap_pending" using st by (cases "ra_resolution i") simp_all
  ultimately have row: "approvalRow db2 (ra_approvalRequestId i) = Some a"
    using approval_history_decided [OF assms(2)] by blast
  moreover have "\<exists>e. resolveApproval db2 j = Inl e"
    using row np assms(3) by (cases "resolveApproval db2 j") (auto elim: resolveApproval_Inr)
  ultimately show ?thesis using st by simp
qed

text \<open>
  C6. Consumption is idempotent under retry. If a metered consumption succeeded, then the same request
  succeeding again in any later state returns the grant's current row and changes nothing: a retry is
  never charged a second time.
\<close>

theorem consume_retry_free:
  assumes "consumeGrant db c = Inr (db1, g)" and "metered c" and "(authz_step b)\<^sup>*\<^sup>* db1 db2"
    and "consumeGrant db2 c = Inr (db3, h)"
  shows "db3 = db2 \<and> grantRow db2 (cg_grantId c) = Some h \<and> grant_progress g h"
proof -
  have rec: "grantRow db1 (cg_grantId c) = Some g"
    "\<exists>u\<in>set (adb_usage db1). us_id u = the (cg_usageId c) \<and> us_grantId u = cg_grantId c"
    using consume_recorded [OF assms(1,2)] by blast+
  then have "\<exists>u\<in>set (adb_usage db2). us_id u = the (cg_usageId c) \<and> us_grantId u = cg_grantId c"
    using usage_grows [OF assms(3)] by blast
  moreover have "truthy (cg_usageId c)" using assms(2) by (simp add: metered_def)
  ultimately have "db3 = db2 \<and> grantRow db2 (cg_grantId c) = Some h" using consume_replay [OF assms(4)] by blast
  then show ?thesis using grant_history [OF assms(3) rec(1)] by auto
qed

section \<open>A concrete history\<close>

definition example_intent :: action_intent where
  "example_intent = \<lparr>ai_id = ''intent-1'', ai_ownerId = ''owner-1'', ai_agentId = ''agent-1'', ai_runId = ''run-1'',
     ai_capabilityRef = ''mail'', ai_operation = ''send'', ai_resourceRef = ''mailbox:1'',
     ai_dataClassification = class_private, ai_sideEffect = effect_irreversible, ai_estimatedCostMicros = 40,
     ai_frequency = \<lparr>fq_count = 1, fq_intervalMs = None\<rparr>, ai_idempotencyKey = ''key-1'', ai_reversible = False,
     ai_requestedAt = ''2024-01-01T00:00:00.000Z'', ai_governed = None\<rparr>"

definition example_approval :: approval_request where
  "example_approval = \<lparr>ar_policyAuthorization = None, ar_id = ''approval-1'', ar_revision = 1, ar_ownerId = ''owner-1'',
     ar_agentId = ''agent-1'', ar_runId = ''run-1'', ar_intentId = ''intent-1'', ar_intentSnapshot = example_intent,
     ar_semanticSnapshotHash = ''hash'', ar_status = ap_pending, ar_deliveryState = deliverable,
     ar_requestedAt = ''2024-01-01T00:00:00.000Z'', ar_expiresAt = ''2024-01-02T00:00:00.000Z'',
     ar_decidedAt = None, ar_grantId = None, ar_governed = None, ar_recentAuthenticationRef = None\<rparr>"

definition example_grant :: grant_record where
  "example_grant = \<lparr>gr_id = ''grant-1'', gr_revision = 1, gr_ownerId = ''owner-1'', gr_agentId = ''agent-1'',
     gr_kind = long_term, gr_scope = exactScope example_intent, gr_intentFingerprint = None,
     gr_sourceApprovalRequestId = ''approval-1'', gr_validFrom = ''2024-01-01T00:00:00.000Z'',
     gr_expiresAt = ''2024-02-01T00:00:00.000Z'', gr_maxUses = 2, gr_uses = 0, gr_maxTotalCostMicros = 100,
     gr_spentCostMicros = 0, gr_revokedAt = None, gr_revocationReasonCode = None\<rparr>"

definition example_db :: authz_db where
  "example_db = (empty_authz_db
     [\<lparr>rr_id = ''run-1'', rr_ownerId = ''owner-1'', rr_agentId = ''agent-1'', rr_sessionId = ''session-1'', rr_threadId = None\<rparr>])
     \<lparr>adb_approvals := [example_approval]\<rparr>"

definition example_resolution :: resolve_approval_input where
  "example_resolution = \<lparr>ra_approvalRequestId = ''approval-1'', ra_expectedRevision = 1, ra_semanticSnapshotHash = ''hash'',
     ra_resolution = res_approved, ra_decidedAt = ''2024-01-01T00:00:01.000Z'', ra_grant = Some example_grant,
     ra_recentAuthenticationRef = None\<rparr>"

definition example_consumption :: consume_grant_input where
  "example_consumption = \<lparr>cg_grantId = ''grant-1'', cg_expectedRevision = 1, cg_costMicros = 40,
     cg_consumedAt = ''2024-01-01T00:00:02.000Z'', cg_usageId = Some ''usage-1'', cg_intentId = Some ''intent-1'',
     cg_runId = Some ''run-1'', cg_operation = Some ''send''\<rparr>"

lemmas example_defs = example_intent_def example_approval_def example_grant_def example_db_def empty_authz_db_def
  example_resolution_def example_consumption_def exactScope_def

definition example_db1 :: authz_db where
  "example_db1 = (case resolveApproval example_db example_resolution of Inl _ \<Rightarrow> example_db | Inr (d, _) \<Rightarrow> d)"

definition example_db2 :: authz_db where
  "example_db2 = (case consumeGrant example_db1 example_consumption of Inl _ \<Rightarrow> example_db1 | Inr (d, _) \<Rightarrow> d)"

lemma example_resolve: "\<exists>a. resolveApproval example_db example_resolution = Inr (example_db1, a)"
proof -
  have "\<not> isl (resolveApproval example_db example_resolution)" by code_simp
  then show ?thesis by (rule not_islE) (simp add: example_db1_def)
qed

lemma example_db_ok: "authz_inv example_db" "ledger_ok example_db"
  by (simp_all add: authz_inv_def ledger_ok_def example_defs grantRow_def)

lemma example_db1_grant: "grantRow example_db1 ''grant-1'' = Some example_grant"
  by code_simp

lemma example_consume: "\<exists>g. consumeGrant example_db1 example_consumption = Inr (example_db2, g)"
proof -
  have "\<not> isl (consumeGrant example_db1 example_consumption)" by code_simp
  then show ?thesis by (rule not_islE) (simp add: example_db2_def)
qed

lemma example_step1: "authz_step True example_db example_db1"
proof -
  obtain a where "resolveApproval example_db example_resolution = Inr (example_db1, a)" using example_resolve by blast
  then show ?thesis by (rule authz_step.resolve) (simp add: fresh_grant_def example_defs)
qed

lemma example_step2: "authz_step True example_db1 example_db2"
proof -
  obtain g where "consumeGrant example_db1 example_consumption = Inr (example_db2, g)" using example_consume by blast
  then show ?thesis by (rule authz_step.consume) (simp add: metered_def example_defs)
qed

theorem grants_never_widened_witness:
  "\<exists>g'. grantRow example_db2 ''grant-1'' = Some g' \<and> same_terms example_grant g' \<and> within_budget g' \<and>
     gr_uses example_grant \<le> gr_uses g'"
  using grants_never_widened [of True example_db1 example_db2 "''grant-1''" example_grant]
    example_step2 example_db1_grant authz_step_inv [OF example_step1 example_db_ok(1)] by blast

theorem usage_ledger_exact_witness:
  "gr_uses (the (grantRow example_db2 ''grant-1'')) = int (length (usage_for example_db2 ''grant-1''))"
proof -
  have "(authz_step True)\<^sup>*\<^sup>* example_db example_db2" using example_step1 example_step2 by simp
  moreover obtain g where "grantRow example_db2 ''grant-1'' = Some g"
    using grant_step [OF example_step2 example_db1_grant] by blast
  ultimately show ?thesis using usage_ledger_exact [of example_db example_db2 "''grant-1''" g] example_db_ok by simp
qed

theorem approval_decided_once_witness: "\<exists>e. resolveApproval example_db1 example_resolution = Inl e"
proof -
  obtain a where "resolveApproval example_db example_resolution = Inr (example_db1, a)" using example_resolve by blast
  from approval_decided_once [OF this rtranclp.rtrancl_refl [of "authz_step True"] refl] show ?thesis by blast
qed

theorem consume_retry_free_witness:
  "\<exists>g h. consumeGrant example_db1 example_consumption = Inr (example_db2, g) \<and>
     consumeGrant example_db2 example_consumption = Inr (example_db2, h) \<and> grant_progress g h"
proof -
  obtain g where g: "consumeGrant example_db1 example_consumption = Inr (example_db2, g)" using example_consume by blast
  have m: "metered example_consumption" by (simp add: metered_def example_defs)
  obtain db3 h where h: "consumeGrant example_db2 example_consumption = Inr (db3, h)"
  proof (rule not_islE)
    show "\<not> isl (consumeGrant example_db2 example_consumption)" by code_simp
  qed
  from consume_retry_free [OF g m rtranclp.rtrancl_refl [of "authz_step True"] h] g h show ?thesis by auto
qed

end
