(* ===== verification/Permission_Service.thy ===== *)
theory Permission_Service
  imports Authorization_Store
begin

text \<open>
  The class \<open>PermissionService\<close> of \<open>packages/application/src/services/permission-service.ts\<close> on top of the
  authorization store.

  The methods of the class are asynchronous: between two store calls other clients may change the
  store. \<open>env n\<close> is what they do before the \<open>n\<close>-th store call of a method after its first; a theorem that
  quantifies over it holds for every interleaving in which each \<open>env n\<close> is a sequence of store
  operations. \<open>clk n\<close> is the value of the \<open>n\<close>-th call of the clock, and the identifiers drawn from the
  generator are arguments.
\<close>

record permission_evaluation_options =
  eo_uiAvailable :: bool
  eo_approvalExpiresAt :: string

datatype decision_basis = basis_policy string | basis_grant string

datatype permission_decision =
    decision_ALLOW decision_basis grant_scope
  | decision_ASK approval_request
  | decision_DENY string bool

type_synonym authz_env = "nat \<Rightarrow> authz_db \<Rightarrow> authz_db"

text \<open>A method's outcome: the store it leaves and its result or error.\<close>

definition expire :: "authz_db \<Rightarrow> approval_request \<Rightarrow> string \<Rightarrow> (authz_db \<times> approval_request) result" where
  "expire db current now = resolveApproval db
     \<lparr>ra_approvalRequestId = ar_id current, ra_expectedRevision = ar_revision current,
      ra_semanticSnapshotHash = ar_semanticSnapshotHash current, ra_resolution = res_expired,
      ra_decidedAt = now, ra_grant = None, ra_recentAuthenticationRef = None\<rparr>"

definition new_approval :: "action_intent \<Rightarrow> permission_evaluation_options \<Rightarrow> string \<Rightarrow> string \<Rightarrow> approval_request" where
  "new_approval i opts approvalId now =
     \<lparr>ar_policyAuthorization = None, ar_id = approvalId, ar_revision = 1, ar_ownerId = ai_ownerId i,
      ar_agentId = ai_agentId i, ar_runId = ai_runId i, ar_intentId = ai_id i, ar_intentSnapshot = i,
      ar_semanticSnapshotHash = actionIntentFingerprint i, ar_status = ap_pending,
      ar_deliveryState = (if eo_uiAvailable opts then deliverable else queued_no_ui),
      ar_requestedAt = now, ar_expiresAt = eo_approvalExpiresAt opts, ar_decidedAt = None, ar_grantId = None,
      ar_governed = None, ar_recentAuthenticationRef = None\<rparr>"

definition component_error :: "authz_db \<Rightarrow> authz_db \<times> permission_decision" where
  "component_error db = (db, decision_DENY ''permission_component_error'' False)"

text \<open>The tail of \<open>evaluate\<close>, after no grant covered the intent and no rule decided it.\<close>

definition evaluate_approval :: "authz_env \<Rightarrow> (nat \<Rightarrow> string) \<Rightarrow> string \<Rightarrow> authz_db \<Rightarrow> action_intent \<Rightarrow>
    permission_evaluation_options \<Rightarrow> string \<Rightarrow> authz_db \<times> permission_decision" where
  "evaluate_approval env clk approvalId db i opts now =
     (let db1 = env 1 db; existing = findApprovalByIntent db1 (ai_id i);
          create = (if eo_approvalExpiresAt opts \<le> now then (db1, decision_DENY ''approval_expiry_invalid'' True)
            else case createApproval (env 2 db1) (new_approval i opts approvalId now) of
              Inl _ \<Rightarrow> component_error (env 2 db1)
            | Inr (db2, stored) \<Rightarrow> (db2, decision_ASK stored))
      in case existing of
           None \<Rightarrow> create
         | Some a \<Rightarrow>
             (case ar_status a of
                ap_pending \<Rightarrow>
                  if now \<ge> ar_expiresAt a
                  then (case expire (env 2 db1) a (clk 1) of
                          Inl _ \<Rightarrow> component_error (env 2 db1)
                        | Inr (db2, _) \<Rightarrow> (db2, decision_DENY ''approval_expired'' True))
                  else (db1, decision_ASK a)
              | ap_expired \<Rightarrow> (db1, decision_DENY ''approval_expired'' True)
              | ap_denied \<Rightarrow> (db1, decision_DENY ''approval_denied'' True)
              | ap_approved \<Rightarrow> create))"

definition evaluate_consumption :: "action_intent \<Rightarrow> grant_record \<Rightarrow> string \<Rightarrow> consume_grant_input" where
  "evaluate_consumption i g now =
     \<lparr>cg_grantId = gr_id g, cg_expectedRevision = gr_revision g, cg_costMicros = ai_estimatedCostMicros i,
      cg_consumedAt = now, cg_usageId = None, cg_intentId = None, cg_runId = None, cg_operation = None\<rparr>"

definition evaluate :: "authz_env \<Rightarrow> (nat \<Rightarrow> string) \<Rightarrow> string \<Rightarrow> permission_policy \<Rightarrow> authz_db \<Rightarrow> action_intent \<Rightarrow>
    permission_evaluation_options \<Rightarrow> authz_db \<times> permission_decision" where
  "evaluate env clk approvalId policy db i opts =
     (let now = clk 0; grants = listGrants db (ai_ownerId i) (ai_agentId i)
      in case List.find (\<lambda>g. grantCoversIntent g i now) grants of
           Some g \<Rightarrow>
             (case consumeGrant (env 1 db) (evaluate_consumption i g now) of
                Inl _ \<Rightarrow> component_error (env 1 db)
              | Inr (db2, consumed) \<Rightarrow>
                  (db2, decision_ALLOW (basis_grant (gr_id consumed)) (gr_scope consumed)))
         | None \<Rightarrow>
             (case List.find (\<lambda>r. pr_effect r = rule_DENY \<and> matchesRule r i) (pp_rules policy) of
                Some denied \<Rightarrow> (db, decision_DENY (pr_reasonCode denied) False)
              | None \<Rightarrow>
                  (case List.find (\<lambda>r. pr_effect r = rule_ALLOW \<and> matchesRule r i) (pp_rules policy) of
                     Some allowed \<Rightarrow> (db, decision_ALLOW (basis_policy (pr_id allowed)) (exactScope i))
                   | None \<Rightarrow> evaluate_approval env clk approvalId db i opts now)))"

datatype approval_response =
    respond_denied
  | respond_one_time
  | respond_long_term long_term_grant_scope

definition requireApproval :: "authz_db \<Rightarrow> string \<Rightarrow> approval_request result" where
  "requireApproval db approvalRequestId =
     (case approvalRow db approvalRequestId of None \<Rightarrow> port_fail NOT_FOUND | Some a \<Rightarrow> Inr a)"

definition createGrant :: "approval_request \<Rightarrow> long_term_grant_scope option \<Rightarrow> string \<Rightarrow> string \<Rightarrow> grant_record result" where
  "createGrant approval longTerm grantId now =
     (let i = ar_intentSnapshot approval;
          scope = (case longTerm of None \<Rightarrow> exactScope i | Some s \<Rightarrow> longTermScope s);
          expiresAt = (case longTerm of None \<Rightarrow> ar_expiresAt approval | Some s \<Rightarrow> lt_expiresAt s);
          maxUses = (case longTerm of None \<Rightarrow> 1 | Some s \<Rightarrow> lt_maxUses s);
          maxTotalCostMicros = (case longTerm of None \<Rightarrow> ai_estimatedCostMicros i | Some s \<Rightarrow> lt_maxTotalCostMicros s)
      in if expiresAt \<le> now \<or> maxUses < 1 \<or> maxTotalCostMicros < 0 then port_fail INVALID_OPERATION
         else Inr \<lparr>gr_id = grantId, gr_revision = 1, gr_ownerId = ar_ownerId approval, gr_agentId = ar_agentId approval,
           gr_kind = (case longTerm of None \<Rightarrow> one_time | Some _ \<Rightarrow> long_term), gr_scope = scope,
           gr_intentFingerprint = (case longTerm of None \<Rightarrow> Some (actionIntentFingerprint i) | Some _ \<Rightarrow> None),
           gr_sourceApprovalRequestId = ar_id approval, gr_validFrom = now, gr_expiresAt = expiresAt,
           gr_maxUses = maxUses, gr_uses = 0, gr_maxTotalCostMicros = maxTotalCostMicros,
           gr_spentCostMicros = 0, gr_revokedAt = None, gr_revocationReasonCode = None\<rparr>)"

definition approve_with :: "authz_db \<Rightarrow> approval_request \<Rightarrow> string \<Rightarrow> long_term_grant_scope option \<Rightarrow> string \<Rightarrow> string \<Rightarrow>
    (authz_db \<times> approval_request) result" where
  "approve_with db current hash longTerm grantId now =
     (case createGrant current longTerm grantId now of
        Inl e \<Rightarrow> Inl e
      | Inr g \<Rightarrow>
          if \<not> grantCoversIntent g (ar_intentSnapshot current) now then port_fail INVALID_OPERATION
          else resolveApproval db
            \<lparr>ra_approvalRequestId = ar_id current, ra_expectedRevision = ar_revision current,
             ra_semanticSnapshotHash = hash, ra_resolution = res_approved,
             ra_decidedAt = now, ra_grant = Some g, ra_recentAuthenticationRef = None\<rparr>)"

definition respond :: "authz_env \<Rightarrow> (nat \<Rightarrow> string) \<Rightarrow> string \<Rightarrow> authz_db \<Rightarrow> string \<Rightarrow> string \<Rightarrow> approval_response \<Rightarrow>
    (authz_db \<times> approval_request) result" where
  "respond env clk grantId db approvalRequestId hash response =
     (case requireApproval db approvalRequestId of
        Inl e \<Rightarrow> Inl e
      | Inr current \<Rightarrow>
          let now = clk 0; db1 = env 1 db
          in if ar_status current \<noteq> ap_pending then port_fail INVALID_OPERATION
             else if ar_semanticSnapshotHash current \<noteq> hash then port_fail CONFLICT
             else if now \<ge> ar_expiresAt current then expire db1 current (clk 1)
             else (case response of
                     respond_denied \<Rightarrow> resolveApproval db1
                       \<lparr>ra_approvalRequestId = ar_id current, ra_expectedRevision = ar_revision current,
                        ra_semanticSnapshotHash = hash, ra_resolution = res_denied,
                        ra_decidedAt = now, ra_grant = None, ra_recentAuthenticationRef = None\<rparr>
                   | respond_one_time \<Rightarrow> approve_with db1 current hash None grantId now
                   | respond_long_term s \<Rightarrow> approve_with db1 current hash (Some s) grantId now))"

definition resume :: "authz_env \<Rightarrow> (nat \<Rightarrow> string) \<Rightarrow> authz_db \<Rightarrow> string \<Rightarrow> (authz_db \<times> approval_request) result" where
  "resume env clk db approvalRequestId =
     (case requireApproval db approvalRequestId of
        Inl e \<Rightarrow> Inl e
      | Inr current \<Rightarrow>
          if ar_status current = ap_pending \<and> clk 0 \<ge> ar_expiresAt current then expire (env 1 db) current (clk 1)
          else Inr (db, current))"

section \<open>The service acts through the store\<close>

definition interference :: "authz_env \<Rightarrow> bool" where
  "interference env \<longleftrightarrow> (\<forall>n db. (authz_step False)\<^sup>*\<^sup>* db (env n db))"

lemma interferenceD: "interference env \<Longrightarrow> (authz_step False)\<^sup>*\<^sup>* db (env n db)"
  by (simp add: interference_def)

lemma interference_step: "interference env \<Longrightarrow> (authz_step False)\<^sup>*\<^sup>* db db1 \<Longrightarrow> (authz_step False)\<^sup>*\<^sup>* db (env n db1)"
  using interferenceD [of env db1 n] by (rule rtranclp_trans [rotated])

lemma createGrant_fresh: "createGrant a l k now = Inr g \<Longrightarrow> fresh_grant g"
  by (auto simp: createGrant_def fresh_grant_def Let_def split: if_splits option.splits)

lemma expire_step: "expire db a now = Inr (db', b) \<Longrightarrow> authz_step False db db'"
  unfolding expire_def by (rule authz_step.resolve, assumption, simp)

lemma approve_with_step: "approve_with db a h l k now = Inr (db', b) \<Longrightarrow> authz_step False db db'"
  unfolding approve_with_def
  by (auto split: sum.splits if_splits intro!: authz_step.resolve dest: createGrant_fresh)

lemma approve_with_Inr:
  assumes "approve_with db cur h l k now = Inr (db', a)"
  shows "\<exists>inp g. resolveApproval db inp = Inr (db', a) \<and> ra_approvalRequestId inp = ar_id cur \<and>
    ra_expectedRevision inp = ar_revision cur \<and> ra_resolution inp = res_approved \<and> ra_grant inp = Some g \<and>
    createGrant cur l k now = Inr g \<and> grantCoversIntent g (ar_intentSnapshot cur) now"
  using assms unfolding approve_with_def
  by (cases "createGrant cur l k now") (fastforce split: if_splits)+

lemma evaluate_approval_steps:
  assumes "interference env"
  shows "(authz_step False)\<^sup>*\<^sup>* db (fst (evaluate_approval env clk k db i opts now))"
proof -
  have e1: "(authz_step False)\<^sup>*\<^sup>* db (env 1 db)" by (rule interferenceD [OF assms])
  have e2: "(authz_step False)\<^sup>*\<^sup>* db (env 2 (env 1 db))" by (rule interference_step [OF assms e1])
  show ?thesis
    unfolding evaluate_approval_def component_error_def Let_def
    using e1 e2 by (auto simp del: One_nat_def split: option.splits approval_status.splits sum.splits if_splits prod.splits
        intro: rtranclp.rtrancl_into_rtrancl [OF e2] authz_step.create expire_step)
qed

lemma evaluate_steps:
  assumes "interference env"
  shows "(authz_step False)\<^sup>*\<^sup>* db (fst (evaluate env clk k policy db i opts))"
proof -
  have e1: "(authz_step False)\<^sup>*\<^sup>* db (env 1 db)" by (rule interferenceD [OF assms])
  show ?thesis
    unfolding evaluate_def component_error_def Let_def
    using e1 evaluate_approval_steps [OF assms]
    by (auto simp del: One_nat_def split: option.splits sum.splits prod.splits
        intro: rtranclp.rtrancl_into_rtrancl [OF e1] authz_step.consume)
qed

lemma respond_steps:
  assumes "interference env" and "respond env clk k db aid h r = Inr (db', a)"
  shows "(authz_step False)\<^sup>*\<^sup>* db db'"
proof -
  have e1: "(authz_step False)\<^sup>*\<^sup>* db (env 1 db)" by (rule interferenceD [OF assms(1)])
  have "authz_step False (env 1 db) db'"
    using assms(2) unfolding respond_def Let_def
    by (auto split: sum.splits if_splits approval_response.splits
        intro: expire_step approve_with_step authz_step.resolve)
  with e1 show ?thesis by (rule rtranclp.rtrancl_into_rtrancl)
qed

lemma listGrants_row:
  assumes "authz_inv db" "g \<in> set (listGrants db ow ag)"
  shows "grantRow db (gr_id g) = Some g"
  using assms by (simp add: listGrants_def authz_inv_def grantRow_def row_of_eq_iff)

lemma covers_consumable: "grantCoversIntent g i now \<Longrightarrow> grant_consumable g (evaluate_consumption i g now)"
  by (auto simp: grantCoversIntent_def grant_consumable_def evaluate_consumption_def)

section \<open>Properties\<close>

text \<open>
  C2. Check-then-act is safe. If \<open>evaluate\<close> allows an intent on the strength of a grant, then, whatever
  other clients did between reading the grants and consuming one, the grant consumed is the very row
  that was checked: it covered the intent at the time of the decision, it was charged exactly one use
  and the intent's cost, and it stays within its budgets. If it allows on the strength of the policy,
  the store is untouched, no grant covered the intent, a matching rule allows it and no matching rule
  denies it.
\<close>

theorem evaluate_allow_sound:
  assumes "interference env" and "authz_inv db"
    and "evaluate env clk k policy db i opts = (db', decision_ALLOW basis scope)"
  shows "case basis of
      basis_grant gid \<Rightarrow> \<exists>g. grantRow db gid = Some g \<and> grantCoversIntent g i (clk 0) \<and>
        grantRow (env 1 db) gid = Some g \<and> scope = gr_scope g \<and>
        grantRow db' gid = Some (g\<lparr>gr_revision := gr_revision g + 1, gr_uses := gr_uses g + 1,
          gr_spentCostMicros := gr_spentCostMicros g + ai_estimatedCostMicros i\<rparr>) \<and>
        gr_uses g + 1 \<le> gr_maxUses g \<and>
        gr_spentCostMicros g + ai_estimatedCostMicros i \<le> gr_maxTotalCostMicros g
    | basis_policy rid \<Rightarrow> db' = db \<and> scope = exactScope i \<and>
        (\<forall>g\<in>set (listGrants db (ai_ownerId i) (ai_agentId i)). \<not> grantCoversIntent g i (clk 0)) \<and>
        (\<exists>r\<in>set (pp_rules policy). pr_id r = rid \<and> pr_effect r = rule_ALLOW \<and> matchesRule r i) \<and>
        (\<forall>r\<in>set (pp_rules policy). pr_effect r = rule_DENY \<longrightarrow> \<not> matchesRule r i)"
proof (cases "List.find (\<lambda>g. grantCoversIntent g i (clk 0)) (listGrants db (ai_ownerId i) (ai_agentId i))")
  case None
  then have no: "\<forall>g\<in>set (listGrants db (ai_ownerId i) (ai_agentId i)). \<not> grantCoversIntent g i (clk 0)"
    by (auto simp: find_None_iff)
  show ?thesis
  proof (cases "List.find (\<lambda>r. pr_effect r = rule_DENY \<and> matchesRule r i) (pp_rules policy)")
    case nd: None
    show ?thesis
    proof (cases "List.find (\<lambda>r. pr_effect r = rule_ALLOW \<and> matchesRule r i) (pp_rules policy)")
      case na: None
      then show ?thesis using assms(3) None nd
        by (auto simp: evaluate_def evaluate_approval_def component_error_def Let_def
            split: option.splits approval_status.splits if_splits sum.splits prod.splits)
    next
      case (Some r)
      then show ?thesis using assms(3) None nd no find_SomeD [OF Some]
        by (auto simp: evaluate_def Let_def find_None_iff)
    qed
  next
    case (Some r)
    then show ?thesis using assms(3) None by (simp add: evaluate_def Let_def)
  qed
next
  case (Some g)
  note c = find_SomeD [OF Some]
  then have row: "grantRow db (gr_id g) = Some g" using listGrants_row [OF assms(2)] by blast
  from assms(3) Some obtain cons where
    cg: "consumeGrant (env 1 db) (evaluate_consumption i g (clk 0)) = Inr (db', cons)"
    and res: "basis = basis_grant (gr_id cons)" "scope = gr_scope cons"
    by (auto simp: evaluate_def component_error_def Let_def split: sum.splits prod.splits)
  from cg show ?thesis
  proof (cases rule: consumeGrant_Inr)
    case (use cur)
    have "cur = g"
      using grants.same_revision_same_row [OF interferenceD [OF assms(1)] row] use(1,2)
      by (simp add: evaluate_consumption_def)
    moreover have "gr_id cons = gr_id g" using use(4) \<open>cur = g\<close> by (simp add: consumed_grant_def)
    ultimately show ?thesis
      using res row c use(1,4) grantRow_put [OF use(5)]
      by (auto simp: consumed_grant_def evaluate_consumption_def grantCoversIntent_def)
  qed (simp add: evaluate_consumption_def)
qed

text \<open>
  A one-time approval authorises one use of one intent. The grant that a one-time approval creates
  covers only intents with the fingerprint of the approved one, on the same capability, operation and
  resource and at no greater cost; it covers the approved intent itself; and after one consumption it
  covers nothing at any time.
\<close>

theorem one_time_grant_exact:
  assumes "createGrant a None k now = Inr g" and "ar_ownerId a = ai_ownerId (ar_intentSnapshot a)"
    and "ar_agentId a = ai_agentId (ar_intentSnapshot a)"
  shows "grantCoversIntent g (ar_intentSnapshot a) now \<and>
    (\<forall>j t. grantCoversIntent g j t \<longrightarrow>
       actionIntentFingerprint j = actionIntentFingerprint (ar_intentSnapshot a) \<and>
       ai_capabilityRef j = ai_capabilityRef (ar_intentSnapshot a) \<and>
       ai_operation j = ai_operation (ar_intentSnapshot a) \<and>
       ai_resourceRef j = ai_resourceRef (ar_intentSnapshot a) \<and>
       ai_estimatedCostMicros j \<le> ai_estimatedCostMicros (ar_intentSnapshot a) \<and>
       now \<le> t \<and> t < ar_expiresAt a) \<and>
    (\<forall>c j t. \<not> grantCoversIntent (consumed_grant g c) j t)"
proof -
  have g: "gr_scope g = exactScope (ar_intentSnapshot a)" "gr_uses g = 0" "gr_maxUses g = 1"
    "gr_intentFingerprint g = Some (actionIntentFingerprint (ar_intentSnapshot a))"
    "gr_validFrom g = now" "gr_expiresAt g = ar_expiresAt a" "now < ar_expiresAt a" "gr_spentCostMicros g = 0"
    "gr_maxTotalCostMicros g = ai_estimatedCostMicros (ar_intentSnapshot a)" "gr_revokedAt g = None"
    "gr_ownerId g = ar_ownerId a" "gr_agentId g = ar_agentId a"
    using assms(1) by (auto simp: createGrant_def Let_def split: if_splits)
  have s: "sc_capabilityRef (exactScope i) = ai_capabilityRef i" "sc_operations (exactScope i) = [ai_operation i]"
    "sc_maxDataClassification (exactScope i) = ai_dataClassification i"
    "sc_sideEffects (exactScope i) = [ai_sideEffect i]"
    "sc_maxCostMicrosPerUse (exactScope i) = ai_estimatedCostMicros i" for i
    by (simp_all add: exactScope_def)
  show ?thesis
    using assms(2,3) by (auto simp: grantCoversIntent_def g s consumed_grant_def)
qed

text \<open>
  Answering an approval. An answer succeeds only on an approval that was pending with the presented
  hash when it was read, and, whatever happened in between, replaces exactly that row. A denial or a
  late answer leaves the grants as they were when the answer was stored; an approval in time stores one
  fresh grant that names the approval as its source and covers the approved intent.
\<close>

theorem respond_outcome:
  assumes "interference env" and "respond env clk k db aid h r = Inr (db', a)"
  shows "\<exists>cur. approvalRow db aid = Some cur \<and> approvalRow (env 1 db) aid = Some cur \<and>
    ar_status cur = ap_pending \<and> ar_semanticSnapshotHash cur = h \<and> approvalRow db' aid = Some a \<and>
    ar_revision a = ar_revision cur + 1 \<and>
    (if clk 0 \<ge> ar_expiresAt cur then ar_status a = ap_expired \<and> adb_grants db' = adb_grants (env 1 db)
     else if r = respond_denied then ar_status a = ap_denied \<and> adb_grants db' = adb_grants (env 1 db)
     else ar_status a = ap_approved \<and> ar_grantId a = Some k \<and>
       (\<exists>g. adb_grants db' = adb_grants (env 1 db) @ [g] \<and> gr_id g = k \<and> fresh_grant g \<and>
          gr_sourceApprovalRequestId g = aid \<and> grantCoversIntent g (ar_intentSnapshot cur) (clk 0)))"
proof -
  from assms(2) obtain cur where cur: "approvalRow db aid = Some cur" "ar_status cur = ap_pending"
    "ar_semanticSnapshotHash cur = h"
    by (auto simp: respond_def requireApproval_def Let_def split: option.splits if_splits)
  have id: "ar_id cur = aid" using approvalRow_id [OF cur(1)] by simp
  let ?late = "clk 0 \<ge> ar_expiresAt cur"
  have "\<exists>inp. resolveApproval (env 1 db) inp = Inr (db', a) \<and> ra_approvalRequestId inp = aid \<and>
    ra_expectedRevision inp = ar_revision cur \<and>
    (if ?late then ra_resolution inp = res_expired \<and> ra_grant inp = None
     else if r = respond_denied then ra_resolution inp = res_denied \<and> ra_grant inp = None
     else ra_resolution inp = res_approved \<and> (\<exists>g l. ra_grant inp = Some g \<and>
       createGrant cur l k (clk 0) = Inr g \<and> grantCoversIntent g (ar_intentSnapshot cur) (clk 0)))"
  proof (cases ?late)
    case True
    then have "expire (env 1 db) cur (clk 1) = Inr (db', a)"
      using assms(2) cur by (simp add: respond_def requireApproval_def Let_def)
    then show ?thesis using True id unfolding expire_def by - (intro exI conjI, assumption, simp_all)
  next
    case False
    then show ?thesis
    proof (cases r)
      case respond_denied
      then show ?thesis using False assms(2) cur id
        by (simp add: respond_def requireApproval_def Let_def) (intro exI conjI, assumption, simp_all)
    next
      case respond_one_time
      then have "approve_with (env 1 db) cur h None k (clk 0) = Inr (db', a)"
        using False assms(2) cur by (simp add: respond_def requireApproval_def Let_def)
      from approve_with_Inr [OF this] False respond_one_time id show ?thesis by auto
    next
      case (respond_long_term s)
      then have "approve_with (env 1 db) cur h (Some s) k (clk 0) = Inr (db', a)"
        using False assms(2) cur by (simp add: respond_def requireApproval_def Let_def)
      from approve_with_Inr [OF this] False respond_long_term id show ?thesis by auto
    qed
  qed
  then obtain inp where inp: "resolveApproval (env 1 db) inp = Inr (db', a)"
    "ra_approvalRequestId inp = aid" "ra_expectedRevision inp = ar_revision cur"
    "if ?late then ra_resolution inp = res_expired \<and> ra_grant inp = None
     else if r = respond_denied then ra_resolution inp = res_denied \<and> ra_grant inp = None
     else ra_resolution inp = res_approved \<and> (\<exists>g l. ra_grant inp = Some g \<and>
       createGrant cur l k (clk 0) = Inr g \<and> grantCoversIntent g (ar_intentSnapshot cur) (clk 0))"
    by blast
  from inp(1) show ?thesis
  proof (rule resolveApproval_Inr)
    fix cur'
    assume h: "approvalRow (env 1 db) (ra_approvalRequestId inp) = Some cur'" "ar_revision cur' = ra_expectedRevision inp"
      "a = resolved_approval cur' inp" "adb_approvals db' = put_row ar_id a (adb_approvals (env 1 db))"
      "adb_grants db' = adb_grants (env 1 db) @ (case ra_grant inp of None \<Rightarrow> [] | Some g \<Rightarrow> [g])"
    have eq: "cur' = cur"
      using approvals.same_revision_same_row [OF interferenceD [OF assms(1)] cur(1)] h(1,2) inp(2,3) by simp
    have "ar_id a = aid" using h(3) eq id by (simp add: resolved_approval_def)
    then have row: "approvalRow db' aid = Some a" using h(4) by (simp add: approvalRow_def row_of_put_row)
    have g: "gr_id g = k \<and> gr_sourceApprovalRequestId g = aid \<and> fresh_grant g"
      if "createGrant cur l k (clk 0) = Inr g" for g l
      using that createGrant_fresh [OF that] id by (auto simp: createGrant_def Let_def split: if_splits)
    show ?thesis
      using cur row h(1,3,5) inp(2,4) eq g
      by (intro exI [of _ cur]) (auto simp: resolved_approval_def split: if_splits)
  qed
qed

text \<open>
  \<open>PermissionService\<close> consults grants before policy rules: when some grant covers the intent, the
  decision and the store it leaves do not depend on the policy at all, so a matching deny rule does not
  prevent the intent from being allowed.
\<close>

theorem grant_precedes_policy:
  assumes "g \<in> set (listGrants db (ai_ownerId i) (ai_agentId i))" and "grantCoversIntent g i (clk 0)"
  shows "evaluate env clk k policy db i opts = evaluate env clk k policy' db i opts"
proof -
  obtain h where "List.find (\<lambda>g. grantCoversIntent g i (clk 0)) (listGrants db (ai_ownerId i) (ai_agentId i)) = Some h"
    using assms by (cases "List.find (\<lambda>g. grantCoversIntent g i (clk 0)) (listGrants db (ai_ownerId i) (ai_agentId i))")
      (auto simp: find_None_iff)
  then show ?thesis by (simp add: evaluate_def Let_def)
qed

section \<open>Witnesses\<close>

definition example_clk :: "nat \<Rightarrow> string" where
  "example_clk n = ''2024-01-01T00:00:02.000Z''"

definition example_options :: permission_evaluation_options where
  "example_options = \<lparr>eo_uiAvailable = True, eo_approvalExpiresAt = ''2024-01-01T01:00:00.000Z''\<rparr>"

lemma interference_id: "interference (\<lambda>n db. db)"
  by (simp add: interference_def)

theorem evaluate_allow_sound_witness:
  "\<exists>g db'. evaluate (\<lambda>n db. db) example_clk ''approval-2'' \<lparr>pp_version = ''1'', pp_rules = []\<rparr> example_db1 example_intent
        example_options = (db', decision_ALLOW (basis_grant ''grant-1'') (gr_scope g)) \<and>
     grantRow example_db1 ''grant-1'' = Some g \<and>
     grantRow db' ''grant-1'' = Some (g\<lparr>gr_revision := gr_revision g + 1, gr_uses := gr_uses g + 1,
          gr_spentCostMicros := gr_spentCostMicros g + ai_estimatedCostMicros example_intent\<rparr>)"
proof -
  let ?e = "evaluate (\<lambda>n db. db) example_clk ''approval-2'' \<lparr>pp_version = ''1'', pp_rules = []\<rparr> example_db1 example_intent
        example_options"
  have "snd ?e = decision_ALLOW (basis_grant ''grant-1'') (gr_scope example_grant)" by code_simp
  then have e: "?e = (fst ?e, decision_ALLOW (basis_grant ''grant-1'') (gr_scope example_grant))"
    by (metis prod.collapse)
  have "authz_inv example_db1" using authz_step_inv [OF example_step1 example_db_ok(1)] .
  from evaluate_allow_sound [OF interference_id this e] e show ?thesis by auto
qed

theorem one_time_grant_exact_witness:
  "\<exists>g. createGrant example_approval None ''grant-2'' ''2024-01-01T00:00:02.000Z'' = Inr g \<and>
     grantCoversIntent g example_intent ''2024-01-01T00:00:02.000Z''"
proof -
  obtain g where g: "createGrant example_approval None ''grant-2'' ''2024-01-01T00:00:02.000Z'' = Inr g"
    by (simp add: createGrant_def Let_def example_approval_def example_intent_def)
  have "ar_ownerId example_approval = ai_ownerId (ar_intentSnapshot example_approval)"
    "ar_agentId example_approval = ai_agentId (ar_intentSnapshot example_approval)"
    by (simp_all add: example_approval_def example_intent_def)
  from one_time_grant_exact [OF g this] g show ?thesis by (simp add: example_approval_def)
qed

end
