(* ===== verification/Action_Policy.thy ===== *)
theory Action_Policy
  imports Permission_Service
begin

text \<open>
  The governed authorization services of \<open>packages/application/src/services\<close>: the risk floor and the
  policy evaluation of \<open>action-policy-service.ts\<close>, the creation and use of grants of \<open>grant-service.ts\<close>,
  and the answering of approvals of \<open>approval-service.ts\<close>.

  Ports that are not part of the development are arguments: \<open>inspect\<close> is the outcome of reading the
  capability facts (or its failure), \<open>trace\<close> the outcome of recording a decision. \<open>evaluate\<close> returns
  \<open>this.finish(..)\<close> and \<open>this.existingApproval(..)\<close> without awaiting them inside its \<open>try\<close>, so a failure
  to record a denial rejects the call, while every other failure is caught and denies.
\<close>

section \<open>Risk\<close>

fun RISK_RANK :: "action_risk_level \<Rightarrow> nat" where
  "RISK_RANK LOW = 0"
| "RISK_RANK MEDIUM = 1"
| "RISK_RANK HIGH = 2"
| "RISK_RANK CRITICAL = 3"

fun ACTION_KIND_RISK_BASELINE :: "action_kind \<Rightarrow> action_risk_level" where
  "ACTION_KIND_RISK_BASELINE READ = LOW"
| "ACTION_KIND_RISK_BASELINE CREATE_OR_UPDATE = MEDIUM"
| "ACTION_KIND_RISK_BASELINE DELETE = HIGH"
| "ACTION_KIND_RISK_BASELINE COMMUNICATE = HIGH"
| "ACTION_KIND_RISK_BASELINE PURCHASE_OR_FUNDS = CRITICAL"
| "ACTION_KIND_RISK_BASELINE CREDENTIAL_OR_ACCESS = CRITICAL"
| "ACTION_KIND_RISK_BASELINE PRODUCTION_OR_RECOVERY = CRITICAL"
| "ACTION_KIND_RISK_BASELINE PUBLICATION = CRITICAL"
| "ACTION_KIND_RISK_BASELINE LEGAL_COMMITMENT = CRITICAL"
| "ACTION_KIND_RISK_BASELINE PHYSICAL_SAFETY = CRITICAL"
| "ACTION_KIND_RISK_BASELINE INSTALL_OR_EXECUTE_CODE = HIGH"

text \<open>\<open>Array.reduce\<close> without an initial value, on a list given by its head and tail.\<close>

definition highestRisk :: "action_risk_level \<Rightarrow> action_risk_level list \<Rightarrow> action_risk_level" where
  "highestRisk r rs = foldl (\<lambda>highest current. if RISK_RANK current > RISK_RANK highest then current else highest) r rs"

definition computeActionRisk :: "action_intent \<Rightarrow> governed_intent_part \<Rightarrow> action_risk_level" where
  "computeActionRisk i g =
     (let facts = map pf_minimumRisk (gi_deterministicFacts g) @
            (if gi_actionKind g = DELETE \<and> \<not> ai_reversible i then [CRITICAL] else []) @
            (if gi_credentialOrAccessChange g then [CRITICAL] else []) @
            (if gi_disclosure g = disc_public then [CRITICAL] else [])
      in highestRisk (ACTION_KIND_RISK_BASELINE (gi_actionKind g))
           (mc_suggestedRisk (gi_modelClassification g) # facts))"

definition requiredText :: "string \<Rightarrow> bool" where
  "requiredText v \<longleftrightarrow> length (trim v) \<noteq> 0"

definition intent_consistent :: "action_intent \<Rightarrow> governed_intent_part \<Rightarrow> bool" where
  "intent_consistent i g \<longleftrightarrow>
     \<not> (length (gi_targets g) = 0 \<or>
        length (gi_resourceRefs g) = 0 \<or>
        ai_resourceRef i \<notin> set (gi_resourceRefs g) \<or>
        list_ex (\<lambda>t. at_type t = [] \<or> at_ref t = []) (gi_targets g) \<or>
        \<not> distinct (gi_resourceRefs g) \<or>
        \<not> distinct (gi_recipients g) \<or>
        fq_count (ai_frequency i) < 1 \<or>
        (case fq_intervalMs (ai_frequency i) of None \<Rightarrow> False | Some n \<Rightarrow> n < 1) \<or>
        ai_estimatedCostMicros i < 0 \<or>
        gi_expiresAt g \<le> ai_requestedAt i)"

text \<open>
  The unknown contracts, kinds, risks and undeclared keys that the source rejects first are not
  representable in the types of an intent. A value without the governed part fails when its model
  classification is read.
\<close>

definition validateGovernedActionIntent :: "action_intent \<Rightarrow> unit result" where
  "validateGovernedActionIntent i = (case ai_governed i of
     None \<Rightarrow> Inl OtherError
   | Some g \<Rightarrow>
       if \<not> list_all requiredText [ai_id i, gi_threadId g, ai_capabilityRef i, gi_capabilityVersion g, ai_operation i,
             ai_resourceRef i, ai_idempotencyKey i, mc_reasonCode (gi_modelClassification g)]
         then port_fail INVALID_OPERATION
       else if \<not> intent_consistent i g then port_fail INVALID_OPERATION
       else if mc_actionKind (gi_modelClassification g) \<noteq> gi_actionKind g then port_fail INVALID_OPERATION
       else if computeActionRisk i g \<noteq> gi_finalRisk g then port_fail NOT_AUTHORITATIVE
       else Inr ())"

definition freezeGovernedActionIntent :: "action_intent \<Rightarrow> action_intent result" where
  "freezeGovernedActionIntent i = (case validateGovernedActionIntent i of Inl e \<Rightarrow> Inl e | Inr _ \<Rightarrow> Inr i)"

section \<open>Capability facts\<close>

datatype capability_registry_lifecycle =
    cap_discovered | cap_review_required | cap_installation_proposed | cap_installation_approved | cap_active
  | cap_update_proposed | cap_update_approved | cap_disabled | cap_revoked | cap_uninstalled

definition capabilityLifecycleHasActiveAuthority :: "capability_registry_lifecycle \<Rightarrow> bool" where
  "capabilityLifecycleHasActiveAuthority l \<longleftrightarrow> l = cap_active \<or> l = cap_update_proposed \<or> l = cap_update_approved"

datatype health_status = hs_healthy | hs_degraded | hs_unhealthy | hs_unknown

record capability_authorization_facts =
  cf_lifecycle :: capability_registry_lifecycle
  cf_healthStatus :: health_status
  cf_version :: string
  cf_operations :: "string list"
  cf_dataClassifications :: "product_data_classification list"

definition capabilityDenial :: "capability_authorization_facts option \<Rightarrow> action_intent \<Rightarrow> governed_intent_part \<Rightarrow> string option" where
  "capabilityDenial facts i g = (case facts of
     None \<Rightarrow> Some ''capability_not_registered''
   | Some f \<Rightarrow>
       if \<not> capabilityLifecycleHasActiveAuthority (cf_lifecycle f) then Some ''capability_not_active''
       else if cf_healthStatus f \<noteq> hs_healthy then Some ''capability_not_healthy''
       else if cf_version f \<noteq> gi_capabilityVersion g then Some ''capability_version_mismatch''
       else if ai_operation i \<notin> set (cf_operations f) then Some ''operation_not_declared''
       else if ai_dataClassification i \<notin> set (cf_dataClassifications f) then Some ''data_scope_not_declared''
       else None)"

section \<open>Evaluation\<close>

definition governedGrantCovers :: "grant_record \<Rightarrow> action_intent \<Rightarrow> governed_intent_part \<Rightarrow> string \<Rightarrow> bool" where
  "governedGrantCovers g i gi now =
     (let replay = gr_intentFingerprint g = Some (actionIntentFingerprint i) \<and> gr_uses g > 0 \<and>
            gr_ownerId g = ai_ownerId i \<and> gr_agentId g = ai_agentId i \<and> gr_revokedAt g = None \<and> now < gr_expiresAt g
      in case sc_governed (gr_scope g) of
           None \<Rightarrow> False
         | Some s \<Rightarrow>
             gs_capabilityVersion s = gi_capabilityVersion gi \<and>
             gs_disclosure s = gi_disclosure gi \<and>
             list_all (\<lambda>r. r \<in> set (gs_recipients s)) (gi_recipients gi) \<and>
             list_all (\<lambda>ref. ref \<in> set (gs_resourceIdentities s) \<or>
               list_ex (\<lambda>prefix. starts_with ref prefix) (sc_resourcePrefixes (gr_scope g))) (gi_resourceRefs gi) \<and>
             (grantCoversIntent g i now \<or> replay))"

definition safePolicyRead :: "permission_policy_rule \<Rightarrow> action_intent \<Rightarrow> governed_intent_part \<Rightarrow> bool" where
  "safePolicyRead rule i g \<longleftrightarrow>
     gi_actionKind g = READ \<and>
     gi_finalRisk g = LOW \<and>
     ai_sideEffect i = effect_none \<and>
     gi_disclosure g = disc_none \<and>
     length (gi_recipients g) = 0 \<and>
     \<not> gi_credentialOrAccessChange g \<and>
     ai_dataClassification i \<noteq> class_sensitive \<and>
     ai_dataClassification i \<noteq> class_restricted \<and>
     ai_capabilityRef i \<in> set (pr_capabilityRefs rule) \<and>
     ai_operation i \<in> set (pr_operations rule) \<and>
     list_all (\<lambda>ref. list_ex (\<lambda>prefix. length prefix > 1 \<and> starts_with ref prefix) (pr_resourcePrefixes rule))
       (gi_resourceRefs g) \<and>
     ai_dataClassification i \<in> set (pr_dataClassifications rule) \<and>
     ai_sideEffect i \<in> set (pr_sideEffects rule) \<and>
     ai_estimatedCostMicros i \<le> pr_maxCostMicros rule"

definition governed_deny_rule :: "permission_policy_rule \<Rightarrow> action_intent \<Rightarrow> governed_intent_part \<Rightarrow> bool" where
  "governed_deny_rule rule i g \<longleftrightarrow>
     pr_effect rule = rule_DENY \<and>
     ai_capabilityRef i \<in> set (pr_capabilityRefs rule) \<and>
     ai_operation i \<in> set (pr_operations rule) \<and>
     list_ex (\<lambda>prefix. list_all (\<lambda>ref. starts_with ref prefix) (gi_resourceRefs g)) (pr_resourcePrefixes rule)"

type_synonym decision_trace = "string \<Rightarrow> string \<Rightarrow> unit result"

definition finish :: "decision_trace \<Rightarrow> string \<Rightarrow> bool \<Rightarrow> permission_decision result" where
  "finish trace reasonCode alternativesAllowed =
     (case trace ''DENY'' reasonCode of Inl e \<Rightarrow> Inl e | Inr _ \<Rightarrow> Inr (decision_DENY reasonCode alternativesAllowed))"

fun approval_status_string :: "approval_status \<Rightarrow> string" where
  "approval_status_string ap_pending = ''pending''"
| "approval_status_string ap_approved = ''approved''"
| "approval_status_string ap_denied = ''denied''"
| "approval_status_string ap_expired = ''expired''"

definition existingApproval :: "decision_trace \<Rightarrow> action_intent \<Rightarrow> approval_request \<Rightarrow> string \<Rightarrow> permission_decision result" where
  "existingApproval trace i approval now =
     (if ar_semanticSnapshotHash approval \<noteq> actionIntentFingerprint i then finish trace ''approval_hash_mismatch'' False
      else if ar_status approval \<noteq> ap_pending
        then finish trace (''approval_'' @ approval_status_string (ar_status approval)) True
      else if now \<ge> ar_expiresAt approval then finish trace ''approval_expired'' True
      else (case trace ''ASK'' ''approval_pending'' of Inl e \<Rightarrow> Inl e | Inr _ \<Rightarrow> Inr (decision_ASK approval)))"

definition governed_component_error :: permission_decision where
  "governed_component_error = decision_DENY ''authorization_component_error'' False"

definition governed_consumption :: "action_intent \<Rightarrow> grant_record \<Rightarrow> string \<Rightarrow> consume_grant_input" where
  "governed_consumption i g now =
     \<lparr>cg_grantId = gr_id g, cg_expectedRevision = gr_revision g, cg_costMicros = ai_estimatedCostMicros i,
      cg_consumedAt = now, cg_usageId = Some (''authorization-usage:'' @ ai_id i), cg_intentId = Some (ai_id i),
      cg_runId = Some (ai_runId i), cg_operation = Some (ai_operation i)\<rparr>"

definition governed_approval :: "action_intent \<Rightarrow> governed_intent_part \<Rightarrow> permission_evaluation_options \<Rightarrow> string \<Rightarrow> string \<Rightarrow> approval_request" where
  "governed_approval i g opts approvalId now =
     (new_approval i opts approvalId now)\<lparr>ar_governed := Some \<lparr>ga_finalRisk = gi_finalRisk g,
        ga_recentAuthenticationRequired = (gi_finalRisk g = CRITICAL)\<rparr>\<rparr>"

text \<open>The part of \<open>evaluate\<close> after no grant and no safe-read rule allowed the intent.\<close>

definition governed_ask :: "authz_env \<Rightarrow> decision_trace \<Rightarrow> string \<Rightarrow> authz_db \<Rightarrow> action_intent \<Rightarrow> governed_intent_part \<Rightarrow>
    permission_evaluation_options \<Rightarrow> string \<Rightarrow> authz_db \<times> permission_decision result" where
  "governed_ask env trace approvalId db i g opts now =
     (if eo_approvalExpiresAt opts \<le> now \<or> eo_approvalExpiresAt opts > gi_expiresAt g
        then (db, finish trace ''approval_expiry_invalid'' True)
      else let db1 = env 1 db
        in case findApprovalByIntent db1 (ai_id i) of
             Some a \<Rightarrow> (db1, existingApproval trace i a now)
           | None \<Rightarrow>
               (case createApproval (env 2 db1) (governed_approval i g opts approvalId now) of
                  Inl _ \<Rightarrow> (env 2 db1, Inr governed_component_error)
                | Inr (db2, stored) \<Rightarrow>
                    (case trace ''ASK'' (if eo_uiAvailable opts then ''approval_required'' else ''approval_queued_no_ui'') of
                       Inl _ \<Rightarrow> (db2, Inr governed_component_error)
                     | Inr _ \<Rightarrow> (db2, Inr (decision_ASK stored)))))"

definition governed_evaluate :: "authz_env \<Rightarrow> decision_trace \<Rightarrow> capability_authorization_facts option result \<Rightarrow> string \<Rightarrow>
    permission_policy \<Rightarrow> string \<Rightarrow> authz_db \<Rightarrow> action_intent \<Rightarrow> permission_evaluation_options \<Rightarrow>
    authz_db \<times> permission_decision result" where
  "governed_evaluate env trace inspect approvalId policy now db source opts =
     (case (freezeGovernedActionIntent source, ai_governed source, inspect) of
        (Inr i, Some g, Inr facts) \<Rightarrow>
          (case capabilityDenial facts i g of
             Some reason \<Rightarrow> (db, finish trace reason False)
           | None \<Rightarrow>
               (case List.find (\<lambda>r. governed_deny_rule r i g) (pp_rules policy) of
                  Some denied \<Rightarrow> (db, finish trace (pr_reasonCode denied) False)
                | None \<Rightarrow>
                    (case List.find (\<lambda>gr. governedGrantCovers gr i g now) (listGrants db (ai_ownerId i) (ai_agentId i)) of
                       Some gr \<Rightarrow>
                         (case consumeGrant (env 1 db) (governed_consumption i gr now) of
                            Inl _ \<Rightarrow> (env 1 db, Inr governed_component_error)
                          | Inr (db2, consumed) \<Rightarrow>
                              (case trace ''ALLOW'' ''grant'' of
                                 Inl _ \<Rightarrow> (db2, Inr governed_component_error)
                               | Inr _ \<Rightarrow> (db2, Inr (decision_ALLOW (basis_grant (gr_id consumed)) (gr_scope consumed)))))
                     | None \<Rightarrow>
                         (case List.find (\<lambda>r. pr_effect r = rule_ALLOW \<and> safePolicyRead r i g) (pp_rules policy) of
                            Some r \<Rightarrow>
                              (case trace ''ALLOW'' (pr_reasonCode r) of
                                 Inl _ \<Rightarrow> (db, Inr governed_component_error)
                               | Inr _ \<Rightarrow> (db, Inr (decision_ALLOW (basis_policy (pr_id r)) (exactScope i))))
                          | None \<Rightarrow> governed_ask env trace approvalId db i g opts now))))
      | _ \<Rightarrow> (db, Inr governed_component_error))"

section \<open>Governed grants and approvals\<close>

definition bounded :: "string list \<Rightarrow> bool" where
  "bounded values \<longleftrightarrow>
     \<not> (length values = 0 \<or> \<not> distinct values \<or>
        list_ex (\<lambda>v. v = [] \<or> v = ''*'' \<or> v = ''/'' \<or> v = ''home:'' \<or> v = ''account:*'') values)"

record governed_grant_input =
  gg_kind :: grant_kind
  gg_intent :: action_intent
  gg_approvalRequestId :: string
  gg_scope :: grant_scope
  gg_expiresAt :: string
  gg_maxUses :: int
  gg_maxTotalCostMicros :: int

definition long_term_unsafe :: "governed_intent_part \<Rightarrow> grant_scope \<Rightarrow> governed_scope_part \<Rightarrow> bool" where
  "long_term_unsafe i s gs \<longleftrightarrow>
     gi_actionKind i \<noteq> READ \<or>
     gi_finalRisk i \<noteq> LOW \<or>
     list_ex (\<lambda>effect. effect \<noteq> effect_none) (sc_sideEffects s) \<or>
     gs_disclosure gs \<noteq> disc_none \<or>
     length (gs_recipients gs) > 0 \<or>
     sc_maxDataClassification s = class_sensitive \<or>
     sc_maxDataClassification s = class_restricted"

definition create_governed_grant :: "governed_grant_input \<Rightarrow> string \<Rightarrow> string \<Rightarrow> grant_record result" where
  "create_governed_grant input grantId now =
     (case (ai_governed (gg_intent input), sc_governed (gg_scope input)) of
        (Some i, Some gs) \<Rightarrow>
          let s = gg_scope input; oneTime = (gg_kind input = one_time)
          in if \<not> bounded (sc_operations s) then port_fail INVALID_OPERATION
             else if sc_capabilityRef s \<noteq> ai_capabilityRef (gg_intent input) then port_fail INVALID_OPERATION
             else if gs_capabilityVersion gs \<noteq> gi_capabilityVersion i then port_fail INVALID_OPERATION
             else if gs_credentialOrAccessChange gs \<or> gg_expiresAt input \<le> now \<or> gg_maxUses input < 1 \<or>
                 gg_maxTotalCostMicros input < 0 \<or> sc_maxCostMicrosPerUse s < 0 \<or> fq_count (sc_maxFrequency s) < 1
               then port_fail INVALID_OPERATION
             else if gg_kind input = long_term \<and> long_term_unsafe i s gs then port_fail INVALID_OPERATION
             else if gg_kind input = long_term \<and> length (gs_resourceIdentities gs) = 0 \<and> length (sc_resourcePrefixes s) = 0
               then port_fail INVALID_OPERATION
             else if gg_kind input = long_term \<and>
                 list_ex (\<lambda>prefix. length prefix < 3 \<or> prefix = ''/'') (sc_resourcePrefixes s)
               then port_fail INVALID_OPERATION
             else Inr \<lparr>gr_id = grantId, gr_revision = 1, gr_ownerId = ai_ownerId (gg_intent input),
               gr_agentId = ai_agentId (gg_intent input), gr_kind = gg_kind input, gr_scope = s,
               gr_intentFingerprint = (if oneTime then Some (actionIntentFingerprint (gg_intent input)) else None),
               gr_sourceApprovalRequestId = gg_approvalRequestId input, gr_validFrom = now,
               gr_expiresAt = gg_expiresAt input, gr_maxUses = (if oneTime then 1 else gg_maxUses input), gr_uses = 0,
               gr_maxTotalCostMicros = (if oneTime then ai_estimatedCostMicros (gg_intent input) else gg_maxTotalCostMicros input),
               gr_spentCostMicros = 0, gr_revokedAt = None, gr_revocationReasonCode = None\<rparr>
      | _ \<Rightarrow> Inl OtherError)"

definition consume_governed :: "authz_db \<Rightarrow> grant_record \<Rightarrow> action_intent \<Rightarrow> string \<Rightarrow> (authz_db \<times> grant_record) result" where
  "consume_governed db grant intent now = consumeGrant db (governed_consumption intent grant now)"

definition frequencyWithin :: "action_frequency \<Rightarrow> action_frequency \<Rightarrow> bool" where
  "frequencyWithin requested maximum \<longleftrightarrow>
     fq_count requested \<le> fq_count maximum \<and>
     (case fq_intervalMs requested of None \<Rightarrow> True | Some n \<Rightarrow>
        (case fq_intervalMs maximum of None \<Rightarrow> False | Some k \<Rightarrow> n \<ge> k))"

datatype governed_approval_response =
    governed_denied
  | governed_approved grant_record "string option"

definition assertGrantDoesNotExpand :: "action_intent \<Rightarrow> grant_record \<Rightarrow> unit result" where
  "assertGrantDoesNotExpand i g =
     (case (ai_governed i, sc_governed (gr_scope g)) of
        (Some gi, Some gs) \<Rightarrow>
          if gr_ownerId g \<noteq> ai_ownerId i \<or>
             gr_agentId g \<noteq> ai_agentId i \<or>
             sc_capabilityRef (gr_scope g) \<noteq> ai_capabilityRef i \<or>
             gs_capabilityVersion gs \<noteq> gi_capabilityVersion gi \<or>
             list_ex (\<lambda>op. op \<noteq> ai_operation i) (sc_operations (gr_scope g)) \<or>
             length (sc_resourcePrefixes (gr_scope g)) > 0 \<or>
             list_ex (\<lambda>ref. ref \<notin> set (gi_resourceRefs gi)) (gs_resourceIdentities gs) \<or>
             list_ex (\<lambda>r. r \<notin> set (gi_recipients gi)) (gs_recipients gs) \<or>
             sc_maxCostMicrosPerUse (gr_scope g) > ai_estimatedCostMicros i
          then port_fail NOT_AUTHORITATIVE else Inr ()
      | _ \<Rightarrow> Inl OtherError)"

definition respond_governed :: "authz_env \<Rightarrow> string \<Rightarrow> authz_db \<Rightarrow> string \<Rightarrow> int \<Rightarrow> string \<Rightarrow> governed_approval_response \<Rightarrow>
    (authz_db \<times> approval_request) result" where
  "respond_governed env now db approvalRequestId expectedRevision hash response =
     (case approvalRow db approvalRequestId of
        None \<Rightarrow> port_fail NOT_FOUND
      | Some current \<Rightarrow>
          let db1 = env 1 db;
              resolve = (\<lambda>resolution grant auth. resolveApproval db1
                \<lparr>ra_approvalRequestId = ar_id current, ra_expectedRevision = ar_revision current,
                 ra_semanticSnapshotHash = ar_semanticSnapshotHash current, ra_resolution = resolution,
                 ra_decidedAt = now, ra_grant = grant, ra_recentAuthenticationRef = auth\<rparr>)
          in if ar_status current \<noteq> ap_pending \<or> ar_revision current \<noteq> expectedRevision then port_fail CONFLICT
             else if ar_semanticSnapshotHash current \<noteq> hash \<or> actionIntentFingerprint (ar_intentSnapshot current) \<noteq> hash
               then port_fail CONFLICT
             else if now \<ge> ar_expiresAt current then resolve res_expired None None
             else (case response of
                     governed_denied \<Rightarrow> resolve res_denied None (Some None)
                   | governed_approved g auth \<Rightarrow>
                       if (case ar_governed current of None \<Rightarrow> False | Some p \<Rightarrow> ga_recentAuthenticationRequired p) \<and>
                          \<not> truthy auth
                         then port_fail NOT_AUTHORITATIVE
                       else (case assertGrantDoesNotExpand (ar_intentSnapshot current) g of
                               Inl e \<Rightarrow> Inl e
                             | Inr _ \<Rightarrow> resolve res_approved (Some g) (Some auth))))"

section \<open>The risk floor\<close>

lemma foldl_risk_ge:
  "RISK_RANK r \<le> RISK_RANK (foldl (\<lambda>h c. if RISK_RANK c > RISK_RANK h then c else h) r rs)"
  by (induction rs arbitrary: r) (auto intro: order_trans dest: less_imp_le)

lemma highestRisk_upper: "x \<in> set (r # rs) \<Longrightarrow> RISK_RANK x \<le> RISK_RANK (highestRisk r rs)"
  unfolding highestRisk_def
proof (induction rs arbitrary: r)
  case (Cons a rs)
  let ?b = "if RISK_RANK a > RISK_RANK r then a else r"
  have "RISK_RANK x \<le> RISK_RANK ?b \<or> x \<in> set rs" using Cons.prems by auto
  then show ?case using Cons.IH [of ?b] foldl_risk_ge [of ?b rs] by (auto intro: order_trans)
qed simp

lemma highestRisk_attained: "highestRisk r rs \<in> set (r # rs)"
  unfolding highestRisk_def
proof (induction rs arbitrary: r)
  case (Cons a rs)
  then show ?case using Cons [of a] Cons [of r] by auto
qed simp

lemma RISK_RANK_inj: "RISK_RANK a = RISK_RANK b \<longleftrightarrow> a = b"
  by (cases a; cases b) simp_all

lemma highestRisk_CRITICAL: "CRITICAL \<in> set (r # rs) \<Longrightarrow> highestRisk r rs = CRITICAL"
  using highestRisk_upper [of CRITICAL r rs] by (cases "highestRisk r rs") simp_all

lemma validate_governed:
  "validateGovernedActionIntent i = Inr u \<Longrightarrow>
     \<exists>g. ai_governed i = Some g \<and> intent_consistent i g \<and> mc_actionKind (gi_modelClassification g) = gi_actionKind g \<and>
         gi_finalRisk g = computeActionRisk i g"
  by (auto simp: validateGovernedActionIntent_def split: option.splits if_splits)

text \<open>
  The declared risk cannot be talked down. An intent that passes validation declares exactly the
  highest of the action kind's baseline, the model's suggestion and the deterministic facts: its risk is
  at least each of them and is one of them or \<open>CRITICAL\<close>; and it is \<open>CRITICAL\<close> for an irreversible
  deletion, a credential or access change and a public disclosure, whatever the model suggested.
\<close>

theorem risk_floor:
  assumes "validateGovernedActionIntent i = Inr ()" and "ai_governed i = Some g"
  shows "RISK_RANK (ACTION_KIND_RISK_BASELINE (gi_actionKind g)) \<le> RISK_RANK (gi_finalRisk g) \<and>
    RISK_RANK (mc_suggestedRisk (gi_modelClassification g)) \<le> RISK_RANK (gi_finalRisk g) \<and>
    (\<forall>f\<in>set (gi_deterministicFacts g). RISK_RANK (pf_minimumRisk f) \<le> RISK_RANK (gi_finalRisk g)) \<and>
    (gi_actionKind g = DELETE \<and> \<not> ai_reversible i \<or> gi_credentialOrAccessChange g \<or> gi_disclosure g = disc_public
       \<longrightarrow> gi_finalRisk g = CRITICAL) \<and>
    gi_finalRisk g \<in> insert CRITICAL (insert (ACTION_KIND_RISK_BASELINE (gi_actionKind g))
       (insert (mc_suggestedRisk (gi_modelClassification g)) (pf_minimumRisk ` set (gi_deterministicFacts g))))"
proof -
  define facts where "facts = map pf_minimumRisk (gi_deterministicFacts g) @
    (if gi_actionKind g = DELETE \<and> \<not> ai_reversible i then [CRITICAL] else []) @
    (if gi_credentialOrAccessChange g then [CRITICAL] else []) @ (if gi_disclosure g = disc_public then [CRITICAL] else [])"
  define base sug where "base = ACTION_KIND_RISK_BASELINE (gi_actionKind g)"
    and "sug = mc_suggestedRisk (gi_modelClassification g)"
  have fr: "gi_finalRisk g = highestRisk base (sug # facts)"
    using validate_governed [OF assms(1)] assms(2)
    by (simp add: computeActionRisk_def facts_def base_def sug_def Let_def)
  have up: "RISK_RANK x \<le> RISK_RANK (gi_finalRisk g)" if "x \<in> set (base # sug # facts)" for x
    unfolding fr using that by (rule highestRisk_upper)
  have at: "gi_finalRisk g \<in> set (base # sug # facts)" unfolding fr by (rule highestRisk_attained)
  have crit: "gi_finalRisk g = CRITICAL" if "CRITICAL \<in> set facts"
    unfolding fr using that by (intro highestRisk_CRITICAL) simp
  have "RISK_RANK (pf_minimumRisk f) \<le> RISK_RANK (gi_finalRisk g)" if "f \<in> set (gi_deterministicFacts g)" for f
    using that by (intro up) (auto simp: facts_def)
  moreover have "gi_actionKind g = DELETE \<and> \<not> ai_reversible i \<or> gi_credentialOrAccessChange g \<or> gi_disclosure g = disc_public
       \<Longrightarrow> gi_finalRisk g = CRITICAL"
    by (rule crit) (auto simp: facts_def)
  moreover have "set facts \<subseteq> insert CRITICAL (pf_minimumRisk ` set (gi_deterministicFacts g))"
    by (auto simp: facts_def)
  ultimately show ?thesis
    using up [of base] up [of sug] at unfolding base_def [symmetric] sug_def [symmetric] by auto
qed

section \<open>Sound decisions\<close>

lemma freeze_Inr: "freezeGovernedActionIntent i = Inr j \<longleftrightarrow> j = i \<and> validateGovernedActionIntent i = Inr ()"
  by (auto simp: freezeGovernedActionIntent_def split: sum.splits)

lemma governedGrantCovers_live:
  "governedGrantCovers gr i g now \<Longrightarrow> gr_revokedAt gr = None \<and> now < gr_expiresAt gr \<and>
     gr_ownerId gr = ai_ownerId i \<and> gr_agentId gr = ai_agentId i"
  by (auto simp: governedGrantCovers_def grantCoversIntent_def Let_def split: option.splits)

lemma governed_consumption_metered: "validateGovernedActionIntent i = Inr () \<Longrightarrow> metered (governed_consumption i gr now)"
  by (auto simp: metered_def governed_consumption_def validateGovernedActionIntent_def requiredText_def trim_def
      split: option.splits if_splits)

lemma consume_progress:
  assumes "consumeGrant db c = Inr (db', g)"
  shows "\<exists>cur. grantRow db (cg_grantId c) = Some cur \<and> grant_progress cur g"
  using assms by (cases rule: consumeGrant_Inr) (auto simp: grant_progress_def [of g g] consumed_progress)

lemma governed_ask_no_allow:
  "governed_ask env trace k db i g opts now = (db', Inr (decision_ALLOW b sc)) \<Longrightarrow> False"
  by (auto simp: governed_ask_def governed_component_error_def existingApproval_def finish_def Let_def
      split: if_splits option.splits sum.splits prod.splits)

lemma governed_evaluate_ALLOW:
  assumes "governed_evaluate env trace inspect k policy now db i opts = (db', Inr (decision_ALLOW basis scope))"
  obtains g facts where "ai_governed i = Some g" "validateGovernedActionIntent i = Inr ()" "inspect = Inr facts"
    "capabilityDenial facts i g = None" "\<forall>r\<in>set (pp_rules policy). \<not> governed_deny_rule r i g"
    "(\<exists>gr cons. gr \<in> set (listGrants db (ai_ownerId i) (ai_agentId i)) \<and> governedGrantCovers gr i g now \<and>
        consumeGrant (env 1 db) (governed_consumption i gr now) = Inr (db', cons) \<and>
        basis = basis_grant (gr_id cons) \<and> scope = gr_scope cons) \<or>
     (db' = db \<and> (\<exists>r\<in>set (pp_rules policy). basis = basis_policy (pr_id r) \<and> pr_effect r = rule_ALLOW \<and>
        safePolicyRead r i g) \<and> scope = exactScope i)"
proof (cases "freezeGovernedActionIntent i")
  case (Inl e)
  with assms show ?thesis by (auto simp: governed_evaluate_def governed_component_error_def)
next
  case (Inr j)
  then have j: "j = i" "validateGovernedActionIntent i = Inr ()" by (simp_all add: freeze_Inr)
  then obtain g where g: "ai_governed i = Some g" using validate_governed by blast
  show ?thesis
  proof (cases inspect)
    case (Inl e)
    with assms Inr g show ?thesis by (auto simp: governed_evaluate_def governed_component_error_def)
  next
    case facts: (Inr facts)
    note ev = assms [unfolded governed_evaluate_def Inr g facts j(1), simplified]
    have cd: "capabilityDenial facts i g = None"
      using ev by (auto simp: finish_def split: option.splits sum.splits)
    have nd: "List.find (\<lambda>r. governed_deny_rule r i g) (pp_rules policy) = None"
      using ev cd by (auto simp: finish_def split: option.splits sum.splits)
    have nd': "\<forall>r\<in>set (pp_rules policy). \<not> governed_deny_rule r i g" using nd by (auto simp: find_None_iff)
    note ev2 = ev [unfolded cd nd, simplified]
    show ?thesis
    proof (cases "List.find (\<lambda>gr. governedGrantCovers gr i g now) (listGrants db (ai_ownerId i) (ai_agentId i))")
      case (Some gr)
      with ev2 find_SomeD [OF Some] show ?thesis
        by (intro that [OF g j(2) facts cd nd'])
           (auto simp: governed_component_error_def split: sum.splits prod.splits)
    next
      case None
      with ev2 show ?thesis
        by (intro that [OF g j(2) facts cd nd'])
           (auto simp: governed_component_error_def
             split: option.splits sum.splits prod.splits dest: find_SomeD governed_ask_no_allow)
    qed
  qed
qed

text \<open>What the grant branch of an evaluation has found and written, from listing to consumption.\<close>

definition charged_use :: "authz_db \<Rightarrow> authz_db \<Rightarrow> grant_record \<Rightarrow> action_intent \<Rightarrow> string \<Rightarrow> bool" where
  "charged_use db db' gr i now \<longleftrightarrow>
     (let gr' = gr\<lparr>gr_revision := gr_revision gr + 1, gr_uses := gr_uses gr + 1,
        gr_spentCostMicros := gr_spentCostMicros gr + ai_estimatedCostMicros i\<rparr>
      in grantRow db (gr_id gr) = Some gr \<and> gr_revokedAt gr = None \<and> now < gr_expiresAt gr \<and>
         gr_uses gr' \<le> gr_maxUses gr \<and> gr_spentCostMicros gr' \<le> gr_maxTotalCostMicros gr \<and>
         grantRow db' (gr_id gr) = Some gr' \<and> \<not> has_row us_id (''authorization-usage:'' @ ai_id i) (adb_usage db) \<and>
         adb_usage db' = adb_usage db @ [usage_of (governed_consumption i gr now)])"

definition already_charged :: "authz_db \<Rightarrow> grant_record \<Rightarrow> action_intent \<Rightarrow> bool" where
  "already_charged db gr i \<longleftrightarrow> (\<exists>gr'. grantRow db (gr_id gr) = Some gr' \<and> same_terms gr gr') \<and>
     (\<exists>u\<in>set (adb_usage db). us_id u = ''authorization-usage:'' @ ai_id i \<and> us_grantId u = gr_id gr)"

lemma governed_use:
  assumes env: "interference env" and inv: "authz_inv db" and valid: "validateGovernedActionIntent i = Inr ()"
    and listed: "gr \<in> set (listGrants db (ai_ownerId i) (ai_agentId i))" and covers: "governedGrantCovers gr i g now"
    and consumed: "consumeGrant (env 1 db) (governed_consumption i gr now) = Inr (db', cons)"
  shows "grantRow db (gr_id gr) = Some gr \<and> gr_id cons = gr_id gr \<and> gr_scope cons = gr_scope gr \<and>
    (charged_use (env 1 db) db' gr i now \<or> db' = env 1 db \<and> already_charged (env 1 db) gr i)"
proof -
  let ?c = "governed_consumption i gr now"
  have row: "grantRow db (gr_id gr) = Some gr" by (rule listGrants_row [OF inv listed])
  obtain cur where cur: "grantRow (env 1 db) (gr_id gr) = Some cur" "grant_progress cur cons"
    using consume_progress [OF consumed] by (auto simp: governed_consumption_def)
  have "grant_progress gr cur"
    using grant_history [OF interferenceD [OF env] row, of 1] cur by auto
  then have st: "same_terms gr cur" "same_terms gr cons"
    using grant_progress_trans [OF _ cur(2), of gr] by (auto simp: grant_progress_def [of gr])
  have m: "metered ?c" by (rule governed_consumption_metered [OF valid])
  from consumed have "charged_use (env 1 db) db' gr i now \<or> db' = env 1 db \<and> already_charged (env 1 db) gr i"
  proof (cases rule: consumeGrant_Inr)
    case replay
    then show ?thesis using st(1) cur(1) by (auto simp: already_charged_def governed_consumption_def)
  next
    case (use now_row)
    have same: "now_row = gr"
      using grants.same_revision_same_row [OF interferenceD [OF env] row] use(1,2)
      by (simp add: governed_consumption_def)
    then have c: "cons = consumed_grant gr ?c" "grant_consumable gr ?c" using use(3,4) by simp_all
    have "gr_id cons = gr_id gr" by (simp add: c(1) consumed_grant_def)
    then have "grantRow db' (gr_id gr) = Some cons" using grantRow_put [OF use(5)] by simp
    moreover have "grantRow (env 1 db) (gr_id gr) = Some gr" using use(1) same by (simp add: governed_consumption_def)
    moreover have "\<not> has_row us_id (''authorization-usage:'' @ ai_id i) (adb_usage (env 1 db))"
      using use(8) [OF m] by (simp add: governed_consumption_def)
    moreover have "adb_usage db' = adb_usage (env 1 db) @ [usage_of ?c]" using use(7) m by simp
    ultimately have "charged_use (env 1 db) db' gr i now"
      using c governedGrantCovers_live [OF covers]
      by (auto simp: charged_use_def Let_def consumed_grant_def grant_consumable_def governed_consumption_def)
    then show ?thesis ..
  qed
  with row st(2) same_terms_fields show ?thesis by blast
qed

text \<open>
  C1. The governed policy allows only what is authorised. If \<open>ActionPolicyService.evaluate\<close> allows an
  intent, then under every interleaving: the intent passed validation, its capability is registered,
  active, healthy, of the declared version and declares the operation and data class, and no deny rule
  matches it. If it is allowed by a grant, that grant was stored when the grants were listed, covers the
  intent and gives the scope, and one of two things happened. Either the row charged is the very row that
  was checked, so that it was neither revoked, expired nor changed when it was charged, and it was charged
  one use and the cost of the intent, within its budgets, under the identity of the intent, which had not
  been charged before. Or nothing was written because another evaluation of the same intent had charged
  that grant before; only then may the grant have been revoked since it was listed. If it is allowed by a
  rule, the intent is a low-risk read without side effects, disclosure or recipients on non-sensitive data
  and the store is untouched.
\<close>

theorem governed_allow_sound:
  assumes "interference env" and "authz_inv db"
    and "governed_evaluate env trace inspect k policy now db i opts = (db', Inr (decision_ALLOW basis scope))"
  shows "\<exists>g facts. ai_governed i = Some g \<and> validateGovernedActionIntent i = Inr () \<and> inspect = Inr (Some facts) \<and>
    capabilityDenial (Some facts) i g = None \<and> (\<forall>r\<in>set (pp_rules policy). \<not> governed_deny_rule r i g) \<and>
    (case basis of
       basis_grant gid \<Rightarrow> \<exists>gr. grantRow db gid = Some gr \<and> governedGrantCovers gr i g now \<and> scope = gr_scope gr \<and>
         (charged_use (env 1 db) db' gr i now \<or> db' = env 1 db \<and> already_charged (env 1 db) gr i)
     | basis_policy rid \<Rightarrow> db' = db \<and> scope = exactScope i \<and> gi_actionKind g = READ \<and> gi_finalRisk g = LOW \<and>
         ai_sideEffect i = effect_none \<and> gi_disclosure g = disc_none \<and> gi_recipients g = [] \<and>
         CLASSIFICATION_RANK (ai_dataClassification i) \<le> 1 \<and>
         (\<exists>r\<in>set (pp_rules policy). pr_id r = rid \<and> pr_effect r = rule_ALLOW \<and> safePolicyRead r i g))"
proof -
  from assms(3) obtain g facts where h: "ai_governed i = Some g" "validateGovernedActionIntent i = Inr ()"
    "inspect = Inr facts" "capabilityDenial facts i g = None" "\<forall>r\<in>set (pp_rules policy). \<not> governed_deny_rule r i g"
    "(\<exists>gr cons. gr \<in> set (listGrants db (ai_ownerId i) (ai_agentId i)) \<and> governedGrantCovers gr i g now \<and>
        consumeGrant (env 1 db) (governed_consumption i gr now) = Inr (db', cons) \<and>
        basis = basis_grant (gr_id cons) \<and> scope = gr_scope cons) \<or>
     (db' = db \<and> (\<exists>r\<in>set (pp_rules policy). basis = basis_policy (pr_id r) \<and> pr_effect r = rule_ALLOW \<and>
        safePolicyRead r i g) \<and> scope = exactScope i)"
    by (rule governed_evaluate_ALLOW)
  obtain f where f: "facts = Some f" using h(4) by (cases facts) (auto simp: capabilityDenial_def)
  have low: "CLASSIFICATION_RANK (ai_dataClassification i) \<le> 1" if "safePolicyRead r i g" for r
    using that by (cases "ai_dataClassification i") (auto simp: safePolicyRead_def)
  from h(6) show ?thesis
  proof (elim disjE exE conjE bexE)
    fix gr cons
    assume a: "gr \<in> set (listGrants db (ai_ownerId i) (ai_agentId i))" "governedGrantCovers gr i g now"
      "consumeGrant (env 1 db) (governed_consumption i gr now) = Inr (db', cons)"
      "basis = basis_grant (gr_id cons)" "scope = gr_scope cons"
    from governed_use [OF assms(1,2) h(2) a(1-3)] h f a(2,4,5) show ?thesis by auto
  next
    fix r assume "db' = db" "r \<in> set (pp_rules policy)" "basis = basis_policy (pr_id r)" "pr_effect r = rule_ALLOW"
      "safePolicyRead r i g" "scope = exactScope i"
    with low h f show ?thesis by (auto simp: safePolicyRead_def)
  qed
qed

text \<open>
  A long-term governed grant is safe by construction. Whatever intent such a grant covers is free of
  side effects, discloses nothing, has no recipients, touches no sensitive or restricted data, runs the
  approved capability version, and names only resources inside the grant's identities and prefixes; and
  the grant is fresh with bounded lifetime.
\<close>

theorem long_term_grant_safe:
  assumes "create_governed_grant input k now = Inr g" and "gg_kind input = long_term"
    and "governedGrantCovers g j gj t"
  shows "fresh_grant g \<and> now < gr_expiresAt g \<and> t < gr_expiresAt g \<and>
    ai_sideEffect j = effect_none \<and> gi_disclosure gj = disc_none \<and> gi_recipients gj = [] \<and>
    CLASSIFICATION_RANK (ai_dataClassification j) \<le> 1 \<and>
    (\<exists>gi. ai_governed (gg_intent input) = Some gi \<and> gi_finalRisk gi = LOW \<and> gi_actionKind gi = READ \<and>
       gi_capabilityVersion gj = gi_capabilityVersion gi)"
proof -
  from assms(1,2) obtain i gs where i: "ai_governed (gg_intent input) = Some i"
    and gs: "sc_governed (gg_scope input) = Some gs" and v: "gs_capabilityVersion gs = gi_capabilityVersion i"
    and e: "now < gg_expiresAt input" "1 \<le> gg_maxUses input" "0 \<le> gg_maxTotalCostMicros input"
    and safe: "\<not> long_term_unsafe i (gg_scope input) gs"
    and g: "gr_scope g = gg_scope input" "gr_expiresAt g = gg_expiresAt input" "gr_intentFingerprint g = None"
      "gr_uses g = 0" "gr_spentCostMicros g = 0" "gr_maxUses g = gg_maxUses input" "gr_revokedAt g = None"
      "gr_maxTotalCostMicros g = gg_maxTotalCostMicros input"
    by (auto simp: create_governed_grant_def Let_def split: option.splits if_splits)
  have cov: "grantCoversIntent g j t" "gi_capabilityVersion gj = gs_capabilityVersion gs"
    "gi_disclosure gj = gs_disclosure gs" "list_all (\<lambda>r. r \<in> set (gs_recipients gs)) (gi_recipients gj)"
    using assms(3) gs by (auto simp: governedGrantCovers_def Let_def g)
  have "CLASSIFICATION_RANK (sc_maxDataClassification (gg_scope input)) \<le> 1"
    using safe by (cases "sc_maxDataClassification (gg_scope input)") (auto simp: long_term_unsafe_def)
  then show ?thesis
    using cov safe i v e g
    by (auto simp: long_term_unsafe_def grantCoversIntent_def fresh_grant_def list_ex_iff list_all_iff)
qed

text \<open>
  C39. The terms of an approval that are compared are not widened. If an answer to a governed approval
  stores an approval, then, under every interleaving, the approved row is the pending one that was read,
  its fingerprint is the one presented, it had not expired, a request that is marked as requiring recent
  authentication (the policy marks the critical ones) carried a reference that is recorded with it, and
  every intent that the stored grant newly covers has the capability, its version and the operation of the
  approved intent, names only resources and recipients of it, and costs no more. The other terms of the
  grant (data classification, side effects, disclosure, frequency, uses, lifetime) come from the answer
  and are not compared with the intent: \<open>approved_grant_may_widen\<close>.
\<close>

theorem governed_approval_no_expansion:
  assumes "interference env" and "respond_governed env now db aid expected h (governed_approved g auth) = Inr (db', a)"
    and "ar_status a = ap_approved"
  shows "\<exists>cur gi. approvalRow db aid = Some cur \<and> approvalRow (env 1 db) aid = Some cur \<and> ar_status cur = ap_pending \<and>
    ai_governed (ar_intentSnapshot cur) = Some gi \<and> actionIntentFingerprint (ar_intentSnapshot cur) = h \<and>
    now < ar_expiresAt cur \<and> ar_recentAuthenticationRef a = auth \<and>
    (\<forall>p. ar_governed cur = Some p \<and> ga_recentAuthenticationRequired p \<longrightarrow> truthy auth) \<and>
    grantRow db' (gr_id g) = Some g \<and>
    (\<forall>j gj t. governedGrantCovers g j gj t \<and> grantCoversIntent g j t \<longrightarrow>
       ai_capabilityRef j = ai_capabilityRef (ar_intentSnapshot cur) \<and>
       ai_operation j = ai_operation (ar_intentSnapshot cur) \<and>
       ai_estimatedCostMicros j \<le> ai_estimatedCostMicros (ar_intentSnapshot cur) \<and>
       gi_capabilityVersion gj = gi_capabilityVersion gi \<and>
       set (gi_resourceRefs gj) \<subseteq> set (gi_resourceRefs gi) \<and> set (gi_recipients gj) \<subseteq> set (gi_recipients gi))"
proof -
  from assms(2) obtain cur where cur: "approvalRow db aid = Some cur" "ar_status cur = ap_pending"
    "ar_semanticSnapshotHash cur = h" "actionIntentFingerprint (ar_intentSnapshot cur) = h"
    by (auto simp: respond_governed_def Let_def split: option.splits if_splits)
  have id: "ar_id cur = aid" using approvalRow_id [OF cur(1)] by simp
  have late: "\<not> ar_expiresAt cur \<le> now"
  proof
    assume "ar_expiresAt cur \<le> now"
    then have "resolveApproval (env 1 db) \<lparr>ra_approvalRequestId = aid, ra_expectedRevision = ar_revision cur,
        ra_semanticSnapshotHash = h, ra_resolution = res_expired, ra_decidedAt = now,
        ra_grant = None, ra_recentAuthenticationRef = None\<rparr> = Inr (db', a)"
      using assms(2) cur id by (auto simp: respond_governed_def Let_def split: if_splits)
    then have "ar_status a = ap_expired" by (auto simp: resolved_approval_def elim!: resolveApproval_Inr)
    with assms(3) show False by simp
  qed
  define inp where "inp = \<lparr>ra_approvalRequestId = aid, ra_expectedRevision = ar_revision cur,
        ra_semanticSnapshotHash = h, ra_resolution = res_approved, ra_decidedAt = now,
        ra_grant = Some g, ra_recentAuthenticationRef = Some auth\<rparr>"
  have res: "resolveApproval (env 1 db) inp = Inr (db', a)"
    and auth: "\<forall>p. ar_governed cur = Some p \<and> ga_recentAuthenticationRequired p \<longrightarrow> truthy auth"
    and ok: "assertGrantDoesNotExpand (ar_intentSnapshot cur) g = Inr ()"
    using assms(2) cur id late
    by (auto simp: respond_governed_def Let_def inp_def split: if_splits option.splits sum.splits)
  from ok obtain gi gs where gi: "ai_governed (ar_intentSnapshot cur) = Some gi" and gs: "sc_governed (gr_scope g) = Some gs"
    by (auto simp: assertGrantDoesNotExpand_def split: option.splits)
  have cov: "ai_capabilityRef j = ai_capabilityRef (ar_intentSnapshot cur) \<and>
       ai_operation j = ai_operation (ar_intentSnapshot cur) \<and>
       ai_estimatedCostMicros j \<le> ai_estimatedCostMicros (ar_intentSnapshot cur) \<and>
       gi_capabilityVersion gj = gi_capabilityVersion gi \<and>
       set (gi_resourceRefs gj) \<subseteq> set (gi_resourceRefs gi) \<and> set (gi_recipients gj) \<subseteq> set (gi_recipients gi)"
    if "governedGrantCovers g j gj t" "grantCoversIntent g j t" for j gj t
    using that ok gi gs
    by (auto simp: assertGrantDoesNotExpand_def governedGrantCovers_def grantCoversIntent_def list_ex_iff list_all_iff
        Let_def split: if_splits)
  then have covall: "\<forall>j gj t. governedGrantCovers g j gj t \<and> grantCoversIntent g j t \<longrightarrow>
       ai_capabilityRef j = ai_capabilityRef (ar_intentSnapshot cur) \<and>
       ai_operation j = ai_operation (ar_intentSnapshot cur) \<and>
       ai_estimatedCostMicros j \<le> ai_estimatedCostMicros (ar_intentSnapshot cur) \<and>
       gi_capabilityVersion gj = gi_capabilityVersion gi \<and>
       set (gi_resourceRefs gj) \<subseteq> set (gi_resourceRefs gi) \<and> set (gi_recipients gj) \<subseteq> set (gi_recipients gi)"
    by blast
  from res show ?thesis
  proof (rule resolveApproval_Inr)
    fix cur'
    assume r: "approvalRow (env 1 db) (ra_approvalRequestId inp) = Some cur'" "ar_revision cur' = ra_expectedRevision inp"
      "a = resolved_approval cur' inp" "adb_grants db' = adb_grants (env 1 db) @ (case ra_grant inp of None \<Rightarrow> [] | Some g \<Rightarrow> [g])"
      "\<And>g. ra_grant inp = Some g \<Longrightarrow> grantRow (env 1 db) (gr_id g) = None"
    have "cur' = cur"
      using approvals.same_revision_same_row [OF interferenceD [OF assms(1)] cur(1)] r(1,2) by (simp add: inp_def)
    moreover have "grantRow db' (gr_id g) = Some g" using r(4) r(5) by (simp add: grantRow_def row_of_append inp_def)
    ultimately show ?thesis
      using cur gi late auth covall r(1,3)
      by (intro exI [of _ cur] exI [of _ gi] conjI) (simp_all add: inp_def resolved_approval_def not_le)
  qed
qed

section \<open>Witnesses\<close>

definition example_read_part :: governed_intent_part where
  "example_read_part = \<lparr>gi_threadId = ''thread-1'', gi_actionKind = READ, gi_capabilityVersion = ''1.0.0'',
     gi_targets = [\<lparr>at_type = ''mailbox'', at_ref = ''mailbox:1''\<rparr>], gi_resourceRefs = [''mailbox:1''],
     gi_disclosure = disc_none, gi_recipients = [], gi_credentialOrAccessChange = False,
     gi_expiresAt = ''2024-01-02T00:00:00.000Z'',
     gi_modelClassification = \<lparr>mc_actionKind = READ, mc_suggestedRisk = LOW, mc_reasonCode = ''reading''\<rparr>,
     gi_deterministicFacts = [], gi_finalRisk = LOW\<rparr>"

definition example_read :: action_intent where
  "example_read = example_intent\<lparr>ai_operation := ''list'', ai_sideEffect := effect_none, ai_reversible := True,
     ai_governed := Some example_read_part\<rparr>"

definition example_facts :: capability_authorization_facts where
  "example_facts = \<lparr>cf_lifecycle = cap_active, cf_healthStatus = hs_healthy, cf_version = ''1.0.0'',
     cf_operations = [''list''], cf_dataClassifications = [class_private]\<rparr>"

definition example_allow_rule :: permission_policy_rule where
  "example_allow_rule = \<lparr>pr_id = ''rule-2'', pr_effect = rule_ALLOW, pr_capabilityRefs = [''mail''], pr_operations = [''list''],
     pr_resourcePrefixes = [''mailbox:''], pr_dataClassifications = [class_private],
     pr_sideEffects = [effect_none], pr_maxCostMicros = 1000, pr_reasonCode = ''safe_read''\<rparr>"

definition example_governed_scope :: governed_scope_part where
  "example_governed_scope = \<lparr>gs_capabilityVersion = ''1.0.0'', gs_resourceIdentities = [''mailbox:1''],
     gs_disclosure = disc_none, gs_recipients = [], gs_credentialOrAccessChange = False\<rparr>"

definition example_governed_input :: governed_grant_input where
  "example_governed_input = \<lparr>gg_kind = long_term, gg_intent = example_read, gg_approvalRequestId = ''approval-1'',
     gg_scope = (exactScope example_read)\<lparr>sc_governed := Some example_governed_scope\<rparr>,
     gg_expiresAt = ''2024-02-01T00:00:00.000Z'', gg_maxUses = 5, gg_maxTotalCostMicros = 500\<rparr>"

definition example_governed_grant :: grant_record where
  "example_governed_grant = (case create_governed_grant example_governed_input ''grant-3'' ''2024-01-01T00:00:01.000Z'' of
     Inl _ \<Rightarrow> example_grant | Inr g \<Rightarrow> g)"

lemmas example_governed_defs = example_read_part_def example_read_def example_governed_scope_def
  example_governed_input_def example_defs

lemma example_governed_created:
  "create_governed_grant example_governed_input ''grant-3'' ''2024-01-01T00:00:01.000Z'' = Inr example_governed_grant"
  unfolding example_governed_grant_def
  by (simp add: create_governed_grant_def bounded_def long_term_unsafe_def Let_def example_governed_defs)

lemma create_governed_grant_new: "create_governed_grant inp k now = Inr g \<Longrightarrow> gr_id g = k \<and> gr_revision g = 1"
  by (auto simp: create_governed_grant_def Let_def split: option.splits if_splits)

definition example_granted_db :: authz_db where
  "example_granted_db = example_db\<lparr>adb_grants := [example_governed_grant]\<rparr>"

lemma example_covers:
  "governedGrantCovers example_governed_grant example_read example_read_part ''2024-01-01T00:00:02.000Z''"
  unfolding example_governed_grant_def
  by (simp add: create_governed_grant_def bounded_def long_term_unsafe_def Let_def example_governed_defs
      governedGrantCovers_def grantCoversIntent_def resource_in_scope_def frequencyWithinScope_def)

lemma example_grant_id: "gr_id example_governed_grant = ''grant-3''" "gr_sourceApprovalRequestId example_governed_grant = ''approval-1''"
    "gr_ownerId example_governed_grant = ai_ownerId example_read" "gr_agentId example_governed_grant = ai_agentId example_read"
  using create_governed_grant_new [OF example_governed_created]
  by (simp_all add: example_governed_grant_def create_governed_grant_def bounded_def long_term_unsafe_def Let_def
      example_governed_defs)

lemma example_grant_consumed:
  "\<exists>db' g. consumeGrant example_granted_db (governed_consumption example_read example_governed_grant ''2024-01-01T00:00:02.000Z'') =
     Inr (db', g) \<and> gr_id g = ''grant-3'' \<and> gr_scope g = gr_scope example_governed_grant"
proof -
  let ?c = "governed_consumption example_read example_governed_grant ''2024-01-01T00:00:02.000Z''"
  have row: "grantRow example_granted_db (cg_grantId ?c) = Some example_governed_grant"
    by (simp add: grantRow_def example_granted_db_def governed_consumption_def)
  have consumable: "grant_consumable example_governed_grant ?c"
    using example_covers governedGrantCovers_live [OF example_covers]
    unfolding example_governed_grant_def
    by (simp add: create_governed_grant_def bounded_def long_term_unsafe_def Let_def example_governed_defs
        grant_consumable_def governed_consumption_def)
  obtain db1 where ins: "insert_usage (updateGrant example_granted_db (consumed_grant example_governed_grant ?c))
      example_governed_grant ?c (''authorization-usage:'' @ ai_id example_read) (ai_operation example_read) = Inr db1"
    by (simp add: insert_usage_def insert_usage_trace_def ensureMetadataPayload_def updateGrant_def example_granted_db_def
        governed_consumption_def example_grant_id example_governed_defs Let_def has_row_def)
  have tables: "adb_headroom example_granted_db" "adb_usage example_granted_db = []"
    "approvalRow example_granted_db (gr_sourceApprovalRequestId example_governed_grant) = Some example_approval"
    "ar_policyAuthorization example_approval = None"
    by (simp_all add: example_granted_db_def example_db_def empty_authz_db_def approvalRow_def example_grant_id
        example_approval_def)
  have c: "cg_usageId ?c = Some (''authorization-usage:'' @ ai_id example_read)" "cg_operation ?c = Some (ai_operation example_read)"
    "cg_expectedRevision ?c = gr_revision example_governed_grant" "ai_operation example_read \<noteq> []"
    by (simp_all add: governed_consumption_def example_read_def)
  have "consumeGrant example_granted_db ?c = Inr (db1, consumed_grant example_governed_grant ?c)"
    using row consumable ins tables c
    by (simp add: consumeGrant_def assertApprovalPolicyCurrent_def)
  then show ?thesis by (simp add: consumed_grant_def example_grant_id)
qed

lemma example_governed_allowed:
  "\<exists>db'. governed_evaluate (\<lambda>n db. db) (\<lambda>d r. Inr ()) (Inr (Some example_facts)) ''approval-9''
      \<lparr>pp_version = ''1'', pp_rules = []\<rparr> ''2024-01-01T00:00:02.000Z'' example_granted_db example_read example_options =
    (db', Inr (decision_ALLOW (basis_grant ''grant-3'') (gr_scope example_governed_grant)))"
proof -
  have v: "validateGovernedActionIntent example_read = Inr ()"
    "capabilityDenial (Some example_facts) example_read example_read_part = None"
    "ai_governed example_read = Some example_read_part" by code_simp+
  have l: "listGrants example_granted_db (ai_ownerId example_read) (ai_agentId example_read) = [example_governed_grant]"
    by (simp add: listGrants_def example_granted_db_def example_grant_id)
  from v have "freezeGovernedActionIntent example_read = Inr example_read" by (simp add: freeze_Inr)
  with v l example_covers example_grant_consumed show ?thesis
    by (auto simp: governed_evaluate_def)
qed

theorem governed_allow_sound_witness:
  "\<exists>db'. governed_evaluate (\<lambda>n db. db) (\<lambda>d r. Inr ()) (Inr (Some example_facts)) ''approval-9''
      \<lparr>pp_version = ''1'', pp_rules = []\<rparr> ''2024-01-01T00:00:02.000Z'' example_granted_db example_read example_options
    = (db', Inr (decision_ALLOW (basis_grant ''grant-3'') (gr_scope example_governed_grant))) \<and>
    charged_use example_granted_db db' example_governed_grant example_read ''2024-01-01T00:00:02.000Z''"
proof -
  let ?e = "governed_evaluate (\<lambda>n db. db) (\<lambda>d r. Inr ()) (Inr (Some example_facts)) ''approval-9''
      \<lparr>pp_version = ''1'', pp_rules = []\<rparr> ''2024-01-01T00:00:02.000Z'' example_granted_db example_read example_options"
  obtain db' where e: "?e = (db', Inr (decision_ALLOW (basis_grant ''grant-3'') (gr_scope example_governed_grant)))"
    using example_governed_allowed by blast
  have g: "within_budget example_governed_grant"
    by (simp add: example_governed_grant_def create_governed_grant_def bounded_def long_term_unsafe_def Let_def
        example_governed_defs within_budget_def)
  then have inv: "authz_inv example_granted_db"
    using example_db_ok(1) by (simp add: authz_inv_def example_granted_db_def)
  have "adb_usage example_granted_db = []" by (simp add: example_granted_db_def example_db_def empty_authz_db_def)
  moreover have "grantRow example_granted_db ''grant-3'' = Some example_governed_grant"
    by (simp add: grantRow_def example_granted_db_def example_grant_id)
  ultimately show ?thesis
    using governed_allow_sound [OF interference_id inv e] e by (auto simp: already_charged_def)
qed

theorem long_term_grant_safe_witness:
  "ai_sideEffect example_read = effect_none \<and> fresh_grant example_governed_grant"
proof -
  from long_term_grant_safe [OF example_governed_created _ example_covers] show ?thesis
    by (simp add: example_governed_input_def)
qed

text \<open>A critical request: a change of credentials, approved once with recent authentication.\<close>

definition example_critical :: action_intent where
  "example_critical = example_intent\<lparr>ai_governed := Some (example_read_part\<lparr>gi_actionKind := CREDENTIAL_OR_ACCESS,
     gi_credentialOrAccessChange := True, gi_finalRisk := CRITICAL\<rparr>)\<rparr>"

definition example_critical_grant :: grant_record where
  "example_critical_grant = example_grant\<lparr>gr_id := ''grant-4'', gr_kind := one_time,
     gr_scope := (exactScope example_critical)\<lparr>sc_governed := Some example_governed_scope\<rparr>,
     gr_intentFingerprint := Some (actionIntentFingerprint example_critical)\<rparr>"

definition example_critical_approval :: approval_request where
  "example_critical_approval = (governed_approval example_critical (the (ai_governed example_critical))
     \<lparr>eo_uiAvailable = True, eo_approvalExpiresAt = ''2024-01-02T00:00:00.000Z''\<rparr> ''approval-1'' ''2024-01-01T00:00:00.000Z'')"

definition example_critical_db :: authz_db where
  "example_critical_db = example_db\<lparr>adb_approvals := [example_critical_approval]\<rparr>"

theorem governed_approval_no_expansion_witness:
  "\<exists>db' a. respond_governed (\<lambda>n db. db) ''2024-01-01T00:00:01.000Z'' example_critical_db ''approval-1'' 1
      (actionIntentFingerprint example_critical) (governed_approved example_critical_grant (Some ''auth-1'')) = Inr (db', a) \<and>
    ar_recentAuthenticationRef a = Some ''auth-1'' \<and> grantRow db' ''grant-4'' = Some example_critical_grant"
proof -
  let ?r = "respond_governed (\<lambda>n db. db) ''2024-01-01T00:00:01.000Z'' example_critical_db ''approval-1'' 1
      (actionIntentFingerprint example_critical) (governed_approved example_critical_grant (Some ''auth-1''))"
  have ok: "assertGrantDoesNotExpand example_critical example_critical_grant = Inr ()"
    by (simp add: assertGrantDoesNotExpand_def example_critical_def example_critical_grant_def example_governed_scope_def
        example_read_part_def example_grant_def example_intent_def exactScope_def)
  have a: "ar_id example_critical_approval = ''approval-1''" "ar_revision example_critical_approval = 1"
    "ar_status example_critical_approval = ap_pending" "ar_intentSnapshot example_critical_approval = example_critical"
    "ar_semanticSnapshotHash example_critical_approval = actionIntentFingerprint example_critical"
    "ar_expiresAt example_critical_approval = ''2024-01-02T00:00:00.000Z''"
    "ar_policyAuthorization example_critical_approval = None"
    "ar_governed example_critical_approval = Some \<lparr>ga_finalRisk = CRITICAL, ga_recentAuthenticationRequired = True\<rparr>"
    by (simp_all add: example_critical_approval_def governed_approval_def new_approval_def example_critical_def)
  have f: "adb_headroom example_critical_db" "adb_grants example_critical_db = []"
    "approvalRow example_critical_db ''approval-1'' = Some example_critical_approval"
    by (simp_all add: example_critical_db_def example_db_def empty_authz_db_def approvalRow_def a(1))
  have g: "gr_id example_critical_grant = ''grant-4''" "gr_revision example_critical_grant = 1"
    by (simp_all add: example_critical_grant_def example_grant_def)
  obtain db' b where r: "?r = Inr (db', b)" and st: "ar_status b = ap_approved"
    by (simp add: respond_governed_def f a ok g resolveApproval_def assertApprovalPolicyCurrent_def grantRow_def
        insertGrant_def resolved_approval_def Let_def)
  from governed_approval_no_expansion [OF interference_id r st] r g show ?thesis by auto
qed

text \<open>The answer may name a wider data classification than the intent that was approved, and the grant is stored.\<close>

lemma approved_grant_may_widen:
  "\<exists>g j gj. assertGrantDoesNotExpand example_read g = Inr () \<and>
     governedGrantCovers g j gj ''2024-01-01T00:00:02.000Z'' \<and> grantCoversIntent g j ''2024-01-01T00:00:02.000Z'' \<and>
     CLASSIFICATION_RANK (ai_dataClassification example_read) < CLASSIFICATION_RANK (ai_dataClassification j) \<and>
     ai_sideEffect example_read = effect_none \<and> ai_sideEffect j = effect_irreversible"
proof -
  let ?scope = "(exactScope example_read)\<lparr>sc_maxDataClassification := class_restricted,
      sc_sideEffects := [effect_irreversible], sc_governed := Some example_governed_scope\<rparr>"
  let ?g = "example_grant\<lparr>gr_scope := ?scope\<rparr>"
  let ?j = "example_read\<lparr>ai_dataClassification := class_restricted, ai_sideEffect := effect_irreversible\<rparr>"
  have c: "grantCoversIntent ?g ?j ''2024-01-01T00:00:02.000Z''"
    by (simp add: grantCoversIntent_def resource_in_scope_def frequencyWithinScope_def example_governed_defs)
  have "assertGrantDoesNotExpand example_read ?g = Inr ()"
    by (simp add: assertGrantDoesNotExpand_def example_governed_defs)
  moreover have "governedGrantCovers ?g ?j example_read_part ''2024-01-01T00:00:02.000Z''"
    unfolding governedGrantCovers_def using c
    by (simp add: example_governed_scope_def example_read_part_def)
  ultimately show ?thesis using c
    by (intro exI [of _ ?g] exI [of _ ?j] exI [of _ example_read_part]) (simp add: example_governed_defs)
qed

end
