(* ===== verification/Scheduler.thy ===== *)
theory Scheduler
  imports Authorization_Store JsDate
begin

text \<open>
  Scheduled jobs: the record of \<open>packages/application/src/ports/coordination.ts\<close>, the store operations of
  \<open>packages/persistence-sqlite/src/sqlite-durable-operations.ts\<close> and the service
  \<open>packages/application/src/services/scheduler-service.ts\<close>.

  \<open>dispatchDue\<close> works through the due jobs one after the other; an error ends it, and what it did before
  stays done. Its ports are arguments: \<open>authority\<close> and \<open>grantsOf\<close> are what the lease and the grant store
  answer for the \<open>n\<close>-th job, \<open>ingest\<close> the trigger port with its own state, and \<open>env n\<close> what other clients
  do to the job store before the service writes for the \<open>n\<close>-th job.
\<close>

section \<open>Jobs and their store\<close>

datatype job_status = job_active | job_paused | job_cancelled

record scheduled_job =
  sj_id :: string
  sj_revision :: int
  sj_ownerId :: OwnerId
  sj_agentId :: AgentId
  sj_threadId :: "ThreadId option"
  sj_payloadRef :: string
  sj_sourceProofRef :: string
  sj_dataClassification :: product_data_classification
  sj_authorizationRef :: string
  sj_taskScopeRef :: string
  sj_capabilityRef :: string
  sj_operation :: string
  sj_resourceRef :: string
  sj_sideEffect :: action_side_effect
  sj_estimatedCostMicros :: int
  sj_intervalMs :: int
  sj_minimumIntervalMs :: int
  sj_expiresAt :: string
  sj_revokedAt :: "string option"
  sj_nextRunAt :: string
  sj_occurrence :: int
  sj_status :: job_status

record thread_scope_row =
  ts_id :: ThreadId
  ts_ownerId :: OwnerId
  ts_agentId :: AgentId

record jobs_db =
  jdb_headroom :: bool
  jdb_payloads :: "payload_row list"
  jdb_threads :: "thread_scope_row list"
  jdb_jobs :: "scheduled_job list"

definition readJob :: "jobs_db \<Rightarrow> string \<Rightarrow> scheduled_job option" where
  "readJob db jobId = row_of sj_id jobId (jdb_jobs db)"

definition assertPayloadScope :: "payload_row list \<Rightarrow> string \<Rightarrow> OwnerId \<Rightarrow> AgentId \<Rightarrow> unit result" where
  "assertPayloadScope payloads ref ownerId agentId =
     (if list_ex (\<lambda>p. py_ref p = ref \<and> py_ownerId p = ownerId \<and> py_agentId p = agentId) payloads
      then Inr () else port_fail INVALID_OPERATION)"

definition upsertJob :: "jobs_db \<Rightarrow> scheduled_job \<Rightarrow> int option \<Rightarrow> (jobs_db \<times> scheduled_job) result" where
  "upsertJob db job expectedRevision =
     (if \<not> jdb_headroom db then port_fail CONFLICT
      else let current = readJob db (sj_id job)
        in if map_option sj_revision current \<noteq> expectedRevision then port_fail CONFLICT
           else if (case current of None \<Rightarrow> False
                    | Some c \<Rightarrow> sj_ownerId c \<noteq> sj_ownerId job \<or> sj_agentId c \<noteq> sj_agentId job)
             then port_fail CONFLICT
           else (case assertPayloadScope (jdb_payloads db) (sj_payloadRef job) (sj_ownerId job) (sj_agentId job) of
                   Inl e \<Rightarrow> Inl e
                 | Inr _ \<Rightarrow>
                     if (case sj_threadId job of None \<Rightarrow> False
                         | Some t \<Rightarrow> \<not> list_ex (\<lambda>r. ts_id r = t \<and> ts_ownerId r = sj_ownerId job \<and>
                             ts_agentId r = sj_agentId job) (jdb_threads db))
                       then port_fail INVALID_OPERATION
                     else let stored = job\<lparr>sj_revision := (case current of None \<Rightarrow> 0 | Some c \<Rightarrow> sj_revision c) + 1\<rparr>
                          in if sj_revision stored < 0 then Inl OtherError
                             else Inr (db\<lparr>jdb_jobs := put_row sj_id stored (jdb_jobs db)\<rparr>, stored)))"

definition assertLimit :: "int \<Rightarrow> unit result" where
  "assertLimit limit = (if limit < 0 \<or> limit > 1000 then port_fail INVALID_OPERATION else Inr ())"

definition listDue :: "jobs_db \<Rightarrow> string \<Rightarrow> int \<Rightarrow> scheduled_job list result" where
  "listDue db at limit = (case assertLimit limit of
     Inl e \<Rightarrow> Inl e
   | Inr _ \<Rightarrow> Inr (take (nat limit) (sort_key (\<lambda>j. (sj_nextRunAt j, sj_id j))
       (filter (\<lambda>j. sj_status j = job_active \<and> sj_nextRunAt j \<le> at) (jdb_jobs db)))))"

definition cancelJob :: "jobs_db \<Rightarrow> string \<Rightarrow> int \<Rightarrow> (jobs_db \<times> scheduled_job) result" where
  "cancelJob db jobId expectedRevision =
     (if \<not> jdb_headroom db then port_fail CONFLICT
      else case readJob db jobId of
        None \<Rightarrow> port_fail NOT_FOUND
      | Some current \<Rightarrow>
          if sj_revision current \<noteq> expectedRevision then port_fail CONFLICT
          else if sj_status current = job_cancelled then Inr (db, current)
          else let cancelled = current\<lparr>sj_revision := sj_revision current + 1, sj_status := job_cancelled\<rparr>
               in Inr (db\<lparr>jdb_jobs := put_row sj_id cancelled (jdb_jobs db)\<rparr>, cancelled))"

inductive jobs_step :: "jobs_db \<Rightarrow> jobs_db \<Rightarrow> bool" where
  upsert: "upsertJob db j e = Inr (db', s) \<Longrightarrow> jobs_step db db'"
| cancel: "cancelJob db i e = Inr (db', s) \<Longrightarrow> jobs_step db db'"
| other: "jdb_jobs db' = jdb_jobs db \<Longrightarrow> jobs_step db db'"

lemma readJob_id: "readJob db i = Some j \<Longrightarrow> sj_id j = i"
  using row_of_SomeD by (fastforce simp: readJob_def)

lemma upsertJob_Inr:
  assumes "upsertJob db j e = Inr (db', s)"
  shows "map_option sj_revision (readJob db (sj_id j)) = e \<and>
    s = j\<lparr>sj_revision := (case e of None \<Rightarrow> 0 | Some n \<Rightarrow> n) + 1\<rparr> \<and>
    (\<forall>k. readJob db' k = (if k = sj_id j then Some s else readJob db k)) \<and>
    (\<forall>c. readJob db (sj_id j) = Some c \<longrightarrow> sj_ownerId c = sj_ownerId j \<and> sj_agentId c = sj_agentId j)"
  using assms unfolding upsertJob_def Let_def
  by (auto simp: readJob_def row_of_put_row split: if_splits sum.splits option.splits)

lemma cancelJob_Inr:
  assumes "cancelJob db i e = Inr (db', s)"
  shows "\<exists>c. readJob db i = Some c \<and> sj_revision c = e \<and> sj_status s = job_cancelled \<and>
    (sj_status c = job_cancelled \<and> db' = db \<and> s = c \<or>
     s = c\<lparr>sj_revision := sj_revision c + 1, sj_status := job_cancelled\<rparr> \<and>
     (\<forall>k. readJob db' k = (if k = i then Some s else readJob db k)))"
  using assms readJob_id [of db i] unfolding cancelJob_def Let_def
  by (auto simp: readJob_def row_of_put_row split: if_splits option.splits)

lemma jobs_step_advances:
  assumes "jobs_step db db'" and "readJob db k = Some j"
  shows "\<exists>j'. readJob db' k = Some j' \<and> (j' = j \<or> sj_revision j < sj_revision j')"
  using assms
proof (induction rule: jobs_step.induct)
  case (upsert db j' e db' s)
  then show ?case using upsertJob_Inr [OF upsert.hyps] by (cases "k = sj_id j'") auto
next
  case (cancel db i e db' s)
  then show ?case using cancelJob_Inr [OF cancel.hyps] by (cases "k = i") auto
qed (simp add: readJob_def)

interpretation jobs: versioned_table readJob sj_revision jobs_step
  by unfold_locales (rule jobs_step_advances)

section \<open>Schedules\<close>

definition assertScheduleShape :: "scheduled_job \<Rightarrow> unit result" where
  "assertScheduleShape job =
     (if \<not> list_all (\<lambda>v. is_safe_integer v \<and> v \<ge> 0)
            [sj_intervalMs job, sj_minimumIntervalMs job, sj_occurrence job, sj_estimatedCostMicros job] \<or>
         sj_intervalMs job \<le> 0 \<or>
         \<not> isCanonicalTimestamp (sj_nextRunAt job) \<or>
         \<not> isCanonicalTimestamp (sj_expiresAt job) \<or>
         (case sj_revokedAt job of None \<Rightarrow> False | Some t \<Rightarrow> \<not> isCanonicalTimestamp t) \<or>
         length (sj_id job) > 64 \<or>
         length (sj_authorizationRef job) = 0 \<or>
         length (sj_taskScopeRef job) = 0
      then port_fail INVALID_OPERATION else Inr ())"

definition date_le :: "string \<Rightarrow> string \<Rightarrow> bool" where
  "date_le a b = (case (date_parse a, date_parse b) of (Some t, Some u) \<Rightarrow> t \<le> u | _ \<Rightarrow> False)"

definition grantAllowsJob :: "grant_record \<Rightarrow> scheduled_job \<Rightarrow> bool" where
  "grantAllowsJob grant job =
     (let s = gr_scope grant;
          intervalAllowed = fq_count (sc_maxFrequency s) \<ge> 1 \<and>
            (case fq_intervalMs (sc_maxFrequency s) of None \<Rightarrow> False | Some n \<Rightarrow> sj_intervalMs job \<ge> n);
          resourceAllowed = resource_in_scope s (sj_resourceRef job)
      in gr_kind grant = long_term \<and>
         gr_ownerId grant = sj_ownerId job \<and>
         gr_agentId grant = sj_agentId job \<and>
         sc_capabilityRef s = sj_capabilityRef job \<and>
         sj_operation job \<in> set (sc_operations s) \<and>
         resourceAllowed \<and>
         CLASSIFICATION_RANK (sj_dataClassification job) \<le> CLASSIFICATION_RANK (sc_maxDataClassification s) \<and>
         sj_sideEffect job \<in> set (sc_sideEffects s) \<and>
         sj_estimatedCostMicros job \<le> sc_maxCostMicrosPerUse s \<and>
         intervalAllowed \<and>
         date_le (sj_expiresAt job) (gr_expiresAt grant) \<and>
         gr_uses grant < gr_maxUses grant \<and>
         gr_spentCostMicros grant + sj_estimatedCostMicros job \<le> gr_maxTotalCostMicros grant)"

definition disabledReason :: "scheduled_job \<Rightarrow> grant_record option \<Rightarrow> string \<Rightarrow> string option" where
  "disabledReason job grant now =
     (if sj_revokedAt job \<noteq> None then Some ''SCHEDULE_AUTHORIZATION_REVOKED''
      else if sj_expiresAt job \<le> now then Some ''SCHEDULE_AUTHORIZATION_EXPIRED''
      else if sj_intervalMs job < sj_minimumIntervalMs job then Some ''SCHEDULE_FREQUENCY_EXCEEDS_SCOPE''
      else case grant of
        None \<Rightarrow> Some ''SCHEDULE_AUTHORIZATION_NOT_FOUND''
      | Some g \<Rightarrow>
          if gr_revokedAt g \<noteq> None then Some ''SCHEDULE_AUTHORIZATION_REVOKED''
          else if now < gr_validFrom g \<or> now \<ge> gr_expiresAt g then Some ''SCHEDULE_AUTHORIZATION_EXPIRED''
          else if \<not> grantAllowsJob g job then Some ''SCHEDULE_TASK_OUTSIDE_GRANT_SCOPE''
          else None)"

text \<open>An unparsable instant makes the arithmetic NaN, and formatting it throws.\<close>

definition nextOccurrence :: "scheduled_job \<Rightarrow> string \<Rightarrow> (int \<times> string) result" where
  "nextOccurrence job now = (case (date_parse (sj_nextRunAt job), date_parse now) of
     (Some scheduledAt, Some nowMs) \<Rightarrow>
       let intervalsElapsed = max 1 ((nowMs - scheduledAt) div sj_intervalMs job + 1)
       in (case toISOString (scheduledAt + intervalsElapsed * sj_intervalMs job) of
             Inl e \<Rightarrow> Inl e
           | Inr nextRunAt \<Rightarrow> Inr (sj_occurrence job + intervalsElapsed, nextRunAt))
   | _ \<Rightarrow> Inl RangeError)"

definition stableOccurrenceRef :: "scheduled_job \<Rightarrow> string" where
  "stableOccurrenceRef job = sj_id job @ '':'' @ show_int (sj_occurrence job)"

section \<open>Dispatch\<close>

record scheduler_authority_fence =
  sf_leaseId :: AuthorityLeaseId
  sf_fencingToken :: int

record schedule_trigger =
  st_messageId :: string
  st_correlationId :: string
  st_causationId :: string
  st_idempotencyKey :: string
  st_ownerId :: OwnerId
  st_agentId :: AgentId
  st_actorId :: string
  st_dataClassification :: product_data_classification
  st_triggerId :: string
  st_sourceId :: string
  st_occurredAt :: string
  st_threadId :: "ThreadId option"
  st_payloadRef :: string
  st_sourceProofRef :: string

record trigger_admission_result =
  ta_resultRef :: string
  ta_replayed :: bool

datatype dispatch_outcome = out_dispatched | out_duplicate | out_disabled

record scheduler_dispatch_record =
  sd_jobId :: string
  sd_outcome :: dispatch_outcome
  sd_reasonCode :: string
  sd_triggerResultRef :: "string option"
  sd_nextRunAt :: "string option"

definition schedule_trigger_of :: "scheduled_job \<Rightarrow> schedule_trigger" where
  "schedule_trigger_of job =
     (let occurrenceRef = stableOccurrenceRef job
      in \<lparr>st_messageId = ''schedule-message:'' @ occurrenceRef,
          st_correlationId = ''schedule-correlation:'' @ occurrenceRef,
          st_causationId = ''schedule-job:'' @ sj_id job,
          st_idempotencyKey = ''schedule-command:'' @ occurrenceRef,
          st_ownerId = sj_ownerId job, st_agentId = sj_agentId job,
          st_actorId = ''scheduler:'' @ sj_id job, st_dataClassification = sj_dataClassification job,
          st_triggerId = ''schedule-trigger:'' @ occurrenceRef, st_sourceId = sj_id job,
          st_occurredAt = sj_nextRunAt job, st_threadId = sj_threadId job,
          st_payloadRef = sj_payloadRef job, st_sourceProofRef = sj_sourceProofRef job\<rparr>)"

definition scheduler_authority :: "(AuthorityLeaseId \<times> int) option \<Rightarrow> scheduler_authority_fence \<Rightarrow> unit result" where
  "scheduler_authority current expected = (case current of
     None \<Rightarrow> port_fail NOT_AUTHORITATIVE
   | Some (leaseId, token) \<Rightarrow>
       if leaseId \<noteq> sf_leaseId expected \<or> token \<noteq> sf_fencingToken expected then port_fail NOT_AUTHORITATIVE
       else Inr ())"

definition disable :: "jobs_db \<Rightarrow> scheduled_job \<Rightarrow> jobs_db result" where
  "disable db job = (case upsertJob db (job\<lparr>sj_status := job_cancelled\<rparr>) (Some (sj_revision job)) of
     Inr (db', _) \<Rightarrow> Inr db'
   | Inl e \<Rightarrow> if e = ApplicationPortError CONFLICT then Inr db else Inl e)"

text \<open>What \<open>dispatchDue\<close> does for one job: the stores it leaves, and the record or the error.\<close>

definition dispatch_job :: "(jobs_db \<Rightarrow> jobs_db) \<Rightarrow> ('t \<Rightarrow> schedule_trigger \<Rightarrow> ('t \<times> trigger_admission_result) result) \<Rightarrow>
    (AuthorityLeaseId \<times> int) option \<Rightarrow> grant_record list \<Rightarrow> scheduler_authority_fence \<Rightarrow> string \<Rightarrow> scheduled_job \<Rightarrow>
    jobs_db \<Rightarrow> 't \<Rightarrow> (jobs_db \<times> 't) \<times> scheduler_dispatch_record result" where
  "dispatch_job env ingest current grants fence now job db t =
     (case assertScheduleShape job of
        Inl e \<Rightarrow> ((db, t), Inl e)
      | Inr _ \<Rightarrow>
     (case scheduler_authority current fence of
        Inl e \<Rightarrow> ((db, t), Inl e)
      | Inr _ \<Rightarrow>
     (case disabledReason job (List.find (\<lambda>g. gr_id g = sj_authorizationRef job) grants) now of
        Some reasonCode \<Rightarrow>
          (case disable (env db) job of
             Inl e \<Rightarrow> ((env db, t), Inl e)
           | Inr db' \<Rightarrow> ((db', t), Inr \<lparr>sd_jobId = sj_id job, sd_outcome = out_disabled, sd_reasonCode = reasonCode,
               sd_triggerResultRef = None, sd_nextRunAt = None\<rparr>))
      | None \<Rightarrow>
          (case ingest t (schedule_trigger_of job) of
             Inl e \<Rightarrow> ((db, t), Inl e)
           | Inr (t', admission) \<Rightarrow>
               (case nextOccurrence job now of
                  Inl e \<Rightarrow> ((db, t'), Inl e)
                | Inr (occurrence, nextRunAt) \<Rightarrow>
                    (case upsertJob (env db) (job\<lparr>sj_occurrence := occurrence, sj_nextRunAt := nextRunAt\<rparr>)
                            (Some (sj_revision job)) of
                       Inr (db', _) \<Rightarrow> ((db', t'), Inr \<lparr>sd_jobId = sj_id job,
                         sd_outcome = (if ta_replayed admission then out_duplicate else out_dispatched),
                         sd_reasonCode = (if ta_replayed admission then ''TRIGGER_ALREADY_ADMITTED'' else ''TRIGGER_ADMITTED''),
                         sd_triggerResultRef = Some (ta_resultRef admission), sd_nextRunAt = Some nextRunAt\<rparr>)
                     | Inl e \<Rightarrow>
                         if e = ApplicationPortError CONFLICT
                         then ((env db, t'), Inr \<lparr>sd_jobId = sj_id job, sd_outcome = out_duplicate,
                            sd_reasonCode = ''SCHEDULE_ALREADY_ADVANCED'',
                            sd_triggerResultRef = Some (ta_resultRef admission),
                            sd_nextRunAt = map_option sj_nextRunAt (readJob (env db) (sj_id job))\<rparr>)
                         else ((env db, t'), Inl e)))))))"

fun dispatch_jobs :: "(nat \<Rightarrow> jobs_db \<Rightarrow> jobs_db) \<Rightarrow> ('t \<Rightarrow> schedule_trigger \<Rightarrow> ('t \<times> trigger_admission_result) result) \<Rightarrow>
    (nat \<Rightarrow> AgentId \<Rightarrow> (AuthorityLeaseId \<times> int) option) \<Rightarrow> (nat \<Rightarrow> OwnerId \<Rightarrow> AgentId \<Rightarrow> grant_record list) \<Rightarrow>
    scheduler_authority_fence \<Rightarrow> string \<Rightarrow> nat \<Rightarrow> scheduled_job list \<Rightarrow> jobs_db \<Rightarrow> 't \<Rightarrow>
    (jobs_db \<times> 't) \<times> scheduler_dispatch_record list result" where
  "dispatch_jobs env ingest authority grantsOf fence now n [] db t = ((db, t), Inr [])"
| "dispatch_jobs env ingest authority grantsOf fence now n (job # jobs) db t =
     (case dispatch_job (env n) ingest (authority n (sj_agentId job)) (grantsOf n (sj_ownerId job) (sj_agentId job))
             fence now job db t of
        (st, Inl e) \<Rightarrow> (st, Inl e)
      | ((db', t'), Inr rec) \<Rightarrow>
          (case dispatch_jobs env ingest authority grantsOf fence now (Suc n) jobs db' t' of
             (st, Inl e) \<Rightarrow> (st, Inl e)
           | (st, Inr recs) \<Rightarrow> (st, Inr (rec # recs))))"

definition dispatchDue :: "(nat \<Rightarrow> jobs_db \<Rightarrow> jobs_db) \<Rightarrow> ('t \<Rightarrow> schedule_trigger \<Rightarrow> ('t \<times> trigger_admission_result) result) \<Rightarrow>
    (nat \<Rightarrow> AgentId \<Rightarrow> (AuthorityLeaseId \<times> int) option) \<Rightarrow> (nat \<Rightarrow> OwnerId \<Rightarrow> AgentId \<Rightarrow> grant_record list) \<Rightarrow>
    scheduler_authority_fence \<Rightarrow> int \<Rightarrow> string \<Rightarrow> jobs_db \<Rightarrow> 't \<Rightarrow>
    (jobs_db \<times> 't) \<times> (string \<times> scheduler_dispatch_record list) result" where
  "dispatchDue env ingest authority grantsOf fence limit now db t =
     (if \<not> is_safe_integer limit \<or> limit \<le> 0 then ((db, t), port_fail INVALID_OPERATION)
      else case listDue db now limit of
        Inl e \<Rightarrow> ((db, t), Inl e)
      | Inr jobs \<Rightarrow>
          (case dispatch_jobs env ingest authority grantsOf fence now 0 jobs db t of
             (st, Inl e) \<Rightarrow> (st, Inl e)
           | (st, Inr recs) \<Rightarrow> (st, Inr (now, recs))))"

section \<open>Occurrence identities\<close>

text \<open>
  Occurrence identities are unique: two jobs present the same idempotency key to the trigger port
  exactly when they are the same job at the same occurrence, so a retry of an occurrence is recognised
  and no two occurrences are ever confused, even though job identifiers may contain the separator.
\<close>

theorem occurrence_key_unique:
  "st_idempotencyKey (schedule_trigger_of j) = st_idempotencyKey (schedule_trigger_of j') \<longleftrightarrow>
     sj_id j = sj_id j' \<and> sj_occurrence j = sj_occurrence j'"
proof
  assume "st_idempotencyKey (schedule_trigger_of j) = st_idempotencyKey (schedule_trigger_of j')"
  then have "sj_id j @ '':'' @ show_int (sj_occurrence j) = sj_id j' @ '':'' @ show_int (sj_occurrence j')"
    by (simp add: schedule_trigger_of_def stableOccurrenceRef_def Let_def)
  then have "sj_id j = sj_id j' \<and> show_int (sj_occurrence j) = show_int (sj_occurrence j')"
    by (rule split_last_colon) (rule show_int_no_colon)+
  then show "sj_id j = sj_id j' \<and> sj_occurrence j = sj_occurrence j'" using show_int_inj by blast
qed (simp add: schedule_trigger_of_def stableOccurrenceRef_def Let_def)

section \<open>The next occurrence\<close>

text \<open>
  The next occurrence is on the grid and in the future. For a well-shaped job the new time is the
  old one plus a whole number of at least one interval, the occurrence counter advances by that number,
  the new time is canonical and strictly after now; when the job was due it is at most one interval
  after now, so occurrences missed while the scheduler was down are skipped and never replayed in a
  burst.
\<close>

theorem next_occurrence_in_future:
  assumes "assertScheduleShape job = Inr ()" and "nextOccurrence job now = Inr (occ, nxt)"
  shows "\<exists>s t n. date_parse (sj_nextRunAt job) = Some s \<and> date_parse now = Some t \<and> 1 \<le> n \<and>
    occ = sj_occurrence job + n \<and> isCanonicalTimestamp nxt \<and> date_parse nxt = Some (s + n * sj_intervalMs job) \<and>
    t < s + n * sj_intervalMs job \<and> (s \<le> t \<longrightarrow> s + n * sj_intervalMs job \<le> t + sj_intervalMs job) \<and>
    (t < s \<longrightarrow> n = 1)"
proof -
  let ?I = "sj_intervalMs job"
  have pos: "0 < ?I" using assms(1) by (auto simp: assertScheduleShape_def split: if_splits)
  from assms(2) obtain s t where st: "date_parse (sj_nextRunAt job) = Some s" "date_parse now = Some t"
    by (auto simp: nextOccurrence_def split: option.splits)
  define q where "q = (t - s) div ?I"
  define n where "n = max 1 (q + 1)"
  have iso: "toISOString (s + n * ?I) = Inr nxt" "occ = sj_occurrence job + n"
    using assms(2) st by (auto simp: nextOccurrence_def n_def q_def Let_def split: sum.splits)
  then have nxt: "isCanonicalTimestamp nxt" "date_parse nxt = Some (s + n * ?I)"
    by (auto simp: toISOString_Inr canonical_iso date_parse_iso)
  have eq: "t - s = ?I * q + (t - s) mod ?I" by (simp add: q_def)
  have r: "0 \<le> (t - s) mod ?I" "(t - s) mod ?I < ?I" using pos by simp_all
  have "t < s + n * ?I \<and> (s \<le> t \<longrightarrow> s + n * ?I \<le> t + ?I) \<and> (t < s \<longrightarrow> n = 1)"
  proof (cases "s \<le> t")
    case True
    then have "0 \<le> q" using pos by (simp add: q_def pos_imp_zdiv_nonneg_iff)
    then have "n = q + 1" by (simp add: n_def)
    then have "n * ?I = ?I * q + ?I" by (simp add: algebra_simps)
    then show ?thesis using eq r True by linarith
  next
    case False
    then have "q < 0" using pos by (simp add: q_def neg_imp_zdiv_neg_iff pos_imp_zdiv_neg_iff)
    then have "n = 1" by (simp add: n_def)
    then show ?thesis using False pos by simp
  qed
  moreover have "1 \<le> n" by (simp add: n_def)
  ultimately show ?thesis using st iso(2) nxt by blast
qed

section \<open>Dispatching\<close>

definition job_authorised :: "scheduled_job \<Rightarrow> grant_record list \<Rightarrow> string \<Rightarrow> bool" where
  "job_authorised job grants now \<longleftrightarrow> sj_revokedAt job = None \<and> now < sj_expiresAt job \<and>
     sj_minimumIntervalMs job \<le> sj_intervalMs job \<and>
     (\<exists>g\<in>set grants. gr_id g = sj_authorizationRef job \<and> gr_revokedAt g = None \<and> gr_validFrom g \<le> now \<and>
        now < gr_expiresAt g \<and> grantAllowsJob g job)"

lemma disabledReason_None:
  "disabledReason job (List.find (\<lambda>g. gr_id g = sj_authorizationRef job) grants) now = None \<Longrightarrow> job_authorised job grants now"
  by (auto simp: disabledReason_def job_authorised_def split: if_splits option.splits dest!: find_SomeD)

lemma disable_step: "disable db job = Inr db' \<Longrightarrow> jobs_step\<^sup>*\<^sup>* db db'"
  by (auto simp: disable_def split: sum.splits if_splits intro: jobs_step.upsert)

lemma dispatch_job_store:
  assumes "dispatch_job env ingest cur grants fence now job db t = ((db', t'), r)"
  shows "db' = db \<or> db' = env db \<or> disable (env db) job = Inr db' \<or> (\<exists>j e s. upsertJob (env db) j e = Inr (db', s))"
  using assms by (auto simp: dispatch_job_def split: sum.splits option.splits if_splits prod.splits)

lemma dispatch_job_steps:
  assumes "jobs_step\<^sup>*\<^sup>* db (env db)" and "dispatch_job env ingest cur grants fence now job db t = ((db', t'), r)"
  shows "jobs_step\<^sup>*\<^sup>* db db'"
  using dispatch_job_store [OF assms(2)] assms(1) disable_step [of "env db" job db'] jobs_step.upsert [of "env db"]
  by (meson rtranclp.rtrancl_into_rtrancl rtranclp.rtrancl_refl rtranclp_trans)

lemma dispatch_jobs_steps:
  assumes "\<And>n d. jobs_step\<^sup>*\<^sup>* d (env n d)"
  shows "jobs_step\<^sup>*\<^sup>* db (fst (fst (dispatch_jobs env ingest authority grantsOf fence now n jobs db t)))"
proof (induction jobs arbitrary: n db t)
  case (Cons job jobs)
  let ?d = "dispatch_job (env n) ingest (authority n (sj_agentId job)) (grantsOf n (sj_ownerId job) (sj_agentId job))
             fence now job db t"
  obtain db' t' r where d: "?d = ((db', t'), r)" by (metis prod.exhaust)
  have s: "jobs_step\<^sup>*\<^sup>* db db'" using dispatch_job_steps [of db "env n", OF assms d] .
  show ?case
  proof (cases r)
    case (Inl e)
    with d s show ?thesis by simp
  next
    case (Inr rec)
    obtain st rs where rest: "dispatch_jobs env ingest authority grantsOf fence now (Suc n) jobs db' t' = (st, rs)"
      by (metis prod.exhaust)
    then have "jobs_step\<^sup>*\<^sup>* db' (fst st)" using Cons.IH [of db' "Suc n" t'] by simp
    with d Inr rest s show ?thesis by (cases rs) auto
  qed
qed simp

lemma dispatch_jobs_length:
  "dispatch_jobs env ingest authority grantsOf fence now n jobs db t = (st, Inr recs) \<Longrightarrow>
     map sd_jobId recs = map sj_id jobs"
proof (induction jobs arbitrary: n db t recs)
  case (Cons job jobs)
  let ?d = "dispatch_job (env n) ingest (authority n (sj_agentId job)) (grantsOf n (sj_ownerId job) (sj_agentId job))
             fence now job db t"
  obtain db' t' r where d: "?d = ((db', t'), r)" by (metis prod.exhaust)
  with Cons.prems obtain rec where r: "r = Inr rec" by (cases r) auto
  with d Cons.prems obtain rs where rest: "dispatch_jobs env ingest authority grantsOf fence now (Suc n) jobs db' t' = (st, Inr rs)"
    and recs: "recs = rec # rs"
    by (auto split: prod.splits sum.splits)
  have "sd_jobId rec = sj_id job"
    using d r by (auto simp: dispatch_job_def split: sum.splits option.splits if_splits)
  with Cons.IH [OF rest] recs show ?case by simp
qed simp

text \<open>
  C37. Only authorised jobs fire. Whatever the other clients and ports do, the trigger port's state
  changes for a job only if the service held the presented authority fence, the job is well-shaped,
  neither revoked nor expired, and a live long-term grant named by the job allows its capability,
  operation, resource, data class, side effect, cost and frequency; and then it receives exactly the
  trigger of the job's current occurrence.
\<close>

theorem only_authorised_jobs_fire:
  assumes "dispatch_job env ingest cur grants fence now job db t = ((db', t'), r)" and "t' \<noteq> t"
  shows "assertScheduleShape job = Inr () \<and> cur = Some (sf_leaseId fence, sf_fencingToken fence) \<and>
    job_authorised job grants now \<and> (\<exists>adm. ingest t (schedule_trigger_of job) = Inr (t', adm))"
proof -
  have sh: "assertScheduleShape job = Inr ()"
    using assms by (cases "assertScheduleShape job") (auto simp: dispatch_job_def)
  have au: "scheduler_authority cur fence = Inr ()"
    using assms sh by (cases "scheduler_authority cur fence") (auto simp: dispatch_job_def)
  let ?d = "disabledReason job (List.find (\<lambda>g. gr_id g = sj_authorizationRef job) grants) now"
  have dr: "?d = None"
    using assms sh au by (cases ?d) (auto simp: dispatch_job_def split: sum.splits)
  obtain adm where "ingest t (schedule_trigger_of job) = Inr (t', adm)"
    using assms sh au dr by (auto simp: dispatch_job_def split: sum.splits if_splits)
  moreover have "cur = Some (sf_leaseId fence, sf_fencingToken fence)"
    using au by (auto simp: scheduler_authority_def split: option.splits if_splits)
  ultimately show ?thesis using sh disabledReason_None [OF dr] by blast
qed

text \<open>
  Dispatchers do not overwrite each other. Suppose a dispatcher read a job and other clients then
  changed the store arbitrarily. If it reports that it advanced the job, the row it replaced is the one
  it read, and the new row is that row with the next occurrence and revision. If it reports that the
  job was already advanced, it wrote nothing, and, unless the store refused writes for lack of disk
  space, the row had indeed been changed by someone else.
\<close>

theorem dispatch_no_lost_update:
  assumes "jobs_step\<^sup>*\<^sup>* db (env db)" and "readJob db (sj_id job) = Some job"
    and "dispatch_job env ingest cur grants fence now job db t = ((db', t'), Inr rec)"
  shows "(sd_reasonCode rec \<in> {''TRIGGER_ADMITTED'', ''TRIGGER_ALREADY_ADMITTED''} \<longrightarrow>
      readJob (env db) (sj_id job) = Some job \<and>
      (\<exists>occ nxt. nextOccurrence job now = Inr (occ, nxt) \<and>
         readJob db' (sj_id job) = Some (job\<lparr>sj_occurrence := occ, sj_nextRunAt := nxt, sj_revision := sj_revision job + 1\<rparr>))) \<and>
    (sd_reasonCode rec = ''SCHEDULE_ALREADY_ADVANCED'' \<longrightarrow>
      db' = env db \<and> (jdb_headroom (env db) \<longrightarrow>
        (\<exists>j'. readJob (env db) (sj_id job) = Some j' \<and> sj_revision job < sj_revision j')))"
proof (cases "disabledReason job (List.find (\<lambda>g. gr_id g = sj_authorizationRef job) grants) now")
  case (Some reason)
  then have "sd_reasonCode rec = reason" using assms(3)
    by (auto simp: dispatch_job_def split: sum.splits)
  moreover have "reason \<notin> {''TRIGGER_ADMITTED'', ''TRIGGER_ALREADY_ADMITTED'', ''SCHEDULE_ALREADY_ADVANCED''}"
    using Some by (auto simp: disabledReason_def split: if_splits option.splits)
  ultimately show ?thesis by auto
next
  case None
  obtain j' where j': "readJob (env db) (sj_id job) = Some j'" "j' = job \<or> sj_revision job < sj_revision j'"
    using jobs.history_advances [OF assms(1,2)] by blast
  from assms(3) None obtain occ nxt where nx: "nextOccurrence job now = Inr (occ, nxt)"
    by (auto simp: dispatch_job_def split: sum.splits if_splits)
  let ?j = "job\<lparr>sj_occurrence := occ, sj_nextRunAt := nxt\<rparr>"
  let ?u = "upsertJob (env db) ?j (Some (sj_revision job))"
  show ?thesis
  proof (cases ?u)
    case (Inl e)
    then have e: "db' = env db" "e = ApplicationPortError CONFLICT" "sd_reasonCode rec = ''SCHEDULE_ALREADY_ADVANCED''"
      using assms(3) None nx by (auto simp: dispatch_job_def split: sum.splits if_splits)
    have "sj_revision job < sj_revision j'" if "jdb_headroom (env db)"
      using Inl e(2) that j'
      by (auto simp: upsertJob_def assertPayloadScope_def Let_def split: if_splits sum.splits)
    with e j'(1) show ?thesis by auto
  next
    case (Inr p)
    then obtain s where u: "?u = Inr (db', s)" and rc: "sd_reasonCode rec \<noteq> ''SCHEDULE_ALREADY_ADVANCED''"
      using assms(3) None nx by (auto simp: dispatch_job_def split: sum.splits if_splits prod.splits)
    have "j' = job" using upsertJob_Inr [OF u] j' by auto
    with upsertJob_Inr [OF u] j'(1) nx rc show ?thesis by simp
  qed
qed

text \<open>
  A dispatch round is bounded and accounted for: it reports each due job exactly once, in the order
  of their due times, at most as many as requested, every reported job was active and due, and the
  store has only moved along store operations.
\<close>

theorem dispatch_round:
  assumes "\<And>n d. jobs_step\<^sup>*\<^sup>* d (env n d)"
    and "dispatchDue env ingest authority grantsOf fence limit now db t = ((db', t'), Inr (checkedAt, recs))"
  shows "checkedAt = now \<and> int (length recs) \<le> limit \<and> jobs_step\<^sup>*\<^sup>* db db' \<and>
    (\<exists>due. listDue db now limit = Inr due \<and> map sd_jobId recs = map sj_id due \<and> sorted (map sj_nextRunAt due) \<and>
       (\<forall>j\<in>set due. sj_status j = job_active \<and> sj_nextRunAt j \<le> now))"
proof -
  from assms(2) obtain due where due: "listDue db now limit = Inr due" and lim: "0 < limit"
    and run: "dispatch_jobs env ingest authority grantsOf fence now 0 due db t = ((db', t'), Inr recs)" "checkedAt = now"
    by (auto simp: dispatchDue_def split: if_splits sum.splits prod.splits)
  note len = dispatch_jobs_length [OF run(1)]
  have st: "jobs_step\<^sup>*\<^sup>* db db'"
    using dispatch_jobs_steps [where env = env and db = db, OF assms(1)] run(1) by (metis fst_conv)
  define all where "all = sort_key (\<lambda>j. (sj_nextRunAt j, sj_id j)) (filter (\<lambda>j. sj_status j = job_active \<and> sj_nextRunAt j \<le> now) (jdb_jobs db))"
  have d: "due = take (nat limit) all" using due by (auto simp: listDue_def all_def split: sum.splits)
  have "sorted (map (\<lambda>j. (sj_nextRunAt j, sj_id j)) all)" by (simp add: all_def)
  then have "sorted (map sj_nextRunAt all)"
    by (induction all) (auto simp: less_eq_prod_def)
  then have "sorted (map sj_nextRunAt due)" by (simp add: d take_map [symmetric] sorted_wrt_take)
  moreover have "\<forall>j\<in>set due. sj_status j = job_active \<and> sj_nextRunAt j \<le> now"
    using set_take_subset [of "nat limit" all] by (auto simp: d all_def)
  moreover have "int (length recs) \<le> limit" using arg_cong [OF len, of length] d lim by simp
  ultimately show ?thesis using run(2) st due len by blast
qed

text \<open>
  C40. When the store refuses writes for lack of disk space it reports a conflict, and the scheduler
  cannot tell this from a lost race: it records the job as already advanced, although its row is
  unchanged and the trigger has been admitted.
\<close>

theorem full_disk_reported_as_advanced:
  assumes "readJob (env db) (sj_id job) = Some job" and "\<not> jdb_headroom (env db)"
    and "assertScheduleShape job = Inr ()" and "scheduler_authority cur fence = Inr ()"
    and "disabledReason job (List.find (\<lambda>g. gr_id g = sj_authorizationRef job) grants) now = None"
    and "ingest t (schedule_trigger_of job) = Inr (t', adm)" and "nextOccurrence job now = Inr (occ, nxt)"
  shows "\<exists>rec. dispatch_job env ingest cur grants fence now job db t = ((env db, t'), Inr rec) \<and>
    sd_reasonCode rec = ''SCHEDULE_ALREADY_ADVANCED'' \<and> readJob (env db) (sj_id job) = Some job"
proof -
  have "upsertJob (env db) j e = port_fail CONFLICT" for j e using assms(2) by (simp add: upsertJob_def)
  with assms show ?thesis by (simp add: dispatch_job_def)
qed

section \<open>Witnesses\<close>

definition example_job :: scheduled_job where
  "example_job = \<lparr>sj_id = ''job-1'', sj_revision = 4, sj_ownerId = ''owner-1'', sj_agentId = ''agent-1'', sj_threadId = None,
     sj_payloadRef = ''payload-1'', sj_sourceProofRef = ''proof-1'', sj_dataClassification = class_private,
     sj_authorizationRef = ''grant-1'', sj_taskScopeRef = ''task-1'', sj_capabilityRef = ''mail'', sj_operation = ''send'',
     sj_resourceRef = ''mailbox:1'', sj_sideEffect = effect_irreversible, sj_estimatedCostMicros = 40,
     sj_intervalMs = 60000, sj_minimumIntervalMs = 1000, sj_expiresAt = ''2024-01-20T00:00:00.000Z'', sj_revokedAt = None,
     sj_nextRunAt = ''2024-01-02T00:00:00.000Z'', sj_occurrence = 7, sj_status = job_active\<rparr>"

definition example_job_grant :: grant_record where
  "example_job_grant = example_grant\<lparr>gr_scope := (exactScope example_intent)\<lparr>sc_maxFrequency := \<lparr>fq_count = 1, fq_intervalMs = Some 60000\<rparr>\<rparr>\<rparr>"

definition example_jobs_db :: jobs_db where
  "example_jobs_db = \<lparr>jdb_headroom = True,
     jdb_payloads = [\<lparr>py_ref = ''payload-1'', py_ownerId = ''owner-1'', py_agentId = ''agent-1'', py_createdAt = ''2024-01-01T00:00:00.000Z''\<rparr>],
     jdb_threads = [], jdb_jobs = [example_job]\<rparr>"

definition example_ingest :: "schedule_trigger list \<Rightarrow> schedule_trigger \<Rightarrow> (schedule_trigger list \<times> trigger_admission_result) result" where
  "example_ingest t r = Inr (t @ [r], \<lparr>ta_resultRef = ''result-1'', ta_replayed = r \<in> set t\<rparr>)"

definition example_now :: string where
  "example_now = ''2024-01-02T00:02:30.000Z''"

abbreviation example_fence :: scheduler_authority_fence where
  "example_fence \<equiv> \<lparr>sf_leaseId = ''lease-1'', sf_fencingToken = 3\<rparr>"

abbreviation example_dispatch :: "(jobs_db \<Rightarrow> jobs_db) \<Rightarrow> (jobs_db \<times> schedule_trigger list) \<times> scheduler_dispatch_record result" where
  "example_dispatch env \<equiv> dispatch_job env example_ingest (Some (''lease-1'', 3)) [example_job_grant] example_fence example_now
     example_job example_jobs_db []"

lemma example_job_facts: "assertScheduleShape example_job = Inr ()"
    "nextOccurrence example_job example_now = Inr (10, ''2024-01-02T00:03:00.000Z'')"
    "readJob example_jobs_db (sj_id example_job) = Some example_job"
    "disabledReason example_job (List.find (\<lambda>g. gr_id g = sj_authorizationRef example_job) [example_job_grant]) example_now = None"
    "scheduler_authority (Some (''lease-1'', 3)) example_fence = Inr ()"
  by code_simp+

theorem next_occurrence_in_future_witness:
  "\<exists>n. nextOccurrence example_job example_now = Inr (sj_occurrence example_job + n, ''2024-01-02T00:03:00.000Z'') \<and> 1 \<le> n"
  using next_occurrence_in_future [OF example_job_facts(1,2)] example_job_facts(2) by auto

lemma example_dispatch_result:
  "\<exists>db' rec. example_dispatch (\<lambda>d. d) = ((db', [schedule_trigger_of example_job]), Inr rec) \<and> sd_reasonCode rec = ''TRIGGER_ADMITTED''"
proof -
  have "\<not> isl (upsertJob example_jobs_db (example_job\<lparr>sj_occurrence := 10, sj_nextRunAt := ''2024-01-02T00:03:00.000Z''\<rparr>)
      (Some (sj_revision example_job)))" by code_simp
  then obtain db' s where "upsertJob example_jobs_db (example_job\<lparr>sj_occurrence := 10, sj_nextRunAt := ''2024-01-02T00:03:00.000Z''\<rparr>)
      (Some (sj_revision example_job)) = Inr (db', s)" by (rule not_islE)
  with example_job_facts show ?thesis by (simp add: dispatch_job_def example_ingest_def)
qed

theorem only_authorised_jobs_fire_witness: "job_authorised example_job [example_job_grant] example_now"
proof -
  obtain db' rec where "example_dispatch (\<lambda>d. d) = ((db', [schedule_trigger_of example_job]), Inr rec)"
    using example_dispatch_result by blast
  from only_authorised_jobs_fire [OF this] show ?thesis by simp
qed

theorem dispatch_no_lost_update_witness:
  "\<exists>db' t' rec. example_dispatch (\<lambda>d. d) = ((db', t'), Inr rec) \<and>
     readJob db' ''job-1'' = Some (example_job\<lparr>sj_occurrence := 10, sj_nextRunAt := ''2024-01-02T00:03:00.000Z'', sj_revision := 5\<rparr>)"
proof -
  obtain db' rec where d: "example_dispatch (\<lambda>d. d) = ((db', [schedule_trigger_of example_job]), Inr rec)"
    and r: "sd_reasonCode rec = ''TRIGGER_ADMITTED''"
    using example_dispatch_result by blast
  from dispatch_no_lost_update [OF _ example_job_facts(3) d] r example_job_facts(2) d
  show ?thesis by (simp add: example_job_def)
qed

theorem full_disk_reported_as_advanced_witness:
  "\<exists>rec. example_dispatch (\<lambda>d. d\<lparr>jdb_headroom := False\<rparr>) =
       ((example_jobs_db\<lparr>jdb_headroom := False\<rparr>, [schedule_trigger_of example_job]), Inr rec) \<and>
     sd_reasonCode rec = ''SCHEDULE_ALREADY_ADVANCED''"
proof -
  have r: "readJob (example_jobs_db\<lparr>jdb_headroom := False\<rparr>) (sj_id example_job) = Some example_job"
    using example_job_facts(3) by (simp add: readJob_def)
  have i: "example_ingest [] (schedule_trigger_of example_job) =
      Inr ([schedule_trigger_of example_job], \<lparr>ta_resultRef = ''result-1'', ta_replayed = False\<rparr>)"
    by (simp add: example_ingest_def)
  from full_disk_reported_as_advanced [where env = "\<lambda>d. d\<lparr>jdb_headroom := False\<rparr>" and db = example_jobs_db
      and ingest = example_ingest and t = "[]", OF r _ example_job_facts(1,5,4) i example_job_facts(2)]
  show ?thesis by auto
qed

end
