(* ===== verification/Attention.thy ===== *)
theory Attention
  imports Authorization_Store JsDate
begin

text \<open>
  Attention: whether and how a result may reach the Owner, and its delivery. The data are those of
  \<open>packages/application/src/ports/coordination.ts\<close>, the decisions those of
  \<open>packages/application/src/services/attention-policy-service.ts\<close>, the store operations those of
  \<open>packages/persistence-sqlite/src/sqlite-durable-operations.ts\<close>.

  \<open>env n\<close> is what other clients do to the store before the \<open>n\<close>-th store call of a method, \<open>clk n\<close> the
  \<open>n\<close>-th reading of the clock, \<open>deliverer\<close> the outcome of the delivery adapter. Urgency and confidence
  are whole numbers here.
\<close>

section \<open>Data\<close>

datatype device_availability = device_available | device_unavailable | device_unknown

record attention_candidate =
  ac_id :: string
  ac_ownerId :: OwnerId
  ac_agentId :: AgentId
  ac_runId :: RunId
  ac_sessionId :: SessionId
  ac_threadId :: "ThreadId option"
  ac_resultRef :: string
  ac_dataClassification :: product_data_classification
  ac_urgency :: int
  ac_confidence :: int
  ac_duplicateKey :: string
  ac_generatedAt :: string
  ac_deviceState :: device_availability
  ac_interruptAuthorizationRef :: "string option"

datatype attention_level = SILENT | INBOX | DIGEST | NOTIFY | INTERRUPT

record attention_decision =
  ad_candidateId :: string
  ad_level :: attention_level
  ad_reasonCode :: string
  ad_interruptAuthorizationRef :: "string option"

record attention_decision_record =
  dr_candidateId :: string
  dr_candidateFingerprint :: string
  dr_ownerId :: OwnerId
  dr_agentId :: AgentId
  dr_runId :: RunId
  dr_duplicateKey :: string
  dr_decision :: attention_decision
  dr_deliveryRequestId :: "string option"
  dr_decidedAt :: string

datatype delivery_status = dl_pending | dl_delivering | dl_delivered

record delivery_request =
  dq_id :: string
  dq_revision :: int
  dq_candidateId :: string
  dq_ownerId :: OwnerId
  dq_agentId :: AgentId
  dq_runId :: RunId
  dq_resultRef :: string
  dq_dataClassification :: product_data_classification
  dq_level :: attention_level
  dq_status :: delivery_status
  dq_assignedClientId :: "string option"
  dq_attempts :: int
  dq_acknowledgementRef :: "string option"
  dq_lastErrorCode :: "string option"
  dq_createdAt :: string
  dq_updatedAt :: string

record attention_policy_state =
  aps_revision :: int
  aps_decisions :: "attention_decision_record list"

record attention_decision_commit =
  cm_ownerId :: OwnerId
  cm_agentId :: AgentId
  cm_expectedRevision :: int
  cm_record :: attention_decision_record
  cm_delivery :: "delivery_request option"

datatype claim_reason = CLAIMED | ALREADY_CLAIMED | ALREADY_DELIVERED

record delivery_claim =
  dc_claimed :: bool
  dc_request :: delivery_request
  dc_reasonCode :: claim_reason

datatype attempt_outcome = at_delivered | at_unavailable | at_failed

record delivery_settlement =
  ds_requestId :: string
  ds_expectedRevision :: int
  ds_clientId :: string
  ds_outcome :: attempt_outcome
  ds_acknowledgementRef :: "string option"
  ds_errorCode :: "string option"
  ds_settledAt :: string

record attention_db =
  tdb_headroom :: bool
  tdb_runs :: "run_row list"
  tdb_payloads :: "payload_row list"
  tdb_policies :: "((OwnerId \<times> AgentId) \<times> int) list"
  tdb_decisions :: "attention_decision_record list"
  tdb_deliveries :: "delivery_request list"

section \<open>Store operations\<close>

definition readAttentionPolicy :: "attention_db \<Rightarrow> OwnerId \<Rightarrow> AgentId \<Rightarrow> attention_policy_state" where
  "readAttentionPolicy db ownerId agentId =
     \<lparr>aps_revision = (case row_of fst (ownerId, agentId) (tdb_policies db) of None \<Rightarrow> 0 | Some p \<Rightarrow> snd p),
      aps_decisions = sort_key (\<lambda>r. (dr_decidedAt r, dr_candidateId r))
        (filter (\<lambda>r. dr_ownerId r = ownerId \<and> dr_agentId r = agentId) (tdb_decisions db))\<rparr>"

definition delivery_matches :: "attention_decision_record \<Rightarrow> delivery_request option \<Rightarrow> bool" where
  "delivery_matches r d =
     (if ad_level (dr_decision r) = SILENT then dr_deliveryRequestId r = None \<and> d = None
      else case d of
        None \<Rightarrow> False
      | Some q \<Rightarrow>
          dr_deliveryRequestId r = Some (dq_id q) \<and>
          dr_candidateId r = dq_candidateId q \<and>
          dr_ownerId r = dq_ownerId q \<and>
          dr_agentId r = dq_agentId q \<and>
          dr_runId r = dq_runId q \<and>
          ad_level (dr_decision r) = dq_level q \<and>
          dq_status q = dl_pending \<and>
          dq_assignedClientId q = None \<and>
          dq_attempts q = 0)"

definition commitAttentionDecision :: "attention_db \<Rightarrow> attention_decision_commit \<Rightarrow>
    (attention_db \<times> attention_policy_state \<times> attention_decision_record \<times> delivery_request option) result" where
  "commitAttentionDecision db input =
     (let r = cm_record input; ownerId = cm_ownerId input; agentId = cm_agentId input
      in if \<not> tdb_headroom db then port_fail CONFLICT
         else if \<not> list_ex (\<lambda>x. rr_id x = dr_runId r \<and> rr_ownerId x = ownerId \<and> rr_agentId x = agentId) (tdb_runs db)
           then port_fail INVALID_OPERATION
         else if (case cm_delivery input of None \<Rightarrow> False
                  | Some q \<Rightarrow> \<not> list_ex (\<lambda>p. py_ref p = dq_resultRef q \<and> py_ownerId p = ownerId \<and> py_agentId p = agentId)
                                (tdb_payloads db))
           then port_fail INVALID_OPERATION
         else let current = readAttentionPolicy db ownerId agentId
           in if aps_revision current \<noteq> cm_expectedRevision input then port_fail CONFLICT
              else if dr_ownerId r \<noteq> ownerId \<or> dr_agentId r \<noteq> agentId \<or>
                  list_ex (\<lambda>x. dr_candidateId x = dr_candidateId r) (aps_decisions current) then port_fail CONFLICT
              else if \<not> delivery_matches r (cm_delivery input) then port_fail INVALID_OPERATION
              else if has_row dr_candidateId (dr_candidateId r) (tdb_decisions db) then Inl OtherError
              else let nextRevision = aps_revision current + 1;
                       delivery = map_option (\<lambda>q. q\<lparr>dq_revision := 1\<rparr>) (cm_delivery input)
                in if (case delivery of None \<Rightarrow> False | Some q \<Rightarrow> has_row dq_id (dq_id q) (tdb_deliveries db))
                     then Inl OtherError
                   else Inr (db\<lparr>tdb_policies := put_row fst ((ownerId, agentId), nextRevision) (tdb_policies db),
                                tdb_decisions := tdb_decisions db @ [r],
                                tdb_deliveries := tdb_deliveries db @ (case delivery of None \<Rightarrow> [] | Some q \<Rightarrow> [q])\<rparr>,
                             \<lparr>aps_revision = nextRevision, aps_decisions = aps_decisions current @ [r]\<rparr>, r, delivery))"

definition readDelivery :: "attention_db \<Rightarrow> string \<Rightarrow> delivery_request option" where
  "readDelivery db requestId = row_of dq_id requestId (tdb_deliveries db)"

definition updateDelivery :: "attention_db \<Rightarrow> delivery_request \<Rightarrow> attention_db" where
  "updateDelivery db q = db\<lparr>tdb_deliveries := put_row dq_id q (tdb_deliveries db)\<rparr>"

definition claimDelivery :: "attention_db \<Rightarrow> string \<Rightarrow> string \<Rightarrow> string \<Rightarrow> (attention_db \<times> delivery_claim) result" where
  "claimDelivery db requestId clientId claimedAt =
     (if \<not> tdb_headroom db then port_fail CONFLICT
      else case readDelivery db requestId of
        None \<Rightarrow> port_fail NOT_FOUND
      | Some current \<Rightarrow>
          if dq_status current = dl_delivered
            then Inr (db, \<lparr>dc_claimed = False, dc_request = current, dc_reasonCode = ALREADY_DELIVERED\<rparr>)
          else if dq_status current = dl_delivering
            then Inr (db, \<lparr>dc_claimed = False, dc_request = current, dc_reasonCode = ALREADY_CLAIMED\<rparr>)
          else let claimed = current\<lparr>dq_revision := dq_revision current + 1, dq_status := dl_delivering,
                     dq_assignedClientId := Some clientId, dq_attempts := dq_attempts current + 1,
                     dq_updatedAt := claimedAt\<rparr>
               in Inr (updateDelivery db claimed, \<lparr>dc_claimed = True, dc_request = claimed, dc_reasonCode = CLAIMED\<rparr>))"

definition settleDelivery :: "attention_db \<Rightarrow> delivery_settlement \<Rightarrow> (attention_db \<times> delivery_request) result" where
  "settleDelivery db input =
     (if \<not> tdb_headroom db then port_fail CONFLICT
      else case readDelivery db (ds_requestId input) of
        None \<Rightarrow> port_fail NOT_FOUND
      | Some current \<Rightarrow>
          let delivered = (ds_outcome input = at_delivered);
              validAcknowledgement = (if delivered then ds_acknowledgementRef input \<noteq> None \<and> ds_errorCode input = None
                else ds_acknowledgementRef input = None)
          in if dq_status current \<noteq> dl_delivering \<or> dq_revision current \<noteq> ds_expectedRevision input \<or>
                dq_assignedClientId current \<noteq> Some (ds_clientId input) \<or> \<not> validAcknowledgement
             then port_fail CONFLICT
             else let settled = current\<lparr>dq_revision := dq_revision current + 1,
                        dq_status := (if delivered then dl_delivered else dl_pending),
                        dq_assignedClientId := (if delivered then dq_assignedClientId current else None),
                        dq_acknowledgementRef := (if delivered then ds_acknowledgementRef input else None),
                        dq_lastErrorCode := (if delivered then None
                          else Some (case ds_errorCode input of None \<Rightarrow> ''DELIVERY_UNAVAILABLE'' | Some e \<Rightarrow> e)),
                        dq_updatedAt := ds_settledAt input\<rparr>
                  in Inr (updateDelivery db settled, settled))"

section \<open>Policy\<close>

record quiet_hours =
  qh_startMinute :: int
  qh_endMinute :: int
  qh_utcOffsetMinutes :: int

record attention_policy_config =
  pc_duplicateWindowMs :: int
  pc_rateLimitWindowMs :: int
  pc_maxImmediateDeliveries :: int
  pc_quietHours :: "quiet_hours option"
  pc_authorizedInterruptRefs :: "string list"

fun device_string :: "device_availability \<Rightarrow> string" where
  "device_string device_available = ''available''"
| "device_string device_unavailable = ''unavailable''"
| "device_string device_unknown = ''unknown''"

definition nullable :: "string option \<Rightarrow> json" where
  "nullable x = (case x of None \<Rightarrow> JNull | Some s \<Rightarrow> JString s)"

definition candidateFingerprint :: "attention_candidate \<Rightarrow> string" where
  "candidateFingerprint c = stringify (JArray
     [JString (ac_id c), JString (ac_ownerId c), JString (ac_agentId c), JString (ac_runId c), JString (ac_sessionId c),
      nullable (ac_threadId c), JString (ac_resultRef c), JString (classification_string (ac_dataClassification c)),
      JNum (ac_urgency c), JNum (ac_confidence c), JString (ac_duplicateKey c), JString (ac_generatedAt c),
      JString (device_string (ac_deviceState c)), nullable (ac_interruptAuthorizationRef c)])"

text \<open>\<open>nowMs\<close> is absent when the clock's text is not a date; comparisons with NaN are false.\<close>

definition withinWindow :: "string \<Rightarrow> int option \<Rightarrow> int \<Rightarrow> bool" where
  "withinWindow timestamp nowMs windowMs = (case (date_parse timestamp, nowMs) of
     (Some v, Some n) \<Rightarrow> v \<ge> n - windowMs \<and> v \<le> n
   | _ \<Rightarrow> False)"

definition isQuietHours :: "string \<Rightarrow> attention_policy_config \<Rightarrow> bool" where
  "isQuietHours now policy = (case pc_quietHours policy of
     None \<Rightarrow> False
   | Some q \<Rightarrow>
       let shifted = (case date_parse now of None \<Rightarrow> None
             | Some t \<Rightarrow> let u = t + qh_utcOffsetMinutes q * 60000 in if valid_time u then Some u else None)
       in if qh_startMinute q = qh_endMinute q then True
          else (case shifted of
                  None \<Rightarrow> False
                | Some u \<Rightarrow>
                    let minute = (u mod 86400000) div 60000
                    in if qh_startMinute q < qh_endMinute q then minute \<ge> qh_startMinute q \<and> minute < qh_endMinute q
                       else minute \<ge> qh_startMinute q \<or> minute < qh_endMinute q))"

definition assertCandidate :: "attention_candidate \<Rightarrow> unit result" where
  "assertCandidate c =
     (if ac_urgency c < 0 \<or> ac_urgency c > 100 \<or> ac_confidence c < 0 \<or> ac_confidence c > 100 \<or>
         \<not> isCanonicalTimestamp (ac_generatedAt c)
      then port_fail INVALID_OPERATION else Inr ())"

definition assertPolicy :: "attention_policy_config \<Rightarrow> unit result" where
  "assertPolicy policy =
     (let nonNegative = list_all (\<lambda>v. is_safe_integer v \<and> v \<ge> 0)
            [pc_duplicateWindowMs policy, pc_rateLimitWindowMs policy, pc_maxImmediateDeliveries policy];
          quietValid = (case pc_quietHours policy of None \<Rightarrow> True
            | Some q \<Rightarrow> qh_startMinute q \<ge> 0 \<and> qh_startMinute q < 1440 \<and> qh_endMinute q \<ge> 0 \<and> qh_endMinute q < 1440 \<and>
                qh_utcOffsetMinutes q \<ge> -840 \<and> qh_utcOffsetMinutes q \<le> 840)
      in if \<not> nonNegative \<or> \<not> quietValid then port_fail INVALID_OPERATION else Inr ())"

definition plain_decision :: "attention_candidate \<Rightarrow> attention_level \<Rightarrow> string \<Rightarrow> attention_decision" where
  "plain_decision c level reason = \<lparr>ad_candidateId = ac_id c, ad_level = level, ad_reasonCode = reason,
     ad_interruptAuthorizationRef = None\<rparr>"

definition immediate :: "attention_decision_record \<Rightarrow> bool" where
  "immediate r \<longleftrightarrow> ad_level (dr_decision r) = NOTIFY \<or> ad_level (dr_decision r) = INTERRUPT"

definition baseDecision :: "attention_candidate \<Rightarrow> attention_policy_state \<Rightarrow> string \<Rightarrow> attention_policy_config \<Rightarrow> attention_decision" where
  "baseDecision c state now policy =
     (let nowMs = date_parse now;
          duplicate = list_ex (\<lambda>r. dr_duplicateKey r = ac_duplicateKey c \<and>
            withinWindow (dr_decidedAt r) nowMs (pc_duplicateWindowMs policy)) (aps_decisions state)
      in if duplicate then plain_decision c SILENT ''duplicate_result''
         else if ac_urgency c < 20 \<or> ac_confidence c < 20 then plain_decision c SILENT ''low_signal''
         else if ac_urgency c < 40 \<or> ac_confidence c < 50 then plain_decision c INBOX ''passive_result''
         else if ac_urgency c < 70 \<or> ac_confidence c < 70 then plain_decision c DIGEST ''digest_result''
         else
           let interruptAuthorized = ac_urgency c \<ge> 90 \<and> ac_confidence c \<ge> 85 \<and>
                 (case ac_interruptAuthorizationRef c of None \<Rightarrow> False | Some r \<Rightarrow> r \<in> set (pc_authorizedInterruptRefs policy));
               decision = (if interruptAuthorized
                 then \<lparr>ad_candidateId = ac_id c, ad_level = INTERRUPT, ad_reasonCode = ''authorized_urgent_result'',
                       ad_interruptAuthorizationRef = ac_interruptAuthorizationRef c\<rparr>
                 else plain_decision c NOTIFY ''notifiable_result'');
               recentImmediate = length (filter (\<lambda>r. immediate r \<and>
                 withinWindow (dr_decidedAt r) nowMs (pc_rateLimitWindowMs policy)) (aps_decisions state))
           in if int recentImmediate \<ge> pc_maxImmediateDeliveries policy then plain_decision c DIGEST ''rate_limited''
              else if ac_deviceState c = device_unavailable then plain_decision c INBOX ''client_unavailable''
              else if ad_level decision = NOTIFY \<and> isQuietHours now policy then plain_decision c DIGEST ''quiet_hours''
              else decision)"

section \<open>The service\<close>

type_synonym attention_env = "nat \<Rightarrow> attention_db \<Rightarrow> attention_db"

record attention_evaluation_result =
  er_record :: attention_decision_record
  er_delivery :: "delivery_request option"
  er_replayed :: bool

definition decision_record :: "attention_candidate \<Rightarrow> attention_decision \<Rightarrow> string \<Rightarrow> attention_decision_record" where
  "decision_record c d now = \<lparr>dr_candidateId = ac_id c, dr_candidateFingerprint = candidateFingerprint c,
     dr_ownerId = ac_ownerId c, dr_agentId = ac_agentId c, dr_runId = ac_runId c, dr_duplicateKey = ac_duplicateKey c,
     dr_decision = d,
     dr_deliveryRequestId = (if ad_level d = SILENT then None
       else Some (''delivery:'' @ ac_ownerId c @ '':'' @ ac_agentId c @ '':'' @ ac_id c)),
     dr_decidedAt = now\<rparr>"

definition delivery_write :: "attention_candidate \<Rightarrow> attention_decision \<Rightarrow> string \<Rightarrow> delivery_request option" where
  "delivery_write c d now = (if ad_level d = SILENT then None
     else Some \<lparr>dq_id = ''delivery:'' @ ac_ownerId c @ '':'' @ ac_agentId c @ '':'' @ ac_id c, dq_revision = 0,
       dq_candidateId = ac_id c, dq_ownerId = ac_ownerId c, dq_agentId = ac_agentId c, dq_runId = ac_runId c,
       dq_resultRef = ac_resultRef c, dq_dataClassification = ac_dataClassification c, dq_level = ad_level d,
       dq_status = dl_pending, dq_assignedClientId = None, dq_attempts = 0, dq_acknowledgementRef = None,
       dq_lastErrorCode = None, dq_createdAt = now, dq_updatedAt = now\<rparr>)"

definition evaluation_commit :: "attention_policy_config \<Rightarrow> attention_candidate \<Rightarrow> attention_policy_state \<Rightarrow> string \<Rightarrow> attention_decision_commit" where
  "evaluation_commit policy c state now =
     (let d = baseDecision c state now policy
      in \<lparr>cm_ownerId = ac_ownerId c, cm_agentId = ac_agentId c, cm_expectedRevision = aps_revision state,
          cm_record = decision_record c d now, cm_delivery = delivery_write c d now\<rparr>)"

text \<open>The retry loop of \<open>evaluate\<close>; \<open>fuel\<close> is the number of attempts left, \<open>k\<close> the number made.\<close>

fun evaluate_attempts :: "attention_env \<Rightarrow> (nat \<Rightarrow> string) \<Rightarrow> attention_policy_config \<Rightarrow> attention_candidate \<Rightarrow> nat \<Rightarrow> nat \<Rightarrow>
    attention_db \<Rightarrow> attention_db \<times> attention_evaluation_result result" where
  "evaluate_attempts env clk policy c 0 k db = (db, port_fail CONFLICT)"
| "evaluate_attempts env clk policy c (Suc fuel) k db =
     (let db1 = env (2 * k) db; state = readAttentionPolicy db1 (ac_ownerId c) (ac_agentId c); db2 = env (2 * k + 1) db1
      in case List.find (\<lambda>r. dr_candidateId r = ac_id c) (aps_decisions state) of
           Some existing \<Rightarrow>
             if dr_candidateFingerprint existing \<noteq> candidateFingerprint c then (db1, port_fail CONFLICT)
             else if truthy (dr_deliveryRequestId existing)
               then (case readDelivery db2 (the (dr_deliveryRequestId existing)) of
                       None \<Rightarrow> (db2, port_fail INVALID_OPERATION)
                     | Some q \<Rightarrow> (db2, Inr \<lparr>er_record = existing, er_delivery = Some q, er_replayed = True\<rparr>))
             else (db1, Inr \<lparr>er_record = existing, er_delivery = None, er_replayed = True\<rparr>)
         | None \<Rightarrow>
             (case commitAttentionDecision db2 (evaluation_commit policy c state (clk k)) of
                Inr (db3, _, r, q) \<Rightarrow> (db3, Inr \<lparr>er_record = r, er_delivery = q, er_replayed = False\<rparr>)
              | Inl e \<Rightarrow> if e = ApplicationPortError CONFLICT then evaluate_attempts env clk policy c fuel (Suc k) db2
                  else (db2, Inl e)))"

definition evaluateAttention :: "attention_env \<Rightarrow> (nat \<Rightarrow> string) \<Rightarrow> attention_policy_config \<Rightarrow> attention_candidate \<Rightarrow>
    attention_db \<Rightarrow> attention_db \<times> attention_evaluation_result result" where
  "evaluateAttention env clk policy c db = (case assertCandidate c of
     Inl e \<Rightarrow> (db, Inl e)
   | Inr _ \<Rightarrow> evaluate_attempts env clk policy c 5 0 db)"

record delivery_attempt_result =
  da_outcome :: attempt_outcome
  da_acknowledgementRef :: "string option"
  da_errorCode :: "string option"

datatype delivery_outcome = do_delivered | do_pending | do_duplicate

record attention_delivery_result =
  dd_request :: delivery_request
  dd_outcome :: delivery_outcome
  dd_reasonCode :: string

fun claim_reason_string :: "claim_reason \<Rightarrow> string" where
  "claim_reason_string CLAIMED = ''CLAIMED''"
| "claim_reason_string ALREADY_CLAIMED = ''ALREADY_CLAIMED''"
| "claim_reason_string ALREADY_DELIVERED = ''ALREADY_DELIVERED''"

definition deliver :: "attention_env \<Rightarrow> (nat \<Rightarrow> string) \<Rightarrow> (delivery_request \<Rightarrow> string \<Rightarrow> delivery_attempt_result result) \<Rightarrow>
    attention_db \<Rightarrow> string \<Rightarrow> string \<Rightarrow> attention_db \<times> attention_delivery_result result" where
  "deliver env clk deliverer db requestId clientId =
     (case claimDelivery db requestId clientId (clk 0) of
        Inl e \<Rightarrow> (db, Inl e)
      | Inr (db1, claim) \<Rightarrow>
          if \<not> dc_claimed claim
          then (db1, Inr \<lparr>dd_request = dc_request claim, dd_outcome = do_duplicate,
                 dd_reasonCode = claim_reason_string (dc_reasonCode claim)\<rparr>)
          else
            let attempt = (case deliverer (dc_request claim) clientId of
                  Inl _ \<Rightarrow> \<lparr>da_outcome = at_failed, da_acknowledgementRef = None, da_errorCode = Some ''DELIVERY_ADAPTER_FAILURE''\<rparr>
                | Inr a \<Rightarrow> a);
                db2 = env 1 db1
            in (case settleDelivery db2 \<lparr>ds_requestId = requestId, ds_expectedRevision = dq_revision (dc_request claim),
                        ds_clientId = clientId, ds_outcome = da_outcome attempt,
                        ds_acknowledgementRef = da_acknowledgementRef attempt, ds_errorCode = da_errorCode attempt,
                        ds_settledAt = clk 1\<rparr> of
                  Inl e \<Rightarrow> (db2, Inl e)
                | Inr (db3, settled) \<Rightarrow> (db3, Inr \<lparr>dd_request = settled,
                    dd_outcome = (if da_outcome attempt = at_delivered then do_delivered else do_pending),
                    dd_reasonCode = (if da_outcome attempt = at_delivered then ''DELIVERY_ACKNOWLEDGED''
                      else case da_errorCode attempt of None \<Rightarrow> ''DELIVERY_UNAVAILABLE'' | Some e \<Rightarrow> e)\<rparr>)))"

section \<open>Histories\<close>

inductive attention_step :: "attention_db \<Rightarrow> attention_db \<Rightarrow> bool" where
  commit: "commitAttentionDecision db i = Inr (db', x) \<Longrightarrow> attention_step db db'"
| claim: "claimDelivery db r c at = Inr (db', x) \<Longrightarrow> attention_step db db'"
| settle: "settleDelivery db i = Inr (db', x) \<Longrightarrow> attention_step db db'"
| other: "tdb_policies db' = tdb_policies db \<Longrightarrow> tdb_decisions db' = tdb_decisions db \<Longrightarrow>
    tdb_deliveries db' = tdb_deliveries db \<Longrightarrow> attention_step db db'"

lemma commit_Inr:
  assumes "commitAttentionDecision db i = Inr (db', st, r, q)"
  shows "r = cm_record i \<and> q = map_option (\<lambda>q. q\<lparr>dq_revision := 1\<rparr>) (cm_delivery i) \<and>
    dr_ownerId r = cm_ownerId i \<and> dr_agentId r = cm_agentId i \<and>
    aps_revision (readAttentionPolicy db (cm_ownerId i) (cm_agentId i)) = cm_expectedRevision i \<and>
    \<not> has_row dr_candidateId (dr_candidateId r) (tdb_decisions db) \<and> delivery_matches r (cm_delivery i) \<and>
    tdb_decisions db' = tdb_decisions db @ [r] \<and>
    tdb_policies db' = put_row fst ((cm_ownerId i, cm_agentId i), cm_expectedRevision i + 1) (tdb_policies db) \<and>
    tdb_deliveries db' = tdb_deliveries db @ (case q of None \<Rightarrow> [] | Some d \<Rightarrow> [d]) \<and>
    (\<forall>d. q = Some d \<longrightarrow> readDelivery db (dq_id d) = None)"
  using assms unfolding commitAttentionDecision_def Let_def
  by (auto simp: readDelivery_def has_row_iff split: if_splits option.splits)

lemma claim_Inr:
  assumes "claimDelivery db i c at = Inr (db', x)"
  shows "\<exists>cur. readDelivery db i = Some cur \<and> tdb_policies db' = tdb_policies db \<and> tdb_decisions db' = tdb_decisions db \<and>
    (if dq_status cur = dl_pending
     then dc_claimed x \<and> dc_request x = cur\<lparr>dq_revision := dq_revision cur + 1, dq_status := dl_delivering,
            dq_assignedClientId := Some c, dq_attempts := dq_attempts cur + 1, dq_updatedAt := at\<rparr> \<and>
          tdb_deliveries db' = put_row dq_id (dc_request x) (tdb_deliveries db)
     else \<not> dc_claimed x \<and> dc_request x = cur \<and> db' = db)"
  using assms unfolding claimDelivery_def Let_def
  by (cases "readDelivery db i"; cases "dq_status (the (readDelivery db i))") (auto simp: updateDelivery_def split: if_splits)

lemma settle_Inr:
  assumes "settleDelivery db i = Inr (db', x)"
  shows "\<exists>cur. readDelivery db (ds_requestId i) = Some cur \<and> dq_status cur = dl_delivering \<and>
    dq_revision cur = ds_expectedRevision i \<and> dq_assignedClientId cur = Some (ds_clientId i) \<and>
    dq_revision x = dq_revision cur + 1 \<and> dq_id x = dq_id cur \<and> dq_attempts x = dq_attempts cur \<and>
    dq_status x = (if ds_outcome i = at_delivered then dl_delivered else dl_pending) \<and>
    (ds_outcome i = at_delivered \<longrightarrow> dq_acknowledgementRef x = ds_acknowledgementRef i \<and> ds_acknowledgementRef i \<noteq> None) \<and>
    tdb_policies db' = tdb_policies db \<and> tdb_decisions db' = tdb_decisions db \<and>
    tdb_deliveries db' = put_row dq_id x (tdb_deliveries db)"
  using assms unfolding settleDelivery_def Let_def by (auto simp: updateDelivery_def split: if_splits option.splits)

lemma readDelivery_id: "readDelivery db i = Some q \<Longrightarrow> dq_id q = i"
  using row_of_SomeD by (fastforce simp: readDelivery_def)

definition delivery_progress :: "delivery_request \<Rightarrow> delivery_request \<Rightarrow> bool" where
  "delivery_progress q q' \<longleftrightarrow> q' = q \<or>
     (dq_status q \<noteq> dl_delivered \<and> dq_revision q < dq_revision q' \<and> dq_attempts q \<le> dq_attempts q')"

lemma delivery_step:
  assumes "attention_step db db'" and "readDelivery db k = Some q"
  shows "\<exists>q'. readDelivery db' k = Some q' \<and> delivery_progress q q'"
  using assms
proof (induction rule: attention_step.induct)
  case (commit db i db' x)
  then show ?case using commit_Inr [of db i db' "fst x" "fst (snd x)" "snd (snd x)"]
    by (auto simp: readDelivery_def row_of_append delivery_progress_def)
next
  case (claim db r c at db' x)
  then show ?case using claim_Inr [OF claim.hyps] readDelivery_id
    by (fastforce simp: readDelivery_def row_of_put_row delivery_progress_def split: if_splits)
next
  case (settle db i db' x)
  then show ?case using settle_Inr [OF settle.hyps] readDelivery_id
    by (fastforce simp: readDelivery_def row_of_put_row delivery_progress_def)
qed (auto simp: readDelivery_def delivery_progress_def)

interpretation deliveries: versioned_table readDelivery dq_revision attention_step
  by unfold_locales (use delivery_step in \<open>fastforce simp: delivery_progress_def\<close>)

lemma policy_step:
  assumes "attention_step db db'"
  shows "readAttentionPolicy db' ow ag = readAttentionPolicy db ow ag \<or>
    aps_revision (readAttentionPolicy db ow ag) < aps_revision (readAttentionPolicy db' ow ag)"
  using assms
proof (induction rule: attention_step.induct)
  case (commit db i db' x)
  obtain st r q where x: "x = (st, r, q)" by (metis prod.exhaust)
  note h = commit_Inr [OF commit.hyps [unfolded x]]
  show ?case
  proof (cases "ow = cm_ownerId i \<and> ag = cm_agentId i")
    case True
    with h show ?thesis by (auto simp: readAttentionPolicy_def row_of_put_row)
  next
    case False
    with h show ?thesis by (auto simp: readAttentionPolicy_def row_of_put_row)
  qed
next
  case (claim db r c at db' x)
  then show ?case using claim_Inr [OF claim.hyps] by (auto simp: readAttentionPolicy_def)
next
  case (settle db i db' x)
  then show ?case using settle_Inr [OF settle.hyps] by (auto simp: readAttentionPolicy_def)
qed (simp add: readAttentionPolicy_def)

definition policy_of :: "attention_db \<Rightarrow> OwnerId \<times> AgentId \<Rightarrow> attention_policy_state option" where
  "policy_of db k = Some (readAttentionPolicy db (fst k) (snd k))"

interpretation attention_policies: versioned_table policy_of aps_revision attention_step
  by unfold_locales (use policy_step in \<open>auto simp: policy_of_def\<close>)

lemma policy_stable:
  assumes "attention_step\<^sup>*\<^sup>* db db'" "aps_revision (readAttentionPolicy db' ow ag) = aps_revision (readAttentionPolicy db ow ag)"
  shows "readAttentionPolicy db' ow ag = readAttentionPolicy db ow ag"
  using attention_policies.same_revision_same_row [OF assms(1), of "(ow, ag)"] assms(2) by (simp add: policy_of_def)

section \<open>Levels\<close>

definition immediate_count :: "attention_policy_config \<Rightarrow> string \<Rightarrow> attention_decision_record list \<Rightarrow> nat" where
  "immediate_count policy now rs =
     length (filter (\<lambda>r. immediate r \<and> withinWindow (dr_decidedAt r) (date_parse now) (pc_rateLimitWindowMs policy)) rs)"

lemma attention_only_for_cause_levels:
  assumes "baseDecision c st now policy = d"
  shows "ad_level d \<in> {NOTIFY, INTERRUPT} \<longrightarrow>
      int (immediate_count policy now (aps_decisions st)) < pc_maxImmediateDeliveries policy"
  unfolding assms [symmetric] baseDecision_def immediate_count_def Let_def
  by (auto simp: plain_decision_def split: option.splits)

text \<open>
  The Owner is disturbed only for cause. A decision interrupts only for a candidate of urgency at
  least 90 and confidence at least 85 that carries an interrupt authorization listed in the policy, and
  then records that authorization, which no other decision carries; it interrupts or notifies only below
  the rate limit, when the device is not unavailable and no decision with the same duplicate key lies in
  the duplicate window; and it notifies only outside quiet hours.
\<close>

theorem attention_only_for_cause:
  assumes "baseDecision c st now policy = d"
  shows "(ad_level d = INTERRUPT \<longrightarrow> 90 \<le> ac_urgency c \<and> 85 \<le> ac_confidence c \<and>
      (\<exists>r\<in>set (pc_authorizedInterruptRefs policy). ac_interruptAuthorizationRef c = Some r \<and>
         ad_interruptAuthorizationRef d = Some r)) \<and>
    (ad_level d \<noteq> INTERRUPT \<longrightarrow> ad_interruptAuthorizationRef d = None) \<and>
    (ad_level d \<in> {NOTIFY, INTERRUPT} \<longrightarrow>
      int (immediate_count policy now (aps_decisions st)) < pc_maxImmediateDeliveries policy \<and>
      ac_deviceState c \<noteq> device_unavailable \<and> 70 \<le> ac_urgency c \<and> 70 \<le> ac_confidence c \<and>
      (\<forall>r\<in>set (aps_decisions st). dr_duplicateKey r = ac_duplicateKey c \<longrightarrow>
         \<not> withinWindow (dr_decidedAt r) (date_parse now) (pc_duplicateWindowMs policy))) \<and>
    (ad_level d = NOTIFY \<longrightarrow> \<not> isQuietHours now policy) \<and> ad_candidateId d = ac_id c"
  unfolding assms [symmetric] baseDecision_def immediate_count_def Let_def
  by (auto simp: plain_decision_def list_ex_iff split: option.splits)

section \<open>Commits under concurrency\<close>

definition quiet_env :: "attention_env \<Rightarrow> bool" where
  "quiet_env env \<longleftrightarrow> (\<forall>n db. attention_step\<^sup>*\<^sup>* db (env n db))"

lemma quiet_envD: "quiet_env env \<Longrightarrow> attention_step\<^sup>*\<^sup>* db (env n db)"
  by (simp add: quiet_env_def)

lemma commit_on_read_state:
  assumes "attention_step\<^sup>*\<^sup>* db1 db2"
    and "commitAttentionDecision db2 (evaluation_commit policy c (readAttentionPolicy db1 (ac_ownerId c) (ac_agentId c)) now) = Inr (db', st, r, q)"
  shows "readAttentionPolicy db2 (ac_ownerId c) (ac_agentId c) = readAttentionPolicy db1 (ac_ownerId c) (ac_agentId c)"
  using commit_Inr [OF assms(2)] policy_stable [OF assms(1)] by (simp add: evaluation_commit_def Let_def)

lemma evaluate_committed:
  assumes "quiet_env env" and "evaluate_attempts env clk policy c fuel k db = (db', Inr res)" and "\<not> er_replayed res"
  shows "\<exists>db2 n st. attention_step\<^sup>*\<^sup>* db db2 \<and>
    commitAttentionDecision db2 (evaluation_commit policy c (readAttentionPolicy db2 (ac_ownerId c) (ac_agentId c)) (clk n))
      = Inr (db', st, er_record res, er_delivery res)"
  using assms(2)
proof (induction fuel arbitrary: k db)
  case (Suc fuel)
  define db1 db2 st where "db1 = env (2 * k) db" and "db2 = env (2 * k + 1) db1"
    and "st = readAttentionPolicy db1 (ac_ownerId c) (ac_agentId c)"
  note defs = this
  have s1: "attention_step\<^sup>*\<^sup>* db db1" and s2: "attention_step\<^sup>*\<^sup>* db1 db2"
    unfolding defs by (rule quiet_envD [OF assms(1)])+
  have s: "attention_step\<^sup>*\<^sup>* db db2" using s1 s2 by (rule rtranclp_trans)
  note ev = Suc.prems [unfolded evaluate_attempts.simps Let_def, folded db1_def, folded db2_def st_def]
  have none: "List.find (\<lambda>r. dr_candidateId r = ac_id c) (aps_decisions st) = None"
    using ev assms(3) by (auto split: option.splits if_splits)
  show ?case
  proof (cases "commitAttentionDecision db2 (evaluation_commit policy c st (clk k))")
    case (Inl e)
    with ev none have "evaluate_attempts env clk policy c fuel (Suc k) db2 = (db', Inr res)" by (auto split: if_splits)
    from Suc.IH [OF this] s show ?thesis using rtranclp_trans by metis
  next
    case (Inr x)
    obtain d p r q where x: "x = (d, p, r, q)" by (metis prod.exhaust)
    with ev none Inr have "d = db'" "r = er_record res" "q = er_delivery res" by auto
    with Inr x have cm: "commitAttentionDecision db2 (evaluation_commit policy c st (clk k)) = Inr (db', p, er_record res, er_delivery res)"
      by simp
    moreover have "st = readAttentionPolicy db2 (ac_ownerId c) (ac_agentId c)"
      using commit_on_read_state [OF s2, of policy c "clk k" db' p] cm by (simp add: st_def)
    ultimately show ?thesis using s by metis
  qed
qed simp

lemma evaluation_commit_fields:
  "cm_record (evaluation_commit policy c st now) = decision_record c (baseDecision c st now policy) now"
  "cm_delivery (evaluation_commit policy c st now) = delivery_write c (baseDecision c st now policy) now"
  "cm_ownerId (evaluation_commit policy c st now) = ac_ownerId c"
  "cm_agentId (evaluation_commit policy c st now) = ac_agentId c"
  by (simp_all add: evaluation_commit_def Let_def)

text \<open>
  C38. The rate limit holds under concurrency. Whenever an evaluation commits an immediate decision, then,
  however other evaluations interleaved with it, the number of immediate decisions of that Owner and Agent
  in the rate-limit window ending at the decision, itself included, is at most the configured maximum.
\<close>

theorem rate_limit_holds:
  assumes "quiet_env env" and "evaluateAttention env clk policy c db = (db', Inr res)"
    and "\<not> er_replayed res" and "immediate (er_record res)"
  shows "int (immediate_count policy (dr_decidedAt (er_record res))
      (aps_decisions (readAttentionPolicy db' (ac_ownerId c) (ac_agentId c)))) \<le> pc_maxImmediateDeliveries policy"
proof -
  from assms(2) have "evaluate_attempts env clk policy c 5 0 db = (db', Inr res)"
    by (auto simp: evaluateAttention_def split: sum.splits)
  from evaluate_committed [OF assms(1) this assms(3)] obtain db2 n st where
    cm: "commitAttentionDecision db2 (evaluation_commit policy c (readAttentionPolicy db2 (ac_ownerId c) (ac_agentId c)) (clk n))
      = Inr (db', st, er_record res, er_delivery res)" by blast
  define old where "old = readAttentionPolicy db2 (ac_ownerId c) (ac_agentId c)"
  define d where "d = baseDecision c old (clk n) policy"
  have rec: "er_record res = decision_record c d (clk n)" "tdb_decisions db' = tdb_decisions db2 @ [er_record res]"
    using commit_Inr [OF cm] by (simp_all add: evaluation_commit_fields d_def old_def)
  have "ad_level d \<in> {NOTIFY, INTERRUPT}"
    using assms(4) rec(1) by (auto simp: immediate_def decision_record_def)
  then have lt: "int (immediate_count policy (clk n) (aps_decisions old)) < pc_maxImmediateDeliveries policy"
    using attention_only_for_cause_levels [OF d_def [symmetric]] by blast
  have cnt: "immediate_count policy (clk n) (aps_decisions (readAttentionPolicy dbx ow ag)) =
      immediate_count policy (clk n) (filter (\<lambda>r. dr_ownerId r = ow \<and> dr_agentId r = ag) (tdb_decisions dbx))" for dbx ow ag
    by (simp add: immediate_count_def readAttentionPolicy_def filter_sort)
  have "dr_decidedAt (er_record res) = clk n" by (simp add: rec(1) decision_record_def)
  then show ?thesis
    using lt by (simp add: cnt rec(2) old_def) (simp add: immediate_count_def)
qed

section \<open>One decision per candidate\<close>

definition decisions_distinct :: "attention_db \<Rightarrow> bool" where
  "decisions_distinct db \<longleftrightarrow> distinct (map dr_candidateId (tdb_decisions db))"

lemma decisions_step:
  assumes "attention_step db db'"
  shows "set (tdb_decisions db) \<subseteq> set (tdb_decisions db') \<and> (decisions_distinct db \<longrightarrow> decisions_distinct db')"
  using assms
proof (induction rule: attention_step.induct)
  case (commit db i db' x)
  then show ?case using commit_Inr [of db i db' "fst x" "fst (snd x)" "snd (snd x)"]
    by (auto simp: decisions_distinct_def has_row_def list_ex_iff)
next
  case (claim db r c at db' x)
  then show ?case using claim_Inr [OF claim.hyps] by (auto simp: decisions_distinct_def)
next
  case (settle db i db' x)
  then show ?case using settle_Inr [OF settle.hyps] by (auto simp: decisions_distinct_def)
qed (simp add: decisions_distinct_def)

lemma decisions_history:
  "attention_step\<^sup>*\<^sup>* db db' \<Longrightarrow> set (tdb_decisions db) \<subseteq> set (tdb_decisions db') \<and> (decisions_distinct db \<longrightarrow> decisions_distinct db')"
  by (induction rule: rtranclp_induct) (use decisions_step in blast)+

lemma find_decision:
  assumes "decisions_distinct db" "r \<in> set (tdb_decisions db)"
  shows "List.find (\<lambda>x. dr_candidateId x = dr_candidateId r) (aps_decisions (readAttentionPolicy db (dr_ownerId r) (dr_agentId r))) = Some r"
proof -
  let ?ds = "aps_decisions (readAttentionPolicy db (dr_ownerId r) (dr_agentId r))"
  have mem: "r \<in> set ?ds" using assms(2) by (simp add: readAttentionPolicy_def)
  have sub: "set ?ds \<subseteq> set (tdb_decisions db)" by (auto simp: readAttentionPolicy_def)
  obtain x where x: "List.find (\<lambda>x. dr_candidateId x = dr_candidateId r) ?ds = Some x"
    using mem by (cases "List.find (\<lambda>x. dr_candidateId x = dr_candidateId r) ?ds") (auto simp: find_None_iff)
  with find_SomeD [OF x] sub assms have "x = r"
    by (auto simp: decisions_distinct_def distinct_map inj_on_def)
  with x show ?thesis by simp
qed

lemma evaluate_existing:
  assumes "quiet_env env" "decisions_distinct db" "r \<in> set (tdb_decisions db)"
    and "dr_candidateId r = ac_id c" "dr_ownerId r = ac_ownerId c" "dr_agentId r = ac_agentId c"
    and "evaluate_attempts env clk policy c (Suc fuel) k db = (db', Inr res)"
  shows "er_replayed res \<and> er_record res = r \<and> dr_candidateFingerprint r = candidateFingerprint c"
proof -
  define db1 where "db1 = env (2 * k) db"
  have s1: "attention_step\<^sup>*\<^sup>* db db1" unfolding db1_def by (rule quiet_envD [OF assms(1)])
  have "decisions_distinct db1" "r \<in> set (tdb_decisions db1)" using decisions_history [OF s1] assms(2,3) by auto
  from find_decision [OF this] have f: "List.find (\<lambda>x. dr_candidateId x = ac_id c)
      (aps_decisions (readAttentionPolicy db1 (ac_ownerId c) (ac_agentId c))) = Some r"
    using assms(4-6) by simp
  show ?thesis
    using assms(7) f by (auto simp: Let_def db1_def [symmetric] split: if_splits option.splits)
qed

lemma evaluate_recorded:
  assumes "quiet_env env" and "evaluate_attempts env clk policy c fuel k db = (db', Inr res)"
  shows "attention_step\<^sup>*\<^sup>* db db' \<and> er_record res \<in> set (tdb_decisions db') \<and> dr_candidateId (er_record res) = ac_id c \<and>
    dr_ownerId (er_record res) = ac_ownerId c \<and> dr_agentId (er_record res) = ac_agentId c"
  using assms(2)
proof (induction fuel arbitrary: k db)
  case (Suc fuel)
  define db1 db2 st where "db1 = env (2 * k) db" and "db2 = env (2 * k + 1) db1"
    and "st = readAttentionPolicy db1 (ac_ownerId c) (ac_agentId c)"
  have s1: "attention_step\<^sup>*\<^sup>* db db1" and s2: "attention_step\<^sup>*\<^sup>* db1 db2"
    unfolding db1_def db2_def by (rule quiet_envD [OF assms(1)])+
  have s: "attention_step\<^sup>*\<^sup>* db db2" using s1 s2 by (rule rtranclp_trans)
  note ev = Suc.prems [unfolded evaluate_attempts.simps Let_def, folded db1_def, folded db2_def st_def]
  show ?case
  proof (cases "List.find (\<lambda>r. dr_candidateId r = ac_id c) (aps_decisions st)")
    case (Some r)
    have r: "dr_candidateId r = ac_id c" "r \<in> set (tdb_decisions db1)" "dr_ownerId r = ac_ownerId c" "dr_agentId r = ac_agentId c"
      using find_SomeD [OF Some] by (auto simp: st_def readAttentionPolicy_def)
    have "er_record res = r \<and> (db' = db1 \<or> db' = db2)" using ev Some by (auto split: if_splits option.splits)
    with r s s1 decisions_history [OF s2] show ?thesis by auto
  next
    case None
    show ?thesis
    proof (cases "commitAttentionDecision db2 (evaluation_commit policy c st (clk k))")
      case (Inl e)
      with ev None have "evaluate_attempts env clk policy c fuel (Suc k) db2 = (db', Inr res)" by (auto split: if_splits)
      from Suc.IH [OF this] s show ?thesis by (meson rtranclp_trans)
    next
      case (Inr x)
      obtain d p r q where x: "x = (d, p, r, q)" by (metis prod.exhaust)
      with ev None Inr have e: "d = db'" "r = er_record res" by auto
      have "attention_step db2 db'" using Inr x e attention_step.commit by blast
      with s have "attention_step\<^sup>*\<^sup>* db db'" by (rule rtranclp.rtrancl_into_rtrancl)
      with commit_Inr [OF Inr [unfolded x]] e show ?thesis
        by (simp add: evaluation_commit_fields decision_record_def)
    qed
  qed
qed simp

text \<open>
  A candidate is decided once. After an evaluation of a candidate returned a decision, every later
  successful evaluation of that candidate, under any interleaving, is a replay that returns the same
  decision record; so a candidate never gets a second decision, nor a second delivery request.
\<close>

theorem attention_decided_once:
  assumes "quiet_env env" and "quiet_env env'" and "decisions_distinct db"
    and "evaluateAttention env clk policy c db = (db1, Inr res)" and "attention_step\<^sup>*\<^sup>* db1 db2"
    and "evaluateAttention env' clk' policy' c db2 = (db3, Inr res')"
  shows "er_replayed res' \<and> er_record res' = er_record res \<and> dr_candidateFingerprint (er_record res) = candidateFingerprint c"
proof -
  have "evaluate_attempts env clk policy c 5 0 db = (db1, Inr res)"
    and e2: "evaluate_attempts env' clk' policy' c (Suc 4) 0 db2 = (db3, Inr res')"
    using assms(4,6) by (auto simp: evaluateAttention_def simp del: evaluate_attempts.simps split: sum.splits)
  from evaluate_recorded [OF assms(1) this(1)] have r: "attention_step\<^sup>*\<^sup>* db db1" "er_record res \<in> set (tdb_decisions db1)"
    "dr_candidateId (er_record res) = ac_id c" "dr_ownerId (er_record res) = ac_ownerId c" "dr_agentId (er_record res) = ac_agentId c"
    by blast+
  have "decisions_distinct db2" "er_record res \<in> set (tdb_decisions db2)"
    using decisions_history [OF r(1)] decisions_history [OF assms(5)] assms(3) r(2) by auto
  from evaluate_existing [OF assms(2) this r(3-5) e2] show ?thesis by blast
qed

section \<open>Delivery\<close>

lemma delivery_history:
  "attention_step\<^sup>*\<^sup>* db db' \<Longrightarrow> readDelivery db k = Some q \<Longrightarrow> \<exists>q'. readDelivery db' k = Some q' \<and> delivery_progress q q'"
proof (induction rule: rtranclp_induct)
  case base
  then show ?case by (auto simp: delivery_progress_def)
next
  case (step y z)
  then obtain q1 where q1: "readDelivery y k = Some q1" "delivery_progress q q1" by blast
  from delivery_step [OF step.hyps(2) q1(1)] q1(2) show ?case by (auto simp: delivery_progress_def)
qed

lemma claimed_row:
  assumes "claimDelivery db i c at = Inr (db', x)" "dc_claimed x"
  shows "readDelivery db' i = Some (dc_request x) \<and> dq_status (dc_request x) = dl_delivering \<and>
    dq_assignedClientId (dc_request x) = Some c \<and>
    (\<exists>cur. readDelivery db i = Some cur \<and> dq_status cur = dl_pending \<and> dq_revision (dc_request x) = dq_revision cur + 1)"
  using claim_Inr [OF assms(1)] assms(2) readDelivery_id [of db i]
  by (auto simp: readDelivery_def row_of_put_row split: if_splits)

text \<open>
  At most one claimant settles. If a client claimed a delivery and, later, another claim of the same
  delivery succeeded, then from that moment on every settlement under the first claim's revision fails;
  and once a delivery is marked delivered its row never changes again and every further claim is
  refused.
\<close>

theorem delivery_claim_exclusive:
  assumes "claimDelivery db i c at = Inr (db1, x)" and "dc_claimed x" and "attention_step\<^sup>*\<^sup>* db1 db2"
    and "claimDelivery db2 i c' at' = Inr (db3, x')" and "attention_step\<^sup>*\<^sup>* db3 db4"
    and "ds_requestId s = i" and "ds_expectedRevision s = dq_revision (dc_request x)"
  shows "(dc_claimed x' \<longrightarrow> (\<exists>e. settleDelivery db4 s = Inl e)) \<and>
    (\<forall>q. readDelivery db2 i = Some q \<and> dq_status q = dl_delivered \<longrightarrow>
       \<not> dc_claimed x' \<and> readDelivery db4 i = Some q)"
proof
  note r1 = claimed_row [OF assms(1,2)]
  show "dc_claimed x' \<longrightarrow> (\<exists>e. settleDelivery db4 s = Inl e)"
  proof
    assume "dc_claimed x'"
    note r2 = claimed_row [OF assms(4) this]
    then obtain cur where cur: "readDelivery db2 i = Some cur" "dq_revision (dc_request x') = dq_revision cur + 1" by blast
    have "dq_revision (dc_request x) \<le> dq_revision cur"
      using deliveries.history_advances [OF assms(3), of i] r1 cur(1) by fastforce
    then have lt: "dq_revision (dc_request x) < dq_revision (dc_request x')" using cur(2) by simp
    obtain q4 where q4: "readDelivery db4 i = Some q4" using delivery_history [OF assms(5)] r2 by blast
    have "dq_revision q4 \<noteq> dq_revision (dc_request x)"
      by (rule deliveries.stale_revision_gone [OF assms(5) _ lt q4]) (use r2 in blast)
    then show "\<exists>e. settleDelivery db4 s = Inl e"
      using settle_Inr [of db4 s] q4 assms(6,7) by (cases "settleDelivery db4 s") fastforce+
  qed
  show "\<forall>q. readDelivery db2 i = Some q \<and> dq_status q = dl_delivered \<longrightarrow> \<not> dc_claimed x' \<and> readDelivery db4 i = Some q"
  proof (intro allI impI)
    fix q
    assume q: "readDelivery db2 i = Some q \<and> dq_status q = dl_delivered"
    then have "\<not> dc_claimed x' \<and> db3 = db2" using claim_Inr [OF assms(4)] by (auto split: if_splits)
    then show "\<not> dc_claimed x' \<and> readDelivery db4 i = Some q"
      using delivery_history [OF assms(5)] q by (auto simp: delivery_progress_def)
  qed
qed

text \<open>
  What \<open>deliver\<close> reports is what is stored. A delivered outcome means the row is delivered, assigned
  to the client and carries an acknowledgement; a pending outcome means the row is pending again and can
  be claimed anew; a duplicate outcome means the row was not pending and the store is
  unchanged. In the first two cases exactly one attempt was counted.
\<close>

theorem deliver_outcome:
  assumes "quiet_env env" and "deliver env clk deliverer db i c = (db', Inr res)"
  shows "\<exists>q0. readDelivery db i = Some q0 \<and>
    (case dd_outcome res of
       do_delivered \<Rightarrow> readDelivery db' i = Some (dd_request res) \<and> dq_status (dd_request res) = dl_delivered \<and>
         dq_acknowledgementRef (dd_request res) \<noteq> None \<and> dq_status q0 = dl_pending \<and>
         dq_attempts (dd_request res) = dq_attempts q0 + 1
     | do_pending \<Rightarrow> readDelivery db' i = Some (dd_request res) \<and> dq_status (dd_request res) = dl_pending \<and>
         dq_status q0 = dl_pending \<and> dq_attempts (dd_request res) = dq_attempts q0 + 1
     | do_duplicate \<Rightarrow> db' = db \<and> dd_request res = q0 \<and> dq_status q0 \<noteq> dl_pending)"
proof -
  from assms(2) obtain db1 x where cl: "claimDelivery db i c (clk 0) = Inr (db1, x)"
    by (auto simp: deliver_def split: sum.splits)
  from claim_Inr [OF cl] obtain q0 where q0: "readDelivery db i = Some q0"
    and q0': "if dq_status q0 = dl_pending
     then dc_claimed x \<and> dc_request x = q0\<lparr>dq_revision := dq_revision q0 + 1, dq_status := dl_delivering,
            dq_assignedClientId := Some c, dq_attempts := dq_attempts q0 + 1, dq_updatedAt := clk 0\<rparr> \<and>
          tdb_deliveries db1 = put_row dq_id (dc_request x) (tdb_deliveries db)
     else \<not> dc_claimed x \<and> dc_request x = q0 \<and> db1 = db" by blast
  show ?thesis
  proof (cases "dc_claimed x")
    case False
    with q0' have "dq_status q0 \<noteq> dl_pending" "dc_request x = q0" "db1 = db" by (auto split: if_splits)
    with False assms(2) cl q0 show ?thesis by (auto simp: deliver_def)
  next
    case True
    with q0' have q: "dq_status q0 = dl_pending" "dq_attempts (dc_request x) = dq_attempts q0 + 1"
      by (auto split: if_splits)
    define a where "a = (case deliverer (dc_request x) c of
        Inl _ \<Rightarrow> \<lparr>da_outcome = at_failed, da_acknowledgementRef = None, da_errorCode = Some ''DELIVERY_ADAPTER_FAILURE''\<rparr>
      | Inr a \<Rightarrow> a)"
    define s where "s = \<lparr>ds_requestId = i, ds_expectedRevision = dq_revision (dc_request x), ds_clientId = c,
      ds_outcome = da_outcome a, ds_acknowledgementRef = da_acknowledgementRef a, ds_errorCode = da_errorCode a,
      ds_settledAt = clk 1\<rparr>"
    have s: "ds_requestId s = i" "ds_expectedRevision s = dq_revision (dc_request x)" "ds_outcome s = da_outcome a"
      by (simp_all add: s_def)
    have set: "settleDelivery (env 1 db1) s = Inr (db', dd_request res)"
      and out: "dd_outcome res = (if da_outcome a = at_delivered then do_delivered else do_pending)"
      using assms(2) cl True unfolding deliver_def Let_def a_def [symmetric] s_def [symmetric]
      by (auto split: sum.splits simp: a_def [symmetric] s_def [symmetric] simp del: One_nat_def)
    from settle_Inr [OF set] obtain cur where cur: "readDelivery (env 1 db1) i = Some cur"
      "dq_revision cur = dq_revision (dc_request x)" "dq_id (dd_request res) = dq_id cur"
      "dq_attempts (dd_request res) = dq_attempts cur"
      "dq_status (dd_request res) = (if ds_outcome s = at_delivered then dl_delivered else dl_pending)"
      "ds_outcome s = at_delivered \<longrightarrow> dq_acknowledgementRef (dd_request res) \<noteq> None"
      "tdb_deliveries db' = put_row dq_id (dd_request res) (tdb_deliveries (env 1 db1))"
      unfolding s(1,2) by metis
    have row: "readDelivery db1 i = Some (dc_request x)" using claimed_row [OF cl True] by blast
    have "cur = dc_request x"
      by (rule deliveries.same_revision_same_row [OF quiet_envD [OF assms(1)] row cur(1,2)])
    moreover have "readDelivery db' i = Some (dd_request res)"
      using cur(7,3) readDelivery_id [OF cur(1)] by (simp add: readDelivery_def row_of_put_row)
    ultimately show ?thesis using q0 q cur(4-6) s(3) out by auto
  qed
qed

section \<open>Witnesses\<close>

definition example_candidate :: attention_candidate where
  "example_candidate = \<lparr>ac_id = ''candidate-1'', ac_ownerId = ''owner-1'', ac_agentId = ''agent-1'', ac_runId = ''run-1'',
     ac_sessionId = ''session-1'', ac_threadId = None, ac_resultRef = ''payload-1'', ac_dataClassification = class_private,
     ac_urgency = 95, ac_confidence = 90, ac_duplicateKey = ''dup-1'', ac_generatedAt = ''2024-01-02T00:00:00.000Z'',
     ac_deviceState = device_available, ac_interruptAuthorizationRef = Some ''grant-1''\<rparr>"

definition example_attention_policy :: attention_policy_config where
  "example_attention_policy = \<lparr>pc_duplicateWindowMs = 60000, pc_rateLimitWindowMs = 60000, pc_maxImmediateDeliveries = 1,
     pc_quietHours = Some \<lparr>qh_startMinute = 1320, qh_endMinute = 420, qh_utcOffsetMinutes = 60\<rparr>,
     pc_authorizedInterruptRefs = [''grant-1'']\<rparr>"

definition example_attention_db :: attention_db where
  "example_attention_db = \<lparr>tdb_headroom = True,
     tdb_runs = [\<lparr>rr_id = ''run-1'', rr_ownerId = ''owner-1'', rr_agentId = ''agent-1'', rr_sessionId = ''session-1'', rr_threadId = None\<rparr>],
     tdb_payloads = [\<lparr>py_ref = ''payload-1'', py_ownerId = ''owner-1'', py_agentId = ''agent-1'', py_createdAt = ''2024-01-01T00:00:00.000Z''\<rparr>],
     tdb_policies = [], tdb_decisions = [], tdb_deliveries = []\<rparr>"

definition example_attention_clk :: "nat \<Rightarrow> string" where
  "example_attention_clk n = ''2024-01-02T00:00:05.000Z''"

definition example_state :: attention_policy_state where
  "example_state = \<lparr>aps_revision = 0, aps_decisions = []\<rparr>"

definition example_commit :: attention_decision_commit where
  "example_commit = evaluation_commit example_attention_policy example_candidate example_state (example_attention_clk 0)"

lemma quiet_env_id: "quiet_env (\<lambda>n db. db)"
  by (simp add: quiet_env_def)

lemma example_decision: "ad_level (baseDecision example_candidate example_state (example_attention_clk 0) example_attention_policy) = INTERRUPT"
  by code_simp

theorem attention_only_for_cause_witness:
  "ad_interruptAuthorizationRef (baseDecision example_candidate example_state (example_attention_clk 0) example_attention_policy) = Some ''grant-1''"
  using attention_only_for_cause [OF refl, of example_candidate example_state "example_attention_clk 0" example_attention_policy]
    example_decision by (auto simp: example_candidate_def)

lemma example_policy_read: "readAttentionPolicy example_attention_db (ac_ownerId example_candidate) (ac_agentId example_candidate) = example_state"
  by (simp add: readAttentionPolicy_def example_attention_db_def example_state_def)

lemma example_committed: "\<exists>db' st r q. commitAttentionDecision example_attention_db example_commit = Inr (db', st, r, Some q) \<and> immediate r \<and>
    dq_status q = dl_pending \<and> dq_id q = ''delivery:owner-1:agent-1:candidate-1''"
proof -
  have "ad_level (baseDecision example_candidate example_state (example_attention_clk 0) example_attention_policy) \<noteq> SILENT"
    using example_decision by simp
  with example_decision show ?thesis
    by (simp add: commitAttentionDecision_def example_commit_def evaluation_commit_def decision_record_def delivery_write_def
        Let_def delivery_matches_def readAttentionPolicy_def example_attention_db_def example_state_def
        has_row_def immediate_def example_candidate_def)
qed

lemma example_evaluated: "\<exists>db' res. evaluateAttention (\<lambda>n db. db) example_attention_clk example_attention_policy example_candidate example_attention_db
    = (db', Inr res) \<and> \<not> er_replayed res \<and> immediate (er_record res)"
proof -
  obtain db' st r q where c: "commitAttentionDecision example_attention_db example_commit = Inr (db', st, r, Some q)" "immediate r"
    using example_committed by blast
  have v: "assertCandidate example_candidate = Inr ()" by code_simp
  have "evaluate_attempts (\<lambda>n db. db) example_attention_clk example_attention_policy example_candidate (Suc 4) 0 example_attention_db
      = (db', Inr \<lparr>er_record = r, er_delivery = Some q, er_replayed = False\<rparr>)"
    unfolding evaluate_attempts.simps using c(1) by (simp add: example_policy_read example_commit_def Let_def example_state_def)
  with v c(2) show ?thesis by (simp add: evaluateAttention_def eval_nat_numeral del: evaluate_attempts.simps)
qed

theorem rate_limit_holds_witness:
  "\<exists>db' res. evaluateAttention (\<lambda>n db. db) example_attention_clk example_attention_policy example_candidate example_attention_db = (db', Inr res) \<and>
     int (immediate_count example_attention_policy (dr_decidedAt (er_record res))
       (aps_decisions (readAttentionPolicy db' (ac_ownerId example_candidate) (ac_agentId example_candidate)))) \<le> 1"
proof -
  obtain db' res where e: "evaluateAttention (\<lambda>n db. db) example_attention_clk example_attention_policy example_candidate example_attention_db
    = (db', Inr res)" "\<not> er_replayed res" "immediate (er_record res)" using example_evaluated by blast
  have "pc_maxImmediateDeliveries example_attention_policy = 1" by (simp add: example_attention_policy_def)
  with rate_limit_holds [OF quiet_env_id e] e(1) show ?thesis by auto
qed

end
