(* ===== verification/Work_Tables.thy ===== *)
theory Work_Tables
  imports Scheduler Run_State Durable_Work
begin

text \<open>
  The tables that durable work shares: deployments and authority leases, Runs with their turns,
  coordination checkpoints and execution leases, scheduled jobs and their occurrences, the model budget
  ledger and the memory projection jobs (the migrations of \<open>packages/persistence-sqlite\<close>). One record
  holds them, because the operations of \<open>Run_Dispatch\<close>, \<open>Model_Budget\<close> and \<open>Background_Work\<close> read each
  other's tables inside one transaction.

  Both \<open>sqlite-run-dispatch-operations.ts\<close> and \<open>sqlite-model-budget-operations.ts\<close> turn a TypeError of
  their argument and row checks into \<open>PORT_INVALID_OPERATION\<close>; a violated table constraint is \<open>OtherError\<close>.
  Instants are texts of the form that \<open>toISOString\<close> writes, as in \<open>JsDate\<close>.
\<close>

section \<open>The scope of a request\<close>

record budget_scope =
  scp_ownerId :: OwnerId
  scp_agentId :: AgentId
  scp_authority :: product_authority_fence
  scp_leaseId :: AuthorityLeaseId
  scp_leaseFencingToken :: int

record dispatch_scope = budget_scope +
  scp_consumerId :: string

section \<open>Rows\<close>

record authority_lease_row =
  al_id :: AuthorityLeaseId
  al_ownerId :: OwnerId
  al_agentId :: AgentId
  al_deploymentId :: DeploymentId
  al_holderId :: AuthorityHolderId
  al_authorityEpoch :: int
  al_fencingToken :: int
  al_acquiredAt :: string
  al_expiresAt :: string
  al_releasedAt :: "string option"

record run_state_row =
  rs_id :: RunId
  rs_ownerId :: OwnerId
  rs_agentId :: AgentId
  rs_threadId :: "ThreadId option"
  rs_sessionId :: SessionId
  rs_triggerId :: TriggerId
  rs_revision :: int
  rs_status :: run_status
  rs_createdAt :: string
  rs_updatedAt :: string

record turn_row =
  tn_id :: TurnId
  tn_ownerId :: OwnerId
  tn_agentId :: AgentId
  tn_threadId :: "ThreadId option"
  tn_sessionId :: SessionId
  tn_runId :: RunId
  tn_turnIndex :: int
  tn_committedAt :: "string option"

datatype checkpoint_phase =
    cp_accepted
  | cp_context_formed
  | cp_workers_running
  | cp_runtime_running
  | cp_awaiting_approval
  | cp_runtime_settled
  | cp_reconciling_external_result
  | cp_completed
  | cp_failed
  | cp_cancelled

record suspension =
  su_approvalRequestId :: string
  su_semanticSnapshotHash :: string
  su_expiresAt :: string
  su_executionDeadlineAt :: "string option"

record checkpoint_row =
  ck_runId :: RunId
  ck_ownerId :: OwnerId
  ck_agentId :: AgentId
  ck_revision :: int
  ck_phase :: checkpoint_phase
  ck_runtimeEventCount :: int
  ck_diagnosticCode :: "string option"
  ck_updatedAt :: string
  ck_suspension :: "suspension option"

record approval_row =
  ar_id :: string
  ar_ownerId :: OwnerId
  ar_agentId :: AgentId
  ar_runId :: RunId
  ar_semanticSnapshotHash :: "string option"
  ar_status :: approval_status

record execution_lease_row =
  xl_ownerId :: OwnerId
  xl_agentId :: AgentId
  xl_runId :: RunId
  xl_revision :: int
  xl_authorityLeaseId :: AuthorityLeaseId
  xl_deploymentId :: DeploymentId
  xl_authorityEpoch :: int
  xl_fencingToken :: int
  xl_consumerId :: string
  xl_executionLeaseId :: RunExecutionLeaseId
  xl_claimedAt :: string
  xl_initialExpiresAt :: string
  xl_expiresAt :: string
  xl_releasedAt :: "string option"

datatype account_kind = kind_run | kind_occurrence | kind_memory_projection

datatype account_status = ba_active | ba_reconcile_required | ba_over_budget

record account_row =
  ba_ownerId :: OwnerId
  ba_agentId :: AgentId
  ba_accountId :: string
  ba_parentKind :: account_kind
  ba_runId :: "RunId option"
  ba_occurrenceId :: "OccurrenceId option"
  ba_projectionJobId :: "string option"
  ba_dataClassification :: product_data_classification
  ba_reservedCostMicros :: int
  ba_spentCostMicros :: int
  ba_status :: account_status
  ba_revision :: int

datatype allocation_status = mb_reserved | mb_started | mb_unknown | mb_settled | mb_released

datatype unknown_reason = provider_unresolved | transport_unresolved | cancel_unresolved

record allocation_row =
  mb_ownerId :: OwnerId
  mb_agentId :: AgentId
  mb_accountId :: string
  mb_operationKey :: string
  mb_modelRef :: string
  mb_dataClassification :: product_data_classification
  mb_estimatedCostMicros :: int
  mb_actualCostMicros :: "int option"
  mb_status :: allocation_status
  mb_reservedAt :: string
  mb_startedAt :: "string option"
  mb_observedAt :: "string option"
  mb_settledAt :: "string option"
  mb_reasonCode :: "unknown_reason option"

datatype projection_status = pj_pending | pj_claimed | pj_completed | pj_retry_wait | pj_failed_terminal

text \<open>A projection job joined with the memory record it projects.\<close>

record projection_row =
  pj_id :: string
  pj_ownerId :: OwnerId
  pj_agentId :: AgentId
  pj_status :: projection_status
  pj_claimedBy :: "string option"
  pj_attemptCount :: int
  pj_claimExpiresAt :: "string option"
  pj_memoryRevision :: int
  pj_currentRevision :: int
  pj_memoryStatus :: memory_lifecycle_status
  pj_dataClassification :: product_data_classification

text \<open>The trigger payload of a Run, as the join over triggers and payloads returns it.\<close>

record run_input_row =
  ri_runId :: RunId
  ri_ownerId :: OwnerId
  ri_agentId :: AgentId
  ri_classification :: product_data_classification

record work_db =
  wdb_headroom :: bool
  wdb_deployments :: "deployment_authority_state list"
  wdb_authorityLeases :: "authority_lease_row list"
  wdb_runs :: "run_state_row list"
  wdb_turns :: "turn_row list"
  wdb_checkpoints :: "checkpoint_row list"
  wdb_approvals :: "approval_row list"
  wdb_executionLeases :: "execution_lease_row list"
  wdb_runInputs :: "run_input_row list"
  wdb_projections :: "projection_row list"
  wdb_jobs :: "scheduled_job list"
  wdb_occurrences :: "background_occurrence list"
  wdb_accounts :: "account_row list"
  wdb_allocations :: "allocation_row list"

section \<open>Argument checks\<close>

abbreviation type_error :: error where
  "type_error \<equiv> ApplicationPortError INVALID_OPERATION"

abbreviation not_authoritative :: error where
  "not_authoritative \<equiv> ApplicationPortError NOT_AUTHORITATIVE"

abbreviation conflict :: error where
  "conflict \<equiv> ApplicationPortError CONFLICT"

definition machineText :: "string \<Rightarrow> unit result" where
  "machineText value = ensure (MACHINE_IDENTIFIER_PATTERN value) type_error"

definition safeInteger :: "int \<Rightarrow> int \<Rightarrow> unit result" where
  "safeInteger value minimum = ensure (is_safe_integer value \<and> value \<ge> minimum) type_error"

definition isAfter :: "string \<Rightarrow> string \<Rightarrow> bool" where
  "isAfter value boundary = (case (date_parse value, date_parse boundary) of
     (Some v, Some b) \<Rightarrow> v > b | _ \<Rightarrow> False)"

definition isAtOrAfter :: "string \<Rightarrow> string \<Rightarrow> bool" where
  "isAtOrAfter value boundary = (case (date_parse value, date_parse boundary) of
     (Some v, Some b) \<Rightarrow> v \<ge> b | _ \<Rightarrow> False)"

section \<open>The current authority\<close>

text \<open>The join of an authority lease with its deployment; both primary keys make it unique.\<close>

definition authority_join :: "work_db \<Rightarrow> 'a budget_scope_scheme \<Rightarrow> (authority_lease_row \<times> deployment_authority_state) option" where
  "authority_join db scope =
     (case List.find (\<lambda>l. al_id l = scp_leaseId scope \<and> al_ownerId l = scp_ownerId scope \<and>
                     al_agentId l = scp_agentId scope) (wdb_authorityLeases db) of
        None \<Rightarrow> None
      | Some l \<Rightarrow> map_option (\<lambda>d. (l, d))
          (List.find (\<lambda>d. dep_id d = al_deploymentId l \<and> dep_ownerId d = al_ownerId l \<and>
                 dep_agentId d = al_agentId l) (wdb_deployments db)))"

text \<open>The fence comparison both stores make on the joined row.\<close>

definition authority_matches :: "authority_lease_row \<times> deployment_authority_state \<Rightarrow> 'a budget_scope_scheme \<Rightarrow> bool" where
  "authority_matches row scope = (case row of (l, d) \<Rightarrow>
     al_deploymentId l = fence_deploymentId (scp_authority scope) \<and>
     al_authorityEpoch l = fence_authorityEpoch (scp_authority scope) \<and>
     al_authorityEpoch l = dep_authorityEpoch d \<and>
     al_fencingToken l = fence_fencingToken (scp_authority scope) \<and>
     al_fencingToken l = scp_leaseFencingToken scope \<and>
     dep_fencingToken d = fence_fencingToken (scp_authority scope))"

lemma authority_matches_iff:
  "authority_matches (l, d) scope \<longleftrightarrow>
     al_deploymentId l = fence_deploymentId (scp_authority scope) \<and>
     al_authorityEpoch l = fence_authorityEpoch (scp_authority scope) \<and>
     dep_authorityEpoch d = al_authorityEpoch l \<and>
     al_fencingToken l = fence_fencingToken (scp_authority scope) \<and>
     scp_leaseFencingToken scope = al_fencingToken l \<and>
     dep_fencingToken d = fence_fencingToken (scp_authority scope)"
  by (auto simp: authority_matches_def)

lemma authority_join_frame:
  "wdb_authorityLeases db' = wdb_authorityLeases db \<Longrightarrow> wdb_deployments db' = wdb_deployments db \<Longrightarrow>
     authority_join db' scope = authority_join db scope"
  by (simp add: authority_join_def cong: option.case_cong)

section \<open>Instants as texts\<close>

text \<open>A stored instant: written by \<open>toISOString\<close> in a four-digit year, where texts order as instants.\<close>

definition plain_instant :: "string \<Rightarrow> bool" where
  "plain_instant s \<longleftrightarrow> (case date_parse s of None \<Rightarrow> False | Some t \<Rightarrow> plain_time t \<and> iso_string t = s)"

lemma plain_time_valid: "plain_time t \<Longrightarrow> valid_time t"
  by (simp add: plain_time_def)

lemma plain_instantE:
  assumes "plain_instant s"
  obtains t where "plain_time t" "valid_time t" "s = iso_string t" "date_parse s = Some t"
  using assms plain_time_valid by (auto simp: plain_instant_def split: option.splits)

lemma isAfter_plain: "plain_instant a \<Longrightarrow> plain_instant b \<Longrightarrow> isAfter a b \<longleftrightarrow> b < a"
  by (auto elim!: plain_instantE simp: isAfter_def iso_string_less date_parse_iso)

lemma isAtOrAfter_plain: "plain_instant a \<Longrightarrow> plain_instant b \<Longrightarrow> isAtOrAfter a b \<longleftrightarrow> b \<le> a"
  by (auto elim!: plain_instantE simp: isAtOrAfter_def iso_string_le date_parse_iso)

lemma isAfter_trans: "isAfter a b \<Longrightarrow> isAtOrAfter b c \<Longrightarrow> isAfter a c"
  by (auto simp: isAfter_def isAtOrAfter_def split: option.splits)

lemma isAfter_irrefl: "isAfter a b \<Longrightarrow> isAfter b a \<Longrightarrow> False"
  by (auto simp: isAfter_def split: option.splits)

end
