(* ===== verification/Run_Dispatch.thy ===== *)
theory Run_Dispatch
  imports Work_Tables
begin

text \<open>
  Dispatch of Runs under execution leases
  (\<open>packages/persistence-sqlite/src/sqlite-run-dispatch-operations.ts\<close>): the candidates a consumer may
  claim, claim, renewal and release of the lease of a Run, the guard that writers run inside their own
  transaction, the quarantine of Runs whose outcome is uncertain, and the invalidation of a lease by an
  Owner's cancellation.

  Every operation runs in one immediate transaction, so it is one step on the store. A join that the
  source writes in SQL is written out on the rows; a Run has one checkpoint, one lease and one thread by
  the keys of the tables.
\<close>

section \<open>Requests and receipts\<close>

record run_execution_lease =
  rl_ownerId :: OwnerId
  rl_agentId :: AgentId
  rl_runId :: RunId
  rl_authorityLeaseId :: AuthorityLeaseId
  rl_deploymentId :: DeploymentId
  rl_authorityEpoch :: int
  rl_fencingToken :: int
  rl_consumerId :: string
  rl_executionLeaseId :: RunExecutionLeaseId
  rl_revision :: int
  rl_claimedAt :: string
  rl_expiresAt :: string
  rl_releasedAt :: "string option"

record lease_receipt =
  rc_lease :: run_execution_lease
  rc_replayed :: bool

record claim_input =
  ci_runId :: RunId
  ci_expectedRunRevision :: int
  ci_expectedLeaseRevision :: int
  ci_executionLeaseId :: RunExecutionLeaseId
  ci_claimedAt :: string
  ci_expiresAt :: string

record held_input =
  hi_runId :: RunId
  hi_expectedLeaseRevision :: int
  hi_executionLeaseId :: RunExecutionLeaseId
  hi_at :: string

record quarantine_input =
  qi_runId :: RunId
  qi_expectedRunRevision :: int
  qi_expectedLeaseRevision :: int
  qi_executionLeaseId :: "RunExecutionLeaseId option"
  qi_reasonCode :: string
  qi_at :: string

datatype dispatch_action = act_start | act_resume | act_reconcile

record dispatch_candidate =
  dc_ownerId :: OwnerId
  dc_agentId :: AgentId
  dc_runId :: RunId
  dc_sessionId :: SessionId
  dc_triggerId :: TriggerId
  dc_threadId :: "ThreadId option"
  dc_runRevision :: int
  dc_runStatus :: run_status
  dc_checkpointPhase :: "checkpoint_phase option"
  dc_leaseRevision :: int
  dc_action :: dispatch_action

record dispatch_run =
  dr_run :: run_state_row
  dr_checkpointPhase :: "checkpoint_phase option"
  dr_leaseRevision :: int
  dr_turnIndex :: "int option"

section \<open>Argument and row checks\<close>

definition createDispatchScope :: "dispatch_scope \<Rightarrow> dispatch_scope result" where
  "createDispatchScope s =
     andThen (createOwnerId (scp_ownerId s)) (\<lambda>_.
     andThen (createAgentId (scp_agentId s)) (\<lambda>_.
     andThen (createDeploymentId (fence_deploymentId (scp_authority s))) (\<lambda>_.
     andThen (safeInteger (fence_authorityEpoch (scp_authority s)) 1) (\<lambda>_.
     andThen (safeInteger (fence_fencingToken (scp_authority s)) 1) (\<lambda>_.
     andThen (createAuthorityLeaseId (scp_leaseId s)) (\<lambda>_.
     andThen (safeInteger (scp_leaseFencingToken s) 1) (\<lambda>_.
     andThen (machineText (scp_consumerId s)) (\<lambda>_. Inr s))))))))"

definition dispatch_text :: "string \<Rightarrow> unit result" where
  "dispatch_text value = ensure (value \<noteq> []) type_error"

definition dispatch_instant :: "string \<Rightarrow> unit result" where
  "dispatch_instant value = ensure (value \<noteq> [] \<and> date_parse value \<noteq> None) type_error"

definition assertTimeOrder :: "string \<Rightarrow> string \<Rightarrow> unit result" where
  "assertTimeOrder earlier later = ensure (isAfter later earlier) type_error"

definition parseLease :: "execution_lease_row \<Rightarrow> execution_lease_row result" where
  "parseLease r =
     andThen (ensure (list_all (\<lambda>s. s \<noteq> []) [xl_ownerId r, xl_agentId r, xl_runId r]) type_error) (\<lambda>_.
     andThen (safeInteger (xl_revision r) 0) (\<lambda>_.
     andThen (ensure (list_all (\<lambda>s. s \<noteq> []) [xl_authorityLeaseId r, xl_deploymentId r]) type_error) (\<lambda>_.
     andThen (safeInteger (xl_authorityEpoch r) 1) (\<lambda>_.
     andThen (safeInteger (xl_fencingToken r) 1) (\<lambda>_.
     andThen (ensure (list_all (\<lambda>s. s \<noteq> []) [xl_consumerId r, xl_executionLeaseId r, xl_claimedAt r,
                xl_initialExpiresAt r, xl_expiresAt r]) type_error) (\<lambda>_.
     andThen (ensure (xl_releasedAt r \<noteq> Some []) type_error) (\<lambda>_. Inr r)))))))"

definition toLease :: "execution_lease_row \<Rightarrow> run_execution_lease result" where
  "toLease r =
     andThen (createOwnerId (xl_ownerId r)) (\<lambda>ownerId.
     andThen (createAgentId (xl_agentId r)) (\<lambda>agentId.
     andThen (createRunId (xl_runId r)) (\<lambda>runId.
     andThen (createAuthorityLeaseId (xl_authorityLeaseId r)) (\<lambda>leaseId.
     andThen (createDeploymentId (xl_deploymentId r)) (\<lambda>deploymentId.
     andThen (createRunExecutionLeaseId (xl_executionLeaseId r)) (\<lambda>executionLeaseId.
       Inr \<lparr>rl_ownerId = ownerId, rl_agentId = agentId, rl_runId = runId, rl_authorityLeaseId = leaseId,
            rl_deploymentId = deploymentId, rl_authorityEpoch = xl_authorityEpoch r,
            rl_fencingToken = xl_fencingToken r, rl_consumerId = xl_consumerId r,
            rl_executionLeaseId = executionLeaseId, rl_revision = xl_revision r,
            rl_claimedAt = xl_claimedAt r, rl_expiresAt = xl_expiresAt r,
            rl_releasedAt = xl_releasedAt r\<rparr>))))))"

section \<open>Reads\<close>

definition lease_key :: "execution_lease_row \<Rightarrow> OwnerId \<times> AgentId \<times> RunId" where
  "lease_key r = (xl_ownerId r, xl_agentId r, xl_runId r)"

definition lease_row :: "work_db \<Rightarrow> 'a budget_scope_scheme \<Rightarrow> RunId \<Rightarrow> execution_lease_row option" where
  "lease_row db scope runId = row_of lease_key (scp_ownerId scope, scp_agentId scope, runId) (wdb_executionLeases db)"

definition readLease :: "work_db \<Rightarrow> 'a budget_scope_scheme \<Rightarrow> RunId \<Rightarrow> execution_lease_row option result" where
  "readLease db scope runId = (case lease_row db scope runId of
     None \<Rightarrow> Inr None
   | Some r \<Rightarrow> andThen (parseLease r) (\<lambda>x. Inr (Some x)))"

definition readLeaseByExecutionId :: "work_db \<Rightarrow> RunExecutionLeaseId \<Rightarrow> execution_lease_row option result" where
  "readLeaseByExecutionId db executionLeaseId =
     (case List.find (\<lambda>l. xl_executionLeaseId l = executionLeaseId) (wdb_executionLeases db) of
        None \<Rightarrow> Inr None
      | Some r \<Rightarrow> andThen (parseLease r) (\<lambda>x. Inr (Some x)))"

definition checkpoint_of :: "work_db \<Rightarrow> run_state_row \<Rightarrow> checkpoint_row option" where
  "checkpoint_of db r = List.find (\<lambda>c. ck_runId c = rs_id r \<and> ck_ownerId c = rs_ownerId r \<and>
     ck_agentId c = rs_agentId r) (wdb_checkpoints db)"

definition lease_of :: "work_db \<Rightarrow> run_state_row \<Rightarrow> execution_lease_row option" where
  "lease_of db r = row_of lease_key (rs_ownerId r, rs_agentId r, rs_id r) (wdb_executionLeases db)"

text \<open>The thread of a Run's turns and its smallest turn index there.\<close>

definition current_turn :: "work_db \<Rightarrow> run_state_row \<Rightarrow> (ThreadId option \<times> int) option" where
  "current_turn db r =
     (let mine = filter (\<lambda>t. tn_runId t = rs_id r \<and> tn_ownerId t = rs_ownerId r \<and> tn_agentId t = rs_agentId r)
            (wdb_turns db)
      in case mine of
           [] \<Rightarrow> None
         | t # _ \<Rightarrow> Some (tn_threadId t, foldr (\<lambda>u m. min (tn_turnIndex u) m)
             (filter (\<lambda>u. tn_threadId u = tn_threadId t) mine) (tn_turnIndex t)))"

definition dispatch_record :: "work_db \<Rightarrow> run_state_row \<Rightarrow> dispatch_run" where
  "dispatch_record db r =
     \<lparr>dr_run = r, dr_checkpointPhase = map_option ck_phase (checkpoint_of db r),
      dr_leaseRevision = (case lease_of db r of None \<Rightarrow> 0 | Some l \<Rightarrow> xl_revision l),
      dr_turnIndex = map_option snd (current_turn db r)\<rparr>"

definition run_row_in_scope :: "work_db \<Rightarrow> 'a budget_scope_scheme \<Rightarrow> RunId \<Rightarrow> run_state_row option" where
  "run_row_in_scope db scope runId = List.find (\<lambda>r. rs_id r = runId \<and> rs_ownerId r = scp_ownerId scope \<and>
     rs_agentId r = scp_agentId scope) (wdb_runs db)"

definition readRun :: "work_db \<Rightarrow> 'a budget_scope_scheme \<Rightarrow> RunId \<Rightarrow> dispatch_run option result" where
  "readRun db scope runId = (case run_row_in_scope db scope runId of
     None \<Rightarrow> Inr None
   | Some r \<Rightarrow>
       let d = dispatch_record db r in
       andThen (ensure (list_all (\<lambda>s. s \<noteq> []) [rs_id r, rs_ownerId r, rs_agentId r, rs_sessionId r, rs_triggerId r] \<and>
                  rs_threadId r \<noteq> Some []) type_error) (\<lambda>_.
       andThen (safeInteger (rs_revision r) 0) (\<lambda>_.
       andThen (safeInteger (dr_leaseRevision d) 0) (\<lambda>_.
       andThen (case dr_turnIndex d of None \<Rightarrow> Inr () | Some n \<Rightarrow> safeInteger n 0) (\<lambda>_. Inr (Some d))))))"

section \<open>Guards\<close>

definition dispatch_authority :: "work_db \<Rightarrow> 'a budget_scope_scheme \<Rightarrow> string \<Rightarrow> unit result" where
  "dispatch_authority db scope now = (case authority_join db scope of
     None \<Rightarrow> Inl not_authoritative
   | Some (l, d) \<Rightarrow>
       andThen (ensure (list_all (\<lambda>v. is_safe_integer v \<and> v \<ge> 0) [al_authorityEpoch l, al_fencingToken l,
                  dep_authorityEpoch d, dep_fencingToken d]) type_error) (\<lambda>_.
       andThen (ensure (dep_status d = dep_active \<and> al_releasedAt l = None) not_authoritative) (\<lambda>_.
       andThen (dispatch_text (al_expiresAt l)) (\<lambda>_.
       andThen (ensure (isAfter (al_expiresAt l) now) not_authoritative) (\<lambda>_.
       andThen (dispatch_text (al_deploymentId l)) (\<lambda>_.
         ensure (authority_matches (l, d) scope) not_authoritative))))))"

definition assertLeaseScope :: "dispatch_scope \<Rightarrow> execution_lease_row \<Rightarrow> bool \<Rightarrow> unit result" where
  "assertLeaseScope scope row includeConsumer =
     andThen (ensure (xl_authorityLeaseId row = scp_leaseId scope \<and>
                xl_deploymentId row = fence_deploymentId (scp_authority scope) \<and>
                xl_authorityEpoch row = fence_authorityEpoch (scp_authority scope) \<and>
                xl_fencingToken row = fence_fencingToken (scp_authority scope) \<and>
                xl_fencingToken row = scp_leaseFencingToken scope) not_authoritative) (\<lambda>_.
       ensure (includeConsumer \<longrightarrow> xl_consumerId row = scp_consumerId scope) conflict)"

definition assertRunBudgetDispatchable :: "work_db \<Rightarrow> 'a budget_scope_scheme \<Rightarrow> RunId \<Rightarrow> unit result" where
  "assertRunBudgetDispatchable db scope runId =
     ensure (\<not> list_ex (\<lambda>b. ba_ownerId b = scp_ownerId scope \<and> ba_agentId b = scp_agentId scope \<and>
               ba_runId b = Some runId \<and> ba_status b = ba_reconcile_required) (wdb_accounts db)) conflict"

definition suspension_deadline :: "suspension \<Rightarrow> string" where
  "suspension_deadline s =
     min (su_expiresAt s) (case su_executionDeadlineAt s of None \<Rightarrow> su_expiresAt s | Some d \<Rightarrow> d)"

text \<open>The approval a suspended Run waits for is decided, or the wait is over.\<close>

definition approval_ready :: "work_db \<Rightarrow> checkpoint_row \<Rightarrow> string \<Rightarrow> bool" where
  "approval_ready db c now = (case ck_suspension c of
     None \<Rightarrow> False
   | Some s \<Rightarrow> list_ex (\<lambda>a. ar_id a = su_approvalRequestId s \<and> ar_ownerId a = ck_ownerId c \<and>
       ar_agentId a = ck_agentId c \<and> ar_runId a = ck_runId c \<and>
       ar_semanticSnapshotHash a = Some (su_semanticSnapshotHash s) \<and>
       (ar_status a \<noteq> ap_pending \<or> suspension_deadline s \<le> now)) (wdb_approvals db))"

definition executing_statuses :: "run_status list" where
  "executing_statuses = [run_accepted, run_building_context, run_running, run_reconciling_external_result]"

text \<open>The rows of \<open>turns\<close> joined with their Run that an ordering check looks through.\<close>

definition executing_turn :: "work_db \<Rightarrow> turn_row \<Rightarrow> bool" where
  "executing_turn db t = list_ex (\<lambda>r. rs_id r = tn_runId t \<and> rs_ownerId r = tn_ownerId t \<and>
     rs_agentId r = tn_agentId t \<and> rs_status r \<in> set executing_statuses) (wdb_runs db)"

definition earlier_run_executing :: "work_db \<Rightarrow> 'a budget_scope_scheme \<Rightarrow> dispatch_run \<Rightarrow> bool" where
  "earlier_run_executing db scope d = (case (rs_threadId (dr_run d), dr_turnIndex d) of
     (Some thread, Some n) \<Rightarrow> list_ex (\<lambda>t. tn_ownerId t = scp_ownerId scope \<and> tn_agentId t = scp_agentId scope \<and>
       tn_threadId t = Some thread \<and> tn_turnIndex t < n \<and> executing_turn db t) (wdb_turns db)
   | _ \<Rightarrow> False)"

definition RUN_DISPATCHABLE_STATUSES :: "run_status list" where
  "RUN_DISPATCHABLE_STATUSES = [run_accepted, run_building_context, run_running, run_awaiting_approval]"

definition RESUMABLE_CHECKPOINT_PHASES :: "checkpoint_phase list" where
  "RESUMABLE_CHECKPOINT_PHASES = [cp_context_formed, cp_runtime_settled, cp_awaiting_approval]"

definition RECONCILIATION_CHECKPOINT_PHASES :: "checkpoint_phase list" where
  "RECONCILIATION_CHECKPOINT_PHASES = [cp_workers_running, cp_runtime_running, cp_reconciling_external_result]"

definition assertDispatchable :: "work_db \<Rightarrow> 'a budget_scope_scheme \<Rightarrow> dispatch_run \<Rightarrow> string \<Rightarrow> unit result" where
  "assertDispatchable db scope d now =
     andThen (ensure (dr_checkpointPhase d = Some cp_awaiting_approval \<longrightarrow>
                list_ex (\<lambda>c. ck_runId c = rs_id (dr_run d) \<and> ck_ownerId c = scp_ownerId scope \<and>
                  ck_agentId c = scp_agentId scope \<and> approval_ready db c now) (wdb_checkpoints db)) conflict) (\<lambda>_.
     andThen (ensure (rs_status (dr_run d) \<in> set RUN_DISPATCHABLE_STATUSES) conflict) (\<lambda>_.
     andThen (ensure (case dr_checkpointPhase d of None \<Rightarrow> True
                | Some p \<Rightarrow> p \<notin> set RECONCILIATION_CHECKPOINT_PHASES) conflict) (\<lambda>_.
     andThen (ensure (case dr_checkpointPhase d of None \<Rightarrow> True
                | Some p \<Rightarrow> p \<in> set RESUMABLE_CHECKPOINT_PHASES \<or> p = cp_accepted) conflict) (\<lambda>_.
     andThen (ensure (dr_checkpointPhase d = None \<longrightarrow> rs_status (dr_run d) = run_accepted) conflict) (\<lambda>_.
       ensure (\<not> earlier_run_executing db scope d) conflict)))))"

section \<open>Lease operations\<close>

text \<open>The CHECK constraints of \<open>run_execution_leases\<close>, on the texts that are stored.\<close>

definition lease_checks :: "execution_lease_row \<Rightarrow> bool" where
  "lease_checks r \<longleftrightarrow>
     0 \<le> xl_revision r \<and> xl_revision r \<le> MAX_SAFE_INTEGER \<and>
     1 \<le> xl_authorityEpoch r \<and> xl_authorityEpoch r \<le> MAX_SAFE_INTEGER \<and>
     1 \<le> xl_fencingToken r \<and> xl_fencingToken r \<le> MAX_SAFE_INTEGER \<and>
     list_ex (\<lambda>c. c \<noteq> CHR '' '') (xl_consumerId r) \<and> list_ex (\<lambda>c. c \<noteq> CHR '' '') (xl_executionLeaseId r) \<and>
     xl_claimedAt r < xl_initialExpiresAt r \<and> xl_claimedAt r < xl_expiresAt r \<and>
     (case xl_releasedAt r of None \<Rightarrow> True | Some t \<Rightarrow> xl_claimedAt r \<le> t)"

definition storeLease :: "work_db \<Rightarrow> execution_lease_row \<Rightarrow> work_db result" where
  "storeLease db r = (if lease_checks r
     then Inr (db\<lparr>wdb_executionLeases := put_row lease_key r (wdb_executionLeases db)\<rparr>) else Inl OtherError)"

definition lease_live :: "execution_lease_row \<Rightarrow> string \<Rightarrow> bool" where
  "lease_live l at \<longleftrightarrow> xl_releasedAt l = None \<and> isAfter (xl_expiresAt l) at"

text \<open>What a write stored, read back; the row is there, since the write did not fail.\<close>

definition stored_lease :: "work_db \<Rightarrow> 'a budget_scope_scheme \<Rightarrow> RunId \<Rightarrow> run_execution_lease result" where
  "stored_lease db scope runId = andThen (readLease db scope runId) (\<lambda>r. case r of
     None \<Rightarrow> Inl type_error | Some l \<Rightarrow> toLease l)"

text \<open>
  The lease that is there when a claim arrives: a repetition of the claim that created it is answered
  with it, a live or changed one refuses the claim, and an ended one lets it go on (\<open>None\<close>).
\<close>

definition claim_current :: "dispatch_scope \<Rightarrow> claim_input \<Rightarrow> execution_lease_row option \<Rightarrow> execution_lease_row option result" where
  "claim_current scope inp current = (case current of
     None \<Rightarrow> andThen (ensure (ci_expectedLeaseRevision inp = 0) conflict) (\<lambda>_. Inr None)
   | Some c \<Rightarrow>
       andThen (if lease_live c (ci_claimedAt inp) then assertLeaseScope scope c True else Inr ()) (\<lambda>_.
       andThen (ensure (\<not> (xl_executionLeaseId c = ci_executionLeaseId inp \<and> xl_releasedAt c \<noteq> None)) conflict) (\<lambda>_.
         if xl_executionLeaseId c = ci_executionLeaseId inp \<and>
            xl_revision c = ci_expectedLeaseRevision inp + 1 \<and>
            lease_live c (ci_claimedAt inp) \<and>
            xl_claimedAt c = ci_claimedAt inp \<and>
            xl_initialExpiresAt c = ci_expiresAt inp
         then Inr (Some c)
         else andThen (ensure (xl_revision c = ci_expectedLeaseRevision inp) conflict) (\<lambda>_.
              andThen (ensure (\<not> lease_live c (ci_claimedAt inp)) conflict) (\<lambda>_. Inr None)))))"

definition claimed_lease :: "dispatch_scope \<Rightarrow> claim_input \<Rightarrow> execution_lease_row" where
  "claimed_lease scope inp =
     \<lparr>xl_ownerId = scp_ownerId scope, xl_agentId = scp_agentId scope, xl_runId = ci_runId inp,
      xl_revision = ci_expectedLeaseRevision inp + 1, xl_authorityLeaseId = scp_leaseId scope,
      xl_deploymentId = fence_deploymentId (scp_authority scope),
      xl_authorityEpoch = fence_authorityEpoch (scp_authority scope),
      xl_fencingToken = fence_fencingToken (scp_authority scope), xl_consumerId = scp_consumerId scope,
      xl_executionLeaseId = ci_executionLeaseId inp, xl_claimedAt = ci_claimedAt inp,
      xl_initialExpiresAt = ci_expiresAt inp, xl_expiresAt = ci_expiresAt inp, xl_releasedAt = None\<rparr>"

definition claimRun :: "work_db \<Rightarrow> dispatch_scope \<Rightarrow> claim_input \<Rightarrow> (work_db \<times> lease_receipt) result" where
  "claimRun db scope inp =
     andThen (machineText (ci_runId inp)) (\<lambda>_.
     andThen (safeInteger (ci_expectedRunRevision inp) 0) (\<lambda>_.
     andThen (safeInteger (ci_expectedLeaseRevision inp) 0) (\<lambda>_.
     andThen (machineText (ci_executionLeaseId inp)) (\<lambda>_.
     andThen (dispatch_instant (ci_claimedAt inp)) (\<lambda>_.
     andThen (dispatch_instant (ci_expiresAt inp)) (\<lambda>_.
     andThen (assertTimeOrder (ci_claimedAt inp) (ci_expiresAt inp)) (\<lambda>_.
     andThen (dispatch_authority db scope (ci_claimedAt inp)) (\<lambda>_.
     andThen (readRun db scope (ci_runId inp)) (\<lambda>found. case found of
       None \<Rightarrow> Inl not_authoritative
     | Some run \<Rightarrow>
         andThen (readLease db scope (ci_runId inp)) (\<lambda>current.
         andThen (claim_current scope inp current) (\<lambda>replay. case replay of
           Some c \<Rightarrow> andThen (toLease c) (\<lambda>l. Inr (db, \<lparr>rc_lease = l, rc_replayed = True\<rparr>))
         | None \<Rightarrow>
             andThen (assertRunBudgetDispatchable db scope (ci_runId inp)) (\<lambda>_.
             andThen (readLeaseByExecutionId db (ci_executionLeaseId inp)) (\<lambda>existing.
             andThen (ensure (case existing of None \<Rightarrow> True
                        | Some x \<Rightarrow> lease_key x = (scp_ownerId scope, scp_agentId scope, ci_runId inp)) conflict) (\<lambda>_.
             andThen (ensure (rs_revision (dr_run run) = ci_expectedRunRevision inp) conflict) (\<lambda>_.
             andThen (assertDispatchable db scope run (ci_claimedAt inp)) (\<lambda>_.
             andThen (storeLease db (claimed_lease scope inp)) (\<lambda>db'.
             andThen (stored_lease db' scope (ci_runId inp)) (\<lambda>l.
               Inr (db', \<lparr>rc_lease = l, rc_replayed = False\<rparr>)))))))))))))))))))"

definition renewLease :: "work_db \<Rightarrow> dispatch_scope \<Rightarrow> held_input \<Rightarrow> string \<Rightarrow> (work_db \<times> lease_receipt) result" where
  "renewLease db scope inp expiresAt =
     andThen (machineText (hi_runId inp)) (\<lambda>_.
     andThen (safeInteger (hi_expectedLeaseRevision inp) 0) (\<lambda>_.
     andThen (machineText (hi_executionLeaseId inp)) (\<lambda>_.
     andThen (dispatch_instant (hi_at inp)) (\<lambda>_.
     andThen (dispatch_instant expiresAt) (\<lambda>_.
     andThen (assertTimeOrder (hi_at inp) expiresAt) (\<lambda>_.
     andThen (dispatch_authority db scope (hi_at inp)) (\<lambda>_.
     andThen (readLease db scope (hi_runId inp)) (\<lambda>found. case found of
       None \<Rightarrow> Inl conflict
     | Some c \<Rightarrow>
         andThen (ensure (xl_executionLeaseId c = hi_executionLeaseId inp \<and>
                    xl_revision c = hi_expectedLeaseRevision inp \<and> lease_live c (hi_at inp)) conflict) (\<lambda>_.
         andThen (ensure (isAtOrAfter (hi_at inp) (xl_claimedAt c)) conflict) (\<lambda>_.
         andThen (ensure (isAtOrAfter expiresAt (xl_expiresAt c)) conflict) (\<lambda>_.
         andThen (assertLeaseScope scope c True) (\<lambda>_.
         andThen (if expiresAt = xl_expiresAt c then Inr db else storeLease db (c\<lparr>xl_expiresAt := expiresAt\<rparr>)) (\<lambda>db'.
         andThen (stored_lease db' scope (hi_runId inp)) (\<lambda>l.
           Inr (db', \<lparr>rc_lease = l, rc_replayed = (expiresAt = xl_expiresAt c)\<rparr>)))))))))))))))"

definition releaseLease :: "work_db \<Rightarrow> dispatch_scope \<Rightarrow> held_input \<Rightarrow> (work_db \<times> lease_receipt) result" where
  "releaseLease db scope inp =
     andThen (machineText (hi_runId inp)) (\<lambda>_.
     andThen (safeInteger (hi_expectedLeaseRevision inp) 0) (\<lambda>_.
     andThen (machineText (hi_executionLeaseId inp)) (\<lambda>_.
     andThen (dispatch_instant (hi_at inp)) (\<lambda>_.
     andThen (dispatch_authority db scope (hi_at inp)) (\<lambda>_.
     andThen (readLease db scope (hi_runId inp)) (\<lambda>found. case found of
       None \<Rightarrow> Inl conflict
     | Some c \<Rightarrow>
         andThen (ensure (xl_executionLeaseId c = hi_executionLeaseId inp) conflict) (\<lambda>_.
         andThen (assertLeaseScope scope c True) (\<lambda>_.
         andThen (ensure (xl_revision c = hi_expectedLeaseRevision inp \<and> lease_live c (hi_at inp)) conflict) (\<lambda>_.
         andThen (storeLease db (c\<lparr>xl_revision := hi_expectedLeaseRevision inp + 1, xl_releasedAt := Some (hi_at inp)\<rparr>)) (\<lambda>db'.
         andThen (stored_lease db' scope (hi_runId inp)) (\<lambda>l.
           Inr (db', \<lparr>rc_lease = l, rc_replayed = False\<rparr>))))))))))))"

text \<open>The guard of a writer that is already inside its transaction.\<close>

definition assertHeldParsed :: "work_db \<Rightarrow> dispatch_scope \<Rightarrow> held_input \<Rightarrow> run_execution_lease result" where
  "assertHeldParsed db scope inp =
     andThen (dispatch_authority db scope (hi_at inp)) (\<lambda>_.
     andThen (readLease db scope (hi_runId inp)) (\<lambda>found. case found of
       None \<Rightarrow> Inl conflict
     | Some c \<Rightarrow>
         andThen (ensure (xl_executionLeaseId c = hi_executionLeaseId inp \<and>
                    xl_revision c = hi_expectedLeaseRevision inp \<and> lease_live c (hi_at inp)) conflict) (\<lambda>_.
         andThen (assertLeaseScope scope c True) (\<lambda>_.
         andThen (readRun db scope (hi_runId inp)) (\<lambda>run. case run of
           None \<Rightarrow> Inl not_authoritative
         | Some _ \<Rightarrow> toLease c)))))"

definition assertHeld :: "work_db \<Rightarrow> dispatch_scope \<Rightarrow> held_input \<Rightarrow> run_execution_lease result" where
  "assertHeld db scope inp =
     andThen (machineText (hi_runId inp)) (\<lambda>_.
     andThen (safeInteger (hi_expectedLeaseRevision inp) 0) (\<lambda>_.
     andThen (machineText (hi_executionLeaseId inp)) (\<lambda>_.
     andThen (dispatch_instant (hi_at inp)) (\<lambda>_.
       assertHeldParsed db scope inp))))"

definition invalidateForOwnerCancellation :: "work_db \<Rightarrow> dispatch_scope \<Rightarrow> RunId \<Rightarrow> string \<Rightarrow>
    (work_db \<times> run_execution_lease option) result" where
  "invalidateForOwnerCancellation db scope runId at =
     andThen (machineText runId) (\<lambda>_.
     andThen (dispatch_instant at) (\<lambda>_.
     andThen (dispatch_authority db scope at) (\<lambda>_.
     andThen (readRun db scope runId) (\<lambda>run. case run of
       None \<Rightarrow> Inl not_authoritative
     | Some _ \<Rightarrow> andThen (readLease db scope runId) (\<lambda>found. case found of
         None \<Rightarrow> Inr (db, None)
       | Some c \<Rightarrow>
           if xl_releasedAt c \<noteq> None then Inr (db, None)
           else andThen (storeLease db (c\<lparr>xl_revision := xl_revision c + 1, xl_releasedAt := Some at\<rparr>)) (\<lambda>db'.
                andThen (stored_lease db' scope runId) (\<lambda>l. Inr (db', Some l))))))))"

section \<open>Candidates\<close>

definition candidate :: "work_db \<Rightarrow> bool \<Rightarrow> run_state_row \<Rightarrow> dispatch_candidate result" where
  "candidate db reconciliation r =
     (let d = dispatch_record db r in
     andThen (ensure (rs_ownerId r \<noteq> []) type_error) (\<lambda>_.
     andThen (createOwnerId (rs_ownerId r)) (\<lambda>_.
     andThen (ensure (rs_agentId r \<noteq> []) type_error) (\<lambda>_.
     andThen (createAgentId (rs_agentId r)) (\<lambda>_.
     andThen (ensure (rs_id r \<noteq> []) type_error) (\<lambda>_.
     andThen (createRunId (rs_id r)) (\<lambda>_.
     andThen (ensure (rs_sessionId r \<noteq> [] \<and> rs_triggerId r \<noteq> [] \<and> rs_threadId r \<noteq> Some []) type_error) (\<lambda>_.
     andThen (safeInteger (rs_revision r) 0) (\<lambda>_.
     andThen (safeInteger (dr_leaseRevision d) 0) (\<lambda>_.
       Inr \<lparr>dc_ownerId = rs_ownerId r, dc_agentId = rs_agentId r, dc_runId = rs_id r,
            dc_sessionId = rs_sessionId r, dc_triggerId = rs_triggerId r, dc_threadId = rs_threadId r,
            dc_runRevision = rs_revision r, dc_runStatus = rs_status r,
            dc_checkpointPhase = dr_checkpointPhase d, dc_leaseRevision = dr_leaseRevision d,
            dc_action = (if reconciliation then act_reconcile
                         else if dr_checkpointPhase d \<in> {None, Some cp_accepted} then act_start
                         else act_resume)\<rparr>))))))))))"

fun candidates :: "work_db \<Rightarrow> bool \<Rightarrow> run_state_row list \<Rightarrow> dispatch_candidate list result" where
  "candidates db reconciliation [] = Inr []"
| "candidates db reconciliation (r # rs) =
     andThen (candidate db reconciliation r) (\<lambda>c.
     andThen (candidates db reconciliation rs) (\<lambda>cs. Inr (c # cs)))"

text \<open>No lease, a released one, or one past its expiry.\<close>

definition lease_over :: "work_db \<Rightarrow> run_state_row \<Rightarrow> string \<Rightarrow> bool" where
  "lease_over db r now = (case lease_of db r of
     None \<Rightarrow> True | Some l \<Rightarrow> xl_releasedAt l \<noteq> None \<or> xl_expiresAt l \<le> now)"

definition budget_unreconciled :: "work_db \<Rightarrow> run_state_row \<Rightarrow> bool" where
  "budget_unreconciled db r = list_ex (\<lambda>b. ba_ownerId b = rs_ownerId r \<and> ba_agentId b = rs_agentId r \<and>
     ba_runId b = Some (rs_id r) \<and> ba_status b = ba_reconcile_required) (wdb_accounts db)"

definition phase_claimable :: "work_db \<Rightarrow> run_state_row \<Rightarrow> string \<Rightarrow> bool" where
  "phase_claimable db r now = (case checkpoint_of db r of
     None \<Rightarrow> rs_status r = run_accepted
   | Some c \<Rightarrow>
       rs_status r = run_accepted \<and> ck_phase c = cp_accepted \<or>
       ck_phase c \<in> {cp_context_formed, cp_runtime_settled} \<or>
       ck_phase c = cp_awaiting_approval \<and> approval_ready db c now)"

definition blocked_by_earlier_turn :: "work_db \<Rightarrow> run_state_row \<Rightarrow> bool" where
  "blocked_by_earlier_turn db r = (case current_turn db r of
     Some (Some thread, n) \<Rightarrow> list_ex (\<lambda>t. tn_threadId t = Some thread \<and> tn_turnIndex t < n \<and>
       executing_turn db t) (wdb_turns db)
   | _ \<Rightarrow> False)"

definition claimable_row :: "work_db \<Rightarrow> 'a budget_scope_scheme \<Rightarrow> string \<Rightarrow> run_state_row \<Rightarrow> bool" where
  "claimable_row db scope now r \<longleftrightarrow>
     rs_ownerId r = scp_ownerId scope \<and> rs_agentId r = scp_agentId scope \<and>
     rs_status r \<in> set RUN_DISPATCHABLE_STATUSES \<and>
     phase_claimable db r now \<and> lease_over db r now \<and>
     \<not> budget_unreconciled db r \<and> \<not> blocked_by_earlier_turn db r"

definition reconciliation_row :: "work_db \<Rightarrow> 'a budget_scope_scheme \<Rightarrow> string \<Rightarrow> run_state_row \<Rightarrow> bool" where
  "reconciliation_row db scope now r \<longleftrightarrow>
     rs_ownerId r = scp_ownerId scope \<and> rs_agentId r = scp_agentId scope \<and>
     rs_status r \<in> {run_accepted, run_building_context, run_running, run_reconciling_external_result} \<and>
     \<not> (rs_status r = run_reconciling_external_result \<and>
        map_option ck_phase (checkpoint_of db r) = Some cp_reconciling_external_result) \<and>
     (case checkpoint_of db r of
        None \<Rightarrow> rs_status r \<in> {run_building_context, run_running} \<or> budget_unreconciled db r
      | Some c \<Rightarrow> ck_phase c \<in> set RECONCILIATION_CHECKPOINT_PHASES \<or> budget_unreconciled db r) \<and>
     lease_over db r now"

definition listRuns :: "work_db \<Rightarrow> dispatch_scope \<Rightarrow> (run_state_row \<Rightarrow> bool) \<Rightarrow> bool \<Rightarrow> int \<Rightarrow> dispatch_candidate list result" where
  "listRuns db scope selected reconciliation limit =
     candidates db reconciliation (take (nat limit) (sort_key (\<lambda>r. (rs_createdAt r, rs_id r))
       (filter selected (wdb_runs db))))"

definition listClaimable :: "work_db \<Rightarrow> dispatch_scope \<Rightarrow> string \<Rightarrow> int \<Rightarrow> dispatch_candidate list result" where
  "listClaimable db scope now limit =
     andThen (dispatch_instant now) (\<lambda>_.
     andThen (safeInteger limit 1) (\<lambda>_.
     andThen (dispatch_authority db scope now) (\<lambda>_.
       listRuns db scope (claimable_row db scope now) False limit)))"

definition listReconciliationRequired :: "work_db \<Rightarrow> dispatch_scope \<Rightarrow> string \<Rightarrow> int \<Rightarrow> dispatch_candidate list result" where
  "listReconciliationRequired db scope now limit =
     andThen (dispatch_instant now) (\<lambda>_.
     andThen (safeInteger limit 1) (\<lambda>_.
     andThen (dispatch_authority db scope now) (\<lambda>_.
       listRuns db scope (reconciliation_row db scope now) True limit)))"

section \<open>Quarantine\<close>

definition quarantine_run :: "work_db \<Rightarrow> dispatch_scope \<Rightarrow> RunId \<Rightarrow> string \<Rightarrow> work_db" where
  "quarantine_run db scope runId at = db\<lparr>wdb_runs := map (\<lambda>r.
     if rs_id r = runId \<and> rs_ownerId r = scp_ownerId scope \<and> rs_agentId r = scp_agentId scope
     then r\<lparr>rs_status := run_reconciling_external_result, rs_revision := rs_revision r + 1, rs_updatedAt := at\<rparr>
     else r) (wdb_runs db)\<rparr>"

definition quarantine_checkpoint :: "work_db \<Rightarrow> dispatch_scope \<Rightarrow> RunId \<Rightarrow> string \<Rightarrow> string \<Rightarrow> work_db result" where
  "quarantine_checkpoint db scope runId reasonCode at =
     (case row_of ck_runId runId (wdb_checkpoints db) of
        None \<Rightarrow> Inr (db\<lparr>wdb_checkpoints := wdb_checkpoints db @
          [\<lparr>ck_runId = runId, ck_ownerId = scp_ownerId scope, ck_agentId = scp_agentId scope, ck_revision = 1,
            ck_phase = cp_reconciling_external_result, ck_runtimeEventCount = 0,
            ck_diagnosticCode = Some reasonCode, ck_updatedAt = at, ck_suspension = None\<rparr>]\<rparr>)
      | Some c \<Rightarrow>
          if ck_revision c + 1 > MAX_SAFE_INTEGER then Inl OtherError
          else Inr (db\<lparr>wdb_checkpoints := put_row ck_runId (c\<lparr>ck_revision := ck_revision c + 1,
            ck_phase := cp_reconciling_external_result, ck_diagnosticCode := Some reasonCode,
            ck_updatedAt := at\<rparr>) (wdb_checkpoints db)\<rparr>))"

definition quarantine :: "work_db \<Rightarrow> dispatch_scope \<Rightarrow> quarantine_input \<Rightarrow> work_db result" where
  "quarantine db scope inp =
     andThen (createRunId (qi_runId inp)) (\<lambda>runId.
     andThen (dispatch_instant (qi_at inp)) (\<lambda>_.
     andThen (safeInteger (qi_expectedRunRevision inp) 1) (\<lambda>_.
     andThen (safeInteger (qi_expectedLeaseRevision inp) 0) (\<lambda>_.
     andThen (machineText (qi_reasonCode inp)) (\<lambda>_.
     andThen (dispatch_authority db scope (qi_at inp)) (\<lambda>_.
     andThen (readRun db scope runId) (\<lambda>found. case found of
       None \<Rightarrow> Inl not_authoritative
     | Some run \<Rightarrow>
         andThen (ensure (rs_revision (dr_run run) = qi_expectedRunRevision inp \<and>
                    dr_leaseRevision run = qi_expectedLeaseRevision inp) conflict) (\<lambda>_.
         if rs_status (dr_run run) \<in> {run_completed, run_failed, run_cancelled} then Inr db
         else
         andThen (ensure (rs_status (dr_run run) \<in> {run_accepted, run_building_context, run_running,
                    run_reconciling_external_result}) conflict) (\<lambda>_.
         andThen (readLease db scope runId) (\<lambda>lease.
         andThen (case lease of None \<Rightarrow> Inr ()
                  | Some l \<Rightarrow> if lease_live l (qi_at inp)
                      then andThen (assertLeaseScope scope l True) (\<lambda>_.
                           ensure (qi_executionLeaseId inp = Some (xl_executionLeaseId l)) conflict)
                      else Inr ()) (\<lambda>_.
         andThen (case lease of None \<Rightarrow> Inr db
                  | Some l \<Rightarrow> if xl_releasedAt l = None
                      then storeLease db (l\<lparr>xl_revision := xl_revision l + 1, xl_releasedAt := Some (qi_at inp)\<rparr>)
                      else Inr db) (\<lambda>db1.
         if rs_status (dr_run run) = run_reconciling_external_result \<and>
            dr_checkpointPhase run = Some cp_reconciling_external_result then Inr db1
         else quarantine_checkpoint (quarantine_run db1 scope runId (qi_at inp)) scope runId
                (qi_reasonCode inp) (qi_at inp)))))))))))))"

section \<open>Histories\<close>

text \<open>
  One transaction of any consumer under any scope, or of another component that leaves the execution
  leases alone.
\<close>

inductive dispatch_step :: "work_db \<Rightarrow> work_db \<Rightarrow> bool" where
  claim: "claimRun db scope inp = Inr (db', r) \<Longrightarrow> dispatch_step db db'"
| renew: "renewLease db scope hinp e = Inr (db', r) \<Longrightarrow> dispatch_step db db'"
| release: "releaseLease db scope hinp = Inr (db', r) \<Longrightarrow> dispatch_step db db'"
| invalidate: "invalidateForOwnerCancellation db scope runId t = Inr (db', l) \<Longrightarrow> dispatch_step db db'"
| quarantined: "quarantine db scope qinp = Inr db' \<Longrightarrow> dispatch_step db db'"
| other: "wdb_executionLeases db' = wdb_executionLeases db \<Longrightarrow> dispatch_step db db'"

section \<open>What an operation that succeeds has done\<close>

definition lease_at :: "work_db \<Rightarrow> OwnerId \<times> AgentId \<times> RunId \<Rightarrow> execution_lease_row option" where
  "lease_at db k = row_of lease_key k (wdb_executionLeases db)"

definition scope_key :: "'a budget_scope_scheme \<Rightarrow> RunId \<Rightarrow> OwnerId \<times> AgentId \<times> RunId" where
  "scope_key scope runId = (scp_ownerId scope, scp_agentId scope, runId)"

text \<open>What identifies a lease: all of its row but the expiry, which a renewal moves.\<close>

definition lease_ident :: "execution_lease_row \<Rightarrow> execution_lease_row" where
  "lease_ident l = l\<lparr>xl_expiresAt := []\<rparr>"

lemma lease_ident_revision [simp]: "xl_revision (lease_ident l) = xl_revision l"
  by (simp add: lease_ident_def)

lemma parseLease_Inr: "parseLease r = Inr x \<Longrightarrow> x = r"
  unfolding parseLease_def by (auto simp: inverts)

lemma readLease_Inr: "readLease db scope i = Inr c \<Longrightarrow> c = lease_at db (scope_key scope i)"
  unfolding readLease_def lease_row_def lease_at_def scope_key_def
  by (auto simp: inverts dest: parseLease_Inr split: option.splits)

lemma storeLease_Inr:
  "storeLease db r = Inr db' \<longleftrightarrow> lease_checks r \<and>
     db' = db\<lparr>wdb_executionLeases := put_row lease_key r (wdb_executionLeases db)\<rparr>"
  unfolding storeLease_def by auto

lemma storeLease_at:
  "storeLease db r = Inr db' \<Longrightarrow> lease_at db' k = (if k = lease_key r then Some r else lease_at db k)"
  by (auto simp: storeLease_Inr lease_at_def row_of_put_row)

lemma lease_at_key: "lease_at db k = Some l \<Longrightarrow> lease_key l = k"
  unfolding lease_at_def by (blast dest: row_of_SomeD)

lemma lease_key_upd [simp]: "lease_key (l\<lparr>xl_expiresAt := e\<rparr>) = lease_key l"
  "lease_key (l\<lparr>xl_revision := n, xl_releasedAt := t\<rparr>) = lease_key l"
  by (simp_all add: lease_key_def)

lemma lease_key_claimed [simp]: "lease_key (claimed_lease scope inp) = scope_key scope (ci_runId inp)"
  by (simp add: lease_key_def claimed_lease_def scope_key_def)

lemma assertLeaseScope_Inr:
  "assertLeaseScope scope l True = Inr u \<longleftrightarrow> xl_authorityLeaseId l = scp_leaseId scope \<and>
     xl_deploymentId l = fence_deploymentId (scp_authority scope) \<and>
     xl_authorityEpoch l = fence_authorityEpoch (scp_authority scope) \<and>
     xl_fencingToken l = fence_fencingToken (scp_authority scope) \<and>
     xl_fencingToken l = scp_leaseFencingToken scope \<and> xl_consumerId l = scp_consumerId scope"
  unfolding assertLeaseScope_def by (auto simp: inverts)

definition lease_set :: "work_db \<Rightarrow> OwnerId \<times> AgentId \<times> RunId \<Rightarrow> execution_lease_row \<Rightarrow> work_db \<Rightarrow> bool" where
  "lease_set db i x db' \<longleftrightarrow> (\<forall>k. lease_at db' k = (if k = i then Some x else lease_at db k))"

abbreviation ended_lease :: "execution_lease_row \<Rightarrow> string \<Rightarrow> execution_lease_row" where
  "ended_lease c t \<equiv> c\<lparr>xl_revision := xl_revision c + 1, xl_releasedAt := Some t\<rparr>"

lemma storeLease_set: "storeLease db r = Inr db' \<Longrightarrow> lease_set db (lease_key r) r db'"
  by (simp add: lease_set_def storeLease_at)

lemma claimed_lease_fields [simp]:
  "xl_revision (claimed_lease scope inp) = ci_expectedLeaseRevision inp + 1"
  "xl_executionLeaseId (claimed_lease scope inp) = ci_executionLeaseId inp"
  "xl_consumerId (claimed_lease scope inp) = scp_consumerId scope"
  "xl_claimedAt (claimed_lease scope inp) = ci_claimedAt inp"
  "xl_expiresAt (claimed_lease scope inp) = ci_expiresAt inp"
  "xl_releasedAt (claimed_lease scope inp) = None"
  by (simp_all add: claimed_lease_def)

lemma claim_current_None:
  "claim_current scope inp cur = Inr None \<Longrightarrow>
     (case cur of None \<Rightarrow> ci_expectedLeaseRevision inp = 0
      | Some c \<Rightarrow> xl_revision c = ci_expectedLeaseRevision inp \<and> \<not> lease_live c (ci_claimedAt inp))"
  unfolding claim_current_def by (auto simp: inverts split: option.splits if_splits)

lemma claim_current_Some:
  "claim_current scope inp cur = Inr (Some c) \<Longrightarrow>
     cur = Some c \<and> xl_executionLeaseId c = ci_executionLeaseId inp \<and>
     xl_revision c = ci_expectedLeaseRevision inp + 1 \<and> lease_live c (ci_claimedAt inp) \<and>
     xl_claimedAt c = ci_claimedAt inp \<and> assertLeaseScope scope c True = Inr ()"
  unfolding claim_current_def by (auto simp: inverts split: option.splits if_splits)

lemma claimRun_cases:
  assumes "claimRun db scope inp = Inr (db', r)"
  obtains (replay) c where "lease_at db (scope_key scope (ci_runId inp)) = Some c" "db' = db"
      "claim_current scope inp (Some c) = Inr (Some c)" "toLease c = Inr (rc_lease r)" "rc_replayed r"
    | (new) "claim_current scope inp (lease_at db (scope_key scope (ci_runId inp))) = Inr None"
      "storeLease db (claimed_lease scope inp) = Inr db'" "toLease (claimed_lease scope inp) = Inr (rc_lease r)"
      "\<not> rc_replayed r"
proof -
  from assms obtain run cur rep where
    cur: "readLease db scope (ci_runId inp) = Inr cur"
    and rep: "claim_current scope inp cur = Inr rep"
    and res: "case rep of Some c \<Rightarrow> \<exists>l. toLease c = Inr l \<and> db' = db \<and> r = \<lparr>rc_lease = l, rc_replayed = True\<rparr>
      | None \<Rightarrow> \<exists>l. storeLease db (claimed_lease scope inp) = Inr db' \<and>
          stored_lease db' scope (ci_runId inp) = Inr l \<and> r = \<lparr>rc_lease = l, rc_replayed = False\<rparr>"
    unfolding claimRun_def by (auto simp: inverts split: option.splits)
  note c = readLease_Inr [OF cur]
  show thesis
  proof (cases rep)
    case (Some x)
    with claim_current_Some [of scope inp cur x] rep res c show thesis
      by (intro replay [of x]) auto
  next
    case None
    with res obtain l where l: "storeLease db (claimed_lease scope inp) = Inr db'"
      "stored_lease db' scope (ci_runId inp) = Inr l" "r = \<lparr>rc_lease = l, rc_replayed = False\<rparr>" by auto
    from l(2) readLease_Inr [of db' scope "ci_runId inp"] have "toLease (claimed_lease scope inp) = Inr l"
      unfolding stored_lease_def by (auto simp: inverts storeLease_at [OF l(1)])
    with None l rep c show thesis by (intro new) auto
  qed
qed

lemma renewLease_Inr:
  assumes "renewLease db scope inp e = Inr (db', r)"
  shows "\<exists>c. lease_at db (scope_key scope (hi_runId inp)) = Some c \<and> lease_live c (hi_at inp) \<and>
    xl_executionLeaseId c = hi_executionLeaseId inp \<and> xl_revision c = hi_expectedLeaseRevision inp \<and>
    assertLeaseScope scope c True = Inr () \<and> isAtOrAfter e (xl_expiresAt c) \<and>
    lease_set db (scope_key scope (hi_runId inp)) (c\<lparr>xl_expiresAt := e\<rparr>) db'"
proof -
  from assms obtain c where c: "readLease db scope (hi_runId inp) = Inr (Some c)"
    "xl_executionLeaseId c = hi_executionLeaseId inp" "xl_revision c = hi_expectedLeaseRevision inp"
    "lease_live c (hi_at inp)" "assertLeaseScope scope c True = Inr ()" "isAtOrAfter e (xl_expiresAt c)"
    and st: "(if e = xl_expiresAt c then Inr db else storeLease db (c\<lparr>xl_expiresAt := e\<rparr>)) = Inr db'"
    unfolding renewLease_def by (auto simp: inverts split: option.splits)
  have at: "lease_at db (scope_key scope (hi_runId inp)) = Some c" using readLease_Inr [OF c(1)] by simp
  have "lease_set db (scope_key scope (hi_runId inp)) (c\<lparr>xl_expiresAt := e\<rparr>) db'"
    using st at lease_at_key [OF at] by (auto simp: lease_set_def storeLease_at split: if_splits)
  with at c show ?thesis by blast
qed

lemma releaseLease_Inr:
  assumes "releaseLease db scope inp = Inr (db', r)"
  shows "\<exists>c. lease_at db (scope_key scope (hi_runId inp)) = Some c \<and> xl_revision c = hi_expectedLeaseRevision inp \<and>
    lease_set db (scope_key scope (hi_runId inp)) (ended_lease c (hi_at inp)) db'"
proof -
  from assms obtain c where c: "readLease db scope (hi_runId inp) = Inr (Some c)"
    "xl_revision c = hi_expectedLeaseRevision inp"
    and st: "storeLease db (c\<lparr>xl_revision := xl_revision c + 1, xl_releasedAt := Some (hi_at inp)\<rparr>) = Inr db'"
    unfolding releaseLease_def by (auto simp: inverts split: option.splits)
  have at: "lease_at db (scope_key scope (hi_runId inp)) = Some c" using readLease_Inr [OF c(1)] by simp
  with c st lease_at_key [OF at] show ?thesis by (auto dest: storeLease_set)
qed

lemma invalidate_Inr:
  assumes "invalidateForOwnerCancellation db scope i t = Inr (db', r)"
  shows "db' = db \<or> (\<exists>c. lease_at db (scope_key scope i) = Some c \<and> xl_releasedAt c = None \<and>
    lease_set db (scope_key scope i) (ended_lease c t) db')"
proof (cases "db' = db")
  case False
  with assms obtain c where c: "readLease db scope i = Inr (Some c)" "xl_releasedAt c = None"
    and st: "storeLease db (c\<lparr>xl_revision := xl_revision c + 1, xl_releasedAt := Some t\<rparr>) = Inr db'"
    unfolding invalidateForOwnerCancellation_def by (auto simp: inverts split: option.splits if_splits)
  have at: "lease_at db (scope_key scope i) = Some c" using readLease_Inr [OF c(1)] by simp
  with c st lease_at_key [OF at] show ?thesis by (auto dest: storeLease_set)
qed simp

lemma lease_at_quarantine_run [simp]: "lease_at (quarantine_run db scope i t) k = lease_at db k"
  by (simp add: lease_at_def quarantine_run_def)

lemma lease_at_quarantine_checkpoint:
  "quarantine_checkpoint db scope i c t = Inr db' \<Longrightarrow> lease_at db' k = lease_at db k"
  by (auto simp: lease_at_def quarantine_checkpoint_def split: option.splits if_splits)

lemma quarantine_Inr:
  assumes "quarantine db scope inp = Inr db'"
  shows "(\<forall>k. lease_at db' k = lease_at db k) \<or> (\<exists>c. lease_at db (scope_key scope (qi_runId inp)) = Some c \<and>
    xl_releasedAt c = None \<and>
    lease_set db (scope_key scope (qi_runId inp)) (ended_lease c (qi_at inp)) db')"
proof (cases "db' = db")
  case False
  with assms obtain lease db1 where lease: "readLease db scope (qi_runId inp) = Inr lease"
    and st: "(case lease of None \<Rightarrow> Inr db
       | Some l \<Rightarrow> if xl_releasedAt l = None
           then storeLease db (l\<lparr>xl_revision := xl_revision l + 1, xl_releasedAt := Some (qi_at inp)\<rparr>)
           else Inr db) = Inr db1"
    and rest: "db' = db1 \<or> quarantine_checkpoint (quarantine_run db1 scope (qi_runId inp) (qi_at inp)) scope
       (qi_runId inp) (qi_reasonCode inp) (qi_at inp) = Inr db'"
    unfolding quarantine_def createRunId_def createIdentifier_def
    by (auto simp: inverts split: option.splits if_splits)
  note at = readLease_Inr [OF lease]
  from rest have same: "lease_at db' k = lease_at db1 k" for k
    by (auto dest: lease_at_quarantine_checkpoint)
  show ?thesis
  proof (cases "\<exists>c. lease = Some c \<and> xl_releasedAt c = None")
    case True
    then obtain c where c: "lease = Some c" "xl_releasedAt c = None" by blast
    with st have "storeLease db (c\<lparr>xl_revision := xl_revision c + 1, xl_releasedAt := Some (qi_at inp)\<rparr>) = Inr db1"
      by simp
    from storeLease_set [OF this] lease_at_key [of db "scope_key scope (qi_runId inp)" c] c at same show ?thesis
      by (auto simp: lease_set_def)
  next
    case False
    with st have "db1 = db" by (auto split: option.splits if_splits)
    with same show ?thesis by simp
  qed
qed simp

section \<open>Leases are versioned\<close>

definition ident_at :: "work_db \<Rightarrow> OwnerId \<times> AgentId \<times> RunId \<Rightarrow> execution_lease_row option" where
  "ident_at db k = map_option lease_ident (lease_at db k)"

lemma dispatch_step_advances:
  assumes "dispatch_step db db'" and "ident_at db k = Some l"
  shows "\<exists>l'. ident_at db' k = Some l' \<and> (l' = l \<or> xl_revision l < xl_revision l')"
proof -
  from assms(2) obtain c where c: "lease_at db k = Some c" "l = lease_ident c" by (auto simp: ident_at_def)
  have upd: ?thesis
    if "lease_set db i x db'" and "i = k \<Longrightarrow> lease_ident x = l \<or> xl_revision l < xl_revision x" for i x
  proof -
    have "lease_at db' k = (if k = i then Some x else lease_at db k)" using that(1) unfolding lease_set_def by blast
    with that(2) c show ?thesis by (cases "i = k") (auto simp: ident_at_def)
  qed
  have same: ?thesis if "\<forall>j. lease_at db' j = lease_at db j"
    using spec [OF that, of k] assms(2) by (auto simp: ident_at_def)
  have ended: ?thesis if "lease_at db i = Some x" and "lease_set db i (ended_lease x t) db'" for i x t
    by (rule upd [OF that(2)]) (use that(1) c in auto)
  from assms(1) show ?thesis
  proof cases
    case (claim scope inp r)
    from claim show ?thesis
    proof (cases rule: claimRun_cases)
      case new
      from claim_current_None [OF new(1)] c show ?thesis
        by (intro upd [OF storeLease_set [OF new(2)]]) auto
    qed (use assms(2) in auto)
  next
    case (renew scope inp e r)
    from renewLease_Inr [OF renew] obtain x where
      x: "lease_at db (scope_key scope (hi_runId inp)) = Some x"
         "lease_set db (scope_key scope (hi_runId inp)) (x\<lparr>xl_expiresAt := e\<rparr>) db'" by blast
    with c show ?thesis by (intro upd [OF x(2)]) (auto simp: lease_ident_def)
  next
    case (release scope inp r)
    from releaseLease_Inr [OF release] show ?thesis using ended by blast
  next
    case (invalidate scope i t r)
    from invalidate_Inr [OF invalidate] show ?thesis using ended assms(2) by blast
  next
    case (quarantined scope inp)
    from quarantine_Inr [OF quarantined] show ?thesis using ended same by blast
  next
    case other
    then show ?thesis by (intro same) (simp add: lease_at_def)
  qed
qed

interpretation execution_leases: versioned_table ident_at xl_revision dispatch_step
  by unfold_locales (rule dispatch_step_advances)

lemma toLease_Inr:
  "toLease c = Inr l \<Longrightarrow> l = \<lparr>rl_ownerId = xl_ownerId c, rl_agentId = xl_agentId c, rl_runId = xl_runId c,
     rl_authorityLeaseId = xl_authorityLeaseId c, rl_deploymentId = xl_deploymentId c,
     rl_authorityEpoch = xl_authorityEpoch c, rl_fencingToken = xl_fencingToken c,
     rl_consumerId = xl_consumerId c, rl_executionLeaseId = xl_executionLeaseId c,
     rl_revision = xl_revision c, rl_claimedAt = xl_claimedAt c, rl_expiresAt = xl_expiresAt c,
     rl_releasedAt = xl_releasedAt c\<rparr>"
  unfolding toLease_def createOwnerId_def createAgentId_def createRunId_def createAuthorityLeaseId_def
    createDeploymentId_def createRunExecutionLeaseId_def createIdentifier_def
  by (auto simp: inverts split: if_splits)

lemma assertHeld_Inr:
  assumes "assertHeld db scope inp = Inr l"
  shows "\<exists>c. lease_at db (scope_key scope (hi_runId inp)) = Some c \<and> xl_executionLeaseId c = hi_executionLeaseId inp \<and>
    xl_revision c = hi_expectedLeaseRevision inp \<and> lease_live c (hi_at inp) \<and>
    assertLeaseScope scope c True = Inr () \<and> toLease c = Inr l"
proof -
  from assms obtain c where c: "readLease db scope (hi_runId inp) = Inr (Some c)"
    "xl_executionLeaseId c = hi_executionLeaseId inp" "xl_revision c = hi_expectedLeaseRevision inp"
    "lease_live c (hi_at inp)" "assertLeaseScope scope c True = Inr ()" "toLease c = Inr l"
    unfolding assertHeld_def assertHeldParsed_def by (auto simp: inverts split: option.splits)
  from readLease_Inr [OF c(1)] have "lease_at db (scope_key scope (hi_runId inp)) = Some c" by simp
  with c show ?thesis by blast
qed

text \<open>The row a successful claim leaves: it has the claim's identity, is open, and is what was returned.\<close>

lemma claimRun_row:
  assumes "claimRun db scope inp = Inr (db', r)"
  obtains c where "lease_at db' (scope_key scope (ci_runId inp)) = Some c"
    "xl_executionLeaseId c = ci_executionLeaseId inp" "xl_consumerId c = scp_consumerId scope"
    "xl_claimedAt c = ci_claimedAt inp" "xl_releasedAt c = None" "toLease c = Inr (rc_lease r)"
    "assertLeaseScope scope c True = Inr () \<or> c = claimed_lease scope inp"
proof -
  from assms show thesis
  proof (cases rule: claimRun_cases)
    case (replay c)
    from claim_current_Some [OF replay(3)] replay show thesis
      by (intro that [of c]) (auto simp: assertLeaseScope_Inr lease_live_def)
  next
    case new
    from storeLease_at [OF new(2), of "scope_key scope (ci_runId inp)"] new show thesis
      by (intro that [of "claimed_lease scope inp"]) auto
  qed
qed

section \<open>Exclusion and fencing\<close>

lemma held_is_claim:
  assumes "claimRun db0 scope inp = Inr (db1, r)" and "dispatch_step\<^sup>*\<^sup>* db1 db2"
    and "assertHeld db2 scope' hinp = Inr l"
    and "scope_key scope' (hi_runId hinp) = scope_key scope (ci_runId inp)"
    and "hi_expectedLeaseRevision hinp = rl_revision (rc_lease r)"
  shows "\<exists>c c'. lease_at db1 (scope_key scope (ci_runId inp)) = Some c \<and> toLease c = Inr (rc_lease r) \<and>
    xl_executionLeaseId c = ci_executionLeaseId inp \<and> xl_consumerId c = scp_consumerId scope \<and>
    lease_at db2 (scope_key scope (ci_runId inp)) = Some c' \<and> lease_ident c' = lease_ident c \<and>
    xl_executionLeaseId c' = hi_executionLeaseId hinp \<and> xl_consumerId c' = scp_consumerId scope' \<and>
    lease_live c' (hi_at hinp) \<and> toLease c' = Inr l"
proof -
  obtain c where c: "lease_at db1 (scope_key scope (ci_runId inp)) = Some c" "toLease c = Inr (rc_lease r)"
    "xl_executionLeaseId c = ci_executionLeaseId inp" "xl_consumerId c = scp_consumerId scope"
    using claimRun_row [OF assms(1)] by metis
  from assertHeld_Inr [OF assms(3)] assms(4) obtain c' where
    c': "lease_at db2 (scope_key scope (ci_runId inp)) = Some c'" "xl_executionLeaseId c' = hi_executionLeaseId hinp"
      "xl_revision c' = hi_expectedLeaseRevision hinp" "lease_live c' (hi_at hinp)"
      "assertLeaseScope scope' c' True = Inr ()" "toLease c' = Inr l" by auto
  have "lease_ident c' = lease_ident c"
    by (rule execution_leases.same_revision_same_row [OF assms(2), where k = "scope_key scope (ci_runId inp)"])
      (use c c' assms(5) toLease_Inr [OF c(2)] in \<open>simp_all add: ident_at_def\<close>)
  with c c' show ?thesis by (auto simp: assertLeaseScope_Inr)
qed

text \<open>A claim that meets a live lease can only be a repetition of the claim that created it.\<close>

lemma claim_meets_live_lease:
  assumes "claimRun db scope inp = Inr (db', r)" and "lease_at db (scope_key scope (ci_runId inp)) = Some c"
    and "lease_live c (ci_claimedAt inp)"
  shows "rc_replayed r \<and> db' = db \<and> ci_executionLeaseId inp = xl_executionLeaseId c \<and>
    ci_claimedAt inp = xl_claimedAt c \<and> scp_consumerId scope = xl_consumerId c"
  using assms(1)
proof (cases rule: claimRun_cases)
  case (replay x)
  with assms(2) claim_current_Some [OF replay(3)] show ?thesis by (auto simp: assertLeaseScope_Inr)
next
  case new
  with assms claim_current_None [OF new(1)] show ?thesis by simp
qed

text \<open>
  C11. Execution leases exclude each other and fence: take a claim of a Run and any later history of the
  store, with any consumers and scopes. If the guard then accepts the revision that the claim returned,
  the lease is the one of that claim, held by the same consumer, and only its expiry can have moved. While
  it has not expired no claim of the Run succeeds, except a repetition of the very claim, which changes
  nothing. And once any other claim of the Run has succeeded, the guard never accepts the old revision
  again.
\<close>

theorem execution_lease_exclusive:
  assumes claim: "claimRun db0 scope inp = Inr (db1, r)" and hist: "dispatch_step\<^sup>*\<^sup>* db1 db2"
    and held: "assertHeld db2 scope' hinp = Inr l"
    and same: "scope_key scope' (hi_runId hinp) = scope_key scope (ci_runId inp)"
    and rev: "hi_expectedLeaseRevision hinp = rl_revision (rc_lease r)"
  shows "hi_executionLeaseId hinp = ci_executionLeaseId inp \<and> scp_consumerId scope' = scp_consumerId scope \<and>
    l\<lparr>rl_expiresAt := rl_expiresAt (rc_lease r)\<rparr> = rc_lease r \<and>
    (\<forall>scope2 inp2 db3 r2. claimRun db2 scope2 inp2 = Inr (db3, r2) \<longrightarrow>
       scope_key scope2 (ci_runId inp2) = scope_key scope (ci_runId inp) \<longrightarrow>
       (isAfter (rl_expiresAt l) (ci_claimedAt inp2) \<longrightarrow>
          rc_replayed r2 \<and> db3 = db2 \<and> ci_executionLeaseId inp2 = ci_executionLeaseId inp \<and>
          scp_consumerId scope2 = scp_consumerId scope) \<and>
       (\<not> rc_replayed r2 \<longrightarrow> (\<forall>db4 scope4 hinp4. dispatch_step\<^sup>*\<^sup>* db3 db4 \<longrightarrow>
          scope_key scope4 (hi_runId hinp4) = scope_key scope (ci_runId inp) \<longrightarrow>
          hi_expectedLeaseRevision hinp4 = rl_revision (rc_lease r) \<longrightarrow> isl (assertHeld db4 scope4 hinp4))))"
proof -
  let ?k = "scope_key scope (ci_runId inp)"
  obtain c c' where c: "lease_at db1 ?k = Some c" "toLease c = Inr (rc_lease r)"
      "xl_executionLeaseId c = ci_executionLeaseId inp" "xl_consumerId c = scp_consumerId scope"
    and c': "lease_at db2 ?k = Some c'" "lease_ident c' = lease_ident c"
      "xl_executionLeaseId c' = hi_executionLeaseId hinp" "xl_consumerId c' = scp_consumerId scope'"
      "lease_live c' (hi_at hinp)" "toLease c' = Inr l"
    using held_is_claim [OF claim hist held same rev] by metis
  note l = toLease_Inr [OF c(2)] toLease_Inr [OF c'(6)]
  have eq: "xl_executionLeaseId c' = xl_executionLeaseId c" "xl_consumerId c' = xl_consumerId c"
    "xl_revision c' = xl_revision c" "l\<lparr>rl_expiresAt := rl_expiresAt (rc_lease r)\<rparr> = rc_lease r"
    using c'(2) by (simp_all add: l lease_ident_def execution_lease_row.splits)
      (cases c; cases c'; simp add: lease_ident_def)+
  have live: "lease_live c' t" if "isAfter (rl_expiresAt l) t" for t
    using that c'(5) by (simp add: l lease_live_def)
  have fence: "isl (assertHeld db4 scope4 hinp4)"
    if new: "claimRun db2 scope2 inp2 = Inr (db3, r2)" "scope_key scope2 (ci_runId inp2) = ?k" "\<not> rc_replayed r2"
      and later: "dispatch_step\<^sup>*\<^sup>* db3 db4" "scope_key scope4 (hi_runId hinp4) = ?k"
        "hi_expectedLeaseRevision hinp4 = rl_revision (rc_lease r)" for scope2 inp2 db3 r2 db4 scope4 hinp4
  proof (rule ccontr)
    assume "\<not> isl (assertHeld db4 scope4 hinp4)"
    then obtain l4 where "assertHeld db4 scope4 hinp4 = Inr l4" by (cases "assertHeld db4 scope4 hinp4") auto
    from assertHeld_Inr [OF this] later(2,3) obtain c4 where
      c4: "lease_at db4 ?k = Some c4" "xl_revision c4 = rl_revision (rc_lease r)" by auto
    from new(1) have "lease_at db3 ?k = Some (claimed_lease scope2 inp2) \<and>
        xl_revision c' < xl_revision (claimed_lease scope2 inp2)"
    proof (cases rule: claimRun_cases)
      case new': new
      with claim_current_None [OF new'(1)] storeLease_at [OF new'(2)] new(2) c'(1) show ?thesis by simp
    qed (use new(3) in simp)
    then show False
      using execution_leases.stale_revision_gone [OF later(1), of ?k "lease_ident (claimed_lease scope2 inp2)"
          "xl_revision c'" "lease_ident c4"] c4 eq(3) by (auto simp: ident_at_def l(1))
  qed
  show ?thesis
    using c c' eq claim_meets_live_lease live fence by (metis (no_types, lifting))
qed

section \<open>Offered Runs can be claimed\<close>

text \<open>What the tables and their writers guarantee of the rows a dispatcher reads.\<close>

definition dispatch_wf :: "work_db \<Rightarrow> bool" where
  "dispatch_wf db \<longleftrightarrow>
     distinct (map rs_id (wdb_runs db)) \<and>
     list_all (\<lambda>l. parseLease l = Inr l \<and> plain_instant (xl_expiresAt l)) (wdb_executionLeases db) \<and>
     list_all (\<lambda>t. is_safe_integer (tn_turnIndex t) \<and> 0 \<le> tn_turnIndex t \<and>
       list_all (\<lambda>r. rs_id r = tn_runId t \<longrightarrow> rs_threadId r = tn_threadId t) (wdb_runs db)) (wdb_turns db)"

lemma create_ids:
  "MACHINE_IDENTIFIER_PATTERN s \<Longrightarrow> createOwnerId s = Inr s"
  "MACHINE_IDENTIFIER_PATTERN s \<Longrightarrow> createAgentId s = Inr s"
  "MACHINE_IDENTIFIER_PATTERN s \<Longrightarrow> createRunId s = Inr s"
  "MACHINE_IDENTIFIER_PATTERN s \<Longrightarrow> createAuthorityLeaseId s = Inr s"
  "MACHINE_IDENTIFIER_PATTERN s \<Longrightarrow> createDeploymentId s = Inr s"
  "MACHINE_IDENTIFIER_PATTERN s \<Longrightarrow> createRunExecutionLeaseId s = Inr s"
  by (simp_all add: createOwnerId_def createAgentId_def createRunId_def createAuthorityLeaseId_def
      createDeploymentId_def createRunExecutionLeaseId_def createIdentifier_def)

lemma create_ids_Inr:
  "createOwnerId s = Inr x \<longleftrightarrow> MACHINE_IDENTIFIER_PATTERN s \<and> x = s"
  "createAgentId s = Inr x \<longleftrightarrow> MACHINE_IDENTIFIER_PATTERN s \<and> x = s"
  "createRunId s = Inr x \<longleftrightarrow> MACHINE_IDENTIFIER_PATTERN s \<and> x = s"
  "createAuthorityLeaseId s = Inr x \<longleftrightarrow> MACHINE_IDENTIFIER_PATTERN s \<and> x = s"
  "createDeploymentId s = Inr x \<longleftrightarrow> MACHINE_IDENTIFIER_PATTERN s \<and> x = s"
  "createRunExecutionLeaseId s = Inr x \<longleftrightarrow> MACHINE_IDENTIFIER_PATTERN s \<and> x = s"
  by (auto simp: createOwnerId_def createAgentId_def createRunId_def createAuthorityLeaseId_def
      createDeploymentId_def createRunExecutionLeaseId_def createIdentifier_def)

lemma pattern_not_Nil: "MACHINE_IDENTIFIER_PATTERN s \<Longrightarrow> s \<noteq> []"
  by (auto simp: MACHINE_IDENTIFIER_PATTERN_def)

lemma pattern_not_blank: "MACHINE_IDENTIFIER_PATTERN s \<Longrightarrow> list_ex (\<lambda>c. c \<noteq> CHR '' '') s"
  by (cases s) (auto simp: MACHINE_IDENTIFIER_PATTERN_def is_alnum_def)

lemma safeInteger_Inr [simp]: "safeInteger v m = Inr u \<longleftrightarrow> is_safe_integer v \<and> m \<le> v"
  by (simp add: safeInteger_def)

lemma machineText_Inr [simp]: "machineText s = Inr u \<longleftrightarrow> MACHINE_IDENTIFIER_PATTERN s"
  by (simp add: machineText_def)

lemma candidates_set:
  "candidates db b rs = Inr cs \<Longrightarrow> c \<in> set cs \<Longrightarrow> \<exists>r\<in>set rs. candidate db b r = Inr c"
  by (induction rs arbitrary: cs) (auto simp: inverts)

lemma candidate_Inr:
  assumes "candidate db b r = Inr c"
  shows "MACHINE_IDENTIFIER_PATTERN (rs_ownerId r) \<and> MACHINE_IDENTIFIER_PATTERN (rs_agentId r) \<and>
    MACHINE_IDENTIFIER_PATTERN (rs_id r) \<and> rs_sessionId r \<noteq> [] \<and> rs_triggerId r \<noteq> [] \<and> rs_threadId r \<noteq> Some [] \<and>
    is_safe_integer (rs_revision r) \<and> 0 \<le> rs_revision r \<and>
    is_safe_integer (dr_leaseRevision (dispatch_record db r)) \<and> 0 \<le> dr_leaseRevision (dispatch_record db r) \<and>
    dc_runId c = rs_id r \<and> dc_runRevision c = rs_revision r \<and>
    dc_leaseRevision c = dr_leaseRevision (dispatch_record db r)"
  using assms unfolding candidate_def Let_def by (auto simp: inverts create_ids_Inr)

lemma listClaimable_Inr:
  assumes "listClaimable db scope now limit = Inr cs" and "c \<in> set cs"
  shows "\<exists>r\<in>set (wdb_runs db). claimable_row db scope now r \<and> candidate db False r = Inr c \<and>
    dispatch_authority db scope now = Inr () \<and> dispatch_instant now = Inr ()"
proof -
  from assms(1) have l: "listRuns db scope (claimable_row db scope now) False limit = Inr cs"
    "dispatch_authority db scope now = Inr ()" "dispatch_instant now = Inr ()"
    unfolding listClaimable_def by (auto simp: inverts)
  from candidates_set [OF l(1) [unfolded listRuns_def] assms(2)] obtain r where
    "r \<in> set (take (nat limit) (sort_key (\<lambda>r. (rs_createdAt r, rs_id r)) (filter (claimable_row db scope now) (wdb_runs db))))"
    "candidate db False r = Inr c" by blast
  with l set_take_subset show ?thesis by fastforce
qed

lemma current_turn_Some:
  assumes "current_turn db r = Some (th, n)"
  shows "\<exists>t\<in>set (wdb_turns db). tn_runId t = rs_id r \<and> tn_threadId t = th \<and> (\<exists>u\<in>set (wdb_turns db). tn_turnIndex u = n)"
proof -
  have m: "\<exists>u\<in>insert t (set xs). tn_turnIndex u = foldr (\<lambda>u m. min (tn_turnIndex u) m) xs (tn_turnIndex t)"
    for t :: turn_row and xs
    by (induction xs) (auto simp: min_def)
  let ?mine = "filter (\<lambda>t. tn_runId t = rs_id r \<and> tn_ownerId t = rs_ownerId r \<and> tn_agentId t = rs_agentId r) (wdb_turns db)"
  from assms obtain t ts where ts: "?mine = t # ts" unfolding current_turn_def Let_def by (auto split: list.splits)
  with assms have n: "th = tn_threadId t"
    "n = foldr (\<lambda>u m. min (tn_turnIndex u) m) (filter (\<lambda>u. tn_threadId u = tn_threadId t) ?mine) (tn_turnIndex t)"
    unfolding current_turn_def Let_def by auto
  have sub: "set ?mine \<subseteq> set (wdb_turns db)" by auto
  have "t \<in> set ?mine" unfolding ts by simp
  note sub = sub this
  from m [of t "filter (\<lambda>u. tn_threadId u = tn_threadId t) ?mine"] n(2) obtain u where
    "u \<in> insert t (set ?mine)" "tn_turnIndex u = n" by auto
  with sub n(1) show ?thesis by auto
qed

lemma claimable_dispatchable:
  assumes wf: "dispatch_wf db" and r: "r \<in> set (wdb_runs db)" and ok: "claimable_row db scope now r"
  shows "assertDispatchable db scope (dispatch_record db r) now = Inr ()"
proof -
  have phase: "phase_claimable db r now" and st: "rs_status r \<in> set RUN_DISPATCHABLE_STATUSES"
    and own: "rs_ownerId r = scp_ownerId scope" "rs_agentId r = scp_agentId scope"
    using ok by (auto simp: claimable_row_def)
  have chk: "c \<in> set (wdb_checkpoints db) \<and> ck_runId c = rs_id r \<and> ck_ownerId c = rs_ownerId r \<and> ck_agentId c = rs_agentId r"
    if "checkpoint_of db r = Some c" for c
    using that find_SomeD unfolding checkpoint_of_def by fastforce
  have "\<not> earlier_run_executing db scope (dispatch_record db r)"
  proof
    assume e: "earlier_run_executing db scope (dispatch_record db r)"
    then obtain thread th n where t: "rs_threadId r = Some thread" and cur: "current_turn db r = Some (th, n)"
      unfolding earlier_run_executing_def dispatch_record_def
      by (cases "rs_threadId r"; cases "current_turn db r") auto
    with e have ex: "list_ex (\<lambda>t. tn_threadId t = Some thread \<and> tn_turnIndex t < n \<and> executing_turn db t) (wdb_turns db)"
      unfolding earlier_run_executing_def dispatch_record_def by (auto simp: list_ex_iff)
    from current_turn_Some [OF cur] wf r t have "th = Some thread"
      by (auto simp: dispatch_wf_def list_all_iff)
    with cur ex ok show False by (auto simp: claimable_row_def blocked_by_earlier_turn_def)
  qed
  with phase st own chk show ?thesis
    unfolding assertDispatchable_def
    by (auto simp: inverts dispatch_record_def phase_claimable_def RESUMABLE_CHECKPOINT_PHASES_def
        RECONCILIATION_CHECKPOINT_PHASES_def list_ex_iff split: option.splits)
qed

lemma createDispatchScope_Inr:
  "createDispatchScope s = Inr s' \<Longrightarrow> s' = s \<and> MACHINE_IDENTIFIER_PATTERN (scp_ownerId s) \<and>
     MACHINE_IDENTIFIER_PATTERN (scp_agentId s) \<and> MACHINE_IDENTIFIER_PATTERN (fence_deploymentId (scp_authority s)) \<and>
     is_safe_integer (fence_authorityEpoch (scp_authority s)) \<and> 1 \<le> fence_authorityEpoch (scp_authority s) \<and>
     is_safe_integer (fence_fencingToken (scp_authority s)) \<and> 1 \<le> fence_fencingToken (scp_authority s) \<and>
     MACHINE_IDENTIFIER_PATTERN (scp_leaseId s) \<and> is_safe_integer (scp_leaseFencingToken s) \<and>
     1 \<le> scp_leaseFencingToken s \<and> MACHINE_IDENTIFIER_PATTERN (scp_consumerId s)"
  unfolding createDispatchScope_def by (auto simp: inverts create_ids_Inr)

lemma dispatch_authority_Inr:
  "dispatch_authority db scope now = Inr u \<Longrightarrow> \<exists>l d. authority_join db scope = Some (l, d) \<and>
     dep_status d = dep_active \<and> al_releasedAt l = None \<and> isAfter (al_expiresAt l) now \<and> authority_matches (l, d) scope"
  unfolding dispatch_authority_def by (auto simp: inverts split: option.splits)

lemma dispatch_authority_frame:
  "wdb_authorityLeases db' = wdb_authorityLeases db \<Longrightarrow> wdb_deployments db' = wdb_deployments db \<Longrightarrow>
     dispatch_authority db' scope now = dispatch_authority db scope now"
  by (simp add: dispatch_authority_def authority_join_frame [of db' db])

lemma find_unique: "distinct (map f xs) \<Longrightarrow> x \<in> set xs \<Longrightarrow> P x \<Longrightarrow> (\<And>y. P y \<Longrightarrow> f y = f x) \<Longrightarrow> List.find P xs = Some x"
proof (induction xs)
  case (Cons a xs)
  show ?case
  proof (cases "P a")
    case True
    then have "f a = f x" by (rule Cons.prems(4))
    with Cons.prems True have "a = x" by (metis distinct.simps(2) image_eqI list.set_map list.simps(9) set_ConsD)
    with True show ?thesis by simp
  next
    case False
    from Cons.prems(2,3) False have "x \<in> set xs" by (metis set_ConsD)
    with Cons.prems(1) have "List.find P xs = Some x" by (intro Cons.IH [OF _ _ Cons.prems(3,4)]) simp_all
    with False show ?thesis by simp
  qed
qed simp

lemma readRun_row:
  assumes "dispatch_wf db" and "r \<in> set (wdb_runs db)" and "candidate db b r = Inr c"
    and "rs_ownerId r = scp_ownerId scope" "rs_agentId r = scp_agentId scope"
  shows "readRun db scope (rs_id r) = Inr (Some (dispatch_record db r))"
proof -
  have f: "run_row_in_scope db scope (rs_id r) = Some r"
    unfolding run_row_in_scope_def by (rule find_unique [where f = rs_id]) (use assms in \<open>auto simp: dispatch_wf_def\<close>)
  have t: "case dr_turnIndex (dispatch_record db r) of None \<Rightarrow> True | Some n \<Rightarrow> is_safe_integer n \<and> 0 \<le> n"
  proof (cases "current_turn db r")
    case (Some p)
    then obtain th n where "current_turn db r = Some (th, n)" by (cases p) auto
    from current_turn_Some [OF this] this assms(1) show ?thesis
      by (auto simp: dispatch_wf_def list_all_iff dispatch_record_def)
  qed (simp add: dispatch_record_def)
  from candidate_Inr [OF assms(3)] t show ?thesis
    unfolding readRun_def f option.case Let_def
    by (auto simp: safeInteger_def pattern_not_Nil split: option.splits)
qed

lemma readLease_wf:
  assumes "dispatch_wf db"
  shows "readLease db scope i = Inr (lease_at db (scope_key scope i))"
proof (cases "lease_at db (scope_key scope i)")
  case (Some l)
  then have "l \<in> set (wdb_executionLeases db)" by (auto simp: lease_at_def dest: row_of_SomeD)
  with assms Some show ?thesis
    by (auto simp: readLease_def lease_row_def lease_at_def scope_key_def dispatch_wf_def list_all_iff)
qed (simp add: readLease_def lease_row_def lease_at_def scope_key_def)

lemma readLeaseByExecutionId_fresh:
  "list_all (\<lambda>l. xl_executionLeaseId l \<noteq> x) (wdb_executionLeases db) \<Longrightarrow> readLeaseByExecutionId db x = Inr None"
  unfolding readLeaseByExecutionId_def by (auto simp: list_all_iff dest!: find_SomeD split: option.splits)

lemma claimed_lease_ok:
  assumes s: "createDispatchScope scope = Inr scope" and i: "MACHINE_IDENTIFIER_PATTERN (ci_runId inp)"
    and x: "MACHINE_IDENTIFIER_PATTERN (ci_executionLeaseId inp)"
    and n: "0 \<le> ci_expectedLeaseRevision inp" "ci_expectedLeaseRevision inp < MAX_SAFE_INTEGER"
    and t: "ci_claimedAt inp < ci_expiresAt inp" "ci_claimedAt inp \<noteq> []"
  shows "lease_checks (claimed_lease scope inp)" and "parseLease (claimed_lease scope inp) = Inr (claimed_lease scope inp)"
    and "\<exists>l. toLease (claimed_lease scope inp) = Inr l"
proof -
  note f = createDispatchScope_Inr [OF s]
  have "ci_expiresAt inp \<noteq> []" using t by auto
  with f i x n t show "lease_checks (claimed_lease scope inp)"
    "parseLease (claimed_lease scope inp) = Inr (claimed_lease scope inp)"
    by (auto simp: lease_checks_def claimed_lease_def parseLease_def is_safe_integer_def pattern_not_blank
        safeInteger_def pattern_not_Nil MAX_SAFE_INTEGER_def)
  from f i x show "\<exists>l. toLease (claimed_lease scope inp) = Inr l"
    by (simp add: toLease_def claimed_lease_def create_ids)
qed

lemma offered_lease_ended:
  assumes "dispatch_wf db" and "claimable_row db scope now r" and "plain_instant now"
    and "ci_claimedAt inp = now" and "ci_expectedLeaseRevision inp = dr_leaseRevision (dispatch_record db r)"
    and "list_all (\<lambda>l. xl_executionLeaseId l \<noteq> ci_executionLeaseId inp) (wdb_executionLeases db)"
  shows "claim_current scope' inp (lease_of db r) = Inr None"
proof (cases "lease_of db r")
  case None
  with assms show ?thesis by (simp add: claim_current_def dispatch_record_def)
next
  case (Some l)
  then have l: "l \<in> set (wdb_executionLeases db)" by (auto simp: lease_of_def dest: row_of_SomeD)
  with assms(1) have "plain_instant (xl_expiresAt l)" by (auto simp: dispatch_wf_def list_all_iff)
  with assms Some have dead: "\<not> lease_live l now"
    by (auto simp: claimable_row_def lease_over_def lease_live_def isAfter_plain)
  with Some l assms show ?thesis by (auto simp: claim_current_def dispatch_record_def list_all_iff)
qed

lemma readRun_after_store:
  assumes "readRun db scope i = Inr (Some d)" and "lease_key x = scope_key scope i"
    and "is_safe_integer (xl_revision x)" and "0 \<le> xl_revision x"
  shows "\<exists>d. readRun (db\<lparr>wdb_executionLeases := put_row lease_key x (wdb_executionLeases db)\<rparr>) scope i = Inr (Some d)"
proof -
  let ?db = "db\<lparr>wdb_executionLeases := put_row lease_key x (wdb_executionLeases db)\<rparr>"
  from assms(1) obtain r where r: "run_row_in_scope db scope i = Some r"
    by (auto simp: readRun_def split: option.splits)
  then have own: "rs_id r = i" "rs_ownerId r = scp_ownerId scope" "rs_agentId r = scp_agentId scope"
    unfolding run_row_in_scope_def by (auto dest: find_SomeD)
  have "run_row_in_scope ?db scope i = Some r" using r by (simp add: run_row_in_scope_def)
  moreover have "dr_leaseRevision (dispatch_record ?db r) = xl_revision x"
    using assms(2) own by (simp add: dispatch_record_def lease_of_def row_of_put_row scope_key_def)
  moreover have "dr_turnIndex (dispatch_record ?db r) = dr_turnIndex (dispatch_record db r)"
    by (simp add: dispatch_record_def current_turn_def)
  ultimately show ?thesis using assms(1,3,4) r
    by (auto simp: readRun_def inverts Let_def safeInteger_def split: option.splits)
qed

text \<open>
  C12. Every Run the dispatcher offers can be claimed, so a consumer that crashed does not block its Run
  once the lease has run out: take any candidate that \<open>listClaimable\<close> returns, a fresh execution lease
  identity and an expiry after now. The claim under the candidate's revisions succeeds, it is not a
  repetition, its lease revision is the next one, and the guard accepts the new lease in the resulting
  store.
\<close>

theorem claimable_can_be_claimed:
  assumes wf: "dispatch_wf db" and scope: "createDispatchScope scope = Inr scope"
    and offered: "listClaimable db scope now limit = Inr cs" "c \<in> set cs"
    and times: "plain_instant now" "plain_instant e" "now < e"
    and fresh: "MACHINE_IDENTIFIER_PATTERN x" "list_all (\<lambda>l. xl_executionLeaseId l \<noteq> x) (wdb_executionLeases db)"
    and room: "dc_leaseRevision c < MAX_SAFE_INTEGER"
  shows "\<exists>db' l. claimRun db scope \<lparr>ci_runId = dc_runId c, ci_expectedRunRevision = dc_runRevision c,
      ci_expectedLeaseRevision = dc_leaseRevision c, ci_executionLeaseId = x, ci_claimedAt = now,
      ci_expiresAt = e\<rparr> = Inr (db', \<lparr>rc_lease = l, rc_replayed = False\<rparr>) \<and>
    rl_revision l = dc_leaseRevision c + 1 \<and> rl_consumerId l = scp_consumerId scope \<and>
    assertHeld db' scope \<lparr>hi_runId = dc_runId c, hi_expectedLeaseRevision = rl_revision l,
      hi_executionLeaseId = x, hi_at = now\<rparr> = Inr l"
proof -
  obtain r where r: "r \<in> set (wdb_runs db)" "claimable_row db scope now r" "candidate db False r = Inr c"
    and auth: "dispatch_authority db scope now = Inr ()" "dispatch_instant now = Inr ()"
    using listClaimable_Inr [OF offered] by blast
  note cand = candidate_Inr [OF r(3)]
  have own: "rs_ownerId r = scp_ownerId scope" "rs_agentId r = scp_agentId scope" using r(2) by (auto simp: claimable_row_def)
  define inp where "inp = \<lparr>ci_runId = dc_runId c, ci_expectedRunRevision = dc_runRevision c,
      ci_expectedLeaseRevision = dc_leaseRevision c, ci_executionLeaseId = x, ci_claimedAt = now, ci_expiresAt = e\<rparr>"
  let ?k = "scope_key scope (rs_id r)"
  have inp [simp]: "ci_runId inp = rs_id r" "ci_expectedRunRevision inp = rs_revision r"
    "ci_expectedLeaseRevision inp = dr_leaseRevision (dispatch_record db r)" "ci_executionLeaseId inp = x"
    "ci_claimedAt inp = now" "ci_expiresAt inp = e" using cand by (simp_all add: inp_def)
  have lof: "lease_of db r = lease_at db ?k" by (simp add: lease_of_def lease_at_def scope_key_def own)
  have time: "isAfter e now" "dispatch_instant e = Inr ()" "now \<noteq> []"
    using times auth(2) isAfter_plain [of e now] by (auto simp: dispatch_instant_def elim!: plain_instantE)
  have cur: "claim_current scope inp (lease_at db ?k) = Inr None"
    using offered_lease_ended [OF wf r(2) times(1), of inp] fresh(2) lof by simp
  have budget: "assertRunBudgetDispatchable db scope (rs_id r) = Inr ()"
    using r(2) by (simp add: assertRunBudgetDispatchable_def claimable_row_def budget_unreconciled_def own)
  note ok = claimed_lease_ok [of scope inp, OF scope]
  have checks: "lease_checks (claimed_lease scope inp)" "parseLease (claimed_lease scope inp) = Inr (claimed_lease scope inp)"
    "\<exists>l. toLease (claimed_lease scope inp) = Inr l"
    using ok cand fresh(1) times time(3) room by (auto simp: is_safe_integer_def)
  then obtain l where l: "toLease (claimed_lease scope inp) = Inr l" by blast
  define db' where "db' = db\<lparr>wdb_executionLeases := put_row lease_key (claimed_lease scope inp) (wdb_executionLeases db)\<rparr>"
  have st: "storeLease db (claimed_lease scope inp) = Inr db'" using checks by (simp add: storeLease_def db'_def)
  have at: "lease_at db' ?k = Some (claimed_lease scope inp)" using storeLease_at [OF st, of ?k] by simp
  then have rd: "readLease db' scope (rs_id r) = Inr (Some (claimed_lease scope inp))"
    using checks(2) by (simp add: readLease_def lease_row_def lease_at_def scope_key_def)
  have claim: "claimRun db scope inp = Inr (db', \<lparr>rc_lease = l, rc_replayed = False\<rparr>)"
    unfolding claimRun_def
    using cand auth time readRun_row [OF wf r(1,3) own] readLease_wf [OF wf, of scope "rs_id r"] cur budget
      readLeaseByExecutionId_fresh [OF fresh(2)] claimable_dispatchable [OF wf r(1,2)] st rd l fresh(1)
    by (simp add: machineText_def safeInteger_def assertTimeOrder_def stored_lease_def dispatch_record_def)
  have "is_safe_integer (xl_revision (claimed_lease scope inp))" using cand room by (simp add: is_safe_integer_def)
  with readRun_row [OF wf r(1,3) own] cand have run': "\<exists>d. readRun db' scope (rs_id r) = Inr (Some d)"
    unfolding db'_def by (intro readRun_after_store) (simp_all add: scope_key_def)
  have lf: "rl_revision l = dr_leaseRevision (dispatch_record db r) + 1" "rl_consumerId l = scp_consumerId scope"
    using toLease_Inr [OF l] by simp_all
  have "assertLeaseScope scope (claimed_lease scope inp) True = Inr ()"
    using dispatch_authority_Inr [OF auth(1)]
    by (auto simp: assertLeaseScope_Inr claimed_lease_def authority_matches_iff)
  moreover have "dispatch_authority db' scope now = Inr ()"
    using auth(1) dispatch_authority_frame [of db' db scope now] by (simp add: db'_def)
  ultimately have "assertHeld db' scope \<lparr>hi_runId = rs_id r, hi_expectedLeaseRevision = rl_revision l,
      hi_executionLeaseId = x, hi_at = now\<rparr> = Inr l"
    using cand auth time rd l lf fresh(1) run' room
    by (cases "readRun db' scope (rs_id r)")
      (auto simp: assertHeld_def assertHeldParsed_def machineText_def safeInteger_def lease_live_def
        is_safe_integer_def split: option.splits)
  with claim lf cand show ?thesis by (auto simp: inp_def)
qed

section \<open>Concrete instances\<close>

definition example_dispatch_scope :: "string \<Rightarrow> dispatch_scope" where
  "example_dispatch_scope consumer =
     \<lparr>scp_ownerId = ''o'', scp_agentId = ''a'',
      scp_authority = \<lparr>fence_deploymentId = ''d'', fence_authorityEpoch = 3, fence_fencingToken = 1\<rparr>,
      scp_leaseId = ''al'', scp_leaseFencingToken = 1, scp_consumerId = consumer\<rparr>"

definition example_work_db :: work_db where
  "example_work_db =
     \<lparr>wdb_headroom = True, wdb_deployments = [(example_deployment ''d'')\<lparr>dep_status := dep_active\<rparr>],
      wdb_authorityLeases = [\<lparr>al_id = ''al'', al_ownerId = ''o'', al_agentId = ''a'', al_deploymentId = ''d'', al_holderId = ''h'',
        al_authorityEpoch = 3, al_fencingToken = 1, al_acquiredAt = ''2026-01-01T00:00:00.000Z'',
        al_expiresAt = ''2026-01-02T00:00:00.000Z'', al_releasedAt = None\<rparr>],
      wdb_runs = [\<lparr>rs_id = ''r'', rs_ownerId = ''o'', rs_agentId = ''a'', rs_threadId = Some ''t'', rs_sessionId = ''s'',
        rs_triggerId = ''g'', rs_revision = 1, rs_status = run_accepted,
        rs_createdAt = ''2026-01-01T00:00:00.000Z'', rs_updatedAt = ''2026-01-01T00:00:00.000Z''\<rparr>],
      wdb_turns = [\<lparr>tn_id = ''n'', tn_ownerId = ''o'', tn_agentId = ''a'', tn_threadId = Some ''t'', tn_sessionId = ''s'',
        tn_runId = ''r'', tn_turnIndex = 0, tn_committedAt = None\<rparr>],
      wdb_checkpoints = [], wdb_approvals = [],
      wdb_executionLeases = [\<lparr>xl_ownerId = ''o'', xl_agentId = ''a'', xl_runId = ''r'', xl_revision = 1,
        xl_authorityLeaseId = ''al'', xl_deploymentId = ''d'', xl_authorityEpoch = 3, xl_fencingToken = 1,
        xl_consumerId = ''crashed'', xl_executionLeaseId = ''x0'', xl_claimedAt = ''2026-01-01T00:00:00.000Z'',
        xl_initialExpiresAt = ''2026-01-01T00:01:00.000Z'', xl_expiresAt = ''2026-01-01T00:01:00.000Z'',
        xl_releasedAt = None\<rparr>],
      wdb_runInputs = [\<lparr>ri_runId = ''r'', ri_ownerId = ''o'', ri_agentId = ''a'', ri_classification = class_private\<rparr>],
      wdb_projections = [], wdb_jobs = [], wdb_occurrences = [], wdb_accounts = [], wdb_allocations = []\<rparr>"

definition example_claim :: "string \<Rightarrow> int \<Rightarrow> string \<Rightarrow> string \<Rightarrow> claim_input" where
  "example_claim x n at e = \<lparr>ci_runId = ''r'', ci_expectedRunRevision = 1, ci_expectedLeaseRevision = n,
     ci_executionLeaseId = x, ci_claimedAt = at, ci_expiresAt = e\<rparr>"

definition example_held :: "string \<Rightarrow> int \<Rightarrow> string \<Rightarrow> held_input" where
  "example_held x n at = \<lparr>hi_runId = ''r'', hi_expectedLeaseRevision = n, hi_executionLeaseId = x, hi_at = at\<rparr>"

theorem execution_lease_exclusive_witness:
  "\<exists>db1 r. claimRun example_work_db (example_dispatch_scope ''w1'')
       (example_claim ''x1'' 1 ''2026-01-01T00:05:00.000Z'' ''2026-01-01T00:06:00.000Z'') = Inr (db1, r) \<and>
     isl (claimRun db1 (example_dispatch_scope ''w2'')
       (example_claim ''x2'' 2 ''2026-01-01T00:05:30.000Z'' ''2026-01-01T00:07:00.000Z''))"
proof -
  let ?inp = "example_claim ''x1'' 1 ''2026-01-01T00:05:00.000Z'' ''2026-01-01T00:06:00.000Z''"
  let ?inp2 = "example_claim ''x2'' 2 ''2026-01-01T00:05:30.000Z'' ''2026-01-01T00:07:00.000Z''"
  have "case claimRun example_work_db (example_dispatch_scope ''w1'') ?inp of Inl e \<Rightarrow> False
    | Inr (db1, r) \<Rightarrow> rl_revision (rc_lease r) = 2 \<and> (case assertHeld db1 (example_dispatch_scope ''w1'')
        (example_held ''x1'' 2 ''2026-01-01T00:05:10.000Z'') of Inl e \<Rightarrow> False
      | Inr l \<Rightarrow> rl_expiresAt l = ''2026-01-01T00:06:00.000Z'')"
    by code_simp
  then obtain db1 r l where e: "claimRun example_work_db (example_dispatch_scope ''w1'') ?inp = Inr (db1, r)"
      "assertHeld db1 (example_dispatch_scope ''w1'') (example_held ''x1'' 2 ''2026-01-01T00:05:10.000Z'') = Inr l"
      "rl_revision (rc_lease r) = 2" "rl_expiresAt l = ''2026-01-01T00:06:00.000Z''"
    by (auto split: sum.splits prod.splits)
  have after: "isAfter ''2026-01-01T00:06:00.000Z'' ''2026-01-01T00:05:30.000Z''" by code_simp
  have excl: "scp_consumerId (example_dispatch_scope ''w2'') = scp_consumerId (example_dispatch_scope ''w1'')"
    if "claimRun db1 (example_dispatch_scope ''w2'') ?inp2 = Inr (db3, r3)" for db3 r3
  proof -
    have k: "scope_key (example_dispatch_scope c) (ci_runId (example_claim x n t u)) = (''o'', ''a'', ''r'')"
      "scope_key (example_dispatch_scope c) (hi_runId (example_held x n t)) = (''o'', ''a'', ''r'')"
      "hi_expectedLeaseRevision (example_held x n t) = n" "ci_claimedAt (example_claim x n t u) = t" for c x n t u
      by (simp_all add: scope_key_def example_held_def example_claim_def example_dispatch_scope_def)
    from execution_lease_exclusive [OF e(1) rtranclp.rtrancl_refl e(2), unfolded k e(3,4), OF refl refl] that after k
    show ?thesis by (metis (no_types, lifting))
  qed
  then have "isl (claimRun db1 (example_dispatch_scope ''w2'') ?inp2)"
    by (cases "claimRun db1 (example_dispatch_scope ''w2'') ?inp2") (auto simp: example_dispatch_scope_def)
  with e(1) show ?thesis by blast
qed

theorem claimable_can_be_claimed_witness:
  "\<exists>db' l. claimRun example_work_db (example_dispatch_scope ''w1'')
       (example_claim ''x1'' 1 ''2026-01-01T00:05:00.000Z'' ''2026-01-01T00:06:00.000Z'') =
         Inr (db', \<lparr>rc_lease = l, rc_replayed = False\<rparr>) \<and>
     assertHeld db' (example_dispatch_scope ''w1'') (example_held ''x1'' 2 ''2026-01-01T00:05:00.000Z'') = Inr l"
proof -
  have "case listClaimable example_work_db (example_dispatch_scope ''w1'') ''2026-01-01T00:05:00.000Z'' 10 of
      Inl e \<Rightarrow> False | Inr cs \<Rightarrow> (case cs of [] \<Rightarrow> False | c # _ \<Rightarrow>
        dc_runId c = ''r'' \<and> dc_runRevision c = 1 \<and> dc_leaseRevision c = 1)" by code_simp
  then obtain cs c where o: "listClaimable example_work_db (example_dispatch_scope ''w1'') ''2026-01-01T00:05:00.000Z'' 10 = Inr cs"
    "c \<in> set cs" "dc_runId c = ''r''" "dc_runRevision c = 1" "dc_leaseRevision c = 1"
    by (fastforce split: sum.splits list.splits)
  have h: "dispatch_wf example_work_db" "plain_instant ''2026-01-01T00:05:00.000Z''"
    "plain_instant ''2026-01-01T00:06:00.000Z''" "''2026-01-01T00:05:00.000Z'' < ''2026-01-01T00:06:00.000Z''"
    "MACHINE_IDENTIFIER_PATTERN ''x1''"
    "list_all (\<lambda>l. xl_executionLeaseId l \<noteq> ''x1'') (wdb_executionLeases example_work_db)"
    "createDispatchScope (example_dispatch_scope ''w1'') = Inr (example_dispatch_scope ''w1'')"
    by code_simp+
  from claimable_can_be_claimed [OF h(1,7) o(1,2) h(2-6)] o(3-5) show ?thesis
    by (auto simp: example_claim_def example_held_def MAX_SAFE_INTEGER_def)
qed

end
