(* ===== verification/Model_Budget.thy ===== *)
theory Model_Budget
  imports Run_Dispatch
begin

text \<open>
  The ledger of model costs (\<open>packages/persistence-sqlite/src/sqlite-model-budget-operations.ts\<close>): one
  account per Run, background occurrence or memory projection, and one allocation per model call. A call
  is reserved against its account and the limits, marked started, and then settled with its actual cost,
  found to be of unknown outcome, or released before it started; a finished Run's account is finalized.
  The background work of \<open>Background_Work\<close> reserves and settles on the account of its occurrence.

  Costs are micro-units within the safe integers; \<open>addCost\<close> and \<open>subtractCost\<close> refuse to leave them.
  The request parsers are the checks they make on typed arguments. A TypeError is \<open>PORT_INVALID_OPERATION\<close>,
  as \<open>execute\<close> reports it; on the path from the background operations it stays a TypeError, which the
  well-formedness theorem of \<open>Budget_Ledger\<close> excludes.
\<close>

section \<open>Requests\<close>

datatype account_parent =
    parent_run RunId
  | parent_occurrence OccurrenceId
  | parent_memory_projection string

record execution_claim =
  xc_executionLeaseId :: RunExecutionLeaseId
  xc_expectedLeaseRevision :: int
  xc_authorityLeaseId :: AuthorityLeaseId
  xc_authorityFencingToken :: int
  xc_deploymentId :: DeploymentId
  xc_authorityEpoch :: int
  xc_fencingToken :: int
  xc_consumerId :: string

record occurrence_claim =
  oc_occurrenceId :: OccurrenceId
  oc_expectedRevision :: int
  oc_workLeaseId :: string
  oc_workLeaseHolderId :: string

record projection_claim =
  pc_jobId :: string
  pc_claimedBy :: string
  pc_attemptCount :: int

datatype active_parent =
    active_run RunId execution_claim
  | active_occurrence occurrence_claim
  | active_memory_projection projection_claim

fun account_parent_of :: "active_parent \<Rightarrow> account_parent" where
  "account_parent_of (active_run runId claim) = parent_run runId"
| "account_parent_of (active_occurrence claim) = parent_occurrence (oc_occurrenceId claim)"
| "account_parent_of (active_memory_projection claim) = parent_memory_projection (pc_jobId claim)"

fun accountId :: "account_parent \<Rightarrow> string" where
  "accountId (parent_memory_projection jobId) = ''memory-projection:'' @ jobId"
| "accountId (parent_run runId) = ''run:'' @ runId"
| "accountId (parent_occurrence occurrenceId) = ''occurrence:'' @ occurrenceId"

record budget_limits =
  bl_accountCostMicros :: int
  bl_globalCostMicros :: int
  bl_perClassificationCostMicros :: "product_data_classification \<Rightarrow> int"

record reserve_input =
  rv_parent :: active_parent
  rv_operationKey :: string
  rv_modelRef :: string
  rv_dataClassification :: product_data_classification
  rv_estimatedCostMicros :: int
  rv_limits :: budget_limits
  rv_reservedAt :: string

record start_input =
  sti_parent :: active_parent
  sti_operationKey :: string
  sti_startedAt :: string

record settlement_input =
  se_parent :: account_parent
  se_operationKey :: string
  se_actualCostMicros :: int
  se_settledAt :: string

record unknown_input =
  un_parent :: account_parent
  un_operationKey :: string
  un_observedAt :: string
  un_reasonCode :: unknown_reason

record release_input =
  re_parent :: account_parent
  re_operationKey :: string
  re_releasedAt :: string

record finalize_input =
  fi_runId :: RunId
  fi_finalizedAt :: string

record budget_account =
  ac_ownerId :: OwnerId
  ac_agentId :: AgentId
  ac_accountId :: string
  ac_parent :: account_parent
  ac_dataClassification :: product_data_classification
  ac_reservedCostMicros :: int
  ac_spentCostMicros :: int
  ac_status :: account_status
  ac_revision :: int

record budget_result =
  br_account :: budget_account
  br_allocation :: allocation_row
  br_replayed :: bool

record budget_snapshot =
  bn_account :: budget_account
  bn_allocations :: "allocation_row list"
  bn_nextOperationKey :: "string option"

section \<open>Argument checks and cost arithmetic\<close>

definition budget_text :: "string \<Rightarrow> nat \<Rightarrow> unit result" where
  "budget_text value maximum = ensure (trim value \<noteq> [] \<and> length value \<le> maximum) type_error"

definition budget_machineText :: "string \<Rightarrow> unit result" where
  "budget_machineText value =
     andThen (budget_text value 128) (\<lambda>_. ensure (MACHINE_IDENTIFIER_PATTERN value) type_error)"

definition budget_instant :: "string \<Rightarrow> unit result" where
  "budget_instant value = andThen (budget_text value 64) (\<lambda>_. ensure (isCanonicalTimestamp value) type_error)"

definition addCost :: "int \<Rightarrow> int \<Rightarrow> int result" where
  "addCost left right =
     (if \<not> is_safe_integer left \<or> \<not> is_safe_integer right \<or> right < 0 \<or> left < 0 then port_fail INVALID_OPERATION
      else if left > MAX_SAFE_INTEGER - right then port_fail INVALID_OPERATION
      else Inr (left + right))"

definition subtractCost :: "int \<Rightarrow> int \<Rightarrow> int result" where
  "subtractCost left right =
     (if \<not> is_safe_integer left \<or> \<not> is_safe_integer right \<or> left < 0 \<or> right < 0 then port_fail INVALID_OPERATION
      else if right > left then port_fail CONFLICT
      else Inr (left - right))"

fun classificationRank :: "product_data_classification \<Rightarrow> nat" where
  "classificationRank class_public = 0"
| "classificationRank class_private = 1"
| "classificationRank class_sensitive = 2"
| "classificationRank class_restricted = 3"

definition parseScope :: "budget_scope \<Rightarrow> budget_scope result" where
  "parseScope s =
     andThen (budget_machineText (scp_ownerId s)) (\<lambda>_.
     andThen (budget_machineText (scp_agentId s)) (\<lambda>_.
     andThen (budget_machineText (fence_deploymentId (scp_authority s))) (\<lambda>_.
     andThen (safeInteger (fence_authorityEpoch (scp_authority s)) 1) (\<lambda>_.
     andThen (safeInteger (fence_fencingToken (scp_authority s)) 1) (\<lambda>_.
     andThen (budget_machineText (scp_leaseId s)) (\<lambda>_.
     andThen (safeInteger (scp_leaseFencingToken s) 1) (\<lambda>_. Inr s)))))))"

fun parseAccountParent :: "account_parent \<Rightarrow> unit result" where
  "parseAccountParent (parent_run runId) = budget_machineText runId"
| "parseAccountParent (parent_occurrence occurrenceId) = budget_machineText occurrenceId"
| "parseAccountParent (parent_memory_projection jobId) = budget_text jobId 512"

fun parseParent :: "active_parent \<Rightarrow> unit result" where
  "parseParent (active_run runId claim) =
     andThen (budget_machineText (xc_executionLeaseId claim)) (\<lambda>_.
     andThen (safeInteger (xc_expectedLeaseRevision claim) 0) (\<lambda>_.
     andThen (budget_machineText (xc_authorityLeaseId claim)) (\<lambda>_.
     andThen (safeInteger (xc_authorityFencingToken claim) 1) (\<lambda>_.
     andThen (budget_machineText (xc_deploymentId claim)) (\<lambda>_.
     andThen (safeInteger (xc_authorityEpoch claim) 1) (\<lambda>_.
     andThen (safeInteger (xc_fencingToken claim) 1) (\<lambda>_.
     andThen (budget_machineText (xc_consumerId claim)) (\<lambda>_. budget_machineText runId))))))))"
| "parseParent (active_occurrence claim) =
     andThen (budget_machineText (oc_occurrenceId claim)) (\<lambda>_.
     andThen (safeInteger (oc_expectedRevision claim) 0) (\<lambda>_.
     andThen (budget_machineText (oc_workLeaseId claim)) (\<lambda>_.
       budget_machineText (oc_workLeaseHolderId claim))))"
| "parseParent (active_memory_projection claim) =
     andThen (budget_text (pc_jobId claim) 512) (\<lambda>_.
     andThen (budget_text (pc_claimedBy claim) 512) (\<lambda>_.
       safeInteger (pc_attemptCount claim) 1))"

definition parseReserve :: "reserve_input \<Rightarrow> unit result" where
  "parseReserve i =
     andThen (parseParent (rv_parent i)) (\<lambda>_.
     andThen (budget_text (rv_operationKey i) 512) (\<lambda>_.
     andThen (budget_text (rv_modelRef i) 256) (\<lambda>_.
     andThen (safeInteger (rv_estimatedCostMicros i) 0) (\<lambda>_.
     andThen (safeInteger (bl_accountCostMicros (rv_limits i)) 0) (\<lambda>_.
     andThen (safeInteger (bl_globalCostMicros (rv_limits i)) 0) (\<lambda>_.
     andThen (ensure (list_all (\<lambda>c. is_safe_integer (bl_perClassificationCostMicros (rv_limits i) c) \<and>
                0 \<le> bl_perClassificationCostMicros (rv_limits i) c)
                [class_public, class_private, class_sensitive, class_restricted]) type_error) (\<lambda>_.
       budget_instant (rv_reservedAt i))))))))"

definition parseMarkStarted :: "start_input \<Rightarrow> unit result" where
  "parseMarkStarted i =
     andThen (parseParent (sti_parent i)) (\<lambda>_.
     andThen (budget_text (sti_operationKey i) 512) (\<lambda>_. budget_instant (sti_startedAt i)))"

definition parseSettlement :: "settlement_input \<Rightarrow> unit result" where
  "parseSettlement i =
     andThen (parseAccountParent (se_parent i)) (\<lambda>_.
     andThen (budget_text (se_operationKey i) 512) (\<lambda>_.
     andThen (safeInteger (se_actualCostMicros i) 0) (\<lambda>_. budget_instant (se_settledAt i))))"

definition parseUnknown :: "unknown_input \<Rightarrow> unit result" where
  "parseUnknown i =
     andThen (parseAccountParent (un_parent i)) (\<lambda>_.
     andThen (budget_text (un_operationKey i) 512) (\<lambda>_. budget_instant (un_observedAt i)))"

definition parseReleaseReserved :: "release_input \<Rightarrow> unit result" where
  "parseReleaseReserved i =
     andThen (parseAccountParent (re_parent i)) (\<lambda>_.
     andThen (budget_text (re_operationKey i) 512) (\<lambda>_. budget_instant (re_releasedAt i)))"

definition parseFinalize :: "finalize_input \<Rightarrow> unit result" where
  "parseFinalize i = andThen (budget_machineText (fi_runId i)) (\<lambda>_. budget_instant (fi_finalizedAt i))"

section \<open>Rows\<close>

definition account_key :: "account_row \<Rightarrow> OwnerId \<times> AgentId \<times> string" where
  "account_key a = (ba_ownerId a, ba_agentId a, ba_accountId a)"

definition allocation_key :: "allocation_row \<Rightarrow> (OwnerId \<times> AgentId \<times> string) \<times> string" where
  "allocation_key m = ((mb_ownerId m, mb_agentId m, mb_accountId m), mb_operationKey m)"

definition optional_text :: "string option \<Rightarrow> bool" where
  "optional_text x = (case x of None \<Rightarrow> True | Some s \<Rightarrow> trim s \<noteq> [] \<and> length s \<le> 512)"

definition parseAccount :: "account_row \<Rightarrow> account_row result" where
  "parseAccount a =
     andThen (ensure (trim (ba_ownerId a) \<noteq> [] \<and> length (ba_ownerId a) \<le> 128 \<and>
                trim (ba_agentId a) \<noteq> [] \<and> length (ba_agentId a) \<le> 128 \<and>
                trim (ba_accountId a) \<noteq> [] \<and> length (ba_accountId a) \<le> 512 \<and>
                optional_text (ba_runId a) \<and> optional_text (ba_occurrenceId a) \<and>
                optional_text (ba_projectionJobId a)) type_error) (\<lambda>_.
     andThen (safeInteger (ba_reservedCostMicros a) 0) (\<lambda>_.
     andThen (safeInteger (ba_spentCostMicros a) 0) (\<lambda>_.
     andThen (safeInteger (ba_revision a) 0) (\<lambda>_. Inr a))))"

definition optional_instant :: "string option \<Rightarrow> bool" where
  "optional_instant x = (case x of None \<Rightarrow> True | Some s \<Rightarrow> \<not> isl (budget_instant s))"

definition parseAllocation :: "allocation_row \<Rightarrow> allocation_row result" where
  "parseAllocation m =
     andThen (ensure (trim (mb_ownerId m) \<noteq> [] \<and> length (mb_ownerId m) \<le> 128 \<and>
                trim (mb_agentId m) \<noteq> [] \<and> length (mb_agentId m) \<le> 128 \<and>
                trim (mb_accountId m) \<noteq> [] \<and> length (mb_accountId m) \<le> 512 \<and>
                trim (mb_operationKey m) \<noteq> [] \<and> length (mb_operationKey m) \<le> 512 \<and>
                trim (mb_modelRef m) \<noteq> [] \<and> length (mb_modelRef m) \<le> 256) type_error) (\<lambda>_.
     andThen (safeInteger (mb_estimatedCostMicros m) 0) (\<lambda>_.
     andThen (case mb_actualCostMicros m of None \<Rightarrow> Inr () | Some n \<Rightarrow> safeInteger n 0) (\<lambda>_.
     andThen (budget_instant (mb_reservedAt m)) (\<lambda>_.
     andThen (ensure (optional_instant (mb_startedAt m) \<and> optional_instant (mb_observedAt m) \<and>
                optional_instant (mb_settledAt m)) type_error) (\<lambda>_. Inr m)))))"

definition readAccount :: "work_db \<Rightarrow> OwnerId \<Rightarrow> AgentId \<Rightarrow> string \<Rightarrow> account_row option result" where
  "readAccount db ownerId agentId i = (case row_of account_key (ownerId, agentId, i) (wdb_accounts db) of
     None \<Rightarrow> Inr None
   | Some a \<Rightarrow> andThen (parseAccount a) (\<lambda>x. Inr (Some x)))"

definition readAllocation :: "work_db \<Rightarrow> OwnerId \<Rightarrow> AgentId \<Rightarrow> string \<Rightarrow> string \<Rightarrow> allocation_row option result" where
  "readAllocation db ownerId agentId i operationKey =
     (case row_of allocation_key ((ownerId, agentId, i), operationKey) (wdb_allocations db) of
        None \<Rightarrow> Inr None
      | Some m \<Rightarrow> andThen (parseAllocation m) (\<lambda>x. Inr (Some x)))"

definition toAccount :: "account_row \<Rightarrow> budget_account result" where
  "toAccount a =
     andThen (createOwnerId (ba_ownerId a)) (\<lambda>ownerId.
     andThen (createAgentId (ba_agentId a)) (\<lambda>agentId.
     andThen (case ba_parentKind a of
                kind_memory_projection \<Rightarrow> (case ba_projectionJobId a of
                  None \<Rightarrow> Inl type_error | Some j \<Rightarrow> Inr (parent_memory_projection j))
              | kind_run \<Rightarrow> (case ba_runId a of
                  None \<Rightarrow> Inl type_error | Some r \<Rightarrow> andThen (createRunId r) (\<lambda>x. Inr (parent_run x)))
              | kind_occurrence \<Rightarrow> (case ba_occurrenceId a of
                  None \<Rightarrow> Inl type_error | Some r \<Rightarrow> andThen (createOccurrenceId r) (\<lambda>x. Inr (parent_occurrence x)))) (\<lambda>parent.
       Inr \<lparr>ac_ownerId = ownerId, ac_agentId = agentId, ac_accountId = ba_accountId a, ac_parent = parent,
            ac_dataClassification = ba_dataClassification a, ac_reservedCostMicros = ba_reservedCostMicros a,
            ac_spentCostMicros = ba_spentCostMicros a, ac_status = ba_status a, ac_revision = ba_revision a\<rparr>)))"

definition toAllocation :: "allocation_row \<Rightarrow> allocation_row result" where
  "toAllocation m =
     andThen (createOwnerId (mb_ownerId m)) (\<lambda>_. andThen (createAgentId (mb_agentId m)) (\<lambda>_. Inr m))"

definition budget_outcome :: "account_row \<Rightarrow> allocation_row \<Rightarrow> bool \<Rightarrow> budget_result result" where
  "budget_outcome account allocation replayed =
     andThen (toAccount account) (\<lambda>a.
     andThen (toAllocation allocation) (\<lambda>m.
       Inr \<lparr>br_account = a, br_allocation = m, br_replayed = replayed\<rparr>))"

section \<open>Guards\<close>

definition budget_authority :: "work_db \<Rightarrow> 'a budget_scope_scheme \<Rightarrow> string \<Rightarrow> unit result" where
  "budget_authority db scope at = (case authority_join db scope of
     None \<Rightarrow> Inl not_authoritative
   | Some (l, d) \<Rightarrow> ensure (dep_status d = dep_active \<and> al_releasedAt l = None \<and>
       isAfter (al_expiresAt l) at \<and> authority_matches (l, d) scope) not_authoritative)"

definition projectionJob :: "work_db \<Rightarrow> 'a budget_scope_scheme \<Rightarrow> string \<Rightarrow> projection_row result" where
  "projectionJob db scope jobId =
     (case List.find (\<lambda>j. pj_id j = jobId \<and> pj_ownerId j = scp_ownerId scope \<and> pj_agentId j = scp_agentId scope)
             (wdb_projections db) of
        None \<Rightarrow> Inl not_authoritative | Some j \<Rightarrow> Inr j)"

definition occurrence_in_scope :: "work_db \<Rightarrow> 'a budget_scope_scheme \<Rightarrow> OccurrenceId \<Rightarrow> background_occurrence option" where
  "occurrence_in_scope db scope i = List.find (\<lambda>c. occ_id c = i \<and> occ_ownerId c = scp_ownerId scope \<and>
     occ_agentId c = scp_agentId scope) (wdb_occurrences db)"

definition guard_scope :: "budget_scope \<Rightarrow> string \<Rightarrow> dispatch_scope" where
  "guard_scope scope consumerId =
     \<lparr>scp_ownerId = scp_ownerId scope, scp_agentId = scp_agentId scope, scp_authority = scp_authority scope,
      scp_leaseId = scp_leaseId scope, scp_leaseFencingToken = scp_leaseFencingToken scope,
      scp_consumerId = consumerId\<rparr>"

text \<open>The parent of a new allocation must exist in the scope and, when required, be executing under its lease.\<close>

fun assertParent :: "work_db \<Rightarrow> budget_scope \<Rightarrow> active_parent \<Rightarrow> string \<Rightarrow> bool \<Rightarrow> unit result" where
  "assertParent db scope (active_run runId claim) at requireActive =
     andThen (ensure (xc_authorityLeaseId claim = scp_leaseId scope \<and>
                xc_authorityFencingToken claim = fence_fencingToken (scp_authority scope) \<and>
                xc_deploymentId claim = fence_deploymentId (scp_authority scope) \<and>
                xc_authorityEpoch claim = fence_authorityEpoch (scp_authority scope) \<and>
                xc_fencingToken claim = fence_fencingToken (scp_authority scope)) not_authoritative) (\<lambda>_.
     case run_row_in_scope db scope runId of
       None \<Rightarrow> Inl not_authoritative
     | Some run \<Rightarrow>
         if requireActive
         then andThen (createDispatchScope (guard_scope scope (xc_consumerId claim))) (\<lambda>guard.
              andThen (assertHeld db guard \<lparr>hi_runId = runId,
                hi_expectedLeaseRevision = xc_expectedLeaseRevision claim,
                hi_executionLeaseId = xc_executionLeaseId claim, hi_at = at\<rparr>) (\<lambda>_.
                ensure (rs_status run \<in> {run_accepted, run_building_context, run_running}) conflict))
         else Inr ())"
| "assertParent db scope (active_memory_projection claim) at requireActive =
     andThen (projectionJob db scope (pc_jobId claim)) (\<lambda>job.
       ensure (requireActive \<longrightarrow>
         pj_status job = pj_claimed \<and> pj_claimedBy job = Some (pc_claimedBy claim) \<and>
         pj_attemptCount job = pc_attemptCount claim \<and>
         (case pj_claimExpiresAt job of None \<Rightarrow> False | Some e \<Rightarrow> e \<noteq> [] \<and> isAfter e at) \<and>
         pj_memoryStatus job = mem_active \<and> pj_memoryRevision job = pj_currentRevision job) conflict)"
| "assertParent db scope (active_occurrence claim) at requireActive =
     (case occurrence_in_scope db scope (oc_occurrenceId claim) of
        None \<Rightarrow> Inl not_authoritative
      | Some c \<Rightarrow> ensure (requireActive \<longrightarrow>
          occ_revision c = oc_expectedRevision claim \<and> occ_status c = occ_running \<and>
          (case occ_workLease c of None \<Rightarrow> False
           | Some l \<Rightarrow> wl_id l = oc_workLeaseId claim \<and> wl_holderId l = oc_workLeaseHolderId claim \<and>
               isAfter (wl_expiresAt l) at)) conflict)"

fun assertAccountParentScope :: "work_db \<Rightarrow> budget_scope \<Rightarrow> account_parent \<Rightarrow> unit result" where
  "assertAccountParentScope db scope (parent_memory_projection jobId) =
     andThen (projectionJob db scope jobId) (\<lambda>_. Inr ())"
| "assertAccountParentScope db scope (parent_run runId) =
     ensure (run_row_in_scope db scope runId \<noteq> None) not_authoritative"
| "assertAccountParentScope db scope (parent_occurrence i) =
     ensure (occurrence_in_scope db scope i \<noteq> None) not_authoritative"

fun assertAccountParent :: "account_row \<Rightarrow> account_parent \<Rightarrow> unit result" where
  "assertAccountParent a (parent_memory_projection jobId) =
     ensure (ba_parentKind a = kind_memory_projection \<and> ba_projectionJobId a = Some jobId \<and>
             ba_runId a = None \<and> ba_occurrenceId a = None) conflict"
| "assertAccountParent a (parent_run runId) =
     ensure (ba_parentKind a = kind_run \<and> ba_runId a = Some runId \<and> ba_occurrenceId a = None) conflict"
| "assertAccountParent a (parent_occurrence i) =
     ensure (ba_parentKind a = kind_occurrence \<and> ba_occurrenceId a = Some i \<and> ba_runId a = None) conflict"

definition assertAccountClassification :: "account_row \<Rightarrow> product_data_classification \<Rightarrow> unit result" where
  "assertAccountClassification a c = ensure (ba_dataClassification a = c) conflict"

definition assertNoRunBudgetAccount :: "work_db \<Rightarrow> OwnerId \<Rightarrow> AgentId \<Rightarrow> RunId \<Rightarrow> unit result" where
  "assertNoRunBudgetAccount db ownerId agentId runId =
     ensure (\<not> list_ex (\<lambda>a. ba_ownerId a = ownerId \<and> ba_agentId a = agentId \<and> ba_runId a = Some runId)
       (wdb_accounts db)) conflict"

definition assertNoBackgroundOccurrenceParent :: "work_db \<Rightarrow> OwnerId \<Rightarrow> AgentId \<Rightarrow> RunId \<Rightarrow> unit result" where
  "assertNoBackgroundOccurrenceParent db ownerId agentId runId =
     ensure (\<not> list_ex (\<lambda>c. occ_ownerId c = ownerId \<and> occ_agentId c = agentId \<and> occ_runId c = Some runId)
       (wdb_occurrences db)) conflict"

definition occurrenceRequiresReconciliation :: "work_db \<Rightarrow> OwnerId \<Rightarrow> AgentId \<Rightarrow> OccurrenceId \<Rightarrow> bool" where
  "occurrenceRequiresReconciliation db ownerId agentId i =
     list_ex (\<lambda>a. ba_ownerId a = ownerId \<and> ba_agentId a = agentId \<and> ba_occurrenceId a = Some i \<and>
       ba_status a = ba_reconcile_required) (wdb_accounts db)"

definition runClassification :: "work_db \<Rightarrow> budget_scope \<Rightarrow> RunId \<Rightarrow> product_data_classification result" where
  "runClassification db scope runId =
     (case List.find (\<lambda>i. ri_runId i = runId \<and> ri_ownerId i = scp_ownerId scope \<and> ri_agentId i = scp_agentId scope)
             (wdb_runInputs db) of
        None \<Rightarrow> Inl not_authoritative | Some i \<Rightarrow> Inr (ri_classification i))"

definition assertRunClassification :: "work_db \<Rightarrow> budget_scope \<Rightarrow> RunId \<Rightarrow> product_data_classification \<Rightarrow> unit result" where
  "assertRunClassification db scope runId requested =
     andThen (runClassification db scope runId) (\<lambda>minimum.
       ensure (\<not> classificationRank requested < classificationRank minimum) not_authoritative)"

section \<open>Accounts\<close>

definition insertAccount :: "work_db \<Rightarrow> OwnerId \<Rightarrow> AgentId \<Rightarrow> account_parent \<Rightarrow> product_data_classification \<Rightarrow>
    (work_db \<times> account_row) result" where
  "insertAccount db ownerId agentId parent c =
     (let db' = db\<lparr>wdb_accounts := wdb_accounts db @
            [\<lparr>ba_ownerId = ownerId, ba_agentId = agentId, ba_accountId = accountId parent,
              ba_parentKind = (case parent of parent_run _ \<Rightarrow> kind_run | parent_occurrence _ \<Rightarrow> kind_occurrence
                | parent_memory_projection _ \<Rightarrow> kind_memory_projection),
              ba_runId = (case parent of parent_run r \<Rightarrow> Some r | _ \<Rightarrow> None),
              ba_occurrenceId = (case parent of parent_occurrence i \<Rightarrow> Some i | _ \<Rightarrow> None),
              ba_projectionJobId = (case parent of parent_memory_projection j \<Rightarrow> Some j | _ \<Rightarrow> None),
              ba_dataClassification = c, ba_reservedCostMicros = 0, ba_spentCostMicros = 0,
              ba_status = ba_active, ba_revision = 0\<rparr>]\<rparr>
      in andThen (readAccount db' ownerId agentId (accountId parent)) (\<lambda>found. case found of
           None \<Rightarrow> Inl type_error | Some a \<Rightarrow> Inr (db', a)))"

definition ensureAccount :: "work_db \<Rightarrow> OwnerId \<Rightarrow> AgentId \<Rightarrow> account_parent \<Rightarrow> product_data_classification \<Rightarrow>
    (work_db \<times> account_row) result" where
  "ensureAccount db ownerId agentId parent c =
     andThen (readAccount db ownerId agentId (accountId parent)) (\<lambda>existing. case existing of
       Some a \<Rightarrow> andThen (assertAccountParent a parent) (\<lambda>_.
                 andThen (assertAccountClassification a c) (\<lambda>_. Inr (db, a)))
     | None \<Rightarrow> insertAccount db ownerId agentId parent c)"

definition ensureOccurrenceAccount :: "work_db \<Rightarrow> background_occurrence \<Rightarrow> (work_db \<times> account_row) result" where
  "ensureOccurrenceAccount db c =
     andThen (createOccurrenceId (occ_id c)) (\<lambda>i.
       ensureAccount db (occ_ownerId c) (occ_agentId c) (parent_occurrence i) (occ_dataClassification c))"

definition updateAccount :: "work_db \<Rightarrow> account_row \<Rightarrow> int \<Rightarrow> int \<Rightarrow> account_status \<Rightarrow> (work_db \<times> account_row) result" where
  "updateAccount db account reserved spent status =
     andThen (addCost reserved spent) (\<lambda>_.
     andThen (addCost (ba_revision account) 1) (\<lambda>revision.
       let db' = db\<lparr>wdb_accounts := map (\<lambda>a.
             if account_key a = account_key account \<and> ba_revision a = ba_revision account
             then a\<lparr>ba_reservedCostMicros := reserved, ba_spentCostMicros := spent, ba_status := status,
                    ba_revision := revision\<rparr>
             else a) (wdb_accounts db)\<rparr>
       in andThen (readAccount db' (ba_ownerId account) (ba_agentId account) (ba_accountId account)) (\<lambda>found.
            case found of None \<Rightarrow> Inl type_error | Some a \<Rightarrow> Inr (db', a))))"

section \<open>Sums and states of the ledger\<close>

record usage =
  usg_global :: int
  usg_byClassification :: "product_data_classification \<Rightarrow> int"

fun usage_sum :: "account_row list \<Rightarrow> usage \<Rightarrow> usage result" where
  "usage_sum [] u = Inr u"
| "usage_sum (a # as) u =
     andThen (safeInteger (ba_reservedCostMicros a) 0) (\<lambda>_.
     andThen (safeInteger (ba_spentCostMicros a) 0) (\<lambda>_.
     andThen (addCost (ba_reservedCostMicros a) (ba_spentCostMicros a)) (\<lambda>total.
     andThen (addCost (usg_global u) total) (\<lambda>global.
     andThen (addCost (usg_byClassification u (ba_dataClassification a)) total) (\<lambda>n.
       usage_sum as \<lparr>usg_global = global,
         usg_byClassification = (usg_byClassification u)(ba_dataClassification a := n)\<rparr>)))))"

definition readUsage :: "work_db \<Rightarrow> OwnerId \<Rightarrow> AgentId \<Rightarrow> usage result" where
  "readUsage db ownerId agentId =
     usage_sum (filter (\<lambda>a. ba_ownerId a = ownerId \<and> ba_agentId a = agentId) (wdb_accounts db))
       \<lparr>usg_global = 0, usg_byClassification = (\<lambda>_. 0)\<rparr>"

definition children :: "work_db \<Rightarrow> OwnerId \<Rightarrow> AgentId \<Rightarrow> string \<Rightarrow> allocation_row list" where
  "children db ownerId agentId i = filter (\<lambda>m. mb_ownerId m = ownerId \<and> mb_agentId m = agentId \<and>
     mb_accountId m = i) (wdb_allocations db)"

record child_state =
  cs_open :: bool
  cs_unknown :: bool
  cs_settled :: bool

definition childAllocationState :: "work_db \<Rightarrow> string \<Rightarrow> OwnerId \<Rightarrow> AgentId \<Rightarrow> child_state" where
  "childAllocationState db i ownerId agentId = (let rows = children db ownerId agentId i in
     \<lparr>cs_open = list_ex (\<lambda>m. mb_status m \<in> {mb_reserved, mb_started}) rows,
      cs_unknown = list_ex (\<lambda>m. mb_status m = mb_unknown) rows,
      cs_settled = list_ex (\<lambda>m. mb_status m = mb_settled) rows\<rparr>)"

definition hasOpenChildAllocations :: "work_db \<Rightarrow> OwnerId \<Rightarrow> AgentId \<Rightarrow> string \<Rightarrow> bool" where
  "hasOpenChildAllocations db ownerId agentId i = cs_open (childAllocationState db i ownerId agentId)"

definition remainingUnknown :: "work_db \<Rightarrow> string \<Rightarrow> 'a budget_scope_scheme \<Rightarrow> string \<Rightarrow> bool" where
  "remainingUnknown db i scope excluded = list_ex (\<lambda>m. mb_status m = mb_unknown \<and> mb_operationKey m \<noteq> excluded)
     (children db (scp_ownerId scope) (scp_agentId scope) i)"

definition is_outstanding :: "allocation_row \<Rightarrow> bool" where
  "is_outstanding m \<longleftrightarrow> mb_status m \<in> {mb_reserved, mb_started, mb_unknown}"

fun reservation_sum :: "allocation_row list \<Rightarrow> int \<Rightarrow> int result" where
  "reservation_sum [] acc = Inr acc"
| "reservation_sum (m # ms) acc =
     andThen (safeInteger (mb_estimatedCostMicros m) 0) (\<lambda>_.
     andThen (addCost acc (mb_estimatedCostMicros m)) (\<lambda>t. reservation_sum ms t))"

definition outstandingChildReservation :: "work_db \<Rightarrow> OwnerId \<Rightarrow> AgentId \<Rightarrow> string \<Rightarrow> int result" where
  "outstandingChildReservation db ownerId agentId i =
     reservation_sum (filter is_outstanding (children db ownerId agentId i)) 0"

section \<open>Allocations\<close>

definition update_allocations :: "work_db \<Rightarrow> (allocation_row \<Rightarrow> bool) \<Rightarrow> (allocation_row \<Rightarrow> allocation_row) \<Rightarrow> work_db" where
  "update_allocations db sel f = db\<lparr>wdb_allocations := map (\<lambda>m. if sel m then f m else m) (wdb_allocations db)\<rparr>"

definition new_allocation :: "budget_scope \<Rightarrow> reserve_input \<Rightarrow> allocation_row" where
  "new_allocation scope inp =
     \<lparr>mb_ownerId = scp_ownerId scope, mb_agentId = scp_agentId scope,
      mb_accountId = accountId (account_parent_of (rv_parent inp)), mb_operationKey = rv_operationKey inp,
      mb_modelRef = rv_modelRef inp, mb_dataClassification = rv_dataClassification inp,
      mb_estimatedCostMicros = rv_estimatedCostMicros inp, mb_actualCostMicros = None, mb_status = mb_reserved,
      mb_reservedAt = rv_reservedAt inp, mb_startedAt = None, mb_observedAt = None, mb_settledAt = None,
      mb_reasonCode = None\<rparr>"

text \<open>
  What a new allocation adds to the account's reservation. The children of an occurrence draw on what its
  admission reserved; the others are held against the three limits.
\<close>

definition next_reserved :: "work_db \<Rightarrow> budget_scope \<Rightarrow> reserve_input \<Rightarrow> account_row \<Rightarrow> int result" where
  "next_reserved db scope inp account =
     andThen (addCost (ba_reservedCostMicros account) (ba_spentCostMicros account)) (\<lambda>accountTotal.
       case rv_parent inp of
         active_occurrence _ \<Rightarrow>
           andThen (outstandingChildReservation db (scp_ownerId scope) (scp_agentId scope) (ba_accountId account)) (\<lambda>outstanding.
           andThen (subtractCost (ba_reservedCostMicros account) outstanding) (\<lambda>available.
           andThen (ensure (\<not> rv_estimatedCostMicros inp > available) conflict) (\<lambda>_.
             Inr (ba_reservedCostMicros account))))
       | _ \<Rightarrow>
           andThen (addCost accountTotal (rv_estimatedCostMicros inp)) (\<lambda>n.
           andThen (ensure (\<not> n > bl_accountCostMicros (rv_limits inp)) conflict) (\<lambda>_.
           andThen (readUsage db (scp_ownerId scope) (scp_agentId scope)) (\<lambda>u.
           andThen (addCost (usg_global u) (rv_estimatedCostMicros inp)) (\<lambda>g.
           andThen (ensure (\<not> g > bl_globalCostMicros (rv_limits inp)) conflict) (\<lambda>_.
           andThen (addCost (usg_byClassification u (rv_dataClassification inp)) (rv_estimatedCostMicros inp)) (\<lambda>c.
           andThen (ensure (\<not> c > bl_perClassificationCostMicros (rv_limits inp) (rv_dataClassification inp)) conflict) (\<lambda>_.
             addCost (ba_reservedCostMicros account) (rv_estimatedCostMicros inp)))))))))"

definition reserve_new :: "work_db \<Rightarrow> budget_scope \<Rightarrow> reserve_input \<Rightarrow> account_row option \<Rightarrow> (work_db \<times> budget_result) result" where
  "reserve_new db scope inp existingAccount =
     (let parent = account_parent_of (rv_parent inp) in
     andThen (assertParent db scope (rv_parent inp) (rv_reservedAt inp) True) (\<lambda>_.
     andThen (case rv_parent inp of
                active_run runId _ \<Rightarrow>
                  andThen (assertNoBackgroundOccurrenceParent db (scp_ownerId scope) (scp_agentId scope) runId) (\<lambda>_.
                    assertRunClassification db scope runId (rv_dataClassification inp))
              | active_memory_projection claim \<Rightarrow>
                  andThen (projectionJob db scope (pc_jobId claim)) (\<lambda>job.
                    ensure (pj_dataClassification job = rv_dataClassification inp) not_authoritative)
              | active_occurrence _ \<Rightarrow>
                  ensure (existingAccount \<noteq> None) (ApplicationPortError NOT_FOUND)) (\<lambda>_.
     andThen (case existingAccount of Some a \<Rightarrow> Inr (db, a)
              | None \<Rightarrow> insertAccount db (scp_ownerId scope) (scp_agentId scope) parent (rv_dataClassification inp)) (\<lambda>(db1, account).
     andThen (assertAccountClassification account (rv_dataClassification inp)) (\<lambda>_.
     andThen (ensure (ba_status account = ba_active) conflict) (\<lambda>_.
     andThen (next_reserved db1 scope inp account) (\<lambda>nextReserved.
     let db2 = db1\<lparr>wdb_allocations := wdb_allocations db1 @
           [(new_allocation scope inp)\<lparr>mb_accountId := ba_accountId account\<rparr>]\<rparr> in
     andThen (updateAccount db2 account nextReserved (ba_spentCostMicros account) ba_active) (\<lambda>(db3, updated).
     andThen (readAllocation db3 (scp_ownerId scope) (scp_agentId scope) (ba_accountId account) (rv_operationKey inp)) (\<lambda>found.
       case found of
         None \<Rightarrow> Inl type_error
       | Some m \<Rightarrow> andThen (budget_outcome updated m False) (\<lambda>r. Inr (db3, r)))))))))))"

definition reserveWithinTransaction :: "work_db \<Rightarrow> budget_scope \<Rightarrow> reserve_input \<Rightarrow> (work_db \<times> budget_result) result" where
  "reserveWithinTransaction db scope inp =
     (let parent = account_parent_of (rv_parent inp); i = accountId parent in
     andThen (budget_authority db scope (rv_reservedAt inp)) (\<lambda>_.
     andThen (case rv_parent inp of
                active_memory_projection _ \<Rightarrow> assertParent db scope (rv_parent inp) (rv_reservedAt inp) True
              | _ \<Rightarrow> Inr ()) (\<lambda>_.
     andThen (readAccount db (scp_ownerId scope) (scp_agentId scope) i) (\<lambda>existingAccount.
     andThen (readAllocation db (scp_ownerId scope) (scp_agentId scope) i (rv_operationKey inp)) (\<lambda>existing.
       case existing of
         Some m \<Rightarrow>
           andThen (ensure (mb_modelRef m = rv_modelRef inp \<and> mb_dataClassification m = rv_dataClassification inp \<and>
                      mb_estimatedCostMicros m = rv_estimatedCostMicros inp) conflict) (\<lambda>_.
           case existingAccount of
             None \<Rightarrow> Inl type_error
           | Some a \<Rightarrow> andThen (assertAccountParent a parent) (\<lambda>_.
                       andThen (budget_outcome a m True) (\<lambda>r. Inr (db, r))))
       | None \<Rightarrow> reserve_new db scope inp existingAccount)))))"

text \<open>The account and the allocation of a later operation, which must exist.\<close>

definition lookup_allocation :: "work_db \<Rightarrow> budget_scope \<Rightarrow> account_parent \<Rightarrow> string \<Rightarrow> (account_row \<times> allocation_row) result" where
  "lookup_allocation db scope parent operationKey =
     andThen (readAccount db (scp_ownerId scope) (scp_agentId scope) (accountId parent)) (\<lambda>account.
     andThen (readAllocation db (scp_ownerId scope) (scp_agentId scope) (accountId parent) operationKey) (\<lambda>allocation.
       case (account, allocation) of
         (Some a, Some m) \<Rightarrow> andThen (assertAccountParent a parent) (\<lambda>_. Inr (a, m))
       | _ \<Rightarrow> port_fail NOT_FOUND))"

definition allocation_selected :: "budget_scope \<Rightarrow> account_parent \<Rightarrow> string \<Rightarrow> allocation_row \<Rightarrow> bool" where
  "allocation_selected scope parent operationKey m \<longleftrightarrow>
     allocation_key m = ((scp_ownerId scope, scp_agentId scope, accountId parent), operationKey)"

text \<open>The allocation as it is after the write, with the account that goes with it.\<close>

definition allocation_outcome :: "work_db \<Rightarrow> budget_scope \<Rightarrow> account_parent \<Rightarrow> string \<Rightarrow> account_row \<Rightarrow>
    (work_db \<times> budget_result) result" where
  "allocation_outcome db scope parent operationKey account =
     andThen (readAllocation db (scp_ownerId scope) (scp_agentId scope) (accountId parent) operationKey) (\<lambda>found.
       case found of None \<Rightarrow> Inl type_error
       | Some m \<Rightarrow> andThen (budget_outcome account m False) (\<lambda>r. Inr (db, r)))"

definition markStartedWithinTransaction :: "work_db \<Rightarrow> budget_scope \<Rightarrow> start_input \<Rightarrow> (work_db \<times> budget_result) result" where
  "markStartedWithinTransaction db scope inp =
     (let parent = account_parent_of (sti_parent inp) in
     andThen (budget_authority db scope (sti_startedAt inp)) (\<lambda>_.
     andThen (case sti_parent inp of
                active_memory_projection _ \<Rightarrow> assertParent db scope (sti_parent inp) (sti_startedAt inp) True
              | _ \<Rightarrow> Inr ()) (\<lambda>_.
     andThen (lookup_allocation db scope parent (sti_operationKey inp)) (\<lambda>(account, m).
       if mb_status m = mb_started then andThen (budget_outcome account m True) (\<lambda>r. Inr (db, r))
       else
       andThen (ensure (mb_status m = mb_reserved) conflict) (\<lambda>_.
       andThen (assertParent db scope (sti_parent inp) (sti_startedAt inp) True) (\<lambda>_.
       andThen (ensure (ba_status account = ba_active) conflict) (\<lambda>_.
         allocation_outcome
           (update_allocations db (\<lambda>x. allocation_selected scope parent (sti_operationKey inp) x \<and> mb_status x = mb_reserved)
              (\<lambda>x. x\<lparr>mb_status := mb_started, mb_startedAt := Some (sti_startedAt inp)\<rparr>))
           scope parent (sti_operationKey inp) account)))))))"

definition settled_account_status :: "work_db \<Rightarrow> budget_scope \<Rightarrow> settlement_input \<Rightarrow> account_row \<Rightarrow> allocation_row \<Rightarrow> account_status" where
  "settled_account_status db scope inp account m =
     (if ba_status account = ba_over_budget then ba_over_budget
      else if se_actualCostMicros inp > mb_estimatedCostMicros m then ba_over_budget
      else if remainingUnknown db (accountId (se_parent inp)) scope (se_operationKey inp) then ba_reconcile_required
      else ba_active)"

definition settleWithinTransaction :: "work_db \<Rightarrow> budget_scope \<Rightarrow> settlement_input \<Rightarrow> (work_db \<times> budget_result) result" where
  "settleWithinTransaction db scope inp =
     andThen (budget_authority db scope (se_settledAt inp)) (\<lambda>_.
     andThen (lookup_allocation db scope (se_parent inp) (se_operationKey inp)) (\<lambda>(account, m).
       if mb_status m = mb_settled
       then andThen (ensure (mb_actualCostMicros m = Some (se_actualCostMicros inp)) conflict) (\<lambda>_.
            andThen (budget_outcome account m True) (\<lambda>r. Inr (db, r)))
       else
       andThen (ensure (mb_status m \<in> {mb_started, mb_unknown}) conflict) (\<lambda>_.
       andThen (assertAccountParentScope db scope (se_parent inp)) (\<lambda>_.
       andThen (subtractCost (ba_reservedCostMicros account) (mb_estimatedCostMicros m)) (\<lambda>reserved.
       andThen (addCost (ba_spentCostMicros account) (se_actualCostMicros inp)) (\<lambda>spent.
       andThen (updateAccount db account reserved spent (settled_account_status db scope inp account m)) (\<lambda>(db1, updated).
         allocation_outcome
           (update_allocations db1 (\<lambda>x. allocation_selected scope (se_parent inp) (se_operationKey inp) x \<and>
                mb_status x \<in> {mb_reserved, mb_started, mb_unknown})
              (\<lambda>x. x\<lparr>mb_status := mb_settled, mb_actualCostMicros := Some (se_actualCostMicros inp),
                    mb_settledAt := Some (se_settledAt inp), mb_reasonCode := None\<rparr>))
           scope (se_parent inp) (se_operationKey inp) updated)))))))"

definition unknown_account_status :: "account_row \<Rightarrow> account_status" where
  "unknown_account_status account =
     (if ba_status account = ba_over_budget then ba_over_budget else ba_reconcile_required)"

definition markUnknownWithinTransaction :: "work_db \<Rightarrow> budget_scope \<Rightarrow> unknown_input \<Rightarrow> (work_db \<times> budget_result) result" where
  "markUnknownWithinTransaction db scope inp =
     andThen (budget_authority db scope (un_observedAt inp)) (\<lambda>_.
     andThen (lookup_allocation db scope (un_parent inp) (un_operationKey inp)) (\<lambda>(account, m).
       if mb_status m = mb_unknown
       then andThen (ensure (mb_reasonCode m = Some (un_reasonCode inp)) conflict) (\<lambda>_.
            andThen (budget_outcome account m True) (\<lambda>r. Inr (db, r)))
       else
       andThen (ensure (mb_status m = mb_started) conflict) (\<lambda>_.
       andThen (assertAccountParentScope db scope (un_parent inp)) (\<lambda>_.
       andThen (updateAccount db account (ba_reservedCostMicros account) (ba_spentCostMicros account)
                  (unknown_account_status account)) (\<lambda>(db1, updated).
         allocation_outcome
           (update_allocations db1 (\<lambda>x. allocation_selected scope (un_parent inp) (un_operationKey inp) x \<and>
                mb_status x = mb_started)
              (\<lambda>x. x\<lparr>mb_status := mb_unknown, mb_observedAt := Some (un_observedAt inp),
                    mb_reasonCode := Some (un_reasonCode inp)\<rparr>))
           scope (un_parent inp) (un_operationKey inp) updated)))))"

definition releaseReservedWithinTransaction :: "work_db \<Rightarrow> budget_scope \<Rightarrow> release_input \<Rightarrow> (work_db \<times> budget_result) result" where
  "releaseReservedWithinTransaction db scope inp =
     andThen (budget_authority db scope (re_releasedAt inp)) (\<lambda>_.
     andThen (lookup_allocation db scope (re_parent inp) (re_operationKey inp)) (\<lambda>(account, m).
       if mb_status m = mb_released then andThen (budget_outcome account m True) (\<lambda>r. Inr (db, r))
       else
       andThen (ensure (mb_status m = mb_reserved) conflict) (\<lambda>_.
       andThen (assertAccountParentScope db scope (re_parent inp)) (\<lambda>_.
       andThen (subtractCost (ba_reservedCostMicros account) (mb_estimatedCostMicros m)) (\<lambda>reserved.
       andThen (updateAccount db account reserved (ba_spentCostMicros account) (ba_status account)) (\<lambda>(db1, updated).
         allocation_outcome
           (update_allocations db1 (\<lambda>x. allocation_selected scope (re_parent inp) (re_operationKey inp) x \<and>
                mb_status x = mb_reserved)
              (\<lambda>x. x\<lparr>mb_status := mb_released, mb_reasonCode := None\<rparr>))
           scope (re_parent inp) (re_operationKey inp) updated))))))"

text \<open>The status a finalised account is left with, given what its children still hold.\<close>

definition finalized_account_status :: "account_row \<Rightarrow> child_state \<Rightarrow> account_status" where
  "finalized_account_status account child =
     (if ba_status account = ba_over_budget then ba_over_budget
      else if cs_open child \<or> cs_unknown child then ba_reconcile_required else ba_active)"

definition finalize_found :: "work_db \<Rightarrow> budget_scope \<Rightarrow> account_row \<Rightarrow> (work_db \<times> budget_account) result" where
  "finalize_found db1 scope account =
     (let ownerId = scp_ownerId scope; agentId = scp_agentId scope;
          db2 = update_allocations db1 (\<lambda>m. mb_ownerId m = ownerId \<and> mb_agentId m = agentId \<and>
            mb_accountId m = ba_accountId account \<and> mb_status m = mb_reserved) (\<lambda>m. m\<lparr>mb_status := mb_released\<rparr>) in
     andThen (outstandingChildReservation db2 ownerId agentId (ba_accountId account)) (\<lambda>outstanding.
     andThen (ensure (\<not> outstanding > ba_reservedCostMicros account) conflict) (\<lambda>_.
     let status = finalized_account_status account (childAllocationState db2 (ba_accountId account) ownerId agentId) in
     andThen (updateAccount db2 account outstanding (ba_spentCostMicros account) status) (\<lambda>(db3, updated).
     andThen (toAccount updated) (\<lambda>a. Inr (db3, a))))))"

definition finalizeAccount :: "work_db \<Rightarrow> budget_scope \<Rightarrow> finalize_input \<Rightarrow> (work_db \<times> budget_account) result" where
  "finalizeAccount db scope inp =
     (let ownerId = scp_ownerId scope; agentId = scp_agentId scope; parent = parent_run (fi_runId inp) in
     andThen (budget_authority db scope (fi_finalizedAt inp)) (\<lambda>_.
     andThen (assertAccountParentScope db scope parent) (\<lambda>_.
     andThen (ensure (case run_row_in_scope db scope (fi_runId inp) of None \<Rightarrow> False
                | Some r \<Rightarrow> rs_status r \<in> {run_completed, run_failed, run_cancelled}) conflict) (\<lambda>_.
     andThen (readAccount db ownerId agentId (accountId parent)) (\<lambda>existing.
     andThen (if existing = None then assertNoBackgroundOccurrenceParent db ownerId agentId (fi_runId inp)
              else Inr ()) (\<lambda>_.
     andThen (case existing of Some a \<Rightarrow> Inr (db, a)
              | None \<Rightarrow> andThen (runClassification db scope (fi_runId inp)) (\<lambda>c.
                  insertAccount db ownerId agentId parent c)) (\<lambda>(db1, account).
     andThen (assertAccountParent account parent) (\<lambda>_.
       finalize_found db1 scope account))))))))"

fun to_allocations :: "allocation_row list \<Rightarrow> allocation_row list result" where
  "to_allocations [] = Inr []"
| "to_allocations (m # ms) =
     andThen (parseAllocation m) (\<lambda>x.
     andThen (toAllocation x) (\<lambda>y.
     andThen (to_allocations ms) (\<lambda>ys. Inr (y # ys))))"

text \<open>A page of an account's allocations in the order of their keys, and the key it continues from.\<close>

definition readSnapshot :: "work_db \<Rightarrow> budget_scope \<Rightarrow> account_parent \<Rightarrow> int \<Rightarrow> string option \<Rightarrow> budget_snapshot option result" where
  "readSnapshot db scope parent limit after =
     andThen (readAccount db (scp_ownerId scope) (scp_agentId scope) (accountId parent)) (\<lambda>found. case found of
       None \<Rightarrow> Inr None
     | Some account \<Rightarrow>
         andThen (assertAccountParent account parent) (\<lambda>_.
         let rows = take (nat (limit + 1)) (sort_key mb_operationKey
               (filter (\<lambda>m. case after of None \<Rightarrow> True | Some k \<Rightarrow> k < mb_operationKey m)
                 (children db (scp_ownerId scope) (scp_agentId scope) (ba_accountId account))));
             hasMore = int (length rows) > limit;
             page = (if hasMore then take (nat limit) rows else rows) in
         andThen (toAccount account) (\<lambda>a.
         andThen (to_allocations page) (\<lambda>ms.
           Inr (Some \<lparr>bn_account = a, bn_allocations = ms,
             bn_nextOperationKey = (if hasMore \<and> ms \<noteq> [] then Some (mb_operationKey (last ms)) else None)\<rparr>)))))"

section \<open>The requests of the port\<close>

definition runImmediateTransaction :: "work_db \<Rightarrow> (work_db \<Rightarrow> 'r result) \<Rightarrow> 'r result" where
  "runImmediateTransaction db operation = andThen (ensure (wdb_headroom db) conflict) (\<lambda>_. operation db)"

datatype budget_request =
    budget_read account_parent int "string option"
  | budget_reserve reserve_input
  | budget_markStarted start_input
  | budget_settle settlement_input
  | budget_markUnknown unknown_input
  | budget_releaseReserved release_input
  | budget_finalize finalize_input

datatype budget_reply =
    reply_snapshot "budget_snapshot option"
  | reply_result budget_result
  | reply_account budget_account

definition changed :: "('r \<Rightarrow> budget_reply) \<Rightarrow> (work_db \<times> 'r) result \<Rightarrow> (work_db \<times> budget_reply) result" where
  "changed f r = andThen r (\<lambda>(db, x). Inr (db, f x))"

fun execute_request :: "work_db \<Rightarrow> budget_scope \<Rightarrow> budget_request \<Rightarrow> (work_db \<times> budget_reply) result" where
  "execute_request db scope (budget_read parent limit after) =
     andThen (safeInteger limit 1) (\<lambda>_.
     andThen (ensure (\<not> limit > 1000) type_error) (\<lambda>_.
     andThen (parseAccountParent parent) (\<lambda>_.
     andThen (ensure (optional_text after) type_error) (\<lambda>_.
     andThen (readSnapshot db scope parent limit after) (\<lambda>s. Inr (db, reply_snapshot s))))))"
| "execute_request db scope (budget_reserve inp) =
     andThen (parseReserve inp) (\<lambda>_. changed reply_result
       (runImmediateTransaction db (\<lambda>d. reserveWithinTransaction d scope inp)))"
| "execute_request db scope (budget_markStarted inp) =
     andThen (parseMarkStarted inp) (\<lambda>_. changed reply_result
       (runImmediateTransaction db (\<lambda>d. markStartedWithinTransaction d scope inp)))"
| "execute_request db scope (budget_settle inp) =
     andThen (parseSettlement inp) (\<lambda>_. changed reply_result
       (runImmediateTransaction db (\<lambda>d. settleWithinTransaction d scope inp)))"
| "execute_request db scope (budget_markUnknown inp) =
     andThen (parseUnknown inp) (\<lambda>_. changed reply_result
       (runImmediateTransaction db (\<lambda>d. markUnknownWithinTransaction d scope inp)))"
| "execute_request db scope (budget_releaseReserved inp) =
     andThen (parseReleaseReserved inp) (\<lambda>_. changed reply_result
       (runImmediateTransaction db (\<lambda>d. releaseReservedWithinTransaction d scope inp)))"
| "execute_request db scope (budget_finalize inp) =
     andThen (parseFinalize inp) (\<lambda>_. changed reply_account
       (runImmediateTransaction db (\<lambda>d. finalizeAccount d scope inp)))"

definition execute_budget :: "work_db \<Rightarrow> budget_scope \<Rightarrow> budget_request \<Rightarrow> (work_db \<times> budget_reply) result" where
  "execute_budget db scope request = andThen (parseScope scope) (\<lambda>s. execute_request db s request)"

section \<open>Background occurrences on the ledger\<close>

record admission_limits =
  lim_globalCostMicros :: int
  lim_perRunCostMicros :: int
  lim_perClassificationCostMicros :: "product_data_classification \<Rightarrow> int"
  lim_totalRuns :: int
  lim_foregroundReserved :: int
  lim_perCategory :: "(string \<times> int) list"

datatype occurrence_outcome = oo_completed | oo_failed | oo_model_blocked | oo_external_result_unknown

datatype failure_class =
    fc_transport | fc_provider | fc_credential | fc_authorization | fc_policy | fc_invalid_input

record retry_policy =
  rp_maxAttempts :: int
  rp_baseDelayMs :: int
  rp_maxDelayMs :: int
  rp_jitterSeed :: int

record occurrence_settlement =
  os_occurrenceId :: OccurrenceId
  os_expectedRevision :: int
  os_authority :: product_authority_fence
  os_leaseId :: string
  os_settledAt :: string
  os_outcome :: occurrence_outcome
  os_spentCostMicros :: int
  os_errorCode :: "string option"
  os_failureClass :: "failure_class option"
  os_retry :: retry_policy

datatype admission_reason =
    ADMITTED
  | ALREADY_ADMITTED
  | JOB_ALREADY_ACTIVE
  | GLOBAL_BUDGET_EXHAUSTED
  | CLASSIFICATION_BUDGET_EXHAUSTED
  | RUN_BUDGET_EXCEEDED
  | TOTAL_CAPACITY_EXHAUSTED
  | FOREGROUND_CAPACITY_RESERVED
  | CATEGORY_CAPACITY_EXHAUSTED
  | DEADLINE_EXCEEDED
  | CREDENTIALS_BLOCKED
  | AUTHORIZATION_BLOCKED
  | MODEL_BLOCKED
  | RETRY_NOT_DUE
  | EXTERNAL_RESULT_RECONCILIATION_REQUIRED

record occurrence_budget =
  ob_reservedCostMicros :: int
  ob_spentCostMicros :: int
  ob_reasonCode :: "admission_reason option"

definition parseLegacyLimits :: "admission_limits \<Rightarrow> budget_limits result" where
  "parseLegacyLimits l =
     andThen (safeInteger (lim_perRunCostMicros l) 0) (\<lambda>_.
     andThen (safeInteger (lim_globalCostMicros l) 0) (\<lambda>_.
     andThen (ensure (list_all (\<lambda>c. is_safe_integer (lim_perClassificationCostMicros l c) \<and>
                0 \<le> lim_perClassificationCostMicros l c)
                [class_public, class_private, class_sensitive, class_restricted]) type_error) (\<lambda>_.
       Inr \<lparr>bl_accountCostMicros = lim_perRunCostMicros l, bl_globalCostMicros = lim_globalCostMicros l,
            bl_perClassificationCostMicros = lim_perClassificationCostMicros l\<rparr>)))"

definition reserveOccurrence :: "work_db \<Rightarrow> background_occurrence \<Rightarrow> admission_limits \<Rightarrow> (work_db \<times> occurrence_budget) result" where
  "reserveOccurrence db c limits0 =
     andThen (ensureOccurrenceAccount db c) (\<lambda>(db1, account).
     andThen (parseLegacyLimits limits0) (\<lambda>limits.
     let refused = (\<lambda>reason. Inr (db1, \<lparr>ob_reservedCostMicros = ba_reservedCostMicros account,
           ob_spentCostMicros = ba_spentCostMicros account, ob_reasonCode = Some reason\<rparr>)) in
     if ba_status account = ba_reconcile_required then refused RUN_BUDGET_EXCEEDED
     else if ba_status account = ba_over_budget then refused RUN_BUDGET_EXCEEDED
     else
     andThen (addCost (ba_reservedCostMicros account) (ba_spentCostMicros account)) (\<lambda>accountTotal.
     andThen (addCost accountTotal (occ_estimatedCostMicros c)) (\<lambda>nextTotal.
     if nextTotal > bl_accountCostMicros limits then refused RUN_BUDGET_EXCEEDED
     else
     andThen (readUsage db1 (occ_ownerId c) (occ_agentId c)) (\<lambda>u.
     andThen (addCost (usg_global u) (occ_estimatedCostMicros c)) (\<lambda>globalNext.
     if globalNext > bl_globalCostMicros limits then refused GLOBAL_BUDGET_EXHAUSTED
     else
     andThen (addCost (usg_byClassification u (occ_dataClassification c)) (occ_estimatedCostMicros c)) (\<lambda>classificationNext.
     if classificationNext > bl_perClassificationCostMicros limits (occ_dataClassification c)
     then refused CLASSIFICATION_BUDGET_EXHAUSTED
     else
     andThen (addCost (ba_reservedCostMicros account) (occ_estimatedCostMicros c)) (\<lambda>reserved.
     andThen (updateAccount db1 account reserved (ba_spentCostMicros account) ba_active) (\<lambda>(db2, _).
       Inr (db2, \<lparr>ob_reservedCostMicros = reserved, ob_spentCostMicros = ba_spentCostMicros account,
         ob_reasonCode = None\<rparr>))))))))))"

definition settleOccurrenceBudget :: "work_db \<Rightarrow> background_occurrence \<Rightarrow> occurrence_settlement \<Rightarrow>
    (work_db \<times> occurrence_budget) result" where
  "settleOccurrenceBudget db c s =
     andThen (ensureOccurrenceAccount db c) (\<lambda>(db1, account).
     let child = childAllocationState db1 (ba_accountId account) (occ_ownerId c) (occ_agentId c) in
     andThen (ensure (\<not> (cs_open child \<or> cs_unknown child \<or> cs_settled child \<and> os_spentCostMicros s \<noteq> 0)) conflict) (\<lambda>_.
     if os_outcome s = oo_external_result_unknown
     then andThen (updateAccount db1 account (ba_reservedCostMicros account) (ba_spentCostMicros account)
                     ba_reconcile_required) (\<lambda>(db2, _).
          Inr (db2, \<lparr>ob_reservedCostMicros = ba_reservedCostMicros account,
            ob_spentCostMicros = ba_spentCostMicros account, ob_reasonCode = None\<rparr>))
     else
     andThen (addCost (ba_spentCostMicros account) (os_spentCostMicros s)) (\<lambda>spent.
     andThen (updateAccount db1 account 0 spent
                (if ba_status account = ba_over_budget \<or> os_spentCostMicros s > occ_reservedCostMicros c
                 then ba_over_budget else ba_active)) (\<lambda>(db2, _).
       Inr (db2, \<lparr>ob_reservedCostMicros = 0, ob_spentCostMicros = spent, ob_reasonCode = None\<rparr>)))))"

end
