(* ===== verification/Budget_Ledger.thy ===== *)
theory Budget_Ledger
  imports Model_Budget
begin

text \<open>
  What the model budget ledger of \<open>Model_Budget\<close> guarantees.

  The invariant \<open>ledger_ok\<close> says that every row parses, that every allocation has its account and that
  every account balances against its allocations: what it holds is what its open allocations reserved and
  what it has spent is what its settled ones cost, exactly so for Runs and memory projections and at least
  so for background occurrences, whose admission reserves ahead of the model calls. Every write of the
  ledger replaces or adds one account and touches only that account's allocations (\<open>ledger_write\<close>), so each
  operation keeps the invariant by a statement about one account. From it follow that the ledger
  balances in every reachable store, that its rows always parse and its subtractions never underflow, that
  a reservation stays within its limits and that a settlement is charged exactly once.
\<close>

section \<open>The ledger balances\<close>

text \<open>The children of an account, what they still hold, and what the settled ones cost.\<close>

definition children_of :: "work_db \<Rightarrow> OwnerId \<times> AgentId \<times> string \<Rightarrow> allocation_row list" where
  "children_of db k = filter (\<lambda>m. fst (allocation_key m) = k) (wdb_allocations db)"

definition held_cost :: "allocation_row \<Rightarrow> int" where
  "held_cost m = (if is_outstanding m then mb_estimatedCostMicros m else 0)"

definition settled_cost :: "allocation_row \<Rightarrow> int" where
  "settled_cost m = (if mb_status m = mb_settled then (case mb_actualCostMicros m of None \<Rightarrow> 0 | Some n \<Rightarrow> n) else 0)"

definition held_total :: "allocation_row list \<Rightarrow> int" where
  "held_total ms = sum_list (map held_cost ms)"

definition settled_total :: "allocation_row list \<Rightarrow> int" where
  "settled_total ms = sum_list (map settled_cost ms)"

text \<open>The rows, as the parsers and the CHECK constraints of the two tables want them.\<close>

definition account_identity :: "account_row \<Rightarrow> bool" where
  "account_identity a = (case ba_parentKind a of
     kind_run \<Rightarrow> (case ba_runId a of None \<Rightarrow> False | Some i \<Rightarrow> ba_accountId a = accountId (parent_run i) \<and>
       ba_occurrenceId a = None \<and> ba_projectionJobId a = None)
   | kind_occurrence \<Rightarrow> (case ba_occurrenceId a of None \<Rightarrow> False
       | Some i \<Rightarrow> ba_accountId a = accountId (parent_occurrence i) \<and> ba_runId a = None \<and> ba_projectionJobId a = None)
   | kind_memory_projection \<Rightarrow> (case ba_projectionJobId a of None \<Rightarrow> False
       | Some i \<Rightarrow> ba_accountId a = accountId (parent_memory_projection i) \<and> ba_runId a = None \<and> ba_occurrenceId a = None))"

lemma account_identity_update [simp]:
  "account_identity (a\<lparr>ba_reservedCostMicros := r, ba_spentCostMicros := s, ba_status := st, ba_revision := n\<rparr>) =
     account_identity a"
  by (cases "ba_parentKind a") (simp_all add: account_identity_def cong: option.case_cong)

definition account_ok :: "account_row \<Rightarrow> bool" where
  "account_ok a \<longleftrightarrow> parseAccount a = Inr a \<and> account_identity a \<and>
     ba_reservedCostMicros a + ba_spentCostMicros a \<le> MAX_SAFE_INTEGER"

definition allocation_ok :: "allocation_row \<Rightarrow> bool" where
  "allocation_ok m \<longleftrightarrow> parseAllocation m = Inr m \<and>
     (mb_status m = mb_settled \<longleftrightarrow> mb_actualCostMicros m \<noteq> None) \<and>
     (mb_status m = mb_settled \<longleftrightarrow> mb_settledAt m \<noteq> None) \<and>
     (mb_status m = mb_unknown \<longleftrightarrow> mb_reasonCode m \<noteq> None) \<and>
     (mb_status m = mb_unknown \<longrightarrow> mb_observedAt m \<noteq> None)"

definition balanced :: "account_row \<Rightarrow> allocation_row list \<Rightarrow> bool" where
  "balanced a ms \<longleftrightarrow>
     held_total ms \<le> ba_reservedCostMicros a \<and> settled_total ms \<le> ba_spentCostMicros a \<and>
     (ba_parentKind a \<noteq> kind_occurrence \<longrightarrow>
        ba_reservedCostMicros a = held_total ms \<and> ba_spentCostMicros a = settled_total ms) \<and>
     (ba_status a = ba_active \<longrightarrow> list_all (\<lambda>m. mb_status m \<noteq> mb_unknown) ms)"

definition ledger_ok :: "work_db \<Rightarrow> bool" where
  "ledger_ok db \<longleftrightarrow>
     distinct (map account_key (wdb_accounts db)) \<and> distinct (map allocation_key (wdb_allocations db)) \<and>
     list_all (\<lambda>a. account_ok a \<and> balanced a (children_of db (account_key a))) (wdb_accounts db) \<and>
     list_all (\<lambda>m. allocation_ok m \<and> has_row account_key (fst (allocation_key m)) (wdb_accounts db)) (wdb_allocations db)"

lemma children_eq: "children db o' a i = children_of db (o', a, i)"
  by (auto simp: children_def children_of_def allocation_key_def intro!: filter_cong)

lemma parseAccount_Inr: "parseAccount a = Inr b \<Longrightarrow> b = a"
  unfolding parseAccount_def by (auto simp: inverts)

lemma parseAllocation_Inr: "parseAllocation a = Inr b \<Longrightarrow> b = a"
  unfolding parseAllocation_def by (auto simp: inverts)

lemma readAccount_Inr:
  "readAccount db ow ag i = Inr r \<Longrightarrow> r = row_of account_key (ow, ag, i) (wdb_accounts db) \<and>
     (\<forall>a. r = Some a \<longrightarrow> parseAccount a = Inr a)"
  unfolding readAccount_def by (auto simp: inverts dest: parseAccount_Inr split: option.splits)

lemma readAllocation_Inr:
  "readAllocation db ow ag i x = Inr r \<Longrightarrow> r = row_of allocation_key ((ow, ag, i), x) (wdb_allocations db) \<and>
     (\<forall>m. r = Some m \<longrightarrow> parseAllocation m = Inr m)"
  unfolding readAllocation_def by (auto simp: inverts dest: parseAllocation_Inr split: option.splits)

lemma addCost_Inr:
  "addCost l r = Inr n \<longleftrightarrow> 0 \<le> l \<and> 0 \<le> r \<and> l + r \<le> MAX_SAFE_INTEGER \<and> n = l + r"
  by (auto simp: addCost_def is_safe_integer_def MAX_SAFE_INTEGER_def)

lemma subtractCost_Inr:
  "subtractCost l r = Inr n \<longleftrightarrow> 0 \<le> r \<and> r \<le> l \<and> l \<le> MAX_SAFE_INTEGER \<and> n = l - r"
  by (auto simp: subtractCost_def is_safe_integer_def MAX_SAFE_INTEGER_def)

subsection \<open>Sums\<close>

lemma held_total_simps [simp]: "held_total [] = 0" "held_total (m # ms) = held_cost m + held_total ms"
  "held_total (ms @ ns) = held_total ms + held_total ns"
  by (simp_all add: held_total_def)

lemma settled_total_simps [simp]: "settled_total [] = 0" "settled_total (m # ms) = settled_cost m + settled_total ms"
  "settled_total (ms @ ns) = settled_total ms + settled_total ns"
  by (simp_all add: settled_total_def)

lemma sum_list_replace:
  fixes g :: "'r \<Rightarrow> int"
  assumes "distinct (map key xs)" and "x \<in> set xs"
  shows "sum_list (map g (map (\<lambda>z. if key z = key x then y else z) xs)) = sum_list (map g xs) - g x + g y"
  using assms
proof (induction xs)
  case (Cons z zs)
  show ?case
  proof (cases "key z = key x")
    case True
    then have "z = x" using Cons.prems by (auto simp: rev_image_eqI)
    moreover have "map (\<lambda>w. if key w = key x then y else w) zs = zs"
      using Cons.prems(1) True by (intro map_idI) (auto simp: rev_image_eqI)
    ultimately show ?thesis using True by (simp del: map_map)
  next
    case False
    with Cons.prems have "x \<in> set zs" by auto
    with Cons False show ?thesis by (simp del: map_map)
  qed
qed simp

lemma reservation_sum_Inr:
  "reservation_sum ms acc = Inr n \<Longrightarrow> list_all is_outstanding ms \<Longrightarrow> n = acc + held_total ms"
proof (induction ms arbitrary: acc)
  case (Cons m ms)
  then have "reservation_sum ms (acc + mb_estimatedCostMicros m) = Inr n" by (auto simp: inverts addCost_Inr)
  from Cons.IH [OF this] Cons.prems(2) show ?case by (simp add: held_cost_def)
qed simp

lemma held_total_filter: "held_total (filter is_outstanding ms) = held_total ms"
  by (induction ms) (auto simp: held_cost_def)

lemma outstanding_Inr: "outstandingChildReservation db ow ag i = Inr n \<Longrightarrow> n = held_total (children_of db (ow, ag, i))"
  unfolding outstandingChildReservation_def children_eq
  by (drule reservation_sum_Inr) (auto simp: held_total_filter list_all_iff)

lemma held_total_nonneg: "list_all (\<lambda>m. 0 \<le> mb_estimatedCostMicros m) ms \<Longrightarrow> 0 \<le> held_total ms"
  by (induction ms) (auto simp: held_cost_def)

lemma allocation_okD: "allocation_ok m \<Longrightarrow> is_safe_integer (mb_estimatedCostMicros m) \<and> 0 \<le> mb_estimatedCostMicros m"
  unfolding allocation_ok_def parseAllocation_def by (auto simp: inverts)

subsection \<open>Changing one account and its children\<close>

text \<open>
  Every write of the ledger replaces or adds one account row and touches only the children of that
  account. It keeps the ledger if the new row is well formed and balances its new children.
\<close>

lemma ledger_write:
  assumes ok: "ledger_ok db"
    and acc: "wdb_accounts db' = put_row account_key a (wdb_accounts db)"
    and keys: "distinct (map allocation_key (wdb_allocations db'))"
    and others: "\<And>k. k \<noteq> account_key a \<Longrightarrow> children_of db' k = children_of db k"
    and mine: "list_all allocation_ok (children_of db' (account_key a))"
    and new: "account_ok a" "balanced a (children_of db' (account_key a))"
  shows "ledger_ok db'"
proof -
  have acc_ok: "account_ok x \<and> balanced x (children_of db' (account_key x))" if "x \<in> set (wdb_accounts db')" for x
  proof (cases "account_key x = account_key a")
    case True
    have "x = a \<or> x \<in> set (wdb_accounts db)" using that acc set_put_row [of account_key a "wdb_accounts db"] by auto
    moreover have "x = a" if "has_row account_key (account_key a) (wdb_accounts db)"
      using that True \<open>x \<in> set (wdb_accounts db')\<close> acc by (auto simp: put_row_def split: if_splits)
    ultimately have "x = a" using True by (auto simp: has_row_def list_ex_iff)
    with new show ?thesis by simp
  next
    case False
    then have "x \<in> set (wdb_accounts db)" using that acc set_put_row [of account_key a "wdb_accounts db"] by auto
    with ok others [OF False] show ?thesis by (auto simp: ledger_ok_def list_all_iff)
  qed
  have all_ok: "allocation_ok m \<and> has_row account_key (fst (allocation_key m)) (wdb_accounts db')"
    if "m \<in> set (wdb_allocations db')" for m
  proof (cases "fst (allocation_key m) = account_key a")
    case True
    then have "m \<in> set (children_of db' (account_key a))" using that by (simp add: children_of_def)
    with mine True acc show ?thesis by (auto simp: list_all_iff has_row_iff row_of_put_row)
  next
    case False
    have "m \<in> set (children_of db' (fst (allocation_key m)))" using that by (simp add: children_of_def)
    then have "m \<in> set (children_of db (fst (allocation_key m)))" unfolding others [OF False] .
    with ok have "allocation_ok m" "has_row account_key (fst (allocation_key m)) (wdb_accounts db)"
      by (auto simp: ledger_ok_def list_all_iff children_of_def)
    with acc show ?thesis by (auto simp: has_row_iff row_of_put_row)
  qed
  from ok acc keys_put_row have "distinct (map account_key (wdb_accounts db'))" by (auto simp: ledger_ok_def)
  with keys acc_ok all_ok show ?thesis by (simp add: ledger_ok_def list_all_iff)
qed

lemma ledger_account:
  assumes "ledger_ok db" and "row_of account_key k (wdb_accounts db) = Some a"
  shows "account_ok a \<and> balanced a (children_of db k) \<and> account_key a = k"
proof -
  from row_of_SomeD [OF assms(2)] have a: "account_key a = k" "a \<in> set (wdb_accounts db)" by simp_all
  with assms(1) show ?thesis by (auto simp: ledger_ok_def list_all_iff)
qed

lemma ledger_allocation:
  assumes "ledger_ok db" and "row_of allocation_key (k, x) (wdb_allocations db) = Some m"
  shows "allocation_ok m \<and> m \<in> set (children_of db k) \<and> allocation_key m = (k, x)"
proof -
  from row_of_SomeD [OF assms(2)] have "allocation_key m = (k, x)" "m \<in> set (wdb_allocations db)" by simp_all
  with assms(1) show ?thesis by (auto simp: ledger_ok_def list_all_iff children_of_def)
qed

lemma ledger_children: "ledger_ok db \<Longrightarrow> list_all allocation_ok (children_of db k)"
  by (auto simp: ledger_ok_def list_all_iff children_of_def)

lemma ledger_no_account_no_children:
  assumes "ledger_ok db" and "row_of account_key k (wdb_accounts db) = None"
  shows "children_of db k = []"
proof -
  have "fst (allocation_key m) \<noteq> k" if "m \<in> set (wdb_allocations db)" for m
    using assms that by (auto simp: ledger_ok_def list_all_iff has_row_iff)
  then show ?thesis by (simp add: children_of_def filter_empty_conv)
qed

lemma distinct_children: "distinct (map allocation_key (wdb_allocations db)) \<Longrightarrow> distinct (map allocation_key (children_of db k))"
  unfolding children_of_def by (rule distinct_map_filter)

text \<open>An UPDATE that selects one key, as far as the children of each account see it.\<close>

definition one_allocation :: "(OwnerId \<times> AgentId \<times> string) \<times> string \<Rightarrow> (allocation_row \<Rightarrow> bool) \<Rightarrow> allocation_row \<Rightarrow> bool" where
  "one_allocation key st m \<longleftrightarrow> allocation_key m = key \<and> st m"

lemma update_allocations_frame [simp]:
  "wdb_accounts (update_allocations db sel f) = wdb_accounts db"
  by (simp add: update_allocations_def)

lemma update_allocations_children:
  assumes "\<And>m. allocation_key (f m) = allocation_key m"
  shows "children_of (update_allocations db sel f) k = map (\<lambda>m. if sel m then f m else m) (children_of db k)"
proof -
  have "filter (\<lambda>m. fst (allocation_key m) = k) (map (\<lambda>m. if sel m then f m else m) ms) =
    map (\<lambda>m. if sel m then f m else m) (filter (\<lambda>m. fst (allocation_key m) = k) ms)" for ms
    by (induction ms) (auto simp: assms)
  then show ?thesis by (simp add: children_of_def update_allocations_def)
qed

lemma update_allocations_keys:
  assumes "\<And>m. allocation_key (f m) = allocation_key m"
  shows "map allocation_key (wdb_allocations (update_allocations db sel f)) = map allocation_key (wdb_allocations db)"
  by (simp add: update_allocations_def assms)

lemma update_one_child:
  assumes ok: "ledger_ok db" and row: "row_of allocation_key (k, x) (wdb_allocations db) = Some m" and st: "st m"
    and f: "\<And>z. allocation_key (f z) = allocation_key z"
    and sel: "\<And>z. sel z \<longleftrightarrow> allocation_key z = (k, x) \<and> st z"
  shows "children_of (update_allocations db sel f) j =
     (if j = k then map (\<lambda>z. if allocation_key z = allocation_key m then f m else z) (children_of db k) else children_of db j)"
proof -
  note m = ledger_allocation [OF ok row]
  have uniq: "z = m" if "z \<in> set (children_of db j)" "allocation_key z = (k, x)" for z j
  proof -
    have "z \<in> set (wdb_allocations db)" "m \<in> set (wdb_allocations db)" using that m by (auto simp: children_of_def)
    with ok that m show ?thesis by (auto simp: ledger_ok_def distinct_map inj_on_def)
  qed
  show ?thesis
  proof (cases "j = k")
    case True
    have "(if sel z then f z else z) = (if allocation_key z = allocation_key m then f m else z)"
      if "z \<in> set (children_of db k)" for z
      using uniq [OF that] m st by (cases "allocation_key z = (k, x)") (simp_all add: sel)
    with True show ?thesis unfolding update_allocations_children [OF f] by (auto intro: map_cong)
  next
    case False
    have "(if sel z then f z else z) = z" if "z \<in> set (children_of db j)" for z
      using that False by (auto simp: sel children_of_def)
    with False show ?thesis unfolding update_allocations_children [OF f] by (auto intro: map_idI)
  qed
qed

subsection \<open>Accounts\<close>

lemma updateAccount_row:
  assumes d: "distinct (map account_key (wdb_accounts db))" and aok: "account_ok a"
    and row: "row_of account_key (account_key a) (wdb_accounts db) = Some a"
    and up: "updateAccount db a r s st = Inr (db', u)"
  shows "u = a\<lparr>ba_reservedCostMicros := r, ba_spentCostMicros := s, ba_status := st, ba_revision := ba_revision a + 1\<rparr> \<and>
    db' = db\<lparr>wdb_accounts := put_row account_key u (wdb_accounts db)\<rparr> \<and> account_key u = account_key a \<and>
    account_ok u \<and> 0 \<le> r \<and> 0 \<le> s"
proof -
  let ?u = "a\<lparr>ba_reservedCostMicros := r, ba_spentCostMicros := s, ba_status := st, ba_revision := ba_revision a + 1\<rparr>"
  let ?as = "map (\<lambda>x. if account_key x = account_key a \<and> ba_revision x = ba_revision a
      then x\<lparr>ba_reservedCostMicros := r, ba_spentCostMicros := s, ba_status := st, ba_revision := ba_revision a + 1\<rparr>
      else x) (wdb_accounts db)"
  have a: "a \<in> set (wdb_accounts db)" using row_of_SomeD [OF row] by simp
  have key: "account_key ?u = account_key a" by (simp add: account_key_def)
  have "x = a" if "x \<in> set (wdb_accounts db)" "account_key x = account_key a" for x
    using that a d by (auto simp: distinct_map inj_on_def)
  then have as: "?as = put_row account_key ?u (wdb_accounts db)"
    using row by (auto simp: put_row_def has_row_iff key intro!: map_cong)
  from up obtain n where n: "0 \<le> r" "0 \<le> s" "r + s \<le> MAX_SAFE_INTEGER"
    and rd: "readAccount (db\<lparr>wdb_accounts := ?as\<rparr>) (ba_ownerId a) (ba_agentId a) (ba_accountId a) = Inr (Some u)"
    and db': "db' = db\<lparr>wdb_accounts := ?as\<rparr>"
    unfolding updateAccount_def Let_def by (auto simp: inverts addCost_Inr split: option.splits)
  have k3: "(ba_ownerId a, ba_agentId a, ba_accountId a) = account_key ?u" by (simp add: account_key_def)
  have pu: "parseAccount u = Inr u" using readAccount_Inr [OF rd] by blast
  have "u = ?u" using conjunct1 [OF readAccount_Inr [OF rd]] by (simp add: as row_of_put_row k3)
  note u = this pu
  with aok n have "account_ok u" by (simp add: account_ok_def)
  with u(1) db' as key n show ?thesis by simp
qed

lemma updateAccount_Inr:
  assumes ok: "ledger_ok db" and row: "row_of account_key (account_key a) (wdb_accounts db) = Some a"
    and up: "updateAccount db a r s st = Inr (db', u)"
  shows "u = a\<lparr>ba_reservedCostMicros := r, ba_spentCostMicros := s, ba_status := st, ba_revision := ba_revision a + 1\<rparr> \<and>
    db' = db\<lparr>wdb_accounts := put_row account_key u (wdb_accounts db)\<rparr> \<and> account_key u = account_key a \<and>
    account_ok u \<and> 0 \<le> r \<and> 0 \<le> s"
proof -
  have "distinct (map account_key (wdb_accounts db))" "account_ok a"
    using ledger_account [OF ok row] ok by (simp_all add: ledger_ok_def)
  then show ?thesis by (rule updateAccount_row [OF _ _ row up])
qed

lemma insertAccount_Inr:
  assumes ok: "ledger_ok db" and none: "row_of account_key (ow, ag, accountId p) (wdb_accounts db) = None"
    and ins: "insertAccount db ow ag p c = Inr (db', a)"
  shows "ledger_ok db' \<and> row_of account_key (ow, ag, accountId p) (wdb_accounts db') = Some a \<and>
    ba_status a = ba_active \<and> ba_reservedCostMicros a = 0 \<and> ba_spentCostMicros a = 0 \<and> ba_dataClassification a = c \<and>
    assertAccountParent a p = Inr () \<and> wdb_allocations db' = wdb_allocations db \<and>
    (\<exists>x. db' = db\<lparr>wdb_accounts := wdb_accounts db @ [x]\<rparr>)"
proof -
  let ?a = "\<lparr>ba_ownerId = ow, ba_agentId = ag, ba_accountId = accountId p,
      ba_parentKind = (case p of parent_run _ \<Rightarrow> kind_run | parent_occurrence _ \<Rightarrow> kind_occurrence
        | parent_memory_projection _ \<Rightarrow> kind_memory_projection),
      ba_runId = (case p of parent_run r \<Rightarrow> Some r | _ \<Rightarrow> None),
      ba_occurrenceId = (case p of parent_occurrence i \<Rightarrow> Some i | _ \<Rightarrow> None),
      ba_projectionJobId = (case p of parent_memory_projection j \<Rightarrow> Some j | _ \<Rightarrow> None),
      ba_dataClassification = c, ba_reservedCostMicros = 0, ba_spentCostMicros = 0,
      ba_status = ba_active, ba_revision = 0\<rparr>"
  have key: "account_key ?a = (ow, ag, accountId p)" by (simp add: account_key_def)
  from ins have db': "db' = db\<lparr>wdb_accounts := wdb_accounts db @ [?a]\<rparr>"
    and rd: "readAccount db' ow ag (accountId p) = Inr (Some a)"
    unfolding insertAccount_def Let_def by (auto simp: inverts split: option.splits)
  have put: "wdb_accounts db' = put_row account_key ?a (wdb_accounts db)"
    using none by (simp add: db' put_row_def has_row_iff key)
  have row: "row_of account_key (ow, ag, accountId p) (wdb_accounts db') = Some ?a"
    by (simp add: put row_of_put_row key)
  with conjunct1 [OF readAccount_Inr [OF rd]] have a: "a = ?a" by simp
  have "parseAccount a = Inr a" using readAccount_Inr [OF rd] by blast
  note a = a this [unfolded a]
  have aok: "account_ok ?a" using a(2) by (cases p) (simp_all add: account_ok_def account_identity_def MAX_SAFE_INTEGER_def)
  have ch: "children_of db' j = children_of db j" for j by (simp add: db' children_of_def)
  have "ledger_ok db'"
    by (rule ledger_write [OF ok put])
      (use ok ch aok key ledger_no_account_no_children [OF ok none] in
        \<open>auto simp: ledger_ok_def db' balanced_def ledger_children\<close>)
  with a row db' show ?thesis by (cases p) auto
qed

lemma ensureAccount_Inr:
  assumes "ledger_ok db" and "ensureAccount db ow ag p c = Inr (db', a)"
  shows "ledger_ok db' \<and> row_of account_key (ow, ag, accountId p) (wdb_accounts db') = Some a \<and>
    assertAccountParent a p = Inr () \<and> wdb_allocations db' = wdb_allocations db \<and>
    (\<exists>as. db' = db\<lparr>wdb_accounts := as\<rparr>)"
proof -
  from assms(2) obtain ex where ex: "readAccount db ow ag (accountId p) = Inr ex"
    and r: "(case ex of Some a \<Rightarrow> andThen (assertAccountParent a p) (\<lambda>_. andThen (assertAccountClassification a c) (\<lambda>_. Inr (db, a)))
      | None \<Rightarrow> insertAccount db ow ag p c) = Inr (db', a)"
    unfolding ensureAccount_def by (auto simp: inverts)
  show ?thesis
  proof (cases ex)
    case None
    with readAccount_Inr [OF ex] r have "row_of account_key (ow, ag, accountId p) (wdb_accounts db) = None"
      "insertAccount db ow ag p c = Inr (db', a)" by simp_all
    from insertAccount_Inr [OF assms(1) this] show ?thesis by blast
  next
    case (Some x)
    with r have "db' = db" "x = a" "assertAccountParent a p = Inr ()" by (auto simp: inverts)
    with readAccount_Inr [OF ex] Some assms(1) show ?thesis by (auto intro!: exI [of _ "wdb_accounts db"])
  qed
qed

text \<open>An account update that leaves the children alone.\<close>

lemma account_write:
  assumes ok: "ledger_ok db" and row: "row_of account_key (account_key a) (wdb_accounts db) = Some a"
    and up: "updateAccount db a r s st = Inr (db', u)" and bal: "balanced u (children_of db (account_key a))"
  shows "ledger_ok db'"
proof -
  note u = updateAccount_Inr [OF ok row up]
  have ch: "children_of db' j = children_of db j" for j using u by (simp add: children_of_def)
  show ?thesis
    by (rule ledger_write [OF ok, of db' u])
      (use u ok ch bal in \<open>auto simp: ledger_ok_def ledger_children\<close>)
qed

text \<open>An account update together with an update of one child.\<close>

lemma allocation_write:
  assumes ok: "ledger_ok db" and row: "row_of account_key k (wdb_accounts db) = Some a"
    and child: "row_of allocation_key (k, x) (wdb_allocations db) = Some m" and st: "st m"
    and up: "updateAccount db a r s stat = Inr (db1, u)"
    and f: "\<And>z. allocation_key (f z) = allocation_key z"
    and sel: "\<And>z. sel z \<longleftrightarrow> allocation_key z = (k, x) \<and> st z"
    and fm: "allocation_ok (f m)"
    and bal: "balanced u (map (\<lambda>z. if allocation_key z = allocation_key m then f m else z) (children_of db k))"
  shows "ledger_ok (update_allocations db1 sel f)"
proof -
  have k: "account_key a = k" using ledger_account [OF ok row] by simp
  note u = updateAccount_Inr [OF ok row [folded k] up]
  have db1: "wdb_allocations db1 = wdb_allocations db" and ch1: "children_of db1 j = children_of db j" for j
    using u by (simp_all add: children_of_def)
  have ok': "children_of (update_allocations db1 sel f) j = children_of (update_allocations db sel f) j" for j
    by (simp add: children_of_def update_allocations_def db1)
  note ch = update_one_child [OF ok child st f sel]
  show ?thesis
  proof (rule ledger_write [OF ok, of _ u])
    show "wdb_accounts (update_allocations db1 sel f) = put_row account_key u (wdb_accounts db)" using u by simp
    show "distinct (map allocation_key (wdb_allocations (update_allocations db1 sel f)))"
      unfolding update_allocations_keys [OF f] db1 using ok by (simp add: ledger_ok_def)
    show "children_of (update_allocations db1 sel f) j = children_of db j" if "j \<noteq> account_key u" for j
    proof -
      from that u k have "j \<noteq> k" by metis
      then show ?thesis unfolding ok' ch by simp
    qed
    show "list_all allocation_ok (children_of (update_allocations db1 sel f) (account_key u))"
    proof -
      from u k have "account_key u = k" by metis
      with fm ledger_children [OF ok, of k] show ?thesis unfolding ok' ch by (auto simp: list_all_iff)
    qed
    show "account_ok u" using u by blast
    show "balanced u (children_of (update_allocations db1 sel f) (account_key u))"
    proof -
      from u k have "account_key u = k" by metis
      with bal show ?thesis unfolding ok' ch by simp
    qed
  qed
qed

lemma balanced_replace:
  assumes "balanced a ms" and "distinct (map allocation_key ms)" and "m \<in> set ms"
    and "ba_parentKind u = ba_parentKind a"
    and "ba_reservedCostMicros u = ba_reservedCostMicros a - held_cost m + held_cost y"
    and "ba_spentCostMicros u = ba_spentCostMicros a - settled_cost m + settled_cost y"
    and "ba_status u = ba_active \<Longrightarrow> mb_status y \<noteq> mb_unknown \<and>
      (\<forall>z\<in>set ms. allocation_key z \<noteq> allocation_key m \<longrightarrow> mb_status z \<noteq> mb_unknown)"
  shows "balanced u (map (\<lambda>z. if allocation_key z = allocation_key m then y else z) ms)"
proof -
  have "held_total (map (\<lambda>z. if allocation_key z = allocation_key m then y else z) ms) = held_total ms - held_cost m + held_cost y"
    "settled_total (map (\<lambda>z. if allocation_key z = allocation_key m then y else z) ms) = settled_total ms - settled_cost m + settled_cost y"
    unfolding held_total_def settled_total_def by (rule sum_list_replace [OF assms(2,3)])+
  with assms show ?thesis unfolding balanced_def by (auto simp: list_all_iff)
qed

subsection \<open>Every operation keeps the ledger\<close>

lemma budget_text_Inr [simp]: "budget_text s n = Inr u \<longleftrightarrow> trim s \<noteq> [] \<and> length s \<le> n"
  by (simp add: budget_text_def)

lemma allocation_key_status [simp]:
  "allocation_key (m\<lparr>mb_status := st\<rparr>) = allocation_key m"
  "allocation_key (m\<lparr>mb_status := st, mb_startedAt := t\<rparr>) = allocation_key m"
  "allocation_key (m\<lparr>mb_status := st, mb_reasonCode := r\<rparr>) = allocation_key m"
  "allocation_key (m\<lparr>mb_status := st, mb_observedAt := t, mb_reasonCode := r\<rparr>) = allocation_key m"
  "allocation_key (m\<lparr>mb_status := st, mb_actualCostMicros := c, mb_settledAt := t, mb_reasonCode := r\<rparr>) = allocation_key m"
  by (simp_all add: allocation_key_def)

lemma lookup_allocation_Inr:
  assumes "ledger_ok db" and "lookup_allocation db scope p x = Inr (a, m)"
  defines "k \<equiv> (scp_ownerId scope, scp_agentId scope, accountId p)"
  shows "row_of account_key k (wdb_accounts db) = Some a" and "row_of allocation_key (k, x) (wdb_allocations db) = Some m"
    and "account_ok a" and "balanced a (children_of db k)" and "account_key a = k"
    and "allocation_ok m" and "m \<in> set (children_of db k)" and "allocation_key m = (k, x)"
    and "distinct (map allocation_key (children_of db k))"
proof -
  from assms(2) have "readAccount db (scp_ownerId scope) (scp_agentId scope) (accountId p) = Inr (Some a)"
    "readAllocation db (scp_ownerId scope) (scp_agentId scope) (accountId p) x = Inr (Some m)"
    unfolding lookup_allocation_def by (auto simp: inverts split: option.splits)
  from readAccount_Inr [OF this(1)] readAllocation_Inr [OF this(2)]
  show r: "row_of account_key k (wdb_accounts db) = Some a" "row_of allocation_key (k, x) (wdb_allocations db) = Some m"
    by (simp_all add: k_def)
  from ledger_account [OF assms(1) r(1)] ledger_allocation [OF assms(1) r(2)]
  show "account_ok a" "balanced a (children_of db k)" "account_key a = k" "allocation_ok m"
    "m \<in> set (children_of db k)" "allocation_key m = (k, x)" by simp_all
  show "distinct (map allocation_key (children_of db k))"
    using assms(1) distinct_children by (auto simp: ledger_ok_def)
qed

lemma allocation_selected_iff:
  "allocation_selected scope p x z \<longleftrightarrow> allocation_key z = ((scp_ownerId scope, scp_agentId scope, accountId p), x)"
  by (simp add: allocation_selected_def)

lemma parseAllocation_update:
  assumes "parseAllocation m = Inr m"
    and "mb_ownerId y = mb_ownerId m" "mb_agentId y = mb_agentId m" "mb_accountId y = mb_accountId m"
      "mb_operationKey y = mb_operationKey m" "mb_modelRef y = mb_modelRef m"
      "mb_estimatedCostMicros y = mb_estimatedCostMicros m" "mb_reservedAt y = mb_reservedAt m"
    and "optional_instant (mb_startedAt y)" "optional_instant (mb_observedAt y)" "optional_instant (mb_settledAt y)"
    and "\<forall>n. mb_actualCostMicros y = Some n \<longrightarrow> is_safe_integer n \<and> 0 \<le> n"
  shows "parseAllocation y = Inr y"
  using assms unfolding parseAllocation_def by (auto simp: inverts split: option.splits)

lemma parsed_instants: "parseAllocation m = Inr m \<Longrightarrow> optional_instant (mb_startedAt m) \<and>
    optional_instant (mb_observedAt m) \<and> optional_instant (mb_settledAt m) \<and>
    (\<forall>n. mb_actualCostMicros m = Some n \<longrightarrow> is_safe_integer n \<and> 0 \<le> n)"
  unfolding parseAllocation_def by (auto simp: inverts split: option.splits)

lemma instant_optional: "budget_instant s = Inr () \<Longrightarrow> optional_instant (Some s)"
  by (simp add: optional_instant_def)

lemma allocation_outcome_db: "allocation_outcome db scope p x a = Inr (db', r) \<Longrightarrow> db' = db"
  unfolding allocation_outcome_def by (auto simp: inverts split: option.splits)

lemma markStarted_keeps:
  assumes ok: "ledger_ok db" and inp: "parseMarkStarted inp = Inr ()"
    and op: "markStartedWithinTransaction db scope inp = Inr (db', r)"
  shows "ledger_ok db'"
proof -
  let ?p = "account_parent_of (sti_parent inp)" and ?x = "sti_operationKey inp"
  let ?f = "\<lambda>z. z\<lparr>mb_status := mb_started, mb_startedAt := Some (sti_startedAt inp)\<rparr>"
  let ?sel = "\<lambda>z. allocation_selected scope ?p ?x z \<and> mb_status z = mb_reserved"
  from op obtain a m where lk: "lookup_allocation db scope ?p ?x = Inr (a, m)"
    and rest: "db' = db \<or> mb_status m = mb_reserved \<and> db' = update_allocations db ?sel ?f"
    unfolding markStartedWithinTransaction_def Let_def
    by (auto simp: inverts dest: allocation_outcome_db split: if_splits)
  let ?k = "(scp_ownerId scope, scp_agentId scope, accountId ?p)"
  note l = lookup_allocation_Inr [OF ok lk]
  show ?thesis
  proof (cases "db' = db")
    case False
    with rest have m: "mb_status m = mb_reserved" and db': "db' = update_allocations db ?sel ?f" by auto
    note ch = update_one_child [OF ok l(2), of "\<lambda>z. mb_status z = mb_reserved" ?f ?sel, OF m allocation_key_status(2)
        conj_cong [OF allocation_selected_iff refl]]
    have inst: "optional_instant (Some (sti_startedAt inp))"
      using inp by (auto simp: parseMarkStarted_def inverts intro: instant_optional)
    have fm: "allocation_ok (?f m)"
      using l(6) m inst parsed_instants [of m] parseAllocation_update [of m "?f m"] by (auto simp: allocation_ok_def)
    show ?thesis
    proof (rule ledger_write [OF ok, of _ a])
      show "wdb_accounts db' = put_row account_key a (wdb_accounts db)"
        unfolding db' update_allocations_frame by (rule put_row_same [symmetric]) (use ok l(1,5) in \<open>auto simp: ledger_ok_def\<close>)
      show "distinct (map allocation_key (wdb_allocations db'))"
        unfolding db' by (subst update_allocations_keys) (use ok in \<open>simp_all add: ledger_ok_def\<close>)
      show "children_of db' j = children_of db j" if "j \<noteq> account_key a" for j
        using that unfolding db' ch l(5) by simp
      show "list_all allocation_ok (children_of db' (account_key a))"
        using fm ledger_children [OF ok, of ?k] unfolding db' ch l(5) by (auto simp: list_all_iff)
      show "account_ok a" by (rule l(3))
      have "balanced a (map (\<lambda>z. if allocation_key z = allocation_key m then ?f m else z) (children_of db ?k))"
        by (rule balanced_replace [OF l(4,9,7)])
          (use l(4) m in \<open>auto simp: held_cost_def settled_cost_def is_outstanding_def balanced_def list_all_iff\<close>)
      then show "balanced a (children_of db' (account_key a))" unfolding db' ch l(5) by simp
    qed
  qed (use ok in simp)
qed

lemma settle_keeps:
  assumes ok: "ledger_ok db" and inp: "parseSettlement inp = Inr ()"
    and op: "settleWithinTransaction db scope inp = Inr (db', r)"
  shows "ledger_ok db'"
proof -
  let ?p = "se_parent inp" and ?x = "se_operationKey inp"
  let ?f = "\<lambda>z. z\<lparr>mb_status := mb_settled, mb_actualCostMicros := Some (se_actualCostMicros inp),
      mb_settledAt := Some (se_settledAt inp), mb_reasonCode := None\<rparr>"
  let ?sel = "\<lambda>z. allocation_selected scope ?p ?x z \<and> mb_status z \<in> {mb_reserved, mb_started, mb_unknown}"
  from op obtain a m where lk: "lookup_allocation db scope ?p ?x = Inr (a, m)"
    and rest: "db' = db \<or> mb_status m \<in> {mb_started, mb_unknown} \<and> (\<exists>reserved spent db1 u.
      subtractCost (ba_reservedCostMicros a) (mb_estimatedCostMicros m) = Inr reserved \<and>
      addCost (ba_spentCostMicros a) (se_actualCostMicros inp) = Inr spent \<and>
      updateAccount db a reserved spent (settled_account_status db scope inp a m) = Inr (db1, u) \<and>
      db' = update_allocations db1 ?sel ?f)"
    unfolding settleWithinTransaction_def
    by (auto simp: inverts dest: allocation_outcome_db split: if_splits)
  let ?k = "(scp_ownerId scope, scp_agentId scope, accountId ?p)"
  note l = lookup_allocation_Inr [OF ok lk]
  show ?thesis
  proof (cases "db' = db")
    case False
    with rest obtain reserved spent db1 u where m: "mb_status m \<in> {mb_started, mb_unknown}"
      and r: "reserved = ba_reservedCostMicros a - mb_estimatedCostMicros m"
      and s: "spent = ba_spentCostMicros a + se_actualCostMicros inp"
      and up: "updateAccount db a reserved spent (settled_account_status db scope inp a m) = Inr (db1, u)"
      and db': "db' = update_allocations db1 ?sel ?f"
      by (auto simp: subtractCost_Inr addCost_Inr)
    note u = updateAccount_Inr [OF ok l(1) [folded l(5)] up]
    have inst: "optional_instant (Some (se_settledAt inp))" "is_safe_integer (se_actualCostMicros inp)" "0 \<le> se_actualCostMicros inp"
      using inp by (auto simp: parseSettlement_def inverts intro: instant_optional)
    have fm: "allocation_ok (?f m)"
      using l(6) inst parsed_instants [of m] parseAllocation_update [of m "?f m"] by (auto simp: allocation_ok_def)
    have nounk: "mb_status z \<noteq> mb_unknown"
      if "settled_account_status db scope inp a m = ba_active" "z \<in> set (children_of db ?k)" "allocation_key z \<noteq> allocation_key m" for z
    proof -
      have "mb_operationKey z \<noteq> ?x" using that(2,3) l(8) by (auto simp: children_of_def allocation_key_def)
      with that(1,2) show ?thesis
        by (auto simp: settled_account_status_def remainingUnknown_def children_eq list_ex_iff split: if_splits)
    qed
    show ?thesis unfolding db'
    proof (rule allocation_write [where st = "\<lambda>z. mb_status z \<in> {mb_reserved, mb_started, mb_unknown}" and f = ?f,
          OF ok l(1,2) _ up allocation_key_status(5) _ fm])
      show "mb_status m \<in> {mb_reserved, mb_started, mb_unknown}" using m by auto
      show "?sel z \<longleftrightarrow> allocation_key z = (?k, ?x) \<and> mb_status z \<in> {mb_reserved, mb_started, mb_unknown}" for z
        by (simp add: allocation_selected_iff)
      show "balanced u (map (\<lambda>z. if allocation_key z = allocation_key m then ?f m else z) (children_of db ?k))"
        by (rule balanced_replace [OF l(4,9,7)])
          (use u r s m nounk in \<open>auto simp: held_cost_def settled_cost_def is_outstanding_def\<close>)
    qed
  qed (use ok in simp)
qed

lemma markUnknown_keeps:
  assumes ok: "ledger_ok db" and inp: "parseUnknown inp = Inr ()"
    and op: "markUnknownWithinTransaction db scope inp = Inr (db', r)"
  shows "ledger_ok db'"
proof -
  let ?p = "un_parent inp" and ?x = "un_operationKey inp"
  let ?f = "\<lambda>z. z\<lparr>mb_status := mb_unknown, mb_observedAt := Some (un_observedAt inp), mb_reasonCode := Some (un_reasonCode inp)\<rparr>"
  let ?sel = "\<lambda>z. allocation_selected scope ?p ?x z \<and> mb_status z = mb_started"
  from op obtain a m where lk: "lookup_allocation db scope ?p ?x = Inr (a, m)"
    and rest: "db' = db \<or> mb_status m = mb_started \<and> (\<exists>db1 u.
      updateAccount db a (ba_reservedCostMicros a) (ba_spentCostMicros a) (unknown_account_status a) = Inr (db1, u) \<and>
      db' = update_allocations db1 ?sel ?f)"
    unfolding markUnknownWithinTransaction_def
    by (auto simp: inverts dest: allocation_outcome_db split: if_splits)
  let ?k = "(scp_ownerId scope, scp_agentId scope, accountId ?p)"
  note l = lookup_allocation_Inr [OF ok lk]
  show ?thesis
  proof (cases "db' = db")
    case False
    with rest obtain db1 u where m: "mb_status m = mb_started"
      and up: "updateAccount db a (ba_reservedCostMicros a) (ba_spentCostMicros a) (unknown_account_status a) = Inr (db1, u)"
      and db': "db' = update_allocations db1 ?sel ?f" by auto
    note u = updateAccount_Inr [OF ok l(1) [folded l(5)] up]
    have inst: "optional_instant (Some (un_observedAt inp))"
      using inp by (auto simp: parseUnknown_def inverts intro: instant_optional)
    have fm: "allocation_ok (?f m)"
      using l(6) m inst parsed_instants [of m] parseAllocation_update [of m "?f m"] by (auto simp: allocation_ok_def)
    show ?thesis unfolding db'
      by (rule allocation_write [where st = "\<lambda>z. mb_status z = mb_started" and f = ?f,
            OF ok l(1,2) m up allocation_key_status(4) _ fm], simp add: allocation_selected_iff,
          rule balanced_replace [OF l(4,9,7)])
        (use u m in \<open>auto simp: held_cost_def settled_cost_def is_outstanding_def unknown_account_status_def split: if_splits\<close>)
  qed (use ok in simp)
qed

lemma releaseReserved_keeps:
  assumes ok: "ledger_ok db" and op: "releaseReservedWithinTransaction db scope inp = Inr (db', r)"
  shows "ledger_ok db'"
proof -
  let ?p = "re_parent inp" and ?x = "re_operationKey inp"
  let ?f = "\<lambda>z. z\<lparr>mb_status := mb_released, mb_reasonCode := None\<rparr>"
  let ?sel = "\<lambda>z. allocation_selected scope ?p ?x z \<and> mb_status z = mb_reserved"
  from op obtain a m where lk: "lookup_allocation db scope ?p ?x = Inr (a, m)"
    and rest: "db' = db \<or> mb_status m = mb_reserved \<and> (\<exists>reserved db1 u.
      subtractCost (ba_reservedCostMicros a) (mb_estimatedCostMicros m) = Inr reserved \<and>
      updateAccount db a reserved (ba_spentCostMicros a) (ba_status a) = Inr (db1, u) \<and>
      db' = update_allocations db1 ?sel ?f)"
    unfolding releaseReservedWithinTransaction_def
    by (auto simp: inverts dest: allocation_outcome_db split: if_splits)
  let ?k = "(scp_ownerId scope, scp_agentId scope, accountId ?p)"
  note l = lookup_allocation_Inr [OF ok lk]
  show ?thesis
  proof (cases "db' = db")
    case False
    with rest obtain reserved db1 u where m: "mb_status m = mb_reserved"
      and r: "reserved = ba_reservedCostMicros a - mb_estimatedCostMicros m"
      and up: "updateAccount db a reserved (ba_spentCostMicros a) (ba_status a) = Inr (db1, u)"
      and db': "db' = update_allocations db1 ?sel ?f" by (auto simp: subtractCost_Inr)
    note u = updateAccount_Inr [OF ok l(1) [folded l(5)] up]
    have fm: "allocation_ok (?f m)"
      using l(6) m parsed_instants [of m] parseAllocation_update [of m "?f m"] by (auto simp: allocation_ok_def)
    show ?thesis unfolding db'
      by (rule allocation_write [where st = "\<lambda>z. mb_status z = mb_reserved" and f = ?f,
            OF ok l(1,2) m up allocation_key_status(3) _ fm], simp add: allocation_selected_iff,
          rule balanced_replace [OF l(4,9,7)])
        (use u m r l(4) in \<open>auto simp: held_cost_def settled_cost_def is_outstanding_def balanced_def list_all_iff\<close>)
  qed (use ok in simp)
qed

lemma machine_text: "MACHINE_IDENTIFIER_PATTERN s \<Longrightarrow> trim s \<noteq> [] \<and> length s \<le> 128"
proof -
  assume p: "MACHINE_IDENTIFIER_PATTERN s"
  then obtain c cs where s: "s = c # cs" "is_alnum c" "length cs \<le> 127"
    by (cases s) (auto simp: MACHINE_IDENTIFIER_PATTERN_def)
  then have "\<not> is_space c" by (auto simp: is_alnum_def is_space_def)
  then have "trim s \<noteq> []" by (simp add: trim_def s(1) dropWhile_eq_Nil_conv)
  with s show ?thesis by simp
qed

lemma budget_machineText_Inr [simp]: "budget_machineText s = Inr u \<longleftrightarrow> MACHINE_IDENTIFIER_PATTERN s"
  using machine_text by (auto simp: budget_machineText_def inverts)

lemma parseScope_Inr: "parseScope s = Inr s' \<Longrightarrow> s' = s \<and> MACHINE_IDENTIFIER_PATTERN (scp_ownerId s) \<and> MACHINE_IDENTIFIER_PATTERN (scp_agentId s)"
  unfolding parseScope_def by (auto simp: inverts)

lemma next_reserved_Inr:
  assumes "next_reserved db scope inp a = Inr n" and "account_key a = (scp_ownerId scope, scp_agentId scope, ba_accountId a)"
  shows "if \<exists>c. rv_parent inp = active_occurrence c
    then n = ba_reservedCostMicros a \<and> rv_estimatedCostMicros inp \<le> ba_reservedCostMicros a - held_total (children_of db (account_key a))
    else n = ba_reservedCostMicros a + rv_estimatedCostMicros inp \<and>
      ba_reservedCostMicros a + ba_spentCostMicros a + rv_estimatedCostMicros inp \<le> bl_accountCostMicros (rv_limits inp) \<and>
      (\<exists>u. readUsage db (scp_ownerId scope) (scp_agentId scope) = Inr u \<and>
        usg_global u + rv_estimatedCostMicros inp \<le> bl_globalCostMicros (rv_limits inp) \<and>
        usg_byClassification u (rv_dataClassification inp) + rv_estimatedCostMicros inp
          \<le> bl_perClassificationCostMicros (rv_limits inp) (rv_dataClassification inp))"
  using assms unfolding next_reserved_def
  by (cases "rv_parent inp") (auto simp: inverts addCost_Inr subtractCost_Inr dest!: outstanding_Inr)

lemma new_allocation_write:
  assumes ok: "ledger_ok db" and row: "row_of account_key k (wdb_accounts db) = Some a"
    and none: "row_of allocation_key (k, x) (wdb_allocations db) = None"
    and m: "allocation_ok m" "allocation_key m = (k, x)" "mb_status m = mb_reserved"
    and up: "updateAccount (db\<lparr>wdb_allocations := wdb_allocations db @ [m]\<rparr>) a r s ba_active = Inr (db', u)"
    and act: "ba_status a = ba_active" and s: "s = ba_spentCostMicros a"
    and r: "if ba_parentKind a = kind_occurrence then r = ba_reservedCostMicros a \<and>
        mb_estimatedCostMicros m \<le> ba_reservedCostMicros a - held_total (children_of db k)
      else r = ba_reservedCostMicros a + mb_estimatedCostMicros m"
  shows "ledger_ok db' \<and> u = a\<lparr>ba_reservedCostMicros := r, ba_spentCostMicros := s, ba_status := ba_active, ba_revision := ba_revision a + 1\<rparr> \<and>
    db' = db\<lparr>wdb_accounts := put_row account_key u (wdb_accounts db), wdb_allocations := wdb_allocations db @ [m]\<rparr>"
proof -
  note a = ledger_account [OF ok row]
  have d: "distinct (map account_key (wdb_accounts db))" "distinct (map allocation_key (wdb_allocations db))"
    using ok by (simp_all add: ledger_ok_def)
  have u: "u = a\<lparr>ba_reservedCostMicros := r, ba_spentCostMicros := s, ba_status := ba_active, ba_revision := ba_revision a + 1\<rparr>"
    "db' = db\<lparr>wdb_accounts := put_row account_key u (wdb_accounts db), wdb_allocations := wdb_allocations db @ [m]\<rparr>"
    "account_key u = k" "account_ok u"
    using updateAccount_row [OF _ _ _ up] a row d by auto
  have ch: "children_of db' j = (if j = k then children_of db k @ [m] else children_of db j)" for j
    by (simp add: u(2) children_of_def m)
  have fresh: "allocation_key m \<notin> allocation_key ` set (wdb_allocations db)"
  proof
    assume "allocation_key m \<in> allocation_key ` set (wdb_allocations db)"
    then obtain y where "y \<in> set (wdb_allocations db)" "allocation_key y = (k, x)" using m(2) by force
    then have "has_row allocation_key (k, x) (wdb_allocations db)" by (auto simp: has_row_def list_ex_iff)
    with none show False by (simp add: has_row_iff)
  qed
  have hold: "held_cost m = mb_estimatedCostMicros m" "settled_cost m = 0"
    using m(3) by (simp_all add: held_cost_def settled_cost_def is_outstanding_def)
  have bal: "balanced u (children_of db k @ [m])"
    using a act r s m(3) hold u(1) by (auto simp: balanced_def split: if_splits)
  have "ledger_ok db'"
  proof (rule ledger_write [OF ok, of _ u])
    show "wdb_accounts db' = put_row account_key u (wdb_accounts db)" using u(2) by simp
    show "distinct (map allocation_key (wdb_allocations db'))" using d(2) fresh u(2) by simp
    show "children_of db' j = children_of db j" if "j \<noteq> account_key u" for j using that u(3) unfolding ch by simp
    show "list_all allocation_ok (children_of db' (account_key u))"
      using ledger_children [OF ok, of k] m(1) unfolding ch u(3) by simp
    show "account_ok u" by (rule u(4))
    show "balanced u (children_of db' (account_key u))" using bal unfolding ch u(3) by simp
  qed
  with u show ?thesis by blast
qed

lemma account_kind:
  assumes "account_identity a" and "ba_accountId a = accountId p"
  shows "ba_parentKind a = (case p of parent_run _ \<Rightarrow> kind_run | parent_occurrence _ \<Rightarrow> kind_occurrence
    | parent_memory_projection _ \<Rightarrow> kind_memory_projection)"
  using assms by (cases p; cases "ba_parentKind a") (auto simp: account_identity_def split: option.splits)

lemma new_allocation_ok:
  assumes "parseScope scope = Inr scope" and "parseReserve inp = Inr ()" and "account_ok a"
  shows "allocation_ok ((new_allocation scope inp)\<lparr>mb_accountId := ba_accountId a\<rparr>)"
proof -
  from assms(3) have "trim (ba_accountId a) \<noteq> [] \<and> length (ba_accountId a) \<le> 512"
    unfolding account_ok_def parseAccount_def by (auto simp: inverts)
  moreover from parseScope_Inr [OF assms(1)] have "trim (scp_ownerId scope) \<noteq> [] \<and> length (scp_ownerId scope) \<le> 128 \<and>
      trim (scp_agentId scope) \<noteq> [] \<and> length (scp_agentId scope) \<le> 128"
    using machine_text by blast
  moreover from assms(2) have "trim (rv_operationKey inp) \<noteq> [] \<and> length (rv_operationKey inp) \<le> 512 \<and>
      trim (rv_modelRef inp) \<noteq> [] \<and> length (rv_modelRef inp) \<le> 256 \<and>
      safeInteger (rv_estimatedCostMicros inp) 0 = Inr () \<and> budget_instant (rv_reservedAt inp) = Inr ()"
    unfolding parseReserve_def by (auto simp: inverts)
  ultimately show ?thesis
    by (simp add: allocation_ok_def new_allocation_def parseAllocation_def optional_instant_def inverts)
qed

text \<open>What a reservation that wrote a new allocation had found, and what it wrote.\<close>

lemma reserve_new_Inr:
  assumes ok: "ledger_ok db" and ex: "existing = row_of account_key k (wdb_accounts db)"
    and none: "row_of allocation_key (k, rv_operationKey inp) (wdb_allocations db) = None"
    and k: "k = (scp_ownerId scope, scp_agentId scope, accountId (account_parent_of (rv_parent inp)))"
    and op: "reserve_new db scope inp existing = Inr (db', r)"
  obtains db1 a n db3 u where "ledger_ok db1" and "row_of account_key k (wdb_accounts db1) = Some a"
    and "wdb_allocations db1 = wdb_allocations db" and "account_key a = k" and "account_ok a" and "ba_status a = ba_active"
    and "next_reserved db1 scope inp a = Inr n"
    and "updateAccount (db1\<lparr>wdb_allocations := wdb_allocations db1 @ [(new_allocation scope inp)\<lparr>mb_accountId := ba_accountId a\<rparr>]\<rparr>)
      a n (ba_spentCostMicros a) ba_active = Inr (db', u)"
    and "ba_dataClassification a = rv_dataClassification inp"
proof -
  let ?p = "account_parent_of (rv_parent inp)"
  from op obtain db1 a n u where
      src: "(case existing of Some a \<Rightarrow> Inr (db, a)
        | None \<Rightarrow> insertAccount db (scp_ownerId scope) (scp_agentId scope) ?p (rv_dataClassification inp)) = Inr (db1, a)"
    and cl: "assertAccountClassification a (rv_dataClassification inp) = Inr ()" and act: "ba_status a = ba_active"
    and n: "next_reserved db1 scope inp a = Inr n"
    and up: "updateAccount (db1\<lparr>wdb_allocations := wdb_allocations db1 @ [(new_allocation scope inp)\<lparr>mb_accountId := ba_accountId a\<rparr>]\<rparr>)
      a n (ba_spentCostMicros a) ba_active = Inr (db', u)"
    unfolding reserve_new_def Let_def by (auto simp: inverts split: option.splits prod.splits)
  have base: "ledger_ok db1 \<and> row_of account_key k (wdb_accounts db1) = Some a \<and> wdb_allocations db1 = wdb_allocations db"
  proof (cases existing)
    case None
    from insertAccount_Inr [OF ok, of "scp_ownerId scope" "scp_agentId scope" ?p "rv_dataClassification inp" db1 a] None src ex k
    show ?thesis by simp
  next
    case (Some x)
    from src [unfolded Some] ok ex [unfolded Some, symmetric] show ?thesis by simp
  qed
  then have a: "account_ok a" "account_key a = k" using ledger_account [of db1 k a] by simp_all
  from cl have "ba_dataClassification a = rv_dataClassification inp" by (simp add: assertAccountClassification_def)
  with base a act n up that show thesis by blast
qed

lemma reserve_new_keeps:
  assumes ok: "ledger_ok db" and ex: "existing = row_of account_key k (wdb_accounts db)"
    and none: "row_of allocation_key (k, rv_operationKey inp) (wdb_allocations db) = None"
    and k: "k = (scp_ownerId scope, scp_agentId scope, accountId (account_parent_of (rv_parent inp)))"
    and scope: "parseScope scope = Inr scope" and inp: "parseReserve inp = Inr ()"
    and op: "reserve_new db scope inp existing = Inr (db', r)"
  shows "ledger_ok db'"
proof (rule reserve_new_Inr [OF ok ex none k op])
  fix db1 a n db3 u
  assume a: "ledger_ok db1" "row_of account_key k (wdb_accounts db1) = Some a" "wdb_allocations db1 = wdb_allocations db"
      "account_key a = k" "account_ok a" "ba_status a = ba_active"
    and n: "next_reserved db1 scope inp a = Inr n"
    and up: "updateAccount (db1\<lparr>wdb_allocations := wdb_allocations db1 @ [(new_allocation scope inp)\<lparr>mb_accountId := ba_accountId a\<rparr>]\<rparr>)
      a n (ba_spentCostMicros a) ba_active = Inr (db', u)"
  have id: "ba_accountId a = accountId (account_parent_of (rv_parent inp))" using a(4) k by (simp add: account_key_def)
  have kind: "ba_parentKind a = kind_occurrence \<longleftrightarrow> (\<exists>c. rv_parent inp = active_occurrence c)"
    using account_kind [OF _ id] a(5) by (cases "rv_parent inp") (auto simp: account_ok_def)
  let ?m = "(new_allocation scope inp)\<lparr>mb_accountId := ba_accountId a\<rparr>"
  have m: "allocation_key ?m = (k, rv_operationKey inp)" "mb_status ?m = mb_reserved"
      "mb_estimatedCostMicros ?m = rv_estimatedCostMicros inp"
    using k id by (simp_all add: allocation_key_def new_allocation_def)
  have nr: "if ba_parentKind a = kind_occurrence then n = ba_reservedCostMicros a \<and>
        mb_estimatedCostMicros ?m \<le> ba_reservedCostMicros a - held_total (children_of db1 k)
      else n = ba_reservedCostMicros a + mb_estimatedCostMicros ?m"
    using next_reserved_Inr [OF n] a(4) k id unfolding m kind by (auto split: if_splits)
  from new_allocation_write [OF a(1,2) none [folded a(3)] new_allocation_ok [OF scope inp a(5)] m(1,2) up a(6) refl nr]
  show "ledger_ok db'" by blast
qed

lemma reserve_keeps:
  assumes ok: "ledger_ok db" and scope: "parseScope scope = Inr scope" and inp: "parseReserve inp = Inr ()"
    and op: "reserveWithinTransaction db scope inp = Inr (db', r)"
  shows "ledger_ok db'"
proof -
  let ?i = "accountId (account_parent_of (rv_parent inp))"
  note w = op [unfolded reserveWithinTransaction_def Let_def]
  from w obtain ex where ex: "readAccount db (scp_ownerId scope) (scp_agentId scope) ?i = Inr ex"
    by (cases "readAccount db (scp_ownerId scope) (scp_agentId scope) ?i") (auto simp: inverts)
  from w obtain m where m: "readAllocation db (scp_ownerId scope) (scp_agentId scope) ?i (rv_operationKey inp) = Inr m"
    by (cases "readAllocation db (scp_ownerId scope) (scp_agentId scope) ?i (rv_operationKey inp)") (auto simp: inverts)
  show ?thesis
  proof (cases m)
    case None
    then have "reserve_new db scope inp ex = Inr (db', r)" using w ex m by (auto simp: inverts)
    with readAccount_Inr [OF ex] readAllocation_Inr [OF m] None show ?thesis
      using reserve_new_keeps [OF ok _ _ refl scope inp] by simp
  next
    case (Some x)
    with w ex m ok show ?thesis by (auto simp: inverts split: option.splits)
  qed
qed

lemma accountId_occurrence: "account_ok a \<Longrightarrow> account_key a = (ow, ag, accountId (parent_occurrence i)) \<Longrightarrow> ba_parentKind a = kind_occurrence"
  using account_kind [of a "parent_occurrence i"] by (auto simp: account_ok_def account_key_def)

lemma no_children_held: "list_all (\<lambda>m. \<not> is_outstanding m) ms \<Longrightarrow> held_total ms = 0"
  by (induction ms) (auto simp: held_cost_def)

lemma ensureOccurrenceAccount_Inr:
  assumes "ledger_ok db" and "ensureOccurrenceAccount db c = Inr (db1, a)"
  shows "ledger_ok db1 \<and> row_of account_key (account_key a) (wdb_accounts db1) = Some a \<and> account_ok a \<and>
    balanced a (children_of db1 (account_key a)) \<and> ba_parentKind a = kind_occurrence \<and>
    account_key a = (occ_ownerId c, occ_agentId c, ba_accountId a)"
proof -
  from assms(2) obtain i where "ensureAccount db (occ_ownerId c) (occ_agentId c) (parent_occurrence i) (occ_dataClassification c) = Inr (db1, a)"
    unfolding ensureOccurrenceAccount_def by (auto simp: inverts)
  from ensureAccount_Inr [OF assms(1) this]
  have 1: "ledger_ok db1" "row_of account_key (occ_ownerId c, occ_agentId c, accountId (parent_occurrence i)) (wdb_accounts db1) = Some a"
    by blast+
  from ledger_account [OF this] have
    2: "account_ok a" "account_key a = (occ_ownerId c, occ_agentId c, accountId (parent_occurrence i))"
      "balanced a (children_of db1 (account_key a))" by auto
  then have "ba_accountId a = accountId (parent_occurrence i)" by (simp add: account_key_def)
  with 1 2 accountId_occurrence [OF 2(1,2)] show ?thesis by simp
qed

lemma reserveOccurrence_keeps:
  assumes ok: "ledger_ok db" and op: "reserveOccurrence db c l = Inr (db', r)"
  shows "ledger_ok db'"
proof -
  from op obtain db1 a where e: "ensureOccurrenceAccount db c = Inr (db1, a)"
    and rest: "db' = db1 \<or> (\<exists>reserved u. ba_status a = ba_active \<and>
      addCost (ba_reservedCostMicros a) (occ_estimatedCostMicros c) = Inr reserved \<and>
      updateAccount db1 a reserved (ba_spentCostMicros a) ba_active = Inr (db', u))"
    unfolding reserveOccurrence_def Let_def
    by (auto simp: inverts split: if_splits intro: account_status.exhaust)
  note a = ensureOccurrenceAccount_Inr [OF ok e]
  show ?thesis
  proof (cases "db' = db1")
    case False
    with rest obtain u where act: "ba_status a = ba_active" and est: "0 \<le> occ_estimatedCostMicros c"
      and up: "updateAccount db1 a (ba_reservedCostMicros a + occ_estimatedCostMicros c) (ba_spentCostMicros a) ba_active = Inr (db', u)"
      by (auto simp: addCost_Inr)
    have u: "u = a\<lparr>ba_reservedCostMicros := ba_reservedCostMicros a + occ_estimatedCostMicros c,
        ba_spentCostMicros := ba_spentCostMicros a, ba_status := ba_active, ba_revision := ba_revision a + 1\<rparr>"
      using updateAccount_Inr [OF _ _ up] a by blast
    from a have "balanced a (children_of db1 (account_key a))" "ba_parentKind a = kind_occurrence" by blast+
    then have "balanced u (children_of db1 (account_key a))" using act est by (simp add: u balanced_def)
    with account_write [OF _ _ up] a show ?thesis by blast
  qed (use a in simp)
qed

lemma settleOccurrenceBudget_keeps:
  assumes ok: "ledger_ok db" and op: "settleOccurrenceBudget db c s = Inr (db', r)"
  shows "ledger_ok db'"
proof -
  from op obtain db1 a where e: "ensureOccurrenceAccount db c = Inr (db1, a)"
    unfolding settleOccurrenceBudget_def Let_def by (auto simp: inverts)
  note a = ensureOccurrenceAccount_Inr [OF ok e]
  let ?ms = "children_of db1 (account_key a)"
  have k: "children db1 (occ_ownerId c) (occ_agentId c) (ba_accountId a) = ?ms" using a by (simp add: children_eq)
  from op e obtain reserved spent st u where
    ms: "list_all (\<lambda>m. \<not> is_outstanding m) ?ms" "list_all (\<lambda>m. mb_status m \<noteq> mb_unknown) ?ms"
    and up: "updateAccount db1 a reserved spent st = Inr (db', u)"
    and cost: "reserved = ba_reservedCostMicros a \<and> spent = ba_spentCostMicros a \<or>
      reserved = 0 \<and> spent = ba_spentCostMicros a + os_spentCostMicros s \<and> 0 \<le> os_spentCostMicros s"
    unfolding settleOccurrenceBudget_def Let_def childAllocationState_def k
    by (auto simp: inverts addCost_Inr is_outstanding_def list_all_iff list_ex_iff k split: if_splits)
  have u: "u = a\<lparr>ba_reservedCostMicros := reserved, ba_spentCostMicros := spent, ba_status := st, ba_revision := ba_revision a + 1\<rparr>"
    using updateAccount_Inr [OF _ _ up] a by blast
  from a have "balanced a ?ms" "ba_parentKind a = kind_occurrence" by blast+
  then have "balanced u ?ms" using ms cost no_children_held [OF ms(1)] by (auto simp: u balanced_def)
  with account_write [OF _ _ up] a show ?thesis by blast
qed

text \<open>Finalising releases what the Run had only reserved, and holds what is still open.\<close>

lemma release_children:
  fixes ms :: "allocation_row list"
  defines "ns \<equiv> map (\<lambda>m. if mb_status m = mb_reserved then m\<lparr>mb_status := mb_released\<rparr> else m) ms"
  shows "settled_total ns = settled_total ms" and "list_all allocation_ok ms \<Longrightarrow> list_all allocation_ok ns"
proof -
  show "settled_total ns = settled_total ms"
    unfolding ns_def by (induction ms) (auto simp: settled_cost_def)
  have "allocation_ok (m\<lparr>mb_status := mb_released\<rparr>)" if "allocation_ok m" "mb_status m = mb_reserved" for m
    using that parsed_instants [of m] parseAllocation_update [of m "m\<lparr>mb_status := mb_released\<rparr>"]
    by (auto simp: allocation_ok_def)
  then show "list_all allocation_ok ms \<Longrightarrow> list_all allocation_ok ns"
    unfolding ns_def by (auto simp: list_all_iff)
qed

lemma finalize_found_keeps:
  assumes ok: "ledger_ok db" and key: "account_key a = (scp_ownerId scope, scp_agentId scope, ba_accountId a)"
    and row: "row_of account_key (account_key a) (wdb_accounts db) = Some a" and kind: "ba_parentKind a = kind_run"
    and op: "finalize_found db scope a = Inr (db', r)"
  shows "ledger_ok db'"
proof -
  let ?f = "\<lambda>m. m\<lparr>mb_status := mb_released\<rparr>"
  let ?sel = "\<lambda>m. mb_ownerId m = scp_ownerId scope \<and> mb_agentId m = scp_agentId scope \<and>
      mb_accountId m = ba_accountId a \<and> mb_status m = mb_reserved"
  let ?db2 = "update_allocations db ?sel ?f" and ?k = "account_key a"
  note a = ledger_account [OF ok row]
  have aok: "account_ok a" and bal: "balanced a (children_of db ?k)" using a by blast+
  from op obtain n u where n: "outstandingChildReservation ?db2 (scp_ownerId scope) (scp_agentId scope) (ba_accountId a) = Inr n"
    and up: "updateAccount ?db2 a n (ba_spentCostMicros a)
      (finalized_account_status a (childAllocationState ?db2 (ba_accountId a) (scp_ownerId scope) (scp_agentId scope))) = Inr (db', u)"
    unfolding finalize_found_def Let_def by (auto simp: inverts)
  have d: "distinct (map account_key (wdb_accounts ?db2))" using ok by (simp add: ledger_ok_def)
  note u = updateAccount_row [OF d aok _ up, unfolded update_allocations_frame, OF row]
  have ch: "children_of ?db2 j = map (\<lambda>m. if ?sel m then ?f m else m) (children_of db j)" for j
    by (rule update_allocations_children) simp
  have ch_k: "children_of ?db2 ?k = map (\<lambda>m. if mb_status m = mb_reserved then ?f m else m) (children_of db ?k)"
    unfolding ch by (rule map_cong) (auto simp: children_of_def allocation_key_def key)
  have other: "children_of ?db2 j = children_of db j" if "j \<noteq> ?k" for j
    unfolding ch by (rule map_idI) (use that in \<open>auto simp: children_of_def allocation_key_def key\<close>)
  have db': "children_of db' j = children_of ?db2 j" "wdb_allocations db' = wdb_allocations ?db2" for j
    using u by (simp_all add: children_of_def)
  have nk: "n = held_total (children_of ?db2 ?k)" using outstanding_Inr [OF n] key by simp
  have unk: "list_all (\<lambda>m. mb_status m \<noteq> mb_unknown) (children_of ?db2 ?k)"
    if "finalized_account_status a (childAllocationState ?db2 (ba_accountId a) (scp_ownerId scope) (scp_agentId scope)) = ba_active"
    using that by (auto simp: finalized_account_status_def childAllocationState_def Let_def children_eq simp flip: key
        simp: list_ex_iff list_all_iff split: if_splits)
  have sp: "settled_total (children_of ?db2 ?k) = ba_spentCostMicros a"
    using bal kind release_children(1) [of "children_of db ?k"] unfolding ch_k balanced_def by simp
  have ub: "balanced u (children_of ?db2 ?k)"
  proof -
    have "ba_reservedCostMicros u = n \<and> ba_spentCostMicros u = ba_spentCostMicros a \<and> ba_status u =
      finalized_account_status a (childAllocationState ?db2 (ba_accountId a) (scp_ownerId scope) (scp_agentId scope))"
      by (simp add: conjunct1 [OF u])
    with nk unk sp show ?thesis by (auto simp: balanced_def)
  qed
  show ?thesis
  proof (rule ledger_write [OF ok, of _ u])
    show "wdb_accounts db' = put_row account_key u (wdb_accounts db)" using u by simp
    show "distinct (map allocation_key (wdb_allocations db'))"
      unfolding db' by (subst update_allocations_keys) (use ok in \<open>simp_all add: ledger_ok_def\<close>)
    have uk: "account_key u = ?k" using u by metis
    show "children_of db' j = children_of db j" if "j \<noteq> account_key u" for j using that other unfolding uk db' by blast
    show "list_all allocation_ok (children_of db' (account_key u))"
      unfolding uk db' ch_k by (rule release_children(2)) (rule ledger_children [OF ok])
    show "account_ok u" using u by blast
    show "balanced u (children_of db' (account_key u))" unfolding uk db' by (rule ub)
  qed
qed

lemma finalize_keeps:
  assumes ok: "ledger_ok db" and op: "finalizeAccount db scope inp = Inr (db', r)"
  shows "ledger_ok db'"
proof -
  let ?p = "parent_run (fi_runId inp)" and ?ow = "scp_ownerId scope" and ?ag = "scp_agentId scope"
  note w = op [unfolded finalizeAccount_def Let_def]
  from w obtain ex where ex: "readAccount db ?ow ?ag (accountId ?p) = Inr ex"
    by (cases "readAccount db ?ow ?ag (accountId ?p)") (auto simp: inverts)
  have "\<exists>db1 a. ledger_ok db1 \<and> row_of account_key (?ow, ?ag, accountId ?p) (wdb_accounts db1) = Some a \<and>
     finalize_found db1 scope a = Inr (db', r)"
  proof (cases ex)
    case None
    with readAccount_Inr [OF ex] have none: "row_of account_key (?ow, ?ag, accountId ?p) (wdb_accounts db) = None" by simp
    from w ex None obtain c db1 a where ins: "insertAccount db ?ow ?ag ?p c = Inr (db1, a)"
      and rest: "finalize_found db1 scope a = Inr (db', r)" by (auto simp: inverts)
    from insertAccount_Inr [OF ok none ins] rest show ?thesis by blast
  next
    case (Some a)
    with w ex have "finalize_found db scope a = Inr (db', r)" by (auto simp: inverts)
    with ok readAccount_Inr [OF ex] Some show ?thesis by blast
  qed
  then obtain db1 a where 1: "ledger_ok db1" "row_of account_key (?ow, ?ag, accountId ?p) (wdb_accounts db1) = Some a"
    and f: "finalize_found db1 scope a = Inr (db', r)" by blast
  from ledger_account [OF 1] have key: "account_key a = (?ow, ?ag, accountId ?p)" and aok: "account_ok a" by blast+
  then have id: "ba_accountId a = accountId ?p" by (simp add: account_key_def)
  from aok account_kind [OF _ id] have "ba_parentKind a = kind_run" by (simp add: account_ok_def)
  with finalize_found_keeps [OF 1(1) _ _ _ f] 1(2) key id show ?thesis by simp
qed

subsection \<open>The ledger as a transition system\<close>

lemma execute_budget_keeps:
  assumes ok: "ledger_ok db" and op: "execute_budget db scope request = Inr (db', reply)"
  shows "ledger_ok db'"
proof -
  from op have scope: "parseScope scope = Inr scope" and req: "execute_request db scope request = Inr (db', reply)"
    unfolding execute_budget_def using parseScope_Inr by (auto simp: inverts)
  note defs = changed_def runImmediateTransaction_def inverts
  show ?thesis
  proof (cases request)
    case (budget_read p l a)
    with req ok show ?thesis by (auto simp: defs)
  next
    case (budget_reserve inp)
    with req obtain r where "parseReserve inp = Inr ()" "reserveWithinTransaction db scope inp = Inr (db', r)" by (auto simp: defs)
    with reserve_keeps [OF ok scope] show ?thesis by blast
  next
    case (budget_markStarted inp)
    with req obtain r where "parseMarkStarted inp = Inr ()" "markStartedWithinTransaction db scope inp = Inr (db', r)" by (auto simp: defs)
    with markStarted_keeps [OF ok] show ?thesis by blast
  next
    case (budget_settle inp)
    with req obtain r where "parseSettlement inp = Inr ()" "settleWithinTransaction db scope inp = Inr (db', r)" by (auto simp: defs)
    with settle_keeps [OF ok] show ?thesis by blast
  next
    case (budget_markUnknown inp)
    with req obtain r where "parseUnknown inp = Inr ()" "markUnknownWithinTransaction db scope inp = Inr (db', r)" by (auto simp: defs)
    with markUnknown_keeps [OF ok] show ?thesis by blast
  next
    case (budget_releaseReserved inp)
    with req obtain r where "releaseReservedWithinTransaction db scope inp = Inr (db', r)" by (auto simp: defs)
    with releaseReserved_keeps [OF ok] show ?thesis by blast
  next
    case (budget_finalize inp)
    with req obtain r where "finalizeAccount db scope inp = Inr (db', r)" by (auto simp: defs)
    with finalize_keeps [OF ok] show ?thesis by blast
  qed
qed

text \<open>
  Steps of the store as the ledger sees them: a request of the model budget port, the admission or the
  settlement of a background occurrence, and everything that leaves the two tables alone.
\<close>

inductive ledger_step :: "work_db \<Rightarrow> work_db \<Rightarrow> bool" where
  step_request: "execute_budget db scope request = Inr (db', reply) \<Longrightarrow> ledger_step db db'"
| step_admit: "reserveOccurrence db c l = Inr (db', r) \<Longrightarrow> ledger_step db db'"
| step_settle: "settleOccurrenceBudget db c s = Inr (db', r) \<Longrightarrow> ledger_step db db'"
| step_elsewhere: "wdb_accounts db' = wdb_accounts db \<Longrightarrow> wdb_allocations db' = wdb_allocations db \<Longrightarrow> ledger_step db db'"

lemma ledger_ok_cong:
  "wdb_accounts db' = wdb_accounts db \<Longrightarrow> wdb_allocations db' = wdb_allocations db \<Longrightarrow> ledger_ok db' = ledger_ok db"
  by (simp add: ledger_ok_def children_of_def)

lemma ledger_step_keeps: "ledger_step db db' \<Longrightarrow> ledger_ok db \<Longrightarrow> ledger_ok db'"
proof (induction rule: ledger_step.induct)
  case (step_request db scope request db' reply)
  then show ?case by (blast intro: execute_budget_keeps)
next
  case (step_admit db c l db' r)
  then show ?case by (blast intro: reserveOccurrence_keeps)
next
  case (step_settle db c s db' r)
  then show ?case by (blast intro: settleOccurrenceBudget_keeps)
next
  case (step_elsewhere db' db)
  then show ?case using ledger_ok_cong by blast
qed

definition empty_ledger :: "work_db \<Rightarrow> bool" where
  "empty_ledger db \<longleftrightarrow> wdb_accounts db = [] \<and> wdb_allocations db = []"

lemma reachable_ledger_ok: "ledger_step\<^sup>*\<^sup>* db db' \<Longrightarrow> empty_ledger db \<Longrightarrow> ledger_ok db'"
proof (induction rule: rtranclp_induct)
  case base
  then show ?case by (simp add: empty_ledger_def ledger_ok_def)
next
  case (step y z)
  from ledger_step_keeps [OF step.hyps(2) step.IH [OF step.prems]] show ?case .
qed

text \<open>
  C7. The model budget balances. Whatever requests, admissions and settlements the ledger has gone
  through since it was empty, every account of a Run or a memory projection holds exactly what its open
  allocations reserved and has spent exactly what its settled allocations cost; the account of a
  background occurrence holds and has spent at least that much, its total never exceeds the largest safe
  integer, and an account that is still active has no allocation of unknown outcome.
\<close>

theorem ledger_balances:
  assumes "ledger_step\<^sup>*\<^sup>* db0 db" and "empty_ledger db0" and "a \<in> set (wdb_accounts db)"
  shows "let ms = children_of db (account_key a) in
    held_total ms \<le> ba_reservedCostMicros a \<and> settled_total ms \<le> ba_spentCostMicros a \<and>
    (ba_parentKind a \<noteq> kind_occurrence \<longrightarrow>
       ba_reservedCostMicros a = held_total ms \<and> ba_spentCostMicros a = settled_total ms) \<and>
    ba_reservedCostMicros a + ba_spentCostMicros a \<le> MAX_SAFE_INTEGER \<and>
    (ba_status a = ba_active \<longrightarrow> list_all (\<lambda>m. mb_status m \<noteq> mb_unknown) ms)"
proof -
  from reachable_ledger_ok [OF assms(1,2)] assms(3)
  have "account_ok a" "balanced a (children_of db (account_key a))" by (simp_all add: ledger_ok_def list_all_iff)
  then show ?thesis by (simp add: account_ok_def balanced_def)
qed

subsection \<open>Well-formed rows never fail to parse\<close>

lemma reservation_sum_ok:
  "list_all is_outstanding ms \<Longrightarrow> list_all allocation_ok ms \<Longrightarrow> 0 \<le> acc \<Longrightarrow> acc + held_total ms \<le> MAX_SAFE_INTEGER \<Longrightarrow>
     reservation_sum ms acc = Inr (acc + held_total ms)"
proof (induction ms arbitrary: acc)
  case (Cons m ms)
  have m: "is_safe_integer (mb_estimatedCostMicros m)" "0 \<le> mb_estimatedCostMicros m"
    using allocation_okD Cons.prems(2) by simp_all
  have "list_all (\<lambda>m. 0 \<le> mb_estimatedCostMicros m) ms"
    using Cons.prems(2) allocation_okD by (auto simp: list_all_iff)
  from held_total_nonneg [OF this] Cons m
  have "addCost acc (mb_estimatedCostMicros m) = Inr (acc + mb_estimatedCostMicros m)"
    by (simp add: addCost_Inr held_cost_def)
  with Cons m show ?case by (simp add: held_cost_def add.assoc inverts)
qed simp

lemma safe_of_account: "account_ok a \<Longrightarrow> 0 \<le> ba_reservedCostMicros a \<and> 0 \<le> ba_spentCostMicros a \<and>
    ba_reservedCostMicros a \<le> MAX_SAFE_INTEGER \<and> ba_spentCostMicros a \<le> MAX_SAFE_INTEGER"
  unfolding account_ok_def parseAccount_def by (auto simp: inverts is_safe_integer_def MAX_SAFE_INTEGER_def)

lemma outstanding_ok:
  assumes ok: "ledger_ok db"
  shows "outstandingChildReservation db ow ag i = Inr (held_total (children_of db (ow, ag, i)))"
proof (cases "row_of account_key (ow, ag, i) (wdb_accounts db)")
  case None
  then show ?thesis
    by (simp add: outstandingChildReservation_def children_eq ledger_no_account_no_children [OF ok])
next
  case (Some a)
  let ?ms = "children_of db (ow, ag, i)"
  from ledger_account [OF ok Some] have "account_ok a" "balanced a ?ms" by blast+
  then have "held_total ?ms \<le> MAX_SAFE_INTEGER" using safe_of_account by (force simp: balanced_def)
  moreover have "list_all allocation_ok (filter is_outstanding ?ms)"
    using ledger_children [OF ok, of "(ow, ag, i)"] by (auto simp: list_all_iff)
  ultimately show ?thesis
    using reservation_sum_ok [of "filter is_outstanding ?ms" 0]
    by (simp add: outstandingChildReservation_def children_eq held_total_filter list_all_iff)
qed

lemma held_cost_member:
  assumes "list_all allocation_ok ms" and "m \<in> set ms"
  shows "held_cost m \<le> held_total ms"
proof -
  have "list_all (\<lambda>m. 0 \<le> held_cost m) ms" using assms(1) allocation_okD by (auto simp: list_all_iff held_cost_def)
  with assms(2) show ?thesis
  proof (induction ms)
    case (Cons x xs)
    moreover have "0 \<le> held_total xs" using Cons.prems(2) by (induction xs) auto
    ultimately show ?case by auto
  qed simp
qed

text \<open>
  C10. The rows of the ledger are well typed for as long as the store lives: every account and every
  allocation passes its parser when it is read back, the reservation of the open children of an account
  can always be summed and is covered by what the account holds, and the subtraction that gives an open
  allocation's estimate back never underflows. The corresponding error paths of the code are dead.
\<close>

theorem ledger_reads_succeed:
  assumes "ledger_step\<^sup>*\<^sup>* db0 db" and "empty_ledger db0"
  shows "readAccount db ow ag i = Inr (row_of account_key (ow, ag, i) (wdb_accounts db)) \<and>
    readAllocation db ow ag i x = Inr (row_of allocation_key ((ow, ag, i), x) (wdb_allocations db)) \<and>
    outstandingChildReservation db ow ag i = Inr (held_total (children_of db (ow, ag, i))) \<and>
    (\<forall>m. readAllocation db ow ag i x = Inr (Some m) \<longrightarrow> (\<exists>a. readAccount db ow ag i = Inr (Some a) \<and>
       held_total (children_of db (ow, ag, i)) \<le> ba_reservedCostMicros a \<and>
       (is_outstanding m \<longrightarrow> (\<exists>n. subtractCost (ba_reservedCostMicros a) (mb_estimatedCostMicros m) = Inr n))))"
proof -
  note ok = reachable_ledger_ok [OF assms]
  have acc: "readAccount db ow ag i = Inr (row_of account_key (ow, ag, i) (wdb_accounts db))"
    using ledger_account [OF ok] by (cases "row_of account_key (ow, ag, i) (wdb_accounts db)")
      (auto simp: readAccount_def account_ok_def)
  have all: "readAllocation db ow ag i x = Inr (row_of allocation_key ((ow, ag, i), x) (wdb_allocations db))"
    using ledger_allocation [OF ok] by (cases "row_of allocation_key ((ow, ag, i), x) (wdb_allocations db)")
      (auto simp: readAllocation_def allocation_ok_def)
  have "\<exists>a. readAccount db ow ag i = Inr (Some a) \<and> held_total (children_of db (ow, ag, i)) \<le> ba_reservedCostMicros a \<and>
      (is_outstanding m \<longrightarrow> (\<exists>n. subtractCost (ba_reservedCostMicros a) (mb_estimatedCostMicros m) = Inr n))"
    if row: "row_of allocation_key ((ow, ag, i), x) (wdb_allocations db) = Some m" for m
  proof -
    note m = ledger_allocation [OF ok row]
    obtain a where a: "row_of account_key (ow, ag, i) (wdb_accounts db) = Some a"
      using ledger_no_account_no_children [OF ok, of "(ow, ag, i)"] m
      by (cases "row_of account_key (ow, ag, i) (wdb_accounts db)") auto
    from ledger_account [OF ok a] have aok: "account_ok a" and bal: "balanced a (children_of db (ow, ag, i))" by blast+
    have "mb_estimatedCostMicros m \<le> ba_reservedCostMicros a" if "is_outstanding m"
      using held_cost_member [OF ledger_children [OF ok]] m bal that by (fastforce simp: held_cost_def balanced_def)
    with allocation_okD [of m] m safe_of_account [OF aok] have "is_outstanding m \<Longrightarrow>
      subtractCost (ba_reservedCostMicros a) (mb_estimatedCostMicros m) = Inr (ba_reservedCostMicros a - mb_estimatedCostMicros m)"
      by (simp add: subtractCost_Inr)
    with acc a bal show ?thesis by (auto simp: balanced_def)
  qed
  with acc all outstanding_ok [OF ok] show ?thesis by simp
qed

subsection \<open>Limits\<close>

definition account_cost :: "account_row \<Rightarrow> int" where
  "account_cost a = ba_reservedCostMicros a + ba_spentCostMicros a"

text \<open>What the accounts that satisfy a condition hold and have spent.\<close>

definition used_cost :: "(account_row \<Rightarrow> bool) \<Rightarrow> account_row list \<Rightarrow> int" where
  "used_cost p as = sum_list (map (\<lambda>a. if p a then account_cost a else 0) as)"

definition account_of :: "OwnerId \<Rightarrow> AgentId \<Rightarrow> account_row \<Rightarrow> bool" where
  "account_of ow ag a \<longleftrightarrow> ba_ownerId a = ow \<and> ba_agentId a = ag"

lemma used_cost_simps [simp]: "used_cost p [] = 0"
  "used_cost p (a # as) = (if p a then account_cost a else 0) + used_cost p as"
  by (simp_all add: used_cost_def)

lemma usage_sum_Inr:
  "usage_sum (filter p as) u = Inr v \<Longrightarrow> usg_global v = usg_global u + used_cost p as \<and>
     usg_byClassification v c = usg_byClassification u c + used_cost (\<lambda>a. p a \<and> ba_dataClassification a = c) as"
proof (induction as arbitrary: u)
  case (Cons a as)
  show ?case
  proof (cases "p a")
    case True
    with Cons.prems obtain g n where "g = usg_global u + account_cost a"
      "n = usg_byClassification u (ba_dataClassification a) + account_cost a"
      "usage_sum (filter p as) \<lparr>usg_global = g, usg_byClassification = (usg_byClassification u)(ba_dataClassification a := n)\<rparr> = Inr v"
      by (auto simp: inverts addCost_Inr account_cost_def)
    with Cons.IH True show ?thesis by fastforce
  next
    case False
    with Cons show ?thesis by simp
  qed
qed simp

lemma readUsage_Inr:
  "readUsage db ow ag = Inr v \<Longrightarrow> usg_global v = used_cost (account_of ow ag) (wdb_accounts db) \<and>
     usg_byClassification v c = used_cost (\<lambda>a. account_of ow ag a \<and> ba_dataClassification a = c) (wdb_accounts db)"
  unfolding readUsage_def using usage_sum_Inr [of "account_of ow ag"] by (fastforce simp: account_of_def [abs_def])

lemma used_cost_put_row:
  assumes "distinct (map account_key as)" and "row_of account_key (account_key u) as = Some a" and "p u = p a"
  shows "used_cost p (put_row account_key u as) = used_cost p as + (if p a then account_cost u - account_cost a else 0)"
proof -
  have a: "account_key a = account_key u" "a \<in> set as" using row_of_SomeD [OF assms(2)] by simp_all
  have "put_row account_key u as = map (\<lambda>z. if account_key z = account_key a then u else z) as"
    using assms(2) a(1) by (simp add: put_row_def has_row_iff)
  then have "used_cost p (put_row account_key u as) = used_cost p as - (if p a then account_cost a else 0) + (if p u then account_cost u else 0)"
    using sum_list_replace [OF assms(1) a(2), where g = "\<lambda>a. if p a then account_cost a else 0" and y = u]
    unfolding used_cost_def by simp
  with assms(3) show ?thesis by simp
qed

lemma budget_outcome_replayed: "budget_outcome a m b = Inr r \<Longrightarrow> br_replayed r = b"
  unfolding budget_outcome_def by (auto simp: inverts)

lemma reserve_not_replayed:
  assumes "reserveWithinTransaction db scope inp = Inr (db', r)" and "\<not> br_replayed r"
  defines "k \<equiv> (scp_ownerId scope, scp_agentId scope, accountId (account_parent_of (rv_parent inp)))"
  shows "row_of allocation_key (k, rv_operationKey inp) (wdb_allocations db) = None" and
    "reserve_new db scope inp (row_of account_key k (wdb_accounts db)) = Inr (db', r)"
proof -
  let ?i = "accountId (account_parent_of (rv_parent inp))"
  note w = assms(1) [unfolded reserveWithinTransaction_def Let_def]
  from w obtain ex where ex: "readAccount db (scp_ownerId scope) (scp_agentId scope) ?i = Inr ex"
    by (cases "readAccount db (scp_ownerId scope) (scp_agentId scope) ?i") (auto simp: inverts)
  from w obtain m where m: "readAllocation db (scp_ownerId scope) (scp_agentId scope) ?i (rv_operationKey inp) = Inr m"
    by (cases "readAllocation db (scp_ownerId scope) (scp_agentId scope) ?i (rv_operationKey inp)") (auto simp: inverts)
  have none: "m = None"
  proof (cases m)
    case (Some x)
    with w ex m obtain a where "budget_outcome a x True = Inr r" by (auto simp: inverts split: option.splits)
    with budget_outcome_replayed assms(2) show ?thesis by blast
  qed simp
  with w ex m have "reserve_new db scope inp ex = Inr (db', r)" by (auto simp: inverts)
  with readAccount_Inr [OF ex] readAllocation_Inr [OF m] none show
    "row_of allocation_key (k, rv_operationKey inp) (wdb_allocations db) = None"
    "reserve_new db scope inp (row_of account_key k (wdb_accounts db)) = Inr (db', r)" by (simp_all add: k_def)
qed

text \<open>
  C8. A reservation never takes the budget past its limits. When a reservation that is not the replay of
  an earlier one is accepted, then afterwards, for a Run or a memory projection, what its account holds
  and has spent is within the account limit, what all accounts of the owner and agent hold and have spent
  is within the global limit, and what those of its data classification do within the limit of that
  classification; for a background occurrence the open allocations are covered by what its admission had
  reserved.
\<close>

theorem reservation_within_limits:
  assumes "ledger_step\<^sup>*\<^sup>* db0 db" and "empty_ledger db0"
    and "execute_budget db scope (budget_reserve inp) = Inr (db', reply_result r)" and "\<not> br_replayed r"
  shows "let ow = scp_ownerId scope; ag = scp_agentId scope; l = rv_limits inp; c = rv_dataClassification inp;
      k = (ow, ag, accountId (account_parent_of (rv_parent inp))) in
    \<exists>a. row_of account_key k (wdb_accounts db') = Some a \<and>
      (case rv_parent inp of
         active_occurrence _ \<Rightarrow> held_total (children_of db' k) \<le> ba_reservedCostMicros a
       | _ \<Rightarrow> account_cost a \<le> bl_accountCostMicros l \<and>
           used_cost (account_of ow ag) (wdb_accounts db') \<le> bl_globalCostMicros l \<and>
           used_cost (\<lambda>a. account_of ow ag a \<and> ba_dataClassification a = c) (wdb_accounts db')
             \<le> bl_perClassificationCostMicros l c)"
proof -
  let ?ow = "scp_ownerId scope" and ?ag = "scp_agentId scope" and ?c = "rv_dataClassification inp"
  let ?k = "(?ow, ?ag, accountId (account_parent_of (rv_parent inp)))"
  note ok = reachable_ledger_ok [OF assms(1,2)]
  note ok' = execute_budget_keeps [OF ok assms(3)]
  from assms(3) have op: "reserveWithinTransaction db scope inp = Inr (db', r)"
    unfolding execute_budget_def using parseScope_Inr
    by (auto simp: changed_def runImmediateTransaction_def inverts)
  note new = reserve_not_replayed [OF op assms(4)]
  show ?thesis
  proof (rule reserve_new_Inr [OF ok refl new(1) refl new(2)])
    fix db1 a n db3 u
    assume a: "ledger_ok db1" "row_of account_key ?k (wdb_accounts db1) = Some a" "wdb_allocations db1 = wdb_allocations db"
        "account_key a = ?k" "account_ok a"
      and n: "next_reserved db1 scope inp a = Inr n" and cl: "ba_dataClassification a = ?c"
      and up: "updateAccount (db1\<lparr>wdb_allocations := wdb_allocations db1 @ [(new_allocation scope inp)\<lparr>mb_accountId := ba_accountId a\<rparr>]\<rparr>)
        a n (ba_spentCostMicros a) ba_active = Inr (db', u)"
    have d: "distinct (map account_key (wdb_accounts db1))" using a(1) by (simp add: ledger_ok_def)
    note up' = updateAccount_row [OF _ a(5) _ up, simplified, OF d a(2) [folded a(4)]]
    have u: "u = a\<lparr>ba_reservedCostMicros := n, ba_status := ba_active, ba_revision := ba_revision a + 1\<rparr>"
      using up' by blast
    from up' a(4) have key: "account_key u = ?k" by metis
    have acc: "wdb_accounts db' = put_row account_key u (wdb_accounts db1)" using up' by simp
    have row: "row_of account_key ?k (wdb_accounts db') = Some u" by (simp add: acc row_of_put_row key)
    have p: "account_of ?ow ?ag a" "account_of ?ow ?ag u" using a(4) key by (simp_all add: account_of_def account_key_def)
    have fields: "account_cost u = n + ba_spentCostMicros a" "ba_dataClassification u = ?c"
      by (simp_all add: u account_cost_def cl)
    have used: "used_cost q (wdb_accounts db') = used_cost q (wdb_accounts db1) + (n - ba_reservedCostMicros a)"
      if "q a" "q u" for q
      using used_cost_put_row [OF d, of u a q] a(2) key fields that by (simp add: acc account_cost_def)
    from row ledger_account [OF ok' row] next_reserved_Inr [OF n] a(4) p cl fields used readUsage_Inr [of db1 ?ow ?ag]
    show ?thesis
      by (cases "rv_parent inp") (auto simp: Let_def balanced_def account_cost_def account_key_def)
  qed
qed

subsection \<open>A settlement is charged once\<close>

lemma budget_authority_cong:
  "wdb_authorityLeases db' = wdb_authorityLeases db \<Longrightarrow> wdb_deployments db' = wdb_deployments db \<Longrightarrow>
     budget_authority db' scope at = budget_authority db scope at"
  by (simp add: budget_authority_def authority_join_def cong: option.case_cong)

lemma assertAccountParent_cong:
  "ba_parentKind u = ba_parentKind a \<Longrightarrow> ba_runId u = ba_runId a \<Longrightarrow> ba_occurrenceId u = ba_occurrenceId a \<Longrightarrow>
     ba_projectionJobId u = ba_projectionJobId a \<Longrightarrow> assertAccountParent u p = assertAccountParent a p"
  by (cases p) simp_all

lemma budget_outcome_again:
  "budget_outcome a m b = Inr r \<Longrightarrow> \<exists>r'. budget_outcome a m c = Inr r' \<and> br_replayed r' = c \<and>
     br_account r' = br_account r \<and> br_allocation r' = br_allocation r"
  unfolding budget_outcome_def by (auto simp: inverts)

text \<open>What a settlement leaves in the ledger: the account and the settled allocation it reports.\<close>

lemma settle_leaves:
  assumes ok: "ledger_ok db" and inp: "parseSettlement inp = Inr ()"
    and op: "settleWithinTransaction db scope inp = Inr (db', r)"
  shows "\<exists>a m b. lookup_allocation db' scope (se_parent inp) (se_operationKey inp) = Inr (a, m) \<and>
    mb_status m = mb_settled \<and> mb_actualCostMicros m = Some (se_actualCostMicros inp) \<and>
    budget_outcome a m b = Inr r \<and> budget_authority db' scope (se_settledAt inp) = Inr () \<and>
    wdb_headroom db' = wdb_headroom db"
proof -
  let ?p = "se_parent inp" and ?x = "se_operationKey inp"
  let ?k = "(scp_ownerId scope, scp_agentId scope, accountId ?p)"
  let ?f = "\<lambda>z. z\<lparr>mb_status := mb_settled, mb_actualCostMicros := Some (se_actualCostMicros inp),
      mb_settledAt := Some (se_settledAt inp), mb_reasonCode := None\<rparr>"
  let ?sel = "\<lambda>z. allocation_selected scope ?p ?x z \<and> mb_status z \<in> {mb_reserved, mb_started, mb_unknown}"
  from op obtain a m where lk: "lookup_allocation db scope ?p ?x = Inr (a, m)"
    and auth: "budget_authority db scope (se_settledAt inp) = Inr ()"
    unfolding settleWithinTransaction_def by (auto simp: inverts)
  note w = op [unfolded settleWithinTransaction_def lk auth, simplified]
  note l = lookup_allocation_Inr [OF ok lk]
  show ?thesis
  proof (cases "mb_status m = mb_settled")
    case True
    with w lk auth show ?thesis by (auto simp: inverts)
  next
    case False
    with w obtain reserved spent db1 u where m: "mb_status m \<in> {mb_started, mb_unknown}"
      and up: "updateAccount db a reserved spent (settled_account_status db scope inp a m) = Inr (db1, u)"
      and out: "allocation_outcome (update_allocations db1 ?sel ?f) scope ?p ?x u = Inr (db', r)" by (auto simp: inverts)
    from allocation_outcome_db [OF out] have db': "db' = update_allocations db1 ?sel ?f" .
    note u = updateAccount_Inr [OF ok l(1) [folded l(5)] up]
    have ok': "ledger_ok db'" by (rule settle_keeps [OF ok inp op])
    from out obtain m' where m': "readAllocation db' (scp_ownerId scope) (scp_agentId scope) (accountId ?p) ?x = Inr (Some m')"
      and r: "budget_outcome u m' False = Inr r"
      unfolding allocation_outcome_def db' by (auto simp: inverts split: option.splits)
    have row': "row_of allocation_key (?k, ?x) (wdb_allocations db') = Some m'" using readAllocation_Inr [OF m'] by simp
    have db1: "wdb_allocations db1 = wdb_allocations db" using u by simp
    have "?f m \<in> set (wdb_allocations db')"
    proof -
      have "?sel m" using m l(8) by (auto simp: allocation_selected_iff)
      moreover have "m \<in> set (wdb_allocations db)" using l(7) by (simp add: children_of_def)
      ultimately show ?thesis unfolding db' update_allocations_def by (force simp: db1)
    qed
    moreover have "allocation_key (?f m) = (?k, ?x)" using l(8) by simp
    ultimately have mf: "m' = ?f m"
      using ok' row_of_eq_iff [of allocation_key "wdb_allocations db'" "(?k, ?x)"] row' by (auto simp: ledger_ok_def)
    have acc: "wdb_accounts db' = put_row account_key u (wdb_accounts db)" using u unfolding db' by simp
    have key: "account_key u = ?k" using u l(5) by metis
    have rowu: "row_of account_key ?k (wdb_accounts db') = Some u" by (simp add: acc row_of_put_row key)
    from ledger_account [OF ok' this] have pu: "readAccount db' (scp_ownerId scope) (scp_agentId scope) (accountId ?p) = Inr (Some u)"
      by (auto simp: readAccount_def rowu account_ok_def)
    have "assertAccountParent a ?p = Inr ()" using lk unfolding lookup_allocation_def by (auto simp: inverts split: option.splits)
    moreover have "u = a\<lparr>ba_reservedCostMicros := reserved, ba_spentCostMicros := spent,
        ba_status := settled_account_status db scope inp a m, ba_revision := ba_revision a + 1\<rparr>" using u by blast
    then have "assertAccountParent u ?p = assertAccountParent a ?p" by (intro assertAccountParent_cong) simp_all
    ultimately have lk': "lookup_allocation db' scope ?p ?x = Inr (u, m')"
      by (simp add: lookup_allocation_def pu m')
    have frame: "wdb_authorityLeases db' = wdb_authorityLeases db" "wdb_deployments db' = wdb_deployments db" "wdb_headroom db' = wdb_headroom db"
      using u unfolding db' update_allocations_def by simp_all
    have auth': "budget_authority db' scope (se_settledAt inp) = Inr ()"
      unfolding budget_authority_cong [OF frame(1,2)] by (rule auth)
    have "mb_status m' = mb_settled" "mb_actualCostMicros m' = Some (se_actualCostMicros inp)" by (simp_all add: mf)
    with lk' r auth' frame(3) show ?thesis by blast
  qed
qed

text \<open>
  C9. The cost of a model call is charged exactly once. After a settlement was accepted, the same request
  is answered again with the same account and the same allocation, marked as a replay, and changes
  nothing; a request that names another cost for the same operation is refused.
\<close>

theorem settlement_charged_once:
  assumes "ledger_step\<^sup>*\<^sup>* db0 db" and "empty_ledger db0"
    and "execute_budget db scope (budget_settle inp) = Inr (db', reply_result r)"
  shows "(\<exists>r'. execute_budget db' scope (budget_settle inp) = Inr (db', reply_result r') \<and> br_replayed r' \<and>
      br_account r' = br_account r \<and> br_allocation r' = br_allocation r) \<and>
    (\<forall>n. n \<noteq> se_actualCostMicros inp \<longrightarrow>
      isl (execute_budget db' scope (budget_settle (inp\<lparr>se_actualCostMicros := n\<rparr>))))"
proof -
  note ok = reachable_ledger_ok [OF assms(1,2)]
  note defs = changed_def runImmediateTransaction_def inverts
  from assms(3) have scope: "parseScope scope = Inr scope" and inp: "parseSettlement inp = Inr ()" and room: "wdb_headroom db"
    and op: "settleWithinTransaction db scope inp = Inr (db', r)"
    unfolding execute_budget_def using parseScope_Inr by (auto simp: defs)
  from settle_leaves [OF ok inp op] obtain a m b where
    lk: "lookup_allocation db' scope (se_parent inp) (se_operationKey inp) = Inr (a, m)"
    and m: "mb_status m = mb_settled" "mb_actualCostMicros m = Some (se_actualCostMicros inp)"
    and out: "budget_outcome a m b = Inr r" and auth: "budget_authority db' scope (se_settledAt inp) = Inr ()"
    and room': "wdb_headroom db' = wdb_headroom db" by blast
  from budget_outcome_again [OF out] obtain r' where r': "budget_outcome a m True = Inr r'" "br_replayed r'"
    "br_account r' = br_account r" "br_allocation r' = br_allocation r" by blast
  have "execute_budget db' scope (budget_settle inp) = Inr (db', reply_result r')"
    by (simp add: execute_budget_def scope inp settleWithinTransaction_def lk m auth r' room room' defs)
  moreover have "isl (execute_budget db' scope (budget_settle (inp\<lparr>se_actualCostMicros := n\<rparr>)))"
    if "n \<noteq> se_actualCostMicros inp" for n
  proof (cases "execute_budget db' scope (budget_settle (inp\<lparr>se_actualCostMicros := n\<rparr>))")
    case (Inr y)
    with that m have False by (auto simp: execute_budget_def scope settleWithinTransaction_def lk auth defs)
    then show ?thesis ..
  qed simp
  ultimately show ?thesis using r' by blast
qed

section \<open>A concrete ledger\<close>

definition example_budget_scope :: budget_scope where
  "example_budget_scope = \<lparr>scp_ownerId = ''o'', scp_agentId = ''a'',
     scp_authority = scp_authority (example_dispatch_scope ''w1''), scp_leaseId = ''al'', scp_leaseFencingToken = 1\<rparr>"

text \<open>The Run of the example, claimed by one consumer, with an empty ledger; then one model call of it.\<close>

definition example_budget_db :: work_db where
  "example_budget_db = example_work_db\<lparr>wdb_executionLeases :=
     [\<lparr>xl_ownerId = ''o'', xl_agentId = ''a'', xl_runId = ''r'', xl_revision = 2,
        xl_authorityLeaseId = ''al'', xl_deploymentId = ''d'', xl_authorityEpoch = 3, xl_fencingToken = 1,
        xl_consumerId = ''w1'', xl_executionLeaseId = ''x1'', xl_claimedAt = ''2026-01-01T00:05:00.000Z'',
        xl_initialExpiresAt = ''2026-01-01T00:06:00.000Z'', xl_expiresAt = ''2026-01-01T00:06:00.000Z'',
        xl_releasedAt = None\<rparr>]\<rparr>"

definition example_reserve :: reserve_input where
  "example_reserve =
     \<lparr>rv_parent = active_run ''r'' \<lparr>xc_executionLeaseId = ''x1'', xc_expectedLeaseRevision = 2, xc_authorityLeaseId = ''al'',
        xc_authorityFencingToken = 1, xc_deploymentId = ''d'', xc_authorityEpoch = 3, xc_fencingToken = 1, xc_consumerId = ''w1''\<rparr>,
      rv_operationKey = ''c1'', rv_modelRef = ''model'', rv_dataClassification = class_private, rv_estimatedCostMicros = 400,
      rv_limits = \<lparr>bl_accountCostMicros = 1000, bl_globalCostMicros = 5000, bl_perClassificationCostMicros = (\<lambda>_. 2000)\<rparr>,
      rv_reservedAt = ''2026-01-01T00:05:10.000Z''\<rparr>"

definition example_start :: start_input where
  "example_start = \<lparr>sti_parent = rv_parent example_reserve, sti_operationKey = ''c1'', sti_startedAt = ''2026-01-01T00:05:20.000Z''\<rparr>"

definition example_settle :: settlement_input where
  "example_settle = \<lparr>se_parent = parent_run ''r'', se_operationKey = ''c1'', se_actualCostMicros = 350,
     se_settledAt = ''2026-01-01T00:05:30.000Z''\<rparr>"

definition example_account :: account_row where
  "example_account = \<lparr>ba_ownerId = ''o'', ba_agentId = ''a'', ba_accountId = ''run:r'', ba_parentKind = kind_run,
     ba_runId = Some ''r'', ba_occurrenceId = None, ba_projectionJobId = None, ba_dataClassification = class_private,
     ba_reservedCostMicros = 400, ba_spentCostMicros = 0, ba_status = ba_active, ba_revision = 1\<rparr>"

definition example_reserved_db :: work_db where
  "example_reserved_db = example_budget_db\<lparr>wdb_accounts := [example_account],
     wdb_allocations := [new_allocation example_budget_scope example_reserve]\<rparr>"

definition example_started_db :: work_db where
  "example_started_db = example_reserved_db\<lparr>wdb_allocations :=
     [(new_allocation example_budget_scope example_reserve)\<lparr>mb_status := mb_started,
        mb_startedAt := Some ''2026-01-01T00:05:20.000Z''\<rparr>]\<rparr>"

text \<open>A request that answers with a result that is not a replay and leaves the given store.\<close>

definition answers :: "work_db \<Rightarrow> budget_request \<Rightarrow> work_db \<Rightarrow> bool" where
  "answers db q db' = (case execute_budget db example_budget_scope q of
     Inl _ \<Rightarrow> False
   | Inr (d, reply) \<Rightarrow> d = db' \<and> (case reply of reply_result r \<Rightarrow> \<not> br_replayed r | _ \<Rightarrow> False))"

lemma answersE:
  assumes "answers db q db'"
  obtains r where "execute_budget db example_budget_scope q = Inr (db', reply_result r)" and "\<not> br_replayed r"
proof (cases "execute_budget db example_budget_scope q")
  case (Inr y)
  obtain d reply where y: "y = (d, reply)" by (cases y)
  with Inr assms that show thesis by (cases reply) (auto simp: answers_def)
qed (use assms in \<open>simp add: answers_def\<close>)

lemma answers_step: "answers db q db' \<Longrightarrow> ledger_step db db'"
  by (erule answersE) (rule step_request)

lemma example_reserve_answers: "answers example_budget_db (budget_reserve example_reserve) example_reserved_db"
  by code_simp

lemma example_start_answers: "answers example_reserved_db (budget_markStarted example_start) example_started_db"
  by code_simp

lemma example_empty: "empty_ledger example_budget_db"
  by (simp add: empty_ledger_def example_budget_db_def example_work_db_def)

lemma example_reachable: "ledger_step\<^sup>*\<^sup>* example_budget_db example_started_db"
  using answers_step [OF example_reserve_answers] answers_step [OF example_start_answers]
  by (meson converse_rtranclp_into_rtranclp r_into_rtranclp)

theorem ledger_balances_witness:
  "ba_reservedCostMicros example_account = 400 \<and>
   held_total (children_of example_started_db (account_key example_account)) = 400 \<and>
   settled_total (children_of example_started_db (account_key example_account)) = 0"
proof -
  have "example_account \<in> set (wdb_accounts example_started_db)"
    by (simp add: example_started_db_def example_reserved_db_def)
  from ledger_balances [OF example_reachable example_empty this] show ?thesis
    by (simp add: Let_def example_account_def)
qed

theorem ledger_reads_succeed_witness:
  "\<exists>a n. readAccount example_started_db ''o'' ''a'' ''run:r'' = Inr (Some a) \<and>
     subtractCost (ba_reservedCostMicros a) 400 = Inr n"
proof -
  have "case readAllocation example_started_db ''o'' ''a'' ''run:r'' ''c1'' of
      Inr (Some m) \<Rightarrow> is_outstanding m \<and> mb_estimatedCostMicros m = 400 | _ \<Rightarrow> False" by code_simp
  then obtain m where "readAllocation example_started_db ''o'' ''a'' ''run:r'' ''c1'' = Inr (Some m)"
    "is_outstanding m" "mb_estimatedCostMicros m = 400" by (auto split: sum.splits option.splits)
  with ledger_reads_succeed [OF example_reachable example_empty, of "''o''" "''a''" "''run:r''" "''c1''"]
  show ?thesis by metis
qed

theorem reservation_within_limits_witness:
  "\<exists>a. row_of account_key (''o'', ''a'', ''run:r'') (wdb_accounts example_reserved_db) = Some a \<and> account_cost a \<le> 1000"
proof -
  obtain r where "execute_budget example_budget_db example_budget_scope (budget_reserve example_reserve) =
      Inr (example_reserved_db, reply_result r)" "\<not> br_replayed r"
    by (rule answersE [OF example_reserve_answers])
  from reservation_within_limits [OF rtranclp.rtrancl_refl example_empty this] show ?thesis
    by (auto simp: Let_def example_reserve_def example_budget_scope_def)
qed

theorem settlement_charged_once_witness:
  "\<exists>db r. execute_budget db example_budget_scope (budget_settle example_settle) = Inr (db, reply_result r) \<and> br_replayed r \<and>
     isl (execute_budget db example_budget_scope (budget_settle (example_settle\<lparr>se_actualCostMicros := 351\<rparr>)))"
proof -
  have "case execute_budget example_started_db example_budget_scope (budget_settle example_settle) of
      Inr (_, reply_result r) \<Rightarrow> True | _ \<Rightarrow> False" by code_simp
  then obtain db r where "execute_budget example_started_db example_budget_scope (budget_settle example_settle) =
      Inr (db, reply_result r)" by (auto split: sum.splits prod.splits budget_reply.splits)
  note once = settlement_charged_once [OF example_reachable example_empty this]
  have "(351::int) \<noteq> se_actualCostMicros example_settle" by (simp add: example_settle_def)
  with once show ?thesis by blast
qed

end
