(* ===== verification/Background_Work.thy ===== *)
theory Background_Work
  imports Budget_Ledger
begin

text \<open>
  Background occurrences in the SQLite store (\<open>packages/persistence-sqlite/src/sqlite-durable-operations.ts\<close>,
  from \<open>occurrenceSelect\<close> to \<open>listRecoverableOccurrences\<close>) and the service in front of them
  (\<open>packages/application/src/services/durable-background-work-service.ts\<close>).

  An occurrence of a job is created once per stable key, admitted against the capacity and the model budget,
  claimed under a work lease, and settled; a failed attempt is retried with a growing delay. A row of
  \<open>job_occurrences\<close> is the record in its \<open>record_json\<close>, whose columns hold the same values; rows of an older
  schema without that column hold them in the columns alone. The retry delay and the schedule arithmetic
  are over the integers, which agrees with the double arithmetic of the source as long as the products and
  differences stay below $2^{53}$ (delays below 1400 years).
\<close>

section \<open>Requests and answers\<close>

record admission_reservation =
  ad_occurrenceId :: OccurrenceId
  ad_expectedRevision :: int
  ad_runId :: RunId
  ad_authority :: product_authority_fence
  ad_limits :: admission_limits
  ad_admittedAt :: string

datatype admission_outcome =
    adm_admitted
  | adm_budget_blocked
  | adm_capacity_blocked
  | adm_deadline_exceeded
  | adm_blocked
  | adm_reconcile_required
  | adm_duplicate

record admission_result =
  am_occurrence :: background_occurrence
  am_outcome :: admission_outcome
  am_reasonCode :: admission_reason

record occurrence_lease_input =
  wc_occurrenceId :: OccurrenceId
  wc_expectedRevision :: int
  wc_authority :: product_authority_fence
  wc_leaseId :: string
  wc_holderId :: string
  wc_claimedAt :: string
  wc_expiresAt :: string

fun admission_reason_string :: "admission_reason \<Rightarrow> string" where
  "admission_reason_string ADMITTED = ''ADMITTED''"
| "admission_reason_string ALREADY_ADMITTED = ''ALREADY_ADMITTED''"
| "admission_reason_string JOB_ALREADY_ACTIVE = ''JOB_ALREADY_ACTIVE''"
| "admission_reason_string GLOBAL_BUDGET_EXHAUSTED = ''GLOBAL_BUDGET_EXHAUSTED''"
| "admission_reason_string CLASSIFICATION_BUDGET_EXHAUSTED = ''CLASSIFICATION_BUDGET_EXHAUSTED''"
| "admission_reason_string RUN_BUDGET_EXCEEDED = ''RUN_BUDGET_EXCEEDED''"
| "admission_reason_string TOTAL_CAPACITY_EXHAUSTED = ''TOTAL_CAPACITY_EXHAUSTED''"
| "admission_reason_string FOREGROUND_CAPACITY_RESERVED = ''FOREGROUND_CAPACITY_RESERVED''"
| "admission_reason_string CATEGORY_CAPACITY_EXHAUSTED = ''CATEGORY_CAPACITY_EXHAUSTED''"
| "admission_reason_string DEADLINE_EXCEEDED = ''DEADLINE_EXCEEDED''"
| "admission_reason_string CREDENTIALS_BLOCKED = ''CREDENTIALS_BLOCKED''"
| "admission_reason_string AUTHORIZATION_BLOCKED = ''AUTHORIZATION_BLOCKED''"
| "admission_reason_string MODEL_BLOCKED = ''MODEL_BLOCKED''"
| "admission_reason_string RETRY_NOT_DUE = ''RETRY_NOT_DUE''"
| "admission_reason_string EXTERNAL_RESULT_RECONCILIATION_REQUIRED = ''EXTERNAL_RESULT_RECONCILIATION_REQUIRED''"

section \<open>Rows\<close>

definition readOccurrence :: "work_db \<Rightarrow> OccurrenceId \<Rightarrow> background_occurrence option" where
  "readOccurrence db i = row_of occ_id i (wdb_occurrences db)"

definition readOccurrenceByStableKey :: "work_db \<Rightarrow> JobId \<Rightarrow> string \<Rightarrow> background_occurrence option" where
  "readOccurrenceByStableKey db jobId stableKey =
     List.find (\<lambda>c. occ_jobId c = jobId \<and> occ_stableKey c = stableKey) (wdb_occurrences db)"

definition writeOccurrence :: "work_db \<Rightarrow> background_occurrence \<Rightarrow> work_db" where
  "writeOccurrence db c = db\<lparr>wdb_occurrences := map (\<lambda>x. if occ_id x = occ_id c then c else x) (wdb_occurrences db)\<rparr>"

definition assertBackgroundFence :: "work_db \<Rightarrow> OwnerId \<Rightarrow> AgentId \<Rightarrow> product_authority_fence \<Rightarrow> unit result" where
  "assertBackgroundFence db ownerId agentId fence =
     (case List.find (\<lambda>d. dep_id d = fence_deploymentId fence \<and> dep_ownerId d = ownerId \<and> dep_agentId d = agentId)
             (wdb_deployments db) of
        None \<Rightarrow> Inl not_authoritative
      | Some d \<Rightarrow> ensure (dep_status d = dep_active \<and> dep_authorityEpoch d = fence_authorityEpoch fence \<and>
          dep_fencingToken d = fence_fencingToken fence) not_authoritative)"

definition assertOccurrenceShape :: "background_occurrence \<Rightarrow> unit result" where
  "assertOccurrenceShape c =
     ensure (list_all (\<lambda>n. is_safe_integer n \<and> n \<ge> 0)
               [occ_revision c, occ_estimatedCostMicros c, occ_reservedCostMicros c, occ_spentCostMicros c,
                occ_attemptCount c] \<and>
             occ_revision c \<ge> 1 \<and> occ_stableKey c \<noteq> [] \<and> length (occ_stableKey c) \<le> 512 \<and>
             occ_category c \<noteq> [] \<and> length (occ_category c) \<le> 64 \<and>
             isCanonicalTimestamp (occ_deadlineAt c)) (ApplicationPortError INVALID_OPERATION)"

definition same_semantics :: "background_occurrence \<Rightarrow> background_occurrence \<Rightarrow> bool" where
  "same_semantics d c \<longleftrightarrow> occ_ownerId d = occ_ownerId c \<and> occ_agentId d = occ_agentId c \<and>
     occ_category d = occ_category c \<and> occ_dataClassification d = occ_dataClassification c \<and>
     occ_estimatedCostMicros d = occ_estimatedCostMicros c \<and> occ_foreground d = occ_foreground c \<and>
     occ_parallelSafe d = occ_parallelSafe c"

definition createOccurrence :: "work_db \<Rightarrow> background_occurrence \<Rightarrow> (work_db \<times> background_occurrence) result" where
  "createOccurrence db c =
     andThen (ensure (wdb_headroom db) conflict) (\<lambda>_.
     andThen (assertOccurrenceShape c) (\<lambda>_.
     andThen (assertBackgroundFence db (occ_ownerId c) (occ_agentId c) (occ_authority c)) (\<lambda>_.
       case readOccurrenceByStableKey db (occ_jobId c) (occ_stableKey c) of
         Some d \<Rightarrow> andThen (ensure (same_semantics d c) conflict) (\<lambda>_. Inr (db, d))
       | None \<Rightarrow>
           andThen (ensure (readOccurrence db (occ_id c) = None) conflict) (\<lambda>_.
           andThen (ensure (case row_of sj_id (occ_jobId c) (wdb_jobs db) of None \<Rightarrow> False
                      | Some j \<Rightarrow> sj_ownerId j = occ_ownerId c \<and> sj_agentId j = occ_agentId c)
                     (ApplicationPortError INVALID_OPERATION)) (\<lambda>_.
           andThen (ensure (occ_status c = occ_queued \<and> occ_runId c = None \<and> occ_workLease c = None \<and>
                      occ_reservedCostMicros c = 0 \<and> occ_spentCostMicros c = 0 \<and> occ_attemptCount c = 0)
                     (ApplicationPortError INVALID_OPERATION)) (\<lambda>_.
             Inr (db\<lparr>wdb_occurrences := wdb_occurrences db @ [c]\<rparr>, c)))))))"

section \<open>Admission\<close>

definition requires_reconciliation :: "work_db \<Rightarrow> background_occurrence \<Rightarrow> bool" where
  "requires_reconciliation db c \<longleftrightarrow> occ_lastErrorCode c = Some ''EXTERNAL_RESULT_UNKNOWN'' \<or>
     occurrenceRequiresReconciliation db (occ_ownerId c) (occ_agentId c) (occ_id c)"

text \<open>What an admission is answered with before the limits are looked at, if anything.\<close>

definition standing_answer :: "work_db \<Rightarrow> admission_reservation \<Rightarrow> background_occurrence \<Rightarrow>
    (admission_outcome \<times> admission_reason) option result" where
  "standing_answer db inp c =
     (if requires_reconciliation db c
      then Inr (Some (adm_reconcile_required, EXTERNAL_RESULT_RECONCILIATION_REQUIRED))
      else if occ_status c \<in> {occ_completed, occ_failed_terminal, occ_missed} \<or>
              occ_status c \<in> {occ_admitted, occ_running} \<and> occ_runId c = Some (ad_runId inp)
      then Inr (Some (adm_duplicate, ALREADY_ADMITTED))
      else
      andThen (ensure (occ_revision c = ad_expectedRevision inp) conflict) (\<lambda>_.
        if occ_status c = occ_blocked_credentials then Inr (Some (adm_blocked, CREDENTIALS_BLOCKED))
        else if occ_status c = occ_blocked_approval
        then Inr (Some (adm_blocked, if occ_lastErrorCode c = Some ''MODEL_BLOCKED'' then MODEL_BLOCKED else AUTHORIZATION_BLOCKED))
        else if occ_status c = occ_retry_wait \<and>
                (case occ_nextRetryAt c of None \<Rightarrow> False | Some t \<Rightarrow> t > ad_admittedAt inp)
        then Inr (Some (adm_blocked, RETRY_NOT_DUE))
        else
        andThen (ensure (occ_status c \<in> {occ_queued, occ_retry_wait, occ_budget_blocked, occ_capacity_blocked})
                   (ApplicationPortError INVALID_OPERATION)) (\<lambda>_.
          Inr None)))"

definition limits_valid :: "admission_limits \<Rightarrow> bool" where
  "limits_valid l \<longleftrightarrow>
     is_safe_integer (lim_totalRuns l) \<and> lim_totalRuns l > 0 \<and>
     is_safe_integer (lim_foregroundReserved l) \<and> lim_foregroundReserved l \<ge> 0 \<and>
     lim_foregroundReserved l \<le> lim_totalRuns l \<and>
     list_all (\<lambda>n. is_safe_integer n \<and> n \<ge> 0)
       [lim_globalCostMicros l, lim_perRunCostMicros l, lim_perClassificationCostMicros l class_public,
        lim_perClassificationCostMicros l class_private, lim_perClassificationCostMicros l class_sensitive,
        lim_perClassificationCostMicros l class_restricted]"

definition holds_job :: "background_occurrence \<Rightarrow> bool" where
  "holds_job c \<longleftrightarrow> occ_runId c \<noteq> None \<and>
     occ_status c \<in> {occ_admitted, occ_running, occ_retry_wait, occ_blocked_credentials, occ_blocked_approval}"

definition other_holders :: "work_db \<Rightarrow> background_occurrence \<Rightarrow> background_occurrence list" where
  "other_holders db c = filter (\<lambda>x. occ_jobId x = occ_jobId c \<and> occ_id x \<noteq> occ_id c \<and> holds_job x) (wdb_occurrences db)"

definition job_busy :: "work_db \<Rightarrow> background_occurrence \<Rightarrow> bool" where
  "job_busy db c \<longleftrightarrow>
     (\<not> occ_parallelSafe c \<or> length (filter (\<lambda>x. \<not> occ_parallelSafe x) (other_holders db c)) > 0) \<and>
     length (other_holders db c) > 0"

text \<open>The occurrences of the owner and agent that use capacity.\<close>

definition is_active :: "background_occurrence \<Rightarrow> bool" where
  "is_active c \<longleftrightarrow> occ_status c \<in> {occ_admitted, occ_running}"

definition active_occurrences :: "work_db \<Rightarrow> OwnerId \<Rightarrow> AgentId \<Rightarrow> background_occurrence list" where
  "active_occurrences db ownerId agentId =
     filter (\<lambda>c. occ_ownerId c = ownerId \<and> occ_agentId c = agentId \<and> is_active c) (wdb_occurrences db)"

text \<open>
  A property read of a plain object also finds what it inherits from \<open>Object.prototype\<close>: those values are
  not numbers.
\<close>

definition OBJECT_PROTOTYPE_KEYS :: "string list" where
  "OBJECT_PROTOTYPE_KEYS = [''constructor'', ''__defineGetter__'', ''__defineSetter__'', ''hasOwnProperty'',
     ''__lookupGetter__'', ''__lookupSetter__'', ''isPrototypeOf'', ''propertyIsEnumerable'', ''toString'',
     ''valueOf'', ''__proto__'', ''toLocaleString'']"

definition category_limit :: "(string \<times> int) list \<Rightarrow> string \<Rightarrow> int option result" where
  "category_limit perCategory category =
     (case map_of perCategory category of
        Some n \<Rightarrow> if \<not> is_safe_integer n \<or> n < 0 then port_fail INVALID_OPERATION else Inr (Some n)
      | None \<Rightarrow> if category \<in> set OBJECT_PROTOTYPE_KEYS then port_fail INVALID_OPERATION else Inr None)"

definition capacity_reason :: "work_db \<Rightarrow> admission_limits \<Rightarrow> background_occurrence \<Rightarrow> admission_reason option result" where
  "capacity_reason db l c =
     (let active = active_occurrences db (occ_ownerId c) (occ_agentId c) in
     andThen (category_limit (lim_perCategory l) (occ_category c)) (\<lambda>categoryLimit.
       Inr (if job_busy db c then Some JOB_ALREADY_ACTIVE
            else if int (length active) \<ge> lim_totalRuns l then Some TOTAL_CAPACITY_EXHAUSTED
            else if \<not> occ_foreground c \<and>
                    int (length (filter (\<lambda>x. \<not> occ_foreground x) active)) \<ge> lim_totalRuns l - lim_foregroundReserved l
            then Some FOREGROUND_CAPACITY_RESERVED
            else case categoryLimit of None \<Rightarrow> None
              | Some n \<Rightarrow> if int (length (filter (\<lambda>x. occ_category x = occ_category c) active)) \<ge> n
                  then Some CATEGORY_CAPACITY_EXHAUSTED else None)))"

definition expired_occurrence :: "admission_reservation \<Rightarrow> background_occurrence \<Rightarrow> background_occurrence" where
  "expired_occurrence inp c = c\<lparr>occ_revision := occ_revision c + 1, occ_status := occ_failed_terminal,
     occ_authority := ad_authority inp, occ_runId := Some (ad_runId inp), occ_reservedCostMicros := 0,
     occ_nextRetryAt := None, occ_lastErrorCode := Some ''DEADLINE_EXCEEDED''\<rparr>"

definition blocked_by_budget :: "admission_reason option \<Rightarrow> bool" where
  "blocked_by_budget r \<longleftrightarrow>
     r \<in> {Some RUN_BUDGET_EXCEEDED, Some GLOBAL_BUDGET_EXHAUSTED, Some CLASSIFICATION_BUDGET_EXHAUSTED}"

definition decided_occurrence :: "admission_reservation \<Rightarrow> background_occurrence \<Rightarrow> occurrence_budget \<Rightarrow> admission_reason option \<Rightarrow>
    background_occurrence" where
  "decided_occurrence inp c b r = c\<lparr>occ_revision := occ_revision c + 1,
     occ_status := (if r \<noteq> None then (if blocked_by_budget r then occ_budget_blocked else occ_capacity_blocked)
                    else occ_admitted),
     occ_authority := ad_authority inp, occ_runId := Some (ad_runId inp),
     occ_reservedCostMicros := ob_reservedCostMicros b, occ_spentCostMicros := ob_spentCostMicros b,
     occ_nextRetryAt := None, occ_lastErrorCode := map_option admission_reason_string r\<rparr>"

definition decide_admission :: "work_db \<Rightarrow> admission_reservation \<Rightarrow> background_occurrence \<Rightarrow> (work_db \<times> admission_result) result" where
  "decide_admission db inp c =
     andThen (ensure (limits_valid (ad_limits inp)) (ApplicationPortError INVALID_OPERATION)) (\<lambda>_.
     andThen (capacity_reason db (ad_limits inp) c) (\<lambda>full.
     andThen (if full \<noteq> None
              then Inr (db, \<lparr>ob_reservedCostMicros = occ_reservedCostMicros c, ob_spentCostMicros = occ_spentCostMicros c,
                             ob_reasonCode = None\<rparr>)
              else reserveOccurrence db c (ad_limits inp)) (\<lambda>(db1, budget).
     let reason = (if full \<noteq> None then full else ob_reasonCode budget);
         stored = decided_occurrence inp c budget reason in
       Inr (writeOccurrence db1 stored,
         \<lparr>am_occurrence = stored,
          am_outcome = (if reason \<noteq> None then (if blocked_by_budget reason then adm_budget_blocked else adm_capacity_blocked)
                        else adm_admitted),
          am_reasonCode = (case reason of None \<Rightarrow> ADMITTED | Some r \<Rightarrow> r)\<rparr>))))"

definition reserveBackgroundAdmission :: "work_db \<Rightarrow> admission_reservation \<Rightarrow> (work_db \<times> admission_result) result" where
  "reserveBackgroundAdmission db inp =
     andThen (ensure (wdb_headroom db) conflict) (\<lambda>_.
     case readOccurrence db (ad_occurrenceId inp) of
       None \<Rightarrow> port_fail NOT_FOUND
     | Some c \<Rightarrow>
         andThen (assertBackgroundFence db (occ_ownerId c) (occ_agentId c) (ad_authority inp)) (\<lambda>_.
         andThen (ensure (case List.find (\<lambda>r. rs_id r = ad_runId inp) (wdb_runs db) of None \<Rightarrow> False
                    | Some r \<Rightarrow> rs_ownerId r = occ_ownerId c \<and> rs_agentId r = occ_agentId c)
                   (ApplicationPortError INVALID_OPERATION)) (\<lambda>_.
         andThen (assertNoRunBudgetAccount db (occ_ownerId c) (occ_agentId c) (ad_runId inp)) (\<lambda>_.
         andThen (standing_answer db inp c) (\<lambda>standing. case standing of
           Some (outcome, reason) \<Rightarrow> Inr (db, \<lparr>am_occurrence = c, am_outcome = outcome, am_reasonCode = reason\<rparr>)
         | None \<Rightarrow>
             andThen (ensure (isCanonicalTimestamp (ad_admittedAt inp)) (ApplicationPortError INVALID_OPERATION)) (\<lambda>_.
               if ad_admittedAt inp \<ge> occ_deadlineAt c
               then Inr (writeOccurrence db (expired_occurrence inp c),
                 \<lparr>am_occurrence = expired_occurrence inp c, am_outcome = adm_deadline_exceeded,
                  am_reasonCode = DEADLINE_EXCEEDED\<rparr>)
               else decide_admission db inp c))))))"

section \<open>Work leases\<close>

definition reclaimable :: "background_occurrence \<Rightarrow> string \<Rightarrow> bool" where
  "reclaimable c at \<longleftrightarrow> occ_status c = occ_running \<and>
     (case occ_workLease c of None \<Rightarrow> False | Some l \<Rightarrow> wl_expiresAt l \<le> at)"

definition claimed_occurrence :: "occurrence_lease_input \<Rightarrow> background_occurrence \<Rightarrow> background_occurrence" where
  "claimed_occurrence inp c = c\<lparr>occ_revision := occ_revision c + 1, occ_status := occ_running,
     occ_authority := wc_authority inp, occ_attemptCount := occ_attemptCount c + 1,
     occ_workLease := Some \<lparr>wl_id = wc_leaseId inp, wl_holderId = wc_holderId inp,
       wl_acquiredAt = wc_claimedAt inp, wl_expiresAt = wc_expiresAt inp\<rparr>,
     occ_lastErrorCode := (if reclaimable c (wc_claimedAt inp) then Some ''WORK_LEASE_EXPIRED'' else None)\<rparr>"

definition claimOccurrence :: "work_db \<Rightarrow> occurrence_lease_input \<Rightarrow> (work_db \<times> background_occurrence) result" where
  "claimOccurrence db inp =
     andThen (ensure (wdb_headroom db) conflict) (\<lambda>_.
     case readOccurrence db (wc_occurrenceId inp) of
       None \<Rightarrow> port_fail NOT_FOUND
     | Some c \<Rightarrow>
         andThen (assertBackgroundFence db (occ_ownerId c) (occ_agentId c) (wc_authority inp)) (\<lambda>_.
         andThen (ensure (occ_revision c = wc_expectedRevision inp) conflict) (\<lambda>_.
         andThen (ensure (\<not> requires_reconciliation db c) conflict) (\<lambda>_.
         andThen (ensure (isCanonicalTimestamp (wc_claimedAt inp) \<and> isCanonicalTimestamp (wc_expiresAt inp) \<and>
                    isAfter (wc_expiresAt inp) (wc_claimedAt inp) \<and> \<not> wc_expiresAt inp > occ_deadlineAt c)
                   (ApplicationPortError INVALID_OPERATION)) (\<lambda>_.
         andThen (ensure (occ_status c = occ_admitted \<or> reclaimable c (wc_claimedAt inp)) conflict) (\<lambda>_.
           Inr (writeOccurrence db (claimed_occurrence inp c), claimed_occurrence inp c)))))))"

section \<open>Settlement\<close>

definition retry_valid :: "retry_policy \<Rightarrow> bool" where
  "retry_valid r \<longleftrightarrow>
     is_safe_integer (rp_maxAttempts r) \<and> rp_maxAttempts r \<ge> 1 \<and>
     is_safe_integer (rp_baseDelayMs r) \<and> rp_baseDelayMs r \<ge> 1 \<and>
     is_safe_integer (rp_maxDelayMs r) \<and> rp_maxDelayMs r \<ge> rp_baseDelayMs r \<and>
     is_safe_integer (rp_jitterSeed r) \<and> rp_jitterSeed r \<ge> 0"

definition exponential_delay :: "retry_policy \<Rightarrow> int \<Rightarrow> int" where
  "exponential_delay r attempts = min (rp_maxDelayMs r) (rp_baseDelayMs r * 2 ^ nat (max 0 (attempts - 1)))"

definition retry_jitter :: "retry_policy \<Rightarrow> int \<Rightarrow> int" where
  "retry_jitter r exponential = exponential * (rp_jitterSeed r mod 201) div 1000"

definition retry_decision :: "background_occurrence \<Rightarrow> occurrence_settlement \<Rightarrow> int \<Rightarrow>
    (background_occurrence_status \<times> string option) result" where
  "retry_decision c s settledAt =
     andThen (ensure (retry_valid (os_retry s)) (ApplicationPortError INVALID_OPERATION)) (\<lambda>_.
     let exponential = exponential_delay (os_retry s) (occ_attemptCount c);
         retryAt = settledAt + exponential + retry_jitter (os_retry s) exponential in
       if occ_attemptCount c < rp_maxAttempts (os_retry s)
       then andThen (toISOString retryAt) (\<lambda>t. Inr (if t < occ_deadlineAt c then (occ_retry_wait, Some t) else (occ_failed_terminal, None)))
       else Inr (occ_failed_terminal, None))"

definition settlement_decision :: "background_occurrence \<Rightarrow> occurrence_settlement \<Rightarrow> int \<Rightarrow>
    (background_occurrence_status \<times> string option \<times> string option) result" where
  "settlement_decision c s settledAt =
     (let errorCode = os_errorCode s; fallback = (\<lambda>code. case errorCode of None \<Rightarrow> Some code | Some e \<Rightarrow> Some e) in
      if os_outcome s = oo_completed \<and> os_spentCostMicros s \<le> occ_reservedCostMicros c then Inr (occ_completed, None, None)
      else if os_outcome s = oo_model_blocked then Inr (occ_blocked_approval, None, fallback ''MODEL_BLOCKED'')
      else if os_outcome s = oo_external_result_unknown then Inr (occ_retry_wait, None, fallback ''EXTERNAL_RESULT_UNKNOWN'')
      else if os_spentCostMicros s > occ_reservedCostMicros c then Inr (occ_failed_terminal, None, Some ''RUN_BUDGET_EXCEEDED'')
      else case os_failureClass s of
        Some fc_credential \<Rightarrow> Inr (occ_blocked_credentials, None, errorCode)
      | Some fc_authorization \<Rightarrow> Inr (occ_blocked_approval, None, errorCode)
      | Some fc_policy \<Rightarrow> Inr (occ_failed_terminal, None, errorCode)
      | Some fc_invalid_input \<Rightarrow> Inr (occ_failed_terminal, None, errorCode)
      | Some fc_transport \<Rightarrow> andThen (retry_decision c s settledAt) (\<lambda>(st, t). Inr (st, t, errorCode))
      | Some fc_provider \<Rightarrow> andThen (retry_decision c s settledAt) (\<lambda>(st, t). Inr (st, t, errorCode))
      | None \<Rightarrow> Inr (occ_failed_terminal, None, errorCode))"

definition settled_occurrence :: "occurrence_settlement \<Rightarrow> background_occurrence \<Rightarrow> occurrence_budget \<Rightarrow>
    background_occurrence_status \<times> string option \<times> string option \<Rightarrow> background_occurrence" where
  "settled_occurrence s c b d = c\<lparr>occ_revision := occ_revision c + 1, occ_status := fst d,
     occ_authority := os_authority s, occ_reservedCostMicros := ob_reservedCostMicros b,
     occ_spentCostMicros := ob_spentCostMicros b, occ_nextRetryAt := fst (snd d), occ_workLease := None,
     occ_lastErrorCode := snd (snd d)\<rparr>"

definition settleOccurrence :: "work_db \<Rightarrow> occurrence_settlement \<Rightarrow> (work_db \<times> background_occurrence) result" where
  "settleOccurrence db s =
     andThen (ensure (wdb_headroom db) conflict) (\<lambda>_.
     case readOccurrence db (os_occurrenceId s) of
       None \<Rightarrow> port_fail NOT_FOUND
     | Some c \<Rightarrow>
         andThen (assertBackgroundFence db (occ_ownerId c) (occ_agentId c) (os_authority s)) (\<lambda>_.
         andThen (ensure (occ_revision c = os_expectedRevision s \<and> occ_status c = occ_running \<and>
                    map_option wl_id (occ_workLease c) = Some (os_leaseId s)) conflict) (\<lambda>_.
         andThen (ensure (is_safe_integer (os_spentCostMicros s) \<and> os_spentCostMicros s \<ge> 0)
                   (ApplicationPortError INVALID_OPERATION)) (\<lambda>_.
         andThen (ensure (isCanonicalTimestamp (os_settledAt s)) (ApplicationPortError INVALID_OPERATION)) (\<lambda>_.
         andThen (settlement_decision c s (case date_parse (os_settledAt s) of Some t \<Rightarrow> t | None \<Rightarrow> 0)) (\<lambda>decision.
         andThen (settleOccurrenceBudget db c s) (\<lambda>(db1, budget).
           let settled = settled_occurrence s c budget decision in
             Inr (writeOccurrence db1 settled, settled))))))))"

section \<open>Lists\<close>

definition listOccurrencesByJob :: "work_db \<Rightarrow> JobId \<Rightarrow> int \<Rightarrow> background_occurrence list result" where
  "listOccurrencesByJob db jobId limit =
     andThen (assertLimit limit) (\<lambda>_.
       Inr (take (nat limit) (sort_key occ_id (filter (\<lambda>c. occ_jobId c = jobId) (wdb_occurrences db)))))"

definition recoverable :: "work_db \<Rightarrow> OwnerId \<Rightarrow> AgentId \<Rightarrow> string \<Rightarrow> background_occurrence \<Rightarrow> bool" where
  "recoverable db ownerId agentId now c \<longleftrightarrow>
     occ_ownerId c = ownerId \<and> occ_agentId c = agentId \<and>
     \<not> list_ex (\<lambda>a. ba_ownerId a = occ_ownerId c \<and> ba_agentId a = occ_agentId c \<and>
         ba_occurrenceId a = Some (occ_id c) \<and> ba_status a = ba_reconcile_required) (wdb_accounts db) \<and>
     occ_lastErrorCode c \<noteq> Some ''EXTERNAL_RESULT_UNKNOWN'' \<and>
     (occ_status c \<in> {occ_queued, occ_admitted, occ_blocked_credentials, occ_blocked_approval,
                       occ_budget_blocked, occ_capacity_blocked} \<or>
      occ_status c = occ_retry_wait \<and> (case occ_nextRetryAt c of None \<Rightarrow> True | Some t \<Rightarrow> t \<le> now) \<or>
      reclaimable c now)"

definition listRecoverableOccurrences :: "work_db \<Rightarrow> OwnerId \<Rightarrow> AgentId \<Rightarrow> string \<Rightarrow> int \<Rightarrow> background_occurrence list result" where
  "listRecoverableOccurrences db ownerId agentId now limit =
     andThen (assertLimit limit) (\<lambda>_.
       Inr (take (nat limit) (sort_key (\<lambda>c. (occ_deadlineAt c, occ_id c))
         (filter (recoverable db ownerId agentId now) (wdb_occurrences db)))))"

section \<open>What the operations do to the rows\<close>

text \<open>The fields no operation changes.\<close>

definition same_scope :: "background_occurrence \<Rightarrow> background_occurrence \<Rightarrow> bool" where
  "same_scope c' c \<longleftrightarrow> occ_id c' = occ_id c \<and> occ_jobId c' = occ_jobId c \<and> occ_ownerId c' = occ_ownerId c \<and>
     occ_agentId c' = occ_agentId c \<and> occ_stableKey c' = occ_stableKey c \<and> occ_category c' = occ_category c \<and>
     occ_foreground c' = occ_foreground c \<and> occ_parallelSafe c' = occ_parallelSafe c \<and>
     occ_deadlineAt c' = occ_deadlineAt c"

lemma same_scope_updates [simp]:
  "same_scope (expired_occurrence i c) c" "same_scope (decided_occurrence i c b r) c"
  "same_scope (claimed_occurrence w c) c" "same_scope (settled_occurrence s c b d) c"
  by (simp_all add: same_scope_def expired_occurrence_def decided_occurrence_def claimed_occurrence_def settled_occurrence_def)

lemma update_fields [simp]:
  "occ_id (expired_occurrence i c) = occ_id c" "occ_id (decided_occurrence i c b r) = occ_id c"
  "occ_id (claimed_occurrence w c) = occ_id c" "occ_id (settled_occurrence s c b d) = occ_id c"
  "occ_revision (expired_occurrence i c) = occ_revision c + 1" "occ_revision (decided_occurrence i c b r) = occ_revision c + 1"
  "occ_revision (claimed_occurrence w c) = occ_revision c + 1" "occ_revision (settled_occurrence s c b d) = occ_revision c + 1"
  "occ_status (expired_occurrence i c) = occ_failed_terminal" "occ_status (claimed_occurrence w c) = occ_running"
  "occ_status (settled_occurrence s c b d) = fst d"
  "occ_status (decided_occurrence i c b r) =
     (if r \<noteq> None then (if blocked_by_budget r then occ_budget_blocked else occ_capacity_blocked) else occ_admitted)"
  "occ_runId (claimed_occurrence w c) = occ_runId c" "occ_runId (settled_occurrence s c b d) = occ_runId c"
  by (simp_all add: expired_occurrence_def decided_occurrence_def claimed_occurrence_def settled_occurrence_def)

definition replaced :: "background_occurrence \<Rightarrow> background_occurrence list \<Rightarrow> background_occurrence list" where
  "replaced c cs = map (\<lambda>x. if occ_id x = occ_id c then c else x) cs"

lemma writeOccurrence_occurrences [simp]: "wdb_occurrences (writeOccurrence db c) = replaced c (wdb_occurrences db)"
  by (simp add: writeOccurrence_def replaced_def)

lemma readOccurrence_Some: "readOccurrence db i = Some c \<Longrightarrow> occ_id c = i \<and> c \<in> set (wdb_occurrences db)"
  unfolding readOccurrence_def by (rule row_of_SomeD)

lemma readOccurrence_self: "readOccurrence db i = Some c \<Longrightarrow> readOccurrence db (occ_id c) = Some c"
  using readOccurrence_Some by fastforce

lemma row_of_replaced: "row_of occ_id i (replaced c cs) = (if i = occ_id c \<and> row_of occ_id i cs \<noteq> None then Some c else row_of occ_id i cs)"
  unfolding replaced_def row_of_map_replace has_row_iff by auto

text \<open>
  A new row is queued. A changed row keeps its scope and raises its revision, and it takes up capacity or
  holds its job only if it did so before or the admission found room for it.
\<close>

definition row_change :: "admission_limits \<Rightarrow> work_db \<Rightarrow> background_occurrence \<Rightarrow> background_occurrence \<Rightarrow> bool" where
  "row_change l db c c' \<longleftrightarrow> readOccurrence db (occ_id c) = Some c \<and> same_scope c' c \<and> occ_revision c' = occ_revision c + 1 \<and>
     (is_active c' \<longrightarrow> is_active c \<or> capacity_reason db l c = Inr None) \<and>
     (holds_job c' \<longrightarrow> holds_job c \<or> \<not> job_busy db c)"

definition occurrences_change :: "admission_limits \<Rightarrow> work_db \<Rightarrow> background_occurrence list \<Rightarrow> bool" where
  "occurrences_change l db cs \<longleftrightarrow> cs = wdb_occurrences db \<or>
     (\<exists>c. cs = wdb_occurrences db @ [c] \<and> occ_status c = occ_queued \<and> readOccurrence db (occ_id c) = None \<and>
        readOccurrenceByStableKey db (occ_jobId c) (occ_stableKey c) = None) \<or>
     (\<exists>c c'. row_change l db c c' \<and> cs = replaced c' (wdb_occurrences db))"

lemma createOccurrence_change: "createOccurrence db c = Inr (db', r) \<Longrightarrow> occurrences_change l db (wdb_occurrences db')"
  unfolding createOccurrence_def occurrences_change_def by (auto simp: inverts split: option.splits)

lemma reserveOccurrence_occurrences:
  "reserveOccurrence db c l = Inr (db', r) \<Longrightarrow> wdb_occurrences db' = wdb_occurrences db"
  "settleOccurrenceBudget db c s = Inr (db', r2) \<Longrightarrow> wdb_occurrences db' = wdb_occurrences db"
proof -
  have ins: "insertAccount db ow ag p k = Inr (db1, a) \<Longrightarrow> wdb_occurrences db1 = wdb_occurrences db" for db ow ag p k db1 a
    unfolding insertAccount_def Let_def by (erule andThenE) (clarsimp split: option.splits)
  have ens: "ensureOccurrenceAccount db c = Inr (db1, a) \<Longrightarrow> wdb_occurrences db1 = wdb_occurrences db" for db c db1 a
    unfolding ensureOccurrenceAccount_def ensureAccount_def
    by (elim andThenE) (fastforce dest: ins elim!: andThenE split: option.splits)
  have upd: "updateAccount db a m n st = Inr (db1, u) \<Longrightarrow> wdb_occurrences db1 = wdb_occurrences db" for db a m n st db1 u
    unfolding updateAccount_def Let_def by (elim andThenE) (clarsimp split: option.splits)
  show "reserveOccurrence db c l = Inr (db', r) \<Longrightarrow> wdb_occurrences db' = wdb_occurrences db"
    unfolding reserveOccurrence_def Let_def by (auto simp: inverts split: if_splits dest!: ens upd)
  show "settleOccurrenceBudget db c s = Inr (db', r2) \<Longrightarrow> wdb_occurrences db' = wdb_occurrences db"
    unfolding settleOccurrenceBudget_def Let_def by (auto simp: inverts split: if_splits dest!: ens upd)
qed

lemma capacity_reason_free: "capacity_reason db l c = Inr None \<Longrightarrow> \<not> job_busy db c"
  unfolding capacity_reason_def by (auto simp: inverts Let_def split: if_splits)

lemma standing_None:
  "standing_answer db inp c = Inr None \<Longrightarrow> occ_revision c = ad_expectedRevision inp \<and> \<not> requires_reconciliation db c \<and>
     occ_status c \<in> {occ_queued, occ_retry_wait, occ_budget_blocked, occ_capacity_blocked}"
  unfolding standing_answer_def by (auto simp: inverts split: if_splits)

lemma decide_admission_Inr:
  assumes "decide_admission db inp c = Inr (db', r)"
  obtains full budget db1 reason where "capacity_reason db (ad_limits inp) c = Inr full" and "limits_valid (ad_limits inp)"
    and "reason = (if full \<noteq> None then full else ob_reasonCode budget)"
    and "if full \<noteq> None then db1 = db else reserveOccurrence db c (ad_limits inp) = Inr (db1, budget)"
    and "db' = writeOccurrence db1 (decided_occurrence inp c budget reason)"
    and "am_occurrence r = decided_occurrence inp c budget reason"
    and "am_outcome r = (if reason \<noteq> None then (if blocked_by_budget reason then adm_budget_blocked else adm_capacity_blocked) else adm_admitted)"
    and "wdb_occurrences db1 = wdb_occurrences db"
proof -
  from assms obtain full budget db1 where f: "capacity_reason db (ad_limits inp) c = Inr full" "limits_valid (ad_limits inp)"
    and b: "(if full \<noteq> None
         then Inr (db, \<lparr>ob_reservedCostMicros = occ_reservedCostMicros c, ob_spentCostMicros = occ_spentCostMicros c, ob_reasonCode = None\<rparr>)
         else reserveOccurrence db c (ad_limits inp)) = Inr (db1, budget)"
    and r: "db' = writeOccurrence db1 (decided_occurrence inp c budget (if full \<noteq> None then full else ob_reasonCode budget))"
      "am_occurrence r = decided_occurrence inp c budget (if full \<noteq> None then full else ob_reasonCode budget)"
      "am_outcome r = (if (if full \<noteq> None then full else ob_reasonCode budget) \<noteq> None
        then (if blocked_by_budget (if full \<noteq> None then full else ob_reasonCode budget) then adm_budget_blocked else adm_capacity_blocked)
        else adm_admitted)"
    unfolding decide_admission_def Let_def by (force simp: inverts)
  from b have "if full \<noteq> None then db1 = db else reserveOccurrence db c (ad_limits inp) = Inr (db1, budget)" by (auto split: if_splits)
  moreover from this have "wdb_occurrences db1 = wdb_occurrences db" using reserveOccurrence_occurrences(1) by (auto split: if_splits)
  ultimately show thesis using that f r by blast
qed

lemma admission_cases:
  assumes "reserveBackgroundAdmission db inp = Inr (db', r)"
  obtains c where "readOccurrence db (ad_occurrenceId inp) = Some c"
    and "(\<exists>outcome reason. standing_answer db inp c = Inr (Some (outcome, reason)) \<and> db' = db \<and> am_occurrence r = c \<and>
            am_outcome r = outcome \<and> am_reasonCode r = reason) \<or>
      standing_answer db inp c = Inr None \<and> isCanonicalTimestamp (ad_admittedAt inp) \<and> ad_admittedAt inp \<ge> occ_deadlineAt c \<and>
        db' = writeOccurrence db (expired_occurrence inp c) \<and> am_occurrence r = expired_occurrence inp c \<and>
        am_outcome r = adm_deadline_exceeded \<or>
      standing_answer db inp c = Inr None \<and> ad_admittedAt inp < occ_deadlineAt c \<and> decide_admission db inp c = Inr (db', r)"
proof -
  note w = assms [unfolded reserveBackgroundAdmission_def]
  from w obtain c where c: "readOccurrence db (ad_occurrenceId inp) = Some c"
    by (auto simp: inverts split: option.splits)
  from w c obtain st where st: "standing_answer db inp c = Inr st"
    by (cases "standing_answer db inp c") (auto simp: inverts)
  from w c st have rest: "(case st of Some (outcome, reason) \<Rightarrow> Inr (db, \<lparr>am_occurrence = c, am_outcome = outcome, am_reasonCode = reason\<rparr>)
      | None \<Rightarrow> andThen (ensure (isCanonicalTimestamp (ad_admittedAt inp)) (ApplicationPortError INVALID_OPERATION)) (\<lambda>_.
            if ad_admittedAt inp \<ge> occ_deadlineAt c
            then Inr (writeOccurrence db (expired_occurrence inp c),
              \<lparr>am_occurrence = expired_occurrence inp c, am_outcome = adm_deadline_exceeded, am_reasonCode = DEADLINE_EXCEEDED\<rparr>)
            else decide_admission db inp c)) = Inr (db', r)"
    by (auto simp: inverts)
  from st rest show thesis by (intro that [OF c]) (cases st; auto simp: inverts split: if_splits)
qed

lemma reserveBackgroundAdmission_change:
  assumes "reserveBackgroundAdmission db inp = Inr (db', r)"
  shows "occurrences_change (ad_limits inp) db (wdb_occurrences db')"
  using assms
proof (rule admission_cases)
  fix c
  assume c: "readOccurrence db (ad_occurrenceId inp) = Some c"
    and d: "(\<exists>outcome reason. standing_answer db inp c = Inr (Some (outcome, reason)) \<and> db' = db \<and> am_occurrence r = c \<and>
            am_outcome r = outcome \<and> am_reasonCode r = reason) \<or>
      standing_answer db inp c = Inr None \<and> isCanonicalTimestamp (ad_admittedAt inp) \<and> ad_admittedAt inp \<ge> occ_deadlineAt c \<and>
        db' = writeOccurrence db (expired_occurrence inp c) \<and> am_occurrence r = expired_occurrence inp c \<and>
        am_outcome r = adm_deadline_exceeded \<or>
      standing_answer db inp c = Inr None \<and> ad_admittedAt inp < occ_deadlineAt c \<and> decide_admission db inp c = Inr (db', r)"
  have id: "readOccurrence db (occ_id c) = Some c" by (rule readOccurrence_self [OF c])
  from d consider "db' = db" | "db' = writeOccurrence db (expired_occurrence inp c)" | "decide_admission db inp c = Inr (db', r)" by blast
  then show ?thesis
  proof cases
    case 1
    then show ?thesis by (simp add: occurrences_change_def)
  next
    case 2
    have "row_change (ad_limits inp) db c (expired_occurrence inp c)"
      using id by (simp add: row_change_def is_active_def holds_job_def)
    with 2 show ?thesis by (auto simp: occurrences_change_def)
  next
    case 3
    then show ?thesis
    proof (rule decide_admission_Inr)
      fix full budget db1 reason
      assume full: "capacity_reason db (ad_limits inp) c = Inr full"
        and reason: "reason = (if full \<noteq> None then full else ob_reasonCode budget)"
        and db': "db' = writeOccurrence db1 (decided_occurrence inp c budget reason)" "wdb_occurrences db1 = wdb_occurrences db"
      have "full = None" if "reason = None" using that reason by (cases full) auto
      then have "row_change (ad_limits inp) db c (decided_occurrence inp c budget reason)"
        using id full capacity_reason_free by (auto simp: row_change_def is_active_def holds_job_def)
      with db' show ?thesis by (auto simp: occurrences_change_def)
    qed
  qed
qed

lemma claimOccurrence_Inr:
  assumes "claimOccurrence db inp = Inr (db', r)"
  obtains c where "readOccurrence db (wc_occurrenceId inp) = Some c" and "occ_revision c = wc_expectedRevision inp"
    and "\<not> requires_reconciliation db c" and "isCanonicalTimestamp (wc_claimedAt inp)" and "isCanonicalTimestamp (wc_expiresAt inp)"
    and "isAfter (wc_expiresAt inp) (wc_claimedAt inp)" and "wc_expiresAt inp \<le> occ_deadlineAt c"
    and "occ_status c = occ_admitted \<or> reclaimable c (wc_claimedAt inp)"
    and "r = claimed_occurrence inp c" and "db' = writeOccurrence db r"
  using assms unfolding claimOccurrence_def by (auto simp: inverts split: option.splits)

lemma claimOccurrence_change:
  assumes "claimOccurrence db inp = Inr (db', r)"
  shows "occurrences_change l db (wdb_occurrences db')"
  using assms
proof (rule claimOccurrence_Inr)
  fix c
  assume c: "readOccurrence db (wc_occurrenceId inp) = Some c" "occ_status c = occ_admitted \<or> reclaimable c (wc_claimedAt inp)"
    "r = claimed_occurrence inp c" "db' = writeOccurrence db r"
  have "readOccurrence db (occ_id c) = Some c" by (rule readOccurrence_self [OF c(1)])
  with c(2) have "row_change l db c (claimed_occurrence inp c)"
    by (auto simp: row_change_def is_active_def holds_job_def reclaimable_def)
  with c(3,4) show ?thesis by (auto simp: occurrences_change_def)
qed

lemma settleOccurrence_Inr:
  assumes "settleOccurrence db s = Inr (db', r)"
  obtains c d db1 b t where "readOccurrence db (os_occurrenceId s) = Some c" and "occ_revision c = os_expectedRevision s"
    and "occ_status c = occ_running" and "map_option wl_id (occ_workLease c) = Some (os_leaseId s)"
    and "isCanonicalTimestamp (os_settledAt s)" and "0 \<le> os_spentCostMicros s" and "date_parse (os_settledAt s) = Some t"
    and "settlement_decision c s t = Inr d" and "settleOccurrenceBudget db c s = Inr (db1, b)"
    and "r = settled_occurrence s c b d" and "db' = writeOccurrence db1 r"
proof -
  from assms obtain c d db1 b where c: "readOccurrence db (os_occurrenceId s) = Some c" "occ_revision c = os_expectedRevision s"
    "occ_status c = occ_running" "map_option wl_id (occ_workLease c) = Some (os_leaseId s)"
    "isCanonicalTimestamp (os_settledAt s)" "0 \<le> os_spentCostMicros s"
    "settlement_decision c s (case date_parse (os_settledAt s) of Some t \<Rightarrow> t | None \<Rightarrow> 0) = Inr d"
    "settleOccurrenceBudget db c s = Inr (db1, b)" "r = settled_occurrence s c b d" "db' = writeOccurrence db1 r"
    unfolding settleOccurrence_def Let_def by (auto simp: inverts split: option.splits)
  from c(5) obtain t where "date_parse (os_settledAt s) = Some t" by (auto elim: canonicalE)
  with c that show thesis by simp
qed

lemma settleOccurrence_change:
  assumes "settleOccurrence db s = Inr (db', r)"
  shows "occurrences_change l db (wdb_occurrences db')"
  using assms
proof (rule settleOccurrence_Inr)
  fix c d db1 b t
  assume c: "readOccurrence db (os_occurrenceId s) = Some c" "occ_status c = occ_running"
    "settlement_decision c s t = Inr d" "settleOccurrenceBudget db c s = Inr (db1, b)" "r = settled_occurrence s c b d" "db' = writeOccurrence db1 r"
  have "readOccurrence db (occ_id c) = Some c" by (rule readOccurrence_self [OF c(1)])
  with c(2) have "row_change l db c (settled_occurrence s c b d)"
    by (auto simp: row_change_def is_active_def holds_job_def)
  with c reserveOccurrence_occurrences(2) [OF c(4)] show ?thesis by (auto simp: occurrences_change_def)
qed

section \<open>Capacity\<close>

text \<open>
  Steps of the store as the occurrences see them, with one configuration of the limits: the operations
  above, and everything that leaves the table alone.
\<close>

inductive background_step :: "admission_limits \<Rightarrow> work_db \<Rightarrow> work_db \<Rightarrow> bool" for l where
  occurrence_created: "createOccurrence db c = Inr (db', r) \<Longrightarrow> background_step l db db'"
| occurrence_admitted: "reserveBackgroundAdmission db inp = Inr (db', r) \<Longrightarrow> ad_limits inp = l \<Longrightarrow> background_step l db db'"
| occurrence_claimed: "claimOccurrence db w = Inr (db', r) \<Longrightarrow> background_step l db db'"
| occurrence_settled: "settleOccurrence db s = Inr (db', r) \<Longrightarrow> background_step l db db'"
| occurrences_kept: "wdb_occurrences db' = wdb_occurrences db \<Longrightarrow> background_step l db db'"

lemma background_step_change: "background_step l db db' \<Longrightarrow> occurrences_change l db (wdb_occurrences db')"
proof (induction rule: background_step.induct)
  case (occurrence_created db c db' r)
  then show ?case by (rule createOccurrence_change)
next
  case (occurrence_admitted db inp db' r)
  then show ?case using reserveBackgroundAdmission_change by blast
next
  case (occurrence_claimed db w db' r)
  then show ?case by (rule claimOccurrence_change)
next
  case (occurrence_settled db s db' r)
  then show ?case by (rule settleOccurrence_change)
next
  case (occurrences_kept db' db)
  then show ?case by (simp add: occurrences_change_def)
qed

lemma count_replaced:
  assumes "distinct (map occ_id cs)" and "c \<in> set cs" and "occ_id c' = occ_id c"
  shows "int (length (filter p (replaced c' cs))) = int (length (filter p cs)) - of_bool (p c) + of_bool (p c')"
proof -
  have n: "int (length (filter p xs)) = sum_list (map (\<lambda>x. of_bool (p x)) xs)" for xs :: "background_occurrence list"
    by (induction xs) auto
  show ?thesis
    unfolding n replaced_def assms(3) using sum_list_replace [OF assms(1,2), where g = "\<lambda>x. of_bool (p x)" and y = c'] by simp
qed

definition active_of :: "OwnerId \<Rightarrow> AgentId \<Rightarrow> (background_occurrence \<Rightarrow> bool) \<Rightarrow> background_occurrence \<Rightarrow> bool" where
  "active_of ow ag p c \<longleftrightarrow> occ_ownerId c = ow \<and> occ_agentId c = ag \<and> is_active c \<and> p c"

definition active_count :: "work_db \<Rightarrow> OwnerId \<Rightarrow> AgentId \<Rightarrow> (background_occurrence \<Rightarrow> bool) \<Rightarrow> int" where
  "active_count db ow ag p = int (length (filter (active_of ow ag p) (wdb_occurrences db)))"

lemma active_count_eq: "int (length (filter p (active_occurrences db ow ag))) = active_count db ow ag p"
  "int (length (active_occurrences db ow ag)) = active_count db ow ag (\<lambda>_. True)"
  unfolding active_occurrences_def active_count_def active_of_def by (simp_all add: conj_ac)

lemma capacity_reason_room:
  assumes "capacity_reason db l c = Inr None"
  shows "active_count db (occ_ownerId c) (occ_agentId c) (\<lambda>_. True) < lim_totalRuns l"
    and "\<not> occ_foreground c \<Longrightarrow>
      active_count db (occ_ownerId c) (occ_agentId c) (\<lambda>x. \<not> occ_foreground x) < lim_totalRuns l - lim_foregroundReserved l"
    and "category_limit (lim_perCategory l) (occ_category c) = Inr (Some n) \<Longrightarrow>
      active_count db (occ_ownerId c) (occ_agentId c) (\<lambda>x. occ_category x = occ_category c) < n"
  using assms unfolding capacity_reason_def Let_def active_count_eq
  by (auto simp: inverts split: if_splits option.splits)

text \<open>
  A count that is bounded by \<open>b\<close> stays bounded, if an admission of an occurrence it counts had found it
  below \<open>b\<close>.
\<close>

lemma active_count_step:
  assumes ch: "occurrences_change l db (wdb_occurrences db')" and d: "distinct (map occ_id (wdb_occurrences db))"
    and bound: "active_count db ow ag p \<le> b"
    and scope: "\<And>c c'. same_scope c' c \<Longrightarrow> p c' = p c"
    and room: "\<And>c. capacity_reason db l c = Inr None \<Longrightarrow> occ_ownerId c = ow \<Longrightarrow> occ_agentId c = ag \<Longrightarrow> p c \<Longrightarrow>
      active_count db ow ag p < b"
  shows "active_count db' ow ag p \<le> b"
proof -
  from ch consider "wdb_occurrences db' = wdb_occurrences db"
    | c where "wdb_occurrences db' = wdb_occurrences db @ [c]" "occ_status c = occ_queued"
    | c c' where "row_change l db c c'" "wdb_occurrences db' = replaced c' (wdb_occurrences db)"
    unfolding occurrences_change_def by blast
  then show ?thesis
  proof cases
    case (3 c c')
    then have c: "c \<in> set (wdb_occurrences db)" "occ_id c' = occ_id c" "same_scope c' c"
      and act: "is_active c' \<Longrightarrow> is_active c \<or> capacity_reason db l c = Inr None"
      using readOccurrence_Some by (auto simp: row_change_def same_scope_def)
    have "active_of ow ag p c' \<Longrightarrow> active_of ow ag p c \<or> active_count db ow ag p < b"
      using act room [of c] scope [OF c(3)] c(3) by (auto simp: active_of_def same_scope_def)
    moreover have "active_count db' ow ag p = active_count db ow ag p - of_bool (active_of ow ag p c) + of_bool (active_of ow ag p c')"
      unfolding active_count_def 3(2) by (rule count_replaced [OF d c(1,2)])
    ultimately show ?thesis using bound by (cases "active_of ow ag p c'"; cases "active_of ow ag p c") auto
  qed (use bound in \<open>auto simp: active_count_def active_of_def is_active_def\<close>)
qed

definition jobs_exclusive :: "background_occurrence list \<Rightarrow> bool" where
  "jobs_exclusive cs \<longleftrightarrow> (\<forall>c\<in>set cs. \<forall>d\<in>set cs. holds_job c \<and> holds_job d \<and> occ_jobId c = occ_jobId d \<and> occ_id c \<noteq> occ_id d \<longrightarrow>
     occ_parallelSafe c)"

lemma jobs_exclusiveD:
  "jobs_exclusive cs \<Longrightarrow> c \<in> set cs \<Longrightarrow> d \<in> set cs \<Longrightarrow> holds_job c \<Longrightarrow> holds_job d \<Longrightarrow> occ_jobId c = occ_jobId d \<Longrightarrow>
     occ_id c \<noteq> occ_id d \<Longrightarrow> occ_parallelSafe c"
  unfolding jobs_exclusive_def by blast

lemma job_free:
  assumes "\<not> job_busy db c" and "d \<in> set (wdb_occurrences db)" and "holds_job d" and "occ_jobId d = occ_jobId c" and "occ_id d \<noteq> occ_id c"
  shows "occ_parallelSafe c \<and> occ_parallelSafe d"
proof -
  have "d \<in> set (other_holders db c)" using assms by (simp add: other_holders_def)
  with assms(1) show ?thesis by (auto simp: job_busy_def filter_empty_conv length_greater_0_conv)
qed

lemma jobs_exclusive_step:
  assumes ch: "occurrences_change l db (wdb_occurrences db')" and excl: "jobs_exclusive (wdb_occurrences db)"
  shows "jobs_exclusive (wdb_occurrences db')"
proof -
  from ch consider "wdb_occurrences db' = wdb_occurrences db"
    | c where "wdb_occurrences db' = wdb_occurrences db @ [c]" "occ_status c = occ_queued"
    | c c' where "row_change l db c c'" "wdb_occurrences db' = replaced c' (wdb_occurrences db)"
    unfolding occurrences_change_def by blast
  then show ?thesis
  proof cases
    case (2 c)
    with excl show ?thesis by (auto simp: jobs_exclusive_def holds_job_def)
  next
    case (3 c c')
    then have c: "c \<in> set (wdb_occurrences db)" "same_scope c' c" and hold: "holds_job c' \<Longrightarrow> holds_job c \<or> \<not> job_busy db c"
      using readOccurrence_Some by (auto simp: row_change_def)
    have safe: "occ_parallelSafe c \<and> occ_parallelSafe d" if "holds_job c'" "d \<in> set (wdb_occurrences db)" "holds_job d"
      "occ_jobId d = occ_jobId c" "occ_id d \<noteq> occ_id c" for d
      using hold [OF that(1)] job_free [OF _ that(2-5)] jobs_exclusiveD [OF excl c(1) that(2)] jobs_exclusiveD [OF excl that(2) c(1)] that
      by metis
    have mem: "x = c' \<or> x \<in> set (wdb_occurrences db) \<and> occ_id x \<noteq> occ_id c" if "x \<in> set (wdb_occurrences db')" for x
      using that 3(2) c(2) by (auto simp: replaced_def same_scope_def)
    show ?thesis unfolding jobs_exclusive_def
    proof (intro ballI impI)
      fix x y
      assume xy: "x \<in> set (wdb_occurrences db')" "y \<in> set (wdb_occurrences db')"
        "holds_job x \<and> holds_job y \<and> occ_jobId x = occ_jobId y \<and> occ_id x \<noteq> occ_id y"
      from mem [OF xy(1)] mem [OF xy(2)] show "occ_parallelSafe x"
        using xy(3) safe [of x] safe [of y] c(2) jobs_exclusiveD [OF excl, of x y] by (auto simp: same_scope_def)
    qed
  qed (use excl in simp)
qed

lemma occurrence_ids_step:
  assumes ch: "occurrences_change l db (wdb_occurrences db')" and d: "distinct (map occ_id (wdb_occurrences db))"
  shows "distinct (map occ_id (wdb_occurrences db'))"
proof -
  have ids: "map occ_id (replaced c' cs) = map occ_id cs" for c' cs by (induction cs) (auto simp: replaced_def)
  have fresh: "occ_id x \<noteq> occ_id c" if "readOccurrence db (occ_id c) = None" "x \<in> set (wdb_occurrences db)" for c x
    using that has_row_iff [of occ_id "occ_id c" "wdb_occurrences db"] by (auto simp: readOccurrence_def has_row_def list_ex_iff)
  from ch consider "wdb_occurrences db' = wdb_occurrences db"
    | c where "wdb_occurrences db' = wdb_occurrences db @ [c]" "readOccurrence db (occ_id c) = None"
    | c c' where "wdb_occurrences db' = replaced c' (wdb_occurrences db)"
    unfolding occurrences_change_def by blast
  then show ?thesis
  proof cases
    case (2 c)
    have "occ_id c \<notin> set (map occ_id (wdb_occurrences db))"
    proof
      assume "occ_id c \<in> set (map occ_id (wdb_occurrences db))"
      then obtain x where x: "x \<in> set (wdb_occurrences db)" and eq: "occ_id x = occ_id c" by auto
      from fresh [OF 2(2) x] eq show False by blast
    qed
    with d show ?thesis unfolding 2(1) by simp
  qed (use d ids in simp_all)
qed

text \<open>
  C31. Background work stays within its configured capacity. Under one valid configuration of the limits and
  starting without occurrences, no sequence of creations, admissions, claims and settlements ever has more
  occurrences admitted or running for an owner and agent than the total, more background ones than the total
  less what is reserved for the foreground, or more of a category than that category's limit; and two
  occurrences hold the same job at once only if both may run in parallel.
\<close>

theorem capacity_never_exceeded:
  assumes "limits_valid l" and "(background_step l)\<^sup>*\<^sup>* db0 db" and "wdb_occurrences db0 = []"
  shows "let active = active_occurrences db ow ag in
    int (length active) \<le> lim_totalRuns l \<and>
    int (length (filter (\<lambda>c. \<not> occ_foreground c) active)) \<le> lim_totalRuns l - lim_foregroundReserved l \<and>
    (\<forall>k n. category_limit (lim_perCategory l) k = Inr (Some n) \<longrightarrow>
       int (length (filter (\<lambda>c. occ_category c = k) active)) \<le> n) \<and>
    (\<forall>c\<in>set (wdb_occurrences db). \<forall>d\<in>set (wdb_occurrences db).
       holds_job c \<and> holds_job d \<and> occ_jobId c = occ_jobId d \<and> occ_id c \<noteq> occ_id d \<longrightarrow> occ_parallelSafe c)"
proof -
  have inv: "distinct (map occ_id (wdb_occurrences db)) \<and> jobs_exclusive (wdb_occurrences db) \<and>
      active_count db ow ag (\<lambda>_. True) \<le> lim_totalRuns l \<and>
      active_count db ow ag (\<lambda>c. \<not> occ_foreground c) \<le> lim_totalRuns l - lim_foregroundReserved l \<and>
      (\<forall>k n. category_limit (lim_perCategory l) k = Inr (Some n) \<longrightarrow> active_count db ow ag (\<lambda>c. occ_category c = k) \<le> n)"
    using assms(2,3)
  proof (induction rule: rtranclp_induct)
    case base
    have "category_limit (lim_perCategory l) k = Inr (Some n) \<Longrightarrow> 0 \<le> n" for k n
      by (auto simp: category_limit_def split: option.splits if_splits)
    with base assms(1) show ?case by (simp add: jobs_exclusive_def active_count_def limits_valid_def)
  next
    case (step y z)
    note ch = background_step_change [OF step.hyps(2)]
    from step.IH [OF step.prems] have d: "distinct (map occ_id (wdb_occurrences y))" and e: "jobs_exclusive (wdb_occurrences y)"
      and t: "active_count y ow ag (\<lambda>_. True) \<le> lim_totalRuns l"
      and b: "active_count y ow ag (\<lambda>c. \<not> occ_foreground c) \<le> lim_totalRuns l - lim_foregroundReserved l"
      and k: "category_limit (lim_perCategory l) k = Inr (Some n) \<Longrightarrow> active_count y ow ag (\<lambda>c. occ_category c = k) \<le> n" for k n
      by blast+
    have "active_count z ow ag (\<lambda>c. occ_category c = k) \<le> n" if n: "category_limit (lim_perCategory l) k = Inr (Some n)" for k n
      by (rule active_count_step [OF ch d k [OF n]]) (use n capacity_reason_room(3) in \<open>auto simp: same_scope_def\<close>)
    moreover have "active_count z ow ag (\<lambda>_. True) \<le> lim_totalRuns l"
      by (rule active_count_step [OF ch d t]) (use capacity_reason_room(1) in auto)
    moreover have "active_count z ow ag (\<lambda>c. \<not> occ_foreground c) \<le> lim_totalRuns l - lim_foregroundReserved l"
      by (rule active_count_step [OF ch d b]) (use capacity_reason_room(2) in \<open>auto simp: same_scope_def\<close>)
    ultimately show ?case using occurrence_ids_step [OF ch d] jobs_exclusive_step [OF ch e] by blast
  qed
  then show ?thesis unfolding Let_def active_count_eq jobs_exclusive_def by blast
qed

section \<open>Work leases\<close>

lemma readOccurrence_step:
  assumes "occurrences_change l db (wdb_occurrences db')" and "readOccurrence db i = Some c"
  shows "\<exists>c'. readOccurrence db' i = Some c' \<and> (c' = c \<or> occ_revision c < occ_revision c')"
proof -
  from assms(1) consider "wdb_occurrences db' = wdb_occurrences db"
    | x where "wdb_occurrences db' = wdb_occurrences db @ [x]"
    | x c' where "row_change l db x c'" "wdb_occurrences db' = replaced c' (wdb_occurrences db)"
    unfolding occurrences_change_def by blast
  then show ?thesis
  proof cases
    case (3 x c')
    show ?thesis
    proof (cases "occ_id x = i")
      case True
      then have "x = c" using 3(1) assms(2) by (simp add: row_change_def)
      with 3 True assms(2) show ?thesis by (auto simp: row_change_def same_scope_def readOccurrence_def row_of_replaced)
    next
      case False
      with 3 assms(2) show ?thesis by (auto simp: row_change_def same_scope_def readOccurrence_def row_of_replaced)
    qed
  qed (use assms(2) in \<open>auto simp: readOccurrence_def row_of_append\<close>)
qed

interpretation occurrences: versioned_table readOccurrence occ_revision "background_step l" for l
  by unfold_locales (blast intro: readOccurrence_step background_step_change)

lemma claimed_occurrence_row: "claimOccurrence db w = Inr (db', c) \<Longrightarrow> readOccurrence db' (wc_occurrenceId w) = Some c \<and>
    occ_status c = occ_running \<and> occ_revision c = wc_expectedRevision w + 1 \<and>
    (\<exists>l. occ_workLease c = Some l \<and> wl_id l = wc_leaseId w \<and> wl_holderId l = wc_holderId w \<and> wl_expiresAt l = wc_expiresAt w)"
proof (erule claimOccurrence_Inr)
  fix b
  assume b: "readOccurrence db (wc_occurrenceId w) = Some b" "occ_revision b = wc_expectedRevision w"
    "c = claimed_occurrence w b" "db' = writeOccurrence db c"
  then have "readOccurrence db' (wc_occurrenceId w) = Some c"
    using readOccurrence_Some [OF b(1)] by (simp add: readOccurrence_def row_of_replaced)
  with b show ?thesis by (simp add: claimed_occurrence_def)
qed

text \<open>
  A work lease is exclusive. After a worker has claimed an occurrence, whatever else happens to the
  store: a settlement that is accepted under the revision the claim returned finds exactly the row of the
  claim, so nobody wrote it in between, and names the lease of the claim; and as long as the row is
  that of the claim, another claim is accepted only once the lease has expired.
\<close>

theorem work_lease_exclusive:
  assumes "claimOccurrence db w = Inr (db1, c)" and "(background_step l)\<^sup>*\<^sup>* db1 db2"
  shows "(settleOccurrence db2 s = Inr (db3, r) \<and> os_occurrenceId s = wc_occurrenceId w \<and>
       os_expectedRevision s = occ_revision c \<longrightarrow>
         readOccurrence db2 (wc_occurrenceId w) = Some c \<and> os_leaseId s = wc_leaseId w) \<and>
    (claimOccurrence db2 v = Inr (db3, r) \<and> wc_occurrenceId v = wc_occurrenceId w \<and>
       readOccurrence db2 (wc_occurrenceId w) = Some c \<longrightarrow> wc_expiresAt w \<le> wc_claimedAt v)"
proof (intro conjI impI; elim conjE)
  note c = claimed_occurrence_row [OF assms(1)]
  { assume s: "settleOccurrence db2 s = Inr (db3, r)" "os_occurrenceId s = wc_occurrenceId w" "os_expectedRevision s = occ_revision c"
    from s(1) obtain d where d: "readOccurrence db2 (wc_occurrenceId w) = Some d" "occ_revision d = occ_revision c"
      "map_option wl_id (occ_workLease d) = Some (os_leaseId s)"
      by (rule settleOccurrence_Inr) (use s in simp)
    with occurrences.same_revision_same_row [OF assms(2) conjunct1 [OF c] d(1)] have "d = c" by simp
    with d c show "readOccurrence db2 (wc_occurrenceId w) = Some c" "os_leaseId s = wc_leaseId w" by auto }
  assume v: "claimOccurrence db2 v = Inr (db3, r)" "wc_occurrenceId v = wc_occurrenceId w" "readOccurrence db2 (wc_occurrenceId w) = Some c"
  from v(1) show "wc_expiresAt w \<le> wc_claimedAt v"
    by (rule claimOccurrence_Inr) (use v c in \<open>auto simp: reclaimable_def\<close>)
qed

section \<open>Retries\<close>

lemma settled_row:
  assumes "settleOccurrence db s = Inr (db', r)"
  shows "readOccurrence db' (os_occurrenceId s) = Some r"
  using assms
proof (rule settleOccurrence_Inr)
  fix c d db1 b t
  assume c: "readOccurrence db (os_occurrenceId s) = Some c" "settleOccurrenceBudget db c s = Inr (db1, b)"
    "r = settled_occurrence s c b d" "db' = writeOccurrence db1 r"
  with readOccurrence_Some [OF c(1)] reserveOccurrence_occurrences(2) [OF c(2)] show ?thesis
    by (simp add: readOccurrence_def row_of_replaced)
qed

lemma retry_jitter_bounds: "0 \<le> e \<Longrightarrow> 0 \<le> retry_jitter r e \<and> 5 * retry_jitter r e \<le> e"
proof -
  assume e: "0 \<le> e"
  have m: "0 \<le> rp_jitterSeed r mod 201" "rp_jitterSeed r mod 201 \<le> 200"
    using pos_mod_sign [of 201 "rp_jitterSeed r"] pos_mod_bound [of 201 "rp_jitterSeed r"] by linarith+
  have "e * (rp_jitterSeed r mod 201) \<le> e * 200" using e m by (intro mult_left_mono) auto
  then have "e * (rp_jitterSeed r mod 201) div 1000 \<le> e * 200 div 1000" by (intro zdiv_mono1) auto
  moreover have "0 \<le> e * (rp_jitterSeed r mod 201) div 1000"
    using e m by (simp add: pos_imp_zdiv_nonneg_iff)
  moreover have "5 * (e * 200 div 1000) \<le> e"
    using div_mult_mod_eq [of "e * 200" 1000] pos_mod_sign [of 1000 "e * 200"] by linarith
  ultimately show ?thesis unfolding retry_jitter_def by linarith
qed

lemma exponential_delay_bounds:
  assumes "retry_valid r"
  shows "rp_baseDelayMs r \<le> exponential_delay r n" "exponential_delay r n \<le> rp_maxDelayMs r" "0 < exponential_delay r n"
proof -
  from assms have b: "1 \<le> rp_baseDelayMs r" "rp_baseDelayMs r \<le> rp_maxDelayMs r" by (auto simp: retry_valid_def)
  have "rp_baseDelayMs r * 1 \<le> rp_baseDelayMs r * 2 ^ nat (max 0 (n - 1))" using b by (intro mult_left_mono) auto
  with b show "rp_baseDelayMs r \<le> exponential_delay r n" by (simp add: exponential_delay_def)
  with b show "exponential_delay r n \<le> rp_maxDelayMs r" "0 < exponential_delay r n" by (auto simp: exponential_delay_def)
qed

lemma settlement_retry:
  assumes "settlement_decision c s t = Inr (st, Some at, code)"
  obtains "retry_valid (os_retry s)" and "occ_attemptCount c < rp_maxAttempts (os_retry s)" and "st = occ_retry_wait"
    and "toISOString (t + exponential_delay (os_retry s) (occ_attemptCount c) +
           retry_jitter (os_retry s) (exponential_delay (os_retry s) (occ_attemptCount c))) = Inr at"
    and "at < occ_deadlineAt c"
  using assms unfolding settlement_decision_def retry_decision_def Let_def
  by (auto simp: inverts split: if_splits option.splits failure_class.splits)

lemma not_yet_due:
  assumes c: "readOccurrence db (ad_occurrenceId inp) = Some c" "occ_status c = occ_retry_wait" "occ_nextRetryAt c = Some at"
    and inp: "ad_admittedAt inp < at" "reserveBackgroundAdmission db inp = Inr (db', a)"
  shows "db' = db \<and> am_outcome a \<in> {adm_blocked, adm_reconcile_required}"
proof -
  have "standing_answer db inp c \<noteq> Inr None"
    "standing_answer db inp c = Inr (Some (x, y)) \<Longrightarrow> x \<in> {adm_blocked, adm_reconcile_required}" for x y
    using c(2,3) inp(1) by (auto simp: standing_answer_def inverts split: if_splits)
  with inp(2) show ?thesis by (elim admission_cases) (use c(1) in auto)
qed

text \<open>
  C32. Retries back off within bounds. When a settlement schedules a retry, the worker had attempts left and
  the new instant lies before the deadline; its distance from the settlement is the exponential delay of
  the attempt, between the base delay and the maximum, plus at most a fifth of it; and until that instant
  an admission of the occurrence changes nothing.
\<close>

theorem retry_backoff:
  assumes "settleOccurrence db s = Inr (db', r)" and "occ_nextRetryAt r = Some at"
  shows "\<exists>c ts t. readOccurrence db (os_occurrenceId s) = Some c \<and> date_parse (os_settledAt s) = Some ts \<and> date_parse at = Some t \<and>
    (let d = exponential_delay (os_retry s) (occ_attemptCount c) in
       occ_attemptCount c < rp_maxAttempts (os_retry s) \<and> at < occ_deadlineAt r \<and>
       rp_baseDelayMs (os_retry s) \<le> d \<and> d \<le> rp_maxDelayMs (os_retry s) \<and> ts + d \<le> t \<and> 5 * (t - (ts + d)) \<le> d) \<and>
    (\<forall>inp db'' a. ad_occurrenceId inp = os_occurrenceId s \<and> ad_admittedAt inp < at \<and>
       reserveBackgroundAdmission db' inp = Inr (db'', a) \<longrightarrow>
         db'' = db' \<and> am_outcome a \<in> {adm_blocked, adm_reconcile_required})"
  using assms(1)
proof (rule settleOccurrence_Inr)
  fix c d db1 b ts
  assume c: "readOccurrence db (os_occurrenceId s) = Some c" "date_parse (os_settledAt s) = Some ts"
    "settlement_decision c s ts = Inr d" "r = settled_occurrence s c b d"
  let ?e = "exponential_delay (os_retry s) (occ_attemptCount c)"
  obtain st code where d: "d = (st, Some at, code)"
    using assms(2) c(4) by (cases d) (auto simp: settled_occurrence_def)
  from c(3) [unfolded d] show ?thesis
  proof (rule settlement_retry)
    assume v: "retry_valid (os_retry s)" "occ_attemptCount c < rp_maxAttempts (os_retry s)" "st = occ_retry_wait"
      "toISOString (ts + ?e + retry_jitter (os_retry s) ?e) = Inr at" "at < occ_deadlineAt c"
    note e = exponential_delay_bounds [OF v(1), of "occ_attemptCount c"]
    have t: "date_parse at = Some (ts + ?e + retry_jitter (os_retry s) ?e)"
      using v(4) date_parse_iso by (auto simp: toISOString_Inr)
    have r: "occ_status r = occ_retry_wait" "occ_deadlineAt r = occ_deadlineAt c"
      using c(4) d v(3) by (simp_all add: settled_occurrence_def)
    have "0 \<le> retry_jitter (os_retry s) ?e \<and> 5 * retry_jitter (os_retry s) ?e \<le> ?e"
      by (rule retry_jitter_bounds) (use e in simp)
    then have "ts + ?e \<le> ts + ?e + retry_jitter (os_retry s) ?e \<and> 5 * (ts + ?e + retry_jitter (os_retry s) ?e - (ts + ?e)) \<le> ?e"
      by simp
    moreover have "\<forall>inp db'' a. ad_occurrenceId inp = os_occurrenceId s \<and> ad_admittedAt inp < at \<and>
        reserveBackgroundAdmission db' inp = Inr (db'', a) \<longrightarrow> db'' = db' \<and> am_outcome a \<in> {adm_blocked, adm_reconcile_required}"
      using not_yet_due [OF _ r(1) assms(2)] settled_row [OF assms(1)] by metis
    ultimately show ?thesis using c(1,2) t v(2,5) e(1,2) r(2) by (auto simp: Let_def)
  qed
qed

section \<open>Occurrences that nothing moves\<close>

text \<open>
  Steps that happen at or after \<open>at\<close>: as \<open>background_step\<close>, with claims that carry such a time.
\<close>

inductive late_step :: "string \<Rightarrow> work_db \<Rightarrow> work_db \<Rightarrow> bool" for at where
  late_created: "createOccurrence db c = Inr (db', r) \<Longrightarrow> late_step at db db'"
| late_admitted: "reserveBackgroundAdmission db inp = Inr (db', r) \<Longrightarrow> late_step at db db'"
| late_claimed: "claimOccurrence db w = Inr (db', r) \<Longrightarrow> plain_instant (wc_claimedAt w) \<Longrightarrow> plain_instant (wc_expiresAt w) \<Longrightarrow>
    at \<le> wc_claimedAt w \<Longrightarrow> late_step at db db'"
| late_settled: "settleOccurrence db s = Inr (db', r) \<Longrightarrow> late_step at db db'"
| late_kept: "wdb_occurrences db' = wdb_occurrences db \<Longrightarrow> late_step at db db'"

definition dead_end :: "string \<Rightarrow> background_occurrence \<Rightarrow> bool" where
  "dead_end at c \<longleftrightarrow> occ_status c = occ_admitted \<and> occ_deadlineAt c \<le> at \<or>
     occ_status c \<in> {occ_blocked_credentials, occ_blocked_approval}"

lemma readOccurrence_replaced:
  "occ_id c' \<noteq> i \<Longrightarrow> wdb_occurrences db' = replaced c' (wdb_occurrences db) \<Longrightarrow> readOccurrence db' i = readOccurrence db i"
  by (simp add: readOccurrence_def row_of_replaced)

lemma readOccurrence_written: "occ_id c' \<noteq> i \<Longrightarrow> readOccurrence (writeOccurrence db c') i = readOccurrence db i"
  by (simp add: readOccurrence_replaced)

lemma late_step_keeps:
  assumes "late_step at db db'" and c: "readOccurrence db i = Some c" "dead_end at c"
  shows "readOccurrence db' i = Some c"
  using assms(1)
proof cases
  case (late_created x r)
  then show ?thesis using createOccurrence_change c(1) by (auto simp: createOccurrence_def inverts readOccurrence_def row_of_append split: option.splits)
next
  case (late_admitted inp r)
  then show ?thesis
  proof (elim admission_cases)
    fix x
    assume x: "readOccurrence db (ad_occurrenceId inp) = Some x"
      and d: "(\<exists>outcome reason. standing_answer db inp x = Inr (Some (outcome, reason)) \<and> db' = db \<and> am_occurrence r = x \<and>
            am_outcome r = outcome \<and> am_reasonCode r = reason) \<or>
        standing_answer db inp x = Inr None \<and> isCanonicalTimestamp (ad_admittedAt inp) \<and> ad_admittedAt inp \<ge> occ_deadlineAt x \<and>
          db' = writeOccurrence db (expired_occurrence inp x) \<and> am_occurrence r = expired_occurrence inp x \<and>
          am_outcome r = adm_deadline_exceeded \<or>
        standing_answer db inp x = Inr None \<and> ad_admittedAt inp < occ_deadlineAt x \<and> decide_admission db inp x = Inr (db', r)"
    have "standing_answer db inp x = Inr None \<Longrightarrow> occ_id x \<noteq> i"
      using standing_None [of db inp x] c x readOccurrence_Some [OF x] by (auto simp: dead_end_def)
    moreover have "decide_admission db inp x = Inr (db', r) \<Longrightarrow> \<exists>x'. occ_id x' = occ_id x \<and> wdb_occurrences db' = replaced x' (wdb_occurrences db)"
      by (elim decide_admission_Inr) (metis update_fields(2) writeOccurrence_occurrences)
    ultimately show ?thesis using d c(1)
      by (metis readOccurrence_replaced update_fields(1) writeOccurrence_occurrences)
  qed
next
  case (late_claimed w r)
  from late_claimed(1) show ?thesis
  proof (rule claimOccurrence_Inr)
    fix x
    assume x: "readOccurrence db (wc_occurrenceId w) = Some x" "isAfter (wc_expiresAt w) (wc_claimedAt w)"
      "wc_expiresAt w \<le> occ_deadlineAt x" "occ_status x = occ_admitted \<or> reclaimable x (wc_claimedAt w)"
      "r = claimed_occurrence w x" "db' = writeOccurrence db r"
    have "wc_claimedAt w < occ_deadlineAt x" using x(2,3) isAfter_plain [OF late_claimed(3,2)] by simp
    then have "occ_id x \<noteq> i"
      using x(1,4) c readOccurrence_Some [OF x(1)] late_claimed(4) by (auto simp: dead_end_def reclaimable_def)
    with x(5,6) c(1) show ?thesis by (simp add: readOccurrence_written)
  qed
next
  case (late_settled s r)
  from late_settled(1) show ?thesis
  proof (rule settleOccurrence_Inr)
    fix x d db1 b t
    assume x: "readOccurrence db (os_occurrenceId s) = Some x" "occ_status x = occ_running"
      "settleOccurrenceBudget db x s = Inr (db1, b)" "r = settled_occurrence s x b d" "db' = writeOccurrence db1 r"
    have "occ_id x \<noteq> i" using x(1,2) c readOccurrence_Some [OF x(1)] by (auto simp: dead_end_def)
    moreover have "wdb_occurrences db' = replaced r (wdb_occurrences db)"
      using x(5) reserveOccurrence_occurrences(2) [OF x(3)] by simp
    ultimately show ?thesis using x(4) c(1) readOccurrence_replaced [of r i db' db] by simp
  qed
qed (use c in \<open>simp add: readOccurrence_def\<close>)

text \<open>
  C33. Occurrences that nothing moves. An occurrence that is admitted when its deadline passes, or that a
  settlement left blocked on credentials or approval, is never changed again by any operation of the store,
  although the transition table of the domain lets each of these states end. An admitted one uses
  capacity for good: with as many of them as the configured total, no admission of the owner and agent ever
  succeeds again.
\<close>

theorem dead_end_keeps_capacity:
  assumes "(late_step at)\<^sup>*\<^sup>* db db'" and "readOccurrence db i = Some c" and "dead_end at c"
  shows "readOccurrence db' i = Some c \<and> occ_failed_terminal \<in> set (OCCURRENCE_TRANSITIONS (occ_status c)) \<and>
    (int (length (filter (\<lambda>x. occ_status x = occ_admitted \<and> occ_deadlineAt x \<le> at)
       (active_occurrences db' (occ_ownerId e) (occ_agentId e)))) \<ge> lim_totalRuns (ad_limits inp) \<longrightarrow>
     readOccurrence db' (ad_occurrenceId inp) = Some e \<longrightarrow>
     reserveBackgroundAdmission db' inp = Inr (db'', a) \<longrightarrow> am_outcome a \<noteq> adm_admitted)"
proof (intro conjI impI)
  show "readOccurrence db' i = Some c"
    using assms by (induction rule: rtranclp_induct) (blast intro: late_step_keeps)+
  show "occ_failed_terminal \<in> set (OCCURRENCE_TRANSITIONS (occ_status c))" using assms(3) by (auto simp: dead_end_def)
  assume full: "int (length (filter (\<lambda>x. occ_status x = occ_admitted \<and> occ_deadlineAt x \<le> at)
       (active_occurrences db' (occ_ownerId e) (occ_agentId e)))) \<ge> lim_totalRuns (ad_limits inp)"
    and e: "readOccurrence db' (ad_occurrenceId inp) = Some e" and adm: "reserveBackgroundAdmission db' inp = Inr (db'', a)"
  have len: "lim_totalRuns (ad_limits inp) \<le> int (length (active_occurrences db' (occ_ownerId e) (occ_agentId e)))"
    by (rule order_trans [OF full]) (simp add: length_filter_le)
  have standing: "standing_answer db' inp e = Inr (Some (x, y)) \<Longrightarrow> x \<noteq> adm_admitted" for x y
    by (auto simp: standing_answer_def inverts split: if_splits)
  have no: "capacity_reason db' (ad_limits inp) e \<noteq> Inr None"
    using capacity_reason_room(1) [of db' "ad_limits inp" e] len by (auto simp: active_count_eq [symmetric])
  have "decide_admission db' inp e = Inr (db'', a) \<Longrightarrow> am_outcome a \<noteq> adm_admitted"
    by (elim decide_admission_Inr) (use no in \<open>auto split: if_splits\<close>)
  with adm show "am_outcome a \<noteq> adm_admitted" by (elim admission_cases) (use e standing in auto)
qed

section \<open>Witnesses\<close>

abbreviation example_work_fence :: product_authority_fence where
  "example_work_fence \<equiv> \<lparr>fence_deploymentId = ''d'', fence_authorityEpoch = 3, fence_fencingToken = 1\<rparr>"

definition example_occurrence :: "OccurrenceId \<Rightarrow> background_occurrence" where
  "example_occurrence i = \<lparr>occ_id = i, occ_jobId = ''j'', occ_ownerId = ''o'', occ_agentId = ''a'', occ_revision = 1,
     occ_stableKey = i, occ_status = occ_queued, occ_authority = example_work_fence, occ_category = ''monitor'',
     occ_dataClassification = class_private, occ_foreground = False, occ_parallelSafe = True,
     occ_estimatedCostMicros = 40, occ_reservedCostMicros = 0, occ_spentCostMicros = 0, occ_attemptCount = 0,
     occ_nextRetryAt = None, occ_deadlineAt = ''2026-01-01T01:00:00.000Z'', occ_runId = None, occ_workLease = None,
     occ_lastErrorCode = None\<rparr>"

definition example_limits :: admission_limits where
  "example_limits = \<lparr>lim_globalCostMicros = 1000, lim_perRunCostMicros = 100, lim_perClassificationCostMicros = (\<lambda>_. 500),
     lim_totalRuns = 1, lim_foregroundReserved = 0, lim_perCategory = [(''monitor'', 1)]\<rparr>"

definition example_admission :: "OccurrenceId \<Rightarrow> admission_reservation" where
  "example_admission i = \<lparr>ad_occurrenceId = i, ad_expectedRevision = 1, ad_runId = ''r'', ad_authority = example_work_fence,
     ad_limits = example_limits, ad_admittedAt = ''2026-01-01T00:00:00.000Z''\<rparr>"

definition example_work_claim :: occurrence_lease_input where
  "example_work_claim = \<lparr>wc_occurrenceId = ''o1'', wc_expectedRevision = 2, wc_authority = example_work_fence, wc_leaseId = ''l1'',
     wc_holderId = ''w1'', wc_claimedAt = ''2026-01-01T00:01:00.000Z'', wc_expiresAt = ''2026-01-01T00:06:00.000Z''\<rparr>"

definition example_work_settlement :: occurrence_settlement where
  "example_work_settlement = \<lparr>os_occurrenceId = ''o1'', os_expectedRevision = 3, os_authority = example_work_fence,
     os_leaseId = ''l1'', os_settledAt = ''2026-01-01T00:02:00.000Z'', os_outcome = oo_failed, os_spentCostMicros = 10,
     os_errorCode = Some ''TIMEOUT'', os_failureClass = Some fc_transport,
     os_retry = \<lparr>rp_maxAttempts = 3, rp_baseDelayMs = 60000, rp_maxDelayMs = 600000, rp_jitterSeed = 100\<rparr>\<rparr>"

text \<open>The store without occurrences, and after each of creating, admitting and claiming one.\<close>

definition example_jobs_store :: work_db where
  "example_jobs_store = example_work_db\<lparr>wdb_jobs := [example_job\<lparr>sj_id := ''j'', sj_ownerId := ''o'', sj_agentId := ''a''\<rparr>]\<rparr>"

definition example_queued_store :: work_db where
  "example_queued_store = example_jobs_store\<lparr>wdb_occurrences := [example_occurrence ''o1'']\<rparr>"

definition example_admitted :: background_occurrence where
  "example_admitted = (example_occurrence ''o1'')\<lparr>occ_revision := 2, occ_status := occ_admitted, occ_runId := Some ''r'',
     occ_reservedCostMicros := 40\<rparr>"

definition example_admitted_store :: work_db where
  "example_admitted_store = example_jobs_store\<lparr>wdb_occurrences := [example_admitted],
     wdb_accounts := [\<lparr>ba_ownerId = ''o'', ba_agentId = ''a'', ba_accountId = ''occurrence:o1'', ba_parentKind = kind_occurrence,
       ba_runId = None, ba_occurrenceId = Some ''o1'', ba_projectionJobId = None, ba_dataClassification = class_private,
       ba_reservedCostMicros = 40, ba_spentCostMicros = 0, ba_status = ba_active, ba_revision = 1\<rparr>]\<rparr>"

definition example_running_store :: work_db where
  "example_running_store = writeOccurrence example_admitted_store (claimed_occurrence example_work_claim example_admitted)"

lemma example_background_steps:
  "createOccurrence example_jobs_store (example_occurrence ''o1'') = Inr (example_queued_store, example_occurrence ''o1'')"
  "case reserveBackgroundAdmission example_queued_store (example_admission ''o1'') of
     Inr (db, a) \<Rightarrow> db = example_admitted_store \<and> am_outcome a = adm_admitted | _ \<Rightarrow> False"
  "claimOccurrence example_admitted_store example_work_claim =
     Inr (example_running_store, claimed_occurrence example_work_claim example_admitted)"
  by code_simp+

lemma example_background_history: "(background_step example_limits)\<^sup>*\<^sup>* example_jobs_store example_running_store"
proof -
  obtain a where "reserveBackgroundAdmission example_queued_store (example_admission ''o1'') = Inr (example_admitted_store, a)"
    using example_background_steps(2) by (auto split: sum.splits)
  then have "background_step example_limits example_queued_store example_admitted_store"
    by (rule occurrence_admitted) (simp add: example_admission_def)
  with occurrence_created [OF example_background_steps(1)] occurrence_claimed [OF example_background_steps(3)]
  show ?thesis by (meson converse_rtranclp_into_rtranclp rtranclp.rtrancl_refl)
qed

theorem capacity_never_exceeded_witness:
  "length (active_occurrences example_running_store ''o'' ''a'') = 1 \<and> lim_totalRuns example_limits = 1"
proof -
  have "limits_valid example_limits" "wdb_occurrences example_jobs_store = []" by code_simp+
  from capacity_never_exceeded [OF this(1) example_background_history this(2), of "''o''" "''a''"]
  have "int (length (active_occurrences example_running_store ''o'' ''a'')) \<le> 1" by (simp add: Let_def example_limits_def)
  moreover have "active_occurrences example_running_store ''o'' ''a'' \<noteq> []" by code_simp
  ultimately have "length (active_occurrences example_running_store ''o'' ''a'') = 1"
    by (cases "active_occurrences example_running_store ''o'' ''a''") auto
  then show ?thesis by (simp add: example_limits_def)
qed

lemma example_settled:
  "case settleOccurrence example_running_store example_work_settlement of
     Inr (db, r) \<Rightarrow> occ_nextRetryAt r = Some ''2026-01-01T00:03:06.000Z'' | _ \<Rightarrow> False"
  by code_simp

theorem retry_backoff_witness:
  "\<exists>db r ts t. settleOccurrence example_running_store example_work_settlement = Inr (db, r) \<and>
     date_parse ''2026-01-01T00:02:00.000Z'' = Some ts \<and> date_parse ''2026-01-01T00:03:06.000Z'' = Some t \<and> ts + 60000 \<le> t"
proof -
  obtain db r where s: "settleOccurrence example_running_store example_work_settlement = Inr (db, r)"
    "occ_nextRetryAt r = Some ''2026-01-01T00:03:06.000Z''"
    using example_settled by (auto split: sum.splits)
  have b: "rp_baseDelayMs (os_retry example_work_settlement) = 60000" "os_settledAt example_work_settlement = ''2026-01-01T00:02:00.000Z''"
    by code_simp+
  from retry_backoff [OF s] b s(1) show ?thesis by (auto simp: Let_def)
qed

theorem dead_end_keeps_capacity_witness:
  "let db = example_admitted_store\<lparr>wdb_occurrences := [example_admitted, example_occurrence ''o2'']\<rparr> in
   \<exists>db' a. reserveBackgroundAdmission db (example_admission ''o2'') = Inr (db', a) \<and> am_outcome a \<noteq> adm_admitted"
proof -
  let ?db = "example_admitted_store\<lparr>wdb_occurrences := [example_admitted, example_occurrence ''o2'']\<rparr>"
  have "\<not> isl (reserveBackgroundAdmission ?db (example_admission ''o2''))" by code_simp
  then obtain db' a where a: "reserveBackgroundAdmission ?db (example_admission ''o2'') = Inr (db', a)" by (rule not_islE)
  have d: "readOccurrence ?db ''o1'' = Some example_admitted" "dead_end ''2026-01-01T02:00:00.000Z'' example_admitted"
    "readOccurrence ?db (ad_occurrenceId (example_admission ''o2'')) = Some (example_occurrence ''o2'')"
    "int (length (filter (\<lambda>x. occ_status x = occ_admitted \<and> occ_deadlineAt x \<le> ''2026-01-01T02:00:00.000Z'')
       (active_occurrences ?db (occ_ownerId (example_occurrence ''o2'')) (occ_agentId (example_occurrence ''o2''))))) \<ge>
     lim_totalRuns (ad_limits (example_admission ''o2''))"
    by code_simp+
  from dead_end_keeps_capacity [OF rtranclp.rtrancl_refl d(1,2)] d(3,4) a show ?thesis by (metis (no_types, lifting))
qed

end
