(* ===== verification/Background_Service.thy ===== *)
theory Background_Service
  imports Background_Work
begin

text \<open>
  The service for durable background work (\<open>packages/application/src/services/durable-background-work-service.ts\<close>):
  the evaluation of a schedule at an instant, the dispatch of an occurrence over the store and the trigger
  port, and the stable identity of an occurrence.

  Local times come from the time zone database behind \<open>Intl.DateTimeFormat\<close>: the parameter \<open>zone\<close> gives for
  a supported zone the year, month, day, hour and minute its formatter prints for an instant, and \<open>None\<close> for a zone the
  constructor refuses. Nothing is assumed about these functions. Instants are integers of milliseconds; the
  sums and quotients of the source are exact on doubles while a difference of two instants stays below
  $2^{53}$ (285000 years).
\<close>

section \<open>Schedules\<close>

datatype durable_schedule =
    schedule_interval (anchorAt: string) (intervalMs: int) (misfireGraceMs: int)
  | schedule_one_shot (at_instant: string) (misfireGraceMs: int)
  | schedule_daily (timeZone: string) (at_hour: int) (at_minute: int) (misfireGraceMs: int)

datatype schedule_outcome = sched_future | sched_due | sched_skipped | sched_missed

record schedule_evaluation =
  ev_outcome :: schedule_outcome
  ev_scheduledAt :: "string option"
  ev_nextAt :: "string option"
  ev_localDate :: "string option"
  ev_skippedCount :: int

record local_parts =
  lp_year :: string
  lp_month :: string
  lp_day :: string
  lp_hour :: int
  lp_minute :: int

definition lp_date :: "local_parts \<Rightarrow> string" where
  "lp_date p = lp_year p @ ''-'' @ lp_month p @ ''-'' @ lp_day p"

type_synonym time_zones = "string \<Rightarrow> (int \<Rightarrow> local_parts) option"

definition canonicalTimestamp :: "string \<Rightarrow> int result" where
  "canonicalTimestamp value =
     (case date_parse value of
        None \<Rightarrow> port_fail INVALID_OPERATION
      | Some t \<Rightarrow> if isCanonicalTimestamp value then Inr t else port_fail INVALID_OPERATION)"

definition assertNonNegativeInteger :: "int \<Rightarrow> unit result" where
  "assertNonNegativeInteger value = ensure (is_safe_integer value \<and> value \<ge> 0) (ApplicationPortError INVALID_OPERATION)"

definition localParts :: "(int \<Rightarrow> local_parts) \<Rightarrow> int \<Rightarrow> local_parts result" where
  "localParts formatter at = (if valid_time at then Inr (formatter at) else Inl RangeError)"

section \<open>Daily candidates\<close>

text \<open>The loop over the minutes of a window; \<open>seen\<close> holds the local dates that have their candidate.\<close>

function candidates_from :: "(int \<Rightarrow> local_parts) \<Rightarrow> int \<Rightarrow> int \<Rightarrow> int \<Rightarrow> string list \<Rightarrow> int \<Rightarrow> (int \<times> string) list result" where
  "candidates_from formatter hour minute endAt seen at =
     (if at > endAt then Inr []
      else
      andThen (localParts formatter at) (\<lambda>local.
        if lp_hour local = hour \<and> lp_minute local = minute \<and> lp_date local \<notin> set seen
        then andThen (candidates_from formatter hour minute endAt (lp_date local # seen) (at + 60000)) (\<lambda>rest.
               Inr ((at, lp_date local) # rest))
        else candidates_from formatter hour minute endAt seen (at + 60000)))"
  by pat_completeness auto
termination
  by (relation "measure (\<lambda>(_, _, _, endAt, _, at). nat (endAt + 1 - at))") auto

declare candidates_from.simps [simp del]

definition firstMinute :: "int \<Rightarrow> int" where
  "firstMinute startAt = - (- startAt div 60000) * 60000"

definition dailyCandidates :: "time_zones \<Rightarrow> string \<Rightarrow> int \<Rightarrow> int \<Rightarrow> int \<Rightarrow> int \<Rightarrow> string option \<Rightarrow> (int \<times> string) list result" where
  "dailyCandidates zone tz hour minute startAt endAt excludedLocalDate =
     (case zone tz of
        None \<Rightarrow> port_fail INVALID_OPERATION
      | Some formatter \<Rightarrow>
          candidates_from formatter hour minute endAt
            (case excludedLocalDate of None \<Rightarrow> [] | Some d \<Rightarrow> if d = [] then [] else [d]) (firstMinute startAt))"

section \<open>Evaluation of a schedule\<close>

abbreviation evaluation :: "schedule_outcome \<Rightarrow> string option \<Rightarrow> string option \<Rightarrow> string option \<Rightarrow> int \<Rightarrow> schedule_evaluation" where
  "evaluation oc scheduledAt nextAt localDate skipped \<equiv>
     \<lparr>ev_outcome = oc, ev_scheduledAt = scheduledAt, ev_nextAt = nextAt, ev_localDate = localDate, ev_skippedCount = skipped\<rparr>"

definition evaluate_one_shot :: "string \<Rightarrow> int \<Rightarrow> int \<Rightarrow> int option \<Rightarrow> schedule_evaluation result" where
  "evaluate_one_shot at_text grace now lastAt =
     andThen (canonicalTimestamp at_text) (\<lambda>at.
     if (case lastAt of None \<Rightarrow> False | Some l \<Rightarrow> l \<ge> at) then Inr (evaluation sched_future None None None 0)
     else if now < at then andThen (toISOString at) (\<lambda>next. Inr (evaluation sched_future None (Some next) None 0))
     else andThen (toISOString at) (\<lambda>scheduled.
       Inr (evaluation (if now - at \<le> grace then sched_due else sched_missed) (Some scheduled) None None 0)))"

definition evaluate_from :: "int \<Rightarrow> int \<Rightarrow> int \<Rightarrow> int \<Rightarrow> schedule_evaluation result" where
  "evaluate_from first interval grace now =
     (if now < first then andThen (toISOString first) (\<lambda>next. Inr (evaluation sched_future None (Some next) None 0))
      else
      let elapsed = (now - first) div interval; latest = first + elapsed * interval; due = now - latest \<le> grace in
      andThen (if due then andThen (toISOString latest) (\<lambda>s. Inr (Some s)) else Inr None) (\<lambda>scheduled.
      andThen (toISOString (latest + interval)) (\<lambda>next.
        Inr (evaluation (if due then sched_due else sched_skipped) scheduled (Some next) None
               (elapsed + (if due then 0 else 1))))))"

definition evaluate_interval :: "string \<Rightarrow> int \<Rightarrow> int \<Rightarrow> int \<Rightarrow> int option \<Rightarrow> schedule_evaluation result" where
  "evaluate_interval anchor_text interval grace now lastAt =
     andThen (canonicalTimestamp anchor_text) (\<lambda>anchor.
     andThen (ensure (is_safe_integer interval \<and> interval > 0) (ApplicationPortError INVALID_OPERATION)) (\<lambda>_.
       evaluate_from (case lastAt of None \<Rightarrow> anchor | Some l \<Rightarrow> l + interval) interval grace now))"

definition DAY_WINDOW :: int where
  "DAY_WINDOW = 4 * 86400000"

definition last_local_date :: "time_zones \<Rightarrow> string \<Rightarrow> int \<Rightarrow> int \<Rightarrow> int option \<Rightarrow> string option result" where
  "last_local_date zone tz hour minute lastAt =
     (case lastAt of
        None \<Rightarrow> Inr None
      | Some l \<Rightarrow>
          andThen (dailyCandidates zone tz hour minute l l None) (\<lambda>candidates. case candidates of
            (_, d) # _ \<Rightarrow> Inr (Some d)
          | [] \<Rightarrow> (case zone tz of
              None \<Rightarrow> Inl RangeError
            | Some formatter \<Rightarrow> andThen (localParts formatter l) (\<lambda>local. Inr (Some (lp_date local))))))"

definition evaluate_daily :: "time_zones \<Rightarrow> string \<Rightarrow> int \<Rightarrow> int \<Rightarrow> int \<Rightarrow> int \<Rightarrow> int option \<Rightarrow> schedule_evaluation result" where
  "evaluate_daily zone tz hour minute grace now lastAt =
     andThen (ensure (is_safe_integer hour \<and> 0 \<le> hour \<and> hour \<le> 23 \<and> is_safe_integer minute \<and> 0 \<le> minute \<and> minute \<le> 59)
                (ApplicationPortError INVALID_OPERATION)) (\<lambda>_.
     let start = max ((case lastAt of None \<Rightarrow> now - DAY_WINDOW | Some l \<Rightarrow> l) + 1) (now - DAY_WINDOW) in
     andThen (last_local_date zone tz hour minute lastAt) (\<lambda>lastLocalDate.
     andThen (dailyCandidates zone tz hour minute start (now + DAY_WINDOW) lastLocalDate) (\<lambda>all.
     let candidates = filter (\<lambda>(at, _). case lastAt of None \<Rightarrow> True | Some l \<Rightarrow> at > l) all;
         elapsed = filter (\<lambda>(at, _). at \<le> now) candidates;
         future = List.find (\<lambda>(at, _). at > now) candidates in
     andThen (case future of None \<Rightarrow> Inr None | Some (at, _) \<Rightarrow> andThen (toISOString at) (\<lambda>s. Inr (Some s))) (\<lambda>next.
     if elapsed = [] then Inr (evaluation sched_future None next None 0)
     else
     let latest = last elapsed; due = now - fst latest \<le> grace in
     andThen (if due then andThen (toISOString (fst latest)) (\<lambda>s. Inr (Some s)) else Inr None) (\<lambda>scheduled.
       Inr (evaluation (if due then sched_due else sched_skipped) scheduled next
              (if due then Some (snd latest) else None) (int (length elapsed) - (if due then 1 else 0))))))))"

definition evaluateDurableSchedule :: "time_zones \<Rightarrow> durable_schedule \<Rightarrow> string \<Rightarrow> string option \<Rightarrow> schedule_evaluation result" where
  "evaluateDurableSchedule zone schedule now_text last_text =
     andThen (canonicalTimestamp now_text) (\<lambda>now.
     andThen (case last_text of None \<Rightarrow> Inr None | Some l \<Rightarrow> andThen (canonicalTimestamp l) (\<lambda>t. Inr (Some t))) (\<lambda>lastAt.
     andThen (assertNonNegativeInteger (misfireGraceMs schedule)) (\<lambda>_.
       case schedule of
         schedule_one_shot at_text grace \<Rightarrow> evaluate_one_shot at_text grace now lastAt
       | schedule_interval anchor_text interval grace \<Rightarrow> evaluate_interval anchor_text interval grace now lastAt
       | schedule_daily tz hour minute grace \<Rightarrow> evaluate_daily zone tz hour minute grace now lastAt)))"

section \<open>The candidates of a window\<close>

definition matching_minute :: "(int \<Rightarrow> local_parts) \<Rightarrow> int \<Rightarrow> int \<Rightarrow> int \<Rightarrow> bool" where
  "matching_minute formatter hour minute t \<longleftrightarrow>
     t mod 60000 = 0 \<and> lp_hour (formatter t) = hour \<and> lp_minute (formatter t) = minute"

lemma firstMinute_bounds: "s \<le> firstMinute s" "firstMinute s < s + 60000" "firstMinute s mod 60000 = 0"
proof -
  have "- s = (- s div 60000) * 60000 + - s mod 60000" "0 \<le> - s mod 60000" "- s mod 60000 < 60000" by simp_all
  then show "s \<le> firstMinute s" "firstMinute s < s + 60000" unfolding firstMinute_def by linarith+
  show "firstMinute s mod 60000 = 0" unfolding firstMinute_def by simp
qed

lemma minute_steps:
  assumes "a mod 60000 = (0::int)" and "t mod 60000 = 0" and "a < t + 60000" and "t \<noteq> a"
  shows "a < t"
proof -
  from assms(1,2) obtain j k where "a = 60000 * j" "t = 60000 * k" by (meson dvdE mod_0_imp_dvd)
  with assms(3,4) show ?thesis by auto
qed

lemma minute_after:
  assumes "a mod 60000 = (0::int)" and "t mod 60000 = 0" and "a \<le> t" and "t \<noteq> a"
  shows "a + 60000 \<le> t"
proof -
  from assms(1,2) obtain j k where "a = 60000 * j" "t = 60000 * k" by (meson dvdE mod_0_imp_dvd)
  with assms(3,4) show ?thesis by auto
qed

lemma firstMinute_least: "t mod 60000 = 0 \<Longrightarrow> s \<le> t \<Longrightarrow> firstMinute s \<le> t"
  using minute_steps [OF firstMinute_bounds(3), of t s] firstMinute_bounds(2) [of s] by fastforce

text \<open>What the loop returns, from any minute on.\<close>

lemma candidates_from_spec:
  assumes "candidates_from f h m e seen a = Inr cs" and "a mod 60000 = 0"
  shows "(\<forall>c\<in>set cs. a \<le> fst c \<and> fst c \<le> e \<and> valid_time (fst c) \<and> matching_minute f h m (fst c) \<and>
      snd c = lp_date (f (fst c)) \<and> snd c \<notin> set seen) \<and>
    sorted_wrt (<) (map fst cs) \<and> distinct (map snd cs) \<and>
    (\<forall>t. a \<le> t \<and> t \<le> e \<and> matching_minute f h m t \<and> lp_date (f t) \<notin> set seen \<longrightarrow>
       (\<exists>t'\<le>t. (t', lp_date (f t)) \<in> set cs))"
  using assms
proof (induction f h m e seen a arbitrary: cs rule: candidates_from.induct)
  case (1 f h m e seen a)
  show ?case
  proof (cases "a > e")
    case True
    with "1.prems" show ?thesis by (subst (asm) candidates_from.simps) auto
  next
    case False
    with "1.prems"(1) have v: "valid_time a" by (subst (asm) candidates_from.simps) (auto simp: localParts_def split: if_splits)
    have a': "(a + 60000) mod 60000 = 0" using "1.prems"(2) by simp
    let ?hit = "lp_hour (f a) = h \<and> lp_minute (f a) = m \<and> lp_date (f a) \<notin> set seen"
    have later: "t = a \<or> a + 60000 \<le> t" if "a \<le> t" "matching_minute f h m t" for t
      using that minute_after [OF "1.prems"(2), of t] by (auto simp: matching_minute_def)
    show ?thesis
    proof (cases ?hit)
      case True
      with False v "1.prems"(1) obtain rest
        where r: "candidates_from f h m e (lp_date (f a) # seen) (a + 60000) = Inr rest" and cs: "cs = (a, lp_date (f a)) # rest"
        by (subst (asm) candidates_from.simps) (auto simp: localParts_def inverts)
      from "1.IH"(1) [OF False True r a'] have ih: "\<forall>c\<in>set rest. a + 60000 \<le> fst c \<and> fst c \<le> e \<and> valid_time (fst c) \<and>
          matching_minute f h m (fst c) \<and> snd c = lp_date (f (fst c)) \<and> snd c \<notin> set (lp_date (f a) # seen)"
        and s: "sorted_wrt (<) (map fst rest)" and d: "distinct (map snd rest)"
        and c: "\<And>t. a + 60000 \<le> t \<and> t \<le> e \<and> matching_minute f h m t \<and> lp_date (f t) \<notin> set (lp_date (f a) # seen) \<Longrightarrow>
          \<exists>t'\<le>t. (t', lp_date (f t)) \<in> set rest" by blast+
      have "\<exists>t'\<le>t. (t', lp_date (f t)) \<in> set cs"
        if "a \<le> t" "t \<le> e" "matching_minute f h m t" "lp_date (f t) \<notin> set seen" for t
        using later [OF that(1,3)] c [of t] that cs by (cases "lp_date (f t) = lp_date (f a)") auto
      moreover have "matching_minute f h m a" using True "1.prems"(2) by (simp add: matching_minute_def)
      moreover have "fst c > a" "snd c \<noteq> lp_date (f a)" if "c \<in> set rest" for c using ih that by force+
      ultimately show ?thesis using ih s d v False True cs by (fastforce simp: image_iff)
    next
      case no: False
      with False v "1.prems"(1) have r: "candidates_from f h m e seen (a + 60000) = Inr cs"
        by (subst (asm) candidates_from.simps) (auto simp: localParts_def split: if_splits)
      from "1.IH"(2) [OF False no r a'] show ?thesis using later no by (fastforce simp: matching_minute_def)
    qed
  qed
qed

lemma candidates_from_total:
  "valid_time a \<Longrightarrow> valid_time e \<Longrightarrow> \<exists>cs. candidates_from f h m e seen a = Inr cs"
proof (induction f h m e seen a rule: candidates_from.induct)
  case (1 f h m e seen a)
  show ?case
  proof (cases "a > e")
    case True
    then show ?thesis by (subst candidates_from.simps) simp
  next
    case False
    have l: "localParts f a = Inr (f a)" using "1.prems" by (simp add: localParts_def)
    have next_ok: "\<exists>cs. candidates_from f h m e s (a + 60000) = Inr cs"
      if ih: "valid_time (a + 60000) \<Longrightarrow> valid_time e \<Longrightarrow> \<exists>cs. candidates_from f h m e s (a + 60000) = Inr cs" for s
    proof (cases "a + 60000 > e")
      case True
      then show ?thesis by (subst candidates_from.simps) simp
    next
      case False
      then show ?thesis using ih "1.prems" by (simp add: valid_time_def)
    qed
    show ?thesis
    proof (cases "lp_hour (f a) = h \<and> lp_minute (f a) = m \<and> lp_date (f a) \<notin> set seen")
      case True
      from next_ok [OF "1.IH"(1) [OF False True]] False l True show ?thesis by (subst candidates_from.simps) (auto simp: inverts)
    next
      case no: False
      from next_ok [OF "1.IH"(2) [OF False no]] False l no show ?thesis by (subst candidates_from.simps) (auto simp: inverts)
    qed
  qed
qed

lemma daily_candidates_first:
  assumes "dailyCandidates zone tz h m s e excluded = Inr cs" and "zone tz = Some f"
  shows "let ok = (\<lambda>t. s \<le> t \<and> t \<le> e \<and> matching_minute f h m t \<and> keep_truthy excluded \<noteq> Some (lp_date (f t))) in
    sorted_wrt (<) (map fst cs) \<and>
    set cs = {(t, lp_date (f t)) | t. ok t \<and> (\<forall>t'. ok t' \<and> lp_date (f t') = lp_date (f t) \<longrightarrow> t \<le> t')}"
proof -
  let ?seen = "case excluded of None \<Rightarrow> [] | Some d \<Rightarrow> if d = [] then [] else [d]"
  have seen: "d \<notin> set ?seen \<longleftrightarrow> keep_truthy excluded \<noteq> Some d" for d by (cases excluded) auto
  have from_first: "firstMinute s \<le> t \<longleftrightarrow> s \<le> t" if "matching_minute f h m t" for t
    using that firstMinute_least [of t s] firstMinute_bounds(1) [of s] by (auto simp: matching_minute_def)
  have "candidates_from f h m e ?seen (firstMinute s) = Inr cs" using assms by (simp add: dailyCandidates_def)
  note spec = candidates_from_spec [OF this firstMinute_bounds(3)]
  define ok where "ok = (\<lambda>t. s \<le> t \<and> t \<le> e \<and> matching_minute f h m t \<and> keep_truthy excluded \<noteq> Some (lp_date (f t)))"
  from spec have c: "\<And>t d. (t, d) \<in> set cs \<Longrightarrow> ok t \<and> d = lp_date (f t)"
    using from_first seen by (auto simp: ok_def)
  from spec have some: "\<And>t. ok t \<Longrightarrow> \<exists>t'\<le>t. (t', lp_date (f t)) \<in> set cs"
    using from_first seen by (auto simp: ok_def)
  from spec have d: "distinct (map snd cs)" and sorted: "sorted_wrt (<) (map fst cs)" by blast+
  have one: "x = y" if "(x, d) \<in> set cs" "(y, d) \<in> set cs" for x y d
    using d that by (metis distinct_map inj_onD prod.inject snd_conv)
  have "set cs = {(t, lp_date (f t)) | t. ok t \<and> (\<forall>t'. ok t' \<and> lp_date (f t') = lp_date (f t) \<longrightarrow> t \<le> t')}"
  proof (intro set_eqI iffI)
    fix p
    assume p: "p \<in> set cs"
    obtain t d where t: "p = (t, d)" by (cases p)
    have "t \<le> t'" if "ok t'" "lp_date (f t') = lp_date (f t)" for t'
      using some [OF that(1)] one c p t that(2) by metis
    with c p t show "p \<in> {(t, lp_date (f t)) | t. ok t \<and> (\<forall>t'. ok t' \<and> lp_date (f t') = lp_date (f t) \<longrightarrow> t \<le> t')}" by blast
  next
    fix p
    assume "p \<in> {(t, lp_date (f t)) | t. ok t \<and> (\<forall>t'. ok t' \<and> lp_date (f t') = lp_date (f t) \<longrightarrow> t \<le> t')}"
    then obtain t where t: "p = (t, lp_date (f t))" "ok t" "\<And>t'. ok t' \<Longrightarrow> lp_date (f t') = lp_date (f t) \<Longrightarrow> t \<le> t'" by blast
    from some [OF t(2)] obtain t' where t': "t' \<le> t" "(t', lp_date (f t)) \<in> set cs" by blast
    with c t(3) [of t'] have "t' = t" by force
    with t' t(1) show "p \<in> set cs" by simp
  qed
  with sorted show ?thesis by (simp add: ok_def)
qed

text \<open>
  C35. Daily candidates. For a supported zone the candidates of a window are, in increasing order, exactly the
  first minute of each local date in the window that shows the hour and minute of the schedule, leaving out
  the excluded date: a local time that a clock change skips has no candidate, and one that it repeats has one.
\<close>

theorem daily_candidates_first_of_date:
  assumes "dailyCandidates zone tz h m s e excluded = Inr cs" and "zone tz = Some f"
  shows "let ok = (\<lambda>t. s \<le> t \<and> t \<le> e \<and> matching_minute f h m t \<and> keep_truthy excluded \<noteq> Some (lp_date (f t))) in
    sorted_wrt (<) (map fst cs) \<and>
    set cs = {(t, lp_date (f t)) | t. ok t \<and> (\<forall>t'. ok t' \<and> lp_date (f t') = lp_date (f t) \<longrightarrow> t \<le> t')}"
  by (rule daily_candidates_first [OF assms])

section \<open>What an evaluation says\<close>

text \<open>
  An instant a schedule may fire at, after the last one that was scheduled: the instant of a one-shot, an
  instant of the grid of an interval, a minute of a daily schedule on another local date than the last.
\<close>

definition on_schedule :: "time_zones \<Rightarrow> durable_schedule \<Rightarrow> int option \<Rightarrow> int \<Rightarrow> bool" where
  "on_schedule zone s lastAt t = (case s of
     schedule_one_shot a _ \<Rightarrow> date_parse a = Some t
   | schedule_interval a interval _ \<Rightarrow>
       (case (case lastAt of None \<Rightarrow> date_parse a | Some l \<Rightarrow> Some (l + interval)) of
          None \<Rightarrow> False | Some first \<Rightarrow> first \<le> t \<and> (t - first) mod interval = 0)
   | schedule_daily tz hour minute _ \<Rightarrow>
       (case zone tz of None \<Rightarrow> False
        | Some f \<Rightarrow> matching_minute f hour minute t \<and>
            (case lastAt of None \<Rightarrow> True | Some l \<Rightarrow> lp_date (f t) \<noteq> lp_date (f l))))"

definition after_last :: "int option \<Rightarrow> int \<Rightarrow> bool" where
  "after_last lastAt t = (case lastAt of None \<Rightarrow> True | Some l \<Rightarrow> l < t)"

text \<open>What is claimed of an evaluation.\<close>

definition sound_evaluation :: "time_zones \<Rightarrow> durable_schedule \<Rightarrow> int \<Rightarrow> int option \<Rightarrow> schedule_evaluation \<Rightarrow> bool" where
  "sound_evaluation zone s now lastAt e \<longleftrightarrow>
     (case ev_scheduledAt e of None \<Rightarrow> ev_outcome e \<in> {sched_future, sched_skipped}
      | Some x \<Rightarrow> (case date_parse x of None \<Rightarrow> False
          | Some t \<Rightarrow> x = iso_string t \<and> t \<le> now \<and> after_last lastAt t \<and> on_schedule zone s lastAt t \<and>
              ev_outcome e = (if now - t \<le> misfireGraceMs s then sched_due else sched_missed))) \<and>
     (case ev_nextAt e of None \<Rightarrow> True
      | Some x \<Rightarrow> (case date_parse x of None \<Rightarrow> False
          | Some t \<Rightarrow> x = iso_string t \<and> now < t \<and> after_last lastAt t \<and> on_schedule zone s lastAt t)) \<and>
     0 \<le> ev_skippedCount e"

lemma canonicalTimestamp_Inr: "canonicalTimestamp x = Inr t \<longleftrightarrow> date_parse x = Some t \<and> isCanonicalTimestamp x"
  by (auto simp: canonicalTimestamp_def split: option.splits)

lemma parse_printed: "toISOString t = Inr x \<Longrightarrow> date_parse x = Some t \<and> x = iso_string t"
  by (auto simp: toISOString_Inr date_parse_iso)

lemma printed_iso: "toISOString t = Inr x \<Longrightarrow> date_parse (iso_string t) = Some t" "toISOString t = Inr x \<Longrightarrow> x = iso_string t"
  by (auto simp: toISOString_Inr date_parse_iso)

lemma canonical_printed: "canonicalTimestamp x = Inr t \<Longrightarrow> toISOString t = Inr x"
  by (auto simp: canonicalTimestamp_Inr isCanonicalTimestamp_def)

lemma one_shot_sound:
  "evaluate_one_shot a grace now lastAt = Inr e \<Longrightarrow> sound_evaluation zone (schedule_one_shot a grace) now lastAt e"
  unfolding evaluate_one_shot_def sound_evaluation_def
  by (auto simp: inverts after_last_def on_schedule_def canonicalTimestamp_Inr dest!: parse_printed split: if_splits option.splits)

lemma interval_grid:
  fixes i :: int
  assumes "0 < i" and "f \<le> n"
  shows "f \<le> f + (n - f) div i * i" "f + (n - f) div i * i \<le> n" "n < f + (n - f) div i * i + i"
    "(f + (n - f) div i * i - f) mod i = 0" "(f + (n - f) div i * i + i - f) mod i = 0" "0 \<le> (n - f) div i"
proof -
  have q: "n - f = (n - f) div i * i + (n - f) mod i" "0 \<le> (n - f) mod i" "(n - f) mod i < i" using assms(1) by simp_all
  show d: "0 \<le> (n - f) div i" using assms by (simp add: pos_imp_zdiv_nonneg_iff)
  then have "0 \<le> (n - f) div i * i" using assms(1) by simp
  with q show "f \<le> f + (n - f) div i * i" "f + (n - f) div i * i \<le> n" "n < f + (n - f) div i * i + i" by linarith+
  show "(f + (n - f) div i * i - f) mod i = 0" by simp
  have "f + (n - f) div i * i + i - f = i * ((n - f) div i + 1)" by (simp add: algebra_simps)
  then show "(f + (n - f) div i * i + i - f) mod i = 0" by simp
qed

lemma interval_sound:
  assumes "evaluate_interval a i grace now lastAt = Inr e"
  shows "sound_evaluation zone (schedule_interval a i grace) now lastAt e"
proof -
  from assms obtain anchor where anchor: "date_parse a = Some anchor" and i: "0 < i"
    and first: "evaluate_from (case lastAt of None \<Rightarrow> anchor | Some l \<Rightarrow> l + i) i grace now = Inr e"
    unfolding evaluate_interval_def by (auto simp: inverts canonicalTimestamp_Inr)
  define first where "first = (case lastAt of None \<Rightarrow> anchor | Some l \<Rightarrow> l + i)"
  have grid: "on_schedule zone (schedule_interval a i grace) lastAt t \<longleftrightarrow> first \<le> t \<and> (t - first) mod i = 0" for t
    by (cases lastAt) (simp_all add: on_schedule_def first_def anchor)
  have after: "first \<le> t \<Longrightarrow> after_last lastAt t" for t
    using i by (cases lastAt) (auto simp: after_last_def first_def)
  note ev = first [folded first_def, unfolded evaluate_from_def Let_def]
  show ?thesis
  proof (cases "now < first")
    case True
    with ev obtain x where "toISOString first = Inr x" and e: "e = evaluation sched_future None (Some x) None 0"
      by (auto simp: inverts)
    with True grid after show ?thesis by (simp add: sound_evaluation_def parse_printed)
  next
    case False
    define latest where "latest = first + (now - first) div i * i"
    note g = interval_grid [OF i, of first now, folded latest_def]
    from False ev obtain x where x: "toISOString (latest + i) = Inr x" and e: "if now - latest \<le> grace
        then \<exists>y. toISOString latest = Inr y \<and> e = evaluation sched_due (Some y) (Some x) None ((now - first) div i)
        else e = evaluation sched_skipped None (Some x) None ((now - first) div i + 1)"
      unfolding latest_def by (auto simp: inverts split: if_splits)
    note nx = printed_iso [OF x]
    have ok: "first \<le> latest" "latest \<le> now" "now < latest + i" "(latest - first) mod i = 0" "(latest + i - first) mod i = 0"
      "0 \<le> (now - first) div i" using g False by simp_all
    show ?thesis
    proof (cases "now - latest \<le> grace")
      case True
      with e obtain y where y: "toISOString latest = Inr y" "e = evaluation sched_due (Some y) (Some x) None ((now - first) div i)" by auto
      note py = printed_iso [OF y(1)]
      have "after_last lastAt latest" "after_last lastAt (latest + i)" using after ok i by auto
      then show ?thesis unfolding sound_evaluation_def y(2) using True nx py ok grid i by simp
    next
      case no: False
      have "after_last lastAt (latest + i)" using after ok i by auto
      with no e nx ok grid i show ?thesis unfolding sound_evaluation_def by simp
    qed
  qed
qed

lemma last_local_date_is:
  assumes "last_local_date zone tz h m lastAt = Inr d" and "zone tz = Some f"
  shows "d = map_option (\<lambda>l. lp_date (f l)) lastAt"
proof (cases lastAt)
  case (Some l)
  with assms(1) obtain cs where cs: "dailyCandidates zone tz h m l l None = Inr cs"
    by (auto simp: last_local_date_def inverts)
  note first = daily_candidates_first [OF cs assms(2)]
  show ?thesis
  proof (cases cs)
    case Nil
    with Some assms cs show ?thesis by (auto simp: last_local_date_def localParts_def inverts split: if_splits)
  next
    case (Cons c rest)
    then have "c \<in> set cs" by simp
    with first have "c = (l, lp_date (f l))" by (auto simp: Let_def)
    with Cons Some assms cs show ?thesis by (simp add: last_local_date_def)
  qed
qed (use assms in \<open>simp add: last_local_date_def\<close>)

lemma daily_sound:
  assumes "evaluate_daily zone tz h m grace now lastAt = Inr e"
  shows "sound_evaluation zone (schedule_daily tz h m grace) now lastAt e"
proof -
  define start where "start = max ((case lastAt of None \<Rightarrow> now - DAY_WINDOW | Some l \<Rightarrow> l) + 1) (now - DAY_WINDOW)"
  from assms obtain d all where d: "last_local_date zone tz h m lastAt = Inr d"
    and all: "dailyCandidates zone tz h m start (now + DAY_WINDOW) d = Inr all"
    unfolding evaluate_daily_def Let_def start_def [symmetric] by (auto simp: inverts)
  from all obtain f where f: "zone tz = Some f" by (auto simp: dailyCandidates_def split: option.splits)
  have nonempty: "lp_date p \<noteq> []" for p by (simp add: lp_date_def)
  have member: "matching_minute f h m (fst c) \<and> snd c = lp_date (f (fst c)) \<and> after_last lastAt (fst c) \<and>
      (case lastAt of None \<Rightarrow> True | Some l \<Rightarrow> lp_date (f (fst c)) \<noteq> lp_date (f l))" if "c \<in> set all" for c
    using daily_candidates_first [OF all f] that last_local_date_is [OF d f] nonempty
    by (cases c; cases lastAt) (auto simp: after_last_def start_def)
  then have ok: "on_schedule zone (schedule_daily tz h m grace) lastAt (fst c) \<and> after_last lastAt (fst c)" if "c \<in> set all" for c
    using that f by (simp add: on_schedule_def)
  define candidates where "candidates = filter (\<lambda>(at, _). case lastAt of None \<Rightarrow> True | Some l \<Rightarrow> at > l) all"
  define elapsed where "elapsed = filter (\<lambda>(at, _). at \<le> now) candidates"
  define future where "future = List.find (\<lambda>(at, _). at > now) candidates"
  from assms d all obtain nx where nx: "(case future of None \<Rightarrow> Inr None
        | Some (at, _) \<Rightarrow> andThen (toISOString at) (\<lambda>s. Inr (Some s))) = Inr nx"
    and e: "(if elapsed = [] then Inr (evaluation sched_future None nx None 0)
       else andThen (if now - fst (last elapsed) \<le> grace then andThen (toISOString (fst (last elapsed))) (\<lambda>s. Inr (Some s)) else Inr None)
         (\<lambda>scheduled. Inr (evaluation (if now - fst (last elapsed) \<le> grace then sched_due else sched_skipped) scheduled nx
            (if now - fst (last elapsed) \<le> grace then Some (snd (last elapsed)) else None)
            (int (length elapsed) - (if now - fst (last elapsed) \<le> grace then 1 else 0))))) = Inr e"
    unfolding evaluate_daily_def Let_def start_def [symmetric] candidates_def elapsed_def future_def
    by (auto simp: inverts)
  have next_ok: "case nx of None \<Rightarrow> True | Some x \<Rightarrow> (case date_parse x of None \<Rightarrow> False
      | Some t \<Rightarrow> x = iso_string t \<and> now < t \<and> after_last lastAt t \<and> on_schedule zone (schedule_daily tz h m grace) lastAt t)"
  proof (cases future)
    case None
    with nx show ?thesis by simp
  next
    case (Some c)
    then have "now < fst c" "c \<in> set all" unfolding future_def by (auto simp: candidates_def dest!: find_SomeD)
    moreover from nx Some obtain x where "nx = Some x" "toISOString (fst c) = Inr x" by (cases c) (auto simp: inverts)
    ultimately show ?thesis using ok [of c] by (simp add: parse_printed)
  qed
  show ?thesis
  proof (cases "elapsed = []")
    case True
    with e next_ok show ?thesis by (auto simp: sound_evaluation_def)
  next
    case False
    then have "last elapsed \<in> set elapsed" by simp
    then have l: "last elapsed \<in> set all" "fst (last elapsed) \<le> now" by (auto simp: elapsed_def candidates_def)
    have len: "1 \<le> int (length elapsed)" using False by (cases elapsed) auto
    show ?thesis
    proof (cases "now - fst (last elapsed) \<le> grace")
      case True
      with e False obtain y where y: "toISOString (fst (last elapsed)) = Inr y"
        "e = evaluation sched_due (Some y) nx (Some (snd (last elapsed))) (int (length elapsed) - 1)" by (auto simp: inverts)
      then show ?thesis using True False next_ok ok [OF l(1)] l(2) len printed_iso [OF y(1)] by (simp add: sound_evaluation_def)
    next
      case no: False
      with e False have "e = evaluation sched_skipped None nx None (int (length elapsed))" by simp
      then show ?thesis using next_ok by (simp add: sound_evaluation_def)
    qed
  qed
qed

text \<open>
  C34. An evaluation is sound, for each kind of schedule. Work that is due, or a one-shot that was missed, has
  an instant of the schedule that is not after now and strictly after the last one scheduled, and it is due
  exactly if it lies within the grace period; otherwise nothing is scheduled. The next instant, if one is given, is
  an instant of the schedule after now. A daily schedule never fires twice on the local date of the last run.
\<close>

theorem schedule_evaluation_sound:
  assumes "evaluateDurableSchedule zone s now_text last_text = Inr e"
  shows "\<exists>now lastAt. date_parse now_text = Some now \<and> lastAt = Option.bind last_text date_parse \<and>
    sound_evaluation zone s now lastAt e"
proof -
  from assms obtain now lastAt where now: "canonicalTimestamp now_text = Inr now"
    and lastAt: "(case last_text of None \<Rightarrow> Inr None | Some l \<Rightarrow> andThen (canonicalTimestamp l) (\<lambda>t. Inr (Some t))) = Inr lastAt"
    and e: "(case s of schedule_one_shot a g \<Rightarrow> evaluate_one_shot a g now lastAt
         | schedule_interval a i g \<Rightarrow> evaluate_interval a i g now lastAt
         | schedule_daily tz h m g \<Rightarrow> evaluate_daily zone tz h m g now lastAt) = Inr e"
    unfolding evaluateDurableSchedule_def by (auto simp: inverts)
  have "sound_evaluation zone s now lastAt e"
    using e one_shot_sound interval_sound daily_sound by (cases s) auto
  moreover have "lastAt = Option.bind last_text date_parse"
    using lastAt by (cases last_text) (auto simp: inverts canonicalTimestamp_Inr)
  moreover have "date_parse now_text = Some now" using now by (simp add: canonicalTimestamp_Inr)
  ultimately show ?thesis by blast
qed

lemma daily_candidates_total:
  assumes "zone tz = Some f" and "valid_time s" and "valid_time e"
  shows "\<exists>cs. dailyCandidates zone tz h m s e d = Inr cs"
proof (cases "firstMinute s > e")
  case True
  then show ?thesis using assms(1) by (subst dailyCandidates_def) (simp add: candidates_from.simps)
next
  case False
  with assms(2,3) firstMinute_bounds(1) [of s] have "valid_time (firstMinute s)" by (simp add: valid_time_def)
  with assms candidates_from_total show ?thesis by (simp add: dailyCandidates_def)
qed

lemma window_candidate_valid:
  assumes "dailyCandidates zone tz h m s e d = Inr cs" and "c \<in> set cs"
  shows "\<exists>x. toISOString (fst c) = Inr x"
proof -
  from assms(1) obtain f where f: "candidates_from f h m e (case d of None \<Rightarrow> [] | Some d \<Rightarrow> if d = [] then [] else [d]) (firstMinute s) = Inr cs"
    by (auto simp: dailyCandidates_def split: option.splits)
  with candidates_from_spec [OF f firstMinute_bounds(3)] assms(2) show ?thesis by (simp add: toISOString_def)
qed

lemma daily_evaluation_total:
  assumes z: "zone tz = Some f" and h: "0 \<le> h" "h \<le> 23" and m: "0 \<le> m" "m \<le> 59"
    and n: "valid_time (now - DAY_WINDOW)" "valid_time (now + DAY_WINDOW)" and l: "\<And>l. lastAt = Some l \<Longrightarrow> valid_time l"
  shows "\<exists>e. evaluate_daily zone tz h m grace now lastAt = Inr e"
proof -
  define start where "start = max ((case lastAt of None \<Rightarrow> now - DAY_WINDOW | Some l \<Rightarrow> l) + 1) (now - DAY_WINDOW)"
  have "\<exists>d. last_local_date zone tz h m lastAt = Inr d"
  proof (cases lastAt)
    case (Some a)
    with l have a: "valid_time a" by simp
    from daily_candidates_total [of zone tz f a a h m None, OF z a a] obtain cs where "dailyCandidates zone tz h m a a None = Inr cs" ..
    with Some z a show ?thesis by (cases cs) (auto simp: last_local_date_def localParts_def)
  qed (simp add: last_local_date_def)
  then obtain d where d: "last_local_date zone tz h m lastAt = Inr d" ..
  have "\<exists>all. dailyCandidates zone tz h m start (now + DAY_WINDOW) d = Inr all"
  proof (cases "start > now + DAY_WINDOW")
    case True
    then have "firstMinute start > now + DAY_WINDOW" using firstMinute_bounds(1) [of start] by simp
    then show ?thesis using z by (subst dailyCandidates_def) (simp add: candidates_from.simps)
  next
    case False
    moreover have "now - DAY_WINDOW \<le> start" by (simp add: start_def)
    ultimately have "valid_time start" using n unfolding valid_time_def by linarith
    show ?thesis by (rule daily_candidates_total [where f = f]) (fact z, fact \<open>valid_time start\<close>, fact n(2))
  qed
  then obtain all where all: "dailyCandidates zone tz h m start (now + DAY_WINDOW) d = Inr all" ..
  define candidates where "candidates = filter (\<lambda>(at, _). case lastAt of None \<Rightarrow> True | Some l \<Rightarrow> at > l) all"
  have iso: "c \<in> set candidates \<Longrightarrow> \<exists>x. toISOString (fst c) = Inr x" for c
    using window_candidate_valid [OF all] by (auto simp: candidates_def)
  have "\<exists>nx. (case List.find (\<lambda>(at, _). at > now) candidates of None \<Rightarrow> Inr None
      | Some (at, _) \<Rightarrow> andThen (toISOString at) (\<lambda>s. Inr (Some s))) = Inr nx"
  proof (cases "List.find (\<lambda>(at, _). at > now) candidates")
    case (Some c)
    with find_SomeD [OF Some] iso [of c] show ?thesis by (cases c) (auto simp: inverts)
  qed simp
  then obtain nx where nx: "(case List.find (\<lambda>(at, _). at > now) candidates of None \<Rightarrow> Inr None
      | Some (at, _) \<Rightarrow> andThen (toISOString at) (\<lambda>s. Inr (Some s))) = Inr nx" ..
  have "\<exists>x. toISOString (fst (last (filter (\<lambda>(at, _). at \<le> now) candidates))) = Inr x"
    if "filter (\<lambda>(at, _). at \<le> now) candidates \<noteq> []"
    using last_in_set [OF that] iso by (meson filter_is_subset subsetD)
  then have "\<exists>y. (if now - fst (last (filter (\<lambda>(at, _). at \<le> now) candidates)) \<le> grace
      then andThen (toISOString (fst (last (filter (\<lambda>(at, _). at \<le> now) candidates)))) (\<lambda>s. Inr (Some s)) else Inr None) = Inr y"
    if "filter (\<lambda>(at, _). at \<le> now) candidates \<noteq> []" using that by (auto simp: inverts)
  then show ?thesis using d all nx h m
    unfolding evaluate_daily_def Let_def start_def [symmetric]
    by (auto simp: inverts is_safe_integer_def MAX_SAFE_INTEGER_def candidates_def [symmetric] simp del: filter_filter)
qed

text \<open>
  C36. Evaluating a daily schedule returns. In a supported zone, with a valid hour, minute and grace
  period and canonical instants whose window of four days on either side lies in the range of \<open>Date\<close>, the evaluation
  of a daily schedule ends and does not throw.
\<close>

theorem daily_evaluation_returns:
  assumes "zone tz = Some f" and "0 \<le> h" "h \<le> 23" and "0 \<le> m" "m \<le> 59" and "0 \<le> grace" "is_safe_integer grace"
    and "isCanonicalTimestamp now_text" and "date_parse now_text = Some now"
    and "valid_time (now - DAY_WINDOW)" "valid_time (now + DAY_WINDOW)"
    and "\<forall>l. last_text = Some l \<longrightarrow> isCanonicalTimestamp l"
  shows "\<exists>e. evaluateDurableSchedule zone (schedule_daily tz h m grace) now_text last_text = Inr e"
proof -
  have now: "canonicalTimestamp now_text = Inr now" using assms(8,9) by (simp add: canonicalTimestamp_Inr)
  obtain lastAt where l: "(case last_text of None \<Rightarrow> Inr None | Some l \<Rightarrow> andThen (canonicalTimestamp l) (\<lambda>t. Inr (Some t))) = Inr lastAt"
    "\<And>l. lastAt = Some l \<Longrightarrow> valid_time l"
  proof (cases last_text)
    case (Some x)
    with assms(12) obtain t where "valid_time t" "date_parse x = Some t" by (auto elim: canonicalE)
    with Some assms(12) that [of "Some t"] show thesis by (simp add: canonicalTimestamp_def)
  qed (use that [of None] in simp)
  have "\<exists>e. evaluate_daily zone tz h m grace now lastAt = Inr e"
    by (rule daily_evaluation_total [where f = f]) (use assms l(2) in auto)
  then obtain e where "evaluate_daily zone tz h m grace now lastAt = Inr e" ..
  with now l(1) assms(6,7) show ?thesis by (simp add: evaluateDurableSchedule_def assertNonNegativeInteger_def)
qed

section \<open>Dispatch\<close>

datatype trigger_actor = actor_owner | actor_client | actor_scheduler | actor_external_adapter | actor_system

datatype trigger_source = source_user_message | source_schedule | source_external_event

record background_trigger =
  bt_messageId :: string
  bt_correlationId :: string
  bt_causationId :: "string option"
  bt_ownerId :: OwnerId
  bt_agentId :: AgentId
  bt_actorType :: trigger_actor
  bt_actorId :: string
  bt_dataClassification :: product_data_classification
  bt_triggerId :: string
  bt_sourceType :: trigger_source
  bt_sourceId :: string
  bt_occurredAt :: string
  bt_threadId :: "ThreadId option"
  bt_payloadRef :: string
  bt_sourceProofRef :: string

record background_dispatch =
  bd_occurrence :: background_occurrence
  bd_runId :: RunId
  bd_limits :: admission_limits
  bd_trigger :: background_trigger

record background_dispatch_result =
  dr_admission :: admission_result
  dr_triggerResultRef :: "string option"
  dr_replayed :: bool

text \<open>
  The texts of two occurrences are compared; they are the same when the records are, because a row keeps the
  order of the keys it was created with.
\<close>

definition sameOccurrence :: "background_occurrence \<Rightarrow> background_occurrence \<Rightarrow> bool" where
  "sameOccurrence left right \<longleftrightarrow> left = right"

text \<open>
  The service awaits the store and the trigger port; \<open>env n\<close> is what the rest of the system does to the store
  before the \<open>n\<close>-th of these calls runs. The trigger port is the parameter \<open>ingest\<close> on its own state, called with
  the trigger and its idempotency key.
\<close>

definition created_or_existing :: "(nat \<Rightarrow> work_db \<Rightarrow> work_db) \<Rightarrow> background_occurrence \<Rightarrow> work_db \<Rightarrow> work_db \<times> background_occurrence result" where
  "created_or_existing env c db =
     (case createOccurrence (env 0 db) c of
        Inr (db', stored) \<Rightarrow> (db', Inr stored)
      | Inl e \<Rightarrow> (let db1 = env 1 (env 0 db) in
          (db1, case readOccurrence db1 (occ_id c) of
             None \<Rightarrow> Inl e
           | Some existing \<Rightarrow> if sameOccurrence existing c then Inr existing else Inl e)))"

definition admission_of :: "background_dispatch \<Rightarrow> background_occurrence \<Rightarrow> admission_reservation" where
  "admission_of inp c = \<lparr>ad_occurrenceId = occ_id c, ad_expectedRevision = occ_revision c, ad_runId = bd_runId inp,
     ad_authority = occ_authority c, ad_limits = bd_limits inp, ad_admittedAt = bt_occurredAt (bd_trigger inp)\<rparr>"

definition dispatch_background :: "(nat \<Rightarrow> work_db \<Rightarrow> work_db) \<Rightarrow>
    ('t \<Rightarrow> background_trigger \<Rightarrow> string \<Rightarrow> ('t \<times> trigger_admission_result) result) \<Rightarrow> background_dispatch \<Rightarrow> work_db \<Rightarrow> 't \<Rightarrow>
    (work_db \<times> 't) \<times> background_dispatch_result result" where
  "dispatch_background env ingest inp db t =
     (case created_or_existing env (bd_occurrence inp) db of
        (db1, Inl e) \<Rightarrow> ((db1, t), Inl e)
      | (db1, Inr c) \<Rightarrow>
          (case ingest t (bd_trigger inp) (''background:'' @ occ_stableKey c) of
             Inl e \<Rightarrow> ((db1, t), Inl e)
           | Inr (t', admitted) \<Rightarrow>
               (case reserveBackgroundAdmission (env 2 db1) (admission_of inp c) of
                  Inl e \<Rightarrow> ((env 2 db1, t'), Inl e)
                | Inr (db2, reservation) \<Rightarrow> ((db2, t'), Inr
                    \<lparr>dr_admission = reservation, dr_triggerResultRef = Some (ta_resultRef admitted),
                     dr_replayed = (ta_replayed admitted \<or> am_outcome reservation = adm_duplicate)\<rparr>))))"

definition recoverOccurrences :: "work_db \<Rightarrow> OwnerId \<Rightarrow> AgentId \<Rightarrow> string \<Rightarrow> int \<Rightarrow> background_occurrence list result" where
  "recoverOccurrences db ownerId agentId now limit =
     andThen (canonicalTimestamp now) (\<lambda>_. listRecoverableOccurrences db ownerId agentId now limit)"

definition stableOccurrenceIdentity :: "JobId \<Rightarrow> string \<Rightarrow> string result" where
  "stableOccurrenceIdentity jobId providerIdentity =
     andThen (ensure (length providerIdentity \<noteq> 0 \<and> length providerIdentity \<le> 256) (ApplicationPortError INVALID_OPERATION)) (\<lambda>_.
       Inr (jobId @ '':'' @ providerIdentity))"

section \<open>What a dispatch does\<close>

lemma dispatch_Inr:
  assumes "dispatch_background env ingest inp db t = ((db', t'), Inr r)"
  obtains db1 c a where "created_or_existing env (bd_occurrence inp) db = (db1, Inr c)"
    and "ingest t (bd_trigger inp) (''background:'' @ occ_stableKey c) = Inr (t', a)"
    and "reserveBackgroundAdmission (env 2 db1) (admission_of inp c) = Inr (db', dr_admission r)"
    and "dr_triggerResultRef r = Some (ta_resultRef a)"
    and "dr_replayed r = (ta_replayed a \<or> am_outcome (dr_admission r) = adm_duplicate)"
  using assms unfolding dispatch_background_def by (auto split: prod.splits sum.splits)

definition work_key :: "background_occurrence \<Rightarrow> JobId \<times> string" where
  "work_key c = (occ_jobId c, occ_stableKey c)"

definition keys_unique :: "work_db \<Rightarrow> bool" where
  "keys_unique db \<longleftrightarrow> distinct (map occ_id (wdb_occurrences db)) \<and> distinct (map work_key (wdb_occurrences db))"

lemma keys_replaced:
  assumes "readOccurrence db (occ_id c) = Some c" and "same_scope c' c" and "distinct (map occ_id (wdb_occurrences db))"
  shows "map work_key (replaced c' (wdb_occurrences db)) = map work_key (wdb_occurrences db)"
proof -
  have "work_key (if occ_id x = occ_id c' then c' else x) = work_key x" if "x \<in> set (wdb_occurrences db)" for x
  proof (cases "occ_id x = occ_id c'")
    case True
    with assms(2) have "occ_id x = occ_id c" by (simp add: same_scope_def)
    with readOccurrence_Some [OF assms(1)] assms(3) that have "x = c" by (metis distinct_map inj_onD)
    with assms(2) True show ?thesis by (simp add: work_key_def same_scope_def)
  qed simp
  then show ?thesis by (simp add: replaced_def)
qed

lemma keys_unique_step:
  assumes ch: "occurrences_change l db (wdb_occurrences db')" and k: "keys_unique db"
  shows "keys_unique db'"
proof -
  from k have ids: "distinct (map occ_id (wdb_occurrences db))" and keys: "distinct (map work_key (wdb_occurrences db))"
    by (simp_all add: keys_unique_def)
  from ch consider "wdb_occurrences db' = wdb_occurrences db"
    | c where "wdb_occurrences db' = wdb_occurrences db @ [c]" "readOccurrenceByStableKey db (occ_jobId c) (occ_stableKey c) = None"
    | c c' where "row_change l db c c'" "wdb_occurrences db' = replaced c' (wdb_occurrences db)"
    unfolding occurrences_change_def by blast
  then have "distinct (map work_key (wdb_occurrences db'))"
  proof cases
    case (2 c)
    from 2(2) have "work_key c \<notin> set (map work_key (wdb_occurrences db))"
      by (auto simp: readOccurrenceByStableKey_def find_None_iff work_key_def)
    with 2(1) keys show ?thesis by simp
  next
    case (3 c c')
    then have "readOccurrence db (occ_id c) = Some c" "same_scope c' c" by (simp_all add: row_change_def)
    from keys_replaced [OF this ids] 3(2) keys show ?thesis by simp
  qed (use keys in simp)
  with occurrence_ids_step [OF ch ids] show ?thesis by (simp add: keys_unique_def)
qed

lemma reachable_keys_unique:
  assumes "(background_step l)\<^sup>*\<^sup>* db0 db" and "wdb_occurrences db0 = []"
  shows "keys_unique db"
  using assms by (induction rule: rtranclp_induct) (auto simp: keys_unique_def [of db0] intro: keys_unique_step background_step_change)

lemma keys_uniqueD:
  assumes "keys_unique db" and "c \<in> set (wdb_occurrences db)"
  shows "readOccurrence db (occ_id c) = Some c" "readOccurrenceByStableKey db (occ_jobId c) (occ_stableKey c) = Some c"
    "d \<in> set (wdb_occurrences db) \<Longrightarrow> work_key d = work_key c \<Longrightarrow> d = c"
proof -
  from assms(1) have ids: "inj_on occ_id (set (wdb_occurrences db))" and keys: "inj_on work_key (set (wdb_occurrences db))"
    by (simp_all add: keys_unique_def distinct_map)
  then show same: "d \<in> set (wdb_occurrences db) \<Longrightarrow> work_key d = work_key c \<Longrightarrow> d = c" for d
    using assms(2) by (meson inj_onD)
  have "readOccurrence db (occ_id c) \<noteq> None" using assms(2) has_row_iff [of occ_id "occ_id c" "wdb_occurrences db"]
    by (auto simp: readOccurrence_def has_row_def list_ex_iff)
  then obtain x where "readOccurrence db (occ_id c) = Some x" by blast
  with readOccurrence_Some [OF this] assms(2) ids show "readOccurrence db (occ_id c) = Some c" by (metis inj_onD)
  have "readOccurrenceByStableKey db (occ_jobId c) (occ_stableKey c) \<noteq> None"
    using assms(2) by (auto simp: readOccurrenceByStableKey_def find_None_iff)
  then obtain y where y: "readOccurrenceByStableKey db (occ_jobId c) (occ_stableKey c) = Some y" by blast
  then have "y \<in> set (wdb_occurrences db) \<and> work_key y = work_key c"
    unfolding readOccurrenceByStableKey_def by (auto dest!: find_SomeD simp: work_key_def)
  with same y show "readOccurrenceByStableKey db (occ_jobId c) (occ_stableKey c) = Some c" by simp
qed

text \<open>The occurrence a dispatch goes on with is the stored one of its stable key.\<close>

lemma created_row:
  assumes "created_or_existing (\<lambda>n d. d) c db = (db1, Inr d)" and "keys_unique db"
  shows "d \<in> set (wdb_occurrences db1) \<and> work_key d = work_key c \<and> keys_unique db1 \<and>
    (db1 = db \<or> wdb_occurrences db1 = wdb_occurrences db @ [c] \<and> d = c)"
proof (cases "createOccurrence db c")
  case (Inl e)
  with assms(1) have "d = c" "db1 = db" "readOccurrence db (occ_id c) = Some d"
    by (auto simp: created_or_existing_def Let_def sameOccurrence_def split: option.splits if_splits)
  with readOccurrence_Some [OF this(3)] assms(2) show ?thesis by simp
next
  case (Inr p)
  with assms(1) have c: "createOccurrence db c = Inr (db1, d)" by (cases p) (auto simp: created_or_existing_def)
  have "keys_unique db1" by (rule keys_unique_step [OF createOccurrence_change [OF c] assms(2)])
  moreover have "d \<in> set (wdb_occurrences db1) \<and> work_key d = work_key c \<and>
    (db1 = db \<or> wdb_occurrences db1 = wdb_occurrences db @ [c] \<and> d = c)"
  proof (cases "readOccurrenceByStableKey db (occ_jobId c) (occ_stableKey c)")
    case None
    with c have "wdb_occurrences db1 = wdb_occurrences db @ [c]" "d = c" by (auto simp: createOccurrence_def inverts)
    then show ?thesis by simp
  next
    case (Some x)
    with c have x: "d = x" "db1 = db" by (auto simp: createOccurrence_def inverts)
    from Some have "x \<in> set (wdb_occurrences db)" "work_key x = work_key c"
      unfolding readOccurrenceByStableKey_def by (auto dest!: find_SomeD simp: work_key_def)
    with x show ?thesis by simp
  qed
  ultimately show ?thesis by blast
qed

text \<open>
  Dispatching again changes nothing. When a dispatch has admitted its occurrence, the same dispatch
  repeated on the store it left, as a restarted service does, writes nothing, whatever the trigger port
  answers; if it returns, it reports the occurrence as already admitted or as waiting for reconciliation.
\<close>

theorem dispatch_retry_changes_nothing:
  assumes "(background_step l)\<^sup>*\<^sup>* db0 db" and "wdb_occurrences db0 = []"
    and "dispatch_background (\<lambda>n d. d) ingest inp db t = ((db1, t1), Inr r)" and "am_outcome (dr_admission r) = adm_admitted"
    and "dispatch_background (\<lambda>n d. d) ingest' inp db1 t2 = ((db2, t3), r2)"
  shows "db2 = db1 \<and> (\<forall>x. r2 = Inr x \<longrightarrow> am_outcome (dr_admission x) \<in> {adm_duplicate, adm_reconcile_required})"
proof -
  have k: "keys_unique db" by (rule reachable_keys_unique [OF assms(1,2)])
  from assms(3) show ?thesis
  proof (rule dispatch_Inr)
    fix dbc c a
    assume "created_or_existing (\<lambda>n d. d) (bd_occurrence inp) db = (dbc, Inr c)"
      and adm: "reserveBackgroundAdmission dbc (admission_of inp c) = Inr (db1, dr_admission r)"
    from created_row [OF this(1) k] have c: "c \<in> set (wdb_occurrences dbc)" "work_key c = work_key (bd_occurrence inp)" "keys_unique dbc"
      by blast+
    from adm obtain s where s: "wdb_occurrences db1 = replaced s (wdb_occurrences dbc)" "same_scope s c"
      "occ_status s = occ_admitted" "occ_runId s = Some (bd_runId inp)"
    proof (rule admission_cases)
      fix x
      assume x: "readOccurrence dbc (ad_occurrenceId (admission_of inp c)) = Some x"
        and d: "(\<exists>outcome reason. standing_answer dbc (admission_of inp c) x = Inr (Some (outcome, reason)) \<and> db1 = dbc \<and>
              am_occurrence (dr_admission r) = x \<and> am_outcome (dr_admission r) = outcome \<and> am_reasonCode (dr_admission r) = reason) \<or>
          standing_answer dbc (admission_of inp c) x = Inr None \<and> isCanonicalTimestamp (ad_admittedAt (admission_of inp c)) \<and>
            ad_admittedAt (admission_of inp c) \<ge> occ_deadlineAt x \<and> db1 = writeOccurrence dbc (expired_occurrence (admission_of inp c) x) \<and>
            am_occurrence (dr_admission r) = expired_occurrence (admission_of inp c) x \<and> am_outcome (dr_admission r) = adm_deadline_exceeded \<or>
          standing_answer dbc (admission_of inp c) x = Inr None \<and> ad_admittedAt (admission_of inp c) < occ_deadlineAt x \<and>
            decide_admission dbc (admission_of inp c) x = Inr (db1, dr_admission r)"
      have "x = c" using x keys_uniqueD(1) [OF c(3,1)] by (simp add: admission_of_def)
      moreover have "standing_answer dbc (admission_of inp c) x \<noteq> Inr (Some (adm_admitted, y))" for y
        by (auto simp: standing_answer_def inverts split: if_splits)
      ultimately have dec: "decide_admission dbc (admission_of inp c) c = Inr (db1, dr_admission r)" using d assms(4) by auto
      from dec show thesis
      proof (rule decide_admission_Inr)
        fix full budget dbb reason
        assume o: "db1 = writeOccurrence dbb (decided_occurrence (admission_of inp c) c budget reason)" "wdb_occurrences dbb = wdb_occurrences dbc"
          "am_outcome (dr_admission r) = (if reason \<noteq> None then (if blocked_by_budget reason then adm_budget_blocked else adm_capacity_blocked) else adm_admitted)"
        with assms(4) have "reason = None" by (auto split: if_splits)
        with o have "wdb_occurrences db1 = replaced (decided_occurrence (admission_of inp c) c budget None) (wdb_occurrences dbc)" by simp
        then show thesis by (rule that) (simp_all add: same_scope_def decided_occurrence_def admission_of_def)
      qed
    qed
    have k1: "keys_unique db1"
      by (rule keys_unique_step [OF reserveBackgroundAdmission_change [OF adm] c(3)])
    have s1: "s \<in> set (wdb_occurrences db1)" using s(1,2) c(1) by (auto simp: replaced_def same_scope_def image_iff)
    have key: "work_key s = work_key (bd_occurrence inp)" using s(2) c(2) by (simp add: work_key_def same_scope_def)
    have again: "b = db1 \<and> (\<forall>x. d = Inr x \<longrightarrow> x = s)" if "created_or_existing (\<lambda>n d. d) (bd_occurrence inp) db1 = (b, d)" for b d
    proof (cases d)
      case (Inl e)
      with that show ?thesis by (auto simp: created_or_existing_def Let_def split: sum.splits)
    next
      case (Inr x)
      have stored: "readOccurrenceByStableKey db1 (occ_jobId (bd_occurrence inp)) (occ_stableKey (bd_occurrence inp)) = Some s"
        using keys_uniqueD(2) [OF k1 s1] key by (simp add: work_key_def)
      have "b = db1"
        using that Inr stored by (auto simp: created_or_existing_def createOccurrence_def Let_def inverts split: sum.splits)
      moreover from created_row [OF that [unfolded Inr] k1] have "x = s"
        using keys_uniqueD(3) [OF k1 s1] key \<open>b = db1\<close> by simp
      ultimately show ?thesis using Inr by simp
    qed
    obtain b d where bd: "created_or_existing (\<lambda>n d. d) (bd_occurrence inp) db1 = (b, d)" by force
    note ag = again [OF bd]
    have same: "dbx = db1 \<and> am_outcome a \<in> {adm_duplicate, adm_reconcile_required}"
      if "reserveBackgroundAdmission db1 (admission_of inp s) = Inr (dbx, a)" for dbx a
    proof -
      have st: "standing_answer db1 (admission_of inp s) s \<noteq> Inr None"
        "standing_answer db1 (admission_of inp s) s = Inr (Some (x, y)) \<Longrightarrow> x \<in> {adm_duplicate, adm_reconcile_required}" for x y
        using s(3,4) by (auto simp: standing_answer_def admission_of_def inverts split: if_splits)
      from that show ?thesis
        by (rule admission_cases) (use st keys_uniqueD(1) [OF k1 s1] in \<open>auto simp: admission_of_def\<close>)
    qed
    show ?thesis
    proof (cases d)
      case (Inl e)
      with assms(5) bd ag show ?thesis by (auto simp: dispatch_background_def)
    next
      case (Inr x)
      with ag have "x = s" "b = db1" by simp_all
      with assms(5) bd Inr show ?thesis
        using same by (auto simp: dispatch_background_def split: sum.splits prod.splits)
    qed
  qed
qed

section \<open>Jobs\<close>

text \<open>
  A background job is a view of a scheduled job. Saving one replaces the record of the row; the columns that
  \<open>listDue\<close> of the scheduler selects by take the status and the next instant of the input, so that a job
  without a next instant is not listed although its record keeps the last one.
\<close>

fun background_status :: "job_status \<Rightarrow> background_job_status" where
  "background_status job_active = bj_active"
| "background_status job_paused = bj_paused"
| "background_status job_cancelled = bj_revoked"

fun scheduled_status :: "background_job_status \<Rightarrow> job_status" where
  "scheduled_status bj_active = job_active"
| "scheduled_status bj_paused = job_paused"
| "scheduled_status bj_revoked = job_cancelled"

definition readBackgroundJob :: "work_db \<Rightarrow> JobId \<Rightarrow> background_job_state option" where
  "readBackgroundJob db jobId = map_option (\<lambda>j.
     \<lparr>bj_id = sj_id j, bj_ownerId = sj_ownerId j, bj_agentId = sj_agentId j, bj_threadId = sj_threadId j,
      bj_revision = sj_revision j, bj_status = background_status (sj_status j), bj_authorizationRef = sj_authorizationRef j,
      bj_nextOccurrenceAt = (if sj_status j = job_cancelled then None else Some (sj_nextRunAt j))\<rparr>)
     (row_of sj_id jobId (wdb_jobs db))"

definition saved_job :: "background_job_state \<Rightarrow> scheduled_job \<Rightarrow> scheduled_job" where
  "saved_job b j = j\<lparr>sj_revision := bj_revision b, sj_status := scheduled_status (bj_status b),
     sj_nextRunAt := (case bj_nextOccurrenceAt b of None \<Rightarrow> sj_nextRunAt j | Some t \<Rightarrow> t)\<rparr>"

definition saveBackgroundJob :: "work_db \<Rightarrow> background_job_state \<Rightarrow> int \<Rightarrow> (work_db \<times> background_job_state) result" where
  "saveBackgroundJob db b expectedRevision =
     andThen (ensure (wdb_headroom db) conflict) (\<lambda>_.
     case row_of sj_id (bj_id b) (wdb_jobs db) of
       None \<Rightarrow> port_fail NOT_FOUND
     | Some j \<Rightarrow>
         andThen (ensure (sj_revision j = expectedRevision \<and> bj_revision b = expectedRevision + 1 \<and>
                    sj_ownerId j = bj_ownerId b \<and> sj_agentId j = bj_agentId b \<and>
                    sj_authorizationRef j = bj_authorizationRef b) conflict) (\<lambda>_.
           Inr (db\<lparr>wdb_jobs := map (\<lambda>x. if sj_id x = bj_id b then saved_job b j else x) (wdb_jobs db)\<rparr>, b)))"

lemma background_status_scheduled [simp]: "background_status (scheduled_status s) = s"
  by (cases s) simp_all

lemma saveBackgroundJob_read:
  assumes "saveBackgroundJob db b n = Inr (db', r)"
  shows "\<exists>r'. readBackgroundJob db' (bj_id b) = Some r' \<and> bj_status r' = bj_status b \<and> bj_revision r' = n + 1 \<and>
    bj_ownerId r' = bj_ownerId b \<and> bj_authorizationRef r' = bj_authorizationRef b \<and> wdb_occurrences db' = wdb_occurrences db"
proof -
  from assms obtain j where j: "row_of sj_id (bj_id b) (wdb_jobs db) = Some j" "bj_revision b = n + 1"
    "sj_ownerId j = bj_ownerId b" "sj_authorizationRef j = bj_authorizationRef b"
    and db': "db' = db\<lparr>wdb_jobs := map (\<lambda>x. if sj_id x = bj_id b then saved_job b j else x) (wdb_jobs db)\<rparr>"
    unfolding saveBackgroundJob_def by (auto simp: inverts split: option.splits)
  have id: "sj_id j = bj_id b" using row_of_SomeD [OF j(1)] by simp
  have "row_of sj_id (bj_id b) (map (\<lambda>x. if sj_id x = sj_id (saved_job b j) then saved_job b j else x) (wdb_jobs db)) = Some (saved_job b j)"
    unfolding row_of_map_replace using j(1) id by (simp add: saved_job_def has_row_iff)
  then have "row_of sj_id (bj_id b) (wdb_jobs db') = Some (saved_job b j)" using db' id by (simp add: saved_job_def)
  then show ?thesis using j db' by (simp add: readBackgroundJob_def saved_job_def)
qed

section \<open>Witnesses\<close>

text \<open>The zone that prints coordinated universal time.\<close>

definition example_zones :: time_zones where
  "example_zones tz = (if tz = ''UTC'' then Some (\<lambda>t. case civil_from_days (t div 86400000) of
     (y, m, d) \<Rightarrow> \<lparr>lp_year = pad_digits 4 y, lp_month = pad_digits 2 m, lp_day = pad_digits 2 d,
       lp_hour = t div 3600000 mod 24, lp_minute = t div 60000 mod 60\<rparr>) else None)"

theorem daily_candidates_first_of_date_witness:
  "\<exists>f. dailyCandidates example_zones ''UTC'' 9 30 1767259700000 1767260000000 None = Inr [(1767259800000, ''2026-01-01'')] \<and>
     example_zones ''UTC'' = Some f \<and> matching_minute f 9 30 1767259800000 \<and> lp_date (f 1767259800000) = ''2026-01-01''"
proof -
  have "case dailyCandidates example_zones ''UTC'' 9 30 1767259700000 1767260000000 None of
      Inr cs \<Rightarrow> cs = [(1767259800000, ''2026-01-01'')] | _ \<Rightarrow> False" by code_simp
  then have cs: "dailyCandidates example_zones ''UTC'' 9 30 1767259700000 1767260000000 None = Inr [(1767259800000, ''2026-01-01'')]"
    by (auto split: sum.splits)
  obtain f where f: "example_zones ''UTC'' = Some f" by (simp add: example_zones_def)
  have "(1767259800000, ''2026-01-01'') \<in> set [(1767259800000 :: int, ''2026-01-01'')]" by simp
  then have "matching_minute f 9 30 1767259800000 \<and> ''2026-01-01'' = lp_date (f 1767259800000)"
    using conjunct2 [OF daily_candidates_first_of_date [OF cs f, unfolded Let_def]] by blast
  with cs f show ?thesis by simp
qed

theorem schedule_evaluation_sound_witness:
  "\<exists>e. evaluateDurableSchedule example_zones (schedule_interval ''2026-01-01T00:00:00.000Z'' 60000 1000)
       ''2026-01-01T00:02:30.500Z'' (Some ''2026-01-01T00:00:30.000Z'') = Inr e \<and>
     ev_scheduledAt e = Some ''2026-01-01T00:02:30.000Z'' \<and> ev_outcome e = sched_due \<and>
     sound_evaluation example_zones (schedule_interval ''2026-01-01T00:00:00.000Z'' 60000 1000) 1767225750500 (Some 1767225630000) e"
proof -
  have "case evaluateDurableSchedule example_zones (schedule_interval ''2026-01-01T00:00:00.000Z'' 60000 1000)
       ''2026-01-01T00:02:30.500Z'' (Some ''2026-01-01T00:00:30.000Z'') of
      Inr e \<Rightarrow> ev_scheduledAt e = Some ''2026-01-01T00:02:30.000Z'' \<and> ev_outcome e = sched_due | _ \<Rightarrow> False" by code_simp
  then obtain e where e: "evaluateDurableSchedule example_zones (schedule_interval ''2026-01-01T00:00:00.000Z'' 60000 1000)
       ''2026-01-01T00:02:30.500Z'' (Some ''2026-01-01T00:00:30.000Z'') = Inr e"
    "ev_scheduledAt e = Some ''2026-01-01T00:02:30.000Z''" "ev_outcome e = sched_due"
    by (auto split: sum.splits)
  have t: "date_parse ''2026-01-01T00:02:30.500Z'' = Some 1767225750500" "date_parse ''2026-01-01T00:00:30.000Z'' = Some 1767225630000"
    by code_simp+
  from schedule_evaluation_sound [OF e(1)] e t show ?thesis by auto
qed

theorem daily_evaluation_returns_witness:
  "\<exists>e. evaluateDurableSchedule example_zones (schedule_daily ''UTC'' 9 30 60000) ''2026-01-01T09:30:30.000Z'' None = Inr e"
proof -
  obtain f where f: "example_zones ''UTC'' = Some f" by (simp add: example_zones_def)
  have "date_parse ''2026-01-01T09:30:30.000Z'' = Some 1767259830000" "isCanonicalTimestamp ''2026-01-01T09:30:30.000Z''"
    by code_simp+
  then show ?thesis
    by (intro daily_evaluation_returns [where f = f and now = 1767259830000])
      (simp_all add: f is_safe_integer_def MAX_SAFE_INTEGER_def valid_time_def MAX_TIME_def DAY_WINDOW_def)
qed

end
