(* ===== verification/Authority_Store.thy ===== *)
theory Authority_Store
  imports Work_Tables Authority
begin

text \<open>
  Deployments and authority leases as the SQLite worker keeps them
  (\<open>packages/persistence-sqlite/src/sqlite-worker.ts\<close>): saving a deployment under its revision, claiming,
  renewing and releasing the lease of an Agent, and the join that decides whether a command holds the
  current authority.

  The tables carry the constraints of the first migration: primary keys, one deployment per Agent and
  epoch, one active deployment per Agent, one lease per deployment, epoch and token. A statement that
  breaks one of them raises a driver error (\<open>OtherError\<close>) and rolls its transaction back. Owners and
  Agents are taken to exist (\<open>REFERENCES owners\<close>, \<open>REFERENCES agents\<close>).
\<close>

section \<open>Deployments\<close>

definition deployment_constraints :: "deployment_authority_state list \<Rightarrow> bool" where
  "deployment_constraints rows \<longleftrightarrow>
     distinct (map dep_id rows) \<and>
     distinct (map (\<lambda>d. (dep_agentId d, dep_authorityEpoch d)) rows) \<and>
     distinct (map dep_agentId (filter (\<lambda>d. dep_status d = dep_active) rows)) \<and>
     list_all (\<lambda>d. 0 \<le> dep_revision d \<and> 0 \<le> dep_authorityEpoch d \<and> 0 \<le> dep_fencingToken d) rows"

definition put_deployments :: "work_db \<Rightarrow> deployment_authority_state list \<Rightarrow> work_db result" where
  "put_deployments db rows =
     (if deployment_constraints rows then Inr (db\<lparr>wdb_deployments := rows\<rparr>) else Inl OtherError)"

definition readDeployment :: "work_db \<Rightarrow> DeploymentId \<Rightarrow> deployment_authority_state option" where
  "readDeployment db deploymentId = row_of dep_id deploymentId (wdb_deployments db)"

definition validDeploymentTransition ::
  "deployment_authority_state \<Rightarrow> deployment_authority_state \<Rightarrow> bool" where
  "validDeploymentTransition current nxt =
     (if dep_status current = dep_inactive_ready \<and> dep_status nxt = dep_active then
        dep_authorityEpoch nxt > dep_authorityEpoch current \<and> dep_fencingToken nxt > 0 \<and>
        dep_transferId nxt = dep_transferId current
      else if dep_status current = dep_active \<and> dep_status nxt = dep_retired_pending_transfer then
        dep_authorityEpoch nxt = dep_authorityEpoch current \<and>
        dep_fencingToken nxt = dep_fencingToken current \<and> dep_transferId nxt = dep_transferId current
      else if dep_status current = dep_retired_pending_transfer \<and> dep_status nxt = dep_retired then
        dep_authorityEpoch nxt = dep_authorityEpoch current \<and>
        dep_fencingToken nxt = dep_fencingToken current \<and> dep_transferId nxt = dep_transferId current
      else False)"

text \<open>The columns the \<open>UPDATE\<close> sets on the row of that id.\<close>

definition write_deployment ::
  "deployment_authority_state \<Rightarrow> deployment_authority_state \<Rightarrow> deployment_authority_state" where
  "write_deployment deployment d = (if dep_id d = dep_id deployment
     then d\<lparr>dep_revision := dep_revision deployment, dep_status := dep_status deployment,
            dep_authorityEpoch := dep_authorityEpoch deployment,
            dep_fencingToken := dep_fencingToken deployment,
            dep_transferId := dep_transferId deployment\<rparr>
     else d)"

definition saveDeployment ::
  "work_db \<Rightarrow> deployment_authority_state \<Rightarrow> int \<Rightarrow> (work_db \<times> deployment_authority_state) result" where
  "saveDeployment db deployment expectedRevision =
     andThen (ensure (wdb_headroom db) conflict) (\<lambda>_.
     case readDeployment db (dep_id deployment) of
       None \<Rightarrow>
         andThen (ensure (expectedRevision = 0 \<and> dep_revision deployment = 0 \<and>
           dep_status deployment = dep_inactive_ready \<and> dep_fencingToken deployment = 0) conflict) (\<lambda>_.
         andThen (put_deployments db (wdb_deployments db @ [deployment])) (\<lambda>db'.
         Inr (db', deployment)))
     | Some current \<Rightarrow>
         andThen (ensure (dep_revision current = expectedRevision \<and>
           dep_revision deployment = expectedRevision + 1 \<and>
           dep_ownerId current = dep_ownerId deployment \<and> dep_agentId current = dep_agentId deployment \<and>
           validDeploymentTransition current deployment) conflict) (\<lambda>_.
         andThen (put_deployments db (map (write_deployment deployment) (wdb_deployments db))) (\<lambda>db'.
         Inr (db', deployment))))"

definition assertCurrentDeployment ::
  "work_db \<Rightarrow> product_authority_fence \<Rightarrow> deployment_authority_state result" where
  "assertCurrentDeployment db fence =
     (case readDeployment db (fence_deploymentId fence) of
        None \<Rightarrow> Inl not_authoritative
      | Some deployment \<Rightarrow>
          andThen (ensure (dep_status deployment = dep_active \<and>
            dep_authorityEpoch deployment = fence_authorityEpoch fence \<and>
            dep_fencingToken deployment = fence_fencingToken fence) not_authoritative) (\<lambda>_.
          Inr deployment))"

section \<open>Authority leases\<close>

record authority_lease_record =
  alr_lease :: agent_authority_lease
  alr_fencingToken :: int
  alr_acquiredAt :: string
  alr_expiresAt :: string

definition leaseFromRow :: "authority_lease_row \<Rightarrow> authority_lease_record" where
  "leaseFromRow row =
     \<lparr>alr_lease = \<lparr>lease_id = al_id row, lease_agentId = al_agentId row,
        lease_ownerId = al_ownerId row, lease_holderId = al_holderId row\<rparr>,
      alr_fencingToken = al_fencingToken row, alr_acquiredAt = al_acquiredAt row,
      alr_expiresAt = al_expiresAt row\<rparr>"

definition lease_constraints :: "authority_lease_row list \<Rightarrow> bool" where
  "lease_constraints rows \<longleftrightarrow>
     distinct (map al_id rows) \<and>
     distinct (map (\<lambda>l. (al_deploymentId l, al_authorityEpoch l, al_fencingToken l)) rows) \<and>
     list_all (\<lambda>l. 1 \<le> al_authorityEpoch l \<and> 1 \<le> al_fencingToken l) rows"

definition put_leases :: "work_db \<Rightarrow> authority_lease_row list \<Rightarrow> work_db result" where
  "put_leases db rows =
     (if lease_constraints rows then Inr (db\<lparr>wdb_authorityLeases := rows\<rparr>) else Inl OtherError)"

definition read_lease_row :: "work_db \<Rightarrow> AuthorityLeaseId \<Rightarrow> authority_lease_row option" where
  "read_lease_row db leaseId = row_of al_id leaseId (wdb_authorityLeases db)"

definition currentLease :: "work_db \<Rightarrow> AgentId \<Rightarrow> string \<Rightarrow> authority_lease_record option" where
  "currentLease db agentId now =
     (case sort_key (\<lambda>l. - al_fencingToken l) (filter (\<lambda>l. al_agentId l = agentId \<and>
          al_releasedAt l = None \<and> now < al_expiresAt l) (wdb_authorityLeases db)) of
        [] \<Rightarrow> None
      | l # _ \<Rightarrow> Some (leaseFromRow l))"

definition assertLeaseDuration :: "int \<Rightarrow> unit result" where
  "assertLeaseDuration durationMs = ensure (is_safe_integer durationMs \<and> 0 < durationMs) type_error"

definition lease_expiry :: "string \<Rightarrow> int \<Rightarrow> string result" where
  "lease_expiry now durationMs =
     (case date_parse now of None \<Rightarrow> Inl RangeError | Some t \<Rightarrow> toISOString (t + durationMs))"

definition previousToken :: "work_db \<Rightarrow> AgentId \<Rightarrow> int" where
  "previousToken db agentId =
     foldr max (map al_fencingToken (filter (\<lambda>l. al_agentId l = agentId) (wdb_authorityLeases db))) 0"

definition claimLease ::
  "work_db \<Rightarrow> agent_authority_lease \<Rightarrow> int \<Rightarrow> string \<Rightarrow> (work_db \<times> authority_lease_record) result" where
  "claimLease db lease durationMs now =
     andThen (assertLeaseDuration durationMs) (\<lambda>_.
     andThen (ensure (wdb_headroom db) conflict) (\<lambda>_.
     case currentLease db (lease_agentId lease) now of
       Some current \<Rightarrow>
         andThen (ensure (lease_id (alr_lease current) = lease_id lease \<and>
           lease_holderId (alr_lease current) = lease_holderId lease \<and>
           lease_ownerId (alr_lease current) = lease_ownerId lease) conflict) (\<lambda>_.
         Inr (db, current))
     | None \<Rightarrow>
         (case List.find (\<lambda>d. dep_ownerId d = lease_ownerId lease \<and> dep_agentId d = lease_agentId lease \<and>
                 dep_status d = dep_active) (wdb_deployments db) of
            None \<Rightarrow> Inl not_authoritative
          | Some deployment \<Rightarrow>
              let fencingToken = previousToken db (lease_agentId lease) + 1 in
              andThen (put_deployments db (map (\<lambda>d. if dep_id d = dep_id deployment
                  then d\<lparr>dep_fencingToken := fencingToken,
                         dep_revision := dep_revision d + (if dep_fencingToken d = fencingToken then 0 else 1)\<rparr>
                  else d) (wdb_deployments db))) (\<lambda>db'.
              andThen (lease_expiry now durationMs) (\<lambda>leaseExpiresAt.
              andThen (put_leases db' (wdb_authorityLeases db' @
                [\<lparr>al_id = lease_id lease, al_ownerId = lease_ownerId lease, al_agentId = lease_agentId lease,
                  al_deploymentId = dep_id deployment, al_holderId = lease_holderId lease,
                  al_authorityEpoch = dep_authorityEpoch deployment, al_fencingToken = fencingToken,
                  al_acquiredAt = now, al_expiresAt = leaseExpiresAt, al_releasedAt = None\<rparr>])) (\<lambda>db''.
              Inr (db'', \<lparr>alr_lease = lease, alr_fencingToken = fencingToken, alr_acquiredAt = now,
                         alr_expiresAt = leaseExpiresAt\<rparr>)))))))"

text \<open>Renewal and release are single statements outside a transaction, without the disk check.\<close>

definition renewAuthorityLease ::
  "work_db \<Rightarrow> AuthorityLeaseId \<Rightarrow> int \<Rightarrow> string \<Rightarrow> (work_db \<times> authority_lease_record) result" where
  "renewAuthorityLease db leaseId durationMs now =
     andThen (assertLeaseDuration durationMs) (\<lambda>_.
     case read_lease_row db leaseId of
       None \<Rightarrow> port_fail NOT_FOUND
     | Some row \<Rightarrow>
         andThen (ensure (al_releasedAt row = None \<and> now < al_expiresAt row) (ApplicationPortError NOT_FOUND)) (\<lambda>_.
         andThen (lease_expiry now durationMs) (\<lambda>leaseExpiresAt.
         Inr (db\<lparr>wdb_authorityLeases := map (\<lambda>l. if al_id l = leaseId
                then l\<lparr>al_expiresAt := leaseExpiresAt\<rparr> else l) (wdb_authorityLeases db)\<rparr>,
              leaseFromRow (row\<lparr>al_expiresAt := leaseExpiresAt\<rparr>)))))"

definition releaseAuthorityLease :: "work_db \<Rightarrow> AuthorityLeaseId \<Rightarrow> string \<Rightarrow> work_db result" where
  "releaseAuthorityLease db leaseId now =
     (case read_lease_row db leaseId of
        None \<Rightarrow> port_fail NOT_FOUND
      | Some row \<Rightarrow>
          andThen (ensure (al_releasedAt row = None) (ApplicationPortError NOT_FOUND)) (\<lambda>_.
          Inr (db\<lparr>wdb_authorityLeases := map (\<lambda>l. if al_id l = leaseId
                then l\<lparr>al_releasedAt := Some now\<rparr> else l) (wdb_authorityLeases db)\<rparr>)))"

section \<open>The authority of a command\<close>

record authority_fence =
  af_leaseId :: AuthorityLeaseId
  af_fencingToken :: int

record agent_command =
  cmd_ownerId :: OwnerId
  cmd_agentId :: AgentId
  cmd_idempotencyKey :: IdempotencyKey
  cmd_commandType :: string
  cmd_commandFingerprint :: string
  cmd_authority :: authority_fence

definition lease_with_deployment ::
  "work_db \<Rightarrow> AuthorityLeaseId \<Rightarrow> OwnerId \<Rightarrow> AgentId \<Rightarrow> (authority_lease_row \<times> deployment_authority_state) option" where
  "lease_with_deployment db leaseId ownerId agentId =
     (case List.find (\<lambda>l. al_id l = leaseId \<and> al_ownerId l = ownerId \<and> al_agentId l = agentId)
             (wdb_authorityLeases db) of
        None \<Rightarrow> None
      | Some l \<Rightarrow> map_option (\<lambda>d. (l, d))
          (List.find (\<lambda>d. dep_id d = al_deploymentId l \<and> dep_ownerId d = al_ownerId l \<and>
             dep_agentId d = al_agentId l) (wdb_deployments db)))"

definition currentAuthority ::
  "work_db \<Rightarrow> agent_command \<Rightarrow> string \<Rightarrow> (authority_lease_row \<times> deployment_authority_state) result" where
  "currentAuthority db command now =
     (case lease_with_deployment db (af_leaseId (cmd_authority command)) (cmd_ownerId command)
             (cmd_agentId command) of
        None \<Rightarrow> Inl not_authoritative
      | Some (l, d) \<Rightarrow>
          andThen (ensure (dep_status d = dep_active \<and> al_releasedAt l = None \<and> now < al_expiresAt l \<and>
            al_fencingToken l = af_fencingToken (cmd_authority command) \<and>
            dep_fencingToken d = af_fencingToken (cmd_authority command)) not_authoritative) (\<lambda>_.
          andThen (ensure (dep_authorityEpoch d = al_authorityEpoch l) not_authoritative) (\<lambda>_.
          Inr (l, d))))"

section \<open>What the checks establish\<close>

lemma put_deployments_Inr [inverts]:
  "put_deployments db rows = Inr db' \<longleftrightarrow> deployment_constraints rows \<and> db' = db\<lparr>wdb_deployments := rows\<rparr>"
  by (auto simp: put_deployments_def)

lemma put_leases_Inr [inverts]:
  "put_leases db rows = Inr db' \<longleftrightarrow> lease_constraints rows \<and> db' = db\<lparr>wdb_authorityLeases := rows\<rparr>"
  by (auto simp: put_leases_def)

lemma lease_with_deployment_SomeD:
  assumes "lease_with_deployment db i ow ag = Some (l, d)"
  shows "l \<in> set (wdb_authorityLeases db)" "d \<in> set (wdb_deployments db)" "al_id l = i" "al_ownerId l = ow"
    "al_agentId l = ag" "dep_id d = al_deploymentId l" "dep_agentId d = ag"
  using assms by (auto simp: lease_with_deployment_def split: option.splits dest: find_SomeD)

lemma currentAuthority_InrD:
  assumes "currentAuthority db command now = Inr (l, d)"
  shows "lease_with_deployment db (af_leaseId (cmd_authority command)) (cmd_ownerId command) (cmd_agentId command) = Some (l, d)"
    "dep_status d = dep_active" "al_releasedAt l = None" "now < al_expiresAt l"
    "al_fencingToken l = af_fencingToken (cmd_authority command)" "dep_fencingToken d = al_fencingToken l"
    "dep_authorityEpoch d = al_authorityEpoch l"
  using assms by (auto simp: currentAuthority_def andThen_ensure_Inr split: option.splits)

lemma previousToken_ge:
  "l \<in> set (wdb_authorityLeases db) \<Longrightarrow> al_agentId l = agentId \<Longrightarrow> al_fencingToken l \<le> previousToken db agentId"
proof -
  have "x \<in> set xs \<Longrightarrow> x \<le> foldr max xs 0" for x :: int and xs by (induction xs) auto
  then show "l \<in> set (wdb_authorityLeases db) \<Longrightarrow> al_agentId l = agentId \<Longrightarrow> al_fencingToken l \<le> previousToken db agentId"
    by (auto simp: previousToken_def)
qed

section \<open>The invariant of leases and deployments\<close>

text \<open>
  A lease names a deployment of its Agent and epoch that has been activated, and its token is at most
  the deployment's; the token of an active deployment that one of its leases carries is the highest
  token of the Agent.
\<close>

definition lease_of_deployment :: "authority_lease_row \<Rightarrow> deployment_authority_state \<Rightarrow> bool" where
  "lease_of_deployment l d \<longleftrightarrow> dep_id d = al_deploymentId l \<and> dep_ownerId d = al_ownerId l \<and> dep_agentId d = al_agentId l \<and>
     dep_authorityEpoch d = al_authorityEpoch l"

definition authority_inv :: "work_db \<Rightarrow> bool" where
  "authority_inv db \<longleftrightarrow> deployment_constraints (wdb_deployments db) \<and> lease_constraints (wdb_authorityLeases db) \<and>
     (\<forall>l \<in> set (wdb_authorityLeases db). \<exists>d \<in> set (wdb_deployments db). lease_of_deployment l d \<and> dep_status d \<noteq> dep_inactive_ready) \<and>
     (\<forall>l \<in> set (wdb_authorityLeases db). \<forall>m \<in> set (wdb_authorityLeases db).
        al_agentId l = al_agentId m \<and> al_fencingToken l = al_fencingToken m \<longrightarrow> al_id l = al_id m) \<and>
     (\<forall>l \<in> set (wdb_authorityLeases db). \<forall>d \<in> set (wdb_deployments db).
        lease_of_deployment l d \<and> dep_status d = dep_active \<and> dep_fencingToken d = al_fencingToken l \<longrightarrow>
        (\<forall>m \<in> set (wdb_authorityLeases db). al_agentId m = al_agentId l \<longrightarrow> al_fencingToken m \<le> al_fencingToken l))"

definition authority_step :: "work_db \<Rightarrow> work_db \<Rightarrow> bool" where
  "authority_step db db' \<longleftrightarrow>
     (\<exists>d n r. saveDeployment db d n = Inr (db', r)) \<or>
     (\<exists>l n now r. claimLease db l n now = Inr (db', r)) \<or>
     (\<exists>i n now r. renewAuthorityLease db i n now = Inr (db', r)) \<or>
     (\<exists>i now. releaseAuthorityLease db i now = Inr db')"

lemma sort_key_ConsD: "sort_key f xs = y # ys \<Longrightarrow> y \<in> set xs"
  by (metis list.set_intros(1) set_sort)

lemma sort_key_Nil: "sort_key f xs = [] \<Longrightarrow> xs = []"
  by (metis set_empty set_sort)

lemma deployment_by_id:
  "deployment_constraints rows \<Longrightarrow> d \<in> set rows \<Longrightarrow> e \<in> set rows \<Longrightarrow> dep_id d = dep_id e \<Longrightarrow> d = e"
  by (auto simp: deployment_constraints_def distinct_map inj_on_def)

lemma distinct_map_filterD:
  "distinct (map f (filter P xs)) \<Longrightarrow> x \<in> set xs \<Longrightarrow> y \<in> set xs \<Longrightarrow> P x \<Longrightarrow> P y \<Longrightarrow> f x = f y \<Longrightarrow> x = y"
  by (auto simp: distinct_map inj_on_def)

lemma active_unique:
  "deployment_constraints rows \<Longrightarrow> d \<in> set rows \<Longrightarrow> e \<in> set rows \<Longrightarrow> dep_status d = dep_active \<Longrightarrow>
     dep_status e = dep_active \<Longrightarrow> dep_agentId d = dep_agentId e \<Longrightarrow> d = e"
  unfolding deployment_constraints_def
  by (elim conjE, rule distinct_map_filterD [where f = dep_agentId and P = "\<lambda>d. dep_status d = dep_active"]) simp_all

lemma lease_by_id:
  "lease_constraints rows \<Longrightarrow> l \<in> set rows \<Longrightarrow> m \<in> set rows \<Longrightarrow> al_id l = al_id m \<Longrightarrow> l = m"
  by (auto simp: lease_constraints_def distinct_map inj_on_def)

lemma authority_invD:
  assumes "authority_inv db"
  shows "deployment_constraints (wdb_deployments db)" "lease_constraints (wdb_authorityLeases db)"
    "l \<in> set (wdb_authorityLeases db) \<Longrightarrow> \<exists>d \<in> set (wdb_deployments db). lease_of_deployment l d \<and> dep_status d \<noteq> dep_inactive_ready"
    "l \<in> set (wdb_authorityLeases db) \<Longrightarrow> m \<in> set (wdb_authorityLeases db) \<Longrightarrow> al_agentId l = al_agentId m \<Longrightarrow>
       al_fencingToken l = al_fencingToken m \<Longrightarrow> al_id l = al_id m"
    "l \<in> set (wdb_authorityLeases db) \<Longrightarrow> d \<in> set (wdb_deployments db) \<Longrightarrow> lease_of_deployment l d \<Longrightarrow>
       dep_status d = dep_active \<Longrightarrow> dep_fencingToken d = al_fencingToken l \<Longrightarrow>
       m \<in> set (wdb_authorityLeases db) \<Longrightarrow> al_agentId m = al_agentId l \<Longrightarrow> al_fencingToken m \<le> al_fencingToken l"
  using assms unfolding authority_inv_def by blast+

lemma authority_invI:
  assumes "deployment_constraints (wdb_deployments db)" "lease_constraints (wdb_authorityLeases db)"
    and "\<And>l. l \<in> set (wdb_authorityLeases db) \<Longrightarrow>
      \<exists>d \<in> set (wdb_deployments db). lease_of_deployment l d \<and> dep_status d \<noteq> dep_inactive_ready"
    and "\<And>l m. l \<in> set (wdb_authorityLeases db) \<Longrightarrow> m \<in> set (wdb_authorityLeases db) \<Longrightarrow> al_agentId l = al_agentId m \<Longrightarrow>
       al_fencingToken l = al_fencingToken m \<Longrightarrow> al_id l = al_id m"
    and "\<And>l d m. l \<in> set (wdb_authorityLeases db) \<Longrightarrow> d \<in> set (wdb_deployments db) \<Longrightarrow> lease_of_deployment l d \<Longrightarrow>
       dep_status d = dep_active \<Longrightarrow> dep_fencingToken d = al_fencingToken l \<Longrightarrow>
       m \<in> set (wdb_authorityLeases db) \<Longrightarrow> al_agentId m = al_agentId l \<Longrightarrow> al_fencingToken m \<le> al_fencingToken l"
  shows "authority_inv db"
  unfolding authority_inv_def using assms by blast

lemma lease_deployment:
  assumes "authority_inv db" "l \<in> set (wdb_authorityLeases db)" "d \<in> set (wdb_deployments db)" "dep_id d = al_deploymentId l"
  shows "lease_of_deployment l d" "dep_status d \<noteq> dep_inactive_ready"
proof -
  obtain d0 where d0: "d0 \<in> set (wdb_deployments db)" "lease_of_deployment l d0" "dep_status d0 \<noteq> dep_inactive_ready"
    using authority_invD(3) [OF assms(1,2)] by blast
  have "d0 = d"
    using deployment_by_id [OF authority_invD(1) [OF assms(1)] d0(1) assms(3)] d0(2) assms(4) by (simp add: lease_of_deployment_def)
  with d0 show "lease_of_deployment l d" "dep_status d \<noteq> dep_inactive_ready" by simp_all
qed

lemma relabelled_leases_inv:
  assumes inv: "authority_inv db"
    and [simp]: "\<And>l. al_id (f l) = al_id l" "\<And>l. al_ownerId (f l) = al_ownerId l" "\<And>l. al_agentId (f l) = al_agentId l"
      "\<And>l. al_deploymentId (f l) = al_deploymentId l" "\<And>l. al_authorityEpoch (f l) = al_authorityEpoch l"
      "\<And>l. al_fencingToken (f l) = al_fencingToken l"
  shows "authority_inv (db\<lparr>wdb_authorityLeases := map f (wdb_authorityLeases db)\<rparr>)"
proof -
  have of: "lease_of_deployment (f l) d = lease_of_deployment l d" for l d by (simp add: lease_of_deployment_def)
  have table: "lease_constraints (map f (wdb_authorityLeases db))"
    using authority_invD(2) [OF inv] by (simp add: lease_constraints_def comp_def list_all_iff)
  show ?thesis
  proof (rule authority_invI)
    fix l m
    assume "l \<in> set (wdb_authorityLeases (db\<lparr>wdb_authorityLeases := map f (wdb_authorityLeases db)\<rparr>))"
      "m \<in> set (wdb_authorityLeases (db\<lparr>wdb_authorityLeases := map f (wdb_authorityLeases db)\<rparr>))"
      "al_agentId l = al_agentId m" "al_fencingToken l = al_fencingToken m"
    then show "al_id l = al_id m" by (auto intro: authority_invD(4) [OF inv])
  next
    fix l d m
    assume "l \<in> set (wdb_authorityLeases (db\<lparr>wdb_authorityLeases := map f (wdb_authorityLeases db)\<rparr>))"
      "d \<in> set (wdb_deployments (db\<lparr>wdb_authorityLeases := map f (wdb_authorityLeases db)\<rparr>))"
      "lease_of_deployment l d" "dep_status d = dep_active" "dep_fencingToken d = al_fencingToken l"
      "m \<in> set (wdb_authorityLeases (db\<lparr>wdb_authorityLeases := map f (wdb_authorityLeases db)\<rparr>))" "al_agentId m = al_agentId l"
    then show "al_fencingToken m \<le> al_fencingToken l" by (auto simp: of intro: authority_invD(5) [OF inv])
  qed (use table authority_invD(1,3) [OF inv] in \<open>auto simp: of\<close>)
qed

lemma renewAuthorityLease_inv: "renewAuthorityLease db i n now = Inr (db', r) \<Longrightarrow> authority_inv db \<Longrightarrow> authority_inv db'"
  by (auto simp: renewAuthorityLease_def inverts split: option.splits intro!: relabelled_leases_inv)

lemma releaseAuthorityLease_inv: "releaseAuthorityLease db i now = Inr db' \<Longrightarrow> authority_inv db \<Longrightarrow> authority_inv db'"
  by (auto simp: releaseAuthorityLease_def inverts split: option.splits intro!: relabelled_leases_inv)

lemma write_deployment_id [simp]: "dep_id (write_deployment d e) = dep_id e"
  by (simp add: write_deployment_def)

lemma write_deployment_eq:
  "dep_ownerId e = dep_ownerId d \<Longrightarrow> dep_agentId e = dep_agentId d \<Longrightarrow>
     write_deployment d e = (if dep_id e = dep_id d then d else e)"
  by (simp add: write_deployment_def)

lemma written_deployments:
  assumes cur: "readDeployment db (dep_id d) = Some current"
    and same: "dep_ownerId current = dep_ownerId d" "dep_agentId current = dep_agentId d"
    and dist: "distinct (map dep_id (wdb_deployments db))"
  shows "map (write_deployment d) (wdb_deployments db) =
    map (\<lambda>e. if dep_id e = dep_id d then d else e) (wdb_deployments db)"
proof (intro map_cong refl)
  fix e assume e: "e \<in> set (wdb_deployments db)"
  have "e = current" if "dep_id e = dep_id d"
    using e that dist row_of_SomeD [OF cur [unfolded readDeployment_def]] by (auto simp: distinct_map inj_on_def)
  with same show "write_deployment d e = (if dep_id e = dep_id d then d else e)"
    by (cases "dep_id e = dep_id d") (simp_all add: write_deployment_eq, simp add: write_deployment_def)
qed

lemma distinct_ids_of_map:
  "deployment_constraints (map f rows) \<Longrightarrow> (\<And>e. dep_id (f e) = dep_id e) \<Longrightarrow> distinct (map dep_id rows)"
  by (simp add: deployment_constraints_def comp_def)

lemma saveDeployment_cases:
  assumes "saveDeployment db d n = Inr (db', r)"
  obtains (insert) "readDeployment db (dep_id d) = None" "dep_status d = dep_inactive_ready" "n = 0" "dep_revision d = 0"
      "dep_fencingToken d = 0"
      "deployment_constraints (wdb_deployments db @ [d])" "db' = db\<lparr>wdb_deployments := wdb_deployments db @ [d]\<rparr>"
  | (update) current where "readDeployment db (dep_id d) = Some current" "validDeploymentTransition current d"
      "dep_revision current = n" "dep_revision d = n + 1"
      "dep_ownerId current = dep_ownerId d" "dep_agentId current = dep_agentId d"
      "deployment_constraints (map (\<lambda>e. if dep_id e = dep_id d then d else e) (wdb_deployments db))"
      "db' = db\<lparr>wdb_deployments := map (\<lambda>e. if dep_id e = dep_id d then d else e) (wdb_deployments db)\<rparr>"
proof (cases "readDeployment db (dep_id d)")
  case None
  with assms show ?thesis by (intro insert) (auto simp: saveDeployment_def inverts)
next
  case (Some current)
  then have checks: "validDeploymentTransition current d" "dep_revision current = n" "dep_revision d = n + 1"
      "dep_ownerId current = dep_ownerId d" "dep_agentId current = dep_agentId d"
      "deployment_constraints (map (write_deployment d) (wdb_deployments db))"
      "db' = db\<lparr>wdb_deployments := map (write_deployment d) (wdb_deployments db)\<rparr>"
    using assms by (auto simp: saveDeployment_def inverts)
  note eq = written_deployments [OF Some checks(4,5) distinct_ids_of_map [OF checks(6) write_deployment_id]]
  show ?thesis by (rule update [OF Some checks(1-5)]) (use checks(6,7) in \<open>simp_all only: eq\<close>)
qed

lemma saveDeployment_inv:
  assumes save: "saveDeployment db d n = Inr (db', r)" and inv: "authority_inv db"
  shows "authority_inv db'"
  using save
proof (cases rule: saveDeployment_cases)
  case insert
  show ?thesis
  proof (rule authority_invI)
    fix l m
    assume "l \<in> set (wdb_authorityLeases db')" "m \<in> set (wdb_authorityLeases db')" "al_agentId l = al_agentId m"
      "al_fencingToken l = al_fencingToken m"
    then show "al_id l = al_id m" by (intro authority_invD(4) [OF inv, of l m]) (simp_all add: insert(7))
  next
    fix l e m
    assume "l \<in> set (wdb_authorityLeases db')" "e \<in> set (wdb_deployments db')" "lease_of_deployment l e" "dep_status e = dep_active"
      "dep_fencingToken e = al_fencingToken l" "m \<in> set (wdb_authorityLeases db')" "al_agentId m = al_agentId l"
    with authority_invD(5) [OF inv, of l e m] insert(2) show "al_fencingToken m \<le> al_fencingToken l" by (auto simp: insert(7))
  qed (use insert authority_invD(2,3) [OF inv] in auto)
next
  case (update current)
  have cur: "current \<in> set (wdb_deployments db)" "dep_id current = dep_id d"
    using row_of_SomeD [OF update(1) [unfolded readDeployment_def]] by simp_all
  let ?g = "\<lambda>e. if dep_id e = dep_id d then d else e"
  have leased: "dep_status current \<noteq> dep_inactive_ready \<and> lease_of_deployment l d \<and> dep_status d \<noteq> dep_inactive_ready \<and> dep_status d \<noteq> dep_active"
    if l: "l \<in> set (wdb_authorityLeases db)" "al_deploymentId l = dep_id d" for l
    using lease_deployment [OF inv l(1) cur(1)] l(2) cur(2) update(2,5,6)
    by (auto simp: validDeploymentTransition_def lease_of_deployment_def split: if_splits)
  have dbs: "wdb_authorityLeases db' = wdb_authorityLeases db" "set (wdb_deployments db') = ?g ` set (wdb_deployments db)"
    by (simp_all add: update(8))
  show ?thesis
  proof (rule authority_invI)
    show "deployment_constraints (wdb_deployments db')" using update(7) by (simp add: update(8))
    show "lease_constraints (wdb_authorityLeases db')" using authority_invD(2) [OF inv] by (simp add: dbs)
  next
    fix l assume l: "l \<in> set (wdb_authorityLeases db')"
    then obtain e where e: "e \<in> set (wdb_deployments db)" "lease_of_deployment l e" "dep_status e \<noteq> dep_inactive_ready"
      using authority_invD(3) [OF inv, of l] by (auto simp: dbs)
    have "lease_of_deployment l (?g e) \<and> dep_status (?g e) \<noteq> dep_inactive_ready"
      using leased [of l] l e(2,3) by (auto simp: dbs lease_of_deployment_def)
    with e(1) show "\<exists>e \<in> set (wdb_deployments db'). lease_of_deployment l e \<and> dep_status e \<noteq> dep_inactive_ready"
      unfolding dbs by blast
  next
    fix l m
    assume "l \<in> set (wdb_authorityLeases db')" "m \<in> set (wdb_authorityLeases db')" "al_agentId l = al_agentId m"
      "al_fencingToken l = al_fencingToken m"
    then show "al_id l = al_id m" unfolding dbs by (rule authority_invD(4) [OF inv])
  next
    fix l e' m
    assume l: "l \<in> set (wdb_authorityLeases db')" and e': "e' \<in> set (wdb_deployments db')" "lease_of_deployment l e'"
      "dep_status e' = dep_active" "dep_fencingToken e' = al_fencingToken l"
      and m: "m \<in> set (wdb_authorityLeases db')" "al_agentId m = al_agentId l"
    obtain e where e: "e \<in> set (wdb_deployments db)" "e' = ?g e" using e'(1) unfolding dbs by blast
    have "dep_id e \<noteq> dep_id d" using leased [of l] l e e'(2,3) by (auto simp: dbs lease_of_deployment_def)
    with e(2) have "e' = e" by simp
    with l e(1) e' m show "al_fencingToken m \<le> al_fencingToken l"
      using authority_invD(5) [OF inv, of l e m] by (simp add: dbs)
  qed
qed

definition granted_row :: "agent_authority_lease \<Rightarrow> deployment_authority_state \<Rightarrow> authority_lease_record \<Rightarrow> authority_lease_row" where
  "granted_row lease d r = \<lparr>al_id = lease_id lease, al_ownerId = lease_ownerId lease, al_agentId = lease_agentId lease,
     al_deploymentId = dep_id d, al_holderId = lease_holderId lease, al_authorityEpoch = dep_authorityEpoch d,
     al_fencingToken = alr_fencingToken r, al_acquiredAt = alr_acquiredAt r, al_expiresAt = alr_expiresAt r,
     al_releasedAt = None\<rparr>"

definition raise_token :: "DeploymentId \<Rightarrow> int \<Rightarrow> deployment_authority_state \<Rightarrow> deployment_authority_state" where
  "raise_token i n d = (if dep_id d = i then d\<lparr>dep_fencingToken := n,
     dep_revision := dep_revision d + (if dep_fencingToken d = n then 0 else 1)\<rparr> else d)"

lemma raise_token_simps [simp]:
  "dep_id (raise_token i n d) = dep_id d" "dep_ownerId (raise_token i n d) = dep_ownerId d"
  "dep_agentId (raise_token i n d) = dep_agentId d" "dep_status (raise_token i n d) = dep_status d"
  "dep_authorityEpoch (raise_token i n d) = dep_authorityEpoch d"
  "dep_fencingToken (raise_token i n d) = (if dep_id d = i then n else dep_fencingToken d)"
  by (simp_all add: raise_token_def)

lemma claimLease_cases:
  assumes "claimLease db lease n now = Inr (db', r)"
  obtains (kept) "currentLease db (lease_agentId lease) now = Some r" "db' = db"
  | (granted) d where "currentLease db (lease_agentId lease) now = None"
      "d \<in> set (wdb_deployments db)" "dep_ownerId d = lease_ownerId lease" "dep_agentId d = lease_agentId lease"
      "dep_status d = dep_active" "lease_expiry now n = Inr (alr_expiresAt r)" "0 < n"
      "r = \<lparr>alr_lease = lease, alr_fencingToken = previousToken db (lease_agentId lease) + 1, alr_acquiredAt = now,
            alr_expiresAt = alr_expiresAt r\<rparr>"
      "deployment_constraints (map (raise_token (dep_id d) (alr_fencingToken r)) (wdb_deployments db))"
      "lease_constraints (wdb_authorityLeases db @ [granted_row lease d r])"
      "db' = db\<lparr>wdb_deployments := map (raise_token (dep_id d) (alr_fencingToken r)) (wdb_deployments db),
                wdb_authorityLeases := wdb_authorityLeases db @ [granted_row lease d r]\<rparr>"
proof (cases "currentLease db (lease_agentId lease) now")
  case None
  have raise: "(\<lambda>d. if dep_id d = i then d\<lparr>dep_fencingToken := k,
      dep_revision := dep_revision d + (if dep_fencingToken d = k then 0 else 1)\<rparr> else d) = raise_token i k" for i k
    by (simp add: raise_token_def fun_eq_iff)
  from assms None show ?thesis
    unfolding claimLease_def Let_def raise
    by (auto simp: inverts granted_row_def assertLeaseDuration_def split: option.splits dest!: find_SomeD intro!: granted)
next
  case (Some current)
  with assms show ?thesis by (intro kept) (auto simp: claimLease_def inverts)
qed

lemma claimLease_inv:
  assumes claim: "claimLease db lease n now = Inr (db', r)" and inv: "authority_inv db"
  shows "authority_inv db'"
  using claim
proof (cases rule: claimLease_cases)
  case kept
  with inv show ?thesis by simp
next
  case (granted d)
  let ?k = "alr_fencingToken r" and ?new = "granted_row lease d r"
  have k: "?k = previousToken db (lease_agentId lease) + 1" by (subst granted(8)) simp
  have older: "al_fencingToken l < ?k" if "l \<in> set (wdb_authorityLeases db)" "al_agentId l = lease_agentId lease" for l
    using previousToken_ge [OF that] k by simp
  have of: "lease_of_deployment l (raise_token (dep_id d) ?k e) = lease_of_deployment l e" for l e by (simp add: lease_of_deployment_def)
  have new: "lease_of_deployment ?new d" "al_agentId ?new = lease_agentId lease" "al_fencingToken ?new = ?k" "al_id ?new = lease_id lease"
    using granted(3,4) by (simp_all add: lease_of_deployment_def granted_row_def)
  have covered: "\<exists>e \<in> set (wdb_deployments db'). lease_of_deployment l e \<and> dep_status e \<noteq> dep_inactive_ready"
    if "l \<in> set (wdb_authorityLeases db')" for l
  proof (cases "l \<in> set (wdb_authorityLeases db)")
    case True
    from authority_invD(3) [OF inv True] show ?thesis by (auto simp: granted(11) of)
  next
    case False
    with that have "l = ?new" by (simp add: granted(11))
    with new(1) granted(2,5) show ?thesis by (auto simp: granted(11) of intro!: bexI [where x = d])
  qed
  have tokens: "al_id l = al_id m"
    if "l \<in> set (wdb_authorityLeases db')" "m \<in> set (wdb_authorityLeases db')" "al_agentId l = al_agentId m"
      "al_fencingToken l = al_fencingToken m" for l m
    using that authority_invD(4) [OF inv, of l m] older [of l] older [of m] new by (auto simp: granted(11))
  have highest: "al_fencingToken m \<le> al_fencingToken l"
    if l: "l \<in> set (wdb_authorityLeases db')" and e: "e \<in> set (wdb_deployments db)"
      and le: "lease_of_deployment l (raise_token (dep_id d) ?k e)" "dep_status e = dep_active"
      and tok: "dep_fencingToken (raise_token (dep_id d) ?k e) = al_fencingToken l"
      and m: "m \<in> set (wdb_authorityLeases db')" "al_agentId m = al_agentId l" for l e m
  proof (cases "al_agentId l = lease_agentId lease")
    case True
    then have "e = d" using active_unique [OF authority_invD(1) [OF inv] e granted(2) le(2) granted(5)] le(1) granted(4)
      by (simp add: of lease_of_deployment_def)
    with tok have "al_fencingToken l = ?k" by simp
    with m True older [of m] new(3) show ?thesis by (fastforce simp: granted(11))
  next
    case False
    with new(2) l m have old: "l \<in> set (wdb_authorityLeases db)" "m \<in> set (wdb_authorityLeases db)" by (auto simp: granted(11))
    from False le(1) granted(2,4) have "dep_id e \<noteq> dep_id d"
      using deployment_by_id [OF authority_invD(1) [OF inv] e granted(2)] by (auto simp: of lease_of_deployment_def)
    with authority_invD(5) [OF inv old(1) e _ le(2) _ old(2) m(2)] tok le(1) show ?thesis by (simp add: of)
  qed
  show ?thesis
  proof (rule authority_invI)
    fix l e m
    assume "l \<in> set (wdb_authorityLeases db')" "e \<in> set (wdb_deployments db')"
      "lease_of_deployment l e" "dep_status e = dep_active" "dep_fencingToken e = al_fencingToken l"
      "m \<in> set (wdb_authorityLeases db')" "al_agentId m = al_agentId l"
    with highest [of l _ m] show "al_fencingToken m \<le> al_fencingToken l" by (auto simp: granted(11))
  next
    show "deployment_constraints (wdb_deployments db')" "lease_constraints (wdb_authorityLeases db')"
      using granted(9,10) by (simp_all add: granted(11))
  qed (fact covered tokens)+
qed

lemma authority_step_inv: "authority_step db db' \<Longrightarrow> authority_inv db \<Longrightarrow> authority_inv db'"
  unfolding authority_step_def
  by (elim disjE exE) (rule saveDeployment_inv claimLease_inv renewAuthorityLease_inv releaseAuthorityLease_inv, assumption+)+

text \<open>Leases are never deleted, and only their expiry and release change.\<close>

lemma authority_step_keeps_lease:
  assumes "authority_step db db'" "l \<in> set (wdb_authorityLeases db)"
  shows "\<exists>l' \<in> set (wdb_authorityLeases db'). al_id l' = al_id l \<and> al_agentId l' = al_agentId l \<and>
    al_fencingToken l' = al_fencingToken l"
  using assms(1) unfolding authority_step_def
proof (elim disjE exE)
  fix d n r assume "saveDeployment db d n = Inr (db', r)"
  then show ?thesis by (cases rule: saveDeployment_cases) (use assms(2) in auto)
next
  fix k n now r assume "claimLease db k n now = Inr (db', r)"
  then show ?thesis by (cases rule: claimLease_cases) (use assms(2) in auto)
next
  fix i n now r assume "renewAuthorityLease db i n now = Inr (db', r)"
  then obtain e where "db' = db\<lparr>wdb_authorityLeases := map (\<lambda>l. if al_id l = i then l\<lparr>al_expiresAt := e\<rparr> else l) (wdb_authorityLeases db)\<rparr>"
    by (auto simp: renewAuthorityLease_def inverts simp del: map_eq_conv split: option.splits)
  then show ?thesis using assms(2) by (intro bexI [where x = "if al_id l = i then l\<lparr>al_expiresAt := e\<rparr> else l"]) auto
next
  fix i now assume "releaseAuthorityLease db i now = Inr db'"
  then have "wdb_authorityLeases db' = map (\<lambda>l. if al_id l = i then l\<lparr>al_releasedAt := Some now\<rparr> else l) (wdb_authorityLeases db)"
    by (auto simp: releaseAuthorityLease_def inverts split: option.splits)
  then show ?thesis using assms(2) by (intro bexI [where x = "if al_id l = i then l\<lparr>al_releasedAt := Some now\<rparr> else l"]) auto
qed

lemma authority_history:
  assumes "authority_step\<^sup>*\<^sup>* db db'" "authority_inv db"
  shows "authority_inv db' \<and> (\<forall>l \<in> set (wdb_authorityLeases db). \<exists>l' \<in> set (wdb_authorityLeases db').
    al_id l' = al_id l \<and> al_agentId l' = al_agentId l \<and> al_fencingToken l' = al_fencingToken l)"
  using assms
proof (induction rule: rtranclp_induct)
  case (step u v)
  then have "authority_inv v" using authority_step_inv by blast
  moreover have "\<exists>l' \<in> set (wdb_authorityLeases v). al_id l' = al_id l \<and> al_agentId l' = al_agentId l \<and>
      al_fencingToken l' = al_fencingToken l" if l: "l \<in> set (wdb_authorityLeases db)" for l
  proof -
    from step.IH [OF step.prems] l obtain k where k: "k \<in> set (wdb_authorityLeases u)" "al_id k = al_id l"
      "al_agentId k = al_agentId l" "al_fencingToken k = al_fencingToken l" by blast
    from authority_step_keeps_lease [OF step.hyps(2) k(1)] k(2-) show ?thesis by auto
  qed
  ultimately show ?case by blast
qed auto

section \<open>Properties\<close>

lemma authoritative_is_highest:
  assumes "authority_inv db" "currentAuthority db command now = Inr (l, d)"
    and "m \<in> set (wdb_authorityLeases db)" "al_agentId m = cmd_agentId command"
  shows "al_fencingToken m \<le> al_fencingToken l" "al_fencingToken m = al_fencingToken l \<Longrightarrow> al_id m = al_id l"
proof -
  note c = currentAuthority_InrD [OF assms(2)]
  note j = lease_with_deployment_SomeD [OF c(1)]
  have of: "lease_of_deployment l d" using lease_deployment(1) [OF assms(1) j(1,2)] j(6) by simp
  show "al_fencingToken m \<le> al_fencingToken l"
    using authority_invD(5) [OF assms(1) j(1,2) of c(2,6) assms(3)] j(5) assms(4) by simp
  show "al_fencingToken m = al_fencingToken l \<Longrightarrow> al_id m = al_id l"
    using authority_invD(4) [OF assms(1,3) j(1)] j(5) assms(4) by simp
qed

lemma claimed_row_present:
  assumes "claimLease db lease n now = Inr (db', r)"
  shows "\<exists>l \<in> set (wdb_authorityLeases db'). al_id l = lease_id lease \<and> al_agentId l = lease_agentId lease \<and>
    al_fencingToken l = alr_fencingToken r"
  using assms
proof (cases rule: claimLease_cases)
  case kept
  then obtain l ls where f: "sort_key (\<lambda>l. - al_fencingToken l) (filter (\<lambda>l. al_agentId l = lease_agentId lease \<and>
      al_releasedAt l = None \<and> now < al_expiresAt l) (wdb_authorityLeases db)) = l # ls" "r = leaseFromRow l"
    by (auto simp: currentLease_def split: list.splits)
  have "l \<in> set (wdb_authorityLeases db) \<and> al_agentId l = lease_agentId lease"
    using sort_key_ConsD [OF f(1)] by simp
  moreover have "lease_id (alr_lease r) = lease_id lease"
    using assms kept by (auto simp: claimLease_def inverts)
  ultimately show ?thesis using f(2) kept(2) by (auto simp: leaseFromRow_def)
next
  case (granted d)
  then show ?thesis by (auto simp: granted_row_def)
qed

text \<open>
  C23. Fencing by token: after a lease was granted with token n, at any later time and whatever leases
  and deployments were claimed, renewed, released, retired or activated since, a command that is
  accepted as holding the authority of that Agent carries a token of at least n, and the token n only
  under that very lease: an older holder is locked out for good.
\<close>

theorem newer_lease_fences_older:
  assumes start: "wdb_deployments start = []" "wdb_authorityLeases start = []"
    and before: "authority_step\<^sup>*\<^sup>* start db" and claim: "claimLease db lease n now = Inr (db1, r)"
    and later: "authority_step\<^sup>*\<^sup>* db1 db2"
    and accepted: "currentAuthority db2 command now2 = Inr a" "cmd_agentId command = lease_agentId lease"
  shows "alr_fencingToken r \<le> af_fencingToken (cmd_authority command) \<and>
    (af_fencingToken (cmd_authority command) = alr_fencingToken r \<longrightarrow> af_leaseId (cmd_authority command) = lease_id lease)"
proof -
  have "authority_inv start"
    by (rule authority_invI) (simp_all add: start deployment_constraints_def lease_constraints_def)
  with authority_history [OF before] have "authority_inv db" by blast
  then have inv1: "authority_inv db1" using claimLease_inv [OF claim] by blast
  obtain k where k: "k \<in> set (wdb_authorityLeases db1)" "al_id k = lease_id lease" "al_agentId k = lease_agentId lease"
      "al_fencingToken k = alr_fencingToken r"
    using claimed_row_present [OF claim] by blast
  from authority_history [OF later inv1] k obtain k2 where inv2: "authority_inv db2" and
    k2: "k2 \<in> set (wdb_authorityLeases db2)" "al_id k2 = lease_id lease" "al_agentId k2 = lease_agentId lease"
      "al_fencingToken k2 = alr_fencingToken r" by auto
  obtain l d where a: "a = (l, d)" by fastforce
  note c = currentAuthority_InrD [OF accepted(1) [unfolded a]]
  have "al_id l = af_leaseId (cmd_authority command)" using lease_with_deployment_SomeD(3) [OF c(1)] .
  then show ?thesis
    using authoritative_is_highest [OF inv2 accepted(1) [unfolded a] k2(1)] k2 c(5) accepted(2) by auto
qed

text \<open>
  The store keeps the domain's deployment lifecycle: for an existing deployment and a write under
  the revision that was read, the store accepts the new state exactly when an activation or retirement
  of the domain model produces it from the stored one.
\<close>

theorem save_is_domain_step:
  assumes cur: "readDeployment db (dep_id new) = Some current" and room: "wdb_headroom db"
    and table: "deployment_constraints (map (\<lambda>e. if dep_id e = dep_id new then new else e) (wdb_deployments db))"
    and range: "is_safe_integer (dep_authorityEpoch new)" "is_safe_integer (dep_fencingToken new)" "0 \<le> dep_authorityEpoch current"
  shows "\<not> isl (saveDeployment db new (dep_revision current)) \<longleftrightarrow> (\<exists>c. deployment_apply current c = Inr new)"
proof
  assume "\<not> isl (saveDeployment db new (dep_revision current))"
  then obtain db' r where s: "saveDeployment db new (dep_revision current) = Inr (db', r)" by (rule not_islE)
  have ids: "dep_id current = dep_id new" using row_of_SomeD [OF cur [unfolded readDeployment_def]] by simp
  from s have ok: "validDeploymentTransition current new" "dep_revision new = dep_revision current + 1"
      "dep_ownerId current = dep_ownerId new" "dep_agentId current = dep_agentId new"
    using cur by (auto elim: saveDeployment_cases)
  show "\<exists>c. deployment_apply current c = Inr new"
  proof (cases "dep_status new")
    case dep_active
    with ok(1) have v: "dep_status current = dep_inactive_ready" "dep_authorityEpoch current < dep_authorityEpoch new"
        "0 < dep_fencingToken new" "dep_transferId new = dep_transferId current"
      by (auto simp: validDeploymentTransition_def split: if_splits)
    with ids ok dep_active range have "deployment_apply current (Activate (dep_authorityEpoch new) (dep_fencingToken new)) = Inr new"
      by (auto simp: activateDeployment_ok intro!: deployment_authority_state.equality)
    then show ?thesis ..
  next
    case dep_retired_pending_transfer
    with ids ok have "deployment_apply current (Retire to_retired_pending_transfer) = Inr new"
      by (auto simp: validDeploymentTransition_def retireDeployment_ok intro!: deployment_authority_state.equality split: if_splits)
    then show ?thesis ..
  next
    case dep_retired
    with ids ok have "deployment_apply current (Retire to_retired) = Inr new"
      by (auto simp: validDeploymentTransition_def retireDeployment_ok intro!: deployment_authority_state.equality split: if_splits)
    then show ?thesis ..
  next
    case dep_inactive_ready
    with ok(1) show ?thesis by (auto simp: validDeploymentTransition_def split: if_splits)
  qed
next
  assume "\<exists>c. deployment_apply current c = Inr new"
  then obtain c where c: "deployment_apply current c = Inr new" ..
  then have ok: "validDeploymentTransition current new" "dep_revision new = dep_revision current + 1"
      "dep_ownerId current = dep_ownerId new" "dep_agentId current = dep_agentId new"
    by (cases c; auto simp: activateDeployment_ok retireDeployment_ok validDeploymentTransition_def)+
  have "distinct (map dep_id (wdb_deployments db))"
    by (rule distinct_ids_of_map [OF table]) simp
  note written_deployments [OF cur ok(3,4) this]
  with table cur room ok show "\<not> isl (saveDeployment db new (dep_revision current))"
    by (simp add: saveDeployment_def put_deployments_def del: map_eq_conv)
qed

text \<open>The live lease of an Agent as the authority slot of the domain.\<close>

definition live_slot :: "work_db \<Rightarrow> AgentId \<Rightarrow> string \<Rightarrow> agent_authority_lease option" where
  "live_slot db agentId now = map_option alr_lease (currentLease db agentId now)"

lemma currentLease_NoneD:
  "currentLease db ag now = None \<Longrightarrow>
     filter (\<lambda>l. al_agentId l = ag \<and> al_releasedAt l = None \<and> now < al_expiresAt l) (wdb_authorityLeases db) = []"
  by (auto simp: currentLease_def dest: sort_key_Nil split: list.splits)

lemma currentLease_agent: "currentLease db ag now = Some r \<Longrightarrow> lease_agentId (alr_lease r) = ag"
proof -
  assume "currentLease db ag now = Some r"
  then obtain l ls where f: "sort_key (\<lambda>l. - al_fencingToken l) (filter (\<lambda>l. al_agentId l = ag \<and>
      al_releasedAt l = None \<and> now < al_expiresAt l) (wdb_authorityLeases db)) = l # ls" "r = leaseFromRow l"
    by (auto simp: currentLease_def split: list.splits)
  with sort_key_ConsD [OF f(1)] show ?thesis by (simp add: leaseFromRow_def)
qed

text \<open>
  C24. The stored lease refines the authority slot of the domain: a claim at an instant t for n
  milliseconds succeeds only where the slot accepts the requested lease, returns the lease the slot
  then holds and leaves the slot holding it; and where the slot refuses, the store reports a conflict
  and nothing is granted.
\<close>

theorem claim_refines_slot:
  assumes time: "now = iso_string t" "plain_time t" "plain_time (t + n)"
  shows "(claimLease db lease n now = Inr (db', r) \<longrightarrow>
      claimAgentAuthority (live_slot db (lease_agentId lease) now) lease = Inr (alr_lease r) \<and>
      live_slot db' (lease_agentId lease) now = Some (alr_lease r)) \<and>
    (isl (claimAgentAuthority (live_slot db (lease_agentId lease) now) lease) \<and> is_safe_integer n \<and> 0 < n \<longrightarrow>
      claimLease db lease n now = Inl conflict)"
proof (intro conjI impI)
  assume claim: "claimLease db lease n now = Inr (db', r)"
  then have "claimAgentAuthority (live_slot db (lease_agentId lease) now) lease = Inr (alr_lease r) \<and>
      live_slot db' (lease_agentId lease) now = Some (alr_lease r)"
  proof (cases rule: claimLease_cases)
    case kept
    with claim have "lease_id (alr_lease r) = lease_id lease" "lease_holderId (alr_lease r) = lease_holderId lease"
        "lease_ownerId (alr_lease r) = lease_ownerId lease"
      by (auto simp: claimLease_def inverts)
    with kept currentLease_agent [OF kept(1)] show ?thesis by (simp add: live_slot_def claimAgentAuthority_def)
  next
    case (granted d)
    have lease: "alr_lease r = lease" by (subst granted(8)) simp
    have expiry: "alr_expiresAt r = iso_string (t + n)"
      using granted(6) time by (auto simp: lease_expiry_def toISOString_Inr date_parse_iso plain_time_valid)
    have "now < alr_expiresAt r" using time granted(7) by (simp add: expiry iso_string_less)
    moreover have acquired: "alr_acquiredAt r = now" by (subst granted(8)) simp
    moreover have "leaseFromRow (granted_row lease d r) = r"
      by (cases r; cases lease) (use lease in \<open>auto simp: leaseFromRow_def granted_row_def\<close>)
    ultimately have "currentLease db' (lease_agentId lease) now = Some r"
      using currentLease_NoneD [OF granted(1)]
      by (simp add: currentLease_def granted(11)) (simp add: granted_row_def)
    with lease granted(1) show ?thesis by (simp add: live_slot_def claimAgentAuthority_def)
  qed
  then show "claimAgentAuthority (live_slot db (lease_agentId lease) now) lease = Inr (alr_lease r)"
    "live_slot db' (lease_agentId lease) now = Some (alr_lease r)" by simp_all
next
  assume refused: "isl (claimAgentAuthority (live_slot db (lease_agentId lease) now) lease) \<and> is_safe_integer n \<and> 0 < n"
  then obtain c where c: "currentLease db (lease_agentId lease) now = Some c"
    by (cases "currentLease db (lease_agentId lease) now") (auto simp: live_slot_def claimAgentAuthority_def)
  with refused currentLease_agent [OF c] show "claimLease db lease n now = Inl conflict"
    by (cases "wdb_headroom db") (auto simp: claimLease_def assertLeaseDuration_def live_slot_def claimAgentAuthority_def
        ensure_def split: if_splits)
qed

section \<open>Concrete instances\<close>

definition example_empty_work :: work_db where
  "example_empty_work = \<lparr>wdb_headroom = True, wdb_deployments = [], wdb_authorityLeases = [], wdb_runs = [], wdb_turns = [],
     wdb_checkpoints = [], wdb_approvals = [], wdb_executionLeases = [], wdb_runInputs = [], wdb_projections = [],
     wdb_jobs = [], wdb_occurrences = [], wdb_accounts = [], wdb_allocations = []\<rparr>"

definition example_prepared :: deployment_authority_state where
  "example_prepared = \<lparr>dep_id = ''d'', dep_ownerId = ''o'', dep_agentId = ''a'', dep_revision = 0,
     dep_status = dep_inactive_ready, dep_authorityEpoch = 0, dep_fencingToken = 0, dep_transferId = None\<rparr>"

definition example_activated :: deployment_authority_state where
  "example_activated = example_prepared\<lparr>dep_revision := 1, dep_status := dep_active, dep_authorityEpoch := 1, dep_fencingToken := 1\<rparr>"

definition example_agent_lease :: "string \<Rightarrow> string \<Rightarrow> agent_authority_lease" where
  "example_agent_lease i h = \<lparr>lease_id = i, lease_agentId = ''a'', lease_ownerId = ''o'', lease_holderId = h\<rparr>"

definition example_lease_row :: "string \<Rightarrow> string \<Rightarrow> int \<Rightarrow> string \<Rightarrow> string \<Rightarrow> authority_lease_row" where
  "example_lease_row i h n at e = \<lparr>al_id = i, al_ownerId = ''o'', al_agentId = ''a'', al_deploymentId = ''d'',
     al_holderId = h, al_authorityEpoch = 1, al_fencingToken = n, al_acquiredAt = at, al_expiresAt = e, al_releasedAt = None\<rparr>"

definition example_granted_once :: work_db where
  "example_granted_once = example_empty_work\<lparr>wdb_deployments := [example_activated],
     wdb_authorityLeases := [example_lease_row ''l1'' ''h1'' 1 ''2026-01-01T00:00:00.000Z'' ''2026-01-01T00:01:00.000Z'']\<rparr>"

definition example_granted_twice :: work_db where
  "example_granted_twice = example_empty_work\<lparr>
     wdb_deployments := [example_activated\<lparr>dep_revision := 2, dep_fencingToken := 2\<rparr>],
     wdb_authorityLeases := [example_lease_row ''l1'' ''h1'' 1 ''2026-01-01T00:00:00.000Z'' ''2026-01-01T00:01:00.000Z'',
       example_lease_row ''l2'' ''h2'' 2 ''2026-01-01T00:02:00.000Z'' ''2026-01-01T00:03:00.000Z'']\<rparr>"

definition example_command :: "string \<Rightarrow> int \<Rightarrow> agent_command" where
  "example_command i n = \<lparr>cmd_ownerId = ''o'', cmd_agentId = ''a'', cmd_idempotencyKey = ''k'', cmd_commandType = ''c'',
     cmd_commandFingerprint = ''f'', cmd_authority = \<lparr>af_leaseId = i, af_fencingToken = n\<rparr>\<rparr>"

lemma example_saved:
  "saveDeployment example_empty_work example_prepared 0 =
     Inr (example_empty_work\<lparr>wdb_deployments := [example_prepared]\<rparr>, example_prepared)"
  "saveDeployment (example_empty_work\<lparr>wdb_deployments := [example_prepared]\<rparr>) example_activated 0 =
     Inr (example_empty_work\<lparr>wdb_deployments := [example_activated]\<rparr>, example_activated)"
  by code_simp+

lemma example_first_claim:
  "claimLease (example_empty_work\<lparr>wdb_deployments := [example_activated]\<rparr>) (example_agent_lease ''l1'' ''h1'') 60000
     ''2026-01-01T00:00:00.000Z'' = Inr (example_granted_once, \<lparr>alr_lease = example_agent_lease ''l1'' ''h1'', alr_fencingToken = 1,
       alr_acquiredAt = ''2026-01-01T00:00:00.000Z'', alr_expiresAt = ''2026-01-01T00:01:00.000Z''\<rparr>)"
  by code_simp

lemma example_second_claim:
  "claimLease example_granted_once (example_agent_lease ''l2'' ''h2'') 60000 ''2026-01-01T00:02:00.000Z'' =
     Inr (example_granted_twice, \<lparr>alr_lease = example_agent_lease ''l2'' ''h2'', alr_fencingToken = 2,
       alr_acquiredAt = ''2026-01-01T00:02:00.000Z'', alr_expiresAt = ''2026-01-01T00:03:00.000Z''\<rparr>)"
  by code_simp

lemma example_history: "authority_step\<^sup>*\<^sup>* example_empty_work example_granted_once"
proof -
  have "authority_step example_empty_work (example_empty_work\<lparr>wdb_deployments := [example_prepared]\<rparr>)"
    "authority_step (example_empty_work\<lparr>wdb_deployments := [example_prepared]\<rparr>) (example_empty_work\<lparr>wdb_deployments := [example_activated]\<rparr>)"
    "authority_step (example_empty_work\<lparr>wdb_deployments := [example_activated]\<rparr>) example_granted_once"
    unfolding authority_step_def using example_saved example_first_claim by blast+
  then show ?thesis by (meson converse_rtranclp_into_rtranclp rtranclp.rtrancl_refl)
qed

theorem newer_lease_fences_older_witness:
  "isl (currentAuthority example_granted_twice (example_command ''l1'' 1) ''2026-01-01T00:00:30.000Z'') \<and>
   \<not> isl (currentAuthority example_granted_twice (example_command ''l2'' 2) ''2026-01-01T00:02:30.000Z'')"
proof -
  have s: "wdb_deployments example_empty_work = []" "wdb_authorityLeases example_empty_work = []"
    by (simp_all add: example_empty_work_def)
  have "isl (currentAuthority example_granted_twice (example_command ''l1'' 1) ''2026-01-01T00:00:30.000Z'')"
  proof (cases "currentAuthority example_granted_twice (example_command ''l1'' 1) ''2026-01-01T00:00:30.000Z''")
    case (Inr a)
    from newer_lease_fences_older [OF s example_history example_second_claim rtranclp.rtrancl_refl Inr] show ?thesis
      by (simp add: example_command_def example_agent_lease_def)
  qed simp
  then show ?thesis by (intro conjI) (assumption, code_simp)
qed

theorem claim_refines_slot_witness:
  "claimAgentAuthority (live_slot example_granted_once ''a'' ''2026-01-01T00:02:00.000Z'') (example_agent_lease ''l2'' ''h2'') =
     Inr (example_agent_lease ''l2'' ''h2'') \<and>
   live_slot example_granted_twice ''a'' ''2026-01-01T00:02:00.000Z'' = Some (example_agent_lease ''l2'' ''h2'')"
proof -
  have t: "''2026-01-01T00:02:00.000Z'' = iso_string 1767225720000" "plain_time 1767225720000" "plain_time (1767225720000 + 60000)"
    by code_simp+
  have "lease_agentId (example_agent_lease ''l2'' ''h2'') = ''a''" by (simp add: example_agent_lease_def)
  with claim_refines_slot [OF t, THEN conjunct1, THEN mp, OF example_second_claim] show ?thesis by simp
qed

end
