(* ===== verification/Product_State.thy ===== *)
theory Product_State
  imports Authority_Store Fingerprint
begin

text \<open>
  Product state, command results and the outbox of reliable events
  (\<open>packages/persistence-sqlite/src/sqlite-worker.ts\<close> and the event operations of
  \<open>sqlite-durable-operations.ts\<close>), and the publisher that drains the outbox
  (\<open>packages/application/src/services/reliable-event-publisher.ts\<close>).

  A commit replaces one versioned state under the authority fence of its command, records the result of
  the command under its idempotency key and appends the events of the command, all in one transaction:
  an operation returns the new tables only with its result. The database has one writer (the worker of a
  locked state root), so a commit reads and writes the same tables. The hash in the primary key of a
  command result (\<open>createHash("sha256")\<close>) is the parameter \<open>sha256\<close>; nothing is assumed of it. A JSON value
  is stored as its text and read back by \<open>JSON.parse\<close>; the column holds the value here.
\<close>

section \<open>Records\<close>

datatype payload_lifecycle = pay_active | pay_trashed | pay_deletion_pending | pay_deleted_verified

record stored_payload = payload_row +
  spl_classification :: product_data_classification
  spl_contentType :: string
  spl_lifecycle :: payload_lifecycle

record state_record =
  st_key :: string
  st_revision :: int
  st_value :: json

record state_row = state_record +
  st_ownerId :: OwnerId
  st_agentId :: AgentId
  st_updatedAt :: string

text \<open>\<open>CommandResultLookup\<close>: owner, agent and idempotency key.\<close>

type_synonym command_lookup = "OwnerId \<times> AgentId \<times> IdempotencyKey"

record command_result =
  cr_ownerId :: OwnerId
  cr_agentId :: AgentId
  cr_idempotencyKey :: IdempotencyKey
  cr_commandType :: string
  cr_commandFingerprint :: string
  cr_resultRef :: string
  cr_stateKey :: string
  cr_stateRevision :: int
  cr_committedAt :: string

record command_result_row = command_result +
  cr_id :: string
  cr_deploymentId :: DeploymentId
  cr_authorityEpoch :: int
  cr_fencingToken :: int

record reliable_event =
  ev_id :: string
  ev_idempotencyKey :: IdempotencyKey
  ev_topic :: string
  ev_payloadRef :: string
  ev_occurredAt :: string

record reliable_event_record = reliable_event +
  ev_publishedAt :: "string option"

datatype publication_state = pub_pending | pub_claimed | pub_published

record outbox_row = reliable_event_record +
  er_ownerId :: OwnerId
  er_agentId :: AgentId
  er_publicationState :: publication_state
  er_claimId :: "string option"
  er_claimExpiresAt :: "string option"
  er_acknowledgementRef :: "string option"

record consumption_row =
  cn_consumerId :: string
  cn_eventId :: string
  cn_processedAt :: string

record product_db =
  pdb_work :: work_db
  pdb_payloads :: "stored_payload list"
  pdb_states :: "state_row list"
  pdb_commandResults :: "command_result_row list"
  pdb_events :: "outbox_row list"
  pdb_consumptions :: "consumption_row list"

record commit_input =
  cm_command :: agent_command
  cm_key :: string
  cm_expectedRevision :: "int option"
  cm_value :: json
  cm_events :: "reliable_event list"
  cm_resultRef :: string
  cm_committedAt :: string

record commit_result =
  cs_state :: state_record
  cs_events :: "reliable_event_record list"
  cs_commandResult :: command_result
  cs_replayed :: bool

abbreviation headroom :: "'a product_db_scheme \<Rightarrow> bool" where
  "headroom db \<equiv> wdb_headroom (pdb_work db)"

definition stateFromRow :: "state_row \<Rightarrow> state_record" where
  "stateFromRow row = \<lparr>st_key = st_key row, st_revision = st_revision row, st_value = st_value row\<rparr>"

definition eventFromRow :: "outbox_row \<Rightarrow> reliable_event_record" where
  "eventFromRow row = \<lparr>ev_id = ev_id row, ev_idempotencyKey = ev_idempotencyKey row, ev_topic = ev_topic row,
     ev_payloadRef = ev_payloadRef row, ev_occurredAt = ev_occurredAt row, ev_publishedAt = ev_publishedAt row\<rparr>"

definition commandResultFromRow :: "command_result_row \<Rightarrow> command_result" where
  "commandResultFromRow row = \<lparr>cr_ownerId = cr_ownerId row, cr_agentId = cr_agentId row,
     cr_idempotencyKey = cr_idempotencyKey row, cr_commandType = cr_commandType row,
     cr_commandFingerprint = cr_commandFingerprint row, cr_resultRef = cr_resultRef row,
     cr_stateKey = cr_stateKey row, cr_stateRevision = cr_stateRevision row, cr_committedAt = cr_committedAt row\<rparr>"

section \<open>Reading\<close>

definition readState :: "'a product_db_scheme \<Rightarrow> string \<Rightarrow> state_record option" where
  "readState db key = map_option stateFromRow (row_of st_key key (pdb_states db))"

definition readScopedState ::
  "'a product_db_scheme \<Rightarrow> OwnerId \<Rightarrow> AgentId \<Rightarrow> string \<Rightarrow> state_record option" where
  "readScopedState db ownerId agentId key = map_option stateFromRow
     (List.find (\<lambda>r. st_key r = key \<and> st_ownerId r = ownerId \<and> st_agentId r = agentId) (pdb_states db))"

definition command_lookup :: "agent_command \<Rightarrow> command_lookup" where
  "command_lookup command = (cmd_ownerId command, cmd_agentId command, cmd_idempotencyKey command)"

definition result_lookup :: "'b command_result_scheme \<Rightarrow> command_lookup" where
  "result_lookup r = (cr_ownerId r, cr_agentId r, cr_idempotencyKey r)"

definition findCommandResult :: "'a product_db_scheme \<Rightarrow> command_lookup \<Rightarrow> command_result option" where
  "findCommandResult db lookup = map_option commandResultFromRow
     (List.find (\<lambda>r. result_lookup r = lookup) (pdb_commandResults db))"

definition by_occurrence :: "outbox_row list \<Rightarrow> outbox_row list" where
  "by_occurrence rows = sort_key (\<lambda>e. (ev_occurredAt e, ev_id e)) rows"

definition eventsForCommand :: "'a product_db_scheme \<Rightarrow> command_lookup \<Rightarrow> reliable_event_record list" where
  "eventsForCommand db lookup = map eventFromRow (by_occurrence
     (filter (\<lambda>e. (er_ownerId e, er_agentId e, ev_idempotencyKey e) = lookup) (pdb_events db)))"

definition findCommandCommit ::
  "'a product_db_scheme \<Rightarrow> command_lookup \<Rightarrow> bool \<Rightarrow> commit_result option result" where
  "findCommandCommit db lookup replayed =
     (case findCommandResult db lookup of
        None \<Rightarrow> Inr None
      | Some commandResult \<Rightarrow>
          (case readState db (cr_stateKey commandResult) of
             None \<Rightarrow> Inl OtherError
           | Some state \<Rightarrow>
               andThen (ensure (\<not> st_revision state < cr_stateRevision commandResult) OtherError) (\<lambda>_.
               Inr (Some \<lparr>cs_state = state, cs_events = eventsForCommand db lookup,
                          cs_commandResult = commandResult, cs_replayed = replayed\<rparr>))))"

section \<open>Committing a state with its result and events\<close>

definition replayExisting :: "'a product_db_scheme \<Rightarrow> agent_command \<Rightarrow> commit_result option result" where
  "replayExisting db command =
     andThen (findCommandCommit db (command_lookup command) True) (\<lambda>found.
     case found of
       None \<Rightarrow> Inr None
     | Some existing \<Rightarrow>
         andThen (ensure (cr_commandType (cs_commandResult existing) = cmd_commandType command \<and>
           cr_commandFingerprint (cs_commandResult existing) = cmd_commandFingerprint command) conflict) (\<lambda>_.
         Inr (Some existing)))"

fun check_events :: "outbox_row list \<Rightarrow> IdempotencyKey \<Rightarrow> string list \<Rightarrow> reliable_event list \<Rightarrow> unit result" where
  "check_events stored key eventIds [] = Inr ()"
| "check_events stored key eventIds (event # events) =
     andThen (ensure (ev_idempotencyKey event = key) type_error) (\<lambda>_.
     andThen (ensure (ev_id event \<notin> set eventIds) conflict) (\<lambda>_.
     andThen (ensure (\<not> has_row ev_id (ev_id event) stored) conflict) (\<lambda>_.
     check_events stored key (ev_id event # eventIds) events)))"

text \<open>\<open>INSERT ... ON CONFLICT(key) DO UPDATE\<close>, with the triggers that keep coordination checkpoints out.\<close>

definition put_state :: "'a product_db_scheme \<Rightarrow> state_row \<Rightarrow> 'a product_db_scheme result" where
  "put_state db row =
     andThen (ensure (\<not> starts_with (st_key row) ''run-checkpoint:'') OtherError) (\<lambda>_.
     Inr (db\<lparr>pdb_states :=
       (if has_row st_key (st_key row) (pdb_states db)
        then map (\<lambda>r. if st_key r = st_key row
               then r\<lparr>st_revision := st_revision row, st_value := st_value row, st_updatedAt := st_updatedAt row\<rparr>
               else r) (pdb_states db)
        else pdb_states db @ [row])\<rparr>))"

definition insert_command_result ::
  "'a product_db_scheme \<Rightarrow> command_result_row \<Rightarrow> 'a product_db_scheme result" where
  "insert_command_result db row =
     andThen (ensure (\<not> has_row cr_id (cr_id row) (pdb_commandResults db) \<and>
       \<not> has_row result_lookup (result_lookup row) (pdb_commandResults db)) OtherError) (\<lambda>_.
     Inr (db\<lparr>pdb_commandResults := pdb_commandResults db @ [row]\<rparr>))"

definition pending_row :: "OwnerId \<Rightarrow> AgentId \<Rightarrow> reliable_event \<Rightarrow> outbox_row" where
  "pending_row ownerId agentId event =
     \<lparr>ev_id = ev_id event, ev_idempotencyKey = ev_idempotencyKey event, ev_topic = ev_topic event,
      ev_payloadRef = ev_payloadRef event, ev_occurredAt = ev_occurredAt event, ev_publishedAt = None,
      er_ownerId = ownerId, er_agentId = agentId, er_publicationState = pub_pending, er_claimId = None,
      er_claimExpiresAt = None, er_acknowledgementRef = None\<rparr>"

definition insert_event ::
  "OwnerId \<Rightarrow> AgentId \<Rightarrow> reliable_event \<Rightarrow> 'a product_db_scheme \<Rightarrow> 'a product_db_scheme result" where
  "insert_event ownerId agentId event db =
     andThen (ensure (\<not> has_row ev_id (ev_id event) (pdb_events db) \<and>
       has_row py_ref (ev_payloadRef event) (pdb_payloads db)) OtherError) (\<lambda>_.
     Inr (db\<lparr>pdb_events := pdb_events db @ [pending_row ownerId agentId event]\<rparr>))"

fun insert_events ::
  "OwnerId \<Rightarrow> AgentId \<Rightarrow> reliable_event list \<Rightarrow> 'a product_db_scheme \<Rightarrow> 'a product_db_scheme result" where
  "insert_events ownerId agentId [] db = Inr db"
| "insert_events ownerId agentId (event # events) db =
     andThen (insert_event ownerId agentId event db) (insert_events ownerId agentId events)"

definition identity_hash :: "(string \<Rightarrow> string) \<Rightarrow> command_lookup \<Rightarrow> string" where
  "identity_hash sha256 lookup = (case lookup of (ownerId, agentId, key) \<Rightarrow>
     sha256 (stringify (JArray [JString ownerId, JString agentId, JString key])))"

definition new_state_row :: "commit_input \<Rightarrow> int \<Rightarrow> state_row" where
  "new_state_row input revision =
     \<lparr>st_key = cm_key input, st_revision = revision, st_value = cm_value input,
      st_ownerId = cmd_ownerId (cm_command input), st_agentId = cmd_agentId (cm_command input),
      st_updatedAt = cm_committedAt input\<rparr>"

definition new_result_row ::
  "(string \<Rightarrow> string) \<Rightarrow> commit_input \<Rightarrow> authority_lease_row \<Rightarrow> int \<Rightarrow> command_result_row" where
  "new_result_row sha256 input lease revision =
     \<lparr>cr_ownerId = cmd_ownerId (cm_command input), cr_agentId = cmd_agentId (cm_command input),
      cr_idempotencyKey = cmd_idempotencyKey (cm_command input), cr_commandType = cmd_commandType (cm_command input),
      cr_commandFingerprint = cmd_commandFingerprint (cm_command input), cr_resultRef = cm_resultRef input,
      cr_stateKey = cm_key input, cr_stateRevision = revision, cr_committedAt = cm_committedAt input,
      cr_id = ''command-result:'' @ identity_hash sha256 (command_lookup (cm_command input)),
      cr_deploymentId = al_deploymentId lease, cr_authorityEpoch = al_authorityEpoch lease,
      cr_fencingToken = al_fencingToken lease\<rparr>"

definition commitStateAndEvents ::
  "(string \<Rightarrow> string) \<Rightarrow> 'a product_db_scheme \<Rightarrow> commit_input \<Rightarrow> string \<Rightarrow>
     ('a product_db_scheme \<times> commit_result) result" where
  "commitStateAndEvents sha256 db input now =
     (let command = cm_command input; key = cm_key input; lookup = command_lookup command in
     andThen (replayExisting db command) (\<lambda>replay.
     case replay of Some existing \<Rightarrow> Inr (db, existing) | None \<Rightarrow>
     andThen (ensure (headroom db) conflict) (\<lambda>_.
     andThen (replayExisting db command) (\<lambda>concurrentReplay.
     case concurrentReplay of Some existing \<Rightarrow> Inr (db, existing) | None \<Rightarrow>
     andThen (currentAuthority (pdb_work db) command now) (\<lambda>(lease, deployment).
     andThen (ensure (\<not> (starts_with key ''run:'' \<and> has_row rs_id (drop 4 key) (wdb_runs (pdb_work db)))) type_error) (\<lambda>_.
     let current = row_of st_key key (pdb_states db) in
     andThen (ensure (map_option st_revision current = cm_expectedRevision input \<and>
       (case current of None \<Rightarrow> True
        | Some row \<Rightarrow> st_ownerId row = cmd_ownerId command \<and> st_agentId row = cmd_agentId command)) conflict) (\<lambda>_.
     andThen (check_events (pdb_events db) (cmd_idempotencyKey command) [] (cm_events input)) (\<lambda>_.
     let nextRevision = (case current of None \<Rightarrow> 0 | Some row \<Rightarrow> st_revision row) + 1 in
     andThen (put_state db (new_state_row input nextRevision)) (\<lambda>db1.
     andThen (insert_command_result db1 (new_result_row sha256 input lease nextRevision)) (\<lambda>db2.
     andThen (insert_events (cmd_ownerId command) (cmd_agentId command) (cm_events input) db2) (\<lambda>db3.
     andThen (findCommandCommit db3 lookup False) (\<lambda>committed.
     case committed of None \<Rightarrow> Inl OtherError | Some result \<Rightarrow> Inr (db3, result)))))))))))))"

section \<open>The outbox\<close>

definition listPending :: "'a product_db_scheme \<Rightarrow> int \<Rightarrow> reliable_event_record list result" where
  "listPending db limit =
     andThen (ensure (0 \<le> limit \<and> limit \<le> 1000) type_error) (\<lambda>_.
     Inr (map eventFromRow (take (nat limit) (by_occurrence
       (filter (\<lambda>e. ev_publishedAt e = None) (pdb_events db))))))"

definition markPublished ::
  "'a product_db_scheme \<Rightarrow> string \<Rightarrow> string \<Rightarrow> ('a product_db_scheme \<times> reliable_event_record) result" where
  "markPublished db eventId publishedAt =
     (case row_of ev_id eventId (pdb_events db) of
        None \<Rightarrow> port_fail NOT_FOUND
      | Some existing \<Rightarrow>
          if ev_publishedAt existing \<noteq> None then Inr (db, eventFromRow existing)
          else Inr (db\<lparr>pdb_events := map (\<lambda>e. if ev_id e = eventId
                 then e\<lparr>er_publicationState := pub_published, ev_publishedAt := Some publishedAt\<rparr> else e)
                 (pdb_events db)\<rparr>, eventFromRow (existing\<lparr>ev_publishedAt := Some publishedAt\<rparr>)))"

text \<open>The scoped operations of \<open>SqliteDurableOperations\<close>; the primary key makes the scoped row unique.\<close>

definition scoped_event :: "'a product_db_scheme \<Rightarrow> string \<Rightarrow> OwnerId \<Rightarrow> AgentId \<Rightarrow> outbox_row option" where
  "scoped_event db eventId ownerId agentId =
     (case row_of ev_id eventId (pdb_events db) of
        None \<Rightarrow> None
      | Some e \<Rightarrow> if er_ownerId e = ownerId \<and> er_agentId e = agentId then Some e else None)"

definition appendEvent ::
  "'a product_db_scheme \<Rightarrow> OwnerId \<Rightarrow> AgentId \<Rightarrow> reliable_event \<Rightarrow> ('a product_db_scheme \<times> reliable_event_record) result" where
  "appendEvent db ownerId agentId event =
     andThen (ensure (headroom db) conflict) (\<lambda>_.
     andThen (assertPayloadScope (map payload_row.truncate (pdb_payloads db)) (ev_payloadRef event) ownerId agentId) (\<lambda>_.
     case scoped_event db (ev_id event) ownerId agentId of
       Some existing \<Rightarrow>
         let record = eventFromRow existing in
         andThen (ensure (ev_idempotencyKey record = ev_idempotencyKey event \<and> ev_topic record = ev_topic event \<and>
           ev_payloadRef record = ev_payloadRef event \<and> ev_occurredAt record = ev_occurredAt event) conflict) (\<lambda>_.
         Inr (db, record))
     | None \<Rightarrow>
         andThen (insert_event ownerId agentId event db) (\<lambda>db'.
         Inr (db', eventFromRow (pending_row ownerId agentId event)))))"

definition listPendingEvents ::
  "'a product_db_scheme \<Rightarrow> OwnerId \<Rightarrow> AgentId \<Rightarrow> int \<Rightarrow> reliable_event_record list result" where
  "listPendingEvents db ownerId agentId limit =
     andThen (assertLimit limit) (\<lambda>_.
     Inr (map eventFromRow (take (nat limit) (by_occurrence (filter (\<lambda>e.
       er_ownerId e = ownerId \<and> er_agentId e = agentId \<and> ev_publishedAt e = None) (pdb_events db))))))"

definition markEventPublished ::
  "'a product_db_scheme \<Rightarrow> OwnerId \<Rightarrow> AgentId \<Rightarrow> string \<Rightarrow> string \<Rightarrow> ('a product_db_scheme \<times> reliable_event_record) result" where
  "markEventPublished db ownerId agentId eventId publishedAt =
     andThen (ensure (headroom db) conflict) (\<lambda>_.
     case scoped_event db eventId ownerId agentId of
       None \<Rightarrow> port_fail NOT_FOUND
     | Some row \<Rightarrow>
         if ev_publishedAt row \<noteq> None then Inr (db, eventFromRow row)
         else Inr (db\<lparr>pdb_events := map (\<lambda>e. if ev_id e = eventId
                then e\<lparr>er_publicationState := pub_published, ev_publishedAt := Some publishedAt,
                       er_claimId := None, er_claimExpiresAt := None\<rparr> else e) (pdb_events db)\<rparr>,
              eventFromRow (row\<lparr>ev_publishedAt := Some publishedAt\<rparr>)))"

record claim_events_input =
  ce_ownerId :: OwnerId
  ce_agentId :: AgentId
  ce_claimId :: string
  ce_claimedAt :: string
  ce_expiresAt :: string
  ce_limit :: int

record event_claim =
  ec_claimId :: string
  ec_expiresAt :: string
  ec_event :: reliable_event_record

definition expire_claim :: "string \<Rightarrow> outbox_row \<Rightarrow> outbox_row" where
  "expire_claim at e =
     (case er_claimExpiresAt e of
        None \<Rightarrow> e
      | Some expiry \<Rightarrow> if er_publicationState e = pub_claimed \<and> expiry \<le> at
          then e\<lparr>er_publicationState := pub_pending, er_claimId := None, er_claimExpiresAt := None\<rparr> else e)"

definition claim_row :: "claim_events_input \<Rightarrow> string \<Rightarrow> outbox_row \<Rightarrow> outbox_row" where
  "claim_row input eventId e = (if ev_id e = eventId \<and> er_publicationState e = pub_pending
     then e\<lparr>er_publicationState := pub_claimed, er_claimId := Some (ce_claimId input),
            er_claimExpiresAt := Some (ce_expiresAt input)\<rparr> else e)"

definition claimable_events :: "claim_events_input \<Rightarrow> outbox_row list \<Rightarrow> outbox_row list" where
  "claimable_events input rows = take (nat (ce_limit input)) (by_occurrence (filter (\<lambda>e.
     er_ownerId e = ce_ownerId input \<and> er_agentId e = ce_agentId input \<and> er_publicationState e = pub_pending) rows))"

definition claimEvents ::
  "'a product_db_scheme \<Rightarrow> claim_events_input \<Rightarrow> ('a product_db_scheme \<times> event_claim list) result" where
  "claimEvents db input =
     andThen (assertLimit (ce_limit input)) (\<lambda>_.
     andThen (ensure (headroom db) conflict) (\<lambda>_.
     let open_rows = map (expire_claim (ce_claimedAt input)) (pdb_events db);
         rows = claimable_events input open_rows
     in Inr (db\<lparr>pdb_events := fold (\<lambda>row stored. map (claim_row input (ev_id row)) stored) rows open_rows\<rparr>,
             map (\<lambda>row. \<lparr>ec_claimId = ce_claimId input, ec_expiresAt = ce_expiresAt input,
                         ec_event = eventFromRow row\<rparr>) rows)))"

definition acknowledgeEvent ::
  "'a product_db_scheme \<Rightarrow> string \<Rightarrow> string \<Rightarrow> string \<Rightarrow> string \<Rightarrow> ('a product_db_scheme \<times> reliable_event_record) result" where
  "acknowledgeEvent db eventId claimId publishedAt acknowledgementRef =
     andThen (ensure (headroom db) conflict) (\<lambda>_.
     case row_of ev_id eventId (pdb_events db) of
       None \<Rightarrow> port_fail NOT_FOUND
     | Some row \<Rightarrow>
         if ev_publishedAt row \<noteq> None then Inr (db, eventFromRow row)
         else andThen (ensure (er_publicationState row = pub_claimed \<and> er_claimId row = Some claimId \<and>
             (case er_claimExpiresAt row of None \<Rightarrow> False | Some expiry \<Rightarrow> publishedAt < expiry)) conflict) (\<lambda>_.
           Inr (db\<lparr>pdb_events := map (\<lambda>e. if ev_id e = eventId
                then e\<lparr>er_publicationState := pub_published, ev_publishedAt := Some publishedAt,
                       er_acknowledgementRef := Some acknowledgementRef, er_claimId := None,
                       er_claimExpiresAt := None\<rparr> else e) (pdb_events db)\<rparr>,
                eventFromRow (row\<lparr>ev_publishedAt := Some publishedAt\<rparr>))))"

definition consumeEventOnce ::
  "'a product_db_scheme \<Rightarrow> string \<Rightarrow> string \<Rightarrow> string \<Rightarrow> ('a product_db_scheme \<times> bool) result" where
  "consumeEventOnce db consumerId eventId processedAt =
     andThen (ensure (headroom db) conflict) (\<lambda>_.
     if list_ex (\<lambda>c. cn_consumerId c = consumerId \<and> cn_eventId c = eventId) (pdb_consumptions db)
     then Inr (db, False)
     else andThen (ensure (has_row ev_id eventId (pdb_events db)) OtherError) (\<lambda>_.
       Inr (db\<lparr>pdb_consumptions := pdb_consumptions db @
              [\<lparr>cn_consumerId = consumerId, cn_eventId = eventId, cn_processedAt = processedAt\<rparr>]\<rparr>, True)))"

section \<open>The publisher\<close>

datatype sink_outcome = delivered_published | delivered_duplicate

record publish_summary =
  pp_attempted :: nat
  pp_published :: nat
  pp_duplicates :: nat

text \<open>
  The sink is the parameter \<open>deliver\<close> over a state of its own: a delivery yields an outcome or fails,
  and a failure ends the loop with everything marked so far kept. The clock is read once per event.
\<close>

fun publish_each ::
  "('k \<Rightarrow> reliable_event_record \<Rightarrow> sink_outcome result \<times> 'k) \<Rightarrow> (nat \<Rightarrow> string) \<Rightarrow> nat \<Rightarrow>
     reliable_event_record list \<Rightarrow> nat \<Rightarrow> nat \<Rightarrow> 'a product_db_scheme \<Rightarrow> 'k \<Rightarrow>
     'a product_db_scheme \<times> 'k \<times> (nat \<times> nat) result" where
  "publish_each deliver clock n [] published duplicates db sink = (db, sink, Inr (published, duplicates))"
| "publish_each deliver clock n (event # events) published duplicates db sink =
     (case deliver sink event of
        (Inl e, sink') \<Rightarrow> (db, sink', Inl e)
      | (Inr outcome, sink') \<Rightarrow>
          (case markPublished db (ev_id event) (clock n) of
             Inl e \<Rightarrow> (db, sink', Inl e)
           | Inr (db', _) \<Rightarrow>
               (if outcome = delivered_published
                then publish_each deliver clock (Suc n) events (published + 1) duplicates db' sink'
                else publish_each deliver clock (Suc n) events published (duplicates + 1) db' sink')))"

definition publishPending ::
  "('k \<Rightarrow> reliable_event_record \<Rightarrow> sink_outcome result \<times> 'k) \<Rightarrow> (nat \<Rightarrow> string) \<Rightarrow> 'a product_db_scheme \<Rightarrow>
     'k \<Rightarrow> int \<Rightarrow> 'a product_db_scheme \<times> 'k \<times> publish_summary result" where
  "publishPending deliver clock db sink limit =
     (case listPending db limit of
        Inl e \<Rightarrow> (db, sink, Inl e)
      | Inr pending \<Rightarrow>
          (case publish_each deliver clock 0 pending 0 0 db sink of
             (db', sink', Inl e) \<Rightarrow> (db', sink', Inl e)
           | (db', sink', Inr (published, duplicates)) \<Rightarrow>
               (db', sink', Inr \<lparr>pp_attempted = length pending, pp_published = published,
                                 pp_duplicates = duplicates\<rparr>)))"

section \<open>What a commit does\<close>

lemma new_row_simps [simp]:
  "st_key (new_state_row input n) = cm_key input" "st_revision (new_state_row input n) = n"
  "st_ownerId (new_state_row input n) = cmd_ownerId (cm_command input)"
  "st_agentId (new_state_row input n) = cmd_agentId (cm_command input)"
  "cr_stateKey (new_result_row sha256 input lease n) = cm_key input"
  "cr_stateRevision (new_result_row sha256 input lease n) = n"
  "result_lookup (new_result_row sha256 input lease n) = command_lookup (cm_command input)"
  "result_lookup (commandResultFromRow row) = result_lookup row"
  "cr_stateKey (commandResultFromRow row) = cr_stateKey row"
  "cr_stateRevision (commandResultFromRow row) = cr_stateRevision row"
  "cr_commandType (commandResultFromRow row) = cr_commandType row"
  "cr_commandFingerprint (commandResultFromRow row) = cr_commandFingerprint row"
  "ev_id (pending_row ow ag e) = ev_id e"
  by (simp_all add: new_state_row_def new_result_row_def result_lookup_def command_lookup_def commandResultFromRow_def
      pending_row_def)

lemma insert_events_Inr:
  "insert_events ow ag es db = Inr db' \<Longrightarrow> db' = db\<lparr>pdb_events := pdb_events db @ map (pending_row ow ag) es\<rparr>"
proof (induction es arbitrary: db)
  case (Cons e es)
  then obtain db1 where "insert_event ow ag e db = Inr db1" "insert_events ow ag es db1 = Inr db'"
    by (auto simp: andThen_Inr_iff)
  with Cons.IH [OF this(2)] show ?case by (auto simp: insert_event_def inverts)
qed simp

definition state_written :: "commit_input \<Rightarrow> int \<Rightarrow> state_row list \<Rightarrow> state_row list" where
  "state_written input n rows =
     (if has_row st_key (cm_key input) rows
      then map (\<lambda>r. if st_key r = cm_key input
               then r\<lparr>st_revision := n, st_value := cm_value input, st_updatedAt := cm_committedAt input\<rparr> else r) rows
      else rows @ [new_state_row input n])"

lemma commit_cases:
  assumes "commitStateAndEvents sha256 db input now = Inr (db', r)"
  obtains (replayed) "replayExisting db (cm_command input) = Inr (Some r)" "db' = db"
  | (fresh) lease d n where "replayExisting db (cm_command input) = Inr None"
      "currentAuthority (pdb_work db) (cm_command input) now = Inr (lease, d)"
      "n = (case row_of st_key (cm_key input) (pdb_states db) of None \<Rightarrow> 0 | Some row \<Rightarrow> st_revision row) + 1"
      "map_option st_revision (row_of st_key (cm_key input) (pdb_states db)) = cm_expectedRevision input"
      "\<And>row. row_of st_key (cm_key input) (pdb_states db) = Some row \<Longrightarrow>
         st_ownerId row = cmd_ownerId (cm_command input) \<and> st_agentId row = cmd_agentId (cm_command input)"
      "check_events (pdb_events db) (cmd_idempotencyKey (cm_command input)) [] (cm_events input) = Inr ()"
      "\<not> has_row result_lookup (command_lookup (cm_command input)) (pdb_commandResults db)"
      "db' = db\<lparr>pdb_states := state_written input n (pdb_states db),
        pdb_commandResults := pdb_commandResults db @ [new_result_row sha256 input lease n],
        pdb_events := pdb_events db @ map (pending_row (cmd_ownerId (cm_command input)) (cmd_agentId (cm_command input)))
          (cm_events input)\<rparr>"
      "findCommandCommit db' (command_lookup (cm_command input)) False = Inr (Some r)"
proof -
  note def = assms [unfolded commitStateAndEvents_def Let_def]
  obtain replay where replay: "replayExisting db (cm_command input) = Inr replay"
    using def by (elim andThenE)
  show ?thesis
  proof (cases replay)
    case (Some existing)
    with def replay show ?thesis by (intro replayed) auto
  next
    case None
    obtain lease d db1 db2 where s:
      "currentAuthority (pdb_work db) (cm_command input) now = Inr (lease, d)"
      "map_option st_revision (row_of st_key (cm_key input) (pdb_states db)) = cm_expectedRevision input"
      "(case row_of st_key (cm_key input) (pdb_states db) of None \<Rightarrow> True
        | Some row \<Rightarrow> st_ownerId row = cmd_ownerId (cm_command input) \<and> st_agentId row = cmd_agentId (cm_command input))"
      "check_events (pdb_events db) (cmd_idempotencyKey (cm_command input)) [] (cm_events input) = Inr ()"
      "put_state db (new_state_row input ((case row_of st_key (cm_key input) (pdb_states db) of None \<Rightarrow> 0 | Some row \<Rightarrow> st_revision row) + 1)) = Inr db1"
      "insert_command_result db1 (new_result_row sha256 input lease
         ((case row_of st_key (cm_key input) (pdb_states db) of None \<Rightarrow> 0 | Some row \<Rightarrow> st_revision row) + 1)) = Inr db2"
      "insert_events (cmd_ownerId (cm_command input)) (cmd_agentId (cm_command input)) (cm_events input) db2 = Inr db'"
      "findCommandCommit db' (command_lookup (cm_command input)) False = Inr (Some r)"
      using def replay None by (elim andThenE) (clarsimp split: option.splits prod.splits elim!: andThenE)
    show ?thesis
    proof (rule fresh [OF replay [unfolded None] s(1) refl s(2) _ s(4) _ _ s(8)])
      show "\<not> has_row result_lookup (command_lookup (cm_command input)) (pdb_commandResults db)"
        using s(5,6) by (auto simp: put_state_def insert_command_result_def inverts)
      show "db' = db\<lparr>pdb_states := state_written input ((case row_of st_key (cm_key input) (pdb_states db) of None \<Rightarrow> 0 | Some row \<Rightarrow> st_revision row) + 1) (pdb_states db),
        pdb_commandResults := pdb_commandResults db @ [new_result_row sha256 input lease
          ((case row_of st_key (cm_key input) (pdb_states db) of None \<Rightarrow> 0 | Some row \<Rightarrow> st_revision row) + 1)],
        pdb_events := pdb_events db @ map (pending_row (cmd_ownerId (cm_command input)) (cmd_agentId (cm_command input)))
          (cm_events input)\<rparr>"
        using s(5,6) insert_events_Inr [OF s(7)]
        by (auto simp: put_state_def insert_command_result_def state_written_def new_state_row_def inverts)
    qed (use s(3) in auto)
  qed
qed

section \<open>What later operations leave standing\<close>

definition event_content :: "outbox_row \<Rightarrow> OwnerId \<times> AgentId \<times> reliable_event" where
  "event_content e = (er_ownerId e, er_agentId e, \<lparr>ev_id = ev_id e, ev_idempotencyKey = ev_idempotencyKey e,
     ev_topic = ev_topic e, ev_payloadRef = ev_payloadRef e, ev_occurredAt = ev_occurredAt e\<rparr>)"

definition event_kept :: "outbox_row \<Rightarrow> outbox_row \<Rightarrow> bool" where
  "event_kept e e' \<longleftrightarrow> event_content e' = event_content e \<and>
     (ev_publishedAt e \<noteq> None \<longrightarrow> ev_publishedAt e' = ev_publishedAt e)"

definition events_grow :: "outbox_row list \<Rightarrow> outbox_row list \<Rightarrow> bool" where
  "events_grow xs ys \<longleftrightarrow> (\<forall>i e. row_of ev_id i xs = Some e \<longrightarrow> (\<exists>e'. row_of ev_id i ys = Some e' \<and> event_kept e e'))"

lemma event_kept_refl [simp]: "event_kept e e"
  by (simp add: event_kept_def)

lemma event_kept_trans: "event_kept a b \<Longrightarrow> event_kept b c \<Longrightarrow> event_kept a c"
  by (auto simp: event_kept_def)

lemma event_kept_id: "event_kept e e' \<Longrightarrow> ev_id e' = ev_id e"
  by (simp add: event_kept_def event_content_def)

lemma events_grow_refl [simp]: "events_grow xs xs"
  by (simp add: events_grow_def)

lemma events_grow_trans: "events_grow xs ys \<Longrightarrow> events_grow ys zs \<Longrightarrow> events_grow xs zs"
  unfolding events_grow_def using event_kept_trans by blast

lemma events_grow_append: "events_grow xs (xs @ ys)"
  by (simp add: events_grow_def row_of_append)

lemma row_of_map: "(\<And>e. key (f e) = key e) \<Longrightarrow> row_of key k (map f xs) = map_option f (row_of key k xs)"
  by (induction xs) auto

lemma events_grow_map:
  "(\<And>e. ev_id (f e) = ev_id e) \<Longrightarrow> (\<And>e. row_of ev_id (ev_id e) xs = Some e \<Longrightarrow> event_kept e (f e)) \<Longrightarrow>
     events_grow xs (map f xs)"
  using row_of_SomeD by (fastforce simp: events_grow_def row_of_map)

lemma fold_claim_row:
  "fold (\<lambda>row. claim_row input (ev_id row)) rows e =
     (if er_publicationState e = pub_pending \<and> ev_id e \<in> ev_id ` set rows
      then e\<lparr>er_publicationState := pub_claimed, er_claimId := Some (ce_claimId input),
             er_claimExpiresAt := Some (ce_expiresAt input)\<rparr> else e)"
proof (induction rows arbitrary: e)
  case (Cons row rows)
  show ?case
  proof (cases "ev_id e = ev_id row \<and> er_publicationState e = pub_pending")
    case True
    then have "claim_row input (ev_id row) e = e\<lparr>er_publicationState := pub_claimed,
        er_claimId := Some (ce_claimId input), er_claimExpiresAt := Some (ce_expiresAt input)\<rparr>"
      by (simp add: claim_row_def)
    with True show ?thesis by (simp add: Cons.IH)
  next
    case False
    then have "claim_row input (ev_id row) e = e" by (auto simp: claim_row_def)
    with False show ?thesis by (simp add: Cons.IH) auto
  qed
qed simp

lemma fold_map: "fold (\<lambda>row stored. map (f row) stored) rows xs = map (fold f rows) xs"
  by (induction rows arbitrary: xs) auto

definition claimed_events :: "claim_events_input \<Rightarrow> outbox_row list \<Rightarrow> outbox_row list" where
  "claimed_events input stored = claimable_events input (map (expire_claim (ce_claimedAt input)) stored)"

definition claim_effect :: "claim_events_input \<Rightarrow> outbox_row list \<Rightarrow> outbox_row \<Rightarrow> outbox_row" where
  "claim_effect input stored e = (let e1 = expire_claim (ce_claimedAt input) e in
     if er_publicationState e1 = pub_pending \<and> ev_id e1 \<in> ev_id ` set (claimed_events input stored)
     then e1\<lparr>er_publicationState := pub_claimed, er_claimId := Some (ce_claimId input),
             er_claimExpiresAt := Some (ce_expiresAt input)\<rparr> else e1)"

lemma claimed_rows_eq:
  "fold (\<lambda>row stored. map (claim_row input (ev_id row)) stored) (claimed_events input stored)
     (map (expire_claim (ce_claimedAt input)) stored) = map (claim_effect input stored) stored"
  by (simp add: fold_map comp_def claim_effect_def fold_claim_row Let_def)

lemma claimEvents_Inr:
  "claimEvents db input = Inr (db', claims) \<longleftrightarrow>
     0 \<le> ce_limit input \<and> ce_limit input \<le> 1000 \<and> headroom db \<and>
     db' = db\<lparr>pdb_events := map (claim_effect input (pdb_events db)) (pdb_events db)\<rparr> \<and>
     claims = map (\<lambda>row. \<lparr>ec_claimId = ce_claimId input, ec_expiresAt = ce_expiresAt input,
       ec_event = eventFromRow row\<rparr>) (claimed_events input (pdb_events db))"
proof -
  have "claimEvents db input = andThen (assertLimit (ce_limit input)) (\<lambda>_. andThen (ensure (headroom db) conflict) (\<lambda>_.
      Inr (db\<lparr>pdb_events := map (claim_effect input (pdb_events db)) (pdb_events db)\<rparr>,
        map (\<lambda>row. \<lparr>ec_claimId = ce_claimId input, ec_expiresAt = ce_expiresAt input,
          ec_event = eventFromRow row\<rparr>) (claimed_events input (pdb_events db)))))"
    unfolding claimEvents_def Let_def claimed_events_def [symmetric] claimed_rows_eq ..
  then show ?thesis by (auto simp: andThen_Inr_iff assertLimit_def)
qed

lemma expire_claim_kept: "event_kept e (expire_claim at e)"
  by (auto simp: expire_claim_def event_kept_def event_content_def split: option.splits)

lemma claim_effect_kept: "event_kept e (claim_effect input stored e)"
proof -
  have "event_kept (expire_claim (ce_claimedAt input) e) (claim_effect input stored e)"
    by (auto simp: claim_effect_def Let_def event_kept_def event_content_def)
  then show ?thesis using event_kept_trans [OF expire_claim_kept] by blast
qed

text \<open>
  One operation of the store: any but a claim of events, or a claim. The operations of other components
  write these tables as well, through the same two insertions: a command of the Run lifecycle adds its
  result under an id of its own kind, and every command of a thread or a Run adds an event.
\<close>

definition unclaiming_step :: "(string \<Rightarrow> string) \<Rightarrow> product_db \<Rightarrow> product_db \<Rightarrow> bool" where
  "unclaiming_step sha256 db db' \<longleftrightarrow>
     (\<exists>input now r. commitStateAndEvents sha256 db input now = Inr (db', r)) \<or>
     (\<exists>i at r. markPublished db i at = Inr (db', r)) \<or>
     (\<exists>ow ag e r. appendEvent db ow ag e = Inr (db', r)) \<or>
     (\<exists>ow ag i at r. markEventPublished db ow ag i at = Inr (db', r)) \<or>
     (\<exists>i c at ref r. acknowledgeEvent db i c at ref = Inr (db', r)) \<or>
     (\<exists>c i at r. consumeEventOnce db c i at = Inr (db', r)) \<or>
     (\<exists>row. insert_command_result db row = Inr db' \<and> starts_with (cr_id row) ''run-command:'') \<or>
     (\<exists>ow ag e. insert_event ow ag e db = Inr db') \<or>
     (\<exists>work payloads. db' = db\<lparr>pdb_work := work, pdb_payloads := payloads\<rparr>)"

definition product_step :: "(string \<Rightarrow> string) \<Rightarrow> product_db \<Rightarrow> product_db \<Rightarrow> bool" where
  "product_step sha256 db db' \<longleftrightarrow>
     unclaiming_step sha256 db db' \<or> (\<exists>input claims. claimEvents db input = Inr (db', claims))"

text \<open>
  Every operation other than a commit only appends events or a result of the Run lifecycle, advances the
  publication of events or records a consumption.
\<close>

definition state_results :: "'a product_db_scheme \<Rightarrow> string \<Rightarrow> command_result_row list" where
  "state_results db key = filter (\<lambda>c. cr_stateKey c = key \<and> starts_with (cr_id c) ''command-result:'') (pdb_commandResults db)"

definition outbox_effect :: "product_db \<Rightarrow> product_db \<Rightarrow> bool" where
  "outbox_effect db db' \<longleftrightarrow> pdb_states db' = pdb_states db \<and> state_results db' = state_results db \<and>
     (\<exists>xs. pdb_commandResults db' = pdb_commandResults db @ xs) \<and>
     events_grow (pdb_events db) (pdb_events db') \<and>
     (distinct (map ev_id (pdb_events db)) \<longrightarrow> distinct (map ev_id (pdb_events db')))"

lemma map_effect:
  assumes "\<And>e. ev_id (f e) = ev_id e" "\<And>e. row_of ev_id (ev_id e) (pdb_events db) = Some e \<Longrightarrow> event_kept e (f e)"
  shows "outbox_effect db (db\<lparr>pdb_events := map f (pdb_events db)\<rparr>)"
  using events_grow_map [OF assms] by (simp add: outbox_effect_def state_results_def fun_eq_iff comp_def assms(1))

lemma effect_refl [simp]: "outbox_effect db db"
  by (simp add: outbox_effect_def)

lemma inserted_event_distinct:
  "insert_event ow ag e db = Inr db' \<Longrightarrow> distinct (map ev_id (pdb_events db)) \<Longrightarrow> distinct (map ev_id (pdb_events db'))"
  by (fastforce simp: insert_event_def has_row_def list_ex_iff inverts)

lemma outbox_effects:
  "markPublished db i at = Inr (db', r) \<Longrightarrow> outbox_effect db db'"
  "appendEvent db ow ag e = Inr (db', r) \<Longrightarrow> outbox_effect db db'"
  "markEventPublished db ow ag i at = Inr (db', r) \<Longrightarrow> outbox_effect db db'"
  "claimEvents db input = Inr (db', claims) \<Longrightarrow> outbox_effect db db'"
  "acknowledgeEvent db i c at ref = Inr (db', r) \<Longrightarrow> outbox_effect db db'"
  "consumeEventOnce db cons i at = Inr (db', b) \<Longrightarrow> outbox_effect db db'"
  "insert_command_result db row = Inr db' \<Longrightarrow> starts_with (cr_id row) ''run-command:'' \<Longrightarrow> outbox_effect db db'"
  "insert_event ow ag e db = Inr db' \<Longrightarrow> outbox_effect db db'"
  "outbox_effect db (db\<lparr>pdb_work := work, pdb_payloads := payloads\<rparr>)"
proof -
  show "outbox_effect db db'" if "insert_command_result db row = Inr db'" "starts_with (cr_id row) ''run-command:''"
  proof -
    have "\<not> starts_with (cr_id row) ''command-result:''"
      using that(2) by (cases "cr_id row") (auto simp: starts_with_def)
    with that(1) show ?thesis
      by (auto simp: insert_command_result_def outbox_effect_def state_results_def fun_eq_iff inverts)
  qed
  show "outbox_effect db db'" if "insert_event ow ag e db = Inr db'"
    using that inserted_event_distinct [OF that]
    by (auto simp: insert_event_def outbox_effect_def state_results_def fun_eq_iff inverts intro!: events_grow_append)
  show "outbox_effect db db'" if "markPublished db i at = Inr (db', r)"
    using that by (auto simp: markPublished_def event_kept_def event_content_def
        split: option.splits if_splits intro!: map_effect)
  show "outbox_effect db db'" if "appendEvent db ow ag e = Inr (db', r)"
    using that inserted_event_distinct [of ow ag e db]
    by (auto simp: appendEvent_def outbox_effect_def state_results_def fun_eq_iff inverts Let_def split: option.splits)
      (auto simp: insert_event_def inverts intro!: events_grow_append)
  show "outbox_effect db db'" if "markEventPublished db ow ag i at = Inr (db', r)"
    using that by (auto simp: markEventPublished_def scoped_event_def event_kept_def event_content_def
        inverts split: option.splits if_splits intro!: map_effect)
  show "outbox_effect db db'" if "claimEvents db input = Inr (db', claims)"
    using that claim_effect_kept by (auto simp: claimEvents_Inr event_kept_id intro!: map_effect)
  show "outbox_effect db db'" if "acknowledgeEvent db i c at ref = Inr (db', r)"
    using that by (auto simp: acknowledgeEvent_def event_kept_def event_content_def inverts
        split: option.splits if_splits intro!: map_effect)
  show "outbox_effect db db'" if "consumeEventOnce db cons i at = Inr (db', b)"
    using that by (auto simp: outbox_effect_def state_results_def fun_eq_iff consumeEventOnce_def inverts split: if_splits)
  show "outbox_effect db (db\<lparr>pdb_work := work, pdb_payloads := payloads\<rparr>)"
    by (simp add: outbox_effect_def state_results_def fun_eq_iff)
qed

lemma commit_is_step: "commitStateAndEvents sha256 db input now = Inr (db', r) \<Longrightarrow> product_step sha256 db db'"
  unfolding product_step_def unclaiming_step_def by (rule disjI1, rule disjI1) (intro exI)

lemma claim_is_step: "claimEvents db input = Inr (db', claims) \<Longrightarrow> product_step sha256 db db'"
  unfolding product_step_def by blast

lemma product_step_cases:
  assumes "product_step sha256 db db'"
  obtains (commit) input now r where "commitStateAndEvents sha256 db input now = Inr (db', r)"
  | (outbox) "outbox_effect db db'"
  using assms unfolding product_step_def unclaiming_step_def
  by (elim disjE exE conjE) (blast intro: outbox_effects | simp add: outbox_effects(9))+

section \<open>History of the tables\<close>

definition stored_revision :: "'a product_db_scheme \<Rightarrow> string \<Rightarrow> int" where
  "stored_revision db key = (case row_of st_key key (pdb_states db) of None \<Rightarrow> 0 | Some row \<Rightarrow> st_revision row)"

lemma row_of_state_written:
  "row_of st_key k (state_written input n rows) =
     (if k = cm_key input
      then Some (case row_of st_key k rows of
          None \<Rightarrow> new_state_row input n
        | Some r \<Rightarrow> r\<lparr>st_revision := n, st_value := cm_value input, st_updatedAt := cm_committedAt input\<rparr>)
      else row_of st_key k rows)"
proof -
  let ?f = "\<lambda>r. if st_key r = cm_key input
      then r\<lparr>st_revision := n, st_value := cm_value input, st_updatedAt := cm_committedAt input\<rparr> else r"
  have map: "row_of st_key k (map ?f rows) = map_option ?f (row_of st_key k rows)" by (rule row_of_map) simp
  show ?thesis
  proof (cases "has_row st_key (cm_key input) rows")
    case True
    then have "row_of st_key k (state_written input n rows) = map_option ?f (row_of st_key k rows)"
      by (simp add: state_written_def map)
    moreover have "map_option ?f (row_of st_key k rows) = row_of st_key k rows" if "k \<noteq> cm_key input"
      using that row_of_SomeD [of st_key k rows] by (cases "row_of st_key k rows") simp_all
    moreover have "map_option ?f (row_of st_key k rows) = Some (case row_of st_key k rows of
          None \<Rightarrow> new_state_row input n
        | Some r \<Rightarrow> r\<lparr>st_revision := n, st_value := cm_value input, st_updatedAt := cm_committedAt input\<rparr>)"
      if "k = cm_key input"
      using that True row_of_SomeD [of st_key k rows] by (cases "row_of st_key k rows") (simp_all add: has_row_iff)
    ultimately show ?thesis by simp
  next
    case False
    then show ?thesis
      by (cases "row_of st_key k rows") (auto simp: state_written_def row_of_append has_row_iff)
  qed
qed

lemma stored_revision_written:
  assumes "pdb_states db' = state_written input n (pdb_states db)"
  shows "stored_revision db' k = (if k = cm_key input then n else stored_revision db k)"
  by (auto simp: stored_revision_def assms row_of_state_written split: option.splits)

lemma state_step_advances:
  assumes "product_step sha256 db db'" "row_of st_key k (pdb_states db) = Some r"
  shows "\<exists>r'. row_of st_key k (pdb_states db') = Some r' \<and> (r' = r \<or> st_revision r < st_revision r')"
  using assms(1)
proof (cases rule: product_step_cases)
  case (commit input now res)
  then show ?thesis
  proof (cases rule: commit_cases)
    case replayed
    with assms(2) show ?thesis by simp
  next
    case (fresh lease d n)
    with assms(2) show ?thesis by (auto simp: row_of_state_written)
  qed
next
  case outbox
  with assms(2) show ?thesis by (simp add: outbox_effect_def)
qed

interpretation product_states: versioned_table "\<lambda>db k. row_of st_key k (pdb_states db)" st_revision
  "product_step sha256" for sha256
  by unfold_locales (rule state_step_advances)

lemma results_only_grow:
  assumes "product_step sha256 db db'"
  shows "\<exists>xs. pdb_commandResults db' = pdb_commandResults db @ xs"
  using assms
proof (cases rule: product_step_cases)
  case (commit input now res)
  then show ?thesis by (cases rule: commit_cases) auto
qed (simp add: outbox_effect_def)

lemma events_only_grow:
  assumes "product_step sha256 db db'"
  shows "events_grow (pdb_events db) (pdb_events db')"
  using assms
proof (cases rule: product_step_cases)
  case (commit input now res)
  then show ?thesis by (cases rule: commit_cases) (auto intro: events_grow_append)
qed (simp add: outbox_effect_def)

lemma history_grows:
  assumes "(product_step sha256)\<^sup>*\<^sup>* db db'"
  shows "(\<exists>xs. pdb_commandResults db' = pdb_commandResults db @ xs) \<and> events_grow (pdb_events db) (pdb_events db')"
  using assms
proof (induction rule: rtranclp_induct)
  case (step u v)
  obtain xs where "pdb_commandResults u = pdb_commandResults db @ xs" "events_grow (pdb_events db) (pdb_events u)"
    using step.IH by blast
  moreover obtain ys where "pdb_commandResults v = pdb_commandResults u @ ys"
    using results_only_grow [OF step.hyps(2)] by blast
  ultimately show ?case using events_grow_trans [OF _ events_only_grow [OF step.hyps(2)]] by simp
qed simp

definition product_inv :: "product_db \<Rightarrow> bool" where
  "product_inv db \<longleftrightarrow> distinct (map ev_id (pdb_events db)) \<and>
     (\<forall>key. 0 \<le> stored_revision db key \<and>
        map cr_stateRevision (state_results db key) = [1..stored_revision db key])"

lemma check_events_distinct:
  "check_events stored key seen es = Inr () \<Longrightarrow> distinct (map ev_id stored) \<Longrightarrow>
     distinct (map ev_id es) \<and> ev_id ` set es \<inter> (set seen \<union> ev_id ` set stored) = {} \<and>
     (\<forall>e \<in> set es. ev_idempotencyKey e = key)"
proof (induction es arbitrary: seen)
  case (Cons e es)
  then have c: "ev_idempotencyKey e = key" "ev_id e \<notin> set seen" "\<not> has_row ev_id (ev_id e) stored"
      "check_events stored key (ev_id e # seen) es = Inr ()"
    by (auto simp: inverts)
  have "ev_id e \<notin> ev_id ` set stored" using c(3) by (auto simp: has_row_def list_ex_iff)
  with Cons.IH [OF c(4) Cons.prems(2)] c(1,2) show ?case by auto
qed simp

lemma upto_snoc: "0 \<le> n \<Longrightarrow> [1..n] @ [n + 1] = [1..n + 1]"
  using upto_rec2 [of 1 "n + 1"] by simp

lemma product_step_inv:
  assumes "product_step sha256 db db'" "product_inv db"
  shows "product_inv db'"
  using assms(1)
proof (cases rule: product_step_cases)
  case (commit input now res)
  then show ?thesis
  proof (cases rule: commit_cases)
    case replayed
    with assms(2) show ?thesis by simp
  next
    case (fresh lease d n)
    have n: "n = stored_revision db (cm_key input) + 1" by (simp add: fresh(3) stored_revision_def)
    have rev: "stored_revision db' k = (if k = cm_key input then n else stored_revision db k)" for k
      by (rule stored_revision_written) (simp add: fresh(8))
    have ids: "distinct (map ev_id (pdb_events db'))"
      using check_events_distinct [OF fresh(6)] assms(2) by (auto simp: fresh(8) product_inv_def comp_def)
    have "starts_with (cr_id (new_result_row sha256 input lease n)) ''command-result:''"
      by (simp add: new_result_row_def starts_with_def)
    then have results: "state_results db' k = state_results db k @ (if k = cm_key input then [new_result_row sha256 input lease n] else [])" for k
      by (simp add: fresh(8) state_results_def)
    have inv: "0 \<le> stored_revision db k" "map cr_stateRevision (state_results db k) = [1..stored_revision db k]" for k
      using assms(2) by (simp_all add: product_inv_def)
    have "map cr_stateRevision (state_results db' k) = [1..stored_revision db' k]" for k
      using inv [of k] by (cases "k = cm_key input") (simp_all add: rev results n upto_snoc)
    moreover have "0 \<le> stored_revision db' k" for k using inv [of k] inv(1) [of "cm_key input"] by (simp add: rev n)
    ultimately show ?thesis using ids by (simp add: product_inv_def)
  qed
next
  case outbox
  with assms(2) show ?thesis by (simp add: outbox_effect_def product_inv_def stored_revision_def)
qed

definition fresh_store :: "product_db \<Rightarrow> bool" where
  "fresh_store db \<longleftrightarrow> pdb_states db = [] \<and> pdb_commandResults db = [] \<and> pdb_events db = []"

lemma reachable_inv: "(product_step sha256)\<^sup>*\<^sup>* start db \<Longrightarrow> fresh_store start \<Longrightarrow> product_inv db"
proof (induction rule: rtranclp_induct)
  case base
  then show ?case by (simp add: fresh_store_def product_inv_def stored_revision_def state_results_def)
next
  case (step u v)
  then show ?case using product_step_inv by blast
qed

section \<open>Properties\<close>

text \<open>
  C25. The history of a state is gapless: in every reachable store the results that commits recorded for a
  key carry, in order, the revisions 1, 2, up to the revision of the stored state, so each revision was
  written by exactly one accepted command and no accepted command left the state without its revision.
  The commands of the Run lifecycle record results of their own in the same table, under the id of a Run;
  they are among the operations here, but their rows, whose ids start with \<open>run-command:\<close>, are not results
  of a commit and are left out of the list. Governed deletion, which removes rows, is not modelled.
\<close>

theorem state_history_gapless:
  assumes "(product_step sha256)\<^sup>*\<^sup>* start db" "fresh_store start"
  shows "map cr_stateRevision
      (filter (\<lambda>c. cr_stateKey c = key \<and> starts_with (cr_id c) ''command-result:'') (pdb_commandResults db)) =
    [1..(case readState db key of None \<Rightarrow> 0 | Some state \<Rightarrow> st_revision state)]"
proof -
  have "(case readState db key of None \<Rightarrow> 0 | Some state \<Rightarrow> st_revision state) = stored_revision db key"
    by (simp add: readState_def stored_revision_def stateFromRow_def split: option.splits)
  with reachable_inv [OF assms] show ?thesis by (simp add: product_inv_def state_results_def)
qed

text \<open>
  No update is lost: when a client read a state and a later commit of its own that expects the
  revision it read is accepted as new, the commit replaced exactly the value it had read, whatever
  other commands were committed in between, and the stored revision is one higher.
\<close>

theorem commit_replaces_what_was_read:
  assumes between: "(product_step sha256)\<^sup>*\<^sup>* db0 db1"
    and read: "row_of st_key (cm_key input) (pdb_states db0) = Some row"
    and expects: "cm_expectedRevision input = Some (st_revision row)"
    and commit: "commitStateAndEvents sha256 db1 input now = Inr (db2, r)" and new: "\<not> cs_replayed r"
  shows "row_of st_key (cm_key input) (pdb_states db1) = Some row \<and>
    readState db2 (cm_key input) = Some \<lparr>st_key = cm_key input, st_revision = st_revision row + 1, st_value = cm_value input\<rparr>"
  using commit
proof (cases rule: commit_cases)
  case replayed
  then have "cs_replayed r"
    by (auto simp: replayExisting_def findCommandCommit_def inverts split: option.splits)
  with new show ?thesis by simp
next
  case (fresh lease d n)
  from fresh(4) expects obtain now_row where now_row: "row_of st_key (cm_key input) (pdb_states db1) = Some now_row"
    "st_revision now_row = st_revision row" by auto
  have same: "now_row = row" by (rule product_states.same_revision_same_row [OF between read now_row])
  have "n = st_revision row + 1" using now_row by (simp add: fresh(3))
  moreover have "st_key row = cm_key input" using row_of_SomeD [OF read] by simp
  ultimately show ?thesis
    using now_row(1) same by (simp add: readState_def fresh(8) row_of_state_written stateFromRow_def)
qed

lemma find_append_Some: "List.find P xs = Some x \<Longrightarrow> List.find P (xs @ ys) = Some x"
  by (induction xs) auto

lemma found_commit:
  assumes "commitStateAndEvents sha256 db input now = Inr (db', r)"
  shows "\<exists>replayed. findCommandCommit db' (command_lookup (cm_command input)) replayed = Inr (Some r)"
  using assms
proof (cases rule: commit_cases)
  case replayed
  then show ?thesis by (auto simp: replayExisting_def inverts split: option.splits)
qed blast

lemma found_commit_later:
  assumes found: "findCommandCommit db lookup b = Inr (Some r)" and later: "(product_step sha256)\<^sup>*\<^sup>* db db'"
    and inv: "distinct (map ev_id (pdb_events db))"
  shows "\<exists>r'. findCommandCommit db' lookup c = Inr (Some r') \<and> cs_replayed r' = c \<and>
    cs_commandResult r' = cs_commandResult r \<and> st_revision (cs_state r) \<le> st_revision (cs_state r') \<and>
    (\<forall>e \<in> set (cs_events r). \<exists>e' \<in> set (cs_events r'). reliable_event.truncate e' = reliable_event.truncate e)"
proof -
  from found obtain res row where f: "List.find (\<lambda>x. result_lookup x = lookup) (pdb_commandResults db) = Some res"
      "row_of st_key (cr_stateKey res) (pdb_states db) = Some row" "cr_stateRevision res \<le> st_revision row"
      "r = \<lparr>cs_state = stateFromRow row, cs_events = eventsForCommand db lookup,
            cs_commandResult = commandResultFromRow res, cs_replayed = b\<rparr>"
    by (auto simp: findCommandCommit_def findCommandResult_def readState_def stateFromRow_def inverts split: option.splits)
  from history_grows [OF later] obtain xs where xs: "pdb_commandResults db' = pdb_commandResults db @ xs"
    and ev: "events_grow (pdb_events db) (pdb_events db')" by blast
  from product_states.history_advances [OF later f(2)] obtain row' where row':
    "row_of st_key (cr_stateKey res) (pdb_states db') = Some row'" "st_revision row \<le> st_revision row'" by auto
  let ?r = "\<lparr>cs_state = stateFromRow row', cs_events = eventsForCommand db' lookup,
     cs_commandResult = commandResultFromRow res, cs_replayed = c\<rparr>"
  have found': "findCommandCommit db' lookup c = Inr (Some ?r)"
    using f row' find_append_Some [OF f(1)]
    by (simp add: findCommandCommit_def findCommandResult_def readState_def stateFromRow_def xs)
  have "\<exists>e' \<in> set (eventsForCommand db' lookup). reliable_event.truncate e' = reliable_event.truncate (eventFromRow e)"
    if e: "e \<in> set (pdb_events db)" "(er_ownerId e, er_agentId e, ev_idempotencyKey e) = lookup" for e
  proof -
    have "row_of ev_id (ev_id e) (pdb_events db) = Some e" using e(1) by (simp add: row_of_eq_iff [OF inv])
    from ev this obtain e' where e': "row_of ev_id (ev_id e) (pdb_events db') = Some e'" "event_kept e e'"
      unfolding events_grow_def by blast
    then have "e' \<in> set (pdb_events db')" using row_of_SomeD [OF e'(1)] by simp
    moreover have "er_ownerId e' = er_ownerId e" "er_agentId e' = er_agentId e" "ev_idempotencyKey e' = ev_idempotencyKey e"
      using e'(2) unfolding event_kept_def event_content_def by simp_all
    with e(2) have "(er_ownerId e', er_agentId e', ev_idempotencyKey e') = lookup" by simp
    ultimately have "eventFromRow e' \<in> set (eventsForCommand db' lookup)"
      by (simp add: eventsForCommand_def by_occurrence_def)
    moreover have "reliable_event.truncate (eventFromRow e') = reliable_event.truncate (eventFromRow e)"
      using e'(2) by (simp add: eventFromRow_def event_kept_def event_content_def reliable_event.defs)
    ultimately show ?thesis by blast
  qed
  then have "\<forall>e \<in> set (eventsForCommand db lookup). \<exists>e' \<in> set (eventsForCommand db' lookup).
      reliable_event.truncate e' = reliable_event.truncate e"
    by (subst eventsForCommand_def) (simp add: by_occurrence_def)
  with found' show ?thesis
    by (intro exI [of _ ?r]) (simp add: f(4) stateFromRow_def row'(2))
qed

text \<open>
  C26. A command takes effect once: after a commit returned a result, any repetition of the command, at
  any later time and after any other operations, changes nothing and returns the recorded result, with
  the events of the first commit and a state at least as new; a different command under the same
  idempotency key is a conflict.
\<close>

theorem commit_takes_effect_once:
  assumes before: "(product_step sha256)\<^sup>*\<^sup>* start db" "fresh_store start"
    and commit: "commitStateAndEvents sha256 db input now = Inr (db1, r)"
    and later: "(product_step sha256)\<^sup>*\<^sup>* db1 db2"
    and same_key: "command_lookup (cm_command again) = command_lookup (cm_command input)"
  shows "if cmd_commandType (cm_command again) = cr_commandType (cs_commandResult r) \<and>
      cmd_commandFingerprint (cm_command again) = cr_commandFingerprint (cs_commandResult r)
    then \<exists>r2. commitStateAndEvents sha256 db2 again now2 = Inr (db2, r2) \<and> cs_replayed r2 \<and>
      cs_commandResult r2 = cs_commandResult r \<and> st_revision (cs_state r) \<le> st_revision (cs_state r2) \<and>
      (\<forall>e \<in> set (cs_events r). \<exists>e' \<in> set (cs_events r2). reliable_event.truncate e' = reliable_event.truncate e)
    else commitStateAndEvents sha256 db2 again now2 = Inl conflict"
proof -
  have "product_step sha256 db db1" using commit by (rule commit_is_step)
  then have "product_inv db1" using reachable_inv [OF before] product_step_inv by blast
  then have ids: "distinct (map ev_id (pdb_events db1))" by (simp add: product_inv_def)
  obtain b where "findCommandCommit db1 (command_lookup (cm_command input)) b = Inr (Some r)"
    using found_commit [OF commit] by blast
  from found_commit_later [OF this later ids, of True] obtain r2 where r2:
    "findCommandCommit db2 (command_lookup (cm_command again)) True = Inr (Some r2)" "cs_replayed r2"
    "cs_commandResult r2 = cs_commandResult r" "st_revision (cs_state r) \<le> st_revision (cs_state r2)"
    "\<forall>e \<in> set (cs_events r). \<exists>e' \<in> set (cs_events r2). reliable_event.truncate e' = reliable_event.truncate e"
    unfolding same_key by blast
  then show ?thesis
    by (auto simp: commitStateAndEvents_def replayExisting_def ensure_def)
qed

section \<open>Claims of the outbox\<close>

text \<open>The steps of a time span in which no claim is taken at or after the instant \<open>expiry\<close>.\<close>

definition step_before :: "(string \<Rightarrow> string) \<Rightarrow> string \<Rightarrow> product_db \<Rightarrow> product_db \<Rightarrow> bool" where
  "step_before sha256 expiry db db' \<longleftrightarrow> unclaiming_step sha256 db db' \<or>
     (\<exists>input claims. claimEvents db input = Inr (db', claims) \<and> ce_claimedAt input < expiry)"

definition held_event :: "outbox_row list \<Rightarrow> string \<Rightarrow> string \<Rightarrow> string \<Rightarrow> bool" where
  "held_event rows i claimId expiry \<longleftrightarrow> (\<exists>e. row_of ev_id i rows = Some e \<and>
     (er_publicationState e = pub_published \<or>
      er_publicationState e = pub_claimed \<and> er_claimId e = Some claimId \<and> er_claimExpiresAt e = Some expiry))"

lemma held_event_map:
  assumes "held_event rows i claimId expiry" "\<And>e. ev_id (f e) = ev_id e"
    and "\<And>e. row_of ev_id i rows = Some e \<Longrightarrow> f e = e \<or> er_publicationState (f e) = pub_published"
  shows "held_event (map f rows) i claimId expiry"
  using assms row_of_map [of ev_id f i rows] unfolding held_event_def by fastforce

lemma held_event_append: "held_event rows i claimId expiry \<Longrightarrow> held_event (rows @ added) i claimId expiry"
  by (auto simp: held_event_def row_of_append)

lemma claim_effect_held:
  assumes "er_publicationState e = pub_published \<or> (er_publicationState e = pub_claimed \<and> er_claimExpiresAt e = Some expiry)"
    and "ce_claimedAt input < expiry"
  shows "claim_effect input stored e = e \<or> er_publicationState (claim_effect input stored e) = pub_published"
  using assms by (auto simp: claim_effect_def expire_claim_def Let_def split: option.splits)

lemma held_event_step:
  assumes "step_before sha256 expiry db db'" "held_event (pdb_events db) i claimId expiry"
  shows "held_event (pdb_events db') i claimId expiry"
proof -
  note held = assms(2)
  from assms(1) show ?thesis
    unfolding step_before_def unclaiming_step_def
  proof (elim disjE exE conjE)
    fix input now r assume "commitStateAndEvents sha256 db input now = Inr (db', r)"
    then show ?thesis using held by (cases rule: commit_cases) (auto intro: held_event_append)
  next
    fix j at r assume "markPublished db j at = Inr (db', r)"
    then show ?thesis using held
      by (auto simp: markPublished_def split: option.splits if_splits intro!: held_event_map [OF held])
  next
    fix ow ag e r assume "appendEvent db ow ag e = Inr (db', r)"
    then show ?thesis using held
      by (auto simp: appendEvent_def insert_event_def Let_def inverts split: option.splits intro: held_event_append)
  next
    fix ow ag j at r assume "markEventPublished db ow ag j at = Inr (db', r)"
    then show ?thesis using held
      by (auto simp: markEventPublished_def inverts split: option.splits if_splits intro!: held_event_map [OF held])
  next
    fix input r assume c: "claimEvents db input = Inr (db', r)" and before: "ce_claimedAt input < expiry"
    have "held_event (map (claim_effect input (pdb_events db)) (pdb_events db)) i claimId expiry"
    proof (rule held_event_map [OF held])
      fix e assume "row_of ev_id i (pdb_events db) = Some e"
      then have "er_publicationState e = pub_published \<or> (er_publicationState e = pub_claimed \<and> er_claimExpiresAt e = Some expiry)"
        using held by (auto simp: held_event_def)
      then show "claim_effect input (pdb_events db) e = e \<or> er_publicationState (claim_effect input (pdb_events db) e) = pub_published"
        by (rule claim_effect_held) (rule before)
    qed (rule event_kept_id [OF claim_effect_kept])
    with c show ?thesis by (simp add: claimEvents_Inr)
  next
    fix j c at ref r assume "acknowledgeEvent db j c at ref = Inr (db', r)"
    then show ?thesis using held
      by (auto simp: acknowledgeEvent_def inverts split: option.splits if_splits intro!: held_event_map [OF held])
  next
    fix c j at r assume "consumeEventOnce db c j at = Inr (db', r)"
    then show ?thesis using held by (auto simp: consumeEventOnce_def inverts split: if_splits)
  next
    fix row assume "insert_command_result db row = Inr db'"
    then show ?thesis using held by (auto simp: insert_command_result_def inverts)
  next
    fix ow ag e assume "insert_event ow ag e db = Inr db'"
    then show ?thesis using held by (auto simp: insert_event_def inverts intro: held_event_append)
  next
    fix work payloads assume "db' = db\<lparr>pdb_work := work, pdb_payloads := payloads\<rparr>"
    then show ?thesis using held by simp
  qed
qed

lemma held_event_history:
  "(step_before sha256 expiry)\<^sup>*\<^sup>* db db' \<Longrightarrow> held_event (pdb_events db) i claimId expiry \<Longrightarrow>
     held_event (pdb_events db') i claimId expiry"
  by (induction rule: rtranclp_induct) (auto intro: held_event_step)

lemma step_before_step: "(step_before sha256 expiry)\<^sup>*\<^sup>* db db' \<Longrightarrow> (product_step sha256)\<^sup>*\<^sup>* db db'"
  by (induction rule: rtranclp_induct) (auto simp: step_before_def product_step_def intro: rtranclp.rtrancl_into_rtrancl)

lemma claimed_events_pending:
  assumes "row \<in> set (claimed_events input stored)"
  shows "\<exists>e \<in> set stored. row = expire_claim (ce_claimedAt input) e \<and> er_publicationState row = pub_pending"
  using assms by (auto simp: claimed_events_def claimable_events_def by_occurrence_def dest!: in_set_takeD)

lemma claimed_is_held:
  assumes "claimEvents db input = Inr (db', claims)" "claim \<in> set claims" "distinct (map ev_id (pdb_events db))"
  shows "held_event (pdb_events db') (ev_id (ec_event claim)) (ce_claimId input) (ce_expiresAt input)"
proof -
  from assms(1,2) obtain row where row: "row \<in> set (claimed_events input (pdb_events db))" "ec_event claim = eventFromRow row"
    by (auto simp: claimEvents_Inr)
  from claimed_events_pending [OF row(1)] obtain e where e: "e \<in> set (pdb_events db)" "row = expire_claim (ce_claimedAt input) e"
      "er_publicationState row = pub_pending" by blast
  have id: "ev_id row = ev_id e" using event_kept_id [OF expire_claim_kept] e(2) by simp
  then have "row_of ev_id (ev_id row) (pdb_events db) = Some e" using e(1) by (simp add: row_of_eq_iff [OF assms(3)])
  moreover have "ev_id (claim_effect input (pdb_events db) x) = ev_id x" for x by (rule event_kept_id [OF claim_effect_kept])
  ultimately have "row_of ev_id (ev_id row) (pdb_events db') = Some (claim_effect input (pdb_events db) e)"
    using assms(1) row_of_map [of ev_id "claim_effect input (pdb_events db)" "ev_id row" "pdb_events db"]
    by (simp add: claimEvents_Inr)
  moreover have "claim_effect input (pdb_events db) e = row\<lparr>er_publicationState := pub_claimed,
      er_claimId := Some (ce_claimId input), er_claimExpiresAt := Some (ce_expiresAt input)\<rparr>"
    using row(1) e(2,3) by (auto simp: claim_effect_def Let_def)
  ultimately show ?thesis by (simp add: held_event_def row(2) eventFromRow_def)
qed

text \<open>
  C27. A claimed event has one owner: until the claim expires, no other claim returns the event, whatever
  operations run in between, and an acknowledgement under any other claim id changes nothing.
\<close>

theorem event_claim_exclusive:
  assumes before: "(product_step sha256)\<^sup>*\<^sup>* start db" "fresh_store start"
    and first: "claimEvents db input = Inr (db1, claims)" "claim \<in> set claims"
    and between: "(step_before sha256 (ce_expiresAt input))\<^sup>*\<^sup>* db1 db2"
    and second: "claimEvents db2 other = Inr (db3, claims2)" "ce_claimedAt other < ce_expiresAt input"
  shows "(\<forall>claim2 \<in> set claims2. ev_id (ec_event claim2) \<noteq> ev_id (ec_event claim)) \<and>
    (\<forall>claimId at ref db4 r. acknowledgeEvent db2 (ev_id (ec_event claim)) claimId at ref = Inr (db4, r) \<and>
       claimId \<noteq> ce_claimId input \<longrightarrow> db4 = db2)"
proof -
  have "product_step sha256 db db1" using first(1) by (rule claim_is_step)
  then have inv1: "product_inv db1" "distinct (map ev_id (pdb_events db))"
    using reachable_inv [OF before] product_step_inv by (blast, simp add: product_inv_def)
  have "(product_step sha256)\<^sup>*\<^sup>* db1 db2" by (rule step_before_step [OF between])
  then have "product_inv db2" using inv1(1) by (induction rule: rtranclp_induct) (blast intro: product_step_inv)+
  then have ids: "distinct (map ev_id (pdb_events db2))" by (simp add: product_inv_def)
  have "held_event (pdb_events db2) (ev_id (ec_event claim)) (ce_claimId input) (ce_expiresAt input)"
    by (rule held_event_history [OF between claimed_is_held [OF first inv1(2)]])
  then obtain e where e: "row_of ev_id (ev_id (ec_event claim)) (pdb_events db2) = Some e"
    "er_publicationState e = pub_published \<or> er_publicationState e = pub_claimed \<and>
      er_claimId e = Some (ce_claimId input) \<and> er_claimExpiresAt e = Some (ce_expiresAt input)"
    unfolding held_event_def by blast
  have "ev_id (ec_event claim2) \<noteq> ev_id (ec_event claim)" if c2: "claim2 \<in> set claims2" for claim2
  proof
    assume same: "ev_id (ec_event claim2) = ev_id (ec_event claim)"
    from second(1) c2 obtain row where row: "row \<in> set (claimed_events other (pdb_events db2))"
        "ec_event claim2 = eventFromRow row" by (auto simp: claimEvents_Inr)
    from claimed_events_pending [OF row(1)] obtain e2 where e2: "e2 \<in> set (pdb_events db2)"
        "row = expire_claim (ce_claimedAt other) e2" "er_publicationState row = pub_pending" by blast
    have "ev_id e2 = ev_id (ec_event claim)"
      using same row(2) event_kept_id [OF expire_claim_kept, of "ce_claimedAt other" e2] e2(2) by (simp add: eventFromRow_def)
    then have "row_of ev_id (ev_id (ec_event claim)) (pdb_events db2) = Some e2"
      using e2(1) by (simp add: row_of_eq_iff [OF ids])
    with e(1) have "e2 = e" by simp
    with e(2) e2(2,3) second(2) show False by (auto simp: expire_claim_def split: option.splits if_splits)
  qed
  moreover have "db4 = db2" if "acknowledgeEvent db2 (ev_id (ec_event claim)) claimId at ref = Inr (db4, r)"
      "claimId \<noteq> ce_claimId input" for claimId at ref db4 r
    using that e by (auto simp: acknowledgeEvent_def inverts split: if_splits)
  ultimately show ?thesis by blast
qed

section \<open>The publisher drains the outbox\<close>

definition unpublished :: "'a product_db_scheme \<Rightarrow> outbox_row list" where
  "unpublished db = by_occurrence (filter (\<lambda>e. ev_publishedAt e = None) (pdb_events db))"

fun run_sink :: "('k \<Rightarrow> reliable_event_record \<Rightarrow> sink_outcome result \<times> 'k) \<Rightarrow> 'k \<Rightarrow> outbox_row list \<Rightarrow> 'k" where
  "run_sink deliver sink [] = sink"
| "run_sink deliver sink (e # es) = run_sink deliver (snd (deliver sink (eventFromRow e))) es"

lemma ev_id_eventFromRow [simp]: "ev_id (eventFromRow e) = ev_id e"
  by (simp add: eventFromRow_def)

lemma set_unpublished: "set (unpublished db) = {e \<in> set (pdb_events db). ev_publishedAt e = None}"
  by (simp add: unpublished_def by_occurrence_def)

lemma distinct_unpublished: "distinct (map ev_id (pdb_events db)) \<Longrightarrow> distinct (map ev_id (unpublished db))"
proof -
  assume "distinct (map ev_id (pdb_events db))"
  then have "distinct (unpublished db)" "inj_on ev_id (set (pdb_events db))"
    by (simp_all add: unpublished_def by_occurrence_def distinct_map)
  then show ?thesis by (auto simp: distinct_map set_unpublished intro: inj_on_subset)
qed

lemma markPublished_unpublished:
  assumes ids: "distinct (map ev_id (pdb_events db))" and e: "e \<in> set (unpublished db)"
  obtains db' where "markPublished db (ev_id e) at = Inr (db', eventFromRow (e\<lparr>ev_publishedAt := Some at\<rparr>))"
    "unpublished db' = filter (\<lambda>x. ev_id x \<noteq> ev_id e) (unpublished db)" "distinct (map ev_id (pdb_events db'))"
proof -
  let ?f = "\<lambda>x. if ev_id x = ev_id e then x\<lparr>er_publicationState := pub_published, ev_publishedAt := Some at\<rparr> else x"
  let ?db = "db\<lparr>pdb_events := map ?f (pdb_events db)\<rparr>"
  have "e \<in> set (pdb_events db)" and open_e: "ev_publishedAt e = None" using e by (simp_all add: set_unpublished)
  then have "row_of ev_id (ev_id e) (pdb_events db) = Some e" by (simp add: row_of_eq_iff [OF ids])
  then have mark: "markPublished db (ev_id e) at = Inr (?db, eventFromRow (e\<lparr>ev_publishedAt := Some at\<rparr>))"
    by (simp add: markPublished_def open_e)
  have f: "filter (\<lambda>x. ev_publishedAt x = None) (map ?f xs) =
      filter (\<lambda>x. ev_id x \<noteq> ev_id e) (filter (\<lambda>x. ev_publishedAt x = None) xs)" for xs
    by (induction xs) auto
  have "unpublished ?db = filter (\<lambda>x. ev_id x \<noteq> ev_id e) (unpublished db)"
    unfolding unpublished_def by_occurrence_def filter_sort f [symmetric] by simp
  moreover have "distinct (map ev_id (pdb_events ?db))"
  proof -
    have "map ev_id (map ?f (pdb_events db)) = map ev_id (pdb_events db)" by simp
    moreover have "pdb_events ?db = map ?f (pdb_events db)" by simp
    ultimately show ?thesis using ids by (simp only:)
  qed
  ultimately show ?thesis using that mark by blast
qed

lemma publish_each_prefix:
  assumes "publish_each deliver clock n (map eventFromRow q) p d db sink = (db', sink', res)"
    and "unpublished db = q @ rest" "distinct (map ev_id (pdb_events db))"
  shows "\<exists>j \<le> length q. unpublished db' = drop j q @ rest \<and> distinct (map ev_id (pdb_events db')) \<and>
    (\<forall>i < j. \<not> isl (fst (deliver (run_sink deliver sink (take i q)) (eventFromRow (q ! i))))) \<and>
    (case res of
       Inl err \<Rightarrow> j < length q \<and> fst (deliver (run_sink deliver sink (take j q)) (eventFromRow (q ! j))) = Inl err \<and>
         sink' = run_sink deliver sink (take (Suc j) q)
     | Inr (p', d') \<Rightarrow> j = length q \<and> sink' = run_sink deliver sink q \<and> p' + d' = p + d + length q)"
  using assms
proof (induction q arbitrary: n p d db sink)
  case Nil
  then show ?case by auto
next
  case (Cons e q)
  obtain outcome sink1 where del: "deliver sink (eventFromRow e) = (outcome, sink1)" by fastforce
  show ?case
  proof (cases outcome)
    case (Inl err)
    with Cons.prems del show ?thesis by (intro exI [of _ 0]) auto
  next
    case (Inr o1)
    have e: "e \<in> set (unpublished db)" using Cons.prems(2) by simp
    obtain db1 where db1: "markPublished db (ev_id e) (clock n) = Inr (db1, eventFromRow (e\<lparr>ev_publishedAt := Some (clock n)\<rparr>))"
        "unpublished db1 = filter (\<lambda>x. ev_id x \<noteq> ev_id e) (unpublished db)" "distinct (map ev_id (pdb_events db1))"
      using markPublished_unpublished [OF Cons.prems(3) e] by blast
    have "filter (\<lambda>x. ev_id x \<noteq> ev_id e) (unpublished db) = q @ rest"
    proof -
      have "distinct (map ev_id (e # (q @ rest)))" using distinct_unpublished [OF Cons.prems(3)] Cons.prems(2) by simp
      then have "ev_id e \<notin> ev_id ` set (q @ rest)" by (simp add: image_Un)
      then have "\<forall>x \<in> set (q @ rest). ev_id x \<noteq> ev_id e" by (metis imageI)
      then show ?thesis by (simp add: Cons.prems(2) filter_id_conv)
    qed
    with db1(2) have rest: "unpublished db1 = q @ rest" by simp
    obtain p1 d1 where pd: "publish_each deliver clock (Suc n) (map eventFromRow q) p1 d1 db1 sink1 = (db', sink', res)"
        "p1 + d1 = p + d + 1"
    proof (cases "o1 = delivered_published")
      case True
      with Cons.prems(1) del Inr db1(1) show ?thesis by (intro that [of "p + 1" d]) simp_all
    next
      case False
      with Cons.prems(1) del Inr db1(1) show ?thesis by (intro that [of p "d + 1"]) simp_all
    qed
    from Cons.IH [OF pd(1) rest db1(3)] obtain j where j: "j \<le> length q" "unpublished db' = drop j q @ rest"
      "distinct (map ev_id (pdb_events db'))"
      "\<forall>i < j. \<not> isl (fst (deliver (run_sink deliver sink1 (take i q)) (eventFromRow (q ! i))))"
      "case res of
       Inl err \<Rightarrow> j < length q \<and> fst (deliver (run_sink deliver sink1 (take j q)) (eventFromRow (q ! j))) = Inl err \<and>
         sink' = run_sink deliver sink1 (take (Suc j) q)
     | Inr (p', d') \<Rightarrow> j = length q \<and> sink' = run_sink deliver sink1 q \<and> p' + d' = p1 + d1 + length q" by blast
    have "\<forall>i < Suc j. \<not> isl (fst (deliver (run_sink deliver sink (take i (e # q))) (eventFromRow ((e # q) ! i))))"
      using j(4) del Inr by (auto simp: less_Suc_eq_0_disj)
    with j pd(2) del show ?thesis
      by (intro exI [of _ "Suc j"]) (auto split: sum.splits)
  qed
qed

text \<open>
  C28. Delivery is at least once and in order: whatever the sink does, a call of the publisher marks a
  prefix of the pending events, oldest first, every one of them delivered to the sink before it was
  marked; when the sink fails, the event it failed on and all later ones stay pending for the next call.
\<close>

theorem publisher_marks_delivered_prefix:
  assumes ids: "distinct (map ev_id (pdb_events db))" and limit: "0 \<le> limit" "limit \<le> 1000"
    and run: "publishPending deliver clock db sink limit = (db', sink', res)"
  shows "\<exists>j \<le> min (nat limit) (length (unpublished db)).
    unpublished db' = drop j (unpublished db) \<and>
    (\<forall>i < j. \<not> isl (fst (deliver (run_sink deliver sink (take i (unpublished db))) (eventFromRow (unpublished db ! i))))) \<and>
    (case res of
       Inl err \<Rightarrow> j < min (nat limit) (length (unpublished db)) \<and>
         fst (deliver (run_sink deliver sink (take j (unpublished db))) (eventFromRow (unpublished db ! j))) = Inl err
     | Inr summary \<Rightarrow> j = min (nat limit) (length (unpublished db)) \<and>
         pp_attempted summary = j \<and> pp_published summary + pp_duplicates summary = j)"
proof -
  let ?q = "take (nat limit) (unpublished db)"
  have pending: "listPending db limit = Inr (map eventFromRow ?q)"
    using limit by (simp add: listPending_def unpublished_def)
  obtain db1 sink1 res1 where each: "publish_each deliver clock 0 (map eventFromRow ?q) 0 0 db sink = (db1, sink1, res1)"
    by (metis prod_cases3)
  have "unpublished db = ?q @ drop (nat limit) (unpublished db)" by simp
  from publish_each_prefix [OF each this ids] obtain j where j: "j \<le> length ?q"
    "unpublished db1 = drop j ?q @ drop (nat limit) (unpublished db)"
    "\<forall>i < j. \<not> isl (fst (deliver (run_sink deliver sink (take i ?q)) (eventFromRow (?q ! i))))"
    "case res1 of
       Inl err \<Rightarrow> j < length ?q \<and> fst (deliver (run_sink deliver sink (take j ?q)) (eventFromRow (?q ! j))) = Inl err \<and>
         sink1 = run_sink deliver sink (take (Suc j) ?q)
     | Inr (p', d') \<Rightarrow> j = length ?q \<and> sink1 = run_sink deliver sink ?q \<and> p' + d' = 0 + 0 + length ?q" by blast
  have len: "length ?q = min (nat limit) (length (unpublished db))" by simp
  have prefix: "take i ?q = take i (unpublished db)" "i < length ?q \<Longrightarrow> ?q ! i = unpublished db ! i" if "i \<le> j" for i
    using that j(1) by (simp_all add: min_absorb1)
  have "drop j ?q @ drop (nat limit) (unpublished db) = drop j (unpublished db)"
  proof -
    have "drop j (?q @ xs) = drop j ?q @ xs" for xs using j(1) by simp
    from this [of "drop (nat limit) (unpublished db)"] show ?thesis by (simp only: append_take_drop_id)
  qed
  moreover have "db' = db1" using run by (auto simp: publishPending_def pending each split: sum.splits prod.splits)
  moreover have "\<forall>i < j. \<not> isl (fst (deliver (run_sink deliver sink (take i (unpublished db))) (eventFromRow (unpublished db ! i))))"
  proof (intro allI impI)
    fix i assume i: "i < j"
    then have "i \<le> j" "i < length ?q" using j(1) by simp_all
    note p = prefix(1) [OF this(1)] prefix(2) [OF this]
    show "\<not> isl (fst (deliver (run_sink deliver sink (take i (unpublished db))) (eventFromRow (unpublished db ! i))))"
      using j(3) [rule_format, OF i] unfolding p .
  qed
  moreover have "case res of
       Inl err \<Rightarrow> j < length ?q \<and>
         fst (deliver (run_sink deliver sink (take j (unpublished db))) (eventFromRow (unpublished db ! j))) = Inl err
     | Inr summary \<Rightarrow> j = length ?q \<and> pp_attempted summary = j \<and> pp_published summary + pp_duplicates summary = j"
    using run j(4) prefix [of j] by (auto simp: publishPending_def pending each split: sum.splits prod.splits)
  ultimately show ?thesis using j(1,2) unfolding len by (intro exI [of _ j]) simp
qed

fun publish_rounds ::
  "('k \<Rightarrow> reliable_event_record \<Rightarrow> sink_outcome result \<times> 'k) \<Rightarrow> (nat \<Rightarrow> nat \<Rightarrow> string) \<Rightarrow> int \<Rightarrow> nat \<Rightarrow>
     'a product_db_scheme \<Rightarrow> 'k \<Rightarrow> 'a product_db_scheme \<times> 'k" where
  "publish_rounds deliver clock limit 0 db sink = (db, sink)"
| "publish_rounds deliver clock limit (Suc k) db sink =
     (case publishPending deliver (clock k) db sink limit of
        (db', sink', _) \<Rightarrow> publish_rounds deliver clock limit k db' sink')"

lemma run_sink_append: "run_sink deliver sink (xs @ ys) = run_sink deliver (run_sink deliver sink xs) ys"
  by (induction xs arbitrary: sink) auto

lemma publishPending_drains:
  assumes ids: "distinct (map ev_id (pdb_events db))" and limit: "0 \<le> limit" "limit \<le> 1000"
    and works: "\<And>k e. \<not> isl (fst (deliver k e))"
    and run: "publishPending deliver clock db sink limit = (db', sink', res)"
  shows "unpublished db' = drop (nat limit) (unpublished db) \<and> distinct (map ev_id (pdb_events db')) \<and>
    sink' = run_sink deliver sink (take (nat limit) (unpublished db))"
proof -
  let ?q = "take (nat limit) (unpublished db)"
  have pending: "listPending db limit = Inr (map eventFromRow ?q)"
    using limit by (simp add: listPending_def unpublished_def)
  obtain db1 sink1 res1 where each: "publish_each deliver clock 0 (map eventFromRow ?q) 0 0 db sink = (db1, sink1, res1)"
    by (metis prod_cases3)
  have "unpublished db = ?q @ drop (nat limit) (unpublished db)" by simp
  from publish_each_prefix [OF each this ids] obtain j where j:
    "unpublished db1 = drop j ?q @ drop (nat limit) (unpublished db)" "distinct (map ev_id (pdb_events db1))"
    "case res1 of
       Inl err \<Rightarrow> j < length ?q \<and> fst (deliver (run_sink deliver sink (take j ?q)) (eventFromRow (?q ! j))) = Inl err \<and>
         sink1 = run_sink deliver sink (take (Suc j) ?q)
     | Inr (p', d') \<Rightarrow> j = length ?q \<and> sink1 = run_sink deliver sink ?q \<and> p' + d' = 0 + 0 + length ?q" by blast
  have "\<not> isl res1"
  proof
    assume "isl res1"
    then obtain err where "res1 = Inl err" by (auto simp: isl_def)
    with j(3) have "fst (deliver (run_sink deliver sink (take j ?q)) (eventFromRow (?q ! j))) = Inl err" by (simp only: sum.case)
    then have "isl (fst (deliver (run_sink deliver sink (take j ?q)) (eventFromRow (?q ! j))))" by (simp only: sum.disc)
    with works show False by blast
  qed
  then obtain p' d' where "res1 = Inr (p', d')" by (rule not_islE)
  with j run show ?thesis by (auto simp: publishPending_def pending each split: prod.splits)
qed

text \<open>
  C29. The outbox drains: with a sink that does not fail and a positive limit, enough calls of the
  publisher leave no event pending, and the sink has then received every event that was pending exactly
  once, in the order of occurrence.
\<close>

theorem publisher_drains_outbox:
  assumes "distinct (map ev_id (pdb_events db))" and "0 < limit" "limit \<le> 1000"
    and "\<And>k e. \<not> isl (fst (deliver k e))"
    and "length (unpublished db) \<le> k * nat limit"
    and "publish_rounds deliver clock limit k db sink = (db', sink')"
  shows "unpublished db' = [] \<and> sink' = run_sink deliver sink (unpublished db)"
  using assms(1,5,6)
proof (induction k arbitrary: db sink)
  case 0
  then show ?case by simp
next
  case (Suc k)
  obtain db1 sink1 res where run: "publishPending deliver (clock k) db sink limit = (db1, sink1, res)" by (metis prod_cases3)
  from publishPending_drains [OF Suc.prems(1) _ assms(3,4) run] assms(2)
  have one: "unpublished db1 = drop (nat limit) (unpublished db)" "distinct (map ev_id (pdb_events db1))"
    "sink1 = run_sink deliver sink (take (nat limit) (unpublished db))" by simp_all
  have "publish_rounds deliver clock limit k db1 sink1 = (db', sink')" using Suc.prems(3) run by simp
  from Suc.IH [OF one(2) _ this] Suc.prems(2) one(1)
  have "unpublished db' = [] \<and> sink' = run_sink deliver sink1 (unpublished db1)" by simp
  then show ?case by (simp add: one(1,3) run_sink_append [symmetric])
qed

section \<open>Concrete instances\<close>

definition example_product :: product_db where
  "example_product = \<lparr>pdb_work = example_granted_twice,
     pdb_payloads = [\<lparr>py_ref = ''p'', py_ownerId = ''o'', py_agentId = ''a'', py_createdAt = ''2026-01-01T00:00:00.000Z'',
       spl_classification = class_private,
       spl_contentType = ''text/plain'', spl_lifecycle = pay_active\<rparr>],
     pdb_states = [], pdb_commandResults = [], pdb_events = [], pdb_consumptions = []\<rparr>"

definition example_event :: "string \<Rightarrow> string \<Rightarrow> reliable_event" where
  "example_event i k = \<lparr>ev_id = i, ev_idempotencyKey = k, ev_topic = ''topic'', ev_payloadRef = ''p'',
     ev_occurredAt = ''2026-01-01T00:02:10.000Z''\<rparr>"

definition example_product_commit :: "string \<Rightarrow> int option \<Rightarrow> int \<Rightarrow> string \<Rightarrow> commit_input" where
  "example_product_commit k expected v e = \<lparr>cm_command = (example_command ''l2'' 2)\<lparr>cmd_idempotencyKey := k\<rparr>, cm_key = ''s'',
     cm_expectedRevision = expected, cm_value = JNum v, cm_events = [example_event e k], cm_resultRef = ''r'',
     cm_committedAt = ''2026-01-01T00:02:10.000Z''\<rparr>"

definition example_state_row :: "int \<Rightarrow> int \<Rightarrow> state_row" where
  "example_state_row n v = \<lparr>st_key = ''s'', st_revision = n, st_value = JNum v, st_ownerId = ''o'', st_agentId = ''a'',
     st_updatedAt = ''2026-01-01T00:02:10.000Z''\<rparr>"

definition example_result_row :: "string \<Rightarrow> int \<Rightarrow> command_result_row" where
  "example_result_row k n = \<lparr>cr_ownerId = ''o'', cr_agentId = ''a'', cr_idempotencyKey = k, cr_commandType = ''c'',
     cr_commandFingerprint = ''f'', cr_resultRef = ''r'', cr_stateKey = ''s'', cr_stateRevision = n,
     cr_committedAt = ''2026-01-01T00:02:10.000Z'', cr_id = ''command-result:'' @ identity_hash id (''o'', ''a'', k),
     cr_deploymentId = ''d'', cr_authorityEpoch = 1, cr_fencingToken = 2\<rparr>"

definition example_product_once :: product_db where
  "example_product_once = example_product\<lparr>pdb_states := [example_state_row 1 7],
     pdb_commandResults := [example_result_row ''k1'' 1], pdb_events := [pending_row ''o'' ''a'' (example_event ''e1'' ''k1'')]\<rparr>"

definition example_product_twice :: product_db where
  "example_product_twice = example_product\<lparr>pdb_states := [example_state_row 2 8],
     pdb_commandResults := [example_result_row ''k1'' 1, example_result_row ''k2'' 2],
     pdb_events := [pending_row ''o'' ''a'' (example_event ''e1'' ''k1''), pending_row ''o'' ''a'' (example_event ''e2'' ''k2'')]\<rparr>"

definition example_instant :: string where
  "example_instant = ''2026-01-01T00:02:30.000Z''"

lemma example_commits:
  "commitStateAndEvents id example_product (example_product_commit ''k1'' None 7 ''e1'') example_instant =
     Inr (example_product_once, \<lparr>cs_state = stateFromRow (example_state_row 1 7),
       cs_events = [eventFromRow (pending_row ''o'' ''a'' (example_event ''e1'' ''k1''))],
       cs_commandResult = commandResultFromRow (example_result_row ''k1'' 1), cs_replayed = False\<rparr>)"
  "commitStateAndEvents id example_product_once (example_product_commit ''k2'' (Some 1) 8 ''e2'') example_instant =
     Inr (example_product_twice, \<lparr>cs_state = stateFromRow (example_state_row 2 8),
       cs_events = [eventFromRow (pending_row ''o'' ''a'' (example_event ''e2'' ''k2''))],
       cs_commandResult = commandResultFromRow (example_result_row ''k2'' 2), cs_replayed = False\<rparr>)"
  by code_simp+

lemma example_fresh: "fresh_store example_product"
  by (simp add: fresh_store_def example_product_def)

lemma example_product_history:
  "(product_step id)\<^sup>*\<^sup>* example_product example_product_once" "(product_step id)\<^sup>*\<^sup>* example_product_once example_product_twice"
  "(product_step id)\<^sup>*\<^sup>* example_product example_product_twice"
  using commit_is_step [OF example_commits(1)] commit_is_step [OF example_commits(2)]
  by (blast intro: r_into_rtranclp rtranclp_trans)+

theorem state_history_gapless_witness:
  "map cr_stateRevision (filter (\<lambda>c. cr_stateKey c = ''s'' \<and> starts_with (cr_id c) ''command-result:'')
     (pdb_commandResults example_product_twice)) = [1, 2]"
proof -
  have "(case readState example_product_twice ''s'' of None \<Rightarrow> 0 | Some state \<Rightarrow> st_revision state) = 2" by code_simp
  with state_history_gapless [OF example_product_history(3) example_fresh, of "''s''"] show ?thesis
    by (simp add: upto.simps)
qed

theorem commit_takes_effect_once_witness:
  "\<exists>r2. commitStateAndEvents id example_product_twice (example_product_commit ''k1'' None 7 ''e1'') example_instant =
     Inr (example_product_twice, r2) \<and> cs_replayed r2 \<and> cs_commandResult r2 = commandResultFromRow (example_result_row ''k1'' 1)"
  using commit_takes_effect_once [OF rtranclp.rtrancl_refl example_fresh example_commits(1) example_product_history(2) refl,
      of example_instant]
  by (auto simp: example_product_commit_def example_command_def example_result_row_def commandResultFromRow_def)

definition example_claims :: "string \<Rightarrow> string \<Rightarrow> string \<Rightarrow> int \<Rightarrow> claim_events_input" where
  "example_claims c at expiry n = \<lparr>ce_ownerId = ''o'', ce_agentId = ''a'', ce_claimId = c, ce_claimedAt = at,
     ce_expiresAt = expiry, ce_limit = n\<rparr>"

definition example_product_claimed :: product_db where
  "example_product_claimed = example_product_twice\<lparr>pdb_events :=
     [(pending_row ''o'' ''a'' (example_event ''e1'' ''k1''))\<lparr>er_publicationState := pub_claimed, er_claimId := Some ''c1'',
        er_claimExpiresAt := Some ''2026-01-01T00:04:00.000Z''\<rparr>, pending_row ''o'' ''a'' (example_event ''e2'' ''k2'')]\<rparr>"

lemma example_claimed:
  "claimEvents example_product_twice (example_claims ''c1'' example_instant ''2026-01-01T00:04:00.000Z'' 1) =
     Inr (example_product_claimed, [\<lparr>ec_claimId = ''c1'', ec_expiresAt = ''2026-01-01T00:04:00.000Z'',
       ec_event = eventFromRow (pending_row ''o'' ''a'' (example_event ''e1'' ''k1''))\<rparr>])"
  by code_simp

theorem event_claim_exclusive_witness:
  "\<exists>db3 claims2. claimEvents example_product_claimed (example_claims ''c2'' ''2026-01-01T00:03:00.000Z'' ''2026-01-01T00:05:00.000Z'' 5) =
     Inr (db3, claims2) \<and> claims2 \<noteq> [] \<and> (\<forall>claim2 \<in> set claims2. ev_id (ec_event claim2) \<noteq> ''e1'')"
proof -
  let ?other = "example_claims ''c2'' ''2026-01-01T00:03:00.000Z'' ''2026-01-01T00:05:00.000Z'' 5"
  have "case claimEvents example_product_claimed ?other of Inl e \<Rightarrow> False | Inr (db3, claims2) \<Rightarrow> claims2 \<noteq> []" by code_simp
  then obtain db3 claims2 where c: "claimEvents example_product_claimed ?other = Inr (db3, claims2)" "claims2 \<noteq> []"
    by (auto split: sum.splits)
  have "ce_claimedAt ?other < ce_expiresAt (example_claims ''c1'' example_instant ''2026-01-01T00:04:00.000Z'' 1)" by code_simp
  from event_claim_exclusive [OF example_product_history(3) example_fresh example_claimed list.set_intros(1)
      rtranclp.rtrancl_refl c(1) this] c show ?thesis
    by (auto simp: pending_row_def example_event_def)
qed

definition example_sink :: "string list \<Rightarrow> reliable_event_record \<Rightarrow> sink_outcome result \<times> string list" where
  "example_sink log event = (if ev_id event \<in> set log then (Inr delivered_duplicate, log)
     else (Inr delivered_published, log @ [ev_id event]))"

definition broken_sink :: "string list \<Rightarrow> reliable_event_record \<Rightarrow> sink_outcome result \<times> string list" where
  "broken_sink log event = (if ev_id event = ''e2'' then (Inl OtherError, log) else example_sink log event)"

theorem publisher_marks_delivered_prefix_witness:
  "\<exists>db' sink'. publishPending broken_sink (\<lambda>_. example_instant) example_product_twice [] 10 = (db', sink', Inl OtherError) \<and>
     map ev_id (unpublished db') = [''e2'']"
proof -
  obtain db' sink' res where run: "publishPending broken_sink (\<lambda>_. example_instant) example_product_twice [] 10 = (db', sink', res)"
    by (metis prod_cases3)
  have "snd (snd (publishPending broken_sink (\<lambda>_. example_instant) example_product_twice [] 10)) = Inl OtherError" by code_simp
  with run have res: "res = Inl OtherError" by simp
  have two: "map ev_id (unpublished example_product_twice) = [''e1'', ''e2'']" by code_simp
  then have len: "length (unpublished example_product_twice) = 2" by (metis length_map length_Cons list.size(3) numeral_2_eq_2)
  have ids: "distinct (map ev_id (pdb_events example_product_twice))" by code_simp
  obtain j where j: "unpublished db' = drop j (unpublished example_product_twice)" "j < 2"
    "fst (broken_sink (run_sink broken_sink [] (take j (unpublished example_product_twice)))
       (eventFromRow (unpublished example_product_twice ! j))) = Inl OtherError"
    using publisher_marks_delivered_prefix [OF ids _ _ run] by (auto simp: res len)
  have "j \<noteq> 0"
  proof
    assume "j = 0"
    moreover have "fst (broken_sink [] (eventFromRow (unpublished example_product_twice ! 0))) \<noteq> Inl OtherError" by code_simp
    ultimately show False using j(3) by simp
  qed
  with j(2) have "j = 1" by simp
  with j(1) run res have "map ev_id (unpublished db') = drop 1 (map ev_id (unpublished example_product_twice))"
    by (simp add: drop_map)
  with two run res show ?thesis by auto
qed

theorem publisher_drains_outbox_witness:
  "let (db', log) = publish_rounds example_sink (\<lambda>_ _. example_instant) 1 2 example_product_twice []
   in unpublished db' = [] \<and> log = [''e1'', ''e2'']"
proof -
  obtain db' log where run: "publish_rounds example_sink (\<lambda>_ _. example_instant) 1 2 example_product_twice [] = (db', log)"
    by fastforce
  have a: "distinct (map ev_id (pdb_events example_product_twice))" "(0::int) < 1" "(1::int) \<le> 1000"
    "length (unpublished example_product_twice) \<le> 2 * nat 1"
    by code_simp+
  have ok: "\<not> isl (fst (example_sink k e))" for k e by (simp add: example_sink_def)
  have "run_sink example_sink [] (unpublished example_product_twice) = [''e1'', ''e2'']" by code_simp
  with publisher_drains_outbox [OF a(1-3) ok a(4) run] run show ?thesis by simp
qed

end
