(* ===== verification/Run_Commit.thy ===== *)
theory Run_Commit
  imports Product_State Run_State
begin

text \<open>
  The product-state Run lifecycle (\<open>packages/application/src/services/run-state-commit-coordinator.ts\<close>):
  a Run is kept as a JSON object under the key \<open>run:<id>\<close> and moved by commits of product state, with one
  reliable event per command. Every repository call is awaited, so other operations may run between two
  of them: an operation takes one store per call, in the order of the calls, and the clock is read once.
\<close>

section \<open>The port\<close>

text \<open>\<open>RunExecutionLeaseClaim\<close> (\<open>ports/run-dispatch.ts\<close>).\<close>

record execution_lease_claim =
  xc_executionLeaseId :: RunExecutionLeaseId
  xc_expectedLeaseRevision :: int
  xc_authorityLeaseId :: AuthorityLeaseId
  xc_authorityFencingToken :: int
  xc_deploymentId :: DeploymentId
  xc_authorityEpoch :: int
  xc_fencingToken :: int
  xc_consumerId :: string

text \<open>\<open>RunCommandContext\<close> and the inputs built on it (\<open>ports/run-lifecycle.ts\<close>).\<close>

record run_command =
  rcc_ownerId :: OwnerId
  rcc_agentId :: AgentId
  rcc_idempotencyKey :: IdempotencyKey
  rcc_commandFingerprint :: string
  rcc_authority :: authority_fence
  rcc_payloadRef :: string
  rcc_executionLease :: "execution_lease_claim option"

record run_input = run_command +
  rin_runId :: RunId
  rin_expectedRevision :: int

record transition_input = run_input +
  rin_nextStatus :: run_status

datatype successful_output = no_answer | assistant_answer string

record completion_input = run_input +
  rin_output :: successful_output
  rin_dataClassification :: product_data_classification

record stored_run =
  sr_run :: run
  sr_revision :: int

section \<open>Runs as JSON\<close>

fun run_status_text :: "run_status \<Rightarrow> string" where
  "run_status_text run_accepted = ''accepted''"
| "run_status_text run_building_context = ''building_context''"
| "run_status_text run_running = ''running''"
| "run_status_text run_awaiting_approval = ''awaiting_approval''"
| "run_status_text run_reconciling_external_result = ''reconciling_external_result''"
| "run_status_text run_completed = ''completed''"
| "run_status_text run_failed = ''failed''"
| "run_status_text run_cancelled = ''cancelled''"

definition run_status_of :: "string \<Rightarrow> run_status option" where
  "run_status_of text = List.find (\<lambda>s. run_status_text s = text) RUN_STATUSES"

definition runStateKey :: "RunId \<Rightarrow> string" where
  "runStateKey runId = ''run:'' @ runId"

definition serializedRun :: "run \<Rightarrow> json" where
  "serializedRun r = JObject
     ([(''id'', JString (run_id r)), (''ownerId'', JString (run_ownerId r)), (''agentId'', JString (run_agentId r)),
       (''sessionId'', JString (run_sessionId r)), (''triggerId'', JString (run_triggerId r))] @
      (case keep_truthy (run_threadId r) of None \<Rightarrow> [] | Some threadId \<Rightarrow> [(''threadId'', JString threadId)]) @
      [(''status'', JString (run_status_text (run_status r)))])"

definition requiredString :: "json option \<Rightarrow> string result" where
  "requiredString value = (case value of Some (JString s) \<Rightarrow> Inr s | _ \<Rightarrow> Inl type_error)"

fun readField :: "json \<Rightarrow> string \<Rightarrow> json option" where
  "readField (JObject entries) field = map_of entries field"
| "readField _ field = None"

definition stored_threadId :: "json option \<Rightarrow> string option result" where
  "stored_threadId value = (case value of
     None \<Rightarrow> Inr None
   | Some (JString s) \<Rightarrow> Inr (Some s)
   | Some _ \<Rightarrow> Inl type_error)"

definition optional_thread :: "string option \<Rightarrow> ThreadId option result" where
  "optional_thread value = (case keep_truthy value of
     None \<Rightarrow> Inr None
   | Some t \<Rightarrow> andThen (createThreadId t) (\<lambda>t. Inr (Some t)))"

definition deserializeRun :: "state_record \<Rightarrow> run result" where
  "deserializeRun record =
     (let value = st_value record in
     andThen (requiredString (readField value ''status'')) (\<lambda>status.
     case run_status_of status of None \<Rightarrow> Inl type_error | Some known \<Rightarrow>
     andThen (stored_threadId (readField value ''threadId'')) (\<lambda>threadId.
     andThen (andThen (requiredString (readField value ''id'')) createRunId) (\<lambda>id.
     andThen (andThen (requiredString (readField value ''ownerId'')) createOwnerId) (\<lambda>ownerId.
     andThen (andThen (requiredString (readField value ''agentId'')) createAgentId) (\<lambda>agentId.
     andThen (andThen (requiredString (readField value ''sessionId'')) createSessionId) (\<lambda>sessionId.
     andThen (andThen (requiredString (readField value ''triggerId'')) createTriggerId) (\<lambda>triggerId.
     andThen (optional_thread threadId) (\<lambda>threadId.
     Inr \<lparr>run_id = id, run_ownerId = ownerId, run_agentId = agentId, run_sessionId = sessionId,
          run_triggerId = triggerId, run_threadId = threadId, run_status = known\<rparr>)))))))))"

section \<open>The coordinator\<close>

definition readRunState :: "'a product_db_scheme \<Rightarrow> RunId \<Rightarrow> stored_run option result" where
  "readRunState db runId = (case readState db (runStateKey runId) of
     None \<Rightarrow> Inr None
   | Some state \<Rightarrow> andThen (deserializeRun state) (\<lambda>r. Inr (Some \<lparr>sr_run = r, sr_revision = st_revision state\<rparr>)))"

definition replay_command ::
  "'a product_db_scheme \<Rightarrow> 'b run_command_scheme \<Rightarrow> string \<Rightarrow> commit_result option result" where
  "replay_command db input commandType =
     andThen (findCommandCommit db (rcc_ownerId input, rcc_agentId input, rcc_idempotencyKey input) False) (\<lambda>found.
     case found of
       None \<Rightarrow> Inr None
     | Some existingCommit \<Rightarrow>
         andThen (ensure (cr_commandType (cs_commandResult existingCommit) = commandType \<and>
           cr_commandFingerprint (cs_commandResult existingCommit) = rcc_commandFingerprint input) conflict) (\<lambda>_.
         Inr (Some (existingCommit\<lparr>cs_replayed := True\<rparr>))))"

definition run_event :: "'b run_command_scheme \<Rightarrow> string \<Rightarrow> string \<Rightarrow> reliable_event" where
  "run_event input topic occurredAt = \<lparr>ev_id = ''event:'' @ rcc_idempotencyKey input,
     ev_idempotencyKey = rcc_idempotencyKey input, ev_topic = topic, ev_payloadRef = rcc_payloadRef input,
     ev_occurredAt = occurredAt\<rparr>"

text \<open>The final step of every command: replay once more in \<open>db1\<close>, then commit in \<open>db2\<close>.\<close>

definition commit_run ::
  "(string \<Rightarrow> string) \<Rightarrow> 'a product_db_scheme \<Rightarrow> 'a product_db_scheme \<Rightarrow> 'b run_command_scheme \<Rightarrow> string \<Rightarrow> RunId \<Rightarrow>
     int option \<Rightarrow> run \<Rightarrow> string \<Rightarrow> string \<Rightarrow> string \<Rightarrow> ('a product_db_scheme \<times> commit_result) result" where
  "commit_run sha256 db1 db2 input commandType runId expectedRevision r topic clock now =
     andThen (replay_command db1 input commandType) (\<lambda>replayed.
     case replayed of Some existing \<Rightarrow> Inr (db2, existing) | None \<Rightarrow>
     commitStateAndEvents sha256 db2
       \<lparr>cm_command = \<lparr>cmd_ownerId = rcc_ownerId input, cmd_agentId = rcc_agentId input,
          cmd_idempotencyKey = rcc_idempotencyKey input, cmd_commandType = commandType,
          cmd_commandFingerprint = rcc_commandFingerprint input, cmd_authority = rcc_authority input\<rparr>,
        cm_key = runStateKey runId, cm_expectedRevision = expectedRevision, cm_value = serializedRun r,
        cm_events = [run_event input topic clock], cm_resultRef = runStateKey runId, cm_committedAt = clock\<rparr> now)"

definition admitRun ::
  "(string \<Rightarrow> string) \<Rightarrow> 'a product_db_scheme \<Rightarrow> 'a product_db_scheme \<Rightarrow> 'b run_command_scheme \<Rightarrow> run \<Rightarrow> string \<Rightarrow> string \<Rightarrow>
     ('a product_db_scheme \<times> commit_result) result" where
  "admitRun sha256 db1 db2 context_input r clock now =
     andThen (ensure (run_status r = run_accepted) type_error) (\<lambda>_.
     commit_run sha256 db1 db2
       (context_input\<lparr>rcc_ownerId := run_ownerId r, rcc_agentId := run_agentId r\<rparr>)
       ''run.admit'' (run_id r) None r ''run.accepted'' clock now)"

definition run_transition ::
  "(string \<Rightarrow> string) \<Rightarrow> 'a product_db_scheme \<Rightarrow> 'a product_db_scheme \<Rightarrow> 'a product_db_scheme \<Rightarrow> 'a product_db_scheme \<Rightarrow>
     transition_input \<Rightarrow> string \<Rightarrow> string \<Rightarrow> ('a product_db_scheme \<times> commit_result) result" where
  "run_transition sha256 db0 db1 db2 db3 input clock now =
     andThen (replay_command db0 input ''run.transition'') (\<lambda>replayed.
     case replayed of Some existing \<Rightarrow> Inr (db3, existing) | None \<Rightarrow>
     andThen (readRunState db1 (rin_runId input)) (\<lambda>stored.
     case stored of None \<Rightarrow> port_fail NOT_FOUND | Some stored \<Rightarrow>
     andThen (ensure (run_ownerId (sr_run stored) = rcc_ownerId input \<and>
       run_agentId (sr_run stored) = rcc_agentId input) type_error) (\<lambda>_.
     andThen (transitionRun (sr_run stored) (rin_nextStatus input)) (\<lambda>nextRun.
     commit_run sha256 db2 db3 input ''run.transition'' (rin_runId input) (Some (rin_expectedRevision input)) nextRun
       (''run.'' @ run_status_text (rin_nextStatus input)) clock now))))"

definition cancelRun where
  "cancelRun sha256 db0 db1 db2 db3 input clock now =
     run_transition sha256 db0 db1 db2 db3
       (run_input.extend (run_input.truncate input) (transition_input.fields run_cancelled)) clock now"

definition output_json :: "successful_output \<Rightarrow> json" where
  "output_json output = (case output of
     no_answer \<Rightarrow> JObject [(''kind'', JString ''no-answer'')]
   | assistant_answer ref \<Rightarrow> JObject [(''kind'', JString ''assistant-answer''), (''contentRef'', JString ref)])"

definition completion_fingerprint :: "completion_input \<Rightarrow> string" where
  "completion_fingerprint input = stringify (JArray [JString ''run.complete'', JString (rcc_commandFingerprint input),
     output_json (rin_output input), JString (classification_string (rin_dataClassification input))])"

definition completeRun ::
  "(string \<Rightarrow> string) \<Rightarrow> 'a product_db_scheme \<Rightarrow> 'a product_db_scheme \<Rightarrow> 'a product_db_scheme \<Rightarrow> 'a product_db_scheme \<Rightarrow>
     'a product_db_scheme \<Rightarrow> completion_input \<Rightarrow> string \<Rightarrow> string \<Rightarrow> ('a product_db_scheme \<times> commit_result) result" where
  "completeRun sha256 db db0 db1 db2 db3 input clock now =
     andThen (readRunState db (rin_runId input)) (\<lambda>stored.
     case stored of None \<Rightarrow> port_fail NOT_FOUND | Some stored \<Rightarrow>
     andThen (ensure (\<not> (truthy (run_threadId (sr_run stored)) \<and> rin_output input = no_answer)) type_error) (\<lambda>_.
     andThen (ensure (case rin_output input of no_answer \<Rightarrow> True | assistant_answer ref \<Rightarrow> trim ref \<noteq> []) type_error) (\<lambda>_.
     run_transition sha256 db0 db1 db2 db3
       (run_input.extend ((run_input.truncate input)\<lparr>rcc_commandFingerprint := completion_fingerprint input\<rparr>)
         (transition_input.fields run_completed)) clock now)))"

section \<open>Facts\<close>

lemma run_status_of_text [simp]: "run_status_of (run_status_text s) = Some s"
  by (cases s) (simp_all add: run_status_of_def RUN_STATUSES_def)

definition valid_run :: "run \<Rightarrow> bool" where
  "valid_run r \<longleftrightarrow> MACHINE_IDENTIFIER_PATTERN (run_id r) \<and> MACHINE_IDENTIFIER_PATTERN (run_ownerId r) \<and>
     MACHINE_IDENTIFIER_PATTERN (run_agentId r) \<and> MACHINE_IDENTIFIER_PATTERN (run_sessionId r) \<and>
     MACHINE_IDENTIFIER_PATTERN (run_triggerId r) \<and>
     (case run_threadId r of None \<Rightarrow> True | Some t \<Rightarrow> MACHINE_IDENTIFIER_PATTERN t)"

lemma identifier_not_Nil: "MACHINE_IDENTIFIER_PATTERN s \<Longrightarrow> s \<noteq> []"
  by (auto simp: MACHINE_IDENTIFIER_PATTERN_def)

lemma optional_thread_valid: "optional_thread v = Inr x \<Longrightarrow> case x of None \<Rightarrow> True | Some t \<Rightarrow> MACHINE_IDENTIFIER_PATTERN t"
  by (auto simp: optional_thread_def createThreadId_def inverts split: option.splits)

lemma deserialize_valid: "deserializeRun s = Inr r \<Longrightarrow> valid_run r"
  unfolding deserializeRun_def Let_def
  by (elim andThenE) (clarsimp simp: valid_run_def create_id_defs optional_thread_valid elim!: andThenE split: option.split_asm)

lemmas run_json_defs = deserializeRun_def serializedRun_def requiredString_def stored_threadId_def optional_thread_def
  create_id_defs createIdentifier_def Let_def

lemma deserialize_serialized:
  assumes "valid_run r" "st_value s = serializedRun r"
  shows "deserializeRun s = Inr r"
proof (cases "run_threadId r")
  case None
  with assms show ?thesis by (simp add: run_json_defs valid_run_def)
next
  case (Some t)
  with assms have "t \<noteq> []" using identifier_not_Nil by (simp add: valid_run_def)
  with assms Some show ?thesis by (simp add: run_json_defs valid_run_def)
qed

section \<open>Properties\<close>

lemma fresh_commit:
  assumes "commitStateAndEvents sha256 db input now = Inr (db', r)" "\<not> cs_replayed r"
  shows "map_option st_revision (row_of st_key (cm_key input) (pdb_states db)) = cm_expectedRevision input \<and>
    readState db' (cm_key input) = Some \<lparr>st_key = cm_key input,
       st_revision = stored_revision db (cm_key input) + 1, st_value = cm_value input\<rparr> \<and>
    (\<forall>e \<in> set (cm_events input). \<not> has_row ev_id (ev_id e) (pdb_events db))"
  using assms(1)
proof (cases rule: commit_cases)
  case replayed
  then have "cs_replayed r" by (auto simp: replayExisting_def findCommandCommit_def inverts split: option.splits)
  with assms(2) show ?thesis by simp
next
  case (fresh lease d n)
  have checked: "check_events stored key seen es = Inr () \<Longrightarrow> e \<in> set es \<Longrightarrow> \<not> has_row ev_id (ev_id e) stored"
    for stored key seen es and e :: reliable_event
    by (induction es arbitrary: seen) (auto simp: inverts)
  have "st_key row = cm_key input" if "row_of st_key (cm_key input) (pdb_states db) = Some row" for row
    using row_of_SomeD [OF that] by simp
  then have "readState db' (cm_key input) = Some \<lparr>st_key = cm_key input,
       st_revision = stored_revision db (cm_key input) + 1, st_value = cm_value input\<rparr>"
    by (auto simp: readState_def fresh(3,8) row_of_state_written stateFromRow_def stored_revision_def new_state_row_def
        split: option.splits)
  with fresh(4) checked [OF fresh(6)] show ?thesis by blast
qed

lemma transitionRun_Inr:
  "transitionRun r nxt = Inr r' \<longleftrightarrow> nxt \<in> set (ALLOWED_TRANSITIONS (run_status r)) \<and> r' = r\<lparr>run_status := nxt\<rparr>"
  by (cases "run_status r") (auto simp: transitionRun_def TERMINAL_RUN_STATUSES_def)

lemma replay_command_replayed: "replay_command db input c = Inr (Some r) \<Longrightarrow> cs_replayed r"
  by (auto simp: replay_command_def inverts split: option.splits)

lemma commit_run_fresh:
  assumes "commit_run sha256 db1 db2 input c runId e r topic clock now = Inr (db', res)" "\<not> cs_replayed res"
  shows "map_option st_revision (row_of st_key (runStateKey runId) (pdb_states db2)) = e"
    "readState db' (runStateKey runId) = Some \<lparr>st_key = runStateKey runId,
       st_revision = stored_revision db2 (runStateKey runId) + 1, st_value = serializedRun r\<rparr>"
    "\<not> has_row ev_id (''event:'' @ rcc_idempotencyKey input) (pdb_events db2)"
proof -
  from assms obtain cin where c: "commitStateAndEvents sha256 db2 cin now = Inr (db', res)"
    "cm_key cin = runStateKey runId" "cm_expectedRevision cin = e" "cm_value cin = serializedRun r"
    "cm_events cin = [run_event input topic clock]"
    by (auto simp: commit_run_def dest!: replay_command_replayed split: option.splits elim!: andThenE)
  from fresh_commit [OF c(1) assms(2)] c(2-5) show
    "map_option st_revision (row_of st_key (runStateKey runId) (pdb_states db2)) = e"
    "readState db' (runStateKey runId) = Some \<lparr>st_key = runStateKey runId,
       st_revision = stored_revision db2 (runStateKey runId) + 1, st_value = serializedRun r\<rparr>"
    "\<not> has_row ev_id (''event:'' @ rcc_idempotencyKey input) (pdb_events db2)" by (simp_all add: run_event_def)
qed

lemma readRunState_Some:
  "readRunState db runId = Inr (Some s) \<longleftrightarrow> (\<exists>row r. row_of st_key (runStateKey runId) (pdb_states db) = Some row \<and>
     deserializeRun (stateFromRow row) = Inr r \<and> s = \<lparr>sr_run = r, sr_revision = st_revision row\<rparr>)"
  by (auto simp: readRunState_def readState_def stateFromRow_def inverts split: option.splits)

lemma run_transition_fresh:
  assumes "run_transition sha256 db0 db1 db2 db3 input clock now = Inr (db4, res)" "\<not> cs_replayed res"
  obtains stored nextRun where "readRunState db1 (rin_runId input) = Inr (Some stored)"
    "transitionRun (sr_run stored) (rin_nextStatus input) = Inr nextRun"
    "commit_run sha256 db2 db3 input ''run.transition'' (rin_runId input) (Some (rin_expectedRevision input)) nextRun
       (''run.'' @ run_status_text (rin_nextStatus input)) clock now = Inr (db4, res)"
  using assms
  by (auto simp: run_transition_def dest!: replay_command_replayed split: option.splits elim!: andThenE)

text \<open>
  A transition follows the table: when the caller names a revision that was already stored when the
  coordinator read the Run, an accepted transition moved the Run from the very status that was stored at
  the commit, along an allowed transition, to the next revision, whatever else ran between the reads and
  the commit.
\<close>

theorem run_transition_follows_table:
  assumes between: "(product_step sha256)\<^sup>*\<^sup>* db1 db2" "(product_step sha256)\<^sup>*\<^sup>* db2 db3"
    and moved: "run_transition sha256 db0 db1 db2 db3 input clock now = Inr (db4, res)" "\<not> cs_replayed res"
    and seen: "readRunState db1 (rin_runId input) = Inr (Some seen)" "rin_expectedRevision input \<le> sr_revision seen"
  shows "\<exists>old. readRunState db3 (rin_runId input) = Inr (Some \<lparr>sr_run = old, sr_revision = rin_expectedRevision input\<rparr>) \<and>
    rin_nextStatus input \<in> set (ALLOWED_TRANSITIONS (run_status old)) \<and>
    readRunState db4 (rin_runId input) = Inr (Some \<lparr>sr_run = old\<lparr>run_status := rin_nextStatus input\<rparr>,
      sr_revision = rin_expectedRevision input + 1\<rparr>)"
proof -
  from run_transition_fresh [OF moved] seen(1) obtain nextRun where
    n: "transitionRun (sr_run seen) (rin_nextStatus input) = Inr nextRun" and
    commit: "commit_run sha256 db2 db3 input ''run.transition'' (rin_runId input) (Some (rin_expectedRevision input)) nextRun
       (''run.'' @ run_status_text (rin_nextStatus input)) clock now = Inr (db4, res)" by auto
  from seen(1) obtain row where row: "row_of st_key (runStateKey (rin_runId input)) (pdb_states db1) = Some row"
    "deserializeRun (stateFromRow row) = Inr (sr_run seen)" "sr_revision seen = st_revision row"
    unfolding readRunState_Some by auto
  note c = commit_run_fresh [OF commit moved(2)]
  from product_states.history_advances [OF rtranclp_trans [OF between] row(1)] obtain row3 where row3:
    "row_of st_key (runStateKey (rin_runId input)) (pdb_states db3) = Some row3" "row3 = row \<or> st_revision row < st_revision row3"
    by blast
  with c(1) seen(2) row(3) have same: "row3 = row" "st_revision row = rin_expectedRevision input" by auto
  have "readRunState db3 (rin_runId input) = Inr (Some \<lparr>sr_run = sr_run seen, sr_revision = rin_expectedRevision input\<rparr>)"
    using row3 row(2) same unfolding readRunState_Some by auto
  moreover have next_run: "rin_nextStatus input \<in> set (ALLOWED_TRANSITIONS (run_status (sr_run seen)))"
      "nextRun = (sr_run seen)\<lparr>run_status := rin_nextStatus input\<rparr>"
    using n by (simp_all add: transitionRun_Inr)
  moreover have "readRunState db4 (rin_runId input) = Inr (Some \<lparr>sr_run = nextRun, sr_revision = rin_expectedRevision input + 1\<rparr>)"
  proof -
    have "valid_run nextRun" using deserialize_valid [OF row(2)] next_run(2) by (simp add: valid_run_def)
    from deserialize_serialized [OF this] c(2) row3(1) same show ?thesis
      by (simp add: readRunState_def stored_revision_def)
  qed
  ultimately show ?thesis by blast
qed

text \<open>
  C30. What is admitted is read back: a Run with valid identifiers that is newly admitted is stored at
  revision 1 and decodes from its JSON to exactly the Run that was given.
\<close>

theorem admitted_run_reads_back:
  assumes "admitRun sha256 db1 db2 context_input r clock now = Inr (db3, res)" "\<not> cs_replayed res" "valid_run r"
  shows "readRunState db3 (run_id r) = Inr (Some \<lparr>sr_run = r, sr_revision = 1\<rparr>)"
proof -
  from assms(1) have commit: "commit_run sha256 db1 db2 (context_input\<lparr>rcc_ownerId := run_ownerId r, rcc_agentId := run_agentId r\<rparr>)
       ''run.admit'' (run_id r) None r ''run.accepted'' clock now = Inr (db3, res)"
    by (auto simp: admitRun_def inverts)
  note c = commit_run_fresh [OF commit assms(2)]
  have "stored_revision db2 (runStateKey (run_id r)) = 0" using c(1) by (simp add: stored_revision_def)
  with c(2) deserialize_serialized [OF assms(3)] show ?thesis by (simp add: readRunState_def)
qed

text \<open>
  The event of a command is named by its idempotency key alone: a command of one Agent cannot be
  committed when another Agent has used the same key, although results are kept per owner and Agent.
\<close>

theorem idempotency_key_shared_by_agents:
  assumes "has_row ev_id (''event:'' @ rcc_idempotencyKey input) (pdb_events db2)"
    and "commit_run sha256 db1 db2 input c runId e r topic clock now = Inr (db', res)"
  shows "cs_replayed res"
  using commit_run_fresh(3) [OF assms(2)] assms(1) by blast

section \<open>Concrete instances\<close>

definition example_run :: run where
  "example_run = \<lparr>run_id = ''r1'', run_ownerId = ''o'', run_agentId = ''a'', run_sessionId = ''s1'', run_triggerId = ''t1'',
     run_threadId = None, run_status = run_accepted\<rparr>"

definition example_context :: "string \<Rightarrow> run_command" where
  "example_context k = \<lparr>rcc_ownerId = ''o'', rcc_agentId = ''a'', rcc_idempotencyKey = k, rcc_commandFingerprint = ''f'',
     rcc_authority = \<lparr>af_leaseId = ''l2'', af_fencingToken = 2\<rparr>, rcc_payloadRef = ''p'', rcc_executionLease = None\<rparr>"

definition example_move :: "string \<Rightarrow> int \<Rightarrow> run_status \<Rightarrow> transition_input" where
  "example_move k n s = run_input.extend (run_command.extend (example_context k) (run_input.fields ''r1'' n))
     (transition_input.fields s)"

definition stored_by :: "('a product_db_scheme \<times> commit_result) result \<Rightarrow> 'a product_db_scheme \<Rightarrow> 'a product_db_scheme" where
  "stored_by res db = (case res of Inl _ \<Rightarrow> db | Inr (db', _) \<Rightarrow> db')"

definition example_admitted_run :: product_db where
  "example_admitted_run = stored_by (admitRun id example_product example_product (example_context ''k1'') example_run example_instant example_instant)
     example_product"

definition example_failed :: product_db where
  "example_failed = stored_by (run_transition id example_admitted_run example_admitted_run example_admitted_run example_admitted_run
     (example_move ''k2'' 1 run_failed) example_instant example_instant) example_admitted_run"

lemma fresh_result:
  "(case res of Inl e \<Rightarrow> False | Inr (db', r) \<Rightarrow> \<not> cs_replayed r) \<Longrightarrow>
     \<exists>r. res = Inr (stored_by res db, r) \<and> \<not> cs_replayed r"
  by (auto simp: stored_by_def split: sum.splits)

theorem admitted_run_reads_back_witness:
  "readRunState example_admitted_run ''r1'' = Inr (Some \<lparr>sr_run = example_run, sr_revision = 1\<rparr>)"
proof -
  have "case admitRun id example_product example_product (example_context ''k1'') example_run example_instant example_instant of
    Inl e \<Rightarrow> False | Inr (db', r) \<Rightarrow> \<not> cs_replayed r" by code_simp
  from fresh_result [OF this, of example_product] obtain r where
    "admitRun id example_product example_product (example_context ''k1'') example_run example_instant example_instant = Inr (example_admitted_run, r)"
    "\<not> cs_replayed r" unfolding example_admitted_run_def by blast
  from admitted_run_reads_back [OF this] show ?thesis
    by (simp add: example_run_def valid_run_def MACHINE_IDENTIFIER_PATTERN_def is_alnum_def is_identifier_char_def)
qed

text \<open>
  The revision that the status was checked against is not the one that is committed: a caller that names
  the next revision in advance cancels a Run that failed in between, out of a terminal status.
\<close>

theorem future_revision_leaves_terminal_status:
  "\<exists>db4 r. run_transition id example_admitted_run example_admitted_run example_failed example_failed (example_move ''k3'' 2 run_cancelled)
       example_instant example_instant = Inr (db4, r) \<and> \<not> cs_replayed r \<and>
     readRunState example_failed ''r1'' = Inr (Some \<lparr>sr_run = example_run\<lparr>run_status := run_failed\<rparr>, sr_revision = 2\<rparr>) \<and>
     readRunState db4 ''r1'' = Inr (Some \<lparr>sr_run = example_run\<lparr>run_status := run_cancelled\<rparr>, sr_revision = 3\<rparr>)"
proof -
  let ?res = "run_transition id example_admitted_run example_admitted_run example_failed example_failed (example_move ''k3'' 2 run_cancelled)
       example_instant example_instant"
  have "case ?res of Inl e \<Rightarrow> False | Inr (db4, r) \<Rightarrow> \<not> cs_replayed r \<and>
     readRunState db4 ''r1'' = Inr (Some \<lparr>sr_run = example_run\<lparr>run_status := run_cancelled\<rparr>, sr_revision = 3\<rparr>)"
    by code_simp
  moreover have "readRunState example_failed ''r1'' = Inr (Some \<lparr>sr_run = example_run\<lparr>run_status := run_failed\<rparr>, sr_revision = 2\<rparr>)"
    by code_simp
  ultimately show ?thesis by (auto split: sum.splits)
qed

end
