(* ===== verification/Thread_Store.thy ===== *)
theory Thread_Store
  imports Product_State Product_Thread
begin

text \<open>
  Conversations in the SQLite store
  (\<open>packages/persistence-sqlite/src/sqlite-thread-operations.ts\<close>): threads and their fork lineage, the
  messages with the Runs and turns they open and close, command receipts, the gateway events a client
  follows by cursor, deletion requests and the search projections.

  The database of \<open>Product_State\<close> is extended by the thread tables. A mutating operation is one
  immediate transaction. Table constraints (migrations 0001, 0015, 0016) are written out where an
  operation can meet them and raise \<open>OtherError\<close>. A JSON column holds the value it was written from.
  \<open>PORT_STALE_FENCE\<close>, the code of a stale fence here, is not among the port's error codes
  (\<open>PORT_ERROR_CODES\<close>); it is \<open>OtherError\<close> as well.
\<close>

section \<open>Rows\<close>

datatype physical_status = th_open | th_trashed | th_deletion_pending | th_deleted_verified

record thread_row =
  tr_id :: ThreadId
  tr_ownerId :: OwnerId
  tr_agentId :: AgentId
  tr_revision :: int
  tr_status :: physical_status
  tr_titleRef :: "string option"
  tr_titleSource :: "title_source option"
  tr_titleRevision :: int
  tr_pinOrder :: "int option"
  tr_answerLocale :: answer_locale
  tr_messageWatermark :: int
  tr_archivedAt :: "string option"
  tr_trashedAt :: "string option"
  tr_createdAt :: string
  tr_updatedAt :: string

text \<open>A frozen native history: the artifact it refers to and the state of its Run.\<close>

record runtime_history =
  rh_runId :: RunId
  rh_operationKey :: string
  rh_payloadRef :: string
  rh_dataClassification :: product_data_classification
  rh_status :: run_status

record lineage_row =
  li_threadId :: ThreadId
  li_ownerId :: OwnerId
  li_agentId :: AgentId
  li_sourceThreadId :: "ThreadId option"
  li_sourceTurnId :: "TurnId option"
  li_sourceThreadMarker :: string
  li_sourceTurnMarker :: string
  li_sourceWatermark :: int
  li_summaryRefs :: "string list"
  li_policyRefs :: "string list"
  li_sourceContentAvailable :: bool
  li_forkedAt :: string
  li_runtimeHistory :: "runtime_history option"

record thread_receipt =
  tm_commandId :: string
  tm_idempotencyKey :: IdempotencyKey
  tm_commandType :: string
  tm_semanticFingerprint :: string
  tm_threadId :: ThreadId
  tm_threadRevision :: int
  tm_resultRef :: string
  tm_committedAt :: string

record receipt_row = thread_receipt +
  tm_ownerId :: OwnerId
  tm_agentId :: AgentId

record gateway_event =
  ge_cursorSequence :: int
  ge_cursor :: string
  ge_eventId :: string
  ge_ownerId :: OwnerId
  ge_agentId :: AgentId
  ge_authority :: product_authority_fence
  ge_threadId :: ThreadId
  ge_revision :: int
  ge_causationCommandId :: string
  ge_eventType :: string
  ge_payloadRef :: "string option"
  ge_occurredAt :: string

datatype source_kind = src_user_message | src_schedule | src_external_event

record trigger_row =
  tg_id :: TriggerId
  tg_ownerId :: OwnerId
  tg_agentId :: AgentId
  tg_threadId :: "ThreadId option"
  tg_idempotencyKey :: IdempotencyKey
  tg_sourceType :: source_kind
  tg_sourceId :: string
  tg_payloadRef :: string
  tg_sourceProofRef :: string
  tg_occurredAt :: string

record artifact_row =
  ra_ownerId :: OwnerId
  ra_agentId :: AgentId
  ra_runId :: RunId
  ra_purpose :: string
  ra_operationKey :: string
  ra_payloadRef :: string
  ra_classification :: product_data_classification
  ra_historySequence :: int

record model_selection =
  ms_modelRef :: string
  ms_thinkingLevel :: string

record search_row =
  sp_ownerId :: OwnerId
  sp_agentId :: AgentId
  sp_threadId :: ThreadId
  sp_messageId :: MessageId
  sp_sequence :: int
  sp_classification :: product_data_classification
  sp_tokenRef :: string
  sp_projectionVersion :: string

record title_search_row =
  tp_ownerId :: OwnerId
  tp_agentId :: AgentId
  tp_threadId :: ThreadId
  tp_titleRevision :: int
  tp_classification :: product_data_classification
  tp_tokenRef :: string
  tp_projectionVersion :: string

text \<open>A sandbox execution of a Run: the mode of its plan and the supervision of its resource.\<close>

record sandbox_row =
  sb_ownerId :: OwnerId
  sb_agentId :: AgentId
  sb_runId :: RunId
  sb_mode :: string
  sb_supervision :: "string option"

text \<open>\<open>runs.model_selection_json\<close> is a column of its own here, keyed by the Run.\<close>

record thread_db = product_db +
  th_threads :: "thread_row list"
  th_lineages :: "lineage_row list"
  th_messages :: "product_thread_message list"
  th_receipts :: "receipt_row list"
  th_gatewayEvents :: "gateway_event list"
  th_triggers :: "trigger_row list"
  th_artifacts :: "artifact_row list"
  th_modelSelections :: "(RunId \<times> model_selection) list"
  th_search :: "search_row list"
  th_titleSearch :: "title_search_row list"
  th_sandboxes :: "sandbox_row list"

abbreviation db_runs :: "'a product_db_scheme \<Rightarrow> run_state_row list" where
  "db_runs db \<equiv> wdb_runs (pdb_work db)"

abbreviation db_turns :: "'a product_db_scheme \<Rightarrow> turn_row list" where
  "db_turns db \<equiv> wdb_turns (pdb_work db)"

abbreviation stale_fence :: error where
  "stale_fence \<equiv> OtherError"

section \<open>Reads\<close>

definition lineage :: "thread_db \<Rightarrow> ThreadId \<Rightarrow> thread_fork_lineage option" where
  "lineage db threadId = map_option (\<lambda>row.
     \<lparr>fork_sourceThreadId = (case li_sourceThreadId row of None \<Rightarrow> li_sourceThreadMarker row | Some t \<Rightarrow> t),
      fork_sourceTurnId = (case li_sourceTurnId row of None \<Rightarrow> li_sourceTurnMarker row | Some t \<Rightarrow> t),
      fork_sourceWatermark = li_sourceWatermark row,
      fork_summaryRefs = (if li_sourceContentAvailable row then li_summaryRefs row else []),
      fork_policyRefs = li_policyRefs row,
      fork_sourceContentAvailable = li_sourceContentAvailable row,
      fork_forkedAt = li_forkedAt row\<rparr>) (row_of li_threadId threadId (th_lineages db))"

fun product_status :: "physical_status \<Rightarrow> string option \<Rightarrow> thread_status" where
  "product_status th_open archivedAt = (if archivedAt = None then thread_active else thread_archived)"
| "product_status th_trashed archivedAt = thread_trashed"
| "product_status th_deletion_pending archivedAt = thread_deletion_pending"
| "product_status th_deleted_verified archivedAt = thread_deleted_verified"

definition fromThreadRow :: "thread_db \<Rightarrow> thread_row \<Rightarrow> product_thread" where
  "fromThreadRow db row =
     \<lparr>pt_id = tr_id row, pt_ownerId = tr_ownerId row, pt_agentId = tr_agentId row,
      pt_revision = tr_revision row, pt_status = product_status (tr_status row) (tr_archivedAt row),
      pt_titleRef = tr_titleRef row, pt_titleSource = tr_titleSource row,
      pt_titleRevision = tr_titleRevision row, pt_pinOrder = tr_pinOrder row,
      pt_answerLocale = tr_answerLocale row, pt_messageWatermark = tr_messageWatermark row,
      pt_lineage = lineage db (tr_id row), pt_createdAt = tr_createdAt row,
      pt_updatedAt = tr_updatedAt row\<rparr>"

definition thread_in_scope :: "thread_db \<Rightarrow> OwnerId \<Rightarrow> AgentId \<Rightarrow> ThreadId \<Rightarrow> thread_row option" where
  "thread_in_scope db ownerId agentId threadId = List.find (\<lambda>r. tr_id r = threadId \<and>
     tr_ownerId r = ownerId \<and> tr_agentId r = agentId) (th_threads db)"

definition readThread :: "thread_db \<Rightarrow> OwnerId \<Rightarrow> AgentId \<Rightarrow> ThreadId \<Rightarrow> product_thread option" where
  "readThread db ownerId agentId threadId =
     map_option (fromThreadRow db) (thread_in_scope db ownerId agentId threadId)"

definition receiptFromRow :: "receipt_row \<Rightarrow> thread_receipt" where
  "receiptFromRow row = \<lparr>tm_commandId = tm_commandId row, tm_idempotencyKey = tm_idempotencyKey row,
     tm_commandType = tm_commandType row, tm_semanticFingerprint = tm_semanticFingerprint row,
     tm_threadId = tm_threadId row, tm_threadRevision = tm_threadRevision row,
     tm_resultRef = tm_resultRef row, tm_committedAt = tm_committedAt row\<rparr>"

definition receipt_key :: "receipt_row \<Rightarrow> OwnerId \<times> AgentId \<times> IdempotencyKey" where
  "receipt_key r = (tm_ownerId r, tm_agentId r, tm_idempotencyKey r)"

definition findReceipt :: "thread_db \<Rightarrow> OwnerId \<Rightarrow> AgentId \<Rightarrow> IdempotencyKey \<Rightarrow> thread_receipt option" where
  "findReceipt db ownerId agentId key =
     map_option receiptFromRow (row_of receipt_key (ownerId, agentId, key) (th_receipts db))"

definition replay_receipt ::
  "thread_db \<Rightarrow> OwnerId \<Rightarrow> AgentId \<Rightarrow> IdempotencyKey \<Rightarrow> string \<Rightarrow> string \<Rightarrow> thread_receipt option result" where
  "replay_receipt db ownerId agentId key commandType semanticFingerprint =
     (case findReceipt db ownerId agentId key of
        None \<Rightarrow> Inr None
      | Some receipt \<Rightarrow>
          andThen (ensure (tm_commandType receipt = commandType \<and>
            tm_semanticFingerprint receipt = semanticFingerprint) conflict) (\<lambda>_. Inr (Some receipt)))"

definition thread_authority :: "thread_db \<Rightarrow> OwnerId \<Rightarrow> AgentId \<Rightarrow> product_authority_fence \<Rightarrow> unit result" where
  "thread_authority db ownerId agentId authority =
     ensure (list_ex (\<lambda>d. dep_id d = fence_deploymentId authority \<and> dep_ownerId d = ownerId \<and>
       dep_agentId d = agentId \<and> dep_status d = dep_active \<and>
       dep_authorityEpoch d = fence_authorityEpoch authority \<and>
       dep_fencingToken d = fence_fencingToken authority) (wdb_deployments (pdb_work db))) stale_fence"

definition active_payload :: "'a product_db_scheme \<Rightarrow> OwnerId \<Rightarrow> AgentId \<Rightarrow> string \<Rightarrow> stored_payload option" where
  "active_payload db ownerId agentId ref = List.find (\<lambda>p. py_ref p = ref \<and> py_ownerId p = ownerId \<and>
     py_agentId p = agentId \<and> spl_lifecycle p = pay_active) (pdb_payloads db)"

definition assertPayload :: "'a product_db_scheme \<Rightarrow> OwnerId \<Rightarrow> AgentId \<Rightarrow> string \<Rightarrow> unit result" where
  "assertPayload db ownerId agentId ref = ensure (active_payload db ownerId agentId ref \<noteq> None) type_error"

fun physicalStatus :: "thread_status \<Rightarrow> physical_status" where
  "physicalStatus thread_active = th_open"
| "physicalStatus thread_archived = th_open"
| "physicalStatus thread_trashed = th_trashed"
| "physicalStatus thread_deletion_pending = th_deletion_pending"
| "physicalStatus thread_deleted_verified = th_deleted_verified"

section \<open>Gateway events and receipts\<close>

definition max_cursor :: "gateway_event list \<Rightarrow> int" where
  "max_cursor events = foldr max (map ge_cursorSequence events) 0"

definition appendGatewayEvent :: "thread_db \<Rightarrow> gateway_event \<Rightarrow> thread_db result" where
  "appendGatewayEvent db event =
     (let cursorSequence = max_cursor (th_gatewayEvents db) + 1;
          row = event\<lparr>ge_cursorSequence := cursorSequence,
                      ge_cursor := ''thread-cursor:'' @ show_int cursorSequence\<rparr> in
     andThen (ensure (\<not> has_row ge_cursorSequence cursorSequence (th_gatewayEvents db) \<and>
       \<not> has_row ge_cursor (ge_cursor row) (th_gatewayEvents db) \<and>
       \<not> has_row ge_eventId (ge_eventId row) (th_gatewayEvents db) \<and>
       has_row tr_id (ge_threadId row) (th_threads db) \<and>
       1 \<le> fence_authorityEpoch (ge_authority row) \<and> 1 \<le> fence_fencingToken (ge_authority row) \<and>
       1 \<le> ge_revision row) OtherError) (\<lambda>_.
     Inr (db\<lparr>th_gatewayEvents := th_gatewayEvents db @ [row]\<rparr>)))"

record receipt_input =
  wr_ownerId :: OwnerId
  wr_agentId :: AgentId
  wr_idempotencyKey :: IdempotencyKey
  wr_commandType :: string
  wr_semanticFingerprint :: string
  wr_threadId :: ThreadId
  wr_threadRevision :: int
  wr_resultRef :: string
  wr_committedAt :: string
  wr_authority :: product_authority_fence

definition new_receipt :: "receipt_input \<Rightarrow> receipt_row" where
  "new_receipt input =
     \<lparr>tm_commandId = ''thread-command:'' @ wr_idempotencyKey input,
      tm_idempotencyKey = wr_idempotencyKey input, tm_commandType = wr_commandType input,
      tm_semanticFingerprint = wr_semanticFingerprint input, tm_threadId = wr_threadId input,
      tm_threadRevision = wr_threadRevision input, tm_resultRef = wr_resultRef input,
      tm_committedAt = wr_committedAt input, tm_ownerId = wr_ownerId input, tm_agentId = wr_agentId input\<rparr>"

definition insert_receipt :: "thread_db \<Rightarrow> receipt_row \<Rightarrow> thread_db result" where
  "insert_receipt db row =
     andThen (ensure (\<not> has_row tm_commandId (tm_commandId row) (th_receipts db) \<and>
       \<not> has_row receipt_key (receipt_key row) (th_receipts db) \<and>
       has_row tr_id (tm_threadId row) (th_threads db) \<and> 1 \<le> tm_threadRevision row \<and>
       has_row py_ref (tm_resultRef row) (pdb_payloads db)) OtherError) (\<lambda>_.
     Inr (db\<lparr>th_receipts := th_receipts db @ [row]\<rparr>))"

definition thread_changed_event :: "receipt_input \<Rightarrow> reliable_event" where
  "thread_changed_event input =
     \<lparr>ev_id = ''thread-event:'' @ wr_idempotencyKey input, ev_idempotencyKey = wr_idempotencyKey input,
      ev_topic = ''thread.changed'', ev_payloadRef = wr_resultRef input, ev_occurredAt = wr_committedAt input\<rparr>"

definition receipt_event :: "receipt_input \<Rightarrow> gateway_event" where
  "receipt_event input =
     \<lparr>ge_cursorSequence = 0, ge_cursor = [], ge_eventId = ''thread-event:'' @ wr_idempotencyKey input,
      ge_ownerId = wr_ownerId input, ge_agentId = wr_agentId input, ge_authority = wr_authority input,
      ge_threadId = wr_threadId input, ge_revision = wr_threadRevision input,
      ge_causationCommandId = ''thread-command:'' @ wr_idempotencyKey input,
      ge_eventType = wr_commandType input, ge_payloadRef = Some (wr_resultRef input),
      ge_occurredAt = wr_committedAt input\<rparr>"

definition writeReceipt :: "thread_db \<Rightarrow> receipt_input \<Rightarrow> (thread_db \<times> thread_receipt) result" where
  "writeReceipt db input =
     andThen (insert_receipt db (new_receipt input)) (\<lambda>db1.
     andThen (insert_event (wr_ownerId input) (wr_agentId input) (thread_changed_event input) db1) (\<lambda>db2.
     andThen (appendGatewayEvent db2 (receipt_event input)) (\<lambda>db3.
     Inr (db3, receiptFromRow (new_receipt input)))))"

section \<open>Creating and updating threads\<close>

text \<open>The CHECK and FOREIGN KEY constraints of a stored row of \<open>threads\<close>.\<close>

definition thread_checks :: "thread_db \<Rightarrow> thread_row \<Rightarrow> bool" where
  "thread_checks db r \<longleftrightarrow> 0 \<le> tr_revision r \<and> 0 \<le> tr_titleRevision r \<and>
     (case tr_pinOrder r of None \<Rightarrow> True | Some p \<Rightarrow> 0 \<le> p) \<and> 0 \<le> tr_messageWatermark r \<and>
     (case tr_titleRef r of None \<Rightarrow> True | Some ref \<Rightarrow> has_row py_ref ref (pdb_payloads db))"

definition thread_row_of :: "product_thread \<Rightarrow> thread_row" where
  "thread_row_of thread =
     \<lparr>tr_id = pt_id thread, tr_ownerId = pt_ownerId thread, tr_agentId = pt_agentId thread,
      tr_revision = pt_revision thread, tr_status = physicalStatus (pt_status thread),
      tr_titleRef = pt_titleRef thread, tr_titleSource = pt_titleSource thread,
      tr_titleRevision = pt_titleRevision thread, tr_pinOrder = pt_pinOrder thread,
      tr_answerLocale = pt_answerLocale thread, tr_messageWatermark = pt_messageWatermark thread,
      tr_archivedAt = (if pt_status thread = thread_archived then Some (pt_updatedAt thread) else None),
      tr_trashedAt = (if pt_status thread = thread_trashed then Some (pt_updatedAt thread) else None),
      tr_createdAt = pt_createdAt thread, tr_updatedAt = pt_updatedAt thread\<rparr>"

definition insertThread :: "thread_db \<Rightarrow> product_thread \<Rightarrow> thread_db result" where
  "insertThread db thread =
     andThen (ensure (\<not> has_row tr_id (pt_id thread) (th_threads db) \<and> thread_checks db (thread_row_of thread))
       OtherError) (\<lambda>_.
     Inr (db\<lparr>th_threads := th_threads db @ [thread_row_of thread]\<rparr>))"

text \<open>\<open>UPDATE threads SET ... WHERE ...\<close>, with the number of changed rows.\<close>

definition update_threads ::
  "thread_db \<Rightarrow> (thread_row \<Rightarrow> bool) \<Rightarrow> (thread_row \<Rightarrow> thread_row) \<Rightarrow> (thread_db \<times> nat) result" where
  "update_threads db selected change =
     andThen (ensure (list_all (\<lambda>r. selected r \<longrightarrow> thread_checks db (change r)) (th_threads db)) OtherError) (\<lambda>_.
     Inr (db\<lparr>th_threads := map (\<lambda>r. if selected r then change r else r) (th_threads db)\<rparr>,
          length (filter selected (th_threads db))))"

record create_input =
  tc_thread :: product_thread
  tc_idempotencyKey :: IdempotencyKey
  tc_semanticFingerprint :: string
  tc_resultRef :: string
  tc_authority :: product_authority_fence

definition create_receipt :: "create_input \<Rightarrow> receipt_input" where
  "create_receipt input =
     \<lparr>wr_ownerId = pt_ownerId (tc_thread input), wr_agentId = pt_agentId (tc_thread input),
      wr_idempotencyKey = tc_idempotencyKey input, wr_commandType = ''thread.create'',
      wr_semanticFingerprint = tc_semanticFingerprint input, wr_threadId = pt_id (tc_thread input),
      wr_threadRevision = pt_revision (tc_thread input), wr_resultRef = tc_resultRef input,
      wr_committedAt = pt_createdAt (tc_thread input), wr_authority = tc_authority input\<rparr>"

definition create_thread ::
  "thread_db \<Rightarrow> create_input \<Rightarrow> (thread_db \<times> product_thread \<times> thread_receipt) result" where
  "create_thread db input =
     (let thread = tc_thread input; ow = pt_ownerId thread; ag = pt_agentId thread in
     andThen (ensure (headroom db) conflict) (\<lambda>_.
     andThen (replay_receipt db ow ag (tc_idempotencyKey input) ''thread.create'' (tc_semanticFingerprint input)) (\<lambda>replay.
     case replay of
       Some receipt \<Rightarrow>
         (case readThread db ow ag (tm_threadId receipt) of
            None \<Rightarrow> port_fail NOT_FOUND
          | Some stored \<Rightarrow> Inr (db, stored, receipt))
     | None \<Rightarrow>
         andThen (thread_authority db ow ag (tc_authority input)) (\<lambda>_.
         andThen (assertPayload db ow ag (tc_resultRef input)) (\<lambda>_.
         andThen (insertThread db thread) (\<lambda>db1.
         andThen (writeReceipt db1 (create_receipt input)) (\<lambda>(db2, receipt).
         Inr (db2, thread, receipt))))))))"

record update_input =
  tu_ownerId :: OwnerId
  tu_agentId :: AgentId
  tu_thread :: product_thread
  tu_expectedRevision :: int
  tu_commandType :: string
  tu_idempotencyKey :: IdempotencyKey
  tu_semanticFingerprint :: string
  tu_resultRef :: string
  tu_authority :: product_authority_fence

text \<open>The columns an update writes; identity, owner, agent and creation time stay.\<close>

definition written_thread :: "product_thread \<Rightarrow> thread_row \<Rightarrow> thread_row" where
  "written_thread thread r = (thread_row_of thread)\<lparr>tr_id := tr_id r, tr_ownerId := tr_ownerId r,
     tr_agentId := tr_agentId r, tr_createdAt := tr_createdAt r\<rparr>"

definition update_receipt :: "update_input \<Rightarrow> receipt_input" where
  "update_receipt input =
     \<lparr>wr_ownerId = tu_ownerId input, wr_agentId = tu_agentId input,
      wr_idempotencyKey = tu_idempotencyKey input, wr_commandType = tu_commandType input,
      wr_semanticFingerprint = tu_semanticFingerprint input, wr_threadId = pt_id (tu_thread input),
      wr_threadRevision = pt_revision (tu_thread input), wr_resultRef = tu_resultRef input,
      wr_committedAt = pt_updatedAt (tu_thread input), wr_authority = tu_authority input\<rparr>"

definition update_thread ::
  "thread_db \<Rightarrow> update_input \<Rightarrow> (thread_db \<times> product_thread \<times> thread_receipt) result" where
  "update_thread db input =
     (let thread = tu_thread input; ow = tu_ownerId input; ag = tu_agentId input in
     andThen (ensure (headroom db) conflict) (\<lambda>_.
     andThen (replay_receipt db ow ag (tu_idempotencyKey input) (tu_commandType input) (tu_semanticFingerprint input)) (\<lambda>replay.
     case replay of
       Some receipt \<Rightarrow>
         (case readThread db ow ag (tm_threadId receipt) of
            None \<Rightarrow> port_fail NOT_FOUND
          | Some stored \<Rightarrow> Inr (db, stored, receipt))
     | None \<Rightarrow>
         andThen (thread_authority db ow ag (tu_authority input)) (\<lambda>_.
         andThen (assertPayload db ow ag (tu_resultRef input)) (\<lambda>_.
         andThen (case keep_truthy (pt_titleRef thread) of
                    None \<Rightarrow> Inr () | Some ref \<Rightarrow> assertPayload db ow ag ref) (\<lambda>_.
         andThen (update_threads db (\<lambda>r. tr_id r = pt_id thread \<and> tr_ownerId r = ow \<and> tr_agentId r = ag \<and>
                    tr_revision r = tu_expectedRevision input) (written_thread thread)) (\<lambda>(db1, changes).
         andThen (ensure (changes = 1) conflict) (\<lambda>_.
         andThen (writeReceipt db1 (update_receipt input)) (\<lambda>(db2, receipt).
         Inr (db2, thread, receipt))))))))))"

section \<open>Tasks bound to a thread, and its deletion\<close>

datatype task_status = task_active | task_paused | task_cancelled

fun task_status_of :: "job_status \<Rightarrow> task_status" where
  "task_status_of job_active = task_active"
| "task_status_of job_paused = task_paused"
| "task_status_of job_cancelled = task_cancelled"

record task_binding =
  tb_taskId :: string
  tb_revision :: int
  tb_threadId :: ThreadId
  tb_status :: task_status

definition taskBindingFromRow :: "scheduled_job \<Rightarrow> task_binding result" where
  "taskBindingFromRow job = (case sj_threadId job of
     None \<Rightarrow> Inl type_error
   | Some t \<Rightarrow> Inr \<lparr>tb_taskId = sj_id job, tb_revision = sj_revision job, tb_threadId = t,
                    tb_status = task_status_of (sj_status job)\<rparr>)"

definition taskRow :: "thread_db \<Rightarrow> string \<Rightarrow> scheduled_job option" where
  "taskRow db taskId = row_of sj_id taskId (wdb_jobs (pdb_work db))"

record deletion_impact =
  im_threadId :: ThreadId
  im_threadRevision :: int
  im_associatedTasks :: "task_binding list"
  im_activeTaskIds :: "string list"

definition bound_tasks :: "thread_db \<Rightarrow> OwnerId \<Rightarrow> AgentId \<Rightarrow> ThreadId \<Rightarrow> scheduled_job list" where
  "bound_tasks db ownerId agentId threadId = sort_key sj_id (filter (\<lambda>j. sj_ownerId j = ownerId \<and>
     sj_agentId j = agentId \<and> sj_threadId j = Some threadId) (wdb_jobs (pdb_work db)))"

definition task_binding_of :: "ThreadId \<Rightarrow> scheduled_job \<Rightarrow> task_binding" where
  "task_binding_of threadId job = \<lparr>tb_taskId = sj_id job, tb_revision = sj_revision job,
     tb_threadId = threadId, tb_status = task_status_of (sj_status job)\<rparr>"

definition inspectDeletionImpact :: "thread_db \<Rightarrow> OwnerId \<Rightarrow> AgentId \<Rightarrow> ThreadId \<Rightarrow> deletion_impact result" where
  "inspectDeletionImpact db ownerId agentId threadId =
     (case readThread db ownerId agentId threadId of
        None \<Rightarrow> port_fail NOT_FOUND
      | Some thread \<Rightarrow>
          let tasks = map (task_binding_of threadId) (bound_tasks db ownerId agentId threadId) in
          Inr \<lparr>im_threadId = threadId, im_threadRevision = pt_revision thread,
               im_associatedTasks = tasks,
               im_activeTaskIds = map tb_taskId (filter (\<lambda>t. tb_status t = task_active) tasks)\<rparr>)"

datatype task_resolution = pause_task | cancel_task | rebind_task ThreadId

record resolve_input =
  rt_ownerId :: OwnerId
  rt_agentId :: AgentId
  rt_threadId :: ThreadId
  rt_taskId :: string
  rt_expectedTaskRevision :: int
  rt_resolution :: task_resolution
  rt_idempotencyKey :: IdempotencyKey
  rt_semanticFingerprint :: string
  rt_resultRef :: string
  rt_resolvedAt :: string
  rt_authority :: product_authority_fence

text \<open>The thread and status a resolution gives a task.\<close>

definition resolved_binding ::
  "thread_db \<Rightarrow> resolve_input \<Rightarrow> scheduled_job \<Rightarrow> (ThreadId \<times> job_status) result" where
  "resolved_binding db input job =
     (case rt_resolution input of
        pause_task \<Rightarrow> andThen (ensure (sj_status job = job_active) conflict) (\<lambda>_.
          Inr (rt_threadId input, job_paused))
      | cancel_task \<Rightarrow> andThen (ensure (sj_status job \<noteq> job_cancelled) conflict) (\<lambda>_.
          Inr (rt_threadId input, job_cancelled))
      | rebind_task target \<Rightarrow>
          andThen (ensure (target \<noteq> rt_threadId input) type_error) (\<lambda>_.
          andThen (ensure (case readThread db (rt_ownerId input) (rt_agentId input) target of
             None \<Rightarrow> False | Some t \<Rightarrow> pt_status t = thread_active \<or> pt_status t = thread_archived) type_error) (\<lambda>_.
          Inr (target, sj_status job))))"

definition write_job :: "thread_db \<Rightarrow> resolve_input \<Rightarrow> scheduled_job \<Rightarrow> thread_db" where
  "write_job db input next = db\<lparr>pdb_work := (pdb_work db)\<lparr>wdb_jobs := map (\<lambda>j.
     if sj_id j = rt_taskId input \<and> sj_ownerId j = rt_ownerId input \<and> sj_agentId j = rt_agentId input \<and>
        sj_revision j = rt_expectedTaskRevision input then next else j) (wdb_jobs (pdb_work db))\<rparr>\<rparr>"

definition resolve_receipt :: "resolve_input \<Rightarrow> int \<Rightarrow> receipt_input" where
  "resolve_receipt input revision =
     \<lparr>wr_ownerId = rt_ownerId input, wr_agentId = rt_agentId input,
      wr_idempotencyKey = rt_idempotencyKey input, wr_commandType = ''thread.task.resolve'',
      wr_semanticFingerprint = rt_semanticFingerprint input, wr_threadId = rt_threadId input,
      wr_threadRevision = revision, wr_resultRef = rt_resultRef input,
      wr_committedAt = rt_resolvedAt input, wr_authority = rt_authority input\<rparr>"

definition resolved_outcome ::
  "thread_db \<Rightarrow> resolve_input \<Rightarrow> thread_receipt \<Rightarrow> (thread_db \<times> deletion_impact \<times> task_binding \<times> thread_receipt) result" where
  "resolved_outcome db input receipt =
     (case taskRow db (rt_taskId input) of
        None \<Rightarrow> port_fail NOT_FOUND
      | Some job \<Rightarrow>
          andThen (ensure (sj_threadId job \<noteq> None) (ApplicationPortError NOT_FOUND)) (\<lambda>_.
          andThen (inspectDeletionImpact db (rt_ownerId input) (rt_agentId input) (rt_threadId input)) (\<lambda>impact.
          andThen (taskBindingFromRow job) (\<lambda>task. Inr (db, impact, task, receipt)))))"

definition resolveDeletionTask ::
  "thread_db \<Rightarrow> resolve_input \<Rightarrow> (thread_db \<times> deletion_impact \<times> task_binding \<times> thread_receipt) result" where
  "resolveDeletionTask db input =
     (let ow = rt_ownerId input; ag = rt_agentId input in
     andThen (ensure (headroom db) conflict) (\<lambda>_.
     andThen (replay_receipt db ow ag (rt_idempotencyKey input) ''thread.task.resolve'' (rt_semanticFingerprint input)) (\<lambda>replay.
     case replay of
       Some receipt \<Rightarrow> resolved_outcome db input receipt
     | None \<Rightarrow>
         andThen (thread_authority db ow ag (rt_authority input)) (\<lambda>_.
         andThen (assertPayload db ow ag (rt_resultRef input)) (\<lambda>_.
         case readThread db ow ag (rt_threadId input) of None \<Rightarrow> port_fail NOT_FOUND | Some source \<Rightarrow>
         (case taskRow db (rt_taskId input) of None \<Rightarrow> Inl type_error | Some current \<Rightarrow>
         andThen (ensure (sj_threadId current = Some (rt_threadId input)) type_error) (\<lambda>_.
         andThen (ensure (sj_revision current = rt_expectedTaskRevision input) conflict) (\<lambda>_.
         andThen (resolved_binding db input current) (\<lambda>(threadId, status).
         let next = current\<lparr>sj_revision := sj_revision current + 1, sj_threadId := Some threadId, sj_status := status\<rparr> in
         andThen (writeReceipt (write_job db input next) (resolve_receipt input (pt_revision source))) (\<lambda>(db2, receipt).
         resolved_outcome db2 input receipt))))))))))"

datatype deletion_mode = mode_trash | mode_permanent

record deletion_input =
  rd_ownerId :: OwnerId
  rd_agentId :: AgentId
  rd_threadId :: ThreadId
  rd_expectedThreadRevision :: int
  rd_mode :: deletion_mode
  rd_authorizationRef :: "string option"
  rd_recentAuthenticationRef :: "string option"
  rd_idempotencyKey :: IdempotencyKey
  rd_semanticFingerprint :: string
  rd_resultRef :: string
  rd_requestedAt :: string
  rd_authority :: product_authority_fence

fun deletion_command :: "deletion_mode \<Rightarrow> string" where
  "deletion_command mode_trash = ''thread.trash''"
| "deletion_command mode_permanent = ''thread.delete_permanently''"

definition deletable :: "deletion_mode \<Rightarrow> thread_status \<Rightarrow> bool" where
  "deletable mode status \<longleftrightarrow> status \<in> {thread_active, thread_archived} \<or>
     mode = mode_permanent \<and> status = thread_trashed"

definition deletion_row :: "deletion_input \<Rightarrow> int \<Rightarrow> thread_row \<Rightarrow> thread_row" where
  "deletion_row input revision r = r\<lparr>tr_revision := revision,
     tr_status := (if rd_mode input = mode_trash then th_trashed else th_deletion_pending), tr_archivedAt := None,
     tr_trashedAt := (if rd_mode input = mode_trash then Some (rd_requestedAt input) else None),
     tr_updatedAt := rd_requestedAt input\<rparr>"

definition deletion_receipt :: "deletion_input \<Rightarrow> int \<Rightarrow> receipt_input" where
  "deletion_receipt input revision =
     \<lparr>wr_ownerId = rd_ownerId input, wr_agentId = rd_agentId input,
      wr_idempotencyKey = rd_idempotencyKey input, wr_commandType = deletion_command (rd_mode input),
      wr_semanticFingerprint = rd_semanticFingerprint input, wr_threadId = rd_threadId input,
      wr_threadRevision = revision, wr_resultRef = rd_resultRef input,
      wr_committedAt = rd_requestedAt input, wr_authority = rd_authority input\<rparr>"

definition requestDeletion ::
  "thread_db \<Rightarrow> deletion_input \<Rightarrow> (thread_db \<times> product_thread \<times> deletion_impact \<times> thread_receipt) result" where
  "requestDeletion db input =
     (let ow = rd_ownerId input; ag = rd_agentId input; threadId = rd_threadId input in
     andThen (ensure (headroom db) conflict) (\<lambda>_.
     andThen (replay_receipt db ow ag (rd_idempotencyKey input) (deletion_command (rd_mode input)) (rd_semanticFingerprint input)) (\<lambda>replay.
     case replay of
       Some receipt \<Rightarrow>
         (case readThread db ow ag threadId of
            None \<Rightarrow> port_fail NOT_FOUND
          | Some thread \<Rightarrow>
              andThen (inspectDeletionImpact db ow ag threadId) (\<lambda>impact. Inr (db, thread, impact, receipt)))
     | None \<Rightarrow>
         andThen (thread_authority db ow ag (rd_authority input)) (\<lambda>_.
         andThen (assertPayload db ow ag (rd_resultRef input)) (\<lambda>_.
         andThen (ensure (rd_mode input = mode_permanent \<longrightarrow>
           truthy (rd_authorizationRef input) \<and> truthy (rd_recentAuthenticationRef input)) type_error) (\<lambda>_.
         case readThread db ow ag threadId of None \<Rightarrow> port_fail NOT_FOUND | Some current \<Rightarrow>
         andThen (ensure (pt_revision current = rd_expectedThreadRevision input) conflict) (\<lambda>_.
         andThen (inspectDeletionImpact db ow ag threadId) (\<lambda>impact.
         andThen (ensure (im_activeTaskIds impact = []) conflict) (\<lambda>_.
         andThen (ensure (deletable (rd_mode input) (pt_status current)) type_error) (\<lambda>_.
         let thread = current\<lparr>pt_revision := pt_revision current + 1,
               pt_status := (if rd_mode input = mode_trash then thread_trashed else thread_deletion_pending),
               pt_updatedAt := rd_requestedAt input\<rparr> in
         andThen (update_threads db (\<lambda>r. tr_id r = threadId \<and> tr_ownerId r = ow \<and> tr_agentId r = ag \<and>
                    tr_revision r = rd_expectedThreadRevision input)
                    (deletion_row input (pt_revision thread))) (\<lambda>(db1, changes).
         andThen (ensure (changes = 1) conflict) (\<lambda>_.
         let db2 = db1\<lparr>th_search := filter (\<lambda>s. sp_threadId s \<noteq> threadId) (th_search db1),
                       th_titleSearch := filter (\<lambda>s. tp_threadId s \<noteq> threadId) (th_titleSearch db1)\<rparr> in
         andThen (writeReceipt db2 (deletion_receipt input (pt_revision thread))) (\<lambda>(db3, receipt).
         andThen (inspectDeletionImpact db3 ow ag threadId) (\<lambda>impact'.
         Inr (db3, thread, impact', receipt)))))))))))))))"

section \<open>Messages\<close>

definition readMessage ::
  "thread_db \<Rightarrow> OwnerId \<Rightarrow> AgentId \<Rightarrow> ThreadId \<Rightarrow> MessageId \<Rightarrow> product_thread_message option" where
  "readMessage db ownerId agentId threadId i = List.find (\<lambda>m. msg_id m = i \<and> msg_ownerId m = ownerId \<and>
     msg_agentId m = agentId \<and> msg_threadId m = threadId) (th_messages db)"

record admit_input =
  ad_modelSelection :: "model_selection option"
  ad_ownerId :: OwnerId
  ad_agentId :: AgentId
  ad_threadId :: ThreadId
  ad_expectedThreadRevision :: int
  ad_messageId :: MessageId
  ad_turnId :: TurnId
  ad_triggerId :: TriggerId
  ad_runId :: RunId
  ad_sessionId :: SessionId
  ad_idempotencyKey :: IdempotencyKey
  ad_semanticFingerprint :: string
  ad_contentRef :: string
  ad_sourceProofRef :: string
  ad_dataClassification :: product_data_classification
  ad_occurredAt :: string
  ad_resultRef :: string
  ad_authority :: product_authority_fence

definition admitted_trigger :: "admit_input \<Rightarrow> trigger_row" where
  "admitted_trigger input =
     \<lparr>tg_id = ad_triggerId input, tg_ownerId = ad_ownerId input, tg_agentId = ad_agentId input,
      tg_threadId = Some (ad_threadId input), tg_idempotencyKey = ad_idempotencyKey input,
      tg_sourceType = src_user_message, tg_sourceId = ad_messageId input, tg_payloadRef = ad_contentRef input,
      tg_sourceProofRef = ad_sourceProofRef input, tg_occurredAt = ad_occurredAt input\<rparr>"

definition admitted_run :: "admit_input \<Rightarrow> run_state_row" where
  "admitted_run input =
     \<lparr>rs_id = ad_runId input, rs_ownerId = ad_ownerId input, rs_agentId = ad_agentId input,
      rs_threadId = Some (ad_threadId input), rs_sessionId = ad_sessionId input,
      rs_triggerId = ad_triggerId input, rs_revision = 1, rs_status = run_accepted,
      rs_createdAt = ad_occurredAt input, rs_updatedAt = ad_occurredAt input\<rparr>"

definition admitted_turn :: "admit_input \<Rightarrow> int \<Rightarrow> turn_row" where
  "admitted_turn input turnIndex =
     \<lparr>tn_id = ad_turnId input, tn_ownerId = ad_ownerId input, tn_agentId = ad_agentId input,
      tn_threadId = Some (ad_threadId input), tn_sessionId = ad_sessionId input,
      tn_runId = ad_runId input, tn_turnIndex = turnIndex, tn_committedAt = None\<rparr>"

definition admitted_message :: "admit_input \<Rightarrow> int \<Rightarrow> product_thread_message" where
  "admitted_message input seq =
     \<lparr>msg_id = ad_messageId input, msg_ownerId = ad_ownerId input, msg_agentId = ad_agentId input,
      msg_threadId = ad_threadId input, msg_turnId = Some (ad_turnId input), msg_runId = Some (ad_runId input),
      msg_sequence = seq, msg_role = role_owner, msg_contentRef = ad_contentRef input,
      msg_dataClassification = ad_dataClassification input, msg_status = msg_committed,
      msg_committedAt = ad_occurredAt input\<rparr>"

text \<open>The trigger payload of the new Run, as later joins over triggers and payloads return it.\<close>

definition admitted_input_row :: "admit_input \<Rightarrow> product_data_classification \<Rightarrow> run_input_row" where
  "admitted_input_row input classification =
     \<lparr>ri_runId = ad_runId input, ri_ownerId = ad_ownerId input, ri_agentId = ad_agentId input,
      ri_classification = classification\<rparr>"

definition insert_trigger :: "thread_db \<Rightarrow> trigger_row \<Rightarrow> thread_db result" where
  "insert_trigger db row =
     andThen (ensure (\<not> has_row tg_id (tg_id row) (th_triggers db) \<and>
       \<not> has_row (\<lambda>t. (tg_ownerId t, tg_agentId t, tg_idempotencyKey t))
          (tg_ownerId row, tg_agentId row, tg_idempotencyKey row) (th_triggers db) \<and>
       has_row py_ref (tg_payloadRef row) (pdb_payloads db)) OtherError) (\<lambda>_.
     Inr (db\<lparr>th_triggers := th_triggers db @ [row]\<rparr>))"

definition insert_run :: "thread_db \<Rightarrow> run_state_row \<Rightarrow> run_input_row \<Rightarrow> thread_db result" where
  "insert_run db row inputRow =
     andThen (ensure (\<not> has_row rs_id (rs_id row) (db_runs db) \<and>
       \<not> has_row rs_triggerId (rs_triggerId row) (db_runs db)) OtherError) (\<lambda>_.
     Inr (db\<lparr>pdb_work := (pdb_work db)\<lparr>wdb_runs := db_runs db @ [row],
            wdb_runInputs := wdb_runInputs (pdb_work db) @ [inputRow]\<rparr>\<rparr>))"

definition insert_turn :: "thread_db \<Rightarrow> turn_row \<Rightarrow> thread_db result" where
  "insert_turn db row =
     andThen (ensure (\<not> has_row tn_id (tn_id row) (db_turns db) \<and>
       \<not> has_row (\<lambda>t. (tn_runId t, tn_turnIndex t)) (tn_runId row, tn_turnIndex row) (db_turns db) \<and>
       0 \<le> tn_turnIndex row) OtherError) (\<lambda>_.
     Inr (db\<lparr>pdb_work := (pdb_work db)\<lparr>wdb_turns := db_turns db @ [row]\<rparr>\<rparr>))"

definition insert_message :: "thread_db \<Rightarrow> product_thread_message \<Rightarrow> thread_db result" where
  "insert_message db row =
     andThen (ensure (\<not> has_row msg_id (msg_id row) (th_messages db) \<and>
       \<not> has_row (\<lambda>m. (msg_threadId m, msg_sequence m)) (msg_threadId row, msg_sequence row) (th_messages db) \<and>
       1 \<le> msg_sequence row \<and> has_row py_ref (msg_contentRef row) (pdb_payloads db)) OtherError) (\<lambda>_.
     Inr (db\<lparr>th_messages := th_messages db @ [row]\<rparr>))"

definition select_model :: "thread_db \<Rightarrow> RunId \<Rightarrow> model_selection option \<Rightarrow> thread_db" where
  "select_model db runId selection = (case selection of
     None \<Rightarrow> db
   | Some s \<Rightarrow> db\<lparr>th_modelSelections := th_modelSelections db @ [(runId, s)]\<rparr>)"

text \<open>\<open>UPDATE threads SET revision, message_watermark, updated_at WHERE id AND revision\<close>.\<close>

definition advance_thread :: "thread_db \<Rightarrow> ThreadId \<Rightarrow> int \<Rightarrow> int \<Rightarrow> string \<Rightarrow> thread_db result" where
  "advance_thread db threadId revision watermark at =
     andThen (update_threads db (\<lambda>r. tr_id r = threadId \<and> tr_revision r = revision)
       (\<lambda>r. r\<lparr>tr_revision := revision + 1, tr_messageWatermark := watermark, tr_updatedAt := at\<rparr>))
     (\<lambda>(db', changes). Inr db')"

definition message_outcome ::
  "thread_db \<Rightarrow> OwnerId \<Rightarrow> AgentId \<Rightarrow> ThreadId \<Rightarrow> ThreadId \<Rightarrow> MessageId \<Rightarrow> thread_receipt \<Rightarrow>
     (thread_db \<times> product_thread \<times> product_thread_message \<times> thread_receipt) result" where
  "message_outcome db ow ag readId threadId messageId receipt =
     (case (readThread db ow ag readId, readMessage db ow ag threadId messageId) of
        (Some thread, Some message) \<Rightarrow> Inr (db, thread, message, receipt)
      | _ \<Rightarrow> port_fail NOT_FOUND)"

definition admit_receipt :: "admit_input \<Rightarrow> int \<Rightarrow> receipt_input" where
  "admit_receipt input revision =
     \<lparr>wr_ownerId = ad_ownerId input, wr_agentId = ad_agentId input,
      wr_idempotencyKey = ad_idempotencyKey input, wr_commandType = ''thread.message.submit'',
      wr_semanticFingerprint = ad_semanticFingerprint input, wr_threadId = ad_threadId input,
      wr_threadRevision = revision, wr_resultRef = ad_resultRef input,
      wr_committedAt = ad_occurredAt input, wr_authority = ad_authority input\<rparr>"

text \<open>The thread a message goes to: active, at the revision the caller expects.\<close>

definition active_thread :: "thread_db \<Rightarrow> OwnerId \<Rightarrow> AgentId \<Rightarrow> ThreadId \<Rightarrow> int \<Rightarrow> product_thread result" where
  "active_thread db ow ag threadId expectedRevision =
     (case readThread db ow ag threadId of
        None \<Rightarrow> Inl conflict
      | Some current \<Rightarrow>
          andThen (ensure (pt_status current = thread_active \<and> pt_revision current = expectedRevision) conflict) (\<lambda>_.
          Inr current))"

definition admit_rows ::
  "thread_db \<Rightarrow> admit_input \<Rightarrow> product_data_classification \<Rightarrow> int \<Rightarrow> thread_db result" where
  "admit_rows db input classification seq =
     andThen (insert_trigger db (admitted_trigger input)) (\<lambda>db1.
     andThen (insert_run db1 (admitted_run input) (admitted_input_row input classification)) (\<lambda>db2.
     andThen (insert_turn (select_model db2 (ad_runId input) (ad_modelSelection input)) (admitted_turn input seq)) (\<lambda>db3.
     insert_message db3 (admitted_message input seq))))"

definition admitOwnerMessage ::
  "thread_db \<Rightarrow> admit_input \<Rightarrow> (thread_db \<times> product_thread \<times> product_thread_message \<times> thread_receipt) result" where
  "admitOwnerMessage db input =
     (let ow = ad_ownerId input; ag = ad_agentId input; threadId = ad_threadId input in
     andThen (ensure (headroom db) conflict) (\<lambda>_.
     andThen (replay_receipt db ow ag (ad_idempotencyKey input) ''thread.message.submit'' (ad_semanticFingerprint input)) (\<lambda>replay.
     case replay of
       Some receipt \<Rightarrow> message_outcome db ow ag (tm_threadId receipt) threadId (ad_messageId input) receipt
     | None \<Rightarrow>
         andThen (thread_authority db ow ag (ad_authority input)) (\<lambda>_.
         case active_payload db ow ag (ad_contentRef input) of None \<Rightarrow> Inl type_error | Some content \<Rightarrow>
         andThen (assertPayload db ow ag (ad_resultRef input)) (\<lambda>_.
         andThen (ensure (\<not> has_row st_key (''run:'' @ ad_runId input) (pdb_states db)) conflict) (\<lambda>_.
         andThen (active_thread db ow ag threadId (ad_expectedThreadRevision input)) (\<lambda>current.
         let seq = pt_messageWatermark current + 1 in
         andThen (admit_rows db input (spl_classification content) seq) (\<lambda>db1.
         andThen (advance_thread db1 threadId (pt_revision current) seq (ad_occurredAt input)) (\<lambda>db2.
         andThen (writeReceipt db2 (admit_receipt input (pt_revision current + 1))) (\<lambda>(db3, receipt).
         message_outcome db3 ow ag threadId threadId (ad_messageId input) receipt))))))))))"

record assistant_input =
  as_ownerId :: OwnerId
  as_agentId :: AgentId
  as_threadId :: ThreadId
  as_expectedThreadRevision :: int
  as_messageId :: MessageId
  as_turnId :: TurnId
  as_runId :: RunId
  as_idempotencyKey :: IdempotencyKey
  as_semanticFingerprint :: string
  as_contentRef :: string
  as_dataClassification :: product_data_classification
  as_committedAt :: string
  as_resultRef :: string
  as_authority :: product_authority_fence

definition assistant_message :: "assistant_input \<Rightarrow> int \<Rightarrow> product_thread_message" where
  "assistant_message input seq =
     \<lparr>msg_id = as_messageId input, msg_ownerId = as_ownerId input, msg_agentId = as_agentId input,
      msg_threadId = as_threadId input, msg_turnId = Some (as_turnId input), msg_runId = Some (as_runId input),
      msg_sequence = seq, msg_role = role_agent, msg_contentRef = as_contentRef input,
      msg_dataClassification = as_dataClassification input, msg_status = msg_committed,
      msg_committedAt = as_committedAt input\<rparr>"

definition assistant_receipt :: "assistant_input \<Rightarrow> int \<Rightarrow> receipt_input" where
  "assistant_receipt input revision =
     \<lparr>wr_ownerId = as_ownerId input, wr_agentId = as_agentId input,
      wr_idempotencyKey = as_idempotencyKey input, wr_commandType = ''thread.message.commit_assistant'',
      wr_semanticFingerprint = as_semanticFingerprint input, wr_threadId = as_threadId input,
      wr_threadRevision = revision, wr_resultRef = as_resultRef input,
      wr_committedAt = as_committedAt input, wr_authority = as_authority input\<rparr>"

text \<open>The Run a message answers: in the thread, with its turn, and not ended.\<close>

definition open_run :: "thread_db \<Rightarrow> assistant_input \<Rightarrow> bool" where
  "open_run db input \<longleftrightarrow>
     list_ex (\<lambda>r. rs_id r = as_runId input \<and> rs_ownerId r = as_ownerId input \<and> rs_agentId r = as_agentId input \<and>
       rs_threadId r = Some (as_threadId input) \<and>
       rs_status r \<notin> {run_completed, run_failed, run_cancelled}) (db_runs db) \<and>
     list_ex (\<lambda>t. tn_id t = as_turnId input \<and> tn_runId t = as_runId input \<and>
       tn_threadId t = Some (as_threadId input)) (db_turns db)"

definition close_run :: "thread_db \<Rightarrow> assistant_input \<Rightarrow> thread_db" where
  "close_run db input = db\<lparr>pdb_work := (pdb_work db)\<lparr>
     wdb_turns := map (\<lambda>t. if tn_id t = as_turnId input then t\<lparr>tn_committedAt := Some (as_committedAt input)\<rparr> else t)
       (db_turns db),
     wdb_runs := map (\<lambda>r. if rs_id r = as_runId input
       then r\<lparr>rs_status := run_completed, rs_revision := rs_revision r + 1, rs_updatedAt := as_committedAt input\<rparr>
       else r) (db_runs db)\<rparr>\<rparr>"

definition commitAssistantMessage ::
  "thread_db \<Rightarrow> assistant_input \<Rightarrow> (thread_db \<times> product_thread \<times> product_thread_message \<times> thread_receipt) result" where
  "commitAssistantMessage db input =
     (let ow = as_ownerId input; ag = as_agentId input; threadId = as_threadId input in
     andThen (ensure (headroom db) conflict) (\<lambda>_.
     andThen (replay_receipt db ow ag (as_idempotencyKey input) ''thread.message.commit_assistant''
                (as_semanticFingerprint input)) (\<lambda>replay.
     case replay of
       Some receipt \<Rightarrow> message_outcome db ow ag (tm_threadId receipt) threadId (as_messageId input) receipt
     | None \<Rightarrow>
         andThen (thread_authority db ow ag (as_authority input)) (\<lambda>_.
         andThen (assertPayload db ow ag (as_contentRef input)) (\<lambda>_.
         andThen (assertPayload db ow ag (as_resultRef input)) (\<lambda>_.
         andThen (active_thread db ow ag threadId (as_expectedThreadRevision input)) (\<lambda>current.
         andThen (ensure (open_run db input) type_error) (\<lambda>_.
         let seq = pt_messageWatermark current + 1 in
         andThen (insert_message db (assistant_message input seq)) (\<lambda>db1.
         andThen (advance_thread (close_run db1 input) threadId (pt_revision current) seq (as_committedAt input)) (\<lambda>db2.
         andThen (writeReceipt db2 (assistant_receipt input (pt_revision current + 1))) (\<lambda>(db3, receipt).
         message_outcome db3 ow ag threadId threadId (as_messageId input) receipt)))))))))))"

section \<open>Forks\<close>

definition thread_messages ::
  "thread_db \<Rightarrow> OwnerId \<Rightarrow> AgentId \<Rightarrow> ThreadId \<Rightarrow> product_thread_message list" where
  "thread_messages db ownerId agentId threadId = filter (\<lambda>m. msg_ownerId m = ownerId \<and>
     msg_agentId m = agentId \<and> msg_threadId m = threadId) (th_messages db)"

text \<open>
  The Runs of the committed messages up to a watermark, the Run of the latest message first
  (\<open>GROUP BY run_id ORDER BY MAX(sequence) DESC\<close>).
\<close>

definition history_runs :: "thread_db \<Rightarrow> OwnerId \<Rightarrow> AgentId \<Rightarrow> ThreadId \<Rightarrow> int \<Rightarrow> RunId list" where
  "history_runs db ow ag threadId watermark = rev (remdups (List.map_filter msg_runId
     (sort_key msg_sequence (filter (\<lambda>m. msg_status m = msg_committed \<and> msg_sequence m \<le> watermark)
       (thread_messages db ow ag threadId)))))"

definition native_artifact :: "thread_db \<Rightarrow> OwnerId \<Rightarrow> AgentId \<Rightarrow> RunId \<Rightarrow> runtime_history option" where
  "native_artifact db ow ag runId =
     (case rev (sort_key ra_historySequence (filter (\<lambda>a. ra_ownerId a = ow \<and> ra_agentId a = ag \<and>
         ra_runId a = runId \<and> ra_purpose a = ''runtime_history'' \<and> 0 < ra_historySequence a) (th_artifacts db))) of
        [] \<Rightarrow> None
      | a # _ \<Rightarrow> map_option (\<lambda>r. \<lparr>rh_runId = runId, rh_operationKey = ra_operationKey a,
          rh_payloadRef = ra_payloadRef a, rh_dataClassification = ra_classification a, rh_status = rs_status r\<rparr>)
          (List.find (\<lambda>r. rs_id r = runId \<and> rs_ownerId r = ow \<and> rs_agentId r = ag) (db_runs db)))"

text \<open>The history pinned when the thread was forked, while its source is available and not deleted.\<close>

definition pinned_history :: "thread_db \<Rightarrow> OwnerId \<Rightarrow> AgentId \<Rightarrow> product_thread \<Rightarrow> runtime_history option" where
  "pinned_history db ow ag thread =
     (case pt_lineage thread of
        None \<Rightarrow> None
      | Some l \<Rightarrow>
          if fork_sourceContentAvailable l \<and>
             (case readThread db ow ag (fork_sourceThreadId l) of None \<Rightarrow> False
              | Some parent \<Rightarrow> pt_status parent = thread_active \<or> pt_status parent = thread_archived)
          then Option.bind (List.find (\<lambda>x. li_threadId x = pt_id thread \<and> li_ownerId x = ow \<and> li_agentId x = ag)
                 (th_lineages db)) li_runtimeHistory
          else None)"

definition readNativeHistory ::
  "thread_db \<Rightarrow> OwnerId \<Rightarrow> AgentId \<Rightarrow> product_thread \<Rightarrow> int \<Rightarrow> runtime_history option" where
  "readNativeHistory db ow ag thread watermark =
     (case List.map_filter (native_artifact db ow ag) (history_runs db ow ag (pt_id thread) watermark) of
        saved # _ \<Rightarrow> Some saved
      | [] \<Rightarrow> pinned_history db ow ag thread)"

record fork_input =
  fk_ownerId :: OwnerId
  fk_agentId :: AgentId
  fk_sourceThreadId :: ThreadId
  fk_sourceTurnId :: TurnId
  fk_sourceWatermark :: int
  fk_targetThread :: product_thread
  fk_summaryRefs :: "string list"
  fk_policyRefs :: "string list"
  fk_idempotencyKey :: IdempotencyKey
  fk_semanticFingerprint :: string
  fk_resultRef :: string
  fk_authority :: product_authority_fence

fun assertPayloads :: "thread_db \<Rightarrow> OwnerId \<Rightarrow> AgentId \<Rightarrow> string list \<Rightarrow> unit result" where
  "assertPayloads db ow ag [] = Inr ()"
| "assertPayloads db ow ag (ref # refs) = andThen (assertPayload db ow ag ref) (\<lambda>_. assertPayloads db ow ag refs)"

definition committed_turn :: "thread_db \<Rightarrow> fork_input \<Rightarrow> bool" where
  "committed_turn db input \<longleftrightarrow> list_ex (\<lambda>t. tn_id t = fk_sourceTurnId input \<and>
     tn_threadId t = Some (fk_sourceThreadId input) \<and> tn_ownerId t = fk_ownerId input \<and>
     tn_agentId t = fk_agentId input \<and> truthy (tn_committedAt t)) (db_turns db)"

definition fork_lineage_row :: "fork_input \<Rightarrow> runtime_history option \<Rightarrow> lineage_row" where
  "fork_lineage_row input history =
     \<lparr>li_threadId = pt_id (fk_targetThread input), li_ownerId = fk_ownerId input, li_agentId = fk_agentId input,
      li_sourceThreadId = Some (fk_sourceThreadId input), li_sourceTurnId = Some (fk_sourceTurnId input),
      li_sourceThreadMarker = fk_sourceThreadId input, li_sourceTurnMarker = fk_sourceTurnId input,
      li_sourceWatermark = fk_sourceWatermark input, li_summaryRefs = fk_summaryRefs input,
      li_policyRefs = fk_policyRefs input, li_sourceContentAvailable = True,
      li_forkedAt = pt_createdAt (fk_targetThread input), li_runtimeHistory = history\<rparr>"

definition insert_lineage :: "thread_db \<Rightarrow> lineage_row \<Rightarrow> thread_db result" where
  "insert_lineage db row =
     andThen (ensure (\<not> has_row li_threadId (li_threadId row) (th_lineages db) \<and> 1 \<le> li_sourceWatermark row)
       OtherError) (\<lambda>_.
     Inr (db\<lparr>th_lineages := th_lineages db @ [row]\<rparr>))"

definition fork_receipt :: "fork_input \<Rightarrow> receipt_input" where
  "fork_receipt input =
     \<lparr>wr_ownerId = fk_ownerId input, wr_agentId = fk_agentId input,
      wr_idempotencyKey = fk_idempotencyKey input, wr_commandType = ''thread.fork'',
      wr_semanticFingerprint = fk_semanticFingerprint input, wr_threadId = pt_id (fk_targetThread input),
      wr_threadRevision = pt_revision (fk_targetThread input), wr_resultRef = fk_resultRef input,
      wr_committedAt = pt_createdAt (fk_targetThread input), wr_authority = fk_authority input\<rparr>"

definition fork_source :: "thread_db \<Rightarrow> fork_input \<Rightarrow> product_thread result" where
  "fork_source db input =
     (case readThread db (fk_ownerId input) (fk_agentId input) (fk_sourceThreadId input) of
        None \<Rightarrow> Inl type_error
      | Some source \<Rightarrow>
          andThen (ensure (pt_status source \<noteq> thread_deleted_verified \<and>
            \<not> pt_messageWatermark source < fk_sourceWatermark input \<and> committed_turn db input) type_error) (\<lambda>_.
          Inr source))"

definition fork_thread ::
  "thread_db \<Rightarrow> fork_input \<Rightarrow> (thread_db \<times> product_thread \<times> thread_receipt) result" where
  "fork_thread db input =
     (let ow = fk_ownerId input; ag = fk_agentId input; target = fk_targetThread input in
     andThen (ensure (headroom db) conflict) (\<lambda>_.
     andThen (replay_receipt db ow ag (fk_idempotencyKey input) ''thread.fork'' (fk_semanticFingerprint input)) (\<lambda>replay.
     case replay of
       Some receipt \<Rightarrow>
         (case readThread db ow ag (tm_threadId receipt) of
            None \<Rightarrow> port_fail NOT_FOUND
          | Some thread \<Rightarrow> Inr (db, thread, receipt))
     | None \<Rightarrow>
         andThen (thread_authority db ow ag (fk_authority input)) (\<lambda>_.
         andThen (assertPayload db ow ag (fk_resultRef input)) (\<lambda>_.
         andThen (assertPayloads db ow ag (fk_summaryRefs input)) (\<lambda>_.
         andThen (fork_source db input) (\<lambda>source.
         andThen (insertThread db target) (\<lambda>db1.
         andThen (insert_lineage db1 (fork_lineage_row input
                    (readNativeHistory db1 ow ag source (fk_sourceWatermark input)))) (\<lambda>db2.
         andThen (writeReceipt db2 (fork_receipt input)) (\<lambda>(db3, receipt).
         case readThread db3 ow ag (pt_id target) of
           None \<Rightarrow> port_fail NOT_FOUND
         | Some thread \<Rightarrow> Inr (db3, thread, receipt)))))))))))"

section \<open>Queries\<close>

definition thread_limit :: "int \<Rightarrow> unit result" where
  "thread_limit limit = ensure (is_safe_integer limit \<and> 1 \<le> limit \<and> limit \<le> 1000) type_error"

definition listMessages ::
  "thread_db \<Rightarrow> OwnerId \<Rightarrow> AgentId \<Rightarrow> ThreadId \<Rightarrow> int \<Rightarrow> int \<Rightarrow> product_thread_message list result" where
  "listMessages db ow ag threadId afterSequence limit =
     andThen (thread_limit limit) (\<lambda>_.
     andThen (ensure (is_safe_integer afterSequence \<and> 0 \<le> afterSequence) type_error) (\<lambda>_.
     case readThread db ow ag threadId of
       None \<Rightarrow> Inr []
     | Some thread \<Rightarrow>
         if pt_status thread \<in> {thread_trashed, thread_deletion_pending, thread_deleted_verified} then Inr []
         else Inr (take (nat limit) (sort_key msg_sequence (filter (\<lambda>m. afterSequence < msg_sequence m \<and>
           msg_status m = msg_committed) (thread_messages db ow ag threadId))))))"

record run_summary =
  rn_runId :: RunId
  rn_revision :: int
  rn_status :: run_status
  rn_createdAt :: string
  rn_updatedAt :: string

definition list_thread_runs :: "thread_db \<Rightarrow> OwnerId \<Rightarrow> AgentId \<Rightarrow> ThreadId \<Rightarrow> run_summary list" where
  "list_thread_runs db ow ag threadId = map (\<lambda>r. \<lparr>rn_runId = rs_id r, rn_revision = rs_revision r,
       rn_status = rs_status r, rn_createdAt = rs_createdAt r, rn_updatedAt = rs_updatedAt r\<rparr>)
     (sort_key (\<lambda>r. (rs_createdAt r, rs_id r)) (filter (\<lambda>r. rs_ownerId r = ow \<and> rs_agentId r = ag \<and>
       rs_threadId r = Some threadId) (db_runs db)))"

definition readDetailSnapshot ::
  "thread_db \<Rightarrow> OwnerId \<Rightarrow> AgentId \<Rightarrow> ThreadId \<Rightarrow> int \<Rightarrow> int \<Rightarrow>
     (product_thread \<times> product_thread_message list \<times> run_summary list) option result" where
  "readDetailSnapshot db ow ag threadId afterSequence limit =
     (case readThread db ow ag threadId of
        None \<Rightarrow> Inr None
      | Some thread \<Rightarrow>
          if pt_status thread = thread_deleted_verified then Inr None
          else andThen (listMessages db ow ag threadId afterSequence limit) (\<lambda>messages.
            Inr (Some (thread, messages, list_thread_runs db ow ag threadId))))"

definition hasCommittedTurn :: "thread_db \<Rightarrow> OwnerId \<Rightarrow> AgentId \<Rightarrow> ThreadId \<Rightarrow> TurnId \<Rightarrow> int \<Rightarrow> bool" where
  "hasCommittedTurn db ow ag threadId turnId watermark \<longleftrightarrow>
     is_safe_integer watermark \<and> 1 \<le> watermark \<and>
     list_ex (\<lambda>m. msg_turnId m = Some turnId \<and> msg_sequence m \<le> watermark \<and> msg_status m = msg_committed)
       (thread_messages db ow ag threadId)"

definition scope_events :: "thread_db \<Rightarrow> OwnerId \<Rightarrow> AgentId \<Rightarrow> int \<Rightarrow> gateway_event list" where
  "scope_events db ow ag after = sort_key ge_cursorSequence (filter (\<lambda>e. ge_ownerId e = ow \<and>
     ge_agentId e = ag \<and> after < ge_cursorSequence e) (th_gatewayEvents db))"

definition listGatewayEvents ::
  "thread_db \<Rightarrow> OwnerId \<Rightarrow> AgentId \<Rightarrow> string option \<Rightarrow> int \<Rightarrow> gateway_event list result" where
  "listGatewayEvents db ow ag afterCursor limit =
     andThen (thread_limit limit) (\<lambda>_.
     andThen (case afterCursor of
                None \<Rightarrow> Inr 0
              | Some cursor \<Rightarrow>
                  (case List.find (\<lambda>e. ge_ownerId e = ow \<and> ge_agentId e = ag \<and> ge_cursor e = cursor)
                          (th_gatewayEvents db) of
                     None \<Rightarrow> port_fail NOT_FOUND
                   | Some e \<Rightarrow> Inr (ge_cursorSequence e))) (\<lambda>afterSequence.
     Inr (take (nat limit) (scope_events db ow ag afterSequence))))"

text \<open>
  \<open>readCommittedMessagesByIds\<close>: the selected messages of an active thread, in the order of the request.
\<close>

definition readCommittedMessagesByIds ::
  "thread_db \<Rightarrow> OwnerId \<Rightarrow> AgentId \<Rightarrow> ThreadId \<Rightarrow> MessageId list \<Rightarrow> product_thread_message list result" where
  "readCommittedMessagesByIds db ow ag threadId messageIds =
     andThen (ensure (messageIds \<noteq> [] \<and> length messageIds \<le> 1000) type_error) (\<lambda>_.
     andThen (ensure (distinct messageIds) type_error) (\<lambda>_.
     case readThread db ow ag threadId of
       None \<Rightarrow> Inr []
     | Some thread \<Rightarrow>
         if pt_status thread \<noteq> thread_active then Inr []
         else Inr (List.map_filter (\<lambda>i. List.find (\<lambda>m. msg_id m = i \<and> msg_status m = msg_committed)
           (thread_messages db ow ag threadId)) messageIds)))"

text \<open>
  The context of a Run: the messages that precede it causally, the last \<open>limit\<close> of them in order, with
  the state of each Run they belong to and the native history at that frontier.
\<close>

record context_snapshot =
  cx_thread :: product_thread
  cx_messages :: "product_thread_message list"
  cx_runStates :: "(RunId \<times> run_status) list"
  cx_runtimeHistory :: "runtime_history option"
  cx_sourceWatermark :: int

fun context_run_states :: "thread_db \<Rightarrow> OwnerId \<Rightarrow> AgentId \<Rightarrow> RunId list \<Rightarrow> (RunId \<times> run_status) list result" where
  "context_run_states db ow ag [] = Inr []"
| "context_run_states db ow ag (runId # runIds) =
     (case List.find (\<lambda>r. rs_id r = runId \<and> rs_ownerId r = ow \<and> rs_agentId r = ag) (db_runs db) of
        None \<Rightarrow> Inl type_error
      | Some r \<Rightarrow> andThen (context_run_states db ow ag runIds) (\<lambda>states. Inr ((runId, rs_status r) # states)))"

definition causal_messages ::
  "thread_db \<Rightarrow> OwnerId \<Rightarrow> AgentId \<Rightarrow> ThreadId \<Rightarrow> trigger_row \<Rightarrow> product_thread_message list result" where
  "causal_messages db ow ag threadId trigger =
     (let committed = filter (\<lambda>m. msg_status m = msg_committed) (thread_messages db ow ag threadId) in
      if tg_sourceType trigger = src_user_message
      then (case List.find (\<lambda>m. msg_id m = tg_sourceId trigger) committed of
              None \<Rightarrow> Inl type_error
            | Some source \<Rightarrow> Inr (filter (\<lambda>m. msg_sequence m < msg_sequence source) committed))
      else Inr (filter (\<lambda>m. msg_committedAt m < tg_occurredAt trigger) committed))"

definition readContextSnapshot ::
  "thread_db \<Rightarrow> OwnerId \<Rightarrow> AgentId \<Rightarrow> ThreadId \<Rightarrow> RunId \<Rightarrow> int \<Rightarrow> int \<Rightarrow> context_snapshot option result" where
  "readContextSnapshot db ow ag threadId runId afterSequence limit =
     andThen (thread_limit limit) (\<lambda>_.
     andThen (ensure (is_safe_integer afterSequence \<and> 0 \<le> afterSequence) type_error) (\<lambda>_.
     case (readThread db ow ag threadId, List.find (\<lambda>r. rs_id r = runId \<and> rs_ownerId r = ow \<and>
             rs_agentId r = ag \<and> rs_threadId r = Some threadId) (db_runs db)) of
       (Some thread, Some run) \<Rightarrow>
         if pt_status thread \<noteq> thread_active then Inr None
         else (case List.find (\<lambda>t. tg_id t = rs_triggerId run \<and> tg_ownerId t = ow \<and> tg_agentId t = ag \<and>
                 tg_threadId t = Some threadId) (th_triggers db) of
             None \<Rightarrow> Inr None
           | Some trigger \<Rightarrow>
               andThen (causal_messages db ow ag threadId trigger) (\<lambda>causal.
               let watermark = foldr max (map msg_sequence causal) 0;
                   messages = rev (take (nat limit) (rev (sort_key msg_sequence
                     (filter (\<lambda>m. afterSequence < msg_sequence m) causal)))) in
               andThen (context_run_states db ow ag (rev (remdups (rev (List.map_filter msg_runId messages))))) (\<lambda>states.
               Inr (Some \<lparr>cx_thread = thread, cx_messages = messages, cx_runStates = states,
                          cx_runtimeHistory = readNativeHistory db ow ag thread watermark,
                          cx_sourceWatermark = watermark\<rparr>))))
     | _ \<Rightarrow> Inr None))"

record execution_source =
  es_runId :: RunId
  es_sessionId :: SessionId
  es_threadId :: "ThreadId option"
  es_triggerId :: TriggerId
  es_sourceType :: source_kind
  es_sourceId :: string
  es_payloadRef :: string
  es_dataClassification :: product_data_classification
  es_occurredAt :: string
  es_modelSelection :: "model_selection option"

definition thread_open :: "thread_db \<Rightarrow> run_state_row \<Rightarrow> bool" where
  "thread_open db r \<longleftrightarrow> (case rs_threadId r of None \<Rightarrow> True
     | Some t \<Rightarrow> list_ex (\<lambda>th. tr_id th = t \<and> tr_ownerId th = rs_ownerId r \<and> tr_agentId th = rs_agentId r \<and>
         tr_status th = th_open \<and> tr_archivedAt th = None) (th_threads db))"

definition source_message_ok :: "thread_db \<Rightarrow> run_state_row \<Rightarrow> trigger_row \<Rightarrow> bool" where
  "source_message_ok db r t \<longleftrightarrow> tg_sourceType t \<noteq> src_user_message \<or>
     list_ex (\<lambda>m. msg_id m = tg_sourceId t \<and> msg_ownerId m = rs_ownerId r \<and> msg_agentId m = rs_agentId r \<and>
       Some (msg_threadId m) = rs_threadId r \<and> msg_runId m = Some (rs_id r) \<and>
       msg_contentRef m = tg_payloadRef t \<and> msg_role m = role_owner \<and> msg_status m = msg_committed)
       (th_messages db)"

definition readRunExecutionSource ::
  "thread_db \<Rightarrow> OwnerId \<Rightarrow> AgentId \<Rightarrow> RunId \<Rightarrow> execution_source option" where
  "readRunExecutionSource db ow ag runId =
     Option.bind (List.find (\<lambda>r. rs_id r = runId \<and> rs_ownerId r = ow \<and> rs_agentId r = ag) (db_runs db)) (\<lambda>r.
     Option.bind (List.find (\<lambda>t. tg_id t = rs_triggerId r \<and> tg_ownerId t = ow \<and> tg_agentId t = ag \<and>
       tg_threadId t = rs_threadId r) (th_triggers db)) (\<lambda>t.
     Option.bind (active_payload db ow ag (tg_payloadRef t)) (\<lambda>p.
     if thread_open db r \<and> source_message_ok db r t
     then Some \<lparr>es_runId = rs_id r, es_sessionId = rs_sessionId r, es_threadId = rs_threadId r,
        es_triggerId = rs_triggerId r, es_sourceType = tg_sourceType t, es_sourceId = tg_sourceId t,
        es_payloadRef = tg_payloadRef t, es_dataClassification = spl_classification p,
        es_occurredAt = tg_occurredAt t, es_modelSelection = map_of (th_modelSelections db) (rs_id r)\<rparr>
     else None)))"

section \<open>Listing threads\<close>

record list_query =
  lq_ownerId :: OwnerId
  lq_agentId :: AgentId
  lq_statuses :: "thread_status list"
  lq_pinnedOnly :: bool
  lq_afterThreadId :: "ThreadId option"
  lq_limit :: int

text \<open>\<open>ORDER BY CASE WHEN pin_order IS NULL THEN 1 ELSE 0 END, pin_order, updated_at DESC, id\<close>.\<close>

definition same_pin_before :: "string \<times> ThreadId \<Rightarrow> string \<times> ThreadId \<Rightarrow> bool" where
  "same_pin_before a b \<longleftrightarrow> fst b < fst a \<or> fst b = fst a \<and> snd a < snd b"

definition list_key :: "thread_row \<Rightarrow> string \<times> ThreadId" where
  "list_key r = (tr_updatedAt r, tr_id r)"

definition list_before :: "thread_row \<Rightarrow> thread_row \<Rightarrow> bool" where
  "list_before a b = (case (tr_pinOrder a, tr_pinOrder b) of
     (Some p, Some q) \<Rightarrow> p < q \<or> p = q \<and> same_pin_before (list_key a) (list_key b)
   | (Some p, None) \<Rightarrow> True
   | (None, Some q) \<Rightarrow> False
   | (None, None) \<Rightarrow> same_pin_before (list_key a) (list_key b))"

fun insert_ordered :: "thread_row \<Rightarrow> thread_row list \<Rightarrow> thread_row list" where
  "insert_ordered r [] = [r]"
| "insert_ordered r (x # xs) = (if list_before x r then x # insert_ordered r xs else r # x # xs)"

definition list_ordered :: "thread_row list \<Rightarrow> thread_row list" where
  "list_ordered rows = foldr insert_ordered rows []"

definition assert_statuses :: "thread_status list \<Rightarrow> unit result" where
  "assert_statuses statuses = ensure (statuses \<noteq> [] \<and> distinct statuses) type_error"

definition row_status :: "thread_row \<Rightarrow> thread_status" where
  "row_status r = product_status (tr_status r) (tr_archivedAt r)"

text \<open>What comes after the cursor row, as the conditions of the query say it.\<close>

definition after_cursor :: "bool \<Rightarrow> product_thread \<Rightarrow> thread_row \<Rightarrow> bool" where
  "after_cursor pinnedOnly c r = (case pt_pinOrder c of
     Some p \<Rightarrow>
       (case tr_pinOrder r of
          Some q \<Rightarrow> p < q \<or> q = p \<and> (tr_updatedAt r < pt_updatedAt c \<or>
            tr_updatedAt r = pt_updatedAt c \<and> pt_id c < tr_id r)
        | None \<Rightarrow> \<not> pinnedOnly)
   | None \<Rightarrow> tr_pinOrder r = None \<and> (tr_updatedAt r < pt_updatedAt c \<or>
       tr_updatedAt r = pt_updatedAt c \<and> pt_id c < tr_id r))"

definition listed :: "list_query \<Rightarrow> thread_row \<Rightarrow> bool" where
  "listed q r \<longleftrightarrow> tr_ownerId r = lq_ownerId q \<and> tr_agentId r = lq_agentId q \<and>
     row_status r \<in> set (lq_statuses q) \<and> (lq_pinnedOnly q \<longrightarrow> tr_pinOrder r \<noteq> None)"

definition list_threads :: "thread_db \<Rightarrow> list_query \<Rightarrow> product_thread list result" where
  "list_threads db q =
     andThen (thread_limit (lq_limit q)) (\<lambda>_.
     andThen (assert_statuses (lq_statuses q)) (\<lambda>_.
     andThen (case lq_afterThreadId q of
                None \<Rightarrow> Inr None
              | Some t \<Rightarrow> (case readThread db (lq_ownerId q) (lq_agentId q) t of
                  None \<Rightarrow> port_fail NOT_FOUND | Some c \<Rightarrow> Inr (Some c))) (\<lambda>cursor.
     Inr (map (fromThreadRow db) (take (nat (lq_limit q)) (list_ordered (filter (\<lambda>r. listed q r \<and>
       (case cursor of None \<Rightarrow> True | Some c \<Rightarrow> after_cursor (lq_pinnedOnly q) c r)) (th_threads db))))))))"

section \<open>Search projections\<close>

record projection_input =
  pr_ownerId :: OwnerId
  pr_agentId :: AgentId
  pr_threadId :: ThreadId
  pr_messageId :: MessageId
  pr_sequence :: int
  pr_classification :: product_data_classification
  pr_tokenRefs :: "string list"
  pr_projectionVersion :: string

text \<open>White space as the regular expression class \<open>\s\<close> has it, on the characters of the model.\<close>

definition assertProjectionTokens :: "string list \<Rightarrow> string \<Rightarrow> unit result" where
  "assertProjectionTokens tokenRefs projectionVersion =
     ensure (tokenRefs \<noteq> [] \<and> distinct tokenRefs \<and>
       list_all (\<lambda>ref. ref \<noteq> [] \<and> list_all (\<lambda>c. \<not> is_space c) ref) tokenRefs \<and> projectionVersion \<noteq> []) type_error"

definition search_rows :: "projection_input \<Rightarrow> search_row list" where
  "search_rows input = map (\<lambda>tokenRef.
     \<lparr>sp_ownerId = pr_ownerId input, sp_agentId = pr_agentId input, sp_threadId = pr_threadId input,
      sp_messageId = pr_messageId input, sp_sequence = pr_sequence input,
      sp_classification = pr_classification input, sp_tokenRef = tokenRef,
      sp_projectionVersion = pr_projectionVersion input\<rparr>) (pr_tokenRefs input)"

definition projectSearch :: "thread_db \<Rightarrow> projection_input \<Rightarrow> thread_db result" where
  "projectSearch db input =
     andThen (ensure (headroom db) conflict) (\<lambda>_.
     andThen (assertProjectionTokens (pr_tokenRefs input) (pr_projectionVersion input)) (\<lambda>_.
     case List.find (\<lambda>m. msg_id m = pr_messageId input \<and> msg_sequence m = pr_sequence input)
            (thread_messages db (pr_ownerId input) (pr_agentId input) (pr_threadId input)) of
       None \<Rightarrow> Inl type_error
     | Some message \<Rightarrow>
         andThen (ensure (msg_dataClassification message = pr_classification input) type_error) (\<lambda>_.
         Inr (db\<lparr>th_search := filter (\<lambda>s. \<not> (sp_threadId s = pr_threadId input \<and>
                sp_messageId s = pr_messageId input \<and> sp_projectionVersion s = pr_projectionVersion input))
              (th_search db) @ search_rows input\<rparr>))))"

record title_projection_input =
  tpi_ownerId :: OwnerId
  tpi_agentId :: AgentId
  tpi_threadId :: ThreadId
  tpi_titleRevision :: int
  tpi_classification :: product_data_classification
  tpi_tokenRefs :: "string list"
  tpi_projectionVersion :: string

definition title_search_rows :: "title_projection_input \<Rightarrow> title_search_row list" where
  "title_search_rows input = map (\<lambda>tokenRef.
     \<lparr>tp_ownerId = tpi_ownerId input, tp_agentId = tpi_agentId input, tp_threadId = tpi_threadId input,
      tp_titleRevision = tpi_titleRevision input, tp_classification = tpi_classification input,
      tp_tokenRef = tokenRef, tp_projectionVersion = tpi_projectionVersion input\<rparr>) (tpi_tokenRefs input)"

definition projectTitleSearch :: "thread_db \<Rightarrow> title_projection_input \<Rightarrow> thread_db result" where
  "projectTitleSearch db input =
     andThen (ensure (headroom db) conflict) (\<lambda>_.
     andThen (assertProjectionTokens (tpi_tokenRefs input) (tpi_projectionVersion input)) (\<lambda>_.
     case readThread db (tpi_ownerId input) (tpi_agentId input) (tpi_threadId input) of
       None \<Rightarrow> Inl type_error
     | Some thread \<Rightarrow>
         (case pt_titleRef thread of
            None \<Rightarrow> Inl type_error
          | Some titleRef \<Rightarrow>
              andThen (ensure (pt_titleRevision thread = tpi_titleRevision input \<and>
                pt_status thread \<notin> {thread_trashed, thread_deletion_pending, thread_deleted_verified}) type_error) (\<lambda>_.
              case active_payload db (tpi_ownerId input) (tpi_agentId input) titleRef of
                None \<Rightarrow> Inl type_error
              | Some payload \<Rightarrow>
                  andThen (ensure (spl_classification payload = tpi_classification input) type_error) (\<lambda>_.
                  andThen (ensure (1 \<le> tpi_titleRevision input) OtherError) (\<lambda>_.
                  Inr (db\<lparr>th_titleSearch := filter (\<lambda>s. \<not> (tp_threadId s = tpi_threadId input \<and>
                         tp_projectionVersion s = tpi_projectionVersion input)) (th_titleSearch db) @
                       title_search_rows input\<rparr>)))))))"

definition rebuildSearch ::
  "thread_db \<Rightarrow> OwnerId \<Rightarrow> AgentId \<Rightarrow> ThreadId \<Rightarrow> string \<Rightarrow> (thread_db \<times> nat) result" where
  "rebuildSearch db ow ag threadId projectionVersion =
     andThen (ensure (headroom db) conflict) (\<lambda>_.
     andThen (ensure (projectionVersion \<noteq> []) type_error) (\<lambda>_.
     andThen (ensure (readThread db ow ag threadId \<noteq> None) type_error) (\<lambda>_.
     let stale = (\<lambda>s. sp_ownerId s = ow \<and> sp_agentId s = ag \<and> sp_threadId s = threadId \<and>
           sp_projectionVersion s \<noteq> projectionVersion);
         stale_title = (\<lambda>s. tp_ownerId s = ow \<and> tp_agentId s = ag \<and> tp_threadId s = threadId \<and>
           tp_projectionVersion s \<noteq> projectionVersion) in
     Inr (db\<lparr>th_search := filter (\<lambda>s. \<not> stale s) (th_search db),
             th_titleSearch := filter (\<lambda>s. \<not> stale_title s) (th_titleSearch db)\<rparr>,
          length (filter stale (th_search db)) + length (filter stale_title (th_titleSearch db))))))"

record search_query =
  sq_ownerId :: OwnerId
  sq_agentId :: AgentId
  sq_tokenRefs :: "string list"
  sq_projectionVersion :: string
  sq_statuses :: "thread_status list"
  sq_jobStatuses :: "job_status list"
  sq_updatedAfter :: "string option"
  sq_updatedBefore :: "string option"
  sq_afterThreadId :: "ThreadId option"
  sq_limit :: int

text \<open>The tokens of a thread: those of its messages and those of its current title.\<close>

definition thread_tokens :: "thread_db \<Rightarrow> search_query \<Rightarrow> thread_row \<Rightarrow> string set" where
  "thread_tokens db q r = set (map sp_tokenRef (filter (\<lambda>s. sp_ownerId s = sq_ownerId q \<and>
       sp_agentId s = sq_agentId q \<and> sp_threadId s = tr_id r \<and>
       sp_projectionVersion s = sq_projectionVersion q) (th_search db))) \<union>
     set (map tp_tokenRef (filter (\<lambda>s. tp_ownerId s = sq_ownerId q \<and> tp_agentId s = sq_agentId q \<and>
       tp_threadId s = tr_id r \<and> tp_titleRevision s = tr_titleRevision r \<and>
       tp_projectionVersion s = sq_projectionVersion q) (th_titleSearch db)))"

definition search_match :: "thread_db \<Rightarrow> search_query \<Rightarrow> thread_row \<Rightarrow> bool" where
  "search_match db q r \<longleftrightarrow>
     row_status r \<in> set (sq_statuses q) \<and>
     card (thread_tokens db q r \<inter> set (sq_tokenRefs q)) = length (sq_tokenRefs q) \<and>
     (case sq_afterThreadId q of None \<Rightarrow> True | Some t \<Rightarrow> t < tr_id r) \<and>
     (case sq_updatedAfter q of None \<Rightarrow> True | Some t \<Rightarrow> t < tr_updatedAt r) \<and>
     (case sq_updatedBefore q of None \<Rightarrow> True | Some t \<Rightarrow> tr_updatedAt r < t) \<and>
     (sq_jobStatuses q = [] \<or> list_ex (\<lambda>j. sj_ownerId j = sq_ownerId q \<and> sj_agentId j = sq_agentId q \<and>
       sj_threadId j = Some (tr_id r) \<and> sj_status j \<in> set (sq_jobStatuses q)) (wdb_jobs (pdb_work db)))"

definition search_threads :: "thread_db \<Rightarrow> search_query \<Rightarrow> product_thread list result" where
  "search_threads db q =
     andThen (thread_limit (sq_limit q)) (\<lambda>_.
     andThen (ensure (sq_tokenRefs q \<noteq> [] \<and> distinct (sq_tokenRefs q) \<and> sq_projectionVersion q \<noteq> [] \<and>
       (case sq_updatedAfter q of None \<Rightarrow> True | Some t \<Rightarrow> date_parse t \<noteq> None) \<and>
       (case sq_updatedBefore q of None \<Rightarrow> True | Some t \<Rightarrow> date_parse t \<noteq> None)) type_error) (\<lambda>_.
     andThen (assert_statuses (sq_statuses q)) (\<lambda>_.
     Inr (List.map_filter (\<lambda>r. readThread db (sq_ownerId q) (sq_agentId q) (tr_id r))
       (take (nat (sq_limit q)) (sort_key tr_id (filter (search_match db q) (th_threads db))))))))"

end
