(* ===== verification/Run_Lifecycle.thy ===== *)
theory Run_Lifecycle
  imports Thread_Store Run_Commit Run_Dispatch
begin

text \<open>
  The relational Run lifecycle
  (\<open>packages/persistence-sqlite/src/sqlite-run-lifecycle-operations.ts\<close>): a transition, an Owner's
  cancellation and a completion, each in one immediate transaction with its command result, its reliable
  event and, where the Run belongs to a thread, the change of the thread.

  Arguments are checked before the transaction; a TypeError there, or in the execution-lease guard that
  runs inside, is not translated and reaches the caller as a failure of the worker (\<open>OtherError\<close>).
  The guard is \<open>Run_Dispatch.assertHeld\<close>, the commit of an answer \<open>Thread_Store.commitAssistantMessage\<close>.
  \<open>sha256\<close> is the parameter of \<open>Product_State\<close>.
\<close>

section \<open>Arguments\<close>

definition run_text :: "string \<Rightarrow> unit result" where
  "run_text value = ensure (value \<noteq> []) OtherError"

definition run_integer :: "int \<Rightarrow> unit result" where
  "run_integer value = ensure (is_safe_integer value \<and> 1 \<le> value) OtherError"

definition run_identifier :: "(string \<Rightarrow> string result) \<Rightarrow> string \<Rightarrow> unit result" where
  "run_identifier create value = andThen (run_text value) (\<lambda>_. andThen (create value) (\<lambda>_. Inr ()))"

definition check_fence :: "product_authority_fence \<Rightarrow> unit result" where
  "check_fence fence =
     andThen (run_identifier createDeploymentId (fence_deploymentId fence)) (\<lambda>_.
     andThen (run_integer (fence_authorityEpoch fence)) (\<lambda>_.
     run_integer (fence_fencingToken fence)))"

definition optionalExecutionLease :: "execution_lease_claim option \<Rightarrow> unit result" where
  "optionalExecutionLease value = (case value of
     None \<Rightarrow> Inr ()
   | Some claim \<Rightarrow>
       andThen (run_identifier createRunExecutionLeaseId (xc_executionLeaseId claim)) (\<lambda>_.
       andThen (run_integer (xc_expectedLeaseRevision claim)) (\<lambda>_.
       andThen (run_identifier createAuthorityLeaseId (xc_authorityLeaseId claim)) (\<lambda>_.
       andThen (run_integer (xc_authorityFencingToken claim)) (\<lambda>_.
       andThen (run_identifier createDeploymentId (xc_deploymentId claim)) (\<lambda>_.
       andThen (run_integer (xc_authorityEpoch claim)) (\<lambda>_.
       andThen (run_integer (xc_fencingToken claim)) (\<lambda>_.
       run_text (xc_consumerId claim)))))))))"

definition check_command :: "'a run_input_scheme \<Rightarrow> unit result" where
  "check_command input =
     andThen (optionalExecutionLease (rcc_executionLease input)) (\<lambda>_.
     andThen (run_identifier createOwnerId (rcc_ownerId input)) (\<lambda>_.
     andThen (run_identifier createAgentId (rcc_agentId input)) (\<lambda>_.
     andThen (run_identifier createRunId (rin_runId input)) (\<lambda>_.
     andThen (run_integer (rin_expectedRevision input)) (\<lambda>_.
     andThen (run_identifier createIdempotencyKey (rcc_idempotencyKey input)) (\<lambda>_.
     andThen (run_text (rcc_commandFingerprint input)) (\<lambda>_.
     andThen (run_text (rcc_payloadRef input)) (\<lambda>_.
     andThen (run_identifier createAuthorityLeaseId (af_leaseId (rcc_authority input))) (\<lambda>_.
     run_integer (af_fencingToken (rcc_authority input)))))))))))"

text \<open>What a command asks of the Run: another status, or completion with an output.\<close>

datatype run_mutation = move_to run_status | complete_with successful_output product_data_classification

fun mutation_type :: "run_mutation \<Rightarrow> string" where
  "mutation_type (move_to status) = ''run.transition''"
| "mutation_type (complete_with output classification) = ''run.complete''"

fun mutation_status :: "run_mutation \<Rightarrow> run_status" where
  "mutation_status (move_to status) = status"
| "mutation_status (complete_with output classification) = run_completed"

fun mutation_json :: "run_mutation \<Rightarrow> json" where
  "mutation_json (move_to status) = JString (run_status_text status)"
| "mutation_json (complete_with output classification) =
     JArray [output_json output, JString (classification_string classification)]"

definition run_fingerprint :: "(string \<Rightarrow> string) \<Rightarrow> run_input \<Rightarrow> run_mutation \<Rightarrow> string" where
  "run_fingerprint sha256 input mutation = ''run-transition:v1:'' @ sha256 (stringify (JArray
     [JString (rcc_ownerId input), JString (rcc_agentId input), JString (rin_runId input),
      mutation_json mutation, JString (rcc_payloadRef input), JString (rcc_commandFingerprint input)]))"

section \<open>Reads and checks\<close>

text \<open>The Run with its trigger in the same scope, unless one of its turns disagrees with it.\<close>

definition trigger_agrees :: "thread_db \<Rightarrow> run_state_row \<Rightarrow> bool" where
  "trigger_agrees db r \<longleftrightarrow> list_ex (\<lambda>t. tg_id t = rs_triggerId r \<and> tg_ownerId t = rs_ownerId r \<and>
     tg_agentId t = rs_agentId r \<and> (tg_threadId t = None \<or> tg_threadId t = rs_threadId r)) (th_triggers db)"

definition turns_agree :: "thread_db \<Rightarrow> run_state_row \<Rightarrow> bool" where
  "turns_agree db r \<longleftrightarrow> \<not> list_ex (\<lambda>u. tn_runId u = rs_id r \<and> (tn_ownerId u \<noteq> rs_ownerId r \<or>
     tn_agentId u \<noteq> rs_agentId r \<or> tn_threadId u \<noteq> rs_threadId r \<or> tn_sessionId u \<noteq> rs_sessionId r))
     (db_turns db)"

definition run_of_row :: "run_state_row \<Rightarrow> run" where
  "run_of_row r = \<lparr>run_id = rs_id r, run_ownerId = rs_ownerId r, run_agentId = rs_agentId r,
     run_sessionId = rs_sessionId r, run_triggerId = rs_triggerId r, run_threadId = rs_threadId r,
     run_status = rs_status r\<rparr>"

definition parse_run_row :: "run_state_row \<Rightarrow> stored_run result" where
  "parse_run_row r =
     andThen (run_integer (rs_revision r)) (\<lambda>_.
     andThen (run_identifier createRunId (rs_id r)) (\<lambda>_.
     andThen (run_identifier createOwnerId (rs_ownerId r)) (\<lambda>_.
     andThen (run_identifier createAgentId (rs_agentId r)) (\<lambda>_.
     andThen (run_identifier createSessionId (rs_sessionId r)) (\<lambda>_.
     andThen (run_identifier createTriggerId (rs_triggerId r)) (\<lambda>_.
     andThen (case rs_threadId r of None \<Rightarrow> Inr () | Some t \<Rightarrow> run_identifier createThreadId t) (\<lambda>_.
     Inr \<lparr>sr_run = run_of_row r, sr_revision = rs_revision r\<rparr>)))))))"

definition read_stored_run :: "thread_db \<Rightarrow> OwnerId \<Rightarrow> AgentId \<Rightarrow> RunId \<Rightarrow> stored_run option result" where
  "read_stored_run db ow ag runId =
     (case List.find (\<lambda>r. rs_id r = runId \<and> rs_ownerId r = ow \<and> rs_agentId r = ag \<and> trigger_agrees db r \<and>
         turns_agree db r) (db_runs db) of
        None \<Rightarrow> Inr None
      | Some r \<Rightarrow> andThen (parse_run_row r) (\<lambda>stored. Inr (Some stored)))"

record run_receipt =
  rx_replayed :: bool
  rx_commandResult :: command_result

definition replay_run ::
  "(string \<Rightarrow> string) \<Rightarrow> thread_db \<Rightarrow> run_input \<Rightarrow> run_mutation \<Rightarrow> run_receipt option result" where
  "replay_run sha256 db input mutation =
     (case findCommandResult db (rcc_ownerId input, rcc_agentId input, rcc_idempotencyKey input) of
        None \<Rightarrow> Inr None
      | Some result \<Rightarrow>
          andThen (ensure (cr_commandType result = mutation_type mutation \<and>
            cr_commandFingerprint result = run_fingerprint sha256 input mutation \<and>
            cr_stateKey result = rin_runId input) conflict) (\<lambda>_.
          Inr (Some \<lparr>rx_replayed = True, rx_commandResult = result\<rparr>)))"

definition run_authority :: "thread_db \<Rightarrow> 'a run_input_scheme \<Rightarrow> product_authority_fence \<Rightarrow> string \<Rightarrow> unit result" where
  "run_authority db input authority now = ensure (list_ex (\<lambda>l. al_id l = af_leaseId (rcc_authority input) \<and>
       al_ownerId l = rcc_ownerId input \<and> al_agentId l = rcc_agentId input \<and> al_releasedAt l = None \<and>
       now < al_expiresAt l \<and> al_fencingToken l = af_fencingToken (rcc_authority input) \<and>
       list_ex (\<lambda>d. dep_id d = al_deploymentId l \<and> dep_ownerId d = al_ownerId l \<and> dep_agentId d = al_agentId l \<and>
         dep_fencingToken d = al_fencingToken l \<and> dep_authorityEpoch d = al_authorityEpoch l \<and>
         dep_status d = dep_active \<and> dep_id d = fence_deploymentId authority \<and>
         dep_authorityEpoch d = fence_authorityEpoch authority \<and>
         dep_fencingToken d = fence_fencingToken authority) (wdb_deployments (pdb_work db)))
     (wdb_authorityLeases (pdb_work db))) not_authoritative"

definition assertTransition :: "stored_run \<Rightarrow> run_status \<Rightarrow> unit result" where
  "assertTransition stored nextStatus = (case transitionRun (sr_run stored) nextStatus of
     Inl e \<Rightarrow> Inl type_error | Inr _ \<Rightarrow> Inr ())"

text \<open>A TypeError of the guard is not translated here.\<close>

definition untranslated :: "'a result \<Rightarrow> 'a result" where
  "untranslated r = (case r of
     Inl e \<Rightarrow> Inl (if e = type_error then OtherError else e) | Inr x \<Rightarrow> Inr x)"

definition lease_guard_scope ::
  "'a run_input_scheme \<Rightarrow> product_authority_fence \<Rightarrow> AuthorityLeaseId \<Rightarrow> int \<Rightarrow> string \<Rightarrow> dispatch_scope" where
  "lease_guard_scope input authority leaseId token consumerId =
     \<lparr>scp_ownerId = rcc_ownerId input, scp_agentId = rcc_agentId input, scp_authority = authority,
      scp_leaseId = leaseId, scp_leaseFencingToken = token, scp_consumerId = consumerId\<rparr>"

definition assertExecutionLease ::
  "thread_db \<Rightarrow> run_input \<Rightarrow> product_authority_fence \<Rightarrow> string \<Rightarrow> unit result" where
  "assertExecutionLease db input authority now = (case rcc_executionLease input of
     None \<Rightarrow> Inl not_authoritative
   | Some claim \<Rightarrow>
       andThen (ensure (xc_authorityLeaseId claim = af_leaseId (rcc_authority input) \<and>
         xc_authorityFencingToken claim = af_fencingToken (rcc_authority input) \<and>
         xc_deploymentId claim = fence_deploymentId authority \<and>
         xc_authorityEpoch claim = fence_authorityEpoch authority \<and>
         xc_fencingToken claim = fence_fencingToken authority) not_authoritative) (\<lambda>_.
       andThen (untranslated (createDispatchScope (lease_guard_scope input authority (xc_authorityLeaseId claim)
         (xc_authorityFencingToken claim) (xc_consumerId claim)))) (\<lambda>scope.
       andThen (untranslated (assertHeld (pdb_work db) scope
         \<lparr>hi_runId = rin_runId input, hi_expectedLeaseRevision = xc_expectedLeaseRevision claim,
          hi_executionLeaseId = xc_executionLeaseId claim, hi_at = now\<rparr>)) (\<lambda>_. Inr ()))))"

section \<open>Writes\<close>

definition run_identity :: "(string \<Rightarrow> string) \<Rightarrow> run_input \<Rightarrow> string" where
  "run_identity sha256 input =
     identity_hash sha256 (rcc_ownerId input, rcc_agentId input, rcc_idempotencyKey input)"

definition run_result ::
  "(string \<Rightarrow> string) \<Rightarrow> run_input \<Rightarrow> run_mutation \<Rightarrow> product_authority_fence \<Rightarrow> string \<Rightarrow> int \<Rightarrow> command_result_row" where
  "run_result sha256 input mutation authority now revision =
     \<lparr>cr_ownerId = rcc_ownerId input, cr_agentId = rcc_agentId input,
      cr_idempotencyKey = rcc_idempotencyKey input, cr_commandType = mutation_type mutation,
      cr_commandFingerprint = run_fingerprint sha256 input mutation, cr_resultRef = rin_runId input,
      cr_stateKey = rin_runId input, cr_stateRevision = revision, cr_committedAt = now,
      cr_id = ''run-command:'' @ run_identity sha256 input,
      cr_deploymentId = fence_deploymentId authority, cr_authorityEpoch = fence_authorityEpoch authority,
      cr_fencingToken = fence_fencingToken authority\<rparr>"

definition run_changed_event :: "(string \<Rightarrow> string) \<Rightarrow> run_input \<Rightarrow> run_mutation \<Rightarrow> string \<Rightarrow> reliable_event" where
  "run_changed_event sha256 input mutation now =
     \<lparr>ev_id = ''run-event:'' @ run_identity sha256 input, ev_idempotencyKey = rcc_idempotencyKey input,
      ev_topic = ''run.'' @ run_status_text (mutation_status mutation), ev_payloadRef = rcc_payloadRef input,
      ev_occurredAt = now\<rparr>"

definition run_gateway_event ::
  "(string \<Rightarrow> string) \<Rightarrow> run_input \<Rightarrow> run_status \<Rightarrow> product_authority_fence \<Rightarrow> string \<Rightarrow> thread_row \<Rightarrow> gateway_event" where
  "run_gateway_event sha256 input status authority now row =
     \<lparr>ge_cursorSequence = 0, ge_cursor = [], ge_eventId = ''run-event:'' @ run_identity sha256 input,
      ge_ownerId = rcc_ownerId input, ge_agentId = rcc_agentId input, ge_authority = authority,
      ge_threadId = tr_id row, ge_revision = tr_revision row,
      ge_causationCommandId = ''run-command:'' @ run_identity sha256 input,
      ge_eventType = ''run.'' @ run_status_text status, ge_payloadRef = None, ge_occurredAt = now\<rparr>"

text \<open>A status change of a Run is a change of its thread: its revision is raised and a gateway event says so.\<close>

definition thread_of_run :: "thread_db \<Rightarrow> run_input \<Rightarrow> thread_row option" where
  "thread_of_run db input =
     Option.bind (List.find (\<lambda>r. rs_id r = rin_runId input \<and> rs_ownerId r = rcc_ownerId input \<and>
       rs_agentId r = rcc_agentId input) (db_runs db)) (\<lambda>r.
     Option.bind (rs_threadId r) (thread_in_scope db (rcc_ownerId input) (rcc_agentId input)))"

definition notify_thread ::
  "(string \<Rightarrow> string) \<Rightarrow> thread_db \<Rightarrow> run_input \<Rightarrow> run_status \<Rightarrow> product_authority_fence \<Rightarrow> string \<Rightarrow> thread_db result" where
  "notify_thread sha256 db input status authority now = (case thread_of_run db input of
     None \<Rightarrow> Inr db
   | Some row \<Rightarrow>
       let changed = row\<lparr>tr_revision := tr_revision row + 1, tr_updatedAt := now\<rparr> in
       andThen (update_threads db (\<lambda>r. tr_id r = tr_id row \<and> tr_ownerId r = rcc_ownerId input \<and>
           tr_agentId r = rcc_agentId input) (\<lambda>r. r\<lparr>tr_revision := tr_revision r + 1, tr_updatedAt := now\<rparr>)) (\<lambda>(db1, changes).
       andThen (run_integer (tr_revision changed)) (\<lambda>_.
       appendGatewayEvent db1 (run_gateway_event sha256 input status authority now changed))))"

definition write_run_receipt ::
  "(string \<Rightarrow> string) \<Rightarrow> thread_db \<Rightarrow> run_input \<Rightarrow> run_mutation \<Rightarrow> product_authority_fence \<Rightarrow> string \<Rightarrow> int \<Rightarrow>
     (thread_db \<times> run_receipt) result" where
  "write_run_receipt sha256 db input mutation authority now revision =
     (let row = run_result sha256 input mutation authority now revision in
     andThen (insert_command_result db row) (\<lambda>db1.
     andThen (insert_event (rcc_ownerId input) (rcc_agentId input) (run_changed_event sha256 input mutation now) db1) (\<lambda>db2.
     andThen (case mutation of move_to status \<Rightarrow> notify_thread sha256 db2 input status authority now
                | complete_with output classification \<Rightarrow> Inr db2) (\<lambda>db3.
     Inr (db3, \<lparr>rx_replayed = False, rx_commandResult = commandResultFromRow row\<rparr>)))))"

text \<open>\<open>UPDATE runs SET status, revision, updated_at WHERE id, owner, agent, revision\<close>.\<close>

definition set_run_status :: "thread_db \<Rightarrow> run_input \<Rightarrow> int \<Rightarrow> run_status \<Rightarrow> string \<Rightarrow> thread_db" where
  "set_run_status db input revision status now = db\<lparr>pdb_work := (pdb_work db)\<lparr>wdb_runs := map (\<lambda>r.
     if rs_id r = rin_runId input \<and> rs_ownerId r = rcc_ownerId input \<and> rs_agentId r = rcc_agentId input \<and>
        rs_revision r = revision
     then r\<lparr>rs_status := status, rs_revision := revision + 1, rs_updatedAt := now\<rparr> else r) (db_runs db)\<rparr>\<rparr>"

definition writeCancelledCheckpoint :: "thread_db \<Rightarrow> run_input \<Rightarrow> string \<Rightarrow> thread_db result" where
  "writeCancelledCheckpoint db input now =
     (case List.find (\<lambda>c. ck_runId c = rin_runId input \<and> ck_ownerId c = rcc_ownerId input \<and>
         ck_agentId c = rcc_agentId input) (wdb_checkpoints (pdb_work db)) of
        None \<Rightarrow>
          andThen (ensure (\<not> has_row ck_runId (rin_runId input) (wdb_checkpoints (pdb_work db))) OtherError) (\<lambda>_.
          Inr (db\<lparr>pdb_work := (pdb_work db)\<lparr>wdb_checkpoints := wdb_checkpoints (pdb_work db) @
            [\<lparr>ck_runId = rin_runId input, ck_ownerId = rcc_ownerId input, ck_agentId = rcc_agentId input,
              ck_revision = 1, ck_phase = cp_cancelled, ck_runtimeEventCount = 0, ck_diagnosticCode = None,
              ck_updatedAt = now, ck_suspension = None\<rparr>]\<rparr>\<rparr>))
      | Some c \<Rightarrow>
          andThen (run_integer (ck_revision c)) (\<lambda>_.
          andThen (ensure (ck_revision c + 1 \<le> MAX_SAFE_INTEGER) OtherError) (\<lambda>_.
          Inr (db\<lparr>pdb_work := (pdb_work db)\<lparr>wdb_checkpoints := map (\<lambda>x.
            if ck_runId x = ck_runId c then x\<lparr>ck_revision := ck_revision c + 1, ck_phase := cp_cancelled, ck_updatedAt := now\<rparr>
            else x) (wdb_checkpoints (pdb_work db))\<rparr>\<rparr>))))"

section \<open>The operations\<close>

text \<open>A Run of a thread moves on only while its thread is active; it may always fail or be cancelled.\<close>

definition thread_allows :: "thread_db \<Rightarrow> stored_run \<Rightarrow> run_input \<Rightarrow> run_status \<Rightarrow> bool" where
  "thread_allows db stored input nextStatus \<longleftrightarrow> (case run_threadId (sr_run stored) of
     None \<Rightarrow> True
   | Some t \<Rightarrow> nextStatus \<in> {run_failed, run_cancelled} \<or> nextStatus \<noteq> run_completed \<and>
       list_ex (\<lambda>r. tr_id r = t \<and> tr_ownerId r = rcc_ownerId input \<and> tr_agentId r = rcc_agentId input \<and>
         tr_status r = th_open \<and> tr_archivedAt r = None) (th_threads db))"

definition lifecycle_transition ::
  "(string \<Rightarrow> string) \<Rightarrow> thread_db \<Rightarrow> run_input \<Rightarrow> run_status \<Rightarrow> product_authority_fence \<Rightarrow> string \<Rightarrow>
     (thread_db \<times> run_receipt) result" where
  "lifecycle_transition sha256 db input nextStatus authority now =
     andThen (ensure (headroom db) conflict) (\<lambda>_.
     andThen (replay_run sha256 db input (move_to nextStatus)) (\<lambda>replay.
     case replay of Some receipt \<Rightarrow> Inr (db, receipt) | None \<Rightarrow>
     andThen (run_authority db input authority now) (\<lambda>_.
     andThen (read_stored_run db (rcc_ownerId input) (rcc_agentId input) (rin_runId input)) (\<lambda>found.
     case found of None \<Rightarrow> port_fail NOT_FOUND | Some stored \<Rightarrow>
     andThen (ensure (sr_revision stored = rin_expectedRevision input) conflict) (\<lambda>_.
     andThen (ensure (thread_allows db stored input nextStatus) type_error) (\<lambda>_.
     andThen (assertTransition stored nextStatus) (\<lambda>_.
     andThen (assertPayload db (rcc_ownerId input) (rcc_agentId input) (rcc_payloadRef input)) (\<lambda>_.
     andThen (assertExecutionLease db input authority now) (\<lambda>_.
     write_run_receipt sha256 (set_run_status db input (sr_revision stored) nextStatus now) input
       (move_to nextStatus) authority now (sr_revision stored + 1))))))))))"

text \<open>An Owner's cancellation takes the execution lease away instead of holding it.\<close>

definition lifecycle_cancel ::
  "(string \<Rightarrow> string) \<Rightarrow> thread_db \<Rightarrow> run_input \<Rightarrow> product_authority_fence \<Rightarrow> string \<Rightarrow>
     (thread_db \<times> run_receipt) result" where
  "lifecycle_cancel sha256 db input authority now =
     andThen (ensure (headroom db) conflict) (\<lambda>_.
     andThen (run_authority db input authority now) (\<lambda>_.
     andThen (read_stored_run db (rcc_ownerId input) (rcc_agentId input) (rin_runId input)) (\<lambda>found.
     case found of None \<Rightarrow> port_fail NOT_FOUND | Some stored \<Rightarrow>
     andThen (replay_run sha256 db input (move_to run_cancelled)) (\<lambda>replay.
     case replay of Some receipt \<Rightarrow> Inr (db, receipt) | None \<Rightarrow>
     andThen (ensure (sr_revision stored = rin_expectedRevision input) conflict) (\<lambda>_.
     andThen (assertTransition stored run_cancelled) (\<lambda>_.
     andThen (assertPayload db (rcc_ownerId input) (rcc_agentId input) (rcc_payloadRef input)) (\<lambda>_.
     andThen (untranslated (createDispatchScope (lease_guard_scope input authority (af_leaseId (rcc_authority input))
       (af_fencingToken (rcc_authority input)) ''owner-cancellation''))) (\<lambda>scope.
     andThen (untranslated (invalidateForOwnerCancellation (pdb_work db) scope (rin_runId input) now)) (\<lambda>(work, lease).
     andThen (writeCancelledCheckpoint (set_run_status (db\<lparr>pdb_work := work\<rparr>) input (sr_revision stored)
       run_cancelled now) input now) (\<lambda>db1.
     write_run_receipt sha256 db1 input (move_to run_cancelled) authority now (sr_revision stored + 1)))))))))))"

definition pending_resource :: "thread_db \<Rightarrow> run_input \<Rightarrow> bool" where
  "pending_resource db input = list_ex (\<lambda>s. sb_ownerId s = rcc_ownerId input \<and> sb_agentId s = rcc_agentId input \<and>
     sb_runId s = rin_runId input \<and> sb_mode s \<in> {''background'', ''service''} \<and>
     sb_supervision s \<noteq> Some ''released'') (th_sandboxes db)"

fun classification_rank :: "product_data_classification \<Rightarrow> nat" where
  "classification_rank class_public = 0"
| "classification_rank class_private = 1"
| "classification_rank class_sensitive = 2"
| "classification_rank class_restricted = 3"

text \<open>An answer is plain text, classified at least as high as the input of the Run and the completion.\<close>

definition answer_classification ::
  "thread_db \<Rightarrow> run_input \<Rightarrow> TriggerId \<Rightarrow> string \<Rightarrow> product_data_classification \<Rightarrow> product_data_classification result" where
  "answer_classification db input triggerId contentRef dataClassification =
     (case active_payload db (rcc_ownerId input) (rcc_agentId input) contentRef of
        None \<Rightarrow> Inl type_error
      | Some answer \<Rightarrow>
          (case Option.bind (row_of tg_id triggerId (th_triggers db))
                  (\<lambda>t. active_payload db (tg_ownerId t) (tg_agentId t) (tg_payloadRef t)) of
             None \<Rightarrow> Inl type_error
           | Some request \<Rightarrow>
               andThen (ensure (spl_contentType answer = ''text/plain'' \<and>
                 max (classification_rank (spl_classification request)) (classification_rank dataClassification)
                   \<le> classification_rank (spl_classification answer)) type_error) (\<lambda>_.
               Inr (spl_classification answer))))"

text \<open>The turns of the Run that an Owner message opened and nothing has closed.\<close>

definition admitted_turns :: "thread_db \<Rightarrow> run_input \<Rightarrow> run \<Rightarrow> TurnId list" where
  "admitted_turns db input r = remdups (map tn_id (filter (\<lambda>u. tn_runId u = rin_runId input \<and>
     tn_threadId u = run_threadId r \<and> tn_ownerId u = rcc_ownerId input \<and> tn_agentId u = rcc_agentId input \<and>
     tn_sessionId u = run_sessionId r \<and> tn_committedAt u = None \<and>
     list_ex (\<lambda>m. msg_turnId m = Some (tn_id u) \<and> msg_runId m = Some (tn_runId u) \<and>
       Some (msg_threadId m) = tn_threadId u \<and> msg_ownerId m = tn_ownerId u \<and> msg_agentId m = tn_agentId u \<and>
       msg_role m = role_owner \<and> msg_status m = msg_committed) (th_messages db)) (db_turns db)))"

definition assistant_identity :: "(string \<Rightarrow> string) \<Rightarrow> run_input \<Rightarrow> string" where
  "assistant_identity sha256 input = sha256 (stringify (JArray [JString ''runtime-assistant'',
     JString (rcc_ownerId input), JString (rcc_agentId input), JString (rin_runId input),
     JString (rcc_idempotencyKey input)]))"

definition answer_input ::
  "(string \<Rightarrow> string) \<Rightarrow> run_input \<Rightarrow> run_mutation \<Rightarrow> ThreadId \<Rightarrow> int \<Rightarrow> TurnId \<Rightarrow> string \<Rightarrow>
     product_data_classification \<Rightarrow> product_authority_fence \<Rightarrow> string \<Rightarrow> assistant_input" where
  "answer_input sha256 input mutation threadId revision turnId contentRef classification authority now =
     \<lparr>as_ownerId = rcc_ownerId input, as_agentId = rcc_agentId input, as_threadId = threadId,
      as_expectedThreadRevision = revision, as_messageId = ''assistant:'' @ assistant_identity sha256 input,
      as_turnId = turnId, as_runId = rin_runId input,
      as_idempotencyKey = ''runtime-assistant:'' @ assistant_identity sha256 input,
      as_semanticFingerprint = run_fingerprint sha256 input mutation, as_contentRef = contentRef,
      as_dataClassification = classification, as_committedAt = now, as_resultRef = rcc_payloadRef input,
      as_authority = authority\<rparr>"

text \<open>The answer of a Run of a thread: one admitted turn, and the commit of the message.\<close>

definition commit_answer ::
  "(string \<Rightarrow> string) \<Rightarrow> thread_db \<Rightarrow> run_input \<Rightarrow> run_mutation \<Rightarrow> run \<Rightarrow> ThreadId \<Rightarrow> string \<Rightarrow>
     product_data_classification \<Rightarrow> product_authority_fence \<Rightarrow> string \<Rightarrow> thread_db result" where
  "commit_answer sha256 db input mutation r threadId contentRef classification authority now =
     (case admitted_turns db input r of
        [turnId] \<Rightarrow>
          (case row_of tr_id threadId (th_threads db) of
             None \<Rightarrow> port_fail NOT_FOUND
           | Some thread \<Rightarrow>
               andThen (run_integer (tr_revision thread)) (\<lambda>_.
               andThen (commitAssistantMessage db (answer_input sha256 input mutation threadId
                 (tr_revision thread) turnId contentRef classification authority now))
                 (\<lambda>(db1, outcome). Inr db1)))
      | _ \<Rightarrow> Inl type_error)"

text \<open>A Run without a thread is completed in place.\<close>

definition complete_plain_run :: "thread_db \<Rightarrow> run_input \<Rightarrow> string \<Rightarrow> thread_db" where
  "complete_plain_run db input now = db\<lparr>pdb_work := (pdb_work db)\<lparr>wdb_runs := map (\<lambda>r.
     if rs_id r = rin_runId input
     then r\<lparr>rs_status := run_completed, rs_revision := rs_revision r + 1, rs_updatedAt := now\<rparr> else r) (db_runs db)\<rparr>\<rparr>"

definition completed_run ::
  "(string \<Rightarrow> string) \<Rightarrow> thread_db \<Rightarrow> run_input \<Rightarrow> successful_output \<Rightarrow> product_data_classification \<Rightarrow> run \<Rightarrow>
     product_authority_fence \<Rightarrow> string \<Rightarrow> thread_db result" where
  "completed_run sha256 db input output dataClassification r authority now =
     (case output of
        no_answer \<Rightarrow>
          (case run_threadId r of
             Some t \<Rightarrow> Inl type_error | None \<Rightarrow> Inr (complete_plain_run db input now))
      | assistant_answer contentRef \<Rightarrow>
          andThen (answer_classification db input (run_triggerId r) contentRef dataClassification) (\<lambda>classification.
          case run_threadId r of
            Some t \<Rightarrow> commit_answer sha256 db input (complete_with output dataClassification) r t contentRef
              classification authority now
          | None \<Rightarrow> Inr (complete_plain_run db input now)))"

definition lifecycle_complete ::
  "(string \<Rightarrow> string) \<Rightarrow> thread_db \<Rightarrow> run_input \<Rightarrow> successful_output \<Rightarrow> product_data_classification \<Rightarrow>
     product_authority_fence \<Rightarrow> string \<Rightarrow> (thread_db \<times> run_receipt) result" where
  "lifecycle_complete sha256 db input output dataClassification authority now =
     (let mutation = complete_with output dataClassification in
     andThen (ensure (headroom db) conflict) (\<lambda>_.
     andThen (replay_run sha256 db input mutation) (\<lambda>replay.
     case replay of Some receipt \<Rightarrow> Inr (db, receipt) | None \<Rightarrow>
     andThen (run_authority db input authority now) (\<lambda>_.
     andThen (read_stored_run db (rcc_ownerId input) (rcc_agentId input) (rin_runId input)) (\<lambda>found.
     case found of None \<Rightarrow> port_fail NOT_FOUND | Some stored \<Rightarrow>
     andThen (ensure (sr_revision stored = rin_expectedRevision input) conflict) (\<lambda>_.
     andThen (assertTransition stored run_completed) (\<lambda>_.
     andThen (ensure (\<not> pending_resource db input) conflict) (\<lambda>_.
     andThen (assertPayload db (rcc_ownerId input) (rcc_agentId input) (rcc_payloadRef input)) (\<lambda>_.
     andThen (completed_run sha256 db input output dataClassification (sr_run stored) authority now) (\<lambda>db1.
     andThen (assertExecutionLease db1 input authority now) (\<lambda>_.
     write_run_receipt sha256 db1 input mutation authority now (sr_revision stored + 1))))))))))))"

section \<open>The port\<close>

datatype lifecycle_request =
    request_transition run_input run_status
  | request_cancel run_input
  | request_complete run_input successful_output product_data_classification

fun request_input :: "lifecycle_request \<Rightarrow> run_input" where
  "request_input (request_transition input status) = input"
| "request_input (request_cancel input) = input"
| "request_input (request_complete input output classification) = input"

definition check_request :: "lifecycle_request \<Rightarrow> unit result" where
  "check_request request =
     andThen (ensure (case request of request_cancel input \<Rightarrow> rcc_executionLease input = None | _ \<Rightarrow> True) OtherError) (\<lambda>_.
     andThen (check_command (request_input request)) (\<lambda>_.
     ensure (case request of request_complete input (assistant_answer contentRef) classification \<Rightarrow> contentRef \<noteq> []
             | _ \<Rightarrow> True) OtherError))"

text \<open>\<open>execute\<close>: the bound owner, agent and authority, and the time of the worker.\<close>

definition execute_lifecycle ::
  "(string \<Rightarrow> string) \<Rightarrow> thread_db \<Rightarrow> OwnerId \<Rightarrow> AgentId \<Rightarrow> product_authority_fence \<Rightarrow> lifecycle_request \<Rightarrow> string \<Rightarrow>
     (thread_db \<times> run_receipt) result" where
  "execute_lifecycle sha256 db ow ag authority request now =
     andThen (run_identifier createOwnerId ow) (\<lambda>_.
     andThen (run_identifier createAgentId ag) (\<lambda>_.
     andThen (check_fence authority) (\<lambda>_.
     andThen (check_request request) (\<lambda>_.
     andThen (ensure (rcc_ownerId (request_input request) = ow \<and> rcc_agentId (request_input request) = ag)
       not_authoritative) (\<lambda>_.
     andThen (ensure (now \<noteq> [] \<and> date_parse now \<noteq> None) OtherError) (\<lambda>_.
     case request of
       request_transition input status \<Rightarrow> lifecycle_transition sha256 db input status authority now
     | request_cancel input \<Rightarrow> lifecycle_cancel sha256 db input authority now
     | request_complete input output classification \<Rightarrow>
         lifecycle_complete sha256 db input output classification authority now))))))"

end
