(* ===== verification/Conversation.thy ===== *)
theory Conversation
  imports Run_Lifecycle
begin

text \<open>
  What conversations promise, over every operation of \<open>Thread_Store\<close> and \<open>Run_Lifecycle\<close> and the
  quarantine of \<open>Run_Dispatch\<close>. An abstract system, \<open>core_step\<close>, says how threads, messages, Runs and turns may
  change: a message takes the next sequence number of its thread, an admitted message opens a Run, an
  answer closes it, and a Run moves along the table of its statuses. Every operation of the store refines
  it, and the invariants are proved on the abstract steps.
\<close>

section \<open>The abstract system\<close>

type_synonym core =
  "thread_row list \<times> product_thread_message list \<times> run_state_row list \<times> turn_row list"

definition core :: "thread_db \<Rightarrow> core" where
  "core db = (th_threads db, th_messages db, db_runs db, db_turns db)"

text \<open>What no operation changes in a thread, apart from the number of its messages.\<close>

definition thread_identity :: "thread_row \<Rightarrow> ThreadId \<times> OwnerId \<times> AgentId \<times> string" where
  "thread_identity r = (tr_id r, tr_ownerId r, tr_agentId r, tr_createdAt r)"

text \<open>A thread that waits for its permanent deletion, or has been deleted, does not come back.\<close>

definition past_deletion :: "thread_row \<Rightarrow> bool" where
  "past_deletion r \<longleftrightarrow> row_status r \<in> {thread_deletion_pending, thread_deleted_verified}"

definition edits_thread :: "(thread_row \<Rightarrow> thread_row) \<Rightarrow> thread_row list \<Rightarrow> bool" where
  "edits_thread f ts \<longleftrightarrow> (\<forall>r\<in>set ts. thread_identity (f r) = thread_identity r \<and>
     tr_messageWatermark (f r) = tr_messageWatermark r \<and> (past_deletion r \<longrightarrow> past_deletion (f r)) \<and>
     (f r = r \<or> tr_revision r < tr_revision (f r)))"

definition with_message :: "ThreadId \<Rightarrow> int \<Rightarrow> string \<Rightarrow> thread_row \<Rightarrow> thread_row" where
  "with_message threadId revision at r = (if tr_id r = threadId \<and> tr_revision r = revision
     then r\<lparr>tr_revision := revision + 1, tr_messageWatermark := tr_messageWatermark r + 1, tr_updatedAt := at\<rparr> else r)"

definition run_ident_row :: "run_state_row \<Rightarrow> run_state_row" where
  "run_ident_row r = r\<lparr>rs_status := run_accepted, rs_revision := 0, rs_updatedAt := []\<rparr>"

definition run_may_become :: "run_state_row \<Rightarrow> run_status \<Rightarrow> bool" where
  "run_may_become r s \<longleftrightarrow> s \<in> set (ALLOWED_TRANSITIONS (rs_status r)) \<or>
     s = rs_status r \<and> s = run_reconciling_external_result"

text \<open>\<open>direct\<close> allows answers that are committed outside the Run lifecycle.\<close>

inductive core_step :: "bool \<Rightarrow> core \<Rightarrow> core \<Rightarrow> bool" for direct where
  new_thread: "\<not> has_row tr_id (tr_id row) ts \<Longrightarrow> tr_messageWatermark row = 0 \<Longrightarrow>
     core_step direct (ts, ms, rs, us) (ts @ [row], ms, rs, us)"
| edit: "edits_thread f ts \<Longrightarrow> core_step direct (ts, ms, rs, us) (map f ts, ms, rs, us)"
| admit: "row_of tr_id (msg_threadId m) ts = Some t \<Longrightarrow> row_status t = thread_active \<Longrightarrow>
     msg_sequence m = tr_messageWatermark t + 1 \<Longrightarrow> \<not> has_row msg_id (msg_id m) ms \<Longrightarrow> msg_role m = role_owner \<Longrightarrow>
     msg_ownerId m = tr_ownerId t \<Longrightarrow> msg_agentId m = tr_agentId t \<Longrightarrow> msg_status m = msg_committed \<Longrightarrow>
     \<not> has_row rs_id (rs_id r) rs \<Longrightarrow> rs_status r = run_accepted \<Longrightarrow> rs_threadId r = Some (msg_threadId m) \<Longrightarrow>
     msg_runId m = Some (rs_id r) \<Longrightarrow> msg_turnId m = Some (tn_id u) \<Longrightarrow> tn_committedAt u = None \<Longrightarrow>
     core_step direct (ts, ms, rs, us)
       (map (with_message (msg_threadId m) (tr_revision t) at) ts, ms @ [m], rs @ [r], us @ [u])"
| answer: "row_of tr_id (msg_threadId m) ts = Some t \<Longrightarrow> row_status t = thread_active \<Longrightarrow>
     msg_sequence m = tr_messageWatermark t + 1 \<Longrightarrow> \<not> has_row msg_id (msg_id m) ms \<Longrightarrow> msg_role m = role_agent \<Longrightarrow>
     msg_ownerId m = tr_ownerId t \<Longrightarrow> msg_agentId m = tr_agentId t \<Longrightarrow> msg_status m = msg_committed \<Longrightarrow>
     r \<in> set rs \<Longrightarrow> msg_runId m = Some (rs_id r) \<Longrightarrow> rs_threadId r = Some (msg_threadId m) \<Longrightarrow>
     rs_status r \<notin> set TERMINAL_RUN_STATUSES \<Longrightarrow> direct \<or> run_may_become r run_completed \<Longrightarrow>
     msg_turnId m = Some turn \<Longrightarrow>
     core_step direct (ts, ms, rs, us)
       (map (with_message (msg_threadId m) (tr_revision t) at) ts, ms @ [m],
        map (\<lambda>x. if rs_id x = rs_id r
          then x\<lparr>rs_status := run_completed, rs_revision := rs_revision x + 1, rs_updatedAt := at\<rparr> else x) rs,
        map (\<lambda>x. if tn_id x = turn then x\<lparr>tn_committedAt := Some at\<rparr> else x) us)"
| move: "edits_thread f ts \<Longrightarrow> r \<in> set rs \<Longrightarrow> run_may_become r s \<Longrightarrow>
     s = run_completed \<longrightarrow> rs_threadId r = None \<Longrightarrow> core_step direct (ts, ms, rs, us) (map f ts, ms,
       map (\<lambda>x. if rs_id x = rs_id r
         then x\<lparr>rs_status := s, rs_revision := rs_revision x + 1, rs_updatedAt := at\<rparr> else x) rs, us)"

section \<open>Invariants of the abstract system\<close>

definition messages_ok :: "thread_row list \<Rightarrow> product_thread_message list \<Rightarrow> bool" where
  "messages_ok ts ms \<longleftrightarrow> distinct (map tr_id ts) \<and> distinct (map msg_id ms) \<and>
     (\<forall>m\<in>set ms. msg_status m = msg_committed) \<and>
     (\<forall>t\<in>set ts. 0 \<le> tr_messageWatermark t \<and>
        map msg_sequence (filter (\<lambda>m. msg_threadId m = tr_id t) ms) = [1..tr_messageWatermark t]) \<and>
     (\<forall>m\<in>set ms. \<exists>t\<in>set ts. tr_id t = msg_threadId m \<and> tr_ownerId t = msg_ownerId m \<and> tr_agentId t = msg_agentId m)"

definition answers :: "product_thread_message list \<Rightarrow> RunId \<Rightarrow> product_thread_message list" where
  "answers ms runId = filter (\<lambda>m. msg_role m = role_agent \<and> msg_runId m = Some runId) ms"

definition answers_ok :: "run_state_row list \<Rightarrow> product_thread_message list \<Rightarrow> bool" where
  "answers_ok rs ms \<longleftrightarrow> distinct (map rs_id rs) \<and>
     (\<forall>r\<in>set rs. rs_threadId r \<noteq> None \<longrightarrow>
        length (answers ms (rs_id r)) = (if rs_status r = run_completed then 1 else 0)) \<and>
     (\<forall>m\<in>set ms. msg_role m = role_agent \<longrightarrow>
        (\<exists>r\<in>set rs. msg_runId m = Some (rs_id r) \<and> rs_threadId r = Some (msg_threadId m)))"

fun core_inv :: "core \<Rightarrow> bool" where
  "core_inv (ts, ms, rs, us) \<longleftrightarrow> messages_ok ts ms \<and> answers_ok rs ms"

lemma with_message_simps [simp]:
  "tr_id (with_message i n at r) = tr_id r" "tr_ownerId (with_message i n at r) = tr_ownerId r"
  "tr_agentId (with_message i n at r) = tr_agentId r"
  by (simp_all add: with_message_def)

lemma edits_threadD:
  "edits_thread f ts \<Longrightarrow> r \<in> set ts \<Longrightarrow> tr_id (f r) = tr_id r \<and> tr_ownerId (f r) = tr_ownerId r \<and>
     tr_agentId (f r) = tr_agentId r \<and> tr_createdAt (f r) = tr_createdAt r \<and>
     tr_messageWatermark (f r) = tr_messageWatermark r"
  by (auto simp: edits_thread_def thread_identity_def)

lemma messages_ok_edit:
  assumes ok: "messages_ok ts ms" and edit: "edits_thread f ts"
  shows "messages_ok (map f ts) ms"
proof -
  note e = edits_threadD [OF edit]
  have ids: "map tr_id (map f ts) = map tr_id ts" using e by simp
  show ?thesis unfolding messages_ok_def ids
  proof (intro conjI ballI)
    fix t assume "t \<in> set (map f ts)"
    then obtain r where "r \<in> set ts" "t = f r" by auto
    then show "0 \<le> tr_messageWatermark t"
      "map msg_sequence (filter (\<lambda>m. msg_threadId m = tr_id t) ms) = [1..tr_messageWatermark t]"
      using ok e [of r] by (auto simp: messages_ok_def)
  next
    fix m assume "m \<in> set ms"
    with ok obtain t where t: "t \<in> set ts" "tr_id t = msg_threadId m \<and> tr_ownerId t = msg_ownerId m \<and> tr_agentId t = msg_agentId m"
      unfolding messages_ok_def by blast
    then have "f t \<in> set (map f ts)" by simp
    with t e [OF t(1)] show "\<exists>t\<in>set (map f ts). tr_id t = msg_threadId m \<and> tr_ownerId t = msg_ownerId m \<and> tr_agentId t = msg_agentId m"
      by (intro bexI [of _ "f t"]) auto
  qed (use ok in \<open>auto simp: messages_ok_def\<close>)
qed

lemma messages_ok_new:
  assumes ok: "messages_ok ts ms" and fresh: "\<not> has_row tr_id (tr_id row) ts" and zero: "tr_messageWatermark row = 0"
  shows "messages_ok (ts @ [row]) ms"
proof -
  have "msg_threadId m \<noteq> tr_id row" if "m \<in> set ms" for m
    using ok fresh that by (auto simp: messages_ok_def has_row_def list_ex_iff)
  then have "filter (\<lambda>m. msg_threadId m = tr_id row) ms = []" by (simp add: filter_empty_conv)
  with ok fresh zero show ?thesis
    by (auto simp: messages_ok_def has_row_def list_ex_iff)
qed

lemma messages_ok_append:
  assumes ok: "messages_ok ts ms" and t: "row_of tr_id (msg_threadId m) ts = Some t"
    and seq: "msg_sequence m = tr_messageWatermark t + 1" and fresh: "\<not> has_row msg_id (msg_id m) ms"
    and scope: "msg_ownerId m = tr_ownerId t" "msg_agentId m = tr_agentId t" and status: "msg_status m = msg_committed"
  shows "messages_ok (map (with_message (msg_threadId m) (tr_revision t) at) ts) (ms @ [m])"
proof -
  let ?f = "with_message (msg_threadId m) (tr_revision t) at"
  have inset: "t \<in> set ts" and tid: "tr_id t = msg_threadId m" using row_of_SomeD [OF t] by auto
  have same: "r = t" if "r \<in> set ts" "tr_id r = msg_threadId m" for r
    using ok that inset tid by (auto simp: messages_ok_def distinct_map inj_on_def)
  have ids: "map tr_id (map ?f ts) = map tr_id ts" by simp
  show ?thesis unfolding messages_ok_def ids
  proof (intro conjI ballI)
    fix x assume "x \<in> set (map ?f ts)"
    then obtain r where r: "r \<in> set ts" "x = ?f r" by auto
    show "0 \<le> tr_messageWatermark x"
      using ok r by (auto simp: messages_ok_def with_message_def)
    show "map msg_sequence (filter (\<lambda>y. msg_threadId y = tr_id x) (ms @ [m])) = [1..tr_messageWatermark x]"
    proof (cases "tr_id r = msg_threadId m")
      case True
      with r same have [simp]: "r = t" by blast
      have "map msg_sequence (filter (\<lambda>y. msg_threadId y = tr_id t) ms) = [1..tr_messageWatermark t]"
        and "0 \<le> tr_messageWatermark t" using ok inset by (auto simp: messages_ok_def)
      then show ?thesis using r tid seq
        by (simp add: with_message_def upto_rec2)
    next
      case False
      with ok r show ?thesis by (auto simp: messages_ok_def with_message_def)
    qed
  next
    fix y assume y: "y \<in> set (ms @ [m])"
    have "\<exists>t\<in>set ts. tr_id t = msg_threadId y \<and> tr_ownerId t = msg_ownerId y \<and> tr_agentId t = msg_agentId y"
      using y ok inset tid scope by (auto simp: messages_ok_def)
    then show "\<exists>t\<in>set (map ?f ts). tr_id t = msg_threadId y \<and> tr_ownerId t = msg_ownerId y \<and> tr_agentId t = msg_agentId y"
      by auto
  qed (use ok fresh status in \<open>auto simp: messages_ok_def has_row_def list_ex_iff\<close>)
qed

lemma answers_append: "answers (ms @ [m]) i = answers ms i @
    (if msg_role m = role_agent \<and> msg_runId m = Some i then [m] else [])"
  by (simp add: answers_def)

lemma answers_ok_runs:
  assumes ok: "answers_ok rs ms"
    and same: "\<And>r. r \<in> set rs \<Longrightarrow> rs_id (f r) = rs_id r \<and> rs_threadId (f r) = rs_threadId r \<and>
      (rs_threadId r \<noteq> None \<longrightarrow> (rs_status (f r) = run_completed \<longleftrightarrow> rs_status r = run_completed))"
  shows "answers_ok (map f rs) ms"
proof -
  have ids: "map rs_id (map f rs) = map rs_id rs" using same by simp
  show ?thesis unfolding answers_ok_def ids
  proof (intro conjI ballI impI)
    fix x assume "x \<in> set (map f rs)" "rs_threadId x \<noteq> None"
    then obtain r where "r \<in> set rs" "x = f r" by auto
    with ok same [of r] \<open>rs_threadId x \<noteq> None\<close>
    show "length (answers ms (rs_id x)) = (if rs_status x = run_completed then 1 else 0)"
      by (simp add: answers_ok_def)
  next
    fix m assume "m \<in> set ms" "msg_role m = role_agent"
    with ok obtain r where "r \<in> set rs" "msg_runId m = Some (rs_id r)" "rs_threadId r = Some (msg_threadId m)"
      by (auto simp: answers_ok_def)
    with same [of r] show "\<exists>x\<in>set (map f rs). msg_runId m = Some (rs_id x) \<and> rs_threadId x = Some (msg_threadId m)"
      by (intro bexI [of _ "f r"]) auto
  qed (use ok in \<open>simp add: answers_ok_def\<close>)
qed

lemma answers_ok_admit:
  assumes ok: "answers_ok rs ms" and fresh: "\<not> has_row rs_id (rs_id r) rs" and role: "msg_role m = role_owner"
    and new: "rs_status r = run_accepted"
  shows "answers_ok (rs @ [r]) (ms @ [m])"
proof -
  have "answers ms (rs_id r) = []"
    using ok fresh by (force simp: answers_def answers_ok_def filter_empty_conv has_row_def list_ex_iff)
  with ok fresh role new show ?thesis
    by (auto simp: answers_ok_def answers_append has_row_def list_ex_iff)
qed

lemma answers_ok_answer:
  assumes ok: "answers_ok rs ms" and r: "r \<in> set rs" and role: "msg_role m = role_agent"
    and run: "msg_runId m = Some (rs_id r)" "rs_threadId r = Some (msg_threadId m)"
    and live: "rs_status r \<noteq> run_completed"
  shows "answers_ok (map (\<lambda>x. if rs_id x = rs_id r
     then x\<lparr>rs_status := run_completed, rs_revision := rs_revision x + 1, rs_updatedAt := at\<rparr> else x) rs) (ms @ [m])"
    (is "answers_ok (map ?f rs) _")
proof -
  have same: "x = r" if "x \<in> set rs" "rs_id x = rs_id r" for x
    using ok that r by (auto simp: answers_ok_def distinct_map inj_on_def)
  have ids: "map rs_id (map ?f rs) = map rs_id rs" by simp
  show ?thesis unfolding answers_ok_def ids
  proof (intro conjI ballI impI)
    fix y assume "y \<in> set (map ?f rs)" "rs_threadId y \<noteq> None"
    then obtain x where x: "x \<in> set rs" "y = ?f x" by auto
    show "length (answers (ms @ [m]) (rs_id y)) = (if rs_status y = run_completed then 1 else 0)"
    proof (cases "rs_id x = rs_id r")
      case True
      with same x have [simp]: "x = r" by blast
      have "answers ms (rs_id r) = []" using ok r run(2) live by (auto simp: answers_ok_def)
      then show ?thesis using x run role by (simp add: answers_append)
    next
      case False
      with ok x run \<open>rs_threadId y \<noteq> None\<close> show ?thesis by (auto simp: answers_ok_def answers_append)
    qed
  next
    fix n assume n: "n \<in> set (ms @ [m])" "msg_role n = role_agent"
    have "\<exists>x\<in>set rs. msg_runId n = Some (rs_id x) \<and> rs_threadId x = Some (msg_threadId n)"
    proof (cases "n = m")
      case True with r run show ?thesis by auto
    next
      case False with ok n show ?thesis by (auto simp: answers_ok_def)
    qed
    then obtain x where "x \<in> set rs" "msg_runId n = Some (rs_id x)" "rs_threadId x = Some (msg_threadId n)" by blast
    then show "\<exists>y\<in>set (map ?f rs). msg_runId n = Some (rs_id y) \<and> rs_threadId y = Some (msg_threadId n)"
      by (intro bexI [of _ "?f x"]) auto
  qed (use ok in \<open>simp add: answers_ok_def\<close>)
qed

lemma completed_or_not: "run_may_become r s \<Longrightarrow> rs_status r \<noteq> run_completed"
  by (auto simp: run_may_become_def)

lemma core_step_inv: "core_step direct c c' \<Longrightarrow> core_inv c \<Longrightarrow> core_inv c'"
proof (induction rule: core_step.induct)
  case (new_thread row ts ms rs us)
  then show ?case by (simp add: messages_ok_new)
next
  case (edit f ts ms rs us)
  then show ?case by (simp add: messages_ok_edit)
next
  case (admit m ts t ms r rs u us at)
  then show ?case by (simp add: messages_ok_append answers_ok_admit)
next
  case (answer m ts t ms r rs turn us at)
  then have "rs_status r \<noteq> run_completed" by (auto simp: TERMINAL_RUN_STATUSES_def)
  with answer show ?case by (simp add: messages_ok_append answers_ok_answer)
next
  case (move f ts r rs s ms us at)
  then have ok: "answers_ok rs ms" "messages_ok ts ms" by simp_all
  have same: "x = r" if "x \<in> set rs" "rs_id x = rs_id r" for x
    using ok(1) that move.hyps(2) by (auto simp: answers_ok_def distinct_map inj_on_def)
  have "answers_ok (map (\<lambda>x. if rs_id x = rs_id r
     then x\<lparr>rs_status := s, rs_revision := rs_revision x + 1, rs_updatedAt := at\<rparr> else x) rs) ms"
    using move.hyps(4) completed_or_not [OF move.hyps(3)] by (intro answers_ok_runs [OF ok(1)]) (auto dest!: same)
  with messages_ok_edit [OF ok(2) move.hyps(1)] show ?case by simp
qed

section \<open>What the shared writes do\<close>

definition receipts_grow :: "receipt_row list \<Rightarrow> receipt_row list \<Rightarrow> bool" where
  "receipts_grow rs rs' \<longleftrightarrow> rs' = rs \<or> (\<exists>r. rs' = rs @ [r] \<and> \<not> has_row receipt_key (receipt_key r) rs)"

definition gateway_grows :: "gateway_event list \<Rightarrow> gateway_event list \<Rightarrow> bool" where
  "gateway_grows es es' \<longleftrightarrow> es' = es \<or> (\<exists>e. es' = es @ [e] \<and> ge_cursorSequence e = max_cursor es + 1 \<and>
     ge_cursor e = ''thread-cursor:'' @ show_int (max_cursor es + 1))"

lemma grow_refl [simp]: "receipts_grow rs rs" "gateway_grows es es"
  by (simp_all add: receipts_grow_def gateway_grows_def)

lemma insert_event_Inr:
  "insert_event ow ag e db = Inr db' \<longleftrightarrow> \<not> has_row ev_id (ev_id e) (pdb_events db) \<and>
     has_row py_ref (ev_payloadRef e) (pdb_payloads db) \<and> db' = db\<lparr>pdb_events := pdb_events db @ [pending_row ow ag e]\<rparr>"
  by (auto simp: insert_event_def inverts)

lemma appendGatewayEvent_Inr:
  "appendGatewayEvent db e = Inr db' \<Longrightarrow> \<exists>es. gateway_grows (th_gatewayEvents db) es \<and> db' = db\<lparr>th_gatewayEvents := es\<rparr>"
proof -
  let ?n = "max_cursor (th_gatewayEvents db) + 1"
  let ?row = "e\<lparr>ge_cursorSequence := ?n, ge_cursor := ''thread-cursor:'' @ show_int ?n\<rparr>"
  assume "appendGatewayEvent db e = Inr db'"
  then have "db' = db\<lparr>th_gatewayEvents := th_gatewayEvents db @ [?row]\<rparr>"
    unfolding appendGatewayEvent_def Let_def by (elim andThenE) simp
  moreover have "gateway_grows (th_gatewayEvents db) (th_gatewayEvents db @ [?row])"
    unfolding gateway_grows_def by (rule disjI2, rule exI [of _ ?row]) simp
  ultimately show ?thesis by blast
qed

lemma writeReceipt_Inr:
  assumes "writeReceipt db input = Inr (db', r)"
  shows "r = receiptFromRow (new_receipt input) \<and> \<not> has_row receipt_key (receipt_key (new_receipt input)) (th_receipts db) \<and>
    (\<exists>evs es. gateway_grows (th_gatewayEvents db) es \<and>
      db' = db\<lparr>th_receipts := th_receipts db @ [new_receipt input], pdb_events := evs, th_gatewayEvents := es\<rparr>)"
proof -
  obtain db1 db2 where s: "insert_receipt db (new_receipt input) = Inr db1"
      "insert_event (wr_ownerId input) (wr_agentId input) (thread_changed_event input) db1 = Inr db2"
      "appendGatewayEvent db2 (receipt_event input) = Inr db'" "r = receiptFromRow (new_receipt input)"
    using assms by (auto simp: writeReceipt_def inverts)
  from s(1) have 1: "db1 = db\<lparr>th_receipts := th_receipts db @ [new_receipt input]\<rparr>"
      "\<not> has_row receipt_key (receipt_key (new_receipt input)) (th_receipts db)"
    by (auto simp: insert_receipt_def inverts)
  obtain es where 3: "gateway_grows (th_gatewayEvents db2) es" "db' = db2\<lparr>th_gatewayEvents := es\<rparr>"
    using appendGatewayEvent_Inr [OF s(3)] by blast
  have 2: "db2 = db1\<lparr>pdb_events := pdb_events db1 @ [pending_row (wr_ownerId input) (wr_agentId input) (thread_changed_event input)]\<rparr>"
    using s(2) by (simp add: insert_event_Inr)
  have g: "gateway_grows (th_gatewayEvents db) es" using 3(1) by (simp add: 2 1(1))
  have "db' = db\<lparr>th_receipts := th_receipts db @ [new_receipt input],
      pdb_events := pdb_events db1 @ [pending_row (wr_ownerId input) (wr_agentId input) (thread_changed_event input)],
      th_gatewayEvents := es\<rparr>"
    by (simp add: 3(2) 2 1(1))
  with g s(4) 1(2) show ?thesis by blast
qed

lemma update_threads_Inr:
  "update_threads db selected change = Inr (db', n) \<longleftrightarrow>
     list_all (\<lambda>r. selected r \<longrightarrow> thread_checks db (change r)) (th_threads db) \<and>
     db' = db\<lparr>th_threads := map (\<lambda>r. if selected r then change r else r) (th_threads db)\<rparr> \<and>
     n = length (filter selected (th_threads db))"
  by (auto simp: update_threads_def inverts)

lemma replay_receipt_Inr:
  "replay_receipt db ow ag key type fingerprint = Inr found \<longleftrightarrow> found = findReceipt db ow ag key \<and>
     (\<forall>r. found = Some r \<longrightarrow> tm_commandType r = type \<and> tm_semanticFingerprint r = fingerprint)"
  by (auto simp: replay_receipt_def inverts split: option.splits)

lemma core_simps [simp]:
  "core (db\<lparr>th_receipts := a\<rparr>) = core db" "core (db\<lparr>pdb_events := b\<rparr>) = core db"
  "core (db\<lparr>th_gatewayEvents := c\<rparr>) = core db" "core (db\<lparr>th_lineages := d\<rparr>) = core db"
  "core (db\<lparr>th_search := e\<rparr>) = core db" "core (db\<lparr>th_titleSearch := f\<rparr>) = core db"
  "core (db\<lparr>th_triggers := g\<rparr>) = core db" "core (db\<lparr>th_modelSelections := h\<rparr>) = core db"
  "core (db\<lparr>pdb_commandResults := i\<rparr>) = core db"
  by (simp_all add: core_def)

text \<open>What an operation may do: nothing, or one step of the core with at most one receipt and one event.\<close>

definition conversation_effect :: "bool \<Rightarrow> thread_db \<Rightarrow> thread_db \<Rightarrow> bool" where
  "conversation_effect direct db db' \<longleftrightarrow>
     (core db' = core db \<or> core_step direct (core db) (core db')) \<and>
     receipts_grow (th_receipts db) (th_receipts db') \<and>
     gateway_grows (th_gatewayEvents db) (th_gatewayEvents db')"

lemma effect_refl_conv [simp]: "conversation_effect direct db db"
  by (simp add: conversation_effect_def)

lemma receipt_effect:
  assumes wrote: "writeReceipt db1 input = Inr (db', r)"
    and core: "core db1 = core db \<or> core_step direct (core db) (core db1)"
    and frame: "th_receipts db1 = th_receipts db" "th_gatewayEvents db1 = th_gatewayEvents db"
  shows "conversation_effect direct db db'"
  using writeReceipt_Inr [OF wrote] core frame
  by (auto simp: conversation_effect_def receipts_grow_def)

lemma core_invD:
  assumes "core_inv (core db)"
  shows "distinct (map tr_id (th_threads db))" "distinct (map rs_id (db_runs db))"
    "messages_ok (th_threads db) (th_messages db)" "answers_ok (db_runs db) (th_messages db)"
  using assms by (auto simp: core_def messages_ok_def answers_ok_def)

lemma thread_in_scope_row:
  assumes "core_inv (core db)" "thread_in_scope db ow ag i = Some t"
  shows "row_of tr_id i (th_threads db) = Some t" "tr_id t = i" "tr_ownerId t = ow" "tr_agentId t = ag"
  using find_SomeD [OF assms(2) [unfolded thread_in_scope_def]] core_invD(1) [OF assms(1)]
  by (auto simp: row_of_eq_iff)

lemma unique_row:
  assumes "distinct (map key rows)" "x \<in> set rows" "y \<in> set rows" "key x = key y"
  shows "x = y"
  using assms by (auto simp: distinct_map inj_on_def)

section \<open>Operations on threads refine the abstract system\<close>

lemma insertThread_Inr:
  "insertThread db t = Inr db' \<Longrightarrow> \<not> has_row tr_id (pt_id t) (th_threads db) \<and>
     db' = db\<lparr>th_threads := th_threads db @ [thread_row_of t]\<rparr>"
  by (simp add: insertThread_def inverts)

lemma thread_row_of_simps [simp]:
  "tr_id (thread_row_of t) = pt_id t" "tr_messageWatermark (thread_row_of t) = pt_messageWatermark t"
  "tr_revision (thread_row_of t) = pt_revision t"
  by (simp_all add: thread_row_of_def)

lemma insertThread_core:
  assumes "insertThread db t = Inr db'" "pt_messageWatermark t = 0"
  shows "core_step direct (core db) (core db')"
  using insertThread_Inr [OF assms(1)] assms(2) core_step.new_thread [of "thread_row_of t" "th_threads db"]
  by (simp add: core_def)

lemma create_effect:
  assumes "create_thread db input = Inr (db', t, r)" "pt_messageWatermark (tc_thread input) = 0"
  shows "conversation_effect direct db db'"
proof -
  note def = assms(1) [unfolded create_thread_def Let_def]
  obtain replay where replay: "replay_receipt db (pt_ownerId (tc_thread input)) (pt_agentId (tc_thread input))
      (tc_idempotencyKey input) ''thread.create'' (tc_semanticFingerprint input) = Inr replay"
    using def by (elim andThenE)
  show ?thesis
  proof (cases replay)
    case (Some receipt)
    with def replay show ?thesis by (auto simp: inverts split: option.splits)
  next
    case None
    then obtain db1 where ins: "insertThread db (tc_thread input) = Inr db1"
        and wrote: "writeReceipt db1 (create_receipt input) = Inr (db', r)"
      using def replay by (auto simp: inverts)
    have "core_step direct (core db) (core db1)" using insertThread_core [OF ins assms(2)] .
    then show ?thesis using receipt_effect [OF wrote disjI2] insertThread_Inr [OF ins] by simp
  qed
qed

lemma insert_lineage_Inr:
  "insert_lineage db row = Inr db' \<Longrightarrow> db' = db\<lparr>th_lineages := th_lineages db @ [row]\<rparr>"
  by (simp add: insert_lineage_def inverts)

lemma fork_effect:
  assumes "fork_thread db input = Inr (db', t, r)" "pt_messageWatermark (fk_targetThread input) = 0"
  shows "conversation_effect direct db db'"
proof -
  note def = assms(1) [unfolded fork_thread_def Let_def]
  obtain replay where replay: "replay_receipt db (fk_ownerId input) (fk_agentId input)
      (fk_idempotencyKey input) ''thread.fork'' (fk_semanticFingerprint input) = Inr replay"
    using def by (elim andThenE)
  show ?thesis
  proof (cases replay)
    case (Some receipt)
    with def replay show ?thesis by (auto simp: inverts split: option.splits)
  next
    case None
    then obtain db1 db2 row where ins: "insertThread db (fk_targetThread input) = Inr db1"
        and line: "insert_lineage db1 row = Inr db2"
        and wrote: "writeReceipt db2 (fork_receipt input) = Inr (db', r)"
      using def replay by (auto simp: inverts split: option.splits)
    note db2 = insert_lineage_Inr [OF line]
    have "core_step direct (core db) (core db2)" using insertThread_core [OF ins assms(2)] by (simp add: db2)
    then show ?thesis using receipt_effect [OF wrote disjI2] insertThread_Inr [OF ins] by (simp add: db2)
  qed
qed

text \<open>
  An update that carries out a command of the domain on the thread it read, whatever the lineage that was
  read with it: an update does not write it. The only caller, \<open>ThreadCommandService.update\<close>, moves a thread
  to active or archived and never to a state of deletion.
\<close>

fun client_edit :: "thread_command \<Rightarrow> bool" where
  "client_edit (Transition s at) \<longleftrightarrow> s = thread_active \<or> s = thread_archived"
| "client_edit (Rename ref source at) \<longleftrightarrow> True"
| "client_edit (SetAnswerLocale l at) \<longleftrightarrow> True"
| "client_edit (SetPinOrder p at) \<longleftrightarrow> True"

definition domain_update :: "thread_db \<Rightarrow> update_input \<Rightarrow> bool" where
  "domain_update db input \<longleftrightarrow> (\<exists>current lin c.
     readThread db (tu_ownerId input) (tu_agentId input) (pt_id (tu_thread input)) = Some current \<and>
     pt_revision current = tu_expectedRevision input \<and> client_edit c \<and>
     thread_apply (current\<lparr>pt_lineage := lin\<rparr>) c = Inr (tu_thread input))"

lemma readThread_Some:
  "readThread db ow ag i = Some t \<longleftrightarrow> (\<exists>row. thread_in_scope db ow ag i = Some row \<and> t = fromThreadRow db row)"
  by (auto simp: readThread_def)

lemma fromThreadRow_simps [simp]:
  "pt_id (fromThreadRow db row) = tr_id row" "pt_revision (fromThreadRow db row) = tr_revision row"
  "pt_status (fromThreadRow db row) = row_status row"
  "pt_messageWatermark (fromThreadRow db row) = tr_messageWatermark row"
  by (simp_all add: fromThreadRow_def row_status_def)

lemma thread_apply_keeps:
  "thread_apply t c = Inr t' \<Longrightarrow> pt_id t' = pt_id t \<and> pt_ownerId t' = pt_ownerId t \<and> pt_agentId t' = pt_agentId t \<and>
     pt_createdAt t' = pt_createdAt t \<and> pt_messageWatermark t' = pt_messageWatermark t \<and>
     pt_revision t' = pt_revision t + 1"
  by (cases c) (auto simp: thread_op_defs split: if_splits option.splits sum.splits)

lemma thread_apply_past_deletion:
  "thread_apply t c = Inr t' \<Longrightarrow> client_edit c \<Longrightarrow> pt_status t \<in> {thread_deletion_pending, thread_deleted_verified} \<Longrightarrow>
     pt_status t' = pt_status t"
  by (cases c) (auto simp: thread_op_defs split: if_splits option.splits sum.splits)

lemma written_status: "row_status (written_thread t r) = pt_status t"
  by (cases "pt_status t") (simp_all add: row_status_def written_thread_def thread_row_of_def)

lemma update_effect:
  assumes inv: "core_inv (core db)" and op: "update_thread db input = Inr (db', t, r)" and dom: "domain_update db input"
  shows "conversation_effect direct db db'"
proof -
  note def = op [unfolded update_thread_def Let_def]
  let ?sel = "\<lambda>r. tr_id r = pt_id (tu_thread input) \<and> tr_ownerId r = tu_ownerId input \<and>
     tr_agentId r = tu_agentId input \<and> tr_revision r = tu_expectedRevision input"
  let ?f = "\<lambda>r. if ?sel r then written_thread (tu_thread input) r else r"
  obtain replay where replay: "replay_receipt db (tu_ownerId input) (tu_agentId input)
      (tu_idempotencyKey input) (tu_commandType input) (tu_semanticFingerprint input) = Inr replay"
    using def by (elim andThenE)
  show ?thesis
  proof (cases replay)
    case (Some receipt)
    with def replay show ?thesis by (auto simp: inverts split: option.splits)
  next
    case None
    then obtain db1 n where upd: "update_threads db ?sel (written_thread (tu_thread input)) = Inr (db1, n)"
        and wrote: "writeReceipt db1 (update_receipt input) = Inr (db', r)"
      using def replay by (auto simp: inverts)
    from upd have db1: "db1 = db\<lparr>th_threads := map ?f (th_threads db)\<rparr>" by (simp add: update_threads_Inr)
    obtain current lin c row where row: "thread_in_scope db (tu_ownerId input) (tu_agentId input) (pt_id (tu_thread input)) = Some row"
        and cur: "current = fromThreadRow db row" "thread_apply (current\<lparr>pt_lineage := lin\<rparr>) c = Inr (tu_thread input)"
        and client: "client_edit c"
      using dom by (auto simp: domain_update_def readThread_def)
    note rows = thread_in_scope_row [OF inv row]
    have "edits_thread ?f (th_threads db)"
      unfolding edits_thread_def
    proof (intro ballI)
      fix x assume x: "x \<in> set (th_threads db)"
      show "thread_identity (?f x) = thread_identity x \<and> tr_messageWatermark (?f x) = tr_messageWatermark x \<and>
          (past_deletion x \<longrightarrow> past_deletion (?f x)) \<and> (?f x = x \<or> tr_revision x < tr_revision (?f x))"
      proof (cases "?sel x")
        case True
        then have "x = row"
          using unique_row [OF core_invD(1) [OF inv] x] row_of_SomeD [OF rows(1)] by auto
        moreover have "past_deletion row \<longrightarrow> past_deletion (written_thread (tu_thread input) row)"
          using thread_apply_past_deletion [OF cur(2) client] by (auto simp: past_deletion_def written_status cur(1))
        ultimately show ?thesis using thread_apply_keeps [OF cur(2)] True
          by (simp add: cur(1) thread_identity_def) (simp add: written_thread_def thread_row_of_def fromThreadRow_def)
      qed auto
    qed
    then have "core_step direct (core db) (core db1)"
      using core_step.edit [of ?f "th_threads db"] by (simp add: core_def db1)
    then show ?thesis using receipt_effect [OF wrote disjI2] by (simp add: db1)
  qed
qed

lemma resolved_outcome_db: "resolved_outcome db input receipt = Inr (db', im, b, r) \<Longrightarrow> db' = db \<and> r = receipt"
  by (auto simp: resolved_outcome_def inverts split: option.splits)

lemma write_job_core [simp]: "core (write_job db input j) = core db"
  "th_receipts (write_job db input j) = th_receipts db" "th_gatewayEvents (write_job db input j) = th_gatewayEvents db"
  by (simp_all add: write_job_def core_def)

lemma resolve_effect:
  assumes "resolveDeletionTask db input = Inr (db', im, b, r)"
  shows "conversation_effect direct db db'"
proof -
  note def = assms [unfolded resolveDeletionTask_def Let_def]
  obtain replay where replay: "replay_receipt db (rt_ownerId input) (rt_agentId input)
      (rt_idempotencyKey input) ''thread.task.resolve'' (rt_semanticFingerprint input) = Inr replay"
    using def by (elim andThenE)
  show ?thesis
  proof (cases replay)
    case (Some receipt)
    with def replay show ?thesis by (auto simp: inverts dest: resolved_outcome_db)
  next
    case None
    then obtain n j db2 receipt where
        wrote: "writeReceipt (write_job db input j) (resolve_receipt input n) = Inr (db2, receipt)"
        and out: "resolved_outcome db2 input receipt = Inr (db', im, b, r)"
      using def replay by (auto simp: inverts split: option.splits)
    from receipt_effect [OF wrote, where direct = direct and db = db] resolved_outcome_db [OF out] show ?thesis by simp
  qed
qed

lemma deletion_row_simps [simp]:
  "tr_id (deletion_row input n r) = tr_id r" "tr_messageWatermark (deletion_row input n r) = tr_messageWatermark r"
  "thread_identity (deletion_row input n r) = thread_identity r" "tr_revision (deletion_row input n r) = n"
  by (simp_all add: deletion_row_def thread_identity_def)

lemma deletion_effect:
  assumes inv: "core_inv (core db)" and op: "requestDeletion db input = Inr (db', t, im, r)"
  shows "conversation_effect direct db db'"
proof -
  note def = op [unfolded requestDeletion_def Let_def]
  obtain replay where replay: "replay_receipt db (rd_ownerId input) (rd_agentId input)
      (rd_idempotencyKey input) (deletion_command (rd_mode input)) (rd_semanticFingerprint input) = Inr replay"
    using def by (elim andThenE)
  show ?thesis
  proof (cases replay)
    case (Some receipt)
    with def replay show ?thesis by (auto simp: inverts split: option.splits)
  next
    case None
    let ?sel = "\<lambda>r. tr_id r = rd_threadId input \<and> tr_ownerId r = rd_ownerId input \<and>
       tr_agentId r = rd_agentId input \<and> tr_revision r = rd_expectedThreadRevision input"
    from def replay None obtain db1 n row where
        row: "thread_in_scope db (rd_ownerId input) (rd_agentId input) (rd_threadId input) = Some row"
          "deletable (rd_mode input) (row_status row)"
        and upd: "update_threads db ?sel (deletion_row input (rd_expectedThreadRevision input + 1)) = Inr (db1, n)"
        and wrote: "writeReceipt (db1\<lparr>th_search := filter (\<lambda>s. sp_threadId s \<noteq> rd_threadId input) (th_search db1),
            th_titleSearch := filter (\<lambda>s. tp_threadId s \<noteq> rd_threadId input) (th_titleSearch db1)\<rparr>)
            (deletion_receipt input (rd_expectedThreadRevision input + 1)) = Inr (db', r)"
      by (auto simp: inverts readThread_Some split: option.splits)
    let ?f = "\<lambda>r. if ?sel r then deletion_row input (rd_expectedThreadRevision input + 1) r else r"
    from upd have db1: "db1 = db\<lparr>th_threads := map ?f (th_threads db)\<rparr>" by (simp add: update_threads_Inr)
    have "\<not> past_deletion x" if "x \<in> set (th_threads db)" "?sel x" for x
    proof -
      have "x = row"
        using unique_row [OF core_invD(1) [OF inv] that(1)] row_of_SomeD [OF thread_in_scope_row(1) [OF inv row(1)]] that(2) by auto
      with row(2) show ?thesis by (auto simp: past_deletion_def deletable_def)
    qed
    then have "edits_thread ?f (th_threads db)" by (auto simp: edits_thread_def)
    then have "core_step direct (core db) (core db1)"
      using core_step.edit [of ?f "th_threads db"] by (simp add: core_def db1)
    then show ?thesis using receipt_effect [OF wrote disjI2] by (simp add: db1)
  qed
qed

section \<open>Messages refine the abstract system\<close>

lemma active_thread_Inr:
  "active_thread db ow ag i n = Inr t \<longleftrightarrow> (\<exists>row. thread_in_scope db ow ag i = Some row \<and> t = fromThreadRow db row \<and>
     row_status row = thread_active \<and> tr_revision row = n)"
  by (auto simp: active_thread_def readThread_def inverts split: option.splits)

lemma advance_thread_with_message:
  assumes "advance_thread db i (tr_revision row) (tr_messageWatermark row + 1) at = Inr db'"
    and "distinct (map tr_id (th_threads db))" "row \<in> set (th_threads db)" "tr_id row = i"
  shows "db' = db\<lparr>th_threads := map (with_message i (tr_revision row) at) (th_threads db)\<rparr>"
proof -
  have "(if tr_id r = i \<and> tr_revision r = tr_revision row
      then r\<lparr>tr_revision := tr_revision row + 1, tr_messageWatermark := tr_messageWatermark row + 1, tr_updatedAt := at\<rparr> else r)
    = with_message i (tr_revision row) at r" if "r \<in> set (th_threads db)" for r
  proof (cases "tr_id r = i")
    case True
    then have "r = row" using unique_row [OF assms(2) that assms(3)] assms(4) by simp
    then show ?thesis by (simp add: with_message_def)
  qed (simp add: with_message_def)
  then have "map (\<lambda>r. if tr_id r = i \<and> tr_revision r = tr_revision row
      then r\<lparr>tr_revision := tr_revision row + 1, tr_messageWatermark := tr_messageWatermark row + 1, tr_updatedAt := at\<rparr> else r)
      (th_threads db) = map (with_message i (tr_revision row) at) (th_threads db)" by simp
  with assms(1) show ?thesis by (auto simp: advance_thread_def inverts update_threads_Inr simp del: map_eq_conv)
qed

lemma message_outcome_Inr:
  "message_outcome db ow ag i j k receipt = Inr (db', t, m, r) \<longleftrightarrow>
     db' = db \<and> r = receipt \<and> readThread db ow ag i = Some t \<and> readMessage db ow ag j k = Some m"
  by (auto simp: message_outcome_def split: option.splits)

lemma admit_rows_Inr:
  assumes "admit_rows db input cls n = Inr db'"
  shows "\<not> has_row rs_id (ad_runId input) (db_runs db) \<and> \<not> has_row msg_id (ad_messageId input) (th_messages db) \<and>
    th_messages db' = th_messages db @ [admitted_message input n] \<and> db_runs db' = db_runs db @ [admitted_run input] \<and>
    db_turns db' = db_turns db @ [admitted_turn input n] \<and> th_threads db' = th_threads db \<and>
    th_receipts db' = th_receipts db \<and> th_gatewayEvents db' = th_gatewayEvents db \<and> th_lineages db' = th_lineages db"
  using assms
  by (auto simp: admit_rows_def inverts insert_trigger_def insert_run_def insert_turn_def insert_message_def
      select_model_def admitted_run_def admitted_message_def split: option.splits)

lemma admit_effect:
  assumes inv: "core_inv (core db)" and op: "admitOwnerMessage db input = Inr (db', t, m, r)"
  shows "conversation_effect direct db db'"
proof -
  note def = op [unfolded admitOwnerMessage_def Let_def]
  obtain replay where replay: "replay_receipt db (ad_ownerId input) (ad_agentId input)
      (ad_idempotencyKey input) ''thread.message.submit'' (ad_semanticFingerprint input) = Inr replay"
    using def by (elim andThenE)
  show ?thesis
  proof (cases replay)
    case (Some receipt)
    with def replay show ?thesis by (auto simp: inverts message_outcome_Inr)
  next
    case None
    then obtain row cls db1 db2 where
        row: "thread_in_scope db (ad_ownerId input) (ad_agentId input) (ad_threadId input) = Some row"
        and act: "row_status row = thread_active"
        and rows: "admit_rows db input cls (tr_messageWatermark row + 1) = Inr db1"
        and adv: "advance_thread db1 (ad_threadId input) (tr_revision row) (tr_messageWatermark row + 1) (ad_occurredAt input) = Inr db2"
        and wrote: "writeReceipt db2 (admit_receipt input (tr_revision row + 1)) = Inr (db', r)"
      using def replay by (auto simp: inverts active_thread_Inr message_outcome_Inr split: option.splits)
    note new = admit_rows_Inr [OF rows] and r = thread_in_scope_row [OF inv row]
    have "row \<in> set (th_threads db)" using row_of_SomeD [OF r(1)] by simp
    then have db2: "db2 = db1\<lparr>th_threads := map (with_message (ad_threadId input) (tr_revision row) (ad_occurredAt input)) (th_threads db1)\<rparr>"
      using advance_thread_with_message [OF adv] core_invD(1) [OF inv] new r(2) by simp
    have "core_step direct (core db) (core db2)"
      using core_step.admit [of "admitted_message input (tr_messageWatermark row + 1)" "th_threads db" row "th_messages db"
          "admitted_run input" "db_runs db" "admitted_turn input (tr_messageWatermark row + 1)"] r act new
      by (simp add: core_def db2 admitted_message_def admitted_run_def admitted_turn_def)
    then show ?thesis using receipt_effect [OF wrote disjI2] new by (simp add: db2)
  qed
qed

lemma insert_message_Inr:
  "insert_message db m = Inr db' \<Longrightarrow> \<not> has_row msg_id (msg_id m) (th_messages db) \<and>
     db' = db\<lparr>th_messages := th_messages db @ [m]\<rparr>"
  by (simp add: insert_message_def inverts)

lemma open_runE:
  assumes "open_run db input"
  obtains run where "run \<in> set (db_runs db)" "rs_id run = as_runId input" "rs_threadId run = Some (as_threadId input)"
    "rs_status run \<notin> set TERMINAL_RUN_STATUSES" "rs_ownerId run = as_ownerId input" "rs_agentId run = as_agentId input"
  using assms by (auto simp: open_run_def list_ex_iff TERMINAL_RUN_STATUSES_def)

text \<open>An answer that was committed for the first time, with everything it changed in the core.\<close>

lemma answer_cases:
  assumes inv: "core_inv (core db)" and op: "commitAssistantMessage db input = Inr (db', t, m, r)"
  obtains (replayed) "db' = db"
  | (fresh) row run where
      "thread_in_scope db (as_ownerId input) (as_agentId input) (as_threadId input) = Some row" "row_status row = thread_active"
      "run \<in> set (db_runs db)" "rs_id run = as_runId input" "rs_threadId run = Some (as_threadId input)"
      "rs_status run \<notin> set TERMINAL_RUN_STATUSES" "\<not> has_row msg_id (as_messageId input) (th_messages db)"
      "core db' = (map (with_message (as_threadId input) (tr_revision row) (as_committedAt input)) (th_threads db),
         th_messages db @ [assistant_message input (tr_messageWatermark row + 1)],
         map (\<lambda>x. if rs_id x = rs_id run
          then x\<lparr>rs_status := run_completed, rs_revision := rs_revision x + 1, rs_updatedAt := as_committedAt input\<rparr> else x)
          (db_runs db),
         map (\<lambda>x. if tn_id x = as_turnId input then x\<lparr>tn_committedAt := Some (as_committedAt input)\<rparr> else x) (db_turns db))"
      "receipts_grow (th_receipts db) (th_receipts db')" "gateway_grows (th_gatewayEvents db) (th_gatewayEvents db')"
proof -
  note def = op [unfolded commitAssistantMessage_def Let_def]
  obtain replay where replay: "replay_receipt db (as_ownerId input) (as_agentId input)
      (as_idempotencyKey input) ''thread.message.commit_assistant'' (as_semanticFingerprint input) = Inr replay"
    using def by (elim andThenE)
  show ?thesis
  proof (cases replay)
    case (Some receipt)
    with def replay show ?thesis by (intro replayed) (auto simp: inverts message_outcome_Inr)
  next
    case None
    then obtain row db1 db2 where
        row: "thread_in_scope db (as_ownerId input) (as_agentId input) (as_threadId input) = Some row"
        and act: "row_status row = thread_active" and run: "open_run db input"
        and ins: "insert_message db (assistant_message input (tr_messageWatermark row + 1)) = Inr db1"
        and adv: "advance_thread (close_run db1 input) (as_threadId input) (tr_revision row) (tr_messageWatermark row + 1)
          (as_committedAt input) = Inr db2"
        and wrote: "writeReceipt db2 (assistant_receipt input (tr_revision row + 1)) = Inr (db', r)"
      using def replay by (auto simp: inverts active_thread_Inr message_outcome_Inr split: option.splits)
    obtain a where a: "a \<in> set (db_runs db)" "rs_id a = as_runId input" "rs_threadId a = Some (as_threadId input)"
        "rs_status a \<notin> set TERMINAL_RUN_STATUSES"
      using run by (rule open_runE)
    note new = insert_message_Inr [OF ins] and r = thread_in_scope_row [OF inv row]
    have "row \<in> set (th_threads (close_run db1 input))" using row_of_SomeD [OF r(1)] new by (simp add: close_run_def)
    then have db2: "db2 = (close_run db1 input)\<lparr>th_threads :=
        map (with_message (as_threadId input) (tr_revision row) (as_committedAt input)) (th_threads db1)\<rparr>"
      using advance_thread_with_message [OF adv] core_invD(1) [OF inv] new r(2) by (simp add: close_run_def)
    obtain evs es where w: "gateway_grows (th_gatewayEvents db2) es"
        "\<not> has_row receipt_key (receipt_key (new_receipt (assistant_receipt input (tr_revision row + 1)))) (th_receipts db2)"
        "db' = db2\<lparr>th_receipts := th_receipts db2 @ [new_receipt (assistant_receipt input (tr_revision row + 1))],
          pdb_events := evs, th_gatewayEvents := es\<rparr>"
      using writeReceipt_Inr [OF wrote] by blast
    show ?thesis
    proof (rule fresh [OF row act a])
      show "receipts_grow (th_receipts db) (th_receipts db')" "gateway_grows (th_gatewayEvents db) (th_gatewayEvents db')"
        using w new by (auto simp: db2 close_run_def receipts_grow_def)
      show "\<not> has_row msg_id (as_messageId input) (th_messages db)" using new by (simp add: assistant_message_def)
      show "core db' = (map (with_message (as_threadId input) (tr_revision row) (as_committedAt input)) (th_threads db),
         th_messages db @ [assistant_message input (tr_messageWatermark row + 1)],
         map (\<lambda>x. if rs_id x = rs_id a
          then x\<lparr>rs_status := run_completed, rs_revision := rs_revision x + 1, rs_updatedAt := as_committedAt input\<rparr> else x)
          (db_runs db),
         map (\<lambda>x. if tn_id x = as_turnId input then x\<lparr>tn_committedAt := Some (as_committedAt input)\<rparr> else x) (db_turns db))"
        using w(3) new a(2) by (simp add: core_def db2 close_run_def)
    qed
  qed
qed

lemma answer_effect:
  assumes inv: "core_inv (core db)" and op: "commitAssistantMessage db input = Inr (db', t, m, r)"
    and allowed: "direct \<or> (\<forall>x\<in>set (db_runs db). rs_id x = as_runId input \<longrightarrow> run_may_become x run_completed)"
  shows "conversation_effect direct db db'"
  using inv op
proof (cases rule: answer_cases)
  case (fresh row run)
  note r = thread_in_scope_row [OF inv fresh(1)]
  have "direct \<or> run_may_become run run_completed" using allowed fresh(3,4) by blast
  then have "core_step direct (core db) (core db')"
    using core_step.answer [of "assistant_message input (tr_messageWatermark row + 1)" "th_threads db" row "th_messages db"
        run "db_runs db" direct "as_turnId input"] r fresh
    by (simp add: core_def assistant_message_def)
  with fresh(9,10) show ?thesis by (simp add: conversation_effect_def)
qed simp

section \<open>The Run lifecycle refines the abstract system\<close>

lemma read_stored_run_Some:
  assumes "read_stored_run db ow ag i = Inr (Some stored)"
  obtains r where "r \<in> set (db_runs db)" "rs_id r = i" "rs_ownerId r = ow" "rs_agentId r = ag"
    "stored = \<lparr>sr_run = run_of_row r, sr_revision = rs_revision r\<rparr>"
  using assms by (auto simp: read_stored_run_def parse_run_row_def inverts split: option.splits dest!: find_SomeD)

lemma run_of_row_simps [simp]: "run_status (run_of_row r) = rs_status r" "run_threadId (run_of_row r) = rs_threadId r"
  "run_id (run_of_row r) = rs_id r" "run_triggerId (run_of_row r) = rs_triggerId r" "run_sessionId (run_of_row r) = rs_sessionId r"
  by (simp_all add: run_of_row_def)

lemma assertTransition_Inr:
  "assertTransition stored s = Inr u \<longleftrightarrow> s \<in> set (ALLOWED_TRANSITIONS (run_status (sr_run stored)))"
  by (auto simp: assertTransition_def transitionRun_ok split: sum.splits)
     (metis sum.disc(2) sum.disc(1) transitionRun_ok)

lemma set_run_status_runs:
  assumes ids: "distinct (map rs_id (db_runs db))" and r: "r \<in> set (db_runs db)" "rs_id r = rin_runId input"
    "rs_ownerId r = rcc_ownerId input" "rs_agentId r = rcc_agentId input"
  shows "db_runs (set_run_status db input (rs_revision r) s now) = map (\<lambda>x. if rs_id x = rs_id r
    then x\<lparr>rs_status := s, rs_revision := rs_revision x + 1, rs_updatedAt := now\<rparr> else x) (db_runs db)"
proof -
  have "(if rs_id x = rin_runId input \<and> rs_ownerId x = rcc_ownerId input \<and> rs_agentId x = rcc_agentId input \<and>
        rs_revision x = rs_revision r
      then x\<lparr>rs_status := s, rs_revision := rs_revision r + 1, rs_updatedAt := now\<rparr> else x) =
    (if rs_id x = rs_id r
      then x\<lparr>rs_status := s, rs_revision := rs_revision x + 1, rs_updatedAt := now\<rparr> else x)" if x: "x \<in> set (db_runs db)" for x
  proof (cases "rs_id x = rin_runId input")
    case True
    then have "x = r" using unique_row [OF ids x r(1)] r(2) by simp
    with r(2,3,4) show ?thesis by simp
  next
    case False
    with r(2) show ?thesis by simp
  qed
  then show ?thesis by (simp add: set_run_status_def cong: map_cong)
qed

lemma set_run_status_frame [simp]:
  "th_threads (set_run_status db input n s now) = th_threads db" "th_messages (set_run_status db input n s now) = th_messages db"
  "db_turns (set_run_status db input n s now) = db_turns db" "th_receipts (set_run_status db input n s now) = th_receipts db"
  "th_gatewayEvents (set_run_status db input n s now) = th_gatewayEvents db"
  by (simp_all add: set_run_status_def)

lemma notify_thread_Inr:
  assumes "notify_thread sha256 db input s authority now = Inr db'"
  shows "\<exists>f es. edits_thread f (th_threads db) \<and> gateway_grows (th_gatewayEvents db) es \<and>
    db' = db\<lparr>th_threads := map f (th_threads db), th_gatewayEvents := es\<rparr>"
proof (cases "thread_of_run db input")
  case None
  with assms have "db' = db" by (simp add: notify_thread_def)
  then show ?thesis by (intro exI [of _ id] exI [of _ "th_gatewayEvents db"]) (simp add: edits_thread_def)
next
  case (Some row)
  let ?f = "\<lambda>r. if tr_id r = tr_id row \<and> tr_ownerId r = rcc_ownerId input \<and> tr_agentId r = rcc_agentId input
     then r\<lparr>tr_revision := tr_revision r + 1, tr_updatedAt := now\<rparr> else r"
  from assms Some obtain db1 e where db1: "db1 = db\<lparr>th_threads := map ?f (th_threads db)\<rparr>"
      and app: "appendGatewayEvent db1 e = Inr db'"
    by (auto simp: notify_thread_def Let_def inverts update_threads_Inr)
  from appendGatewayEvent_Inr [OF app] obtain es where "gateway_grows (th_gatewayEvents db1) es"
      "db' = db1\<lparr>th_gatewayEvents := es\<rparr>" by blast
  moreover have "edits_thread ?f (th_threads db)"
    by (auto simp: edits_thread_def thread_identity_def past_deletion_def row_status_def)
  ultimately show ?thesis by (intro exI [of _ ?f] exI [of _ es]) (simp add: db1)
qed

lemma write_run_receipt_Inr:
  assumes "write_run_receipt sha256 db input mutation authority now revision = Inr (db', r)"
  shows "\<exists>f es results evs. edits_thread f (th_threads db) \<and> gateway_grows (th_gatewayEvents db) es \<and>
    (mutation_status mutation = run_completed \<and> mutation_type mutation = ''run.complete'' \<longrightarrow>
       map f (th_threads db) = th_threads db \<and> es = th_gatewayEvents db) \<and>
    db' = db\<lparr>pdb_commandResults := results, pdb_events := evs, th_threads := map f (th_threads db), th_gatewayEvents := es\<rparr>"
proof -
  obtain db1 db2 where s: "insert_command_result db (run_result sha256 input mutation authority now revision) = Inr db1"
      "insert_event (rcc_ownerId input) (rcc_agentId input) (run_changed_event sha256 input mutation now) db1 = Inr db2"
      "(case mutation of move_to status \<Rightarrow> notify_thread sha256 db2 input status authority now
                | complete_with res classification \<Rightarrow> Inr db2) = Inr db'"
    using assms by (auto simp: write_run_receipt_def Let_def inverts)
  from s(1) have 1: "db1 = db\<lparr>pdb_commandResults := pdb_commandResults db @ [run_result sha256 input mutation authority now revision]\<rparr>"
    by (simp add: insert_command_result_def inverts)
  from s(2) have 2: "db2 = db1\<lparr>pdb_events := pdb_events db1 @
      [pending_row (rcc_ownerId input) (rcc_agentId input) (run_changed_event sha256 input mutation now)]\<rparr>"
    by (simp add: insert_event_Inr)
  show ?thesis
  proof (cases mutation)
    case (complete_with out cls)
    with s(3) have "db' = db2" by simp
    then show ?thesis
      by (intro exI [of _ id] exI [of _ "th_gatewayEvents db"] exI [of _ "pdb_commandResults db1"] exI [of _ "pdb_events db2"])
        (simp add: 1 2 edits_thread_def)
  next
    case (move_to st)
    with s(3) have "notify_thread sha256 db2 input st authority now = Inr db'" by simp
    from notify_thread_Inr [OF this] obtain f es where "edits_thread f (th_threads db2)"
        "gateway_grows (th_gatewayEvents db2) es" "db' = db2\<lparr>th_threads := map f (th_threads db2), th_gatewayEvents := es\<rparr>"
      by blast
    then show ?thesis
      by (intro exI [of _ f] exI [of _ es] exI [of _ "pdb_commandResults db1"] exI [of _ "pdb_events db2"])
        (simp add: 1 2 move_to)
  qed
qed

text \<open>A status change of a stored Run, followed by its receipt.\<close>

lemma moved_run_effect:
  assumes inv: "core_inv (core db)"
    and r: "r \<in> set (db_runs db)" "rs_id r = rin_runId input"
    and move: "run_may_become r s" "s = run_completed \<longrightarrow> rs_threadId r = None"
    and runs: "db_runs db1 = map (\<lambda>x. if rs_id x = rs_id r
       then x\<lparr>rs_status := s, rs_revision := rs_revision x + 1, rs_updatedAt := now\<rparr> else x) (db_runs db)"
    and frame: "th_threads db1 = th_threads db" "th_messages db1 = th_messages db" "db_turns db1 = db_turns db"
      "th_receipts db1 = th_receipts db" "th_gatewayEvents db1 = th_gatewayEvents db"
    and wrote: "write_run_receipt sha256 db1 input mutation authority now n = Inr (db', receipt)"
  shows "conversation_effect direct db db'"
proof -
  obtain f es results evs where w: "edits_thread f (th_threads db)" "gateway_grows (th_gatewayEvents db) es"
      "db' = db1\<lparr>pdb_commandResults := results, pdb_events := evs, th_threads := map f (th_threads db), th_gatewayEvents := es\<rparr>"
    using write_run_receipt_Inr [OF wrote] unfolding frame by blast
  have "core_step direct (core db) (core db')"
    using core_step.move [OF w(1) r(1) move, of direct "th_messages db" "db_turns db" now] by (simp add: core_def w(3) frame runs)
  with w show ?thesis by (simp add: conversation_effect_def frame)
qed

lemma transition_effect:
  assumes inv: "core_inv (core db)" and op: "lifecycle_transition sha256 db input s authority now = Inr (db', r)"
  shows "conversation_effect direct db db'"
proof -
  note def = op [unfolded lifecycle_transition_def]
  obtain replay where replay: "replay_run sha256 db input (move_to s) = Inr replay"
    using def by (elim andThenE)
  show ?thesis
  proof (cases replay)
    case (Some receipt)
    with def replay show ?thesis by (auto simp: inverts)
  next
    case None
    then obtain stored where
        read: "read_stored_run db (rcc_ownerId input) (rcc_agentId input) (rin_runId input) = Inr (Some stored)"
        and allows: "thread_allows db stored input s" and table: "assertTransition stored s = Inr ()"
        and wrote: "write_run_receipt sha256 (set_run_status db input (sr_revision stored) s now) input
          (move_to s) authority now (sr_revision stored + 1) = Inr (db', r)"
      using def replay by (auto simp: inverts split: option.splits)
    obtain x where x: "x \<in> set (db_runs db)" "rs_id x = rin_runId input" "rs_ownerId x = rcc_ownerId input"
        "rs_agentId x = rcc_agentId input" "stored = \<lparr>sr_run = run_of_row x, sr_revision = rs_revision x\<rparr>"
      using read by (rule read_stored_run_Some)
    have may: "run_may_become x s" using table by (simp add: assertTransition_Inr x(5) run_may_become_def)
    have plain: "s = run_completed \<longrightarrow> rs_threadId x = None"
      using allows by (auto simp: thread_allows_def x(5) split: option.splits)
    have "db_runs (set_run_status db input (sr_revision stored) s now) = map (\<lambda>y. if rs_id y = rs_id x
       then y\<lparr>rs_status := s, rs_revision := rs_revision y + 1, rs_updatedAt := now\<rparr> else y) (db_runs db)"
      using set_run_status_runs [OF core_invD(2) [OF inv] x(1,2,3,4)] by (simp add: x(5))
    from moved_run_effect [OF inv x(1,2) may plain this _ _ _ _ _ wrote] show ?thesis by simp
  qed
qed

lemma invalidate_runs:
  "invalidateForOwnerCancellation w scope i at = Inr (w', l) \<Longrightarrow> wdb_runs w' = wdb_runs w \<and> wdb_turns w' = wdb_turns w"
  by (auto simp: invalidateForOwnerCancellation_def inverts storeLease_Inr split: option.splits if_splits)

lemma writeCancelledCheckpoint_frame:
  "writeCancelledCheckpoint db input now = Inr db' \<Longrightarrow> core db' = core db \<and> th_receipts db' = th_receipts db \<and>
     th_gatewayEvents db' = th_gatewayEvents db"
  by (auto simp: writeCancelledCheckpoint_def inverts core_def split: option.splits)

lemma untranslated_Inr: "untranslated r = Inr x \<longleftrightarrow> r = Inr x"
  by (cases r) (auto simp: untranslated_def)

lemma cancel_effect:
  assumes inv: "core_inv (core db)" and op: "lifecycle_cancel sha256 db input authority now = Inr (db', r)"
  shows "conversation_effect direct db db'"
proof -
  note def = op [unfolded lifecycle_cancel_def]
  obtain replay where replay: "replay_run sha256 db input (move_to run_cancelled) = Inr replay"
    using def by (auto simp: inverts split: option.splits)
  show ?thesis
  proof (cases replay)
    case (Some receipt)
    with def replay show ?thesis by (auto simp: inverts split: option.splits)
  next
    case None
    then obtain stored scope work lease db1 where
        read: "read_stored_run db (rcc_ownerId input) (rcc_agentId input) (rin_runId input) = Inr (Some stored)"
        and table: "assertTransition stored run_cancelled = Inr ()"
        and inval: "invalidateForOwnerCancellation (pdb_work db) scope (rin_runId input) now = Inr (work, lease)"
        and check: "writeCancelledCheckpoint (set_run_status (db\<lparr>pdb_work := work\<rparr>) input (sr_revision stored)
          run_cancelled now) input now = Inr db1"
        and wrote: "write_run_receipt sha256 db1 input (move_to run_cancelled) authority now (sr_revision stored + 1) = Inr (db', r)"
      using def replay by (auto simp: inverts untranslated_Inr split: option.splits)
    obtain x where x: "x \<in> set (db_runs db)" "rs_id x = rin_runId input" "rs_ownerId x = rcc_ownerId input"
        "rs_agentId x = rcc_agentId input" "stored = \<lparr>sr_run = run_of_row x, sr_revision = rs_revision x\<rparr>"
      using read by (rule read_stored_run_Some)
    have may: "run_may_become x run_cancelled" using table by (simp add: assertTransition_Inr x(5) run_may_become_def)
    note w = invalidate_runs [OF inval] and c = writeCancelledCheckpoint_frame [OF check]
    have "db_runs (set_run_status (db\<lparr>pdb_work := work\<rparr>) input (sr_revision stored) run_cancelled now) = map (\<lambda>y. if rs_id y = rs_id x
       then y\<lparr>rs_status := run_cancelled, rs_revision := rs_revision y + 1, rs_updatedAt := now\<rparr> else y) (db_runs db)"
      using set_run_status_runs [of "db\<lparr>pdb_work := work\<rparr>" x] core_invD(2) [OF inv] x w by simp
    then have runs: "db_runs db1 = map (\<lambda>y. if rs_id y = rs_id x
       then y\<lparr>rs_status := run_cancelled, rs_revision := rs_revision y + 1, rs_updatedAt := now\<rparr> else y) (db_runs db)"
      using c by (simp add: core_def)
    have frame: "th_threads db1 = th_threads db" "th_messages db1 = th_messages db" "db_turns db1 = db_turns db"
        "th_receipts db1 = th_receipts db" "th_gatewayEvents db1 = th_gatewayEvents db"
      using c w by (simp_all add: core_def)
    from moved_run_effect [OF inv x(1,2) may _ runs frame wrote] show ?thesis by simp
  qed
qed

lemma completion_receipt:
  assumes "write_run_receipt sha256 db input (complete_with res cls) authority now n = Inr (db', r)"
  shows "core db' = core db \<and> th_receipts db' = th_receipts db \<and> th_gatewayEvents db' = th_gatewayEvents db"
  using write_run_receipt_Inr [OF assms] by (auto simp: core_def)

lemma complete_plain_runs:
  assumes "r \<in> set (db_runs db)" "rs_id r = rin_runId input"
  shows "db_runs (complete_plain_run db input now) = map (\<lambda>x. if rs_id x = rs_id r
    then x\<lparr>rs_status := run_completed, rs_revision := rs_revision x + 1, rs_updatedAt := now\<rparr> else x) (db_runs db)"
  using assms(2) by (simp add: complete_plain_run_def)

text \<open>What a completion does before its receipt: complete a Run without a thread, or commit an answer.\<close>

lemma completed_runE:
  assumes "completed_run sha256 db input res cls r authority now = Inr db'"
  obtains (plain) "run_threadId r = None" "db' = complete_plain_run db input now"
  | (answer) thread row turn ref cls' outcome where "run_threadId r = Some thread" "res = assistant_answer ref"
      "row_of tr_id thread (th_threads db) = Some row" "admitted_turns db input r = [turn]"
      "commitAssistantMessage db (answer_input sha256 input (complete_with res cls) thread (tr_revision row) turn ref
         cls' authority now) = Inr (db', outcome)"
proof (cases res)
  case no_answer
  with assms show ?thesis by (intro plain) (auto simp: completed_run_def split: option.splits)
next
  case (assistant_answer ref)
  with assms obtain cls' where c: "(case run_threadId r of
      Some t \<Rightarrow> commit_answer sha256 db input (complete_with res cls) r t ref cls' authority now
    | None \<Rightarrow> Inr (complete_plain_run db input now)) = Inr db'"
    by (auto simp: completed_run_def inverts)
  show ?thesis
  proof (cases "run_threadId r")
    case None
    with c show ?thesis by (intro plain) simp_all
  next
    case (Some thread)
    with c have "commit_answer sha256 db input (complete_with res cls) r thread ref cls' authority now = Inr db'" by simp
    then obtain turn row outcome where "admitted_turns db input r = [turn]" "row_of tr_id thread (th_threads db) = Some row"
      "commitAssistantMessage db (answer_input sha256 input (complete_with res cls) thread (tr_revision row) turn ref
         cls' authority now) = Inr (db', outcome)"
      by (auto simp: commit_answer_def inverts split: list.splits option.splits)
    with Some assistant_answer show ?thesis by (intro answer)
  qed
qed

lemma complete_effect:
  assumes inv: "core_inv (core db)" and op: "lifecycle_complete sha256 db input res cls authority now = Inr (db', r)"
  shows "conversation_effect direct db db'"
proof -
  note def = op [unfolded lifecycle_complete_def Let_def]
  obtain replay where replay: "replay_run sha256 db input (complete_with res cls) = Inr replay"
    using def by (elim andThenE)
  show ?thesis
  proof (cases replay)
    case (Some receipt)
    with def replay show ?thesis by (auto simp: inverts)
  next
    case None
    then obtain stored db1 where
        read: "read_stored_run db (rcc_ownerId input) (rcc_agentId input) (rin_runId input) = Inr (Some stored)"
        and table: "assertTransition stored run_completed = Inr ()"
        and completed: "completed_run sha256 db input res cls (sr_run stored) authority now = Inr db1"
        and wrote: "write_run_receipt sha256 db1 input (complete_with res cls) authority now (sr_revision stored + 1) = Inr (db', r)"
      using def replay by (auto simp: inverts split: option.splits)
    obtain x where x: "x \<in> set (db_runs db)" "rs_id x = rin_runId input" "rs_ownerId x = rcc_ownerId input"
        "rs_agentId x = rcc_agentId input" "stored = \<lparr>sr_run = run_of_row x, sr_revision = rs_revision x\<rparr>"
      using read by (rule read_stored_run_Some)
    have may: "run_may_become x run_completed" using table by (simp add: assertTransition_Inr x(5) run_may_become_def)
    show ?thesis using completed
    proof (cases rule: completed_runE)
      case plain
      have "rs_threadId x = None" using plain(1) by (simp add: x(5))
      then show ?thesis
        using moved_run_effect [OF inv x(1,2) may _ complete_plain_runs [OF x(1,2)] _ _ _ _ _ wrote [unfolded plain(2)]]
        by (simp add: complete_plain_run_def)
    next
      case (answer thread row turn ref cls' outcome)
      obtain t m rc where out: "outcome = (t, m, rc)" by (cases outcome)
      have "\<forall>y\<in>set (db_runs db). rs_id y = rin_runId input \<longrightarrow> run_may_become y run_completed"
        using unique_row [OF core_invD(2) [OF inv] _ x(1)] x(2) may by auto
      then have "conversation_effect direct db db1"
        using answer_effect [OF inv answer(5) [unfolded out]] by (simp add: answer_input_def)
      with completion_receipt [OF wrote] show ?thesis by (simp add: conversation_effect_def)
    qed
  qed
qed

lemma lifecycle_effect:
  assumes inv: "core_inv (core db)" and op: "execute_lifecycle sha256 db ow ag authority request now = Inr (db', r)"
  shows "conversation_effect direct db db'"
proof (cases request)
  case (request_transition input s)
  with op have "lifecycle_transition sha256 db input s authority now = Inr (db', r)"
    by (auto simp: execute_lifecycle_def inverts)
  with inv show ?thesis by (rule transition_effect)
next
  case (request_cancel input)
  with op have "lifecycle_cancel sha256 db input authority now = Inr (db', r)"
    by (auto simp: execute_lifecycle_def inverts)
  with inv show ?thesis by (rule cancel_effect)
next
  case (request_complete input res cls)
  with op have "lifecycle_complete sha256 db input res cls authority now = Inr (db', r)"
    by (auto simp: execute_lifecycle_def inverts)
  with inv show ?thesis by (rule complete_effect)
qed

section \<open>Quarantine, and every operation\<close>

lemma quarantine_checkpoint_runs:
  "quarantine_checkpoint w scope i reason at = Inr w' \<Longrightarrow> wdb_runs w' = wdb_runs w \<and> wdb_turns w' = wdb_turns w"
  by (auto simp: quarantine_checkpoint_def split: option.splits if_splits)

lemma quarantine_run_runs:
  assumes ids: "distinct (map rs_id (wdb_runs w))" and r: "r \<in> set (wdb_runs w)" "rs_id r = i"
    "rs_ownerId r = scp_ownerId scope" "rs_agentId r = scp_agentId scope"
  shows "wdb_runs (quarantine_run w scope i at) = map (\<lambda>x. if rs_id x = rs_id r
    then x\<lparr>rs_status := run_reconciling_external_result, rs_revision := rs_revision x + 1, rs_updatedAt := at\<rparr> else x) (wdb_runs w)"
proof -
  have "(rs_id x = i \<and> rs_ownerId x = scp_ownerId scope \<and> rs_agentId x = scp_agentId scope) = (rs_id x = rs_id r)"
    if x: "x \<in> set (wdb_runs w)" for x
  proof (cases "rs_id x = i")
    case True
    then have "x = r" using unique_row [OF ids x r(1)] r(2) by simp
    with r show ?thesis by simp
  next
    case False
    with r(2) show ?thesis by simp
  qed
  then show ?thesis by (simp add: quarantine_run_def cong: map_cong)
qed

lemma quarantine_runs:
  assumes ids: "distinct (map rs_id (wdb_runs w))" and op: "quarantine w scope input = Inr w'"
  shows "wdb_turns w' = wdb_turns w \<and> (wdb_runs w' = wdb_runs w \<or>
    (\<exists>r\<in>set (wdb_runs w). run_may_become r run_reconciling_external_result \<and>
       wdb_runs w' = map (\<lambda>x. if rs_id x = rs_id r
         then x\<lparr>rs_status := run_reconciling_external_result, rs_revision := rs_revision x + 1, rs_updatedAt := qi_at input\<rparr>
         else x) (wdb_runs w)))"
proof (cases "w' = w")
  case False
  let ?release = "\<lambda>lease. case lease of None \<Rightarrow> Inr w
     | Some l \<Rightarrow> if xl_releasedAt l = None
         then storeLease w (l\<lparr>xl_revision := xl_revision l + 1, xl_releasedAt := Some (qi_at input)\<rparr>)
         else Inr w"
  let ?guard = "\<lambda>lease. case lease of None \<Rightarrow> Inr ()
     | Some l \<Rightarrow> if lease_live l (qi_at input)
         then andThen (assertLeaseScope scope l True) (\<lambda>_. ensure (qi_executionLeaseId input = Some (xl_executionLeaseId l)) conflict)
         else Inr ()"
  let ?rest = "\<lambda>i run w1. if rs_status (dr_run run) = run_reconciling_external_result \<and>
       dr_checkpointPhase run = Some cp_reconciling_external_result then Inr w1
     else quarantine_checkpoint (quarantine_run w1 scope i (qi_at input)) scope i (qi_reasonCode input) (qi_at input)"
  let ?go = "\<lambda>i run. andThen (ensure (rs_status (dr_run run) \<in> {run_accepted, run_building_context, run_running,
       run_reconciling_external_result}) conflict) (\<lambda>_. andThen (readLease w scope i) (\<lambda>lease.
       andThen (?guard lease) (\<lambda>_. andThen (?release lease) (\<lambda>w1. ?rest i run w1))))"
  have "\<exists>i run. readRun w scope i = Inr (Some run) \<and>
      (rs_status (dr_run run) \<in> {run_completed, run_failed, run_cancelled} \<and> w' = w \<or> ?go i run = Inr w')"
    using op unfolding quarantine_def by (elim andThenE) (simp split: option.splits if_splits add: andThen_ensure_Inr; blast)
  with False obtain i found where run: "readRun w scope i = Inr (Some found)" and go: "?go i found = Inr w'" by blast
  obtain lease w1 where status: "rs_status (dr_run found) \<in> {run_accepted, run_building_context, run_running, run_reconciling_external_result}"
      and w1: "?release lease = Inr w1" and r1: "?rest i found w1 = Inr w'"
    using go by (elim andThenE) (simp only: ensure_Inr_iff)
  have rest: "w' = w1 \<or> quarantine_checkpoint (quarantine_run w1 scope i (qi_at input)) scope i
      (qi_reasonCode input) (qi_at input) = Inr w'"
    using r1 by (simp split: if_splits)
  have same: "wdb_runs w1 = wdb_runs w" "wdb_turns w1 = wdb_turns w"
    using w1 by (auto simp: storeLease_Inr split: option.splits if_splits)
  have row: "run_row_in_scope w scope i = Some (dr_run found)"
    using run by (auto simp: readRun_def dispatch_record_def Let_def inverts split: option.splits)
  note r = find_SomeD [OF row [unfolded run_row_in_scope_def]]
  have may: "run_may_become (dr_run found) run_reconciling_external_result"
    using status by (auto simp: run_may_become_def)
  have turns: "wdb_turns (quarantine_run w1 scope i (qi_at input)) = wdb_turns w1" by (simp add: quarantine_run_def)
  show ?thesis
  proof (cases "w' = w1")
    case True
    with same show ?thesis by simp
  next
    case False
    with rest quarantine_checkpoint_runs have w': "wdb_runs w' = wdb_runs (quarantine_run w1 scope i (qi_at input))"
        "wdb_turns w' = wdb_turns w1" using turns by auto
    have "wdb_runs w' = map (\<lambda>x. if rs_id x = rs_id (dr_run found)
         then x\<lparr>rs_status := run_reconciling_external_result, rs_revision := rs_revision x + 1, rs_updatedAt := qi_at input\<rparr>
         else x) (wdb_runs w)"
      using quarantine_run_runs [of w1 "dr_run found"] ids r by (simp add: w' same)
    with may r w'(2) same show ?thesis by auto
  qed
qed simp

text \<open>
  One operation of the store. Threads are created empty and updated by commands of the domain, as the
  services do; \<open>other\<close> is any operation that leaves the conversation tables alone (product state, events,
  leases, budgets, search projections).
\<close>

inductive conversation_step :: "(string \<Rightarrow> string) \<Rightarrow> bool \<Rightarrow> thread_db \<Rightarrow> thread_db \<Rightarrow> bool"
  for sha256 direct where
  created: "create_thread db cin = Inr (db', t, r) \<Longrightarrow> pt_messageWatermark (tc_thread cin) = 0 \<Longrightarrow>
    conversation_step sha256 direct db db'"
| forked: "fork_thread db fin = Inr (db', t, r) \<Longrightarrow> pt_messageWatermark (fk_targetThread fin) = 0 \<Longrightarrow>
    conversation_step sha256 direct db db'"
| updated: "update_thread db uin = Inr (db', t, r) \<Longrightarrow> domain_update db uin \<Longrightarrow> conversation_step sha256 direct db db'"
| resolved: "resolveDeletionTask db rin = Inr (db', im, b, r) \<Longrightarrow> conversation_step sha256 direct db db'"
| deletion: "requestDeletion db din = Inr (db', t, im, r) \<Longrightarrow> conversation_step sha256 direct db db'"
| admitted: "admitOwnerMessage db ain = Inr (db', t, m, r) \<Longrightarrow> conversation_step sha256 direct db db'"
| answered: "direct \<Longrightarrow> commitAssistantMessage db sin = Inr (db', t, m, r) \<Longrightarrow> conversation_step sha256 direct db db'"
| lifecycle: "execute_lifecycle sha256 db ow ag authority request now = Inr (db', receipt) \<Longrightarrow>
    conversation_step sha256 direct db db'"
| quarantined: "quarantine (pdb_work db) scope qin = Inr work \<Longrightarrow> conversation_step sha256 direct db (db\<lparr>pdb_work := work\<rparr>)"
| other: "core db' = core db \<Longrightarrow> th_receipts db' = th_receipts db \<Longrightarrow> th_gatewayEvents db' = th_gatewayEvents db \<Longrightarrow>
    conversation_step sha256 direct db db'"

lemma search_is_other:
  "projectSearch db pin = Inr db1 \<Longrightarrow> conversation_step sha256 direct db db1"
  "projectTitleSearch db tin = Inr db2 \<Longrightarrow> conversation_step sha256 direct db db2"
  "rebuildSearch db ow ag i v = Inr (db3, n) \<Longrightarrow> conversation_step sha256 direct db db3"
  by (rule conversation_step.other;
      auto simp: projectSearch_def projectTitleSearch_def rebuildSearch_def core_def inverts split: option.splits)+

lemma step_effect:
  "conversation_step sha256 direct db db' \<Longrightarrow> core_inv (core db) \<Longrightarrow> conversation_effect direct db db'"
proof (induction rule: conversation_step.induct)
  case (quarantined db scope qin work)
  note q = quarantine_runs [OF core_invD(2) [OF quarantined.prems] quarantined.hyps]
  have "core (db\<lparr>pdb_work := work\<rparr>) = core db \<or> core_step direct (core db) (core (db\<lparr>pdb_work := work\<rparr>))"
  proof (cases "wdb_runs work = db_runs db")
    case False
    with q obtain r where r: "r \<in> set (db_runs db)" "run_may_become r run_reconciling_external_result"
        "wdb_runs work = map (\<lambda>x. if rs_id x = rs_id r
         then x\<lparr>rs_status := run_reconciling_external_result, rs_revision := rs_revision x + 1, rs_updatedAt := qi_at qin\<rparr>
         else x) (db_runs db)" by blast
    have "edits_thread id (th_threads db)" by (simp add: edits_thread_def)
    from core_step.move [OF this r(1,2), of direct "th_messages db" "db_turns db" "qi_at qin"] q
    show ?thesis by (simp add: core_def r(3))
  qed (use q in \<open>simp add: core_def\<close>)
  then show ?case by (simp add: conversation_effect_def)
next
  case (other db' db)
  then show ?case by (simp add: conversation_effect_def)
qed (auto intro: create_effect fork_effect update_effect resolve_effect deletion_effect admit_effect answer_effect
    lifecycle_effect)

lemma step_inv: "conversation_step sha256 direct db db' \<Longrightarrow> core_inv (core db) \<Longrightarrow> core_inv (core db')"
proof -
  assume "conversation_step sha256 direct db db'" and inv: "core_inv (core db)"
  from step_effect [OF this] have "core db' = core db \<or> core_step direct (core db) (core db')"
    by (simp add: conversation_effect_def)
  with inv show ?thesis using core_step_inv [of direct "core db" "core db'"] by auto
qed

section \<open>Histories\<close>

definition fresh_conversation :: "thread_db \<Rightarrow> bool" where
  "fresh_conversation db \<longleftrightarrow> th_threads db = [] \<and> th_messages db = [] \<and> db_runs db = [] \<and> db_turns db = [] \<and>
     th_receipts db = [] \<and> th_gatewayEvents db = []"

lemma fresh_inv: "fresh_conversation db \<Longrightarrow> core_inv (core db)"
  by (simp add: fresh_conversation_def core_def messages_ok_def answers_ok_def)

lemma history_inv:
  "(conversation_step sha256 direct)\<^sup>*\<^sup>* db db' \<Longrightarrow> core_inv (core db) \<Longrightarrow> core_inv (core db')"
  by (induction rule: rtranclp_induct) (auto dest: step_inv)

lemma reachable_conversation:
  "(conversation_step sha256 direct)\<^sup>*\<^sup>* start db \<Longrightarrow> fresh_conversation start \<Longrightarrow> core_inv (core db)"
  using history_inv fresh_inv by blast

text \<open>What stays: receipts, messages and the identity of threads.\<close>

definition conversation_grows :: "thread_db \<Rightarrow> thread_db \<Rightarrow> bool" where
  "conversation_grows db db' \<longleftrightarrow>
     (\<forall>ow ag key r. findReceipt db ow ag key = Some r \<longrightarrow> findReceipt db' ow ag key = Some r) \<and>
     (\<forall>ow ag t i m. readMessage db ow ag t i = Some m \<longrightarrow> readMessage db' ow ag t i = Some m) \<and>
     (\<forall>ow ag i row. thread_in_scope db ow ag i = Some row \<longrightarrow>
        (\<exists>row'. thread_in_scope db' ow ag i = Some row' \<and> (past_deletion row \<longrightarrow> past_deletion row') \<and>
           (row' = row \<or> tr_revision row < tr_revision row')))"

lemma grows_trans: "conversation_grows a b \<Longrightarrow> conversation_grows b c \<Longrightarrow> conversation_grows a c"
  (is "?ab \<Longrightarrow> ?bc \<Longrightarrow> _")
proof -
  assume ab: ?ab and bc: ?bc
  show "conversation_grows a c" unfolding conversation_grows_def
  proof (intro conjI allI impI)
    fix ow ag i row assume "thread_in_scope a ow ag i = Some row"
    then obtain row1 where 1: "thread_in_scope b ow ag i = Some row1" "row1 = row \<or> tr_revision row < tr_revision row1"
        "past_deletion row \<longrightarrow> past_deletion row1"
      using ab unfolding conversation_grows_def by blast
    then obtain row2 where 2: "thread_in_scope c ow ag i = Some row2" "row2 = row1 \<or> tr_revision row1 < tr_revision row2"
        "past_deletion row1 \<longrightarrow> past_deletion row2"
      using bc unfolding conversation_grows_def by blast
    from 1(2) 2(2) have "row2 = row \<or> tr_revision row < tr_revision row2" by auto
    with 1(3) 2(1,3) show "\<exists>row'. thread_in_scope c ow ag i = Some row' \<and> (past_deletion row \<longrightarrow> past_deletion row') \<and> (row' = row \<or> tr_revision row < tr_revision row')"
      by blast
  qed (use ab bc in \<open>simp_all add: conversation_grows_def\<close>)
qed

lemma find_map_keeps: "(\<And>x. x \<in> set xs \<Longrightarrow> P (f x) = P x) \<Longrightarrow> List.find P (map f xs) = map_option f (List.find P xs)"
  by (induction xs) auto

lemma find_append: "List.find P (xs @ ys) = (case List.find P xs of None \<Rightarrow> List.find P ys | Some x \<Rightarrow> Some x)"
  by (induction xs) auto

lemma receipts_grow_find: "receipts_grow rs rs' \<Longrightarrow> row_of receipt_key k rs = Some r \<Longrightarrow> row_of receipt_key k rs' = Some r"
  by (auto simp: receipts_grow_def row_of_append)

definition threads_grow :: "thread_row list \<Rightarrow> thread_row list \<Rightarrow> bool" where
  "threads_grow ts ts' \<longleftrightarrow> (\<forall>P row. List.find P ts = Some row \<longrightarrow>
     (\<forall>a b. thread_identity a = thread_identity b \<longrightarrow> P a = P b) \<longrightarrow>
     (\<exists>row'. List.find P ts' = Some row' \<and> (past_deletion row \<longrightarrow> past_deletion row') \<and>
        (row' = row \<or> tr_revision row < tr_revision row')))"

lemma threads_grow_map:
  assumes "\<And>r. r \<in> set ts \<Longrightarrow> thread_identity (f r) = thread_identity r \<and> (past_deletion r \<longrightarrow> past_deletion (f r)) \<and> (f r = r \<or> tr_revision r < tr_revision (f r))"
  shows "threads_grow ts (map f ts)"
  unfolding threads_grow_def
proof (intro allI impI)
  fix P row assume f: "List.find P ts = Some row" and P: "\<forall>a b. thread_identity a = thread_identity b \<longrightarrow> P a = P b"
  have "List.find P (map f ts) = Some (f row)"
    using f find_map_keeps [of ts P f] P assms by (metis option.simps(9))
  with assms [of row] find_SomeD [OF f]
  show "\<exists>row'. List.find P (map f ts) = Some row' \<and> (past_deletion row \<longrightarrow> past_deletion row') \<and> (row' = row \<or> tr_revision row < tr_revision row')" by auto
qed

lemma with_message_identity:
  "thread_identity (with_message i n at r) = thread_identity r"
  "with_message i n at r = r \<or> tr_revision r < tr_revision (with_message i n at r)"
  "past_deletion (with_message i n at r) \<longleftrightarrow> past_deletion r"
  by (auto simp: with_message_def thread_identity_def past_deletion_def row_status_def)

lemma core_step_grows:
  "core_step direct c c' \<Longrightarrow> threads_grow (fst c) (fst c') \<and> (\<exists>new. fst (snd c') = fst (snd c) @ new)"
proof (induction rule: core_step.induct)
  case (new_thread row ts ms rs us)
  then show ?case by (auto simp: threads_grow_def find_append)
next
  case (edit f ts ms rs us)
  then show ?case using threads_grow_map [of ts f] by (auto simp: edits_thread_def)
next
  case (move f ts r rs s ms us at)
  then show ?case using threads_grow_map [of ts f] by (auto simp: edits_thread_def)
qed (auto simp: with_message_identity(3) intro!: threads_grow_map with_message_identity(1,2))

lemma step_grows:
  assumes "conversation_step sha256 direct db db'" "core_inv (core db)"
  shows "conversation_grows db db'"
proof -
  note e = step_effect [OF assms, unfolded conversation_effect_def]
  have core: "threads_grow (th_threads db) (th_threads db') \<and> (\<exists>new. th_messages db' = th_messages db @ new)"
  proof (cases "core db' = core db")
    case True
    then show ?thesis by (auto simp: core_def threads_grow_def)
  next
    case False
    with e have "core_step direct (core db) (core db')" by simp
    from core_step_grows [OF this] show ?thesis by (simp add: core_def)
  qed
  then obtain new where ms: "th_messages db' = th_messages db @ new" by blast
  show ?thesis unfolding conversation_grows_def
  proof (intro conjI allI impI)
    fix ow ag key r assume "findReceipt db ow ag key = Some r"
    with e show "findReceipt db' ow ag key = Some r" by (auto simp: findReceipt_def dest: receipts_grow_find)
  next
    fix ow ag t i m assume "readMessage db ow ag t i = Some m"
    then show "readMessage db' ow ag t i = Some m" by (simp add: readMessage_def ms find_append)
  next
    fix ow ag i row assume "thread_in_scope db ow ag i = Some row"
    with core show "\<exists>row'. thread_in_scope db' ow ag i = Some row' \<and> (past_deletion row \<longrightarrow> past_deletion row') \<and> (row' = row \<or> tr_revision row < tr_revision row')"
      unfolding thread_in_scope_def threads_grow_def by (auto simp: thread_identity_def)
  qed
qed

lemma conversation_history_grows:
  "(conversation_step sha256 direct)\<^sup>*\<^sup>* db db' \<Longrightarrow> core_inv (core db) \<Longrightarrow> conversation_grows db db'"
proof (induction rule: rtranclp_induct)
  case base
  show ?case by (simp add: conversation_grows_def)
next
  case (step y z)
  then show ?case using step_grows [OF step.hyps(2) history_inv [OF step.hyps(1) step.prems]] grows_trans by blast
qed

section \<open>Commands of Runs are operations of the product state\<close>

text \<open>
  The Run lifecycle and the conversation write the results and the outbox of \<open>Product_State\<close>. Seen on
  those tables, each of their commands is a sequence of the operations that \<open>product_step\<close> allows, so the
  properties of the product state hold across them.
\<close>

abbreviation product_history :: "(string \<Rightarrow> string) \<Rightarrow> thread_db \<Rightarrow> thread_db \<Rightarrow> bool" where
  "product_history sha256 db db' \<equiv> (product_step sha256)\<^sup>*\<^sup>* (product_db.truncate db) (product_db.truncate db')"

lemma work_history:
  assumes "pdb_states db' = pdb_states db" "pdb_commandResults db' = pdb_commandResults db" "pdb_events db' = pdb_events db"
    "pdb_consumptions db' = pdb_consumptions db"
  shows "product_history sha256 db db'"
proof -
  have "product_db.truncate db' = (product_db.truncate db)\<lparr>pdb_work := pdb_work db', pdb_payloads := pdb_payloads db'\<rparr>"
    using assms by (simp add: product_db.defs)
  then show ?thesis unfolding product_step_def unclaiming_step_def by (intro r_into_rtranclp) blast
qed

lemma event_history:
  assumes "insert_event ow ag e db = Inr db'"
  shows "product_history sha256 db db'"
proof -
  have "insert_event ow ag e (product_db.truncate db) = Inr (product_db.truncate db')"
    using assms by (simp add: insert_event_Inr product_db.defs)
  then show ?thesis unfolding product_step_def unclaiming_step_def by (intro r_into_rtranclp) blast
qed

lemma result_history:
  assumes "insert_command_result db row = Inr db'" "starts_with (cr_id row) ''run-command:''"
  shows "product_history sha256 db db'"
proof -
  have "insert_command_result (product_db.truncate db) row = Inr (product_db.truncate db')"
    using assms(1) by (auto simp: insert_command_result_def product_db.defs inverts)
  with assms(2) show ?thesis unfolding product_step_def unclaiming_step_def by (intro r_into_rtranclp) blast
qed

lemma receipt_history:
  assumes "writeReceipt db input = Inr (db', r)"
  shows "product_history sha256 db db'"
proof -
  obtain db1 db2 where s: "insert_receipt db (new_receipt input) = Inr db1"
      "insert_event (wr_ownerId input) (wr_agentId input) (thread_changed_event input) db1 = Inr db2"
      "appendGatewayEvent db2 (receipt_event input) = Inr db'"
    using assms by (auto simp: writeReceipt_def inverts)
  have "product_history sha256 db db1" using s(1) by (intro work_history) (auto simp: insert_receipt_def inverts)
  moreover have "product_history sha256 db2 db'"
    using appendGatewayEvent_Inr [OF s(3)] by (intro work_history) auto
  ultimately show ?thesis using event_history [OF s(2)] by (meson rtranclp_trans)
qed

lemma run_receipt_history:
  assumes "write_run_receipt sha db input mutation authority now n = Inr (db', r)"
  shows "product_history sha256 db db'"
proof -
  obtain db1 db2 where s: "insert_command_result db (run_result sha input mutation authority now n) = Inr db1"
      "insert_event (rcc_ownerId input) (rcc_agentId input) (run_changed_event sha input mutation now) db1 = Inr db2"
      "(case mutation of move_to status \<Rightarrow> notify_thread sha db2 input status authority now
                | complete_with res classification \<Rightarrow> Inr db2) = Inr db'"
    using assms by (auto simp: write_run_receipt_def Let_def inverts)
  have "starts_with (cr_id (run_result sha input mutation authority now n)) ''run-command:''"
    by (simp add: run_result_def starts_with_def)
  with s(1) have "product_history sha256 db db1" by (rule result_history)
  moreover have "product_history sha256 db2 db'"
    using s(3) by (intro work_history; cases mutation) (auto dest!: notify_thread_Inr)
  ultimately show ?thesis using event_history [OF s(2)] by (meson rtranclp_trans)
qed

lemma answer_history:
  assumes "commitAssistantMessage db input = Inr (db', t, m, r)"
  shows "product_history sha256 db db'"
proof -
  note def = assms [unfolded commitAssistantMessage_def Let_def]
  obtain replay where replay: "replay_receipt db (as_ownerId input) (as_agentId input)
      (as_idempotencyKey input) ''thread.message.commit_assistant'' (as_semanticFingerprint input) = Inr replay"
    using def by (elim andThenE)
  show ?thesis
  proof (cases replay)
    case (Some receipt)
    with def replay show ?thesis by (auto simp: inverts message_outcome_Inr)
  next
    case None
    then obtain n k db1 db2 db3 rc where s: "insert_message db (assistant_message input k) = Inr db1"
        "advance_thread (close_run db1 input) (as_threadId input) n k (as_committedAt input) = Inr db2"
        "writeReceipt db2 (assistant_receipt input (n + 1)) = Inr (db3, rc)" and out: "db' = db3"
      using def replay by (auto simp: inverts message_outcome_Inr)
    have "product_history sha256 db db2"
      using s(1,2) by (intro work_history) (auto simp: insert_message_def advance_thread_def close_run_def
          update_threads_Inr inverts split: option.splits if_splits)
    with receipt_history [OF s(3)] out show ?thesis by (meson rtranclp_trans)
  qed
qed

lemma completed_run_history:
  assumes "completed_run sha db input res cls run authority now = Inr db'"
  shows "product_history sha256 db db'"
  using assms
proof (cases rule: completed_runE)
  case plain
  then show ?thesis by (intro work_history) (simp_all add: complete_plain_run_def)
next
  case (answer thread row turn ref cls' outcome)
  then show ?thesis by (cases outcome) (auto intro: answer_history)
qed

lemma lifecycle_history:
  assumes "execute_lifecycle sha db ow ag authority request now = Inr (db', r)"
  shows "product_history sha256 db db'"
proof -
  have moved: "product_history sha256 db db'"
    if "write_run_receipt sha db1 input mutation authority now n = Inr (db', r)" "product_history sha256 db db1"
    for db1 input mutation n
    using run_receipt_history [OF that(1)] that(2) by (meson rtranclp_trans)
  show ?thesis
  proof (cases request)
    case (request_transition input s)
    with assms have op: "lifecycle_transition sha db input s authority now = Inr (db', r)"
      by (auto simp: execute_lifecycle_def inverts)
    have "db' = db \<or> (\<exists>n. write_run_receipt sha (set_run_status db input n s now) input (move_to s) authority now (n + 1) = Inr (db', r))"
      using op unfolding lifecycle_transition_def by (auto simp: inverts split: option.splits)
    moreover have "product_history sha256 db (set_run_status db input n s now)" for n
      by (intro work_history) (simp_all add: set_run_status_def)
    ultimately show ?thesis using moved by blast
  next
    case (request_cancel input)
    with assms have op: "lifecycle_cancel sha db input authority now = Inr (db', r)"
      by (auto simp: execute_lifecycle_def inverts)
    have "db' = db \<or> (\<exists>work n db1. writeCancelledCheckpoint (set_run_status (db\<lparr>pdb_work := work\<rparr>) input n run_cancelled now) input now =
        Inr db1 \<and> write_run_receipt sha db1 input (move_to run_cancelled) authority now (n + 1) = Inr (db', r))"
      using op unfolding lifecycle_cancel_def by (auto simp: inverts untranslated_Inr split: option.splits)
    moreover have "product_history sha256 db db1"
      if "writeCancelledCheckpoint (set_run_status (db\<lparr>pdb_work := work\<rparr>) input n run_cancelled now) input now = Inr db1"
      for work n db1
      using that by (intro work_history) (auto simp: writeCancelledCheckpoint_def set_run_status_def inverts split: option.splits)
    ultimately show ?thesis using moved by blast
  next
    case (request_complete input res cls)
    with assms have op: "lifecycle_complete sha db input res cls authority now = Inr (db', r)"
      by (auto simp: execute_lifecycle_def inverts)
    have "db' = db \<or> (\<exists>run n db1. completed_run sha db input res cls run authority now = Inr db1 \<and>
        write_run_receipt sha db1 input (complete_with res cls) authority now n = Inr (db', r))"
      using op unfolding lifecycle_complete_def Let_def by (auto simp: inverts split: option.splits)
    with moved completed_run_history show ?thesis by blast
  qed
qed

end
