(* ===== verification/Thread_Promises.thy ===== *)
theory Thread_Promises
  imports Conversation JsDate
begin

text \<open>
  What the conversation promises its clients, proved from the refinement in \<open>Conversation\<close>: gapless
  messages, one answer per Run, commands that take effect once, Runs that keep to the table of their
  statuses, and a subscriber (\<open>subscribe\<close> of
  \<open>packages/application/src/services/product-thread-gateway-adapter.ts\<close>) that sees every event once.
\<close>

section \<open>Messages\<close>

lemma filter_upto_after: "0 \<le> n \<Longrightarrow> filter (\<lambda>k. n < k) [1..m] = [n + 1..m :: int]"
  by (rule sorted_distinct_set_unique) (auto intro: sorted_wrt_filter)

text \<open>
  C13. In every reachable store the messages of every thread, whatever its status, are numbered 1, 2, ...
  up to the watermark of the thread, with no gap and no number taken twice. \<open>listMessages\<close> returns exactly
  the numbers after the cursor, in order, up to the limit, when the thread is active or archived, and
  nothing when it is in the trash, waits for its deletion or has been deleted. This holds across forks,
  edits, deletion requests, answers inside and outside the Run lifecycle, and recovery.
\<close>

theorem message_sequence_gapless:
  assumes history: "(conversation_step sha256 direct)\<^sup>*\<^sup>* start db" and fresh: "fresh_conversation start"
    and thread: "readThread db ow ag i = Some t"
    and limit: "1 \<le> limit" "limit \<le> 1000" and cursor: "is_safe_integer after" "0 \<le> after"
  shows "map msg_sequence (thread_messages db ow ag i) = [1..pt_messageWatermark t] \<and>
    (\<exists>page. listMessages db ow ag i after limit = Inr page \<and>
       map msg_sequence page = (if pt_status t \<in> {thread_active, thread_archived}
         then take (nat limit) [after + 1..pt_messageWatermark t] else []))"
proof -
  have inv: "core_inv (core db)" using reachable_conversation [OF history fresh] .
  obtain row where row: "thread_in_scope db ow ag i = Some row" "t = fromThreadRow db row"
    using thread by (auto simp: readThread_Some)
  note r = thread_in_scope_row [OF inv row(1)]
  have ok: "messages_ok (th_threads db) (th_messages db)" using core_invD(3) [OF inv] .
  have mem: "row \<in> set (th_threads db)" using row_of_SomeD [OF r(1)] by simp
  have all: "thread_messages db ow ag i = filter (\<lambda>m. msg_threadId m = i) (th_messages db)"
    unfolding thread_messages_def
  proof (rule filter_cong [OF refl])
    fix m assume "m \<in> set (th_messages db)"
    with ok obtain x where x: "x \<in> set (th_threads db)" "tr_id x = msg_threadId m" "tr_ownerId x = msg_ownerId m"
        "tr_agentId x = msg_agentId m"
      unfolding messages_ok_def by blast
    show "(msg_ownerId m = ow \<and> msg_agentId m = ag \<and> msg_threadId m = i) = (msg_threadId m = i)"
    proof (cases "msg_threadId m = i")
      case True
      then have "x = row" using unique_row [OF core_invD(1) [OF inv] x(1) mem] x(2) r(2) by simp
      with x r show ?thesis by simp
    qed simp
  qed
  have seq: "map msg_sequence (thread_messages db ow ag i) = [1..pt_messageWatermark t]"
  proof -
    have "map msg_sequence (filter (\<lambda>m. msg_threadId m = tr_id row) (th_messages db)) = [1..tr_messageWatermark row]"
      using ok mem unfolding messages_ok_def by blast
    then show ?thesis by (simp add: all row(2) r(2))
  qed
  have committed: "\<forall>m\<in>set (thread_messages db ow ag i). msg_status m = msg_committed"
    using ok by (auto simp: messages_ok_def thread_messages_def)
  let ?page = "filter (\<lambda>m. after < msg_sequence m \<and> msg_status m = msg_committed) (thread_messages db ow ag i)"
  have "map msg_sequence ?page = filter (\<lambda>n. after < n) (map msg_sequence (thread_messages db ow ag i))"
    using committed by (simp add: filter_map o_def cong: filter_cong)
  also have "\<dots> = [after + 1..pt_messageWatermark t]"
    unfolding seq using cursor(2) by (rule filter_upto_after)
  finally have page: "map msg_sequence ?page = [after + 1..pt_messageWatermark t]" .
  then have "sort_key msg_sequence ?page = ?page" by (simp add: sort_key_id_if_sorted sorted_upto)
  then have "listMessages db ow ag i after limit = Inr
      (if pt_status t \<in> {thread_active, thread_archived} then take (nat limit) ?page else [])"
    using thread limit cursor
    by (cases "pt_status t") (simp_all add: listMessages_def thread_limit_def ensure_def is_safe_integer_def
        MAX_SAFE_INTEGER_def)
  with seq page show ?thesis by (auto simp: take_map [symmetric])
qed

text \<open>
  C14. A Run of a thread is answered exactly once: in every reachable store a completed Run of a thread has
  one message of the agent and any other Run has none, and the answer is a message of the thread of the
  Run. No sequence of retries, lifecycle commands, direct commits and recoveries produces a second answer,
  or a completed Run without one.
\<close>

theorem answered_exactly_once:
  assumes history: "(conversation_step sha256 direct)\<^sup>*\<^sup>* start db" and fresh: "fresh_conversation start"
    and run: "r \<in> set (db_runs db)" "rs_threadId r = Some t"
  shows "length (answers (th_messages db) (rs_id r)) = (if rs_status r = run_completed then 1 else 0) \<and>
    (\<forall>m\<in>set (answers (th_messages db) (rs_id r)). msg_threadId m = t)"
proof -
  have inv: "core_inv (core db)" using reachable_conversation [OF history fresh] .
  note ok = core_invD(4) [OF inv, unfolded answers_ok_def]
  have "msg_threadId m = t" if "m \<in> set (answers (th_messages db) (rs_id r))" for m
  proof -
    from that have m: "m \<in> set (th_messages db)" "msg_role m = role_agent" "msg_runId m = Some (rs_id r)"
      by (auto simp: answers_def)
    obtain x where x: "x \<in> set (db_runs db)" "msg_runId m = Some (rs_id x)" "rs_threadId x = Some (msg_threadId m)"
      using bspec [OF conjunct2 [OF conjunct2 [OF ok]] m(1), rule_format, OF m(2)] by (elim bexE conjE)
    have "x = r" using unique_row [OF core_invD(2) [OF inv] x(1) run(1)] m(3) x(2) by simp
    with x(3) run(2) show ?thesis by simp
  qed
  moreover have "length (answers (th_messages db) (rs_id r)) = (if rs_status r = run_completed then 1 else 0)"
    using ok run by blast
  ultimately show ?thesis by blast
qed

section \<open>Commands take effect once\<close>

lemma row_of_append_new:
  "\<not> has_row key (key r) rows \<Longrightarrow> row_of key (key r) (rows @ [r]) = Some r"
  by (auto simp: row_of_append has_row_iff split: option.splits dest!: row_of_SomeD)

text \<open>What a successful submission leaves behind.\<close>

lemma admit_recorded:
  assumes "admitOwnerMessage db input = Inr (db', t, m, r)"
  shows "findReceipt db' (ad_ownerId input) (ad_agentId input) (ad_idempotencyKey input) = Some r \<and>
    tm_commandType r = ''thread.message.submit'' \<and> tm_semanticFingerprint r = ad_semanticFingerprint input \<and>
    (\<exists>row. thread_in_scope db' (ad_ownerId input) (ad_agentId input) (tm_threadId r) = Some row) \<and>
    readMessage db' (ad_ownerId input) (ad_agentId input) (ad_threadId input) (ad_messageId input) = Some m"
proof -
  note def = assms [unfolded admitOwnerMessage_def Let_def]
  obtain replay where replay: "replay_receipt db (ad_ownerId input) (ad_agentId input)
      (ad_idempotencyKey input) ''thread.message.submit'' (ad_semanticFingerprint input) = Inr replay"
    using def by (elim andThenE)
  show ?thesis
  proof (cases replay)
    case (Some receipt)
    with def replay have "message_outcome db (ad_ownerId input) (ad_agentId input) (tm_threadId receipt)
        (ad_threadId input) (ad_messageId input) receipt = Inr (db', t, m, r)" by (simp add: inverts)
    with Some replay show ?thesis by (auto simp: message_outcome_Inr replay_receipt_Inr readThread_Some)
  next
    case None
    then obtain n db2 db3 where wrote: "writeReceipt db2 (admit_receipt input n) = Inr (db3, r)"
        and out: "message_outcome db3 (ad_ownerId input) (ad_agentId input) (ad_threadId input) (ad_threadId input)
          (ad_messageId input) r = Inr (db', t, m, r)"
      using def replay by (auto simp: inverts message_outcome_Inr split: option.splits)
    from out have db3: "db' = db3" "readThread db3 (ad_ownerId input) (ad_agentId input) (ad_threadId input) = Some t"
        "readMessage db3 (ad_ownerId input) (ad_agentId input) (ad_threadId input) (ad_messageId input) = Some m"
      by (auto simp: message_outcome_Inr)
    note w = writeReceipt_Inr [OF wrote]
    let ?row = "new_receipt (admit_receipt input n)"
    from w have r: "r = receiptFromRow ?row" and new: "\<not> has_row receipt_key (receipt_key ?row) (th_receipts db2)"
        and recs: "th_receipts db3 = th_receipts db2 @ [?row]" by auto
    have key: "receipt_key ?row = (ad_ownerId input, ad_agentId input, ad_idempotencyKey input)"
      by (simp add: receipt_key_def new_receipt_def admit_receipt_def)
    have "findReceipt db3 (ad_ownerId input) (ad_agentId input) (ad_idempotencyKey input) = Some r"
      using row_of_append_new [OF new] by (simp add: findReceipt_def recs key r)
    moreover have "tm_commandType r = ''thread.message.submit''" "tm_semanticFingerprint r = ad_semanticFingerprint input"
        "tm_threadId r = ad_threadId input"
      by (simp_all add: r receiptFromRow_def new_receipt_def admit_receipt_def)
    ultimately show ?thesis using db3 by (auto simp: readThread_Some)
  qed
qed

text \<open>
  C15. An owner's message is admitted once. When a submission has succeeded, submitting it again at any
  later point of the history, whatever happened to the thread since and with whatever authority the retry
  carries, never admits a second message: a full disk refuses it first, as it refuses every submission,
  and otherwise it changes nothing and returns the recorded receipt and the recorded message; a submission
  with another fingerprint under the same idempotency key is refused as a conflict.
\<close>

theorem owner_message_admitted_once:
  assumes before: "(conversation_step sha256 direct)\<^sup>*\<^sup>* start db" and fresh: "fresh_conversation start"
    and admitted: "admitOwnerMessage db input = Inr (db1, t, m, r)"
    and after: "(conversation_step sha256 direct)\<^sup>*\<^sup>* db1 db2"
    and retry: "ad_ownerId again = ad_ownerId input" "ad_agentId again = ad_agentId input"
      "ad_idempotencyKey again = ad_idempotencyKey input" "ad_threadId again = ad_threadId input"
      "ad_messageId again = ad_messageId input"
  shows "if headroom db2 \<and> ad_semanticFingerprint again = ad_semanticFingerprint input
    then \<exists>t'. admitOwnerMessage db2 again = Inr (db2, t', m, r)
    else admitOwnerMessage db2 again = Inl conflict"
proof -
  have "core_inv (core db)" using reachable_conversation [OF before fresh] .
  then have "core_inv (core db1)" using step_inv conversation_step.admitted [OF admitted] by blast
  with after have grows: "conversation_grows db1 db2" by (rule conversation_history_grows)
  note rec = admit_recorded [OF admitted]
  with grows have found: "findReceipt db2 (ad_ownerId input) (ad_agentId input) (ad_idempotencyKey input) = Some r"
      "readMessage db2 (ad_ownerId input) (ad_agentId input) (ad_threadId input) (ad_messageId input) = Some m"
    unfolding conversation_grows_def by blast+
  from rec obtain row where "thread_in_scope db1 (ad_ownerId input) (ad_agentId input) (tm_threadId r) = Some row" by blast
  with grows obtain t' where t': "readThread db2 (ad_ownerId input) (ad_agentId input) (tm_threadId r) = Some t'"
    unfolding conversation_grows_def readThread_Some by blast
  show ?thesis
    using rec found t' retry
    by (auto simp: admitOwnerMessage_def Let_def replay_receipt_def message_outcome_def ensure_def)
qed

section \<open>Runs\<close>

text \<open>
  One allowed move of a Run, and what a step does to every Run. The quarantine after a restart writes a Run
  that is already being reconciled once more, with the same status and the next revision.
\<close>

abbreviation allowed_move :: "run_status \<Rightarrow> run_status \<Rightarrow> bool" where
  "allowed_move s s' \<equiv> s' \<in> set (ALLOWED_TRANSITIONS s) \<or> s = run_reconciling_external_result \<and> s' = s"

definition run_moved :: "bool \<Rightarrow> run_state_row \<Rightarrow> run_state_row \<Rightarrow> bool" where
  "run_moved direct r r' \<longleftrightarrow> r' = r \<or> rs_status r \<notin> set TERMINAL_RUN_STATUSES \<and> rs_revision r' = rs_revision r + 1 \<and>
     r' = r\<lparr>rs_status := rs_status r', rs_revision := rs_revision r', rs_updatedAt := rs_updatedAt r'\<rparr> \<and>
     (direct \<and> rs_status r' = run_completed \<or> allowed_move (rs_status r) (rs_status r'))"

lemma may_become_moves: "run_may_become r s \<Longrightarrow> allowed_move (rs_status r) s \<and> rs_status r \<notin> set TERMINAL_RUN_STATUSES"
  by (cases "rs_status r") (auto simp: run_may_become_def TERMINAL_RUN_STATUSES_def)

lemma map_witness: "x \<in> set xs \<Longrightarrow> P (f x) \<Longrightarrow> \<exists>y\<in>set (map f xs). P y"
  by auto

lemma core_step_runs:
  "core_step direct c c' \<Longrightarrow> distinct (map rs_id (fst (snd (snd c)))) \<Longrightarrow> r \<in> set (fst (snd (snd c))) \<Longrightarrow>
     \<exists>r'\<in>set (fst (snd (snd c'))). run_moved direct r r'"
proof (induction rule: core_step.induct)
  case (new_thread row ts ms rs us)
  then show ?case by (auto simp: run_moved_def)
next
  case (edit f ts ms rs us)
  then show ?case by (auto simp: run_moved_def)
next
  case (admit m ts t ms r' rs u us at)
  then show ?case by (auto simp: run_moved_def)
next
  case (answer m ts t ms x rs turn us at)
  let ?f = "\<lambda>y. if rs_id y = rs_id x
    then y\<lparr>rs_status := run_completed, rs_revision := rs_revision y + 1, rs_updatedAt := at\<rparr> else y"
  have "r \<in> set rs" using answer.prems by simp
  moreover have "run_moved direct r (?f r)"
  proof (cases "rs_id r = rs_id x")
    case True
    then have "r = x" using unique_row [of rs_id rs r x] answer by simp
    then show ?thesis using answer.hyps may_become_moves [of x run_completed] by (auto simp: run_moved_def)
  qed (simp add: run_moved_def)
  ultimately have "\<exists>r'\<in>set (map ?f rs). run_moved direct r r'" by (rule map_witness)
  then show ?case by (simp only: fst_conv snd_conv)
next
  case (move f ts x rs s ms us at)
  let ?f = "\<lambda>y. if rs_id y = rs_id x
    then y\<lparr>rs_status := s, rs_revision := rs_revision y + 1, rs_updatedAt := at\<rparr> else y"
  have "r \<in> set rs" using move.prems by simp
  moreover have "run_moved direct r (?f r)"
  proof (cases "rs_id r = rs_id x")
    case True
    then have "r = x" using unique_row [of rs_id rs r x] move by simp
    then show ?thesis using move.hyps may_become_moves [of x s] by (auto simp: run_moved_def)
  qed (simp add: run_moved_def)
  ultimately have "\<exists>r'\<in>set (map ?f rs). run_moved direct r r'" by (rule map_witness)
  then show ?case by (simp only: fst_conv snd_conv)
qed

lemma step_runs:
  assumes "conversation_step sha256 direct db db'" "core_inv (core db)" "r \<in> set (db_runs db)"
  shows "\<exists>r'\<in>set (db_runs db'). run_moved direct r r'"
proof (cases "core db' = core db")
  case True
  then show ?thesis using assms(3) by (auto simp: core_def run_moved_def)
next
  case False
  with step_effect [OF assms(1,2)] have "core_step direct (core db) (core db')" by (simp add: conversation_effect_def)
  from core_step_runs [OF this] core_invD(2) [OF assms(2)] assms(3) show ?thesis by (simp add: core_def)
qed

lemma history_runs_move:
  assumes "(conversation_step sha256 direct)\<^sup>*\<^sup>* db db'" "core_inv (core db)" "r \<in> set (db_runs db)"
  shows "\<exists>r'\<in>set (db_runs db'). (run_moved direct)\<^sup>*\<^sup>* r r'"
  using assms
proof (induction rule: rtranclp_induct)
  case base
  then show ?case by blast
next
  case (step y z)
  then obtain r1 where r1: "r1 \<in> set (db_runs y)" "(run_moved direct)\<^sup>*\<^sup>* r r1" by blast
  from step_runs [OF step.hyps(2) history_inv [OF step.hyps(1) step.prems(1)] r1(1)]
  obtain r2 where "r2 \<in> set (db_runs z)" "run_moved direct r1 r2" by blast
  with r1(2) show ?case by (auto intro: rtranclp.rtrancl_into_rtrancl)
qed

lemma moved_follows_table:
  "(run_moved False)\<^sup>*\<^sup>* r r' \<Longrightarrow> \<exists>k s at. r' = r\<lparr>rs_status := s, rs_revision := rs_revision r + int k, rs_updatedAt := at\<rparr> \<and>
     (allowed_move ^^ k) (rs_status r) s"
proof (induction rule: rtranclp_induct)
  case base
  have "r = r\<lparr>rs_status := rs_status r, rs_revision := rs_revision r + int 0, rs_updatedAt := rs_updatedAt r\<rparr>" by simp
  moreover have "(allowed_move ^^ 0) (rs_status r) (rs_status r)" by simp
  ultimately show ?case by blast
next
  case (step y z)
  then obtain k s at where y: "y = r\<lparr>rs_status := s, rs_revision := rs_revision r + int k, rs_updatedAt := at\<rparr>"
      "(allowed_move ^^ k) (rs_status r) s" by blast
  show ?case
  proof (cases "z = y")
    case True
    with step.IH show ?thesis by simp
  next
    case False
    with step.hyps(2) have z: "rs_revision z = rs_revision y + 1"
        "z = y\<lparr>rs_status := rs_status z, rs_revision := rs_revision z, rs_updatedAt := rs_updatedAt z\<rparr>"
        "allowed_move (rs_status y) (rs_status z)"
      unfolding run_moved_def by blast+
    have "rs_revision z = rs_revision r + int (Suc k)" using z(1) y(1) by simp
    then have "z = r\<lparr>rs_status := rs_status z, rs_revision := rs_revision r + int (Suc k), rs_updatedAt := rs_updatedAt z\<rparr>"
      using z(2) unfolding y(1) by simp
    moreover have "(allowed_move ^^ Suc k) (rs_status r) (rs_status z)"
      using relpowp_Suc_I [of k allowed_move "rs_status r" s "rs_status z"] y z(3) by simp
    ultimately show ?thesis by blast
  qed
qed

text \<open>
  C20. While answers are committed through the Run lifecycle, every Run keeps to the table of its statuses:
  at any later point of the history it is still there, with the same identity, and has made some number of
  single moves, each of them one that \<open>ALLOWED_TRANSITIONS\<close> lists or the renewed quarantine of a Run that is
  being reconciled, and its revision has grown by exactly that number. This covers transitions,
  cancellations, completions and the quarantine after a restart; an answer that completed an accepted Run in
  one write would break it.
\<close>

theorem run_moves_follow_table:
  assumes before: "(conversation_step sha256 False)\<^sup>*\<^sup>* start db" and fresh: "fresh_conversation start"
    and after: "(conversation_step sha256 False)\<^sup>*\<^sup>* db db'" and run: "r \<in> set (db_runs db)"
  shows "\<exists>k s at. r\<lparr>rs_status := s, rs_revision := rs_revision r + int k, rs_updatedAt := at\<rparr> \<in> set (db_runs db') \<and>
    ((\<lambda>a b. b \<in> set (ALLOWED_TRANSITIONS a) \<or> a = run_reconciling_external_result \<and> b = a) ^^ k) (rs_status r) s"
proof -
  obtain r' where r': "r' \<in> set (db_runs db')" "(run_moved False)\<^sup>*\<^sup>* r r'"
    using history_runs_move [OF after reachable_conversation [OF before fresh] run] by blast
  from moved_follows_table [OF r'(2)] r'(1) show ?thesis by blast
qed

text \<open>
  C21. A Run that has ended stays as it is: no later operation on threads, messages or Runs, not even an
  answer committed outside the lifecycle, changes a completed, failed or cancelled Run.
\<close>

theorem ended_run_is_final:
  assumes before: "(conversation_step sha256 direct)\<^sup>*\<^sup>* start db" and fresh: "fresh_conversation start"
    and after: "(conversation_step sha256 direct)\<^sup>*\<^sup>* db db'"
    and run: "r \<in> set (db_runs db)" "rs_status r \<in> set TERMINAL_RUN_STATUSES"
  shows "r \<in> set (db_runs db')"
proof -
  obtain r' where r': "r' \<in> set (db_runs db')" "(run_moved direct)\<^sup>*\<^sup>* r r'"
    using history_runs_move [OF after reachable_conversation [OF before fresh] run(1)] by blast
  from r'(2) run(2) have "r' = r"
    by (induction rule: rtranclp_induct) (auto simp: run_moved_def)
  with r'(1) show ?thesis by simp
qed

section \<open>A subscriber of gateway events\<close>

text \<open>A check of the contract that throws \<open>ContractValidationError\<close>, an error of no code of the application.\<close>

abbreviation contract_error :: error where
  "contract_error \<equiv> OtherError"

definition ensureValue :: "bool \<Rightarrow> 'a \<Rightarrow> 'a result" where
  "ensureValue ok input = (if ok then Inr input else Inl contract_error)"

text \<open>
  What \<open>threadGatewayMessageSchema.parse\<close> demands of the message that \<open>subscribe\<close> makes of an event
  (\<open>threadEventV3Schema\<close> and its envelope in \<open>thread-contracts-v3.ts\<close> of \<open>gateway-contracts\<close>, \<open>machineString\<close>,
  \<open>integer\<close>, \<open>nullable\<close> and \<open>timestamp\<close> in its \<open>validation.ts\<close>). Its literals (version, kind, type, the actor
  \<open>thread-gateway\<close>) are right by construction, the other fields come from the event. A message that is not
  one of the contract throws \<open>ContractValidationError\<close>; the paths of its text are not modelled.
\<close>

definition machineString :: "string \<Rightarrow> string result" where
  "machineString input = ensureValue (MACHINE_IDENTIFIER_PATTERN input) input"

definition contract_integer :: "int \<Rightarrow> int \<Rightarrow> int result" where
  "contract_integer minimum input = ensureValue (is_safe_integer input \<and> minimum \<le> input) input"

definition contract_timestamp :: "string \<Rightarrow> string result" where
  "contract_timestamp input = ensureValue (isCanonicalTimestamp input) input"

fun contract_nullable :: "('a \<Rightarrow> 'a result) \<Rightarrow> 'a option \<Rightarrow> 'a option result" where
  "contract_nullable schema None = Inr None"
| "contract_nullable schema (Some x) = andThen (schema x) (\<lambda>y. Inr (Some y))"

definition authoritySchema :: "product_authority_fence \<Rightarrow> product_authority_fence result" where
  "authoritySchema f =
     andThen (machineString (fence_deploymentId f)) (\<lambda>deploymentId.
     andThen (contract_integer 1 (fence_authorityEpoch f)) (\<lambda>authorityEpoch.
     andThen (contract_integer 1 (fence_fencingToken f)) (\<lambda>fencingToken.
     Inr \<lparr>fence_deploymentId = deploymentId, fence_authorityEpoch = authorityEpoch,
          fence_fencingToken = fencingToken\<rparr>)))"

definition parse_event :: "gateway_event \<Rightarrow> gateway_event result" where
  "parse_event event =
     andThen (machineString (ge_eventId event)) (\<lambda>messageId.
     andThen (machineString (ge_causationCommandId event)) (\<lambda>correlationId.
     andThen (machineString (ge_ownerId event)) (\<lambda>ownerId.
     andThen (machineString (ge_agentId event)) (\<lambda>agentId.
     andThen (authoritySchema (ge_authority event)) (\<lambda>authority.
     andThen (machineString (ge_threadId event)) (\<lambda>threadId.
     andThen (contract_integer 1 (ge_revision event)) (\<lambda>revision.
     andThen (machineString (ge_cursor event)) (\<lambda>cursor.
     andThen (machineString (ge_eventType event)) (\<lambda>eventType.
     andThen (contract_nullable machineString (ge_payloadRef event)) (\<lambda>payloadRef.
     andThen (contract_timestamp (ge_occurredAt event)) (\<lambda>occurredAt.
     Inr (event\<lparr>ge_eventId := messageId, ge_causationCommandId := correlationId, ge_ownerId := ownerId,
       ge_agentId := agentId, ge_authority := authority, ge_threadId := threadId, ge_revision := revision,
       ge_cursor := cursor, ge_eventType := eventType, ge_payloadRef := payloadRef,
       ge_occurredAt := occurredAt\<rparr>))))))))))))"

text \<open>
  The loop over the events of one page, which yields each event it has parsed and ends with the first one it
  cannot parse; one round of \<open>subscribe\<close>, at most 1000 events after the cursor, which moves to the last event
  that was yielded; and the rounds of a subscription, which see successive stores, up to the first error.
  A subscription that is aborted ends after any of the yielded events.
\<close>

fun deliver_events :: "gateway_event list \<Rightarrow> gateway_event list \<times> error option" where
  "deliver_events [] = ([], None)"
| "deliver_events (event # events) = (case parse_event event of
       Inl e \<Rightarrow> ([], Some e)
     | Inr parsed \<Rightarrow> (case deliver_events events of (sent, err) \<Rightarrow> (parsed # sent, err)))"

definition poll ::
  "thread_db \<Rightarrow> OwnerId \<Rightarrow> AgentId \<Rightarrow> string option \<Rightarrow> gateway_event list \<times> string option \<times> error option" where
  "poll db ow ag cursor = (case listGatewayEvents db ow ag cursor 1000 of
       Inl e \<Rightarrow> ([], cursor, Some e)
     | Inr events \<Rightarrow> (case deliver_events events of (sent, err) \<Rightarrow>
         (sent, if sent = [] then cursor else Some (ge_cursor (last sent)), err)))"

fun poll_rounds ::
  "thread_db list \<Rightarrow> OwnerId \<Rightarrow> AgentId \<Rightarrow> string option \<Rightarrow> gateway_event list list \<times> error option" where
  "poll_rounds [] ow ag cursor = ([], None)"
| "poll_rounds (db # dbs) ow ag cursor = (case poll db ow ag cursor of
       (sent, cursor', Some e) \<Rightarrow> ([sent], Some e)
     | (sent, cursor', None) \<Rightarrow> (case poll_rounds dbs ow ag cursor' of (rounds, err) \<Rightarrow> (sent # rounds, err)))"

definition subscribe ::
  "thread_db list \<Rightarrow> string \<Rightarrow> string \<Rightarrow> string option \<Rightarrow> (gateway_event list list \<times> error option) result" where
  "subscribe dbs ownerId agentId afterCursor =
     andThen (createOwnerId ownerId) (\<lambda>ow.
     andThen (createAgentId agentId) (\<lambda>ag. Inr (poll_rounds dbs ow ag afterCursor)))"

text \<open>The events the contract admits.\<close>

definition event_in_contract :: "gateway_event \<Rightarrow> bool" where
  "event_in_contract e \<longleftrightarrow> list_all MACHINE_IDENTIFIER_PATTERN [ge_eventId e, ge_causationCommandId e, ge_ownerId e,
       ge_agentId e, fence_deploymentId (ge_authority e), ge_threadId e, ge_cursor e, ge_eventType e] \<and>
     list_all (\<lambda>n. 1 \<le> n \<and> is_safe_integer n)
       [fence_authorityEpoch (ge_authority e), fence_fencingToken (ge_authority e), ge_revision e] \<and>
     (case ge_payloadRef e of None \<Rightarrow> True | Some ref \<Rightarrow> MACHINE_IDENTIFIER_PATTERN ref) \<and>
     isCanonicalTimestamp (ge_occurredAt e)"

lemma parse_event_contract: "parse_event e = (if event_in_contract e then Inr e else Inl contract_error)"
proof -
  have n: "contract_nullable machineString x = (case x of None \<Rightarrow> Inr None
      | Some ref \<Rightarrow> if MACHINE_IDENTIFIER_PATTERN ref then Inr (Some ref) else Inl contract_error)" for x
    by (cases x) (simp_all add: machineString_def ensureValue_def)
  show ?thesis
    by (auto simp: parse_event_def n event_in_contract_def authoritySchema_def machineString_def contract_integer_def
        contract_timestamp_def ensureValue_def split: option.splits)
qed

lemma deliver_contract: "deliver_events es = (takeWhile event_in_contract es,
    if list_all event_in_contract es then None else Some contract_error)"
  by (induction es) (simp_all add: parse_event_contract)

text \<open>
  The ids of an event hold the idempotency key of its command behind \<open>thread-event:\<close> and
  \<open>thread-command:\<close>, so a key of 114 to 128 characters, which is a valid idempotency key, records an event
  that no subscriber can be sent.
\<close>

lemma long_key_outside_contract:
  "114 \<le> length (wr_idempotencyKey input) \<Longrightarrow> \<not> event_in_contract ((receipt_event input)\<lparr>ge_cursorSequence := n, ge_cursor := c\<rparr>)"
  "createIdempotencyKey (replicate 114 CHR ''k'') = Inr (replicate 114 CHR ''k'')"
   by (simp add: event_in_contract_def receipt_event_def MACHINE_IDENTIFIER_PATTERN_def) code_simp

fun observed :: "(string \<Rightarrow> string) \<Rightarrow> bool \<Rightarrow> thread_db \<Rightarrow> thread_db list \<Rightarrow> bool" where
  "observed sha256 direct db [] \<longleftrightarrow> True"
| "observed sha256 direct db (x # xs) \<longleftrightarrow> (conversation_step sha256 direct)\<^sup>*\<^sup>* db x \<and> observed sha256 direct x xs"

definition cursors_ok :: "gateway_event list \<Rightarrow> bool" where
  "cursors_ok es \<longleftrightarrow> map ge_cursorSequence es = [1..int (length es)] \<and>
     (\<forall>e\<in>set es. ge_cursor e = ''thread-cursor:'' @ show_int (ge_cursorSequence e))"

abbreviation scope_of :: "OwnerId \<Rightarrow> AgentId \<Rightarrow> thread_db \<Rightarrow> gateway_event list" where
  "scope_of ow ag db \<equiv> filter (\<lambda>e. ge_ownerId e = ow \<and> ge_agentId e = ag) (th_gatewayEvents db)"

lemma upto_extend: "[1..int n + 1] = [1..int n] @ [int n + 1]"
  "[1..1 + int n] = [1..int n] @ [1 + int n]"
  using upto_rec2 [of 1 "int n + 1"] by (simp_all add: add.commute)

lemma max_upto: "foldr max [1..int n] 0 = int n"
proof (induction n)
  case (Suc n)
  have max: "foldr max xs a = max a (foldr max xs 0)" if "0 \<le> a" for xs and a :: int
    using that by (induction xs) auto
  have "[1..int (Suc n)] = [1..int n] @ [int n + 1]" using upto_extend(1) [of n] by (simp add: add.commute)
  then have "foldr max [1..int (Suc n)] 0 = foldr max [1..int n] (int n + 1)" by simp
  then show ?case using Suc.IH max [of "int n + 1" "[1..int n]"] by simp
qed simp

lemma max_cursor_length: "cursors_ok es \<Longrightarrow> max_cursor es = int (length es)"
  by (simp add: cursors_ok_def max_cursor_def max_upto)

lemma cursors_grow: "cursors_ok es \<Longrightarrow> gateway_grows es es' \<Longrightarrow> cursors_ok es' \<and> (\<exists>new. es' = es @ new)"
  using max_cursor_length [of es]
  by (auto simp: cursors_ok_def gateway_grows_def upto_extend(2) add.commute)

lemma history_cursors:
  assumes "(conversation_step sha256 direct)\<^sup>*\<^sup>* db db'" "core_inv (core db)" "cursors_ok (th_gatewayEvents db)"
  shows "cursors_ok (th_gatewayEvents db') \<and> (\<exists>new. th_gatewayEvents db' = th_gatewayEvents db @ new)"
  using assms
proof (induction rule: rtranclp_induct)
  case (step y z)
  have "gateway_grows (th_gatewayEvents y) (th_gatewayEvents z)"
    using step_effect [OF step.hyps(2) history_inv [OF step.hyps(1) step.prems(1)]] by (simp add: conversation_effect_def)
  then obtain new where "cursors_ok (th_gatewayEvents z)" "th_gatewayEvents z = th_gatewayEvents y @ new"
    using cursors_grow step by blast
  with step show ?case by auto
qed simp

lemma sorted_split_after:
  assumes "sorted_wrt (<) (map key (xs @ ys))" "xs \<noteq> []"
  shows "filter (\<lambda>e. key (last xs) < (key e :: int)) (xs @ ys) = ys"
proof -
  obtain zs z where xs: "xs = zs @ [z]" using assms(2) by (cases xs rule: rev_cases) auto
  from assms(1) have "\<forall>e\<in>set zs. key e < key z" "\<forall>e\<in>set ys. key z < key e"
    by (auto simp: xs sorted_wrt_append)
  then show ?thesis by (auto simp: xs filter_empty_conv filter_id_conv)
qed

lemma find_cursor:
  assumes ok: "cursors_ok es" and e: "e \<in> set es" "ge_ownerId e = ow" "ge_agentId e = ag"
  shows "List.find (\<lambda>x. ge_ownerId x = ow \<and> ge_agentId x = ag \<and> ge_cursor x = ge_cursor e) es = Some e"
proof -
  let ?P = "\<lambda>x. ge_ownerId x = ow \<and> ge_agentId x = ag \<and> ge_cursor x = ge_cursor e"
  from e have "List.find ?P es \<noteq> None" by (auto simp: find_None_iff)
  then obtain y where y: "List.find ?P es = Some y" by blast
  note p = find_SomeD [OF y]
  have "ge_cursorSequence y = ge_cursorSequence e"
    using ok p e by (auto simp: cursors_ok_def dest: show_int_inj)
  moreover have "distinct (map ge_cursorSequence es)" using ok by (simp add: cursors_ok_def)
  ultimately have "y = e" using unique_row [of ge_cursorSequence es y e] p e by simp
  with y show ?thesis by simp
qed

lemma poll_page:
  assumes ok: "cursors_ok (th_gatewayEvents db)" and split: "scope_of ow ag db = seen @ rest"
    and cursor: "cursor = (if seen = [] then None else Some (ge_cursor (last seen)))"
  shows "poll db ow ag cursor = (let sent = takeWhile event_in_contract (take 1000 rest) in
    (sent, if sent = [] then cursor else Some (ge_cursor (last sent)),
     if list_all event_in_contract (take 1000 rest) then None else Some contract_error))"
proof -
  let ?es = "th_gatewayEvents db" and ?sc = "\<lambda>e. ge_ownerId e = ow \<and> ge_agentId e = ag"
  have strict: "sorted_wrt (<) (map ge_cursorSequence ?es)" using ok by (simp add: cursors_ok_def)
  then have sorted: "sorted_wrt (<) (map ge_cursorSequence (seen @ rest))"
    unfolding split [symmetric] by (simp add: sorted_wrt_map sorted_wrt_filter)
  have positive: "\<forall>e\<in>set ?es. 0 < ge_cursorSequence e"
  proof
    fix e assume "e \<in> set ?es"
    then have "ge_cursorSequence e \<in> set (map ge_cursorSequence ?es)" by simp
    also have "\<dots> = {1..int (length ?es)}" using ok by (simp only: cursors_ok_def set_upto)
    finally show "0 < ge_cursorSequence e" by simp
  qed
  have pages: "scope_events db ow ag n = filter (\<lambda>e. n < ge_cursorSequence e) (seen @ rest)" for n
  proof -
    have e: "filter (\<lambda>e. ge_ownerId e = ow \<and> ge_agentId e = ag \<and> n < ge_cursorSequence e) ?es =
        filter (\<lambda>e. n < ge_cursorSequence e) (seen @ rest)"
      unfolding split [symmetric] by (simp add: conj_ac cong: conj_cong)
    have "sorted_wrt (<) (map ge_cursorSequence (filter (\<lambda>e. n < ge_cursorSequence e) (seen @ rest)))"
      using sorted by (simp only: sorted_wrt_map) (rule sorted_wrt_filter)
    then have "sorted (map ge_cursorSequence (filter (\<lambda>e. n < ge_cursorSequence e) (seen @ rest)))"
      by (rule strict_sorted_imp_sorted)
    then show ?thesis unfolding scope_events_def e by (rule sort_key_id_if_sorted)
  qed
  have "listGatewayEvents db ow ag cursor 1000 = Inr (take 1000 rest)"
  proof (cases "seen = []")
    case True
    have "\<forall>e\<in>set (scope_of ow ag db). 0 < ge_cursorSequence e" using positive by simp
    then have "filter (\<lambda>e. 0 < ge_cursorSequence e) rest = rest"
      unfolding split True by (simp add: filter_id_conv)
    then show ?thesis using True
      by (simp add: listGatewayEvents_def cursor pages thread_limit_def ensure_def is_safe_integer_def MAX_SAFE_INTEGER_def)
  next
    case False
    then have "last seen \<in> set (scope_of ow ag db)" unfolding split by simp
    then have mem: "last seen \<in> set ?es" "ge_ownerId (last seen) = ow" "ge_agentId (last seen) = ag" by auto
    show ?thesis using False find_cursor [OF ok mem] sorted_split_after [OF sorted False]
      by (simp add: listGatewayEvents_def cursor pages thread_limit_def ensure_def is_safe_integer_def MAX_SAFE_INTEGER_def
        del: filter_append)
  qed
  then show ?thesis by (simp add: poll_def deliver_contract Let_def)
qed

lemma observed_history: "observed sha256 direct db dbs \<Longrightarrow> (conversation_step sha256 direct)\<^sup>*\<^sup>* db (last (db # dbs))"
  by (induction dbs arbitrary: db) (auto intro: rtranclp_trans)

lemma scope_grows:
  assumes "observed sha256 direct db dbs" "core_inv (core db)" "cursors_ok (th_gatewayEvents db)"
  obtains new where "scope_of ow ag (last (db # dbs)) = scope_of ow ag db @ new"
  using history_cursors [OF observed_history [OF assms(1)] assms(2,3)] by auto

abbreviation sent_so_far :: "gateway_event list list \<Rightarrow> error option \<Rightarrow> gateway_event list \<Rightarrow> bool" where
  "sent_so_far rounds err rest \<equiv> list_all event_in_contract (concat rounds) \<and> (case err of
       None \<Rightarrow> rounds \<noteq> [] \<and> length (last rounds) < 1000 \<longrightarrow> rest = []
     | Some e \<Rightarrow> e = contract_error \<and> rest \<noteq> [] \<and> \<not> event_in_contract (hd rest))"

lemma poll_rounds_none: "poll_rounds xs ow ag c = ([], err) \<Longrightarrow> xs = []"
  by (cases xs) (auto split: prod.splits option.splits)

lemma rounds_from:
  assumes "core_inv (core db)" "cursors_ok (th_gatewayEvents db)" "observed sha256 direct db dbs"
    and "scope_of ow ag db = seen @ rest" "cursor = (if seen = [] then None else Some (ge_cursor (last seen)))"
  shows "\<exists>rounds err rest'. poll_rounds dbs ow ag cursor = (rounds, err) \<and>
    scope_of ow ag (last (db # dbs)) = seen @ concat rounds @ rest' \<and> sent_so_far rounds err rest'"
  using assms
proof (induction dbs arbitrary: db seen rest cursor)
  case Nil
  then show ?case by simp
next
  case (Cons x xs)
  from Cons.prems(3) have steps: "(conversation_step sha256 direct)\<^sup>*\<^sup>* db x" and obs: "observed sha256 direct x xs" by auto
  note inv = history_inv [OF steps Cons.prems(1)]
  obtain new where c: "cursors_ok (th_gatewayEvents x)" "th_gatewayEvents x = th_gatewayEvents db @ new"
    using history_cursors [OF steps Cons.prems(1,2)] by blast
  define pending where "pending = rest @ filter (\<lambda>e. ge_ownerId e = ow \<and> ge_agentId e = ag) new"
  have split: "scope_of ow ag x = seen @ pending"
    using Cons.prems(4) by (simp add: c(2) pending_def)
  let ?page = "take 1000 pending"
  let ?sent = "takeWhile event_in_contract ?page"
  let ?cursor = "if ?sent = [] then cursor else Some (ge_cursor (last ?sent))"
  note poll = poll_page [OF c(1) split Cons.prems(5), unfolded Let_def]
  show ?case
  proof (cases "list_all event_in_contract ?page")
    case False
    obtain later where later: "scope_of ow ag (last (x # xs)) = scope_of ow ag x @ later"
      using scope_grows [OF obs inv c(1)] by blast
    let ?rest = "dropWhile event_in_contract ?page @ drop 1000 pending @ later"
    have all: "scope_of ow ag (last (x # xs)) = seen @ ?sent @ ?rest"
      unfolding later split by (simp add: append_assoc [symmetric] del: append_assoc)
    have bad: "dropWhile event_in_contract ?page \<noteq> []" using False by (auto simp: list_all_iff dropWhile_eq_Nil_conv)
    have "sent_so_far [?sent] (Some contract_error) ?rest"
      using bad hd_dropWhile [OF bad] by (auto simp: list_all_iff dest: set_takeWhileD)
    then show ?thesis using all poll False by (intro exI [of _ "[?sent]"] exI [of _ "Some contract_error"] exI [of _ ?rest]) simp
  next
    case True
    then have sent: "?sent = ?page" by (simp add: takeWhile_eq_all_conv list_all_iff)
    have cur: "?cursor = (if seen @ ?page = [] then None else Some (ge_cursor (last (seen @ ?page))))"
      using Cons.prems(5) unfolding sent by auto
    have all: "scope_of ow ag x = (seen @ ?page) @ drop 1000 pending" using split by simp
    from Cons.IH [OF inv c(1) obs all cur]
    obtain rounds err rest' where r: "poll_rounds xs ow ag ?cursor = (rounds, err)"
        "scope_of ow ag (last (x # xs)) = (seen @ ?page) @ concat rounds @ rest'" "sent_so_far rounds err rest'" by blast
    have sub: "poll_rounds (x # xs) ow ag cursor = (?page # rounds, err)"
      using r(1) True unfolding sent by (auto simp: poll sent split: if_splits)
    have "rest' = []" if "rounds = []" "err = None" "length ?page < 1000"
    proof -
      have "xs = []" using r(1) that(1) poll_rounds_none by blast
      with r(2) that(1) have "(seen @ ?page) @ drop 1000 pending = (seen @ ?page) @ rest'"
        unfolding all [symmetric] by simp
      then have "rest' = drop 1000 pending" by (simp only: same_append_eq)
      with that(3) show ?thesis by auto
    qed
    with r(3) True have "sent_so_far (?page # rounds) err rest'" by (cases err) auto
    with sub r(2) show ?thesis by (intro exI [of _ "?page # rounds"] exI [of _ err] exI [of _ rest']) simp
  qed
qed

text \<open>
  C16. A subscriber misses nothing before an event outside the contract. A client with valid identifiers that
  subscribes without a cursor and polls at any points of the history has been sent exactly an initial part
  of the events of its owner and agent, in the order they were recorded: none is skipped, none is sent twice,
  none of another scope and none that violates the message contract is sent. The subscription ends with an
  error only when the next event of its scope violates the contract, for instance by an idempotency key that
  makes its ids too long; otherwise it has been sent every event there is once a round was not full.
\<close>

theorem subscriber_misses_nothing:
  assumes fresh: "fresh_conversation start" and polled: "observed sha256 direct start dbs"
    and client: "createOwnerId ownerId = Inr ow" "createAgentId agentId = Inr ag"
  shows "\<exists>rounds err rest. subscribe dbs ownerId agentId None = Inr (rounds, err) \<and>
    filter (\<lambda>e. ge_ownerId e = ow \<and> ge_agentId e = ag) (th_gatewayEvents (last (start # dbs))) = concat rounds @ rest \<and>
    list_all event_in_contract (concat rounds) \<and>
    (case err of
       None \<Rightarrow> rounds \<noteq> [] \<and> length (last rounds) < 1000 \<longrightarrow> rest = []
     | Some e \<Rightarrow> e = contract_error \<and> rest \<noteq> [] \<and> \<not> event_in_contract (hd rest))"
proof -
  have events: "th_gatewayEvents start = []" using fresh by (simp add: fresh_conversation_def)
  then have "cursors_ok (th_gatewayEvents start)" by (simp add: cursors_ok_def)
  from rounds_from [OF fresh_inv [OF fresh] this polled, of ow ag "[]" "[]" None] events
  show ?thesis using client by (simp add: subscribe_def)
qed

section \<open>Deletion\<close>

lemma task_active_iff [simp]: "task_status_of s = task_active \<longleftrightarrow> s = job_active"
  by (cases s) simp_all

text \<open>What a deletion that was not answered from a receipt has found and written.\<close>

lemma deletion_writes:
  assumes deleted: "requestDeletion db input = Inr (db', t, impact, r)"
    and new: "findReceipt db (rd_ownerId input) (rd_agentId input) (rd_idempotencyKey input) = None"
  obtains row before where
    "thread_in_scope db (rd_ownerId input) (rd_agentId input) (rd_threadId input) = Some row"
    "tr_revision row = rd_expectedThreadRevision input"
    "inspectDeletionImpact db (rd_ownerId input) (rd_agentId input) (rd_threadId input) = Inr before"
    "im_activeTaskIds before = []" "pdb_work db' = pdb_work db"
    "th_threads db' = map (\<lambda>r. if tr_id r = rd_threadId input \<and> tr_ownerId r = rd_ownerId input \<and>
       tr_agentId r = rd_agentId input \<and> tr_revision r = rd_expectedThreadRevision input
       then deletion_row input (rd_expectedThreadRevision input + 1) r else r) (th_threads db)"
    "th_search db' = filter (\<lambda>s. sp_threadId s \<noteq> rd_threadId input) (th_search db)"
    "th_titleSearch db' = filter (\<lambda>s. tp_threadId s \<noteq> rd_threadId input) (th_titleSearch db)"
proof -
  note def = deleted [unfolded requestDeletion_def Let_def]
  have "replay_receipt db (rd_ownerId input) (rd_agentId input) (rd_idempotencyKey input)
      (deletion_command (rd_mode input)) (rd_semanticFingerprint input) = Inr None"
    using new by (simp add: replay_receipt_def)
  with def obtain row before db1 n where
      row: "thread_in_scope db (rd_ownerId input) (rd_agentId input) (rd_threadId input) = Some row"
        "tr_revision row = rd_expectedThreadRevision input"
      and tasks: "inspectDeletionImpact db (rd_ownerId input) (rd_agentId input) (rd_threadId input) = Inr before"
        "im_activeTaskIds before = []"
      and upd: "update_threads db (\<lambda>r. tr_id r = rd_threadId input \<and> tr_ownerId r = rd_ownerId input \<and>
          tr_agentId r = rd_agentId input \<and> tr_revision r = rd_expectedThreadRevision input)
          (deletion_row input (rd_expectedThreadRevision input + 1)) = Inr (db1, n)"
      and wrote: "writeReceipt (db1\<lparr>th_search := filter (\<lambda>s. sp_threadId s \<noteq> rd_threadId input) (th_search db1),
          th_titleSearch := filter (\<lambda>s. tp_threadId s \<noteq> rd_threadId input) (th_titleSearch db1)\<rparr>)
          (deletion_receipt input (rd_expectedThreadRevision input + 1)) = Inr (db', r)"
    by (auto simp: inverts readThread_Some split: option.splits)
  show ?thesis using writeReceipt_Inr [OF wrote] upd that [OF row tasks] by (auto simp: update_threads_Inr)
qed

lemma deleted_row:
  assumes row: "thread_in_scope db ow ag i = Some row" "tr_revision row = n"
    and threads: "th_threads db' = map (\<lambda>r. if tr_id r = i \<and> tr_ownerId r = ow \<and> tr_agentId r = ag \<and> tr_revision r = n
       then deletion_row input m r else r) (th_threads db)"
  shows "thread_in_scope db' ow ag i = Some (deletion_row input m row)"
proof -
  let ?f = "\<lambda>r. if tr_id r = i \<and> tr_ownerId r = ow \<and> tr_agentId r = ag \<and> tr_revision r = n then deletion_row input m r else r"
  have "thread_in_scope db' ow ag i = map_option ?f (thread_in_scope db ow ag i)"
    unfolding thread_in_scope_def threads by (rule find_map_keeps) (auto simp: deletion_row_def)
  with row find_SomeD [OF row(1) [unfolded thread_in_scope_def]] show ?thesis by simp
qed

lemma deletion_status:
  "row_status (deletion_row input n row) = (if rd_mode input = mode_trash then thread_trashed else thread_deletion_pending)"
  by (simp add: row_status_def deletion_row_def)

lemma closed_row:
  assumes row: "thread_in_scope db ow ag i = Some row"
    and closed: "row_status row \<in> {thread_trashed, thread_deletion_pending, thread_deleted_verified}"
  shows "is_safe_integer after \<and> 0 \<le> after \<Longrightarrow> listMessages db ow ag i after 1000 = Inr []"
    and "active_thread db ow ag i m = Inl conflict"
proof -
  have read: "readThread db ow ag i = Some (fromThreadRow db row)" using row by (simp add: readThread_def)
  show "listMessages db ow ag i after 1000 = Inr []" if "is_safe_integer after \<and> 0 \<le> after"
    using read closed that
    by (auto simp: listMessages_def thread_limit_def inverts is_safe_integer_def MAX_SAFE_INTEGER_def)
  show "active_thread db ow ag i m = Inl conflict"
    using read closed by (auto simp: active_thread_def ensure_def)
qed

text \<open>
  C22. A thread is deleted only when no active task is bound to it, and then it stays closed. A deletion that
  was not answered from a receipt found the thread at the revision the caller read with no active task,
  leaves it in the trash or waiting for deletion at the next revision, and the search has nothing of it.
  At every later point of the history the thread is still stored, and as long as its revision is the one
  the deletion wrote, and for good when the deletion is permanent, its messages are not listed and no message
  is admitted to it. A thread in the trash may be restored, which gives it another revision.
\<close>

theorem deleted_thread_is_closed:
  assumes before: "(conversation_step sha256 direct)\<^sup>*\<^sup>* start db" and fresh: "fresh_conversation start"
    and deleted: "requestDeletion db input = Inr (db', t, impact, r)"
    and new: "findReceipt db (rd_ownerId input) (rd_agentId input) (rd_idempotencyKey input) = None"
    and after: "(conversation_step sha256 direct)\<^sup>*\<^sup>* db' db2"
  shows "list_all (\<lambda>j. sj_threadId j = Some (rd_threadId input) \<and> sj_ownerId j = rd_ownerId input \<and>
      sj_agentId j = rd_agentId input \<longrightarrow> sj_status j \<noteq> job_active) (wdb_jobs (pdb_work db')) \<and>
    list_all (\<lambda>s. sp_threadId s \<noteq> rd_threadId input) (th_search db') \<and>
    list_all (\<lambda>s. tp_threadId s \<noteq> rd_threadId input) (th_titleSearch db') \<and>
    (\<exists>row. thread_in_scope db' (rd_ownerId input) (rd_agentId input) (rd_threadId input) = Some row \<and>
      tr_revision row = rd_expectedThreadRevision input + 1 \<and>
      row_status row = (if rd_mode input = mode_trash then thread_trashed else thread_deletion_pending)) \<and>
    (\<exists>row. thread_in_scope db2 (rd_ownerId input) (rd_agentId input) (rd_threadId input) = Some row \<and>
      (rd_mode input = mode_permanent \<or> tr_revision row = rd_expectedThreadRevision input + 1 \<longrightarrow>
        row_status row \<in> {thread_trashed, thread_deletion_pending, thread_deleted_verified} \<and>
        (\<forall>after. is_safe_integer after \<and> 0 \<le> after \<longrightarrow>
          listMessages db2 (rd_ownerId input) (rd_agentId input) (rd_threadId input) after 1000 = Inr []) \<and>
        (\<forall>n. active_thread db2 (rd_ownerId input) (rd_agentId input) (rd_threadId input) n = Inl conflict)))"
proof -
  let ?ow = "rd_ownerId input" and ?ag = "rd_agentId input" and ?i = "rd_threadId input"
    and ?n = "rd_expectedThreadRevision input"
  obtain row before where w: "thread_in_scope db ?ow ?ag ?i = Some row" "tr_revision row = ?n"
      "inspectDeletionImpact db ?ow ?ag ?i = Inr before" "im_activeTaskIds before = []" "pdb_work db' = pdb_work db"
      "th_threads db' = map (\<lambda>r. if tr_id r = ?i \<and> tr_ownerId r = ?ow \<and> tr_agentId r = ?ag \<and> tr_revision r = ?n
         then deletion_row input (?n + 1) r else r) (th_threads db)"
      "th_search db' = filter (\<lambda>s. sp_threadId s \<noteq> ?i) (th_search db)"
      "th_titleSearch db' = filter (\<lambda>s. tp_threadId s \<noteq> ?i) (th_titleSearch db)"
    by (rule deletion_writes [OF deleted new])
  let ?row = "deletion_row input (?n + 1) row"
  note now = deleted_row [OF w(1,2,6)]
  have jobs: "list_all (\<lambda>j. sj_threadId j = Some ?i \<and> sj_ownerId j = ?ow \<and> sj_agentId j = ?ag \<longrightarrow>
      sj_status j \<noteq> job_active) (wdb_jobs (pdb_work db'))"
    using w(3,4) by (auto simp: inspectDeletionImpact_def Let_def bound_tasks_def task_binding_of_def list_all_iff
        w(5) filter_empty_conv split: option.splits)
  have "core_inv (core db')"
    using step_inv [OF conversation_step.deletion [OF deleted] reachable_conversation [OF before fresh]] .
  from conversation_history_grows [OF after this] now
  obtain row2 where row2: "thread_in_scope db2 ?ow ?ag ?i = Some row2" "past_deletion ?row \<longrightarrow> past_deletion row2"
      "row2 = ?row \<or> tr_revision ?row < tr_revision row2"
    unfolding conversation_grows_def by blast
  have "row_status row2 \<in> {thread_trashed, thread_deletion_pending, thread_deleted_verified}"
    if "rd_mode input = mode_permanent \<or> tr_revision row2 = ?n + 1"
    using that row2(2,3) by (auto simp: past_deletion_def deletion_status split: if_splits)
  with closed_row [OF row2(1)] row2(1) have closed: "\<exists>row. thread_in_scope db2 ?ow ?ag ?i = Some row \<and>
      (rd_mode input = mode_permanent \<or> tr_revision row = ?n + 1 \<longrightarrow>
        row_status row \<in> {thread_trashed, thread_deletion_pending, thread_deleted_verified} \<and>
        (\<forall>after. is_safe_integer after \<and> 0 \<le> after \<longrightarrow> listMessages db2 ?ow ?ag ?i after 1000 = Inr []) \<and>
        (\<forall>n. active_thread db2 ?ow ?ag ?i n = Inl conflict))" by blast
  show ?thesis
    using jobs now deletion_status closed by (intro conjI) (simp_all add: w(7,8) list_all_iff)
qed

section \<open>Concrete instances\<close>

text \<open>A thread is created, its owner writes, the Run is answered, the owner writes again and deletes it.\<close>

abbreviation example_time :: "string \<Rightarrow> string" where
  "example_time second \<equiv> ''2026-01-01T00:00:0'' @ second @ ''.000Z''"

definition example_chat_fence :: product_authority_fence where
  "example_chat_fence = \<lparr>fence_deploymentId = ''d'', fence_authorityEpoch = 1, fence_fencingToken = 2\<rparr>"

definition example_chat :: thread_db where
  "example_chat = \<lparr>pdb_work = example_granted_twice, pdb_payloads = pdb_payloads example_product, pdb_states = [],
     pdb_commandResults = [], pdb_events = [], pdb_consumptions = [], th_threads = [], th_lineages = [], th_messages = [],
     th_receipts = [], th_gatewayEvents = [], th_triggers = [], th_artifacts = [], th_modelSelections = [], th_search = [],
     th_titleSearch = [], th_sandboxes = []\<rparr>"

definition example_create :: create_input where
  "example_create = \<lparr>tc_thread = createProductThread ''t'' ''o'' ''a'' (example_time ''1'') None None, tc_idempotencyKey = ''k1'',
     tc_semanticFingerprint = ''f'', tc_resultRef = ''p'', tc_authority = example_chat_fence\<rparr>"

definition example_submit :: "string \<Rightarrow> string \<Rightarrow> int \<Rightarrow> admit_input" where
  "example_submit key i revision = \<lparr>ad_modelSelection = None, ad_ownerId = ''o'', ad_agentId = ''a'', ad_threadId = ''t'',
     ad_expectedThreadRevision = revision, ad_messageId = CHR ''m'' # i, ad_turnId = CHR ''u'' # i,
     ad_triggerId = CHR ''g'' # i, ad_runId = CHR ''r'' # i, ad_sessionId = ''s'', ad_idempotencyKey = key,
     ad_semanticFingerprint = ''f'', ad_contentRef = ''p'', ad_sourceProofRef = ''proof'',
     ad_dataClassification = class_private, ad_occurredAt = example_time ''2'', ad_resultRef = ''p'', ad_authority = example_chat_fence\<rparr>"

definition example_answer :: assistant_input where
  "example_answer = \<lparr>as_ownerId = ''o'', as_agentId = ''a'', as_threadId = ''t'', as_expectedThreadRevision = 2,
     as_messageId = ''n1'', as_turnId = ''u1'', as_runId = ''r1'', as_idempotencyKey = ''k3'', as_semanticFingerprint = ''f'',
     as_contentRef = ''p'', as_dataClassification = class_private, as_committedAt = example_time ''3'', as_resultRef = ''p'',
     as_authority = example_chat_fence\<rparr>"

definition example_deletion :: deletion_input where
  "example_deletion = \<lparr>rd_ownerId = ''o'', rd_agentId = ''a'', rd_threadId = ''t'', rd_expectedThreadRevision = 4,
     rd_mode = mode_trash, rd_authorizationRef = None, rd_recentAuthenticationRef = None, rd_idempotencyKey = ''k5'',
     rd_semanticFingerprint = ''f'', rd_resultRef = ''p'', rd_requestedAt = example_time ''5'', rd_authority = example_chat_fence\<rparr>"

text \<open>The Run of the first question may also be cancelled by its owner.\<close>

definition example_cancel :: run_input where
  "example_cancel = \<lparr>rcc_ownerId = ''o'', rcc_agentId = ''a'', rcc_idempotencyKey = ''k9'', rcc_commandFingerprint = ''f'',
     rcc_authority = \<lparr>af_leaseId = ''l2'', af_fencingToken = 2\<rparr>, rcc_payloadRef = ''p'', rcc_executionLease = None,
     rin_runId = ''r1'', rin_expectedRevision = 1\<rparr>"

definition example_chat_row :: "int \<Rightarrow> int \<Rightarrow> string \<Rightarrow> thread_row" where
  "example_chat_row revision watermark at = (thread_row_of (tc_thread example_create))\<lparr>tr_revision := revision,
     tr_messageWatermark := watermark, tr_updatedAt := at\<rparr>"

definition example_recorded :: "receipt_input \<Rightarrow> int \<Rightarrow> thread_db \<Rightarrow> thread_db" where
  "example_recorded input n db = db\<lparr>th_receipts := th_receipts db @ [new_receipt input],
     pdb_events := pdb_events db @ [pending_row ''o'' ''a'' (thread_changed_event input)],
     th_gatewayEvents := th_gatewayEvents db @ [(receipt_event input)\<lparr>ge_cursorSequence := n,
       ge_cursor := ''thread-cursor:'' @ show_int n\<rparr>]\<rparr>"

definition example_created :: thread_db where
  "example_created = example_recorded (create_receipt example_create) 1
     (example_chat\<lparr>th_threads := [example_chat_row 1 0 (example_time ''1'')]\<rparr>)"

definition example_asked :: thread_db where
  "example_asked = (let q = example_submit ''k2'' ''1'' 1 in example_recorded (admit_receipt q 2) 2
     (example_created\<lparr>th_threads := [example_chat_row 2 1 (example_time ''2'')], th_messages := [admitted_message q 1],
        th_triggers := [admitted_trigger q], pdb_work := example_granted_twice\<lparr>wdb_runs := [admitted_run q],
          wdb_runInputs := [admitted_input_row q class_private], wdb_turns := [admitted_turn q 1]\<rparr>\<rparr>))"

definition example_answered :: thread_db where
  "example_answered = (let q = example_submit ''k2'' ''1'' 1 in example_recorded (assistant_receipt example_answer 3) 3
     (example_asked\<lparr>th_threads := [example_chat_row 3 2 (example_time ''3'')],
        th_messages := [admitted_message q 1, assistant_message example_answer 2],
        pdb_work := (pdb_work example_asked)\<lparr>
          wdb_runs := [(admitted_run q)\<lparr>rs_status := run_completed, rs_revision := 2, rs_updatedAt := example_time ''3''\<rparr>],
          wdb_turns := [(admitted_turn q 1)\<lparr>tn_committedAt := Some (example_time ''3'')\<rparr>]\<rparr>\<rparr>))"

definition example_asked_again :: thread_db where
  "example_asked_again = (let q = example_submit ''k4'' ''2'' 3 in example_recorded (admit_receipt q 4) 4
     (example_answered\<lparr>th_threads := [example_chat_row 4 3 (example_time ''2'')], th_messages := th_messages example_answered @ [admitted_message q 3],
        th_triggers := th_triggers example_answered @ [admitted_trigger q],
        pdb_work := (pdb_work example_answered)\<lparr>wdb_runs := db_runs example_answered @ [admitted_run q],
          wdb_runInputs := wdb_runInputs (pdb_work example_answered) @ [admitted_input_row q class_private],
          wdb_turns := db_turns example_answered @ [admitted_turn q 3]\<rparr>\<rparr>))"

lemma example_chat_evaluated:
  "(create_thread example_chat example_create =
     Inr (example_created, tc_thread example_create, receiptFromRow (new_receipt (create_receipt example_create)))) \<and>
   (admitOwnerMessage example_created (example_submit ''k2'' ''1'' 1) =
     Inr (example_asked, fromThreadRow example_asked (example_chat_row 2 1 (example_time ''2'')),
       admitted_message (example_submit ''k2'' ''1'' 1) 1,
       receiptFromRow (new_receipt (admit_receipt (example_submit ''k2'' ''1'' 1) 2)))) \<and>
   (commitAssistantMessage example_asked example_answer =
     Inr (example_answered, fromThreadRow example_answered (example_chat_row 3 2 (example_time ''3'')), assistant_message example_answer 2,
       receiptFromRow (new_receipt (assistant_receipt example_answer 3)))) \<and>
   (admitOwnerMessage example_answered (example_submit ''k4'' ''2'' 3) =
     Inr (example_asked_again, fromThreadRow example_asked_again (example_chat_row 4 3 (example_time ''2'')),
       admitted_message (example_submit ''k4'' ''2'' 3) 3,
       receiptFromRow (new_receipt (admit_receipt (example_submit ''k4'' ''2'' 3) 4)))) \<and>
   (readThread example_asked_again ''o'' ''a'' ''t'' = Some (fromThreadRow example_asked_again (example_chat_row 4 3 (example_time ''2'')))) \<and>
   (\<not> isl (execute_lifecycle id example_asked ''o'' ''a'' example_chat_fence (request_cancel example_cancel)
     ''2026-01-01T00:02:30.000Z'')) \<and>
   (\<not> isl (requestDeletion example_asked_again example_deletion))"
  by code_simp

lemma example_creation:
  "create_thread example_chat example_create =
     Inr (example_created, tc_thread example_create, receiptFromRow (new_receipt (create_receipt example_create)))"
  using example_chat_evaluated by (elim conjE)

lemma example_question:
  "admitOwnerMessage example_created (example_submit ''k2'' ''1'' 1) =
     Inr (example_asked, fromThreadRow example_asked (example_chat_row 2 1 (example_time ''2'')),
       admitted_message (example_submit ''k2'' ''1'' 1) 1,
       receiptFromRow (new_receipt (admit_receipt (example_submit ''k2'' ''1'' 1) 2)))"
  using example_chat_evaluated by (elim conjE)

lemma example_reply:
  "commitAssistantMessage example_asked example_answer =
     Inr (example_answered, fromThreadRow example_answered (example_chat_row 3 2 (example_time ''3'')), assistant_message example_answer 2,
       receiptFromRow (new_receipt (assistant_receipt example_answer 3)))"
  using example_chat_evaluated by (elim conjE)

lemma example_question_again:
  "admitOwnerMessage example_answered (example_submit ''k4'' ''2'' 3) =
     Inr (example_asked_again, fromThreadRow example_asked_again (example_chat_row 4 3 (example_time ''2'')),
       admitted_message (example_submit ''k4'' ''2'' 3) 3,
       receiptFromRow (new_receipt (admit_receipt (example_submit ''k4'' ''2'' 3) 4)))"
  using example_chat_evaluated by (elim conjE)

lemma example_chat_fresh: "fresh_conversation example_chat"
  by (simp add: fresh_conversation_def example_chat_def example_granted_twice_def example_empty_work_def)

lemma example_chat_steps:
  "conversation_step id direct example_chat example_created" "conversation_step id direct example_created example_asked"
  "conversation_step id True example_asked example_answered" "conversation_step id direct example_answered example_asked_again"
  using conversation_step.created [OF example_creation] conversation_step.admitted [OF example_question]
    conversation_step.answered [OF TrueI example_reply] conversation_step.admitted [OF example_question_again]
  by (simp_all add: example_create_def createProductThread_def)

lemma example_chat_history:
  "(conversation_step id direct)\<^sup>*\<^sup>* example_chat example_created"
  "(conversation_step id direct)\<^sup>*\<^sup>* example_chat example_asked"
  "(conversation_step id True)\<^sup>*\<^sup>* example_asked example_asked_again"
  "(conversation_step id True)\<^sup>*\<^sup>* example_chat example_asked_again"
  by (meson example_chat_steps rtranclp.rtrancl_into_rtrancl rtranclp.rtrancl_refl)+

theorem message_sequence_gapless_witness:
  "map msg_sequence (thread_messages example_asked_again ''o'' ''a'' ''t'') = [1, 2, 3] \<and>
   (\<exists>page. listMessages example_asked_again ''o'' ''a'' ''t'' 1 2 = Inr page \<and> map msg_sequence page = [2, 3])"
proof -
  have r: "readThread example_asked_again ''o'' ''a'' ''t'' =
      Some (fromThreadRow example_asked_again (example_chat_row 4 3 (example_time ''2'')))"
    using example_chat_evaluated by (elim conjE)
  have s: "pt_status (fromThreadRow example_asked_again (example_chat_row 4 3 (example_time ''2''))) \<in> {thread_active, thread_archived}"
    "pt_messageWatermark (fromThreadRow example_asked_again (example_chat_row 4 3 (example_time ''2''))) = 3"
    by (simp_all add: example_chat_row_def row_status_def thread_row_of_def example_create_def createProductThread_def)
  note gapless = message_sequence_gapless [OF example_chat_history(4) example_chat_fresh r, of 2 1]
  have l: "[1..3] = [1, 2, 3 :: int]" "[1 + 1..3] = [2, 3 :: int]" "is_safe_integer 1"
    by (simp_all add: upto_rec1 is_safe_integer_def MAX_SAFE_INTEGER_def)
  show ?thesis
    using gapless s l by simp
qed

theorem answered_exactly_once_witness:
  "length (answers (th_messages example_asked_again) ''r1'') = 1 \<and> length (answers (th_messages example_asked_again) ''r2'') = 0"
proof -
  have m: "(admitted_run (example_submit ''k2'' ''1'' 1))\<lparr>rs_status := run_completed, rs_revision := 2, rs_updatedAt := example_time ''3''\<rparr>
      \<in> set (db_runs example_asked_again)" "admitted_run (example_submit ''k4'' ''2'' 3) \<in> set (db_runs example_asked_again)"
    by (simp_all add: example_asked_again_def example_answered_def example_recorded_def Let_def)
  show ?thesis
    using answered_exactly_once [OF example_chat_history(4) example_chat_fresh m(1)]
      answered_exactly_once [OF example_chat_history(4) example_chat_fresh m(2)]
    by (simp add: admitted_run_def example_submit_def)
qed

theorem owner_message_admitted_once_witness:
  "(\<exists>t. admitOwnerMessage example_asked_again (example_submit ''k2'' ''1'' 4) =
      Inr (example_asked_again, t, admitted_message (example_submit ''k2'' ''1'' 1) 1,
        receiptFromRow (new_receipt (admit_receipt (example_submit ''k2'' ''1'' 1) 2)))) \<and>
   admitOwnerMessage example_asked_again ((example_submit ''k2'' ''1'' 1)\<lparr>ad_semanticFingerprint := ''g''\<rparr>) = Inl conflict"
proof -
  have room: "headroom example_asked_again"
    by (simp add: example_asked_again_def example_answered_def example_asked_def example_created_def example_recorded_def
      Let_def example_granted_twice_def example_empty_work_def)
  note once = owner_message_admitted_once [OF example_chat_history(1) example_chat_fresh example_question
      example_chat_history(3)]
  show ?thesis using room once [of "example_submit ''k2'' ''1'' 4"]
      once [of "(example_submit ''k2'' ''1'' 1)\<lparr>ad_semanticFingerprint := ''g''\<rparr>"]
    by (simp add: example_submit_def)
qed

definition example_cancelled :: thread_db where
  "example_cancelled = (case execute_lifecycle id example_asked ''o'' ''a'' example_chat_fence (request_cancel example_cancel)
     ''2026-01-01T00:02:30.000Z'' of Inr (db, r) \<Rightarrow> db | Inl e \<Rightarrow> example_asked)"

lemma example_cancellation:
  "\<exists>r. execute_lifecycle id example_asked ''o'' ''a'' example_chat_fence (request_cancel example_cancel)
     ''2026-01-01T00:02:30.000Z'' = Inr (example_cancelled, r)"
proof -
  let ?out = "execute_lifecycle id example_asked ''o'' ''a'' example_chat_fence (request_cancel example_cancel)
     ''2026-01-01T00:02:30.000Z''"
  have "\<not> isl ?out" using example_chat_evaluated by (elim conjE)
  then obtain x where "?out = Inr x" by (cases ?out) auto
  then show ?thesis unfolding example_cancelled_def by (cases x) simp
qed

lemma example_cancel_step: "(conversation_step id direct)\<^sup>*\<^sup>* example_asked example_cancelled"
  using example_cancellation conversation_step.lifecycle by (meson r_into_rtranclp)

theorem run_moves_follow_table_witness:
  "\<exists>k s. ((\<lambda>a b. b \<in> set (ALLOWED_TRANSITIONS a) \<or> a = run_reconciling_external_result \<and> b = a) ^^ k) run_accepted s \<and>
     (\<exists>at. (admitted_run (example_submit ''k2'' ''1'' 1))\<lparr>rs_status := s, rs_revision := 1 + int k, rs_updatedAt := at\<rparr>
       \<in> set (db_runs example_cancelled))"
proof -
  have m: "admitted_run (example_submit ''k2'' ''1'' 1) \<in> set (db_runs example_asked)"
    by (simp add: example_asked_def example_recorded_def Let_def)
  have first: "rs_status (admitted_run (example_submit ''k2'' ''1'' 1)) = run_accepted"
      "rs_revision (admitted_run (example_submit ''k2'' ''1'' 1)) = 1" by (simp_all add: admitted_run_def)
  show ?thesis
    using run_moves_follow_table [OF example_chat_history(2) example_chat_fresh example_cancel_step m]
    unfolding first by blast
qed

theorem ended_run_is_final_witness:
  "(admitted_run (example_submit ''k2'' ''1'' 1))\<lparr>rs_status := run_completed, rs_revision := 2, rs_updatedAt := example_time ''3''\<rparr>
     \<in> set (db_runs example_asked_again)"
proof -
  have before: "(conversation_step id True)\<^sup>*\<^sup>* example_chat example_answered"
    using example_chat_history(2) [of True] example_chat_steps(3) by (rule rtranclp.rtrancl_into_rtrancl)
  have m: "(admitted_run (example_submit ''k2'' ''1'' 1))\<lparr>rs_status := run_completed, rs_revision := 2, rs_updatedAt := example_time ''3''\<rparr>
      \<in> set (db_runs example_answered)"
    by (simp add: example_answered_def example_recorded_def Let_def)
  show ?thesis
    by (rule ended_run_is_final [OF before example_chat_fresh r_into_rtranclp [of "conversation_step id True", OF example_chat_steps(4)] m])
      (simp add: TERMINAL_RUN_STATUSES_def)
qed

lemma example_events_in_contract:
  "list_all event_in_contract (th_gatewayEvents example_asked_again) \<and>
   createOwnerId ''o'' = Inr ''o'' \<and> createAgentId ''a'' = Inr ''a''"
  by code_simp

theorem subscriber_misses_nothing_witness:
  "\<exists>rounds. subscribe [example_asked, example_asked_again] ''o'' ''a'' None = Inr (rounds, None) \<and>
     map ge_eventType (concat rounds) =
       [''thread.create'', ''thread.message.submit'', ''thread.message.commit_assistant'', ''thread.message.submit'']"
proof -
  have polled: "observed id True example_chat [example_asked, example_asked_again]"
    using example_chat_history(2,3) by simp
  note ids = example_events_in_contract [THEN conjunct2]
  obtain rounds err rest where r: "subscribe [example_asked, example_asked_again] ''o'' ''a'' None = Inr (rounds, err)"
      "filter (\<lambda>e. ge_ownerId e = ''o'' \<and> ge_agentId e = ''a'') (th_gatewayEvents example_asked_again) = concat rounds @ rest"
      "case err of None \<Rightarrow> rounds \<noteq> [] \<and> length (last rounds) < 1000 \<longrightarrow> rest = []
        | Some e \<Rightarrow> e = contract_error \<and> rest \<noteq> [] \<and> \<not> event_in_contract (hd rest)"
    using subscriber_misses_nothing [OF example_chat_fresh polled conjunct1 [OF ids] conjunct2 [OF ids]] by auto
  have all: "map ge_eventType (filter (\<lambda>e. ge_ownerId e = ''o'' \<and> ge_agentId e = ''a'') (th_gatewayEvents example_asked_again)) =
      [''thread.create'', ''thread.message.submit'', ''thread.message.commit_assistant'', ''thread.message.submit'']"
    by (simp add: example_asked_again_def example_answered_def example_asked_def example_created_def example_recorded_def
      Let_def example_chat_def receipt_event_def create_receipt_def admit_receipt_def assistant_receipt_def
      example_create_def createProductThread_def example_submit_def example_answer_def)
  have "set (concat rounds @ rest) \<subseteq> set (th_gatewayEvents example_asked_again)" unfolding r(2) [symmetric] by auto
  then have "event_in_contract (hd rest)" if "rest \<noteq> []"
    using that conjunct1 [OF example_events_in_contract] by (auto simp: list_all_iff dest: hd_in_set)
  with r(3) have none: "err = None" by (auto split: option.splits)
  have "length (concat rounds @ rest) = 4" using arg_cong [OF all, of length] by (simp add: r(2))
  moreover have "rounds \<noteq> []"
  proof
    assume "rounds = []"
    with r(1) ids have "poll_rounds [example_asked, example_asked_again] ''o'' ''a'' None = ([], err)"
      by (simp add: subscribe_def del: poll_rounds.simps)
    from poll_rounds_none [OF this] show False by simp
  qed
  moreover have "length (last rounds) \<le> length (concat rounds)" if "rounds \<noteq> []" for rounds :: "gateway_event list list"
    using that by (cases rounds rule: rev_cases) auto
  ultimately have "rest = []" using r(3) none by fastforce
  with all r none show ?thesis by auto
qed

theorem deleted_thread_is_closed_witness:
  "\<exists>db' t impact r. requestDeletion example_asked_again example_deletion = Inr (db', t, impact, r) \<and>
     active_thread db' ''o'' ''a'' ''t'' 5 = Inl conflict"
proof -
  have "\<not> isl (requestDeletion example_asked_again example_deletion)" using example_chat_evaluated by (elim conjE)
  then obtain db' t impact r where d: "requestDeletion example_asked_again example_deletion = Inr (db', t, impact, r)"
    by (cases "requestDeletion example_asked_again example_deletion") auto
  have "findReceipt example_asked_again (rd_ownerId example_deletion) (rd_agentId example_deletion)
      (rd_idempotencyKey example_deletion) = None"
    by (simp add: findReceipt_def example_asked_again_def example_answered_def example_asked_def example_created_def
      example_recorded_def Let_def example_chat_def new_receipt_def receipt_key_def create_receipt_def admit_receipt_def
      assistant_receipt_def example_create_def createProductThread_def example_submit_def example_answer_def example_deletion_def)
  from deleted_thread_is_closed [OF example_chat_history(4) example_chat_fresh d this rtranclp.rtrancl_refl] d show ?thesis
    by (auto simp: example_deletion_def)
qed

text \<open>
  An answer committed directly completes a Run that the table does not let complete: the Run was accepted
  and nothing has built its context or run it.
\<close>

lemma direct_answer_skips_the_table:
  "\<exists>r\<in>set (db_runs example_asked). \<exists>r'\<in>set (db_runs example_answered). rs_id r' = rs_id r \<and>
     rs_status r = run_accepted \<and> rs_status r' = run_completed"
  "run_completed \<notin> set (ALLOWED_TRANSITIONS run_accepted)"
  by (simp_all add: example_answered_def example_asked_def example_recorded_def Let_def admitted_run_def)

end
