(* ===== verification/Thread_Commands.thy ===== *)
theory Thread_Commands
  imports Thread_Promises Fingerprint
begin

text \<open>
  The services a client of conversations calls (\<open>packages/application/src/services\<close>):
  \<open>thread-command-service.ts\<close>, \<open>thread-fork-service.ts\<close>, \<open>thread-deletion-coordination-service.ts\<close> and
  \<open>thread-query-service.ts\<close>.

  A method that awaits several calls of the repository takes the store each call finds, in their order.
  The clock, the authority fence and the guard of recent authentication are parameters. A read leaves the
  store it read; a method that writes returns the store after its write.

  \<open>localeCompare\<close> is modelled on the keys of the values that are hashed, words of ASCII letters: without
  regard to case first, a lower case letter before the upper case one in a tie.
\<close>

section \<open>Fingerprints of commands\<close>

definition is_upper :: "char \<Rightarrow> bool" where
  "is_upper c \<longleftrightarrow> CHR ''A'' \<le> c \<and> c \<le> CHR ''Z''"

definition to_lower :: "char \<Rightarrow> char" where
  "to_lower c = (if is_upper c then char_of (of_char c + (32 :: nat)) else c)"

definition locale_key :: "string \<Rightarrow> string \<times> bool list" where
  "locale_key s = (map to_lower s, map is_upper s)"

fun canonical :: "json \<Rightarrow> string" where
  "canonical (JArray xs) = ''['' @ join '','' (map canonical xs) @ '']''"
| "canonical (JObject fs) = ''{'' @ join '','' (map (\<lambda>e. stringify (JString (fst e)) @ '':'' @ snd e)
     (sort_key (\<lambda>e. locale_key (fst e)) (map (\<lambda>f. (fst f, canonical (snd f))) fs))) @ ''}''"
| "canonical v = stringify v"

definition command_lanes :: "nat list \<Rightarrow> 64 word \<times> 64 word" where
  "command_lanes bytes = foldl (\<lambda>(left, right) byte.
     ((left XOR of_nat byte) * 1099511628211, (right XOR of_nat (byte + 1)) * 14029467366897019727))
     (14695981039346656037, 1099511628211) bytes"

definition threadCommandFingerprint :: "json \<Rightarrow> string" where
  "threadCommandFingerprint v = (case command_lanes (utf8 (canonical v)) of
     (left, right) \<Rightarrow> ''thread-command:v1:'' @ hex_digits 16 (unat left) @ hex_digits 16 (unat right))"

definition fingerprintSuffix :: "json \<Rightarrow> string" where
  "fingerprintSuffix v = rev (takeWhile (\<lambda>c. c \<noteq> CHR '':'') (rev (threadCommandFingerprint v)))"

fun locale_text :: "answer_locale \<Rightarrow> string" where
  "locale_text zh_CN = ''zh-CN''"
| "locale_text en = ''en''"
| "locale_text ja = ''ja''"

section \<open>Creating and editing a thread\<close>

record command_request =
  cq_ownerId :: OwnerId
  cq_agentId :: AgentId
  cq_idempotencyKey :: string
  cq_resultRef :: string

record create_request = command_request +
  cq_newThreadId :: "ThreadId option"
  cq_answerLocale :: "answer_locale option"

text \<open>The command that \<open>create\<close> gives the repository; \<open>optional_id\<close> is \<open>given ?? create(generated)\<close>.\<close>

definition optional_id :: "string option \<Rightarrow> (string \<Rightarrow> string result) \<Rightarrow> string \<Rightarrow> string result" where
  "optional_id given create generated = (case given of Some i \<Rightarrow> Inr i | None \<Rightarrow> create generated)"

definition create_identity :: "create_request \<Rightarrow> IdempotencyKey \<Rightarrow> string" where
  "create_identity q key = fingerprintSuffix (JObject [(''type'', JString ''thread.create''),
     (''ownerId'', JString (cq_ownerId q)), (''agentId'', JString (cq_agentId q)),
     (''idempotencyKey'', JString key)])"

definition create_fingerprint :: "product_thread \<Rightarrow> string" where
  "create_fingerprint thread = threadCommandFingerprint (JObject [(''type'', JString ''thread.create''),
     (''ownerId'', JString (pt_ownerId thread)), (''agentId'', JString (pt_agentId thread)),
     (''threadId'', JString (pt_id thread)), (''answerLocale'', JString (locale_text (pt_answerLocale thread)))])"

definition create_command :: "create_request \<Rightarrow> string \<Rightarrow> product_authority_fence \<Rightarrow> create_input result" where
  "create_command q now authority =
     andThen (createIdempotencyKey (cq_idempotencyKey q)) (\<lambda>key.
     andThen (optional_id (cq_newThreadId q) createThreadId (''thread:'' @ create_identity q key)) (\<lambda>threadId.
     let thread = createProductThread threadId (cq_ownerId q) (cq_agentId q) now (cq_answerLocale q) None in
     Inr \<lparr>tc_thread = thread, tc_idempotencyKey = key, tc_semanticFingerprint = create_fingerprint thread,
          tc_resultRef = cq_resultRef q, tc_authority = authority\<rparr>))"

definition service_create ::
  "thread_db \<Rightarrow> create_request \<Rightarrow> string \<Rightarrow> product_authority_fence \<Rightarrow>
     (thread_db \<times> product_thread \<times> thread_receipt) result" where
  "service_create db q now authority = andThen (create_command q now authority) (create_thread db)"

record update_request = command_request +
  cq_threadId :: ThreadId
  cq_expectedRevision :: int

datatype lifecycle_target = to_active | to_archived

datatype thread_edit =
    edit_rename string title_source
  | edit_pin "int option"
  | edit_locale string
  | edit_lifecycle lifecycle_target "string option"

fun edit_type :: "thread_edit \<Rightarrow> string" where
  "edit_type (edit_rename titleRef source) = ''thread.rename''"
| "edit_type (edit_pin pinOrder) = ''thread.pin''"
| "edit_type (edit_locale answerLocale) = ''thread.set_answer_locale''"
| "edit_type (edit_lifecycle to_active reasonCode) = ''thread.restore''"
| "edit_type (edit_lifecycle to_archived reasonCode) = ''thread.archive''"

fun edit_intent :: "thread_edit \<Rightarrow> json" where
  "edit_intent (edit_rename titleRef source) = JObject [(''titleRef'', JString titleRef),
     (''source'', JString (case source of title_automatic \<Rightarrow> ''automatic'' | title_owner \<Rightarrow> ''owner''))]"
| "edit_intent (edit_pin pinOrder) =
     JObject [(''pinOrder'', (case pinOrder of None \<Rightarrow> JNull | Some n \<Rightarrow> JNum n))]"
| "edit_intent (edit_locale answerLocale) = JObject [(''answerLocale'', JString answerLocale)]"
| "edit_intent (edit_lifecycle target reasonCode) = JObject
     [(''status'', JString (case target of to_active \<Rightarrow> ''active'' | to_archived \<Rightarrow> ''archived'')),
      (''reasonCode'', JString (case reasonCode of None \<Rightarrow> ''unspecified'' | Some r \<Rightarrow> r))]"

fun edit_command :: "thread_edit \<Rightarrow> string \<Rightarrow> thread_command" where
  "edit_command (edit_rename titleRef source) now = Rename titleRef source now"
| "edit_command (edit_pin pinOrder) now = SetPinOrder pinOrder now"
| "edit_command (edit_locale answerLocale) now = SetAnswerLocale answerLocale now"
| "edit_command (edit_lifecycle to_active reasonCode) now = Transition thread_active now"
| "edit_command (edit_lifecycle to_archived reasonCode) now = Transition thread_archived now"

definition edit_fingerprint :: "update_request \<Rightarrow> thread_edit \<Rightarrow> string" where
  "edit_fingerprint q edit = threadCommandFingerprint (JObject [(''commandType'', JString (edit_type edit)),
     (''ownerId'', JString (cq_ownerId q)), (''agentId'', JString (cq_agentId q)),
     (''threadId'', JString (cq_threadId q)), (''expectedRevision'', JNum (cq_expectedRevision q)),
     (''semanticIntent'', edit_intent edit)])"

definition edit_input ::
  "update_request \<Rightarrow> thread_edit \<Rightarrow> IdempotencyKey \<Rightarrow> product_thread \<Rightarrow> product_authority_fence \<Rightarrow> update_input" where
  "edit_input q edit key thread authority =
     \<lparr>tu_ownerId = cq_ownerId q, tu_agentId = cq_agentId q, tu_thread = thread,
      tu_expectedRevision = cq_expectedRevision q, tu_commandType = edit_type edit, tu_idempotencyKey = key,
      tu_semanticFingerprint = edit_fingerprint q edit, tu_resultRef = cq_resultRef q, tu_authority = authority\<rparr>"

text \<open>\<open>update\<close>: the receipt is looked up in \<open>db1\<close>, the thread read from \<open>db2\<close> and written to \<open>db3\<close>.\<close>

definition service_update ::
  "thread_db \<Rightarrow> thread_db \<Rightarrow> thread_db \<Rightarrow> update_request \<Rightarrow> thread_edit \<Rightarrow> string \<Rightarrow> product_authority_fence \<Rightarrow>
     (thread_db \<times> product_thread \<times> thread_receipt) result" where
  "service_update db1 db2 db3 q edit now authority =
     (let ow = cq_ownerId q; ag = cq_agentId q in
     andThen (createIdempotencyKey (cq_idempotencyKey q)) (\<lambda>key.
     case findReceipt db1 ow ag key of
       Some replay \<Rightarrow>
         andThen (ensure (tm_commandType replay = edit_type edit \<and>
           tm_semanticFingerprint replay = edit_fingerprint q edit) conflict) (\<lambda>_.
         case readThread db2 ow ag (tm_threadId replay) of
           None \<Rightarrow> port_fail NOT_FOUND
         | Some thread \<Rightarrow> Inr (db2, thread, replay))
     | None \<Rightarrow>
         (case readThread db2 ow ag (cq_threadId q) of
            None \<Rightarrow> port_fail NOT_FOUND
          | Some current \<Rightarrow>
              andThen (ensure (pt_revision current = cq_expectedRevision q) conflict) (\<lambda>_.
              andThen (thread_apply current (edit_command edit now)) (\<lambda>thread.
              update_thread db3 (edit_input q edit key thread authority))))))"

section \<open>Messages\<close>

record submit_request = command_request +
  sm_threadId :: ThreadId
  sm_expectedThreadRevision :: int
  sm_sessionId :: SessionId
  sm_contentRef :: string
  sm_sourceProofRef :: string
  sm_dataClassification :: product_data_classification
  sm_modelSelection :: "model_selection option"
  sm_messageId :: "MessageId option"
  sm_turnId :: "TurnId option"
  sm_runId :: "RunId option"
  sm_occurredAt :: "string option"

definition submit_identity :: "submit_request \<Rightarrow> IdempotencyKey \<Rightarrow> string" where
  "submit_identity q key = fingerprintSuffix (JObject [(''type'', JString ''thread.message.submit''),
     (''ownerId'', JString (cq_ownerId q)), (''agentId'', JString (cq_agentId q)),
     (''threadId'', JString (sm_threadId q)), (''idempotencyKey'', JString key),
     (''contentRef'', JString (sm_contentRef q))])"

definition submit_fingerprint :: "submit_request \<Rightarrow> MessageId \<Rightarrow> string" where
  "submit_fingerprint q messageId = threadCommandFingerprint (JObject ([(''type'', JString ''thread.message.submit''),
     (''threadId'', JString (sm_threadId q)), (''messageId'', JString messageId),
     (''contentRef'', JString (sm_contentRef q))] @
     (case sm_modelSelection q of None \<Rightarrow> [] | Some s \<Rightarrow> [(''modelSelection'',
       JObject [(''modelRef'', JString (ms_modelRef s)), (''thinkingLevel'', JString (ms_thinkingLevel s))])])))"

definition submit_command :: "submit_request \<Rightarrow> string \<Rightarrow> product_authority_fence \<Rightarrow> admit_input result" where
  "submit_command q now authority =
     andThen (createIdempotencyKey (cq_idempotencyKey q)) (\<lambda>key.
     let identity = submit_identity q key in
     andThen (optional_id (sm_messageId q) createMessageId (''message:'' @ identity)) (\<lambda>messageId.
     andThen (optional_id (sm_turnId q) createTurnId (''turn:'' @ identity)) (\<lambda>turnId.
     andThen (optional_id (sm_runId q) createRunId (''run:'' @ identity)) (\<lambda>runId.
     andThen (createTriggerId (''trigger:'' @ identity)) (\<lambda>triggerId.
     Inr \<lparr>ad_modelSelection = sm_modelSelection q, ad_ownerId = cq_ownerId q, ad_agentId = cq_agentId q,
          ad_threadId = sm_threadId q, ad_expectedThreadRevision = sm_expectedThreadRevision q,
          ad_messageId = messageId, ad_turnId = turnId, ad_triggerId = triggerId, ad_runId = runId,
          ad_sessionId = sm_sessionId q, ad_idempotencyKey = key,
          ad_semanticFingerprint = submit_fingerprint q messageId, ad_contentRef = sm_contentRef q,
          ad_sourceProofRef = sm_sourceProofRef q, ad_dataClassification = sm_dataClassification q,
          ad_occurredAt = (case sm_occurredAt q of None \<Rightarrow> now | Some at \<Rightarrow> at),
          ad_resultRef = cq_resultRef q, ad_authority = authority\<rparr>)))))"

definition service_submit ::
  "thread_db \<Rightarrow> submit_request \<Rightarrow> string \<Rightarrow> product_authority_fence \<Rightarrow>
     (thread_db \<times> product_thread \<times> product_thread_message \<times> thread_receipt) result" where
  "service_submit db q now authority = andThen (submit_command q now authority) (admitOwnerMessage db)"

record answer_request = command_request +
  aw_threadId :: ThreadId
  aw_expectedThreadRevision :: int
  aw_turnId :: TurnId
  aw_runId :: RunId
  aw_contentRef :: string
  aw_dataClassification :: product_data_classification
  aw_messageId :: "MessageId option"
  aw_committedAt :: "string option"

definition answer_identity :: "answer_request \<Rightarrow> IdempotencyKey \<Rightarrow> string" where
  "answer_identity q key = fingerprintSuffix (JObject [(''type'', JString ''thread.message.commit_assistant''),
     (''ownerId'', JString (cq_ownerId q)), (''agentId'', JString (cq_agentId q)),
     (''threadId'', JString (aw_threadId q)), (''runId'', JString (aw_runId q)), (''idempotencyKey'', JString key),
     (''contentRef'', JString (aw_contentRef q))])"

definition answer_fingerprint :: "answer_request \<Rightarrow> MessageId \<Rightarrow> string" where
  "answer_fingerprint q messageId = threadCommandFingerprint (JObject
     [(''type'', JString ''thread.message.commit_assistant''), (''threadId'', JString (aw_threadId q)),
      (''turnId'', JString (aw_turnId q)), (''runId'', JString (aw_runId q)), (''messageId'', JString messageId),
      (''contentRef'', JString (aw_contentRef q))])"

definition answer_command :: "answer_request \<Rightarrow> string \<Rightarrow> product_authority_fence \<Rightarrow> assistant_input result" where
  "answer_command q now authority =
     andThen (createIdempotencyKey (cq_idempotencyKey q)) (\<lambda>key.
     andThen (optional_id (aw_messageId q) createMessageId (''message:'' @ answer_identity q key)) (\<lambda>messageId.
     Inr \<lparr>as_ownerId = cq_ownerId q, as_agentId = cq_agentId q, as_threadId = aw_threadId q,
          as_expectedThreadRevision = aw_expectedThreadRevision q, as_messageId = messageId,
          as_turnId = aw_turnId q, as_runId = aw_runId q, as_idempotencyKey = key,
          as_semanticFingerprint = answer_fingerprint q messageId, as_contentRef = aw_contentRef q,
          as_dataClassification = aw_dataClassification q,
          as_committedAt = (case aw_committedAt q of None \<Rightarrow> now | Some at \<Rightarrow> at),
          as_resultRef = cq_resultRef q, as_authority = authority\<rparr>))"

definition service_answer ::
  "thread_db \<Rightarrow> answer_request \<Rightarrow> string \<Rightarrow> product_authority_fence \<Rightarrow>
     (thread_db \<times> product_thread \<times> product_thread_message \<times> thread_receipt) result" where
  "service_answer db q now authority = andThen (answer_command q now authority) (commitAssistantMessage db)"

section \<open>Forks\<close>

record fork_request = command_request +
  fq_sourceThreadId :: ThreadId
  fq_sourceTurnId :: TurnId
  fq_sourceWatermark :: int
  fq_targetThreadId :: "ThreadId option"
  fq_summaryRefs :: "string list"
  fq_policyRefs :: "string list"

definition fork_identity :: "fork_request \<Rightarrow> IdempotencyKey \<Rightarrow> string" where
  "fork_identity q key = fingerprintSuffix (JObject [(''type'', JString ''thread.fork.target''),
     (''ownerId'', JString (cq_ownerId q)), (''agentId'', JString (cq_agentId q)),
     (''sourceThreadId'', JString (fq_sourceThreadId q)), (''sourceTurnId'', JString (fq_sourceTurnId q)),
     (''sourceWatermark'', JNum (fq_sourceWatermark q)), (''idempotencyKey'', JString key)])"

definition fork_fingerprint :: "fork_request \<Rightarrow> ThreadId \<Rightarrow> string" where
  "fork_fingerprint q targetThreadId = threadCommandFingerprint (JObject [(''type'', JString ''thread.fork''),
     (''sourceThreadId'', JString (fq_sourceThreadId q)), (''sourceTurnId'', JString (fq_sourceTurnId q)),
     (''sourceWatermark'', JNum (fq_sourceWatermark q)), (''targetThreadId'', JString targetThreadId),
     (''summaryRefs'', JArray (map JString (fq_summaryRefs q))),
     (''policyRefs'', JArray (map JString (fq_policyRefs q)))])"

definition fork_target :: "fork_request \<Rightarrow> ThreadId \<Rightarrow> product_thread \<Rightarrow> string \<Rightarrow> product_thread" where
  "fork_target q targetThreadId source forkedAt =
     createProductThread targetThreadId (cq_ownerId q) (cq_agentId q) forkedAt (Some (pt_answerLocale source))
       (Some \<lparr>fork_sourceThreadId = pt_id source, fork_sourceTurnId = fq_sourceTurnId q,
              fork_sourceWatermark = fq_sourceWatermark q, fork_summaryRefs = fq_summaryRefs q,
              fork_policyRefs = fq_policyRefs q, fork_sourceContentAvailable = True, fork_forkedAt = forkedAt\<rparr>)"

definition fork_command ::
  "fork_request \<Rightarrow> IdempotencyKey \<Rightarrow> ThreadId \<Rightarrow> product_thread \<Rightarrow> string \<Rightarrow> product_authority_fence \<Rightarrow> fork_input" where
  "fork_command q key targetThreadId source now authority =
     \<lparr>fk_ownerId = cq_ownerId q, fk_agentId = cq_agentId q, fk_sourceThreadId = fq_sourceThreadId q,
      fk_sourceTurnId = fq_sourceTurnId q, fk_sourceWatermark = fq_sourceWatermark q,
      fk_targetThread = fork_target q targetThreadId source now, fk_summaryRefs = fq_summaryRefs q,
      fk_policyRefs = fq_policyRefs q, fk_idempotencyKey = key,
      fk_semanticFingerprint = fork_fingerprint q targetThreadId, fk_resultRef = cq_resultRef q,
      fk_authority = authority\<rparr>"

text \<open>\<open>fork\<close>: the receipt from \<open>db1\<close>, a thread from \<open>db2\<close>, the turn from \<open>db3\<close>, the write on \<open>db4\<close>.\<close>

definition service_fork ::
  "thread_db \<Rightarrow> thread_db \<Rightarrow> thread_db \<Rightarrow> thread_db \<Rightarrow> fork_request \<Rightarrow> string \<Rightarrow> product_authority_fence \<Rightarrow>
     (thread_db \<times> product_thread \<times> thread_receipt) result" where
  "service_fork db1 db2 db3 db4 q now authority =
     (let ow = cq_ownerId q; ag = cq_agentId q in
     andThen (createIdempotencyKey (cq_idempotencyKey q)) (\<lambda>key.
     andThen (optional_id (fq_targetThreadId q) createThreadId (''thread-fork:'' @ fork_identity q key)) (\<lambda>targetThreadId.
     case findReceipt db1 ow ag key of
       Some replay \<Rightarrow>
         andThen (ensure (tm_commandType replay = ''thread.fork'' \<and>
           tm_semanticFingerprint replay = fork_fingerprint q targetThreadId) conflict) (\<lambda>_.
         case readThread db2 ow ag (tm_threadId replay) of
           None \<Rightarrow> port_fail NOT_FOUND
         | Some existing \<Rightarrow> Inr (db2, existing, replay))
     | None \<Rightarrow>
         (case readThread db2 ow ag (fq_sourceThreadId q) of
            None \<Rightarrow> Inl type_error
          | Some source \<Rightarrow>
              andThen (ensure (pt_status source \<noteq> thread_deleted_verified \<and>
                \<not> pt_messageWatermark source < fq_sourceWatermark q) type_error) (\<lambda>_.
              andThen (ensure (hasCommittedTurn db3 ow ag (fq_sourceThreadId q) (fq_sourceTurnId q)
                (fq_sourceWatermark q)) type_error) (\<lambda>_.
              fork_thread db4 (fork_command q key targetThreadId source now authority)))))))"

section \<open>Deletion\<close>

record task_request = command_request +
  tq_threadId :: ThreadId
  tq_taskId :: string
  tq_expectedTaskRevision :: int
  tq_resolution :: task_resolution
  tq_reasonCode :: string

fun resolution_json :: "task_resolution \<Rightarrow> json" where
  "resolution_json pause_task = JObject [(''action'', JString ''pause'')]"
| "resolution_json cancel_task = JObject [(''action'', JString ''cancel'')]"
| "resolution_json (rebind_task target) =
     JObject [(''action'', JString ''rebind''), (''targetThreadId'', JString target)]"

definition resolve_command :: "task_request \<Rightarrow> string \<Rightarrow> product_authority_fence \<Rightarrow> resolve_input result" where
  "resolve_command q now authority =
     andThen (createIdempotencyKey (cq_idempotencyKey q)) (\<lambda>key.
     Inr \<lparr>rt_ownerId = cq_ownerId q, rt_agentId = cq_agentId q, rt_threadId = tq_threadId q,
          rt_taskId = tq_taskId q, rt_expectedTaskRevision = tq_expectedTaskRevision q,
          rt_resolution = tq_resolution q, rt_idempotencyKey = key,
          rt_semanticFingerprint = threadCommandFingerprint (JObject [(''type'', JString ''thread.task.resolve''),
            (''ownerId'', JString (cq_ownerId q)), (''agentId'', JString (cq_agentId q)),
            (''threadId'', JString (tq_threadId q)), (''taskId'', JString (tq_taskId q)),
            (''expectedTaskRevision'', JNum (tq_expectedTaskRevision q)),
            (''resolution'', resolution_json (tq_resolution q)), (''reasonCode'', JString (tq_reasonCode q))]),
          rt_resultRef = cq_resultRef q, rt_resolvedAt = now, rt_authority = authority\<rparr>)"

definition service_resolve ::
  "thread_db \<Rightarrow> task_request \<Rightarrow> string \<Rightarrow> product_authority_fence \<Rightarrow>
     (thread_db \<times> deletion_impact \<times> task_binding \<times> thread_receipt) result" where
  "service_resolve db q now authority = andThen (resolve_command q now authority) (resolveDeletionTask db)"

record delete_request = command_request +
  dq_threadId :: ThreadId
  dq_expectedThreadRevision :: int
  dq_reasonCode :: string

record permanent_request = delete_request +
  dq_authorizationRef :: string
  dq_recentAuthenticationRef :: string
  dq_authenticatedOwnerId :: string

fun optional_json :: "string option \<Rightarrow> json" where
  "optional_json None = JNull"
| "optional_json (Some s) = JString s"

definition deletion_fingerprint ::
  "'a delete_request_scheme \<Rightarrow> deletion_mode \<Rightarrow> string option \<Rightarrow> string option \<Rightarrow> string" where
  "deletion_fingerprint q mode authorizationRef recentAuthenticationRef = threadCommandFingerprint (JObject
     [(''type'', JString (deletion_command mode)), (''ownerId'', JString (cq_ownerId q)),
      (''agentId'', JString (cq_agentId q)), (''threadId'', JString (dq_threadId q)),
      (''expectedThreadRevision'', JNum (dq_expectedThreadRevision q)), (''reasonCode'', JString (dq_reasonCode q)),
      (''authorizationRef'', optional_json authorizationRef),
      (''recentAuthenticationRef'', optional_json recentAuthenticationRef)])"

definition service_requestDeletion ::
  "thread_db \<Rightarrow> 'a delete_request_scheme \<Rightarrow> deletion_mode \<Rightarrow> string option \<Rightarrow> string option \<Rightarrow> string \<Rightarrow>
     product_authority_fence \<Rightarrow> (thread_db \<times> product_thread \<times> deletion_impact \<times> thread_receipt) result" where
  "service_requestDeletion db q mode authorizationRef recentAuthenticationRef now authority =
     andThen (createIdempotencyKey (cq_idempotencyKey q)) (\<lambda>key.
     requestDeletion db \<lparr>rd_ownerId = cq_ownerId q, rd_agentId = cq_agentId q, rd_threadId = dq_threadId q,
       rd_expectedThreadRevision = dq_expectedThreadRevision q, rd_mode = mode,
       rd_authorizationRef = authorizationRef, rd_recentAuthenticationRef = recentAuthenticationRef,
       rd_idempotencyKey = key,
       rd_semanticFingerprint = deletion_fingerprint q mode authorizationRef recentAuthenticationRef,
       rd_resultRef = cq_resultRef q, rd_requestedAt = now, rd_authority = authority\<rparr>)"

definition service_trash ::
  "thread_db \<Rightarrow> delete_request \<Rightarrow> string \<Rightarrow> product_authority_fence \<Rightarrow>
     (thread_db \<times> product_thread \<times> deletion_impact \<times> thread_receipt) result" where
  "service_trash db q now authority = service_requestDeletion db q mode_trash None None now authority"

text \<open>
  \<open>guard\<close> is the optional guard of recent authentication, asked for the evidence the command names. The
  receipt is looked up in \<open>db1\<close>, the deletion requested from \<open>db2\<close>.
\<close>

definition replayed_deletion :: "thread_db \<Rightarrow> permanent_request \<Rightarrow> IdempotencyKey \<Rightarrow> bool" where
  "replayed_deletion db q key \<longleftrightarrow> (case findReceipt db (cq_ownerId q) (cq_agentId q) key of
     None \<Rightarrow> False
   | Some existing \<Rightarrow> tm_commandType existing = ''thread.delete_permanently'' \<and>
       tm_semanticFingerprint existing = deletion_fingerprint q mode_permanent
         (Some (dq_authorizationRef q)) (Some (dq_recentAuthenticationRef q)))"

definition service_deletePermanently ::
  "(string \<Rightarrow> unit result) option \<Rightarrow> thread_db \<Rightarrow> thread_db \<Rightarrow> permanent_request \<Rightarrow> string \<Rightarrow>
     product_authority_fence \<Rightarrow> (thread_db \<times> product_thread \<times> deletion_impact \<times> thread_receipt) result" where
  "service_deletePermanently guard db1 db2 q now authority =
     andThen (ensure (dq_authorizationRef q \<noteq> [] \<and> dq_recentAuthenticationRef q \<noteq> []) type_error) (\<lambda>_.
     andThen (ensure (dq_authenticatedOwnerId q = cq_ownerId q) not_authoritative) (\<lambda>_.
     andThen (createIdempotencyKey (cq_idempotencyKey q)) (\<lambda>key.
     andThen (if replayed_deletion db1 q key then Inr ()
              else case guard of None \<Rightarrow> Inl not_authoritative
                | Some assertRecent \<Rightarrow> assertRecent (dq_recentAuthenticationRef q)) (\<lambda>_.
     service_requestDeletion db2 q mode_permanent (Some (dq_authorizationRef q))
       (Some (dq_recentAuthenticationRef q)) now authority))))"

section \<open>Queries\<close>

definition service_detail ::
  "thread_db \<Rightarrow> OwnerId \<Rightarrow> AgentId \<Rightarrow> ThreadId \<Rightarrow> int option \<Rightarrow> int option \<Rightarrow>
     (product_thread \<times> product_thread_message list \<times> run_summary list) result" where
  "service_detail db ow ag threadId afterSequence limit =
     andThen (readDetailSnapshot db ow ag threadId (case afterSequence of None \<Rightarrow> 0 | Some n \<Rightarrow> n)
       (case limit of None \<Rightarrow> 1000 | Some n \<Rightarrow> n)) (\<lambda>snapshot.
     case snapshot of
       None \<Rightarrow> port_fail NOT_FOUND
     | Some (thread, messages, runs) \<Rightarrow>
         andThen (ensure (pt_status thread \<noteq> thread_deleted_verified) (ApplicationPortError NOT_FOUND)) (\<lambda>_.
         Inr (thread, messages, runs)))"

definition default_statuses :: "thread_status list option \<Rightarrow> thread_status list" where
  "default_statuses statuses = (case statuses of None \<Rightarrow> [thread_active, thread_archived] | Some s \<Rightarrow> s)"

definition service_list ::
  "thread_db \<Rightarrow> OwnerId \<Rightarrow> AgentId \<Rightarrow> thread_status list option \<Rightarrow> bool option \<Rightarrow> ThreadId option \<Rightarrow> int \<Rightarrow>
     product_thread list result" where
  "service_list db ow ag statuses pinnedOnly afterThreadId limit = list_threads db
     \<lparr>lq_ownerId = ow, lq_agentId = ag, lq_statuses = default_statuses statuses,
      lq_pinnedOnly = (pinnedOnly = Some True), lq_afterThreadId = afterThreadId, lq_limit = limit\<rparr>"

definition service_search ::
  "thread_db \<Rightarrow> search_query \<Rightarrow> thread_status list option \<Rightarrow> job_status list option \<Rightarrow> product_thread list result" where
  "service_search db q statuses jobStatuses =
     andThen (ensure (sq_tokenRefs q \<noteq> []) type_error) (\<lambda>_.
     search_threads db (q\<lparr>sq_statuses := default_statuses statuses,
       sq_jobStatuses := (case jobStatuses of None \<Rightarrow> [] | Some s \<Rightarrow> s)\<rparr>))"


section \<open>Every command of a service is a step of the conversation\<close>

text \<open>
  A command of a client: the eight methods of the services that write. \<open>run_call\<close> gives it the stores its
  calls of the repository find, at most four, and keeps of the outcome the store and the receipt.
\<close>

datatype service_call =
    call_create create_request
  | call_update update_request thread_edit
  | call_submit submit_request
  | call_answer answer_request
  | call_fork fork_request
  | call_resolve task_request
  | call_trash delete_request
  | call_delete permanent_request

definition written :: "(thread_db \<times> 'a \<times> thread_receipt) result \<Rightarrow> (thread_db \<times> thread_receipt) result" where
  "written outcome = andThen outcome (\<lambda>(db, x, r). Inr (db, r))"

definition written_with :: "(thread_db \<times> 'a \<times> 'b \<times> thread_receipt) result \<Rightarrow> (thread_db \<times> thread_receipt) result" where
  "written_with outcome = andThen outcome (\<lambda>(db, x, y, r). Inr (db, r))"

type_synonym stores = "thread_db \<times> thread_db \<times> thread_db \<times> thread_db"

fun run_call ::
  "(string \<Rightarrow> unit result) option \<Rightarrow> stores \<Rightarrow> service_call \<Rightarrow> string \<Rightarrow> product_authority_fence \<Rightarrow>
     (thread_db \<times> thread_receipt) result" where
  "run_call guard (s1, s2, s3, s4) (call_create q) now authority = written (service_create s4 q now authority)"
| "run_call guard (s1, s2, s3, s4) (call_update q edit) now authority =
     written (service_update s2 s3 s4 q edit now authority)"
| "run_call guard (s1, s2, s3, s4) (call_submit q) now authority = written_with (service_submit s4 q now authority)"
| "run_call guard (s1, s2, s3, s4) (call_answer q) now authority = written_with (service_answer s4 q now authority)"
| "run_call guard (s1, s2, s3, s4) (call_fork q) now authority =
     written (service_fork s1 s2 s3 s4 q now authority)"
| "run_call guard (s1, s2, s3, s4) (call_resolve q) now authority = written_with (service_resolve s4 q now authority)"
| "run_call guard (s1, s2, s3, s4) (call_trash q) now authority = written_with (service_trash s4 q now authority)"
| "run_call guard (s1, s2, s3, s4) (call_delete q) now authority =
     written_with (service_deletePermanently guard s3 s4 q now authority)"

lemma written_Inr: "written x = Inr (db, r) \<longleftrightarrow> (\<exists>t. x = Inr (db, t, r))"
  by (cases x) (auto simp: written_def)

lemma written_with_Inr: "written_with x = Inr (db, r) \<longleftrightarrow> (\<exists>t u. x = Inr (db, t, u, r))"
  by (cases x) (auto simp: written_with_def)

lemma observed_four:
  assumes "observed sha256 direct start [s1, s2, s3, s4]"
  shows "(conversation_step sha256 direct)\<^sup>*\<^sup>* start s1" "(conversation_step sha256 direct)\<^sup>*\<^sup>* s1 s2"
    "(conversation_step sha256 direct)\<^sup>*\<^sup>* s2 s3" "(conversation_step sha256 direct)\<^sup>*\<^sup>* s3 s4"
    "(conversation_step sha256 direct)\<^sup>*\<^sup>* start s2" "(conversation_step sha256 direct)\<^sup>*\<^sup>* start s3"
    "(conversation_step sha256 direct)\<^sup>*\<^sup>* start s4"
  using assms by (auto intro: rtranclp_trans)

lemma createProductThread_watermark [simp]: "pt_messageWatermark (createProductThread i ow ag at l f) = 0"
  by (simp add: createProductThread_def)

lemma edit_is_client: "client_edit (edit_command edit now)"
  by (cases "(edit, now)" rule: edit_command.cases) simp_all

text \<open>What the service read is what the store still holds when it writes.\<close>

lemma update_is_domain:
  assumes inv: "core_inv (core db2)" and steps: "(conversation_step sha256 direct)\<^sup>*\<^sup>* db2 db3"
    and read: "readThread db2 (cq_ownerId q) (cq_agentId q) (cq_threadId q) = Some current"
    and rev: "pt_revision current = cq_expectedRevision q" and app: "thread_apply current c = Inr thread"
    and client: "client_edit c"
    and op: "update_thread db3 (edit_input q edit key thread authority) = Inr (db', t, r)"
  shows "db' = db3 \<or> domain_update db3 (edit_input q edit key thread authority)"
proof -
  let ?in = "edit_input q edit key thread authority"
  have inv3: "core_inv (core db3)" using history_inv [OF steps inv] .
  note def = op [unfolded update_thread_def Let_def]
  obtain row where row: "thread_in_scope db2 (cq_ownerId q) (cq_agentId q) (cq_threadId q) = Some row"
      "current = fromThreadRow db2 row"
    using read by (auto simp: readThread_Some)
  obtain row' where row': "thread_in_scope db3 (cq_ownerId q) (cq_agentId q) (cq_threadId q) = Some row'"
      "row' = row \<or> tr_revision row < tr_revision row'"
    using conversation_history_grows [OF steps inv] row(1) unfolding conversation_grows_def by blast
  have id: "pt_id thread = cq_threadId q"
    using thread_apply_keeps [OF app] thread_in_scope_row(2) [OF inv row(1)] row(2) by simp
  obtain replay where replay: "replay_receipt db3 (tu_ownerId ?in) (tu_agentId ?in) (tu_idempotencyKey ?in)
      (tu_commandType ?in) (tu_semanticFingerprint ?in) = Inr replay"
    using def by (elim andThenE)
  show ?thesis
  proof (cases replay)
    case (Some receipt)
    with def replay show ?thesis by (auto simp: inverts split: option.splits)
  next
    case None
    then obtain db1 where "update_threads db3 (\<lambda>r. tr_id r = pt_id (tu_thread ?in) \<and> tr_ownerId r = tu_ownerId ?in \<and>
        tr_agentId r = tu_agentId ?in \<and> tr_revision r = tu_expectedRevision ?in) (written_thread (tu_thread ?in)) = Inr (db1, 1)"
      using def replay by (auto simp: inverts)
    then have "filter (\<lambda>r. tr_id r = cq_threadId q \<and> tr_ownerId r = cq_ownerId q \<and> tr_agentId r = cq_agentId q \<and>
        tr_revision r = cq_expectedRevision q) (th_threads db3) \<noteq> []"
      by (auto simp: update_threads_Inr edit_input_def id)
    then obtain x where x: "x \<in> set (th_threads db3)" "tr_id x = cq_threadId q" "tr_revision x = cq_expectedRevision q"
      by (auto simp: filter_empty_conv)
    have "x = row'"
      using unique_row [OF core_invD(1) [OF inv3] x(1)] row_of_SomeD [OF thread_in_scope_row(1) [OF inv3 row'(1)]] x(2) by simp
    then have same: "row' = row" using row'(2) x(3) rev row(2) by auto
    have "(fromThreadRow db3 row)\<lparr>pt_lineage := pt_lineage current\<rparr> = current"
      by (simp add: row(2) fromThreadRow_def)
    then have "domain_update db3 ?in"
      using row'(1) same rev app id row(2) client
      by (auto simp: domain_update_def edit_input_def readThread_def
          intro!: exI [of _ "pt_lineage current"] exI [of _ c])
    then show ?thesis ..
  qed
qed

lemma service_update_step:
  assumes inv: "core_inv (core s3)" and steps: "(conversation_step sha256 direct)\<^sup>*\<^sup>* s3 s4"
    and op: "service_update s2 s3 s4 q edit now authority = Inr (db', t, r)"
  shows "db' \<in> {s3, s4} \<or> conversation_step sha256 direct s4 db'"
proof -
  note def = op [unfolded service_update_def Let_def]
  obtain key where key: "createIdempotencyKey (cq_idempotencyKey q) = Inr key" using def by (elim andThenE)
  show ?thesis
  proof (cases "findReceipt s2 (cq_ownerId q) (cq_agentId q) key")
    case (Some replay)
    with def key show ?thesis by (auto simp: inverts split: option.splits)
  next
    case None
    with def key obtain current thread where read: "readThread s3 (cq_ownerId q) (cq_agentId q) (cq_threadId q) = Some current"
        "pt_revision current = cq_expectedRevision q" "thread_apply current (edit_command edit now) = Inr thread"
        "update_thread s4 (edit_input q edit key thread authority) = Inr (db', t, r)"
      by (auto simp: inverts split: option.splits)
    from update_is_domain [OF inv steps read(1-3) edit_is_client read(4)] show ?thesis
      using conversation_step.updated [OF read(4)] by auto
  qed
qed

lemma service_fork_step:
  assumes "service_fork s1 s2 s3 s4 q now authority = Inr (db', t, r)"
  shows "db' = s2 \<or> conversation_step sha256 direct s4 db'"
proof -
  note def = assms [unfolded service_fork_def Let_def]
  obtain key i where key: "createIdempotencyKey (cq_idempotencyKey q) = Inr key"
      "optional_id (fq_targetThreadId q) createThreadId (''thread-fork:'' @ fork_identity q key) = Inr i"
    using def by (elim andThenE)
  show ?thesis
  proof (cases "findReceipt s1 (cq_ownerId q) (cq_agentId q) key")
    case (Some replay)
    with def key show ?thesis by (auto simp: inverts split: option.splits)
  next
    case None
    with def key obtain source where "fork_thread s4 (fork_command q key i source now authority) = Inr (db', t, r)"
      by (auto simp: inverts split: option.splits)
    from conversation_step.forked [OF this] show ?thesis by (simp add: fork_command_def fork_target_def)
  qed
qed

lemma service_deletion_step:
  assumes "service_requestDeletion db q mode a b now authority = Inr (db', t, im, r)"
  shows "conversation_step sha256 direct db db'"
  using assms conversation_step.deletion by (auto simp: service_requestDeletion_def inverts)

lemma call_step:
  assumes fresh: "fresh_conversation start" and stores: "observed sha256 True start [s1, s2, s3, s4]"
    and done_call: "run_call guard (s1, s2, s3, s4) c now authority = Inr (db', r)"
  shows "db' \<in> {s1, s2, s3, s4} \<or> conversation_step sha256 True s4 db'"
proof -
  note o = observed_four [OF stores]
  have inv: "core_inv (core s3)" using reachable_conversation [OF o(6) fresh] .
  show ?thesis
  proof (cases c)
    case (call_create q)
    with done_call obtain t input where "create_command q now authority = Inr input" "create_thread s4 input = Inr (db', t, r)"
      by (auto simp: written_Inr service_create_def inverts)
    then show ?thesis using conversation_step.created
      by (auto simp: create_command_def Let_def inverts)
  next
    case (call_update q edit)
    with done_call service_update_step [OF inv o(4)] show ?thesis by (fastforce simp: written_Inr)
  next
    case (call_submit q)
    with done_call show ?thesis using conversation_step.admitted
      by (auto simp: written_with_Inr service_submit_def inverts)
  next
    case (call_answer q)
    with done_call show ?thesis using conversation_step.answered
      by (auto simp: written_with_Inr service_answer_def inverts)
  next
    case (call_fork q)
    with done_call service_fork_step show ?thesis by (fastforce simp: written_Inr)
  next
    case (call_resolve q)
    with done_call show ?thesis using conversation_step.resolved
      by (auto simp: written_with_Inr service_resolve_def inverts)
  next
    case (call_trash q)
    with done_call obtain t u where "service_requestDeletion s4 q mode_trash None None now authority = Inr (db', t, u, r)"
      by (auto simp: written_with_Inr service_trash_def)
    from service_deletion_step [OF this] show ?thesis by simp
  next
    case (call_delete q)
    with done_call obtain t u where "service_requestDeletion s4 q mode_permanent (Some (dq_authorizationRef q))
        (Some (dq_recentAuthenticationRef q)) now authority = Inr (db', t, u, r)"
      by (auto simp: written_with_Inr service_deletePermanently_def inverts)
    from service_deletion_step [OF this] show ?thesis by simp
  qed
qed

text \<open>
  C18. Each of the eight commands that a client gives to the services of threads (create, edit, submit,
  answer, fork, resolve a task, move to the trash, delete permanently) is one step of the conversation or
  leaves the store as it was found: the thread that a rename, pin, language or lifecycle command writes is
  the result of the domain operation on the very thread the store holds at that moment, although the
  service read it in an earlier call, and a created or forked thread starts without messages.
\<close>

theorem services_refine_conversation:
  assumes fresh: "fresh_conversation start" and stores: "observed sha256 True start [s1, s2, s3, s4]"
    and done_call: "run_call guard (s1, s2, s3, s4) c now authority = Inr (db', r)"
  shows "db' \<in> {s1, s2, s3, s4} \<or> conversation_step sha256 True s4 db'"
  using assms by (rule call_step)

section \<open>Commands take effect once\<close>

definition recorded ::
  "thread_db \<Rightarrow> OwnerId \<Rightarrow> AgentId \<Rightarrow> IdempotencyKey \<Rightarrow> string \<Rightarrow> string \<Rightarrow> thread_receipt \<Rightarrow> bool" where
  "recorded db ow ag key type fingerprint r \<longleftrightarrow> findReceipt db ow ag key = Some r \<and> tm_commandType r = type \<and>
     tm_semanticFingerprint r = fingerprint"

definition thread_known :: "thread_db \<Rightarrow> OwnerId \<Rightarrow> AgentId \<Rightarrow> ThreadId \<Rightarrow> bool" where
  "thread_known db ow ag i \<longleftrightarrow> (\<exists>row. thread_in_scope db ow ag i = Some row)"

lemma thread_known_iff:
  "thread_known db ow ag i \<longleftrightarrow> (\<exists>r\<in>set (th_threads db). tr_id r = i \<and> tr_ownerId r = ow \<and> tr_agentId r = ag)"
proof -
  have "thread_known db ow ag i \<longleftrightarrow> thread_in_scope db ow ag i \<noteq> None" by (auto simp: thread_known_def)
  then show ?thesis unfolding thread_in_scope_def find_None_iff by auto
qed

lemma known_read: "thread_known db ow ag i \<longleftrightarrow> (\<exists>t. readThread db ow ag i = Some t)"
  by (auto simp: thread_known_def readThread_Some)

lemma recorded_replay:
  "replay_receipt db ow ag key type fp = Inr (Some r) \<longleftrightarrow> recorded db ow ag key type fp r"
  by (auto simp: replay_receipt_Inr recorded_def)

lemma grows_keeps:
  assumes "conversation_grows a b"
  shows "recorded a ow ag key type fp r \<Longrightarrow> recorded b ow ag key type fp r"
    "thread_known a ow ag i \<Longrightarrow> thread_known b ow ag i"
    "readMessage a ow ag i k = Some m \<Longrightarrow> readMessage b ow ag i k = Some m"
  using assms unfolding conversation_grows_def recorded_def thread_known_def by blast+

lemma wrote_recorded:
  assumes "writeReceipt db input = Inr (db', r)"
  shows "recorded db' (wr_ownerId input) (wr_agentId input) (wr_idempotencyKey input) (wr_commandType input)
      (wr_semanticFingerprint input) r" "tm_threadId r = wr_threadId input" "th_threads db' = th_threads db"
proof -
  note w = writeReceipt_Inr [OF assms]
  let ?row = "new_receipt input"
  have key: "receipt_key ?row = (wr_ownerId input, wr_agentId input, wr_idempotencyKey input)"
    by (simp add: receipt_key_def new_receipt_def)
  from w have "th_receipts db' = th_receipts db @ [?row]" by auto
  moreover have "\<not> has_row receipt_key (receipt_key ?row) (th_receipts db)" using w by blast
  ultimately have "row_of receipt_key (receipt_key ?row) (th_receipts db') = Some ?row"
    using row_of_append_new by simp
  then show "recorded db' (wr_ownerId input) (wr_agentId input) (wr_idempotencyKey input) (wr_commandType input)
      (wr_semanticFingerprint input) r"
    using w by (simp add: recorded_def findReceipt_def key receiptFromRow_def) (simp add: new_receipt_def)
  show "tm_threadId r = wr_threadId input" using w by (simp add: receiptFromRow_def new_receipt_def)
  show "th_threads db' = th_threads db" using w by auto
qed

lemma create_recorded:
  assumes "create_thread db input = Inr (db', t, r)"
  shows "recorded db' (pt_ownerId (tc_thread input)) (pt_agentId (tc_thread input)) (tc_idempotencyKey input)
      ''thread.create'' (tc_semanticFingerprint input) r \<and>
    thread_known db' (pt_ownerId (tc_thread input)) (pt_agentId (tc_thread input)) (tm_threadId r)"
proof -
  note def = assms [unfolded create_thread_def Let_def]
  obtain replay where replay: "replay_receipt db (pt_ownerId (tc_thread input)) (pt_agentId (tc_thread input))
      (tc_idempotencyKey input) ''thread.create'' (tc_semanticFingerprint input) = Inr replay"
    using def by (elim andThenE)
  show ?thesis
  proof (cases replay)
    case (Some receipt)
    with def replay show ?thesis by (auto simp: inverts recorded_replay known_read split: option.splits)
  next
    case None
    then obtain db1 where ins: "insertThread db (tc_thread input) = Inr db1"
        and wrote: "writeReceipt db1 (create_receipt input) = Inr (db', r)"
      using def replay by (auto simp: inverts)
    note w = wrote_recorded [OF wrote]
    have "thread_row_of (tc_thread input) \<in> set (th_threads db')" using insertThread_Inr [OF ins] w(3) by simp
    then have "thread_known db' (pt_ownerId (tc_thread input)) (pt_agentId (tc_thread input)) (pt_id (tc_thread input))"
      unfolding thread_known_iff by (rule bexI [rotated]) (simp add: thread_row_of_def)
    with w show ?thesis by (simp add: create_receipt_def)
  qed
qed

lemma update_recorded:
  assumes "update_thread db input = Inr (db', t, r)"
  shows "recorded db' (tu_ownerId input) (tu_agentId input) (tu_idempotencyKey input) (tu_commandType input)
      (tu_semanticFingerprint input) r \<and> thread_known db' (tu_ownerId input) (tu_agentId input) (tm_threadId r)"
proof -
  note def = assms [unfolded update_thread_def Let_def]
  let ?sel = "\<lambda>r. tr_id r = pt_id (tu_thread input) \<and> tr_ownerId r = tu_ownerId input \<and>
     tr_agentId r = tu_agentId input \<and> tr_revision r = tu_expectedRevision input"
  obtain replay where replay: "replay_receipt db (tu_ownerId input) (tu_agentId input)
      (tu_idempotencyKey input) (tu_commandType input) (tu_semanticFingerprint input) = Inr replay"
    using def by (elim andThenE)
  show ?thesis
  proof (cases replay)
    case (Some receipt)
    with def replay show ?thesis by (auto simp: inverts recorded_replay known_read split: option.splits)
  next
    case None
    then obtain db1 where upd: "update_threads db ?sel (written_thread (tu_thread input)) = Inr (db1, 1)"
        and wrote: "writeReceipt db1 (update_receipt input) = Inr (db', r)"
      using def replay by (auto simp: inverts)
    note w = wrote_recorded [OF wrote]
    from upd have "filter ?sel (th_threads db) \<noteq> []" by (auto simp: update_threads_Inr)
    then obtain x where x: "x \<in> set (th_threads db)" "?sel x" by (auto simp: filter_empty_conv)
    have "th_threads db' = map (\<lambda>r. if ?sel r then written_thread (tu_thread input) r else r) (th_threads db)"
      using upd w(3) by (simp add: update_threads_Inr)
    then have "written_thread (tu_thread input) x \<in> set (th_threads db')" using x by force
    then have "thread_known db' (tu_ownerId input) (tu_agentId input) (pt_id (tu_thread input))"
      unfolding thread_known_iff by (rule bexI [rotated]) (use x in \<open>simp add: written_thread_def\<close>)
    with w show ?thesis by (simp add: update_receipt_def)
  qed
qed

lemma fork_recorded:
  assumes "fork_thread db input = Inr (db', t, r)"
  shows "recorded db' (fk_ownerId input) (fk_agentId input) (fk_idempotencyKey input) ''thread.fork''
      (fk_semanticFingerprint input) r \<and> thread_known db' (fk_ownerId input) (fk_agentId input) (tm_threadId r)"
proof -
  note def = assms [unfolded fork_thread_def Let_def]
  obtain replay where replay: "replay_receipt db (fk_ownerId input) (fk_agentId input)
      (fk_idempotencyKey input) ''thread.fork'' (fk_semanticFingerprint input) = Inr replay"
    using def by (elim andThenE)
  show ?thesis
  proof (cases replay)
    case (Some receipt)
    with def replay show ?thesis by (auto simp: inverts recorded_replay known_read split: option.splits)
  next
    case None
    then obtain db2 where wrote: "writeReceipt db2 (fork_receipt input) = Inr (db', r)"
        and read: "readThread db' (fk_ownerId input) (fk_agentId input) (pt_id (fk_targetThread input)) = Some t"
      using def replay by (auto simp: inverts split: option.splits)
    from wrote_recorded [OF wrote] read show ?thesis by (auto simp: fork_receipt_def known_read)
  qed
qed

lemma answer_recorded:
  assumes "commitAssistantMessage db input = Inr (db', t, m, r)"
  shows "recorded db' (as_ownerId input) (as_agentId input) (as_idempotencyKey input) ''thread.message.commit_assistant''
      (as_semanticFingerprint input) r \<and> thread_known db' (as_ownerId input) (as_agentId input) (tm_threadId r) \<and>
    readMessage db' (as_ownerId input) (as_agentId input) (as_threadId input) (as_messageId input) = Some m"
proof -
  note def = assms [unfolded commitAssistantMessage_def Let_def]
  obtain replay where replay: "replay_receipt db (as_ownerId input) (as_agentId input)
      (as_idempotencyKey input) ''thread.message.commit_assistant'' (as_semanticFingerprint input) = Inr replay"
    using def by (elim andThenE)
  show ?thesis
  proof (cases replay)
    case (Some receipt)
    with def replay show ?thesis by (auto simp: inverts message_outcome_Inr recorded_replay known_read)
  next
    case None
    then obtain db2 n where wrote: "writeReceipt db2 (assistant_receipt input n) = Inr (db', r)"
        and out: "readThread db' (as_ownerId input) (as_agentId input) (as_threadId input) = Some t"
          "readMessage db' (as_ownerId input) (as_agentId input) (as_threadId input) (as_messageId input) = Some m"
      using def replay by (auto simp: inverts message_outcome_Inr split: option.splits)
    from wrote_recorded [OF wrote] out show ?thesis by (auto simp: assistant_receipt_def known_read)
  qed
qed

lemma deletion_recorded:
  assumes "requestDeletion db input = Inr (db', t, im, r)"
  shows "recorded db' (rd_ownerId input) (rd_agentId input) (rd_idempotencyKey input) (deletion_command (rd_mode input))
      (rd_semanticFingerprint input) r \<and> thread_known db' (rd_ownerId input) (rd_agentId input) (rd_threadId input)"
proof -
  note def = assms [unfolded requestDeletion_def Let_def]
  obtain replay where replay: "replay_receipt db (rd_ownerId input) (rd_agentId input)
      (rd_idempotencyKey input) (deletion_command (rd_mode input)) (rd_semanticFingerprint input) = Inr replay"
    using def by (elim andThenE)
  show ?thesis
  proof (cases replay)
    case (Some receipt)
    with def replay show ?thesis by (auto simp: inverts recorded_replay known_read split: option.splits)
  next
    case None
    then obtain db2 n where wrote: "writeReceipt db2 (deletion_receipt input n) = Inr (db', r)"
        and seen: "inspectDeletionImpact db' (rd_ownerId input) (rd_agentId input) (rd_threadId input) = Inr im"
      using def replay by (auto simp: inverts split: option.splits)
    from seen have "thread_known db' (rd_ownerId input) (rd_agentId input) (rd_threadId input)"
      by (auto simp: inspectDeletionImpact_def known_read split: option.splits)
    with wrote_recorded [OF wrote] show ?thesis by (simp add: deletion_receipt_def)
  qed
qed

lemma resolved_outcome_Inr: "resolved_outcome db input receipt = Inr (db', im, b, r) \<Longrightarrow>
    db' = db \<and> r = receipt \<and> thread_known db (rt_ownerId input) (rt_agentId input) (rt_threadId input)"
  by (auto simp: resolved_outcome_def inspectDeletionImpact_def known_read inverts split: option.splits)

lemma resolve_recorded:
  assumes "resolveDeletionTask db input = Inr (db', im, b, r)"
  shows "recorded db' (rt_ownerId input) (rt_agentId input) (rt_idempotencyKey input) ''thread.task.resolve''
      (rt_semanticFingerprint input) r \<and> thread_known db' (rt_ownerId input) (rt_agentId input) (rt_threadId input)"
proof -
  note def = assms [unfolded resolveDeletionTask_def Let_def]
  obtain replay where replay: "replay_receipt db (rt_ownerId input) (rt_agentId input)
      (rt_idempotencyKey input) ''thread.task.resolve'' (rt_semanticFingerprint input) = Inr replay"
    using def by (elim andThenE)
  show ?thesis
  proof (cases replay)
    case (Some receipt)
    with def replay have "resolved_outcome db input receipt = Inr (db', im, b, r)" by (simp add: inverts)
    from resolved_outcome_Inr [OF this] replay Some show ?thesis by (simp add: recorded_replay)
  next
    case None
    then obtain n j db2 receipt where
        wrote: "writeReceipt (write_job db input j) (resolve_receipt input n) = Inr (db2, receipt)"
        and out: "resolved_outcome db2 input receipt = Inr (db', im, b, r)"
      using def replay by (auto simp: inverts split: option.splits)
    from resolved_outcome_Inr [OF out] wrote_recorded(1) [OF wrote] show ?thesis by (simp add: resolve_receipt_def)
  qed
qed

text \<open>
  A recorded command is answered from its receipt, by the store and by the services. All but an edit and a
  fork, which the service answers itself, ask the store, which refuses every command while the disk is full;
  the answer to a resolved task also needs its job, as long as that job is bound to a thread.
\<close>

fun asks_store :: "service_call \<Rightarrow> bool" where
  "asks_store (call_update q edit) \<longleftrightarrow> False"
| "asks_store (call_fork q) \<longleftrightarrow> False"
| "asks_store c \<longleftrightarrow> True"

definition unbound_task :: "thread_db \<Rightarrow> string \<Rightarrow> bool" where
  "unbound_task db taskId \<longleftrightarrow> (case taskRow db taskId of None \<Rightarrow> True | Some job \<Rightarrow> sj_threadId job = None)"

fun lost_task :: "thread_db \<Rightarrow> service_call \<Rightarrow> bool" where
  "lost_task db (call_resolve q) \<longleftrightarrow> unbound_task db (tq_taskId q)"
| "lost_task db c \<longleftrightarrow> False"

lemma full_disk_refuses:
  assumes "\<not> headroom db"
  shows "create_thread db cin = Inl conflict" "admitOwnerMessage db ain = Inl conflict"
    "commitAssistantMessage db sin = Inl conflict" "resolveDeletionTask db rin = Inl conflict"
    "requestDeletion db din = Inl conflict"
  using assms by (simp_all add: create_thread_def admitOwnerMessage_def commitAssistantMessage_def
      resolveDeletionTask_def requestDeletion_def Let_def ensure_def)

lemma create_again:
  assumes "recorded db ow ag key ''thread.create'' fp r" "thread_known db ow ag (tm_threadId r)" "headroom db"
    and "pt_ownerId (tc_thread input) = ow" "pt_agentId (tc_thread input) = ag" "tc_idempotencyKey input = key"
      "tc_semanticFingerprint input = fp"
  shows "\<exists>t. create_thread db input = Inr (db, t, r)"
proof -
  from assms(2) obtain t where "readThread db ow ag (tm_threadId r) = Some t" by (auto simp: known_read)
  moreover have "replay_receipt db ow ag key ''thread.create'' fp = Inr (Some r)" using assms(1) by (simp add: recorded_replay)
  ultimately show ?thesis using assms by (simp add: create_thread_def Let_def ensure_def)
qed

lemma admit_again:
  assumes "recorded db (ad_ownerId input) (ad_agentId input) (ad_idempotencyKey input) ''thread.message.submit''
      (ad_semanticFingerprint input) r"
    and "thread_known db (ad_ownerId input) (ad_agentId input) (tm_threadId r)" "headroom db"
    and "readMessage db (ad_ownerId input) (ad_agentId input) (ad_threadId input) (ad_messageId input) = Some m"
  shows "\<exists>t. admitOwnerMessage db input = Inr (db, t, m, r)"
proof -
  from assms(2) obtain t where "readThread db (ad_ownerId input) (ad_agentId input) (tm_threadId r) = Some t"
    by (auto simp: known_read)
  moreover have "replay_receipt db (ad_ownerId input) (ad_agentId input) (ad_idempotencyKey input) ''thread.message.submit''
      (ad_semanticFingerprint input) = Inr (Some r)" using assms(1) by (simp add: recorded_replay)
  ultimately show ?thesis using assms by (simp add: admitOwnerMessage_def Let_def ensure_def message_outcome_def)
qed

lemma answer_again:
  assumes "recorded db (as_ownerId input) (as_agentId input) (as_idempotencyKey input) ''thread.message.commit_assistant''
      (as_semanticFingerprint input) r"
    and "thread_known db (as_ownerId input) (as_agentId input) (tm_threadId r)" "headroom db"
    and "readMessage db (as_ownerId input) (as_agentId input) (as_threadId input) (as_messageId input) = Some m"
  shows "\<exists>t. commitAssistantMessage db input = Inr (db, t, m, r)"
proof -
  from assms(2) obtain t where "readThread db (as_ownerId input) (as_agentId input) (tm_threadId r) = Some t"
    by (auto simp: known_read)
  moreover have "replay_receipt db (as_ownerId input) (as_agentId input) (as_idempotencyKey input)
      ''thread.message.commit_assistant'' (as_semanticFingerprint input) = Inr (Some r)"
    using assms(1) by (simp add: recorded_replay)
  ultimately show ?thesis using assms by (simp add: commitAssistantMessage_def Let_def ensure_def message_outcome_def)
qed

lemma deletion_again:
  assumes "recorded db (rd_ownerId input) (rd_agentId input) (rd_idempotencyKey input) (deletion_command (rd_mode input))
      (rd_semanticFingerprint input) r"
    and "thread_known db (rd_ownerId input) (rd_agentId input) (rd_threadId input)" "headroom db"
  shows "\<exists>t im. requestDeletion db input = Inr (db, t, im, r)"
proof -
  from assms(2) obtain t where t: "readThread db (rd_ownerId input) (rd_agentId input) (rd_threadId input) = Some t"
    by (auto simp: known_read)
  have "replay_receipt db (rd_ownerId input) (rd_agentId input) (rd_idempotencyKey input) (deletion_command (rd_mode input))
      (rd_semanticFingerprint input) = Inr (Some r)" using assms(1) by (simp add: recorded_replay)
  then show ?thesis using t assms(3)
    by (simp add: requestDeletion_def Let_def ensure_def inspectDeletionImpact_def)
qed

lemma resolve_again:
  assumes "recorded db (rt_ownerId input) (rt_agentId input) (rt_idempotencyKey input) ''thread.task.resolve''
      (rt_semanticFingerprint input) r"
    and "thread_known db (rt_ownerId input) (rt_agentId input) (rt_threadId input)" "headroom db"
  shows "if unbound_task db (rt_taskId input) then resolveDeletionTask db input = port_fail NOT_FOUND
    else \<exists>im b. resolveDeletionTask db input = Inr (db, im, b, r)"
proof -
  from assms(2) obtain t where t: "readThread db (rt_ownerId input) (rt_agentId input) (rt_threadId input) = Some t"
    by (auto simp: known_read)
  have "replay_receipt db (rt_ownerId input) (rt_agentId input) (rt_idempotencyKey input) ''thread.task.resolve''
      (rt_semanticFingerprint input) = Inr (Some r)" using assms(1) by (simp add: recorded_replay)
  then show ?thesis using t assms(3)
    by (auto simp: resolveDeletionTask_def Let_def ensure_def inspectDeletionImpact_def resolved_outcome_def
        unbound_task_def taskBindingFromRow_def split: option.splits)
qed

lemma service_create_again:
  assumes op: "service_create db q now authority = Inr (db', t, r)" and later: "conversation_grows db' db2"
  shows "if headroom db2 then \<exists>t'. service_create db2 q now' authority' = Inr (db2, t', r)
    else service_create db2 q now' authority' = Inl conflict"
proof -
  from op obtain input where input: "create_command q now authority = Inr input" "create_thread db input = Inr (db', t, r)"
    by (auto simp: service_create_def inverts)
  then obtain input' where again: "create_command q now' authority' = Inr input'"
      "pt_ownerId (tc_thread input') = pt_ownerId (tc_thread input)" "pt_agentId (tc_thread input') = pt_agentId (tc_thread input)"
      "tc_idempotencyKey input' = tc_idempotencyKey input" "tc_semanticFingerprint input' = tc_semanticFingerprint input"
    by (auto simp: create_command_def Let_def inverts create_fingerprint_def createProductThread_def)
  note rec = create_recorded [OF input(2)]
  from create_again [OF grows_keeps(1) [OF later conjunct1 [OF rec]] grows_keeps(2) [OF later conjunct2 [OF rec]]
      _ again(2-)] again(1)
  show ?thesis by (auto simp: service_create_def full_disk_refuses)
qed

lemma service_submit_again:
  assumes op: "service_submit db q now authority = Inr (db', t, m, r)" and later: "conversation_grows db' db2"
  shows "if headroom db2 then \<exists>t'. service_submit db2 q now' authority' = Inr (db2, t', m, r)
    else service_submit db2 q now' authority' = Inl conflict"
proof -
  from op obtain input where input: "submit_command q now authority = Inr input" "admitOwnerMessage db input = Inr (db', t, m, r)"
    by (auto simp: service_submit_def inverts)
  then obtain at where again: "submit_command q now' authority' = Inr (input\<lparr>ad_occurredAt := at, ad_authority := authority'\<rparr>)"
    by (auto simp: submit_command_def Let_def inverts)
  note rec = admit_recorded [OF input(2)]
  let ?again = "input\<lparr>ad_occurredAt := at, ad_authority := authority'\<rparr>"
  have "recorded db' (ad_ownerId ?again) (ad_agentId ?again) (ad_idempotencyKey ?again) ''thread.message.submit''
      (ad_semanticFingerprint ?again) r" "thread_known db' (ad_ownerId ?again) (ad_agentId ?again) (tm_threadId r)"
      "readMessage db' (ad_ownerId ?again) (ad_agentId ?again) (ad_threadId ?again) (ad_messageId ?again) = Some m"
    using rec by (simp_all add: recorded_def thread_known_def)
  from admit_again [OF grows_keeps(1) [OF later this(1)] grows_keeps(2) [OF later this(2)] _
      grows_keeps(3) [OF later this(3)]] again
  show ?thesis by (simp add: service_submit_def full_disk_refuses)
qed

lemma service_answer_again:
  assumes op: "service_answer db q now authority = Inr (db', t, m, r)" and later: "conversation_grows db' db2"
  shows "if headroom db2 then \<exists>t'. service_answer db2 q now' authority' = Inr (db2, t', m, r)
    else service_answer db2 q now' authority' = Inl conflict"
proof -
  from op obtain input where input: "answer_command q now authority = Inr input"
      "commitAssistantMessage db input = Inr (db', t, m, r)"
    by (auto simp: service_answer_def inverts)
  then obtain at where again: "answer_command q now' authority' = Inr (input\<lparr>as_committedAt := at, as_authority := authority'\<rparr>)"
    by (auto simp: answer_command_def Let_def inverts)
  let ?again = "input\<lparr>as_committedAt := at, as_authority := authority'\<rparr>"
  note rec = answer_recorded [OF input(2)]
  have "recorded db' (as_ownerId ?again) (as_agentId ?again) (as_idempotencyKey ?again) ''thread.message.commit_assistant''
      (as_semanticFingerprint ?again) r" "thread_known db' (as_ownerId ?again) (as_agentId ?again) (tm_threadId r)"
      "readMessage db' (as_ownerId ?again) (as_agentId ?again) (as_threadId ?again) (as_messageId ?again) = Some m"
    using rec by simp_all
  from answer_again [OF grows_keeps(1) [OF later this(1)] grows_keeps(2) [OF later this(2)] _
      grows_keeps(3) [OF later this(3)]] again
  show ?thesis by (simp add: service_answer_def full_disk_refuses)
qed

lemma service_deletion_again:
  assumes op: "service_requestDeletion db q mode a b now authority = Inr (db', t, im, r)"
    and later: "conversation_grows db' db2"
  shows "if headroom db2 then \<exists>t' im'. service_requestDeletion db2 q mode a b now' authority' = Inr (db2, t', im', r)
    else service_requestDeletion db2 q mode a b now' authority' = Inl conflict"
proof -
  from op obtain key where key: "createIdempotencyKey (cq_idempotencyKey q) = Inr key"
    by (auto simp: service_requestDeletion_def inverts)
  note rec = deletion_recorded [OF op [unfolded service_requestDeletion_def key andThen_simps]]
  show ?thesis
    using deletion_again [of db2 "\<lparr>rd_ownerId = cq_ownerId q, rd_agentId = cq_agentId q, rd_threadId = dq_threadId q,
       rd_expectedThreadRevision = dq_expectedThreadRevision q, rd_mode = mode, rd_authorizationRef = a,
       rd_recentAuthenticationRef = b, rd_idempotencyKey = key, rd_semanticFingerprint = deletion_fingerprint q mode a b,
       rd_resultRef = cq_resultRef q, rd_requestedAt = now', rd_authority = authority'\<rparr>" r]
      rec grows_keeps [OF later]
    by (simp add: service_requestDeletion_def key full_disk_refuses)
qed

lemma service_resolve_again:
  assumes op: "service_resolve db q now authority = Inr (db', im, b, r)" and later: "conversation_grows db' db2"
  shows "if \<not> headroom db2 then service_resolve db2 q now' authority' = Inl conflict
    else if unbound_task db2 (tq_taskId q) then service_resolve db2 q now' authority' = port_fail NOT_FOUND
    else \<exists>im' b'. service_resolve db2 q now' authority' = Inr (db2, im', b', r)"
proof -
  from op obtain input where input: "resolve_command q now authority = Inr input"
      "resolveDeletionTask db input = Inr (db', im, b, r)"
    by (auto simp: service_resolve_def inverts)
  let ?again = "input\<lparr>rt_resolvedAt := now', rt_authority := authority'\<rparr>"
  have again: "resolve_command q now' authority' = Inr ?again" "rt_taskId ?again = tq_taskId q"
    using input(1) by (auto simp: resolve_command_def inverts)
  have "recorded db2 (rt_ownerId ?again) (rt_agentId ?again) (rt_idempotencyKey ?again) ''thread.task.resolve''
      (rt_semanticFingerprint ?again) r" "thread_known db2 (rt_ownerId ?again) (rt_agentId ?again) (rt_threadId ?again)"
    using resolve_recorded [OF input(2)] grows_keeps(1,2) [OF later] by simp_all
  from resolve_again [OF this] again show ?thesis
    by (simp add: service_resolve_def full_disk_refuses)
qed

text \<open>The receipt that an edit or a fork leaves, whichever call found it.\<close>

lemma service_update_recorded:
  assumes op: "service_update s2 s3 s4 q edit now authority = Inr (db', t, r)"
    and grows: "conversation_grows s2 s3"
  shows "\<exists>key. createIdempotencyKey (cq_idempotencyKey q) = Inr key \<and>
    recorded db' (cq_ownerId q) (cq_agentId q) key (edit_type edit) (edit_fingerprint q edit) r \<and>
    thread_known db' (cq_ownerId q) (cq_agentId q) (tm_threadId r)"
proof -
  note def = op [unfolded service_update_def Let_def]
  obtain key where key: "createIdempotencyKey (cq_idempotencyKey q) = Inr key" using def by (elim andThenE)
  show ?thesis
  proof (cases "findReceipt s2 (cq_ownerId q) (cq_agentId q) key")
    case (Some replay)
    with def key have "db' = s3" "r = replay" "recorded s2 (cq_ownerId q) (cq_agentId q) key (edit_type edit) (edit_fingerprint q edit) r"
        "thread_known s3 (cq_ownerId q) (cq_agentId q) (tm_threadId r)"
      by (auto simp: inverts recorded_def known_read split: option.splits)
    with key grows_keeps(1) [OF grows] show ?thesis by blast
  next
    case None
    with def key obtain thread where "update_thread s4 (edit_input q edit key thread authority) = Inr (db', t, r)"
      by (auto simp: inverts split: option.splits)
    from update_recorded [OF this] key show ?thesis by (auto simp: edit_input_def)
  qed
qed

lemma service_fork_recorded:
  assumes op: "service_fork s1 s2 s3 s4 q now authority = Inr (db', t, r)" and grows: "conversation_grows s1 s2"
  shows "\<exists>key i. createIdempotencyKey (cq_idempotencyKey q) = Inr key \<and>
    optional_id (fq_targetThreadId q) createThreadId (''thread-fork:'' @ fork_identity q key) = Inr i \<and>
    recorded db' (cq_ownerId q) (cq_agentId q) key ''thread.fork'' (fork_fingerprint q i) r \<and>
    thread_known db' (cq_ownerId q) (cq_agentId q) (tm_threadId r)"
proof -
  note def = op [unfolded service_fork_def Let_def]
  obtain key i where key: "createIdempotencyKey (cq_idempotencyKey q) = Inr key"
      "optional_id (fq_targetThreadId q) createThreadId (''thread-fork:'' @ fork_identity q key) = Inr i"
    using def by (elim andThenE)
  show ?thesis
  proof (cases "findReceipt s1 (cq_ownerId q) (cq_agentId q) key")
    case (Some replay)
    with def key have "db' = s2" "r = replay" "recorded s1 (cq_ownerId q) (cq_agentId q) key ''thread.fork'' (fork_fingerprint q i) r"
        "thread_known s2 (cq_ownerId q) (cq_agentId q) (tm_threadId r)"
      by (auto simp: inverts recorded_def known_read split: option.splits)
    with key grows_keeps(1) [OF grows] show ?thesis by blast
  next
    case None
    with def key obtain source where "fork_thread s4 (fork_command q key i source now authority) = Inr (db', t, r)"
      by (auto simp: inverts split: option.splits)
    from fork_recorded [OF this] key show ?thesis by (auto simp: fork_command_def)
  qed
qed

lemma service_update_again:
  assumes op: "service_update s2 s3 s4 q edit now authority = Inr (db', t, r)" and between: "conversation_grows s2 s3"
    and later: "conversation_grows db' t2" "conversation_grows db' t3"
  shows "\<exists>u. service_update t2 t3 t4 q edit now' authority' = Inr (t3, u, r)"
proof -
  from service_update_recorded [OF op between] obtain key where key: "createIdempotencyKey (cq_idempotencyKey q) = Inr key"
      "recorded db' (cq_ownerId q) (cq_agentId q) key (edit_type edit) (edit_fingerprint q edit) r"
      "thread_known db' (cq_ownerId q) (cq_agentId q) (tm_threadId r)" by blast
  obtain u where "readThread t3 (cq_ownerId q) (cq_agentId q) (tm_threadId r) = Some u"
    using grows_keeps(2) [OF later(2) key(3)] by (auto simp: known_read)
  with key(1) grows_keeps(1) [OF later(1) key(2)] show ?thesis
    by (simp add: service_update_def Let_def recorded_def ensure_def)
qed

lemma service_fork_again:
  assumes op: "service_fork s1 s2 s3 s4 q now authority = Inr (db', t, r)" and between: "conversation_grows s1 s2"
    and later: "conversation_grows db' t1" "conversation_grows db' t2"
  shows "\<exists>u. service_fork t1 t2 t3 t4 q now' authority' = Inr (t2, u, r)"
proof -
  from service_fork_recorded [OF op between] obtain key i where key: "createIdempotencyKey (cq_idempotencyKey q) = Inr key"
      "optional_id (fq_targetThreadId q) createThreadId (''thread-fork:'' @ fork_identity q key) = Inr i"
      "recorded db' (cq_ownerId q) (cq_agentId q) key ''thread.fork'' (fork_fingerprint q i) r"
      "thread_known db' (cq_ownerId q) (cq_agentId q) (tm_threadId r)" by blast
  obtain u where "readThread t2 (cq_ownerId q) (cq_agentId q) (tm_threadId r) = Some u"
    using grows_keeps(2) [OF later(2) key(4)] by (auto simp: known_read)
  with key(1,2) grows_keeps(1) [OF later(1) key(3)] show ?thesis
    by (simp add: service_fork_def Let_def recorded_def ensure_def)
qed

lemma recorded_deletion_skips_guard:
  assumes op: "service_deletePermanently guard db1 db2 q now authority = Inr (db', t, im, r)"
    and later: "conversation_grows db' a" "conversation_grows db' b"
  shows "if headroom b then \<exists>t' im'. service_deletePermanently guard' a b q now' authority' = Inr (b, t', im', r)
    else service_deletePermanently guard' a b q now' authority' = Inl conflict"
proof -
  from op obtain key where key: "createIdempotencyKey (cq_idempotencyKey q) = Inr key"
      and args: "dq_authorizationRef q \<noteq> []" "dq_recentAuthenticationRef q \<noteq> []" "dq_authenticatedOwnerId q = cq_ownerId q"
      and del: "service_requestDeletion db2 q mode_permanent (Some (dq_authorizationRef q))
        (Some (dq_recentAuthenticationRef q)) now authority = Inr (db', t, im, r)"
    by (auto simp: service_deletePermanently_def inverts)
  have "recorded db' (cq_ownerId q) (cq_agentId q) key ''thread.delete_permanently''
      (deletion_fingerprint q mode_permanent (Some (dq_authorizationRef q)) (Some (dq_recentAuthenticationRef q))) r"
    using deletion_recorded [OF del [unfolded service_requestDeletion_def key andThen_simps]] by simp
  from grows_keeps(1) [OF later(1) this] have "replayed_deletion a q key"
    by (simp add: replayed_deletion_def recorded_def)
  with service_deletion_again [OF del later(2)] show ?thesis
    by (simp add: service_deletePermanently_def key args ensure_def)
qed

lemma call_again:
  assumes first: "run_call guard (s1, s2, s3, s4) c now authority = Inr (db', r)"
    and between: "conversation_grows s1 s2" "conversation_grows s2 s3"
    and g: "conversation_grows db' t1" "conversation_grows db' t2" "conversation_grows db' t3" "conversation_grows db' t4"
  shows "if asks_store c \<and> \<not> headroom t4 then run_call guard' (t1, t2, t3, t4) c now' authority' = Inl conflict
    else if lost_task t4 c then run_call guard' (t1, t2, t3, t4) c now' authority' = port_fail NOT_FOUND
    else \<exists>x\<in>{t1, t2, t3, t4}. run_call guard' (t1, t2, t3, t4) c now' authority' = Inr (x, r)"
proof (cases c)
  case (call_create q)
  with first obtain t where "service_create s4 q now authority = Inr (db', t, r)" by (auto simp: written_Inr)
  from service_create_again [OF this g(4), of now' authority'] call_create show ?thesis by (auto simp: written_def)
next
  case (call_update q edit)
  with first obtain t where "service_update s2 s3 s4 q edit now authority = Inr (db', t, r)" by (auto simp: written_Inr)
  from service_update_again [OF this between(2) g(2,3), of t4 now' authority'] call_update show ?thesis
    by (auto simp: written_def)
next
  case (call_submit q)
  with first obtain t m where "service_submit s4 q now authority = Inr (db', t, m, r)" by (auto simp: written_with_Inr)
  from service_submit_again [OF this g(4), of now' authority'] call_submit show ?thesis by (auto simp: written_with_def)
next
  case (call_answer q)
  with first obtain t m where "service_answer s4 q now authority = Inr (db', t, m, r)" by (auto simp: written_with_Inr)
  from service_answer_again [OF this g(4), of now' authority'] call_answer show ?thesis by (auto simp: written_with_def)
next
  case (call_fork q)
  with first obtain t where "service_fork s1 s2 s3 s4 q now authority = Inr (db', t, r)" by (auto simp: written_Inr)
  from service_fork_again [OF this between(1) g(1,2), of t3 t4 now' authority'] call_fork show ?thesis
    by (auto simp: written_def)
next
  case (call_resolve q)
  with first obtain im b where "service_resolve s4 q now authority = Inr (db', im, b, r)" by (auto simp: written_with_Inr)
  from service_resolve_again [OF this g(4), of now' authority'] call_resolve show ?thesis
    by (auto simp: written_with_def split: if_splits)
next
  case (call_trash q)
  with first obtain t m where "service_requestDeletion s4 q mode_trash None None now authority = Inr (db', t, m, r)"
    by (auto simp: written_with_Inr service_trash_def)
  from service_deletion_again [OF this g(4), of now' authority'] call_trash show ?thesis
    by (auto simp: written_with_def service_trash_def)
next
  case (call_delete q)
  with first obtain t m where "service_deletePermanently guard s3 s4 q now authority = Inr (db', t, m, r)"
    by (auto simp: written_with_Inr)
  from recorded_deletion_skips_guard [OF this g(3,4), of guard' now' authority'] call_delete show ?thesis
    by (auto simp: written_with_def)
qed

text \<open>
  C17. A command takes effect once. After a client's command has succeeded, the same request sent again at
  any later points of the history, whenever it is sent and under whatever authority and even without the
  guard of recent authentication, never writes anything a second time. It succeeds, leaves the store as it
  finds it and returns the receipt of the first time, with two exceptions: while the disk is full every
  command but an edit or a fork is refused with a conflict, and the resolution of a task whose job has
  meanwhile been removed or unbound from its thread is answered with NOT_FOUND. This covers creating,
  editing and forking threads, messages of both sides, resolved tasks and both kinds of deletion.
\<close>

theorem service_command_takes_effect_once:
  assumes fresh: "fresh_conversation start" and stores: "observed sha256 True start [s1, s2, s3, s4]"
    and first: "run_call guard (s1, s2, s3, s4) c now authority = Inr (db', r)"
    and later: "observed sha256 True db' [t1, t2, t3, t4]"
  shows "if asks_store c \<and> \<not> headroom t4 then run_call guard' (t1, t2, t3, t4) c now' authority' = Inl conflict
    else if lost_task t4 c then run_call guard' (t1, t2, t3, t4) c now' authority' = port_fail NOT_FOUND
    else \<exists>x\<in>{t1, t2, t3, t4}. run_call guard' (t1, t2, t3, t4) c now' authority' = Inr (x, r)"
proof -
  note o = observed_four [OF stores] and l = observed_four [OF later]
  have inv: "core_inv (core s1)" "core_inv (core s2)" "core_inv (core s3)" "core_inv (core s4)"
    using reachable_conversation [OF _ fresh] o by blast+
  then have "core_inv (core db')" using call_step [OF fresh stores first] step_inv by auto
  then have "conversation_grows db' t1" "conversation_grows db' t2" "conversation_grows db' t3" "conversation_grows db' t4"
    using conversation_history_grows l by blast+
  moreover have "conversation_grows s1 s2" "conversation_grows s2 s3"
    using conversation_history_grows o inv by blast+
  ultimately show ?thesis using call_again [OF first] by blast
qed

section \<open>Permanent deletion\<close>

text \<open>
  C19. A thread is deleted permanently only for the authenticated owner with fresh evidence: when the
  service reports success, the authenticated owner is the owner of the scope, both references were given,
  and either the guard accepted the evidence the command names or nothing was written.
\<close>

theorem permanent_deletion_authenticated:
  assumes fresh: "fresh_conversation start" and before: "(conversation_step sha256 True)\<^sup>*\<^sup>* start db1"
    and between: "(conversation_step sha256 True)\<^sup>*\<^sup>* db1 db2"
    and deleted: "service_deletePermanently guard db1 db2 q now authority = Inr (db', t, impact, r)"
  shows "dq_authenticatedOwnerId q = cq_ownerId q \<and> dq_authorizationRef q \<noteq> [] \<and> dq_recentAuthenticationRef q \<noteq> [] \<and>
    ((\<exists>assertRecent. guard = Some assertRecent \<and> assertRecent (dq_recentAuthenticationRef q) = Inr ()) \<or> db' = db2)"
proof -
  from deleted obtain key where key: "createIdempotencyKey (cq_idempotencyKey q) = Inr key"
      and args: "dq_authorizationRef q \<noteq> []" "dq_recentAuthenticationRef q \<noteq> []" "dq_authenticatedOwnerId q = cq_ownerId q"
      and guarded: "replayed_deletion db1 q key \<or>
        (\<exists>assertRecent. guard = Some assertRecent \<and> assertRecent (dq_recentAuthenticationRef q) = Inr ())"
      and del: "service_requestDeletion db2 q mode_permanent (Some (dq_authorizationRef q))
        (Some (dq_recentAuthenticationRef q)) now authority = Inr (db', t, impact, r)"
    by (auto simp: service_deletePermanently_def inverts split: if_splits option.splits)
  have "db' = db2" if "replayed_deletion db1 q key"
  proof -
    from that obtain first where "recorded db1 (cq_ownerId q) (cq_agentId q) key ''thread.delete_permanently''
        (deletion_fingerprint q mode_permanent (Some (dq_authorizationRef q)) (Some (dq_recentAuthenticationRef q))) first"
      by (auto simp: replayed_deletion_def recorded_def split: option.splits)
    from grows_keeps(1) [OF conversation_history_grows [OF between reachable_conversation [OF before fresh]] this]
    have "replay_receipt db2 (cq_ownerId q) (cq_agentId q) key ''thread.delete_permanently''
        (deletion_fingerprint q mode_permanent (Some (dq_authorizationRef q)) (Some (dq_recentAuthenticationRef q))) =
        Inr (Some first)" by (simp add: recorded_replay)
    with del show ?thesis
      by (auto simp: service_requestDeletion_def key requestDeletion_def Let_def inverts split: option.splits)
  qed
  with guarded args show ?thesis by blast
qed

section \<open>Concrete instances\<close>

definition example_pin :: update_request where
  "example_pin = \<lparr>cq_ownerId = ''o'', cq_agentId = ''a'', cq_idempotencyKey = ''k7'', cq_resultRef = ''p'',
     cq_threadId = ''t'', cq_expectedRevision = 4\<rparr>"

definition example_pinned :: thread_db where
  "example_pinned = (case run_call None (example_asked_again, example_asked_again, example_asked_again, example_asked_again)
     (call_update example_pin (edit_pin (Some 1))) ''6'' example_chat_fence of Inr (db, r) \<Rightarrow> db | Inl e \<Rightarrow> example_chat)"

definition example_permanent :: permanent_request where
  "example_permanent = \<lparr>cq_ownerId = ''o'', cq_agentId = ''a'', cq_idempotencyKey = ''k8'', cq_resultRef = ''p'',
     dq_threadId = ''t'', dq_expectedThreadRevision = 4, dq_reasonCode = ''owner_request'', dq_authorizationRef = ''g'',
     dq_recentAuthenticationRef = ''e'', dq_authenticatedOwnerId = ''o''\<rparr>"

definition example_guard :: "string \<Rightarrow> unit result" where
  "example_guard ref = ensure (ref = ''e'') not_authoritative"

text \<open>The calls of the store, for any fingerprint; a hash is long to evaluate.\<close>

lemma example_store_calls:
  "createIdempotencyKey ''k7'' = Inr ''k7'' \<and> createIdempotencyKey ''k8'' = Inr ''k8'' \<and>
   findReceipt example_asked_again ''o'' ''a'' ''k7'' = None \<and> findReceipt example_asked_again ''o'' ''a'' ''k8'' = None \<and>
   thread_apply (fromThreadRow example_asked_again (example_chat_row 4 3 (example_time ''2''))) (SetPinOrder (Some 1) ''6'') =
     Inr ((fromThreadRow example_asked_again (example_chat_row 4 3 (example_time ''2'')))\<lparr>pt_revision := 5, pt_pinOrder := Some 1,
       pt_updatedAt := ''6''\<rparr>) \<and>
   (case update_thread example_asked_again \<lparr>tu_ownerId = ''o'', tu_agentId = ''a'',
      tu_thread = (fromThreadRow example_asked_again (example_chat_row 4 3 (example_time ''2'')))\<lparr>pt_revision := 5, pt_pinOrder := Some 1,
        pt_updatedAt := ''6''\<rparr>, tu_expectedRevision = 4, tu_commandType = ''thread.pin'', tu_idempotencyKey = ''k7'',
      tu_semanticFingerprint = fp, tu_resultRef = ''p'', tu_authority = example_chat_fence\<rparr> of
      Inr (db, x) \<Rightarrow> headroom db | Inl e \<Rightarrow> False) \<and>
   \<not> isl (requestDeletion example_asked_again \<lparr>rd_ownerId = ''o'', rd_agentId = ''a'', rd_threadId = ''t'',
      rd_expectedThreadRevision = 4, rd_mode = mode_permanent, rd_authorizationRef = Some ''g'',
      rd_recentAuthenticationRef = Some ''e'', rd_idempotencyKey = ''k8'', rd_semanticFingerprint = fp, rd_resultRef = ''p'',
      rd_requestedAt = ''6'', rd_authority = example_chat_fence\<rparr>)"
  by code_simp

lemma example_pinning:
  obtains r where "run_call None (example_asked_again, example_asked_again, example_asked_again, example_asked_again)
     (call_update example_pin (edit_pin (Some 1))) ''6'' example_chat_fence = Inr (example_pinned, r)" "headroom example_pinned"
proof -
  note calls = example_store_calls [of "edit_fingerprint example_pin (edit_pin (Some 1))"]
  let ?out = "run_call None (example_asked_again, example_asked_again, example_asked_again, example_asked_again)
     (call_update example_pin (edit_pin (Some 1))) ''6'' example_chat_fence"
  have "readThread example_asked_again ''o'' ''a'' ''t'' = Some (fromThreadRow example_asked_again (example_chat_row 4 3 (example_time ''2'')))"
    using example_chat_evaluated by (elim conjE)
  moreover have "pt_revision (fromThreadRow example_asked_again (example_chat_row 4 3 (example_time ''2''))) = 4"
    by (simp add: example_chat_row_def)
  ultimately have "case ?out of Inr (db, x) \<Rightarrow> headroom db | Inl e \<Rightarrow> False"
    using calls by (auto simp: service_update_def Let_def example_pin_def edit_input_def ensure_def written_def
        split: sum.splits)
  then obtain x where "?out = Inr x" "headroom (fst x)" by (cases ?out) auto
  then show ?thesis using that unfolding example_pinned_def by (cases x) simp
qed

lemma example_observed:
  "observed id True example_chat [example_asked_again, example_asked_again, example_asked_again, example_asked_again]"
  using example_chat_history(4) by simp

theorem services_refine_conversation_witness:
  "example_pinned = example_asked_again \<or> conversation_step id True example_asked_again example_pinned"
proof -
  obtain r where r: "run_call None (example_asked_again, example_asked_again, example_asked_again, example_asked_again)
     (call_update example_pin (edit_pin (Some 1))) ''6'' example_chat_fence = Inr (example_pinned, r)"
    and room: "headroom example_pinned" by (rule example_pinning)
  from services_refine_conversation [OF example_chat_fresh example_observed r] show ?thesis by auto
qed

theorem service_command_takes_effect_once_witness:
  "\<exists>r. run_call None (example_pinned, example_pinned, example_pinned, example_pinned)
     (call_update example_pin (edit_pin (Some 1))) ''7'' example_chat_fence = Inr (example_pinned, r)"
proof -
  obtain r where r: "run_call None (example_asked_again, example_asked_again, example_asked_again, example_asked_again)
     (call_update example_pin (edit_pin (Some 1))) ''6'' example_chat_fence = Inr (example_pinned, r)"
    and room: "headroom example_pinned" by (rule example_pinning)
  have later: "observed id True example_pinned [example_pinned, example_pinned, example_pinned, example_pinned]" by simp
  from service_command_takes_effect_once [OF example_chat_fresh example_observed r later, of None "''7''" example_chat_fence]
  show ?thesis by auto
qed

theorem permanent_deletion_authenticated_witness:
  "\<exists>db' t impact r. service_deletePermanently (Some example_guard) example_asked_again example_asked_again example_permanent
     ''6'' example_chat_fence = Inr (db', t, impact, r) \<and>
   (example_guard ''e'' = Inr () \<or> db' = example_asked_again)"
proof -
  let ?out = "service_deletePermanently (Some example_guard) example_asked_again example_asked_again example_permanent
     ''6'' example_chat_fence"
  have "\<not> isl ?out" using example_store_calls
    by (simp add: service_deletePermanently_def service_requestDeletion_def replayed_deletion_def example_permanent_def
        example_guard_def ensure_def)
  then obtain db' t impact r where d: "?out = Inr (db', t, impact, r)" by (cases ?out) auto
  from permanent_deletion_authenticated [OF example_chat_fresh example_chat_history(4) rtranclp.rtrancl_refl d] d
  show ?thesis by (auto simp: example_permanent_def)
qed

end
