(* ===== verification/Spec2Isabelle.thy ===== *)
theory Spec2Isabelle
  imports Lifecycle Identifiers Entities Run_State Authority Product_Thread Deployment Durable_Work
    JsDate Fingerprint Store Authorization Authorization_Store Permission_Service Action_Policy
    Scheduler Attention Work_Tables Run_Dispatch Model_Budget Budget_Ledger Background_Work Background_Service
    Authority_Store Product_State Run_Commit Thread_Store Run_Lifecycle Conversation Thread_Promises Thread_Commands
begin

text \<open>
  \<^bold>\<open>himawari-agent: a verification development\<close>

  The repository is a TypeScript monorepo for a personal agent. Its core is a pure domain package
  (\<open>packages/domain\<close>), services written against ports (\<open>packages/application\<close>) and a SQLite store that
  implements the ports (\<open>packages/persistence-sqlite\<close>). The remaining packages are transports, runtimes,
  integrations and applications around that core. The core decides what the agent may do: which intents
  are authorised, which scheduled jobs fire, what reaches the Owner, and who holds authority. This
  development models those decisions together with the store operations they rest on, and shows that they
  are right under every interleaving of clients.

  \<^bold>\<open>Parts and theories\<close>

  \<^item> \<open>Prelude\<close>: results, error codes (\<open>domain/src/errors.ts\<close>, \<open>application/src/ports/common.ts\<close>), the
    JavaScript string and number helpers, shared lemmas. The conventions of the translation are stated
    there.
  \<^item> \<open>Lifecycle\<close>: the contract of a status machine, as the locales \<open>lifecycle\<close> and \<open>ranked_lifecycle\<close>,
    interpreted on every status machine of the domain.
  \<^item> \<open>Identifiers\<close>, \<open>Entities\<close>, \<open>Authority\<close>, \<open>Run_State\<close>, \<open>Product_Thread\<close>: the files of the same names of
    \<open>packages/domain/src\<close>. \<open>Deployment\<close> and \<open>Durable_Work\<close>: \<open>durable-state.ts\<close>.
  \<^item> \<open>JsDate\<close>: the fragment of \<open>Date\<close> the services use. \<open>Fingerprint\<close>: \<open>JSON.stringify\<close> and the FNV-1a hash.
  \<^item> \<open>Store\<close>: tables of the SQLite store, and the contract of optimistic concurrency as the locale
    \<open>versioned_table\<close>; it is interpreted on grants, approvals, scheduled jobs, deliveries and attention
    policy states.
  \<^item> \<open>Authorization\<close>, \<open>Authorization_Store\<close>: \<open>ports/authorization.ts\<close>, the pure part of
    \<open>permission-service.ts\<close>, and the authorization operations of \<open>sqlite-durable-operations.ts\<close>.
  \<^item> \<open>Permission_Service\<close>, \<open>Action_Policy\<close>: \<open>permission-service.ts\<close>, \<open>action-policy-service.ts\<close>,
    \<open>grant-service.ts\<close>, \<open>approval-service.ts\<close>.
  \<^item> \<open>Scheduler\<close>: \<open>scheduler-service.ts\<close> and the scheduled-job operations of the store.
  \<^item> \<open>Attention\<close>: \<open>attention-policy-service.ts\<close> and the attention and delivery operations of the store.
  \<^item> \<open>Work_Tables\<close>: the tables that execution leases, budgets, background work and authority share.
    \<open>Authority_Store\<close>: deployments and authority leases of \<open>sqlite-worker.ts\<close>.
  \<^item> \<open>Run_Dispatch\<close>: \<open>sqlite-run-dispatch-operations.ts\<close>. \<open>Model_Budget\<close>, \<open>Budget_Ledger\<close>:
    \<open>sqlite-model-budget-operations.ts\<close>, its operations and the invariants of its ledger.
  \<^item> \<open>Background_Work\<close>: the background occurrences of \<open>sqlite-durable-operations.ts\<close>.
    \<open>Background_Service\<close>: \<open>durable-background-work-service.ts\<close>.
  \<^item> \<open>Product_State\<close>: commits of product state with their results and events (\<open>sqlite-worker.ts\<close>), the
    claims of events, and \<open>reliable-event-publisher.ts\<close>. \<open>Run_Commit\<close>:
    \<open>run-state-commit-coordinator.ts\<close>.
  \<^item> \<open>Thread_Store\<close>: \<open>sqlite-thread-operations.ts\<close>. \<open>Run_Lifecycle\<close>: \<open>sqlite-run-lifecycle-operations.ts\<close>, which
    uses the leases of \<open>Run_Dispatch\<close> and the messages of \<open>Thread_Store\<close>. \<open>Conversation\<close>: an abstract system
    of threads, messages, Runs and turns, refined by every operation of the two; \<open>Thread_Promises\<close>: what
    follows for clients, and the subscription of \<open>product-thread-gateway-adapter.ts\<close> with the contract of
    its messages (\<open>gateway-contracts\<close>). \<open>Thread_Commands\<close>: the eight writing commands and the queries of the
    services of threads, \<open>thread-command-service.ts\<close>, \<open>thread-fork-service.ts\<close>,
    \<open>thread-deletion-coordination-service.ts\<close> and \<open>thread-query-service.ts\<close>.

  Definitions carry the names of the functions they translate; a record is the interface of the same
  name, with a prefix per record on its fields and per type on its constructors. A definition with a
  name in lower case and underscores is either such a data type or a block of a long function.

  \<^bold>\<open>State, errors, concurrency\<close>

  A store is a record of tables, and an operation takes it and returns either an error or the new store
  with a result, so a failed operation leaves no trace, as the transactions of the source guarantee. The
  services are asynchronous: between two store calls anything may happen. Their methods take an
  environment \<open>env\<close> that acts at each of these points, and the theorems quantify over all environments
  that act through store operations (\<open>authz_step\<close>, \<open>jobs_step\<close>, \<open>attention_step\<close>). The Run coordinator
  takes instead one store per call it awaits, and its theorems relate these stores by \<open>product_step\<close>, of
  which the commands of the Run lifecycle are sequences (\<open>lifecycle_history\<close>). Clients of conversations act
  by \<open>conversation_step\<close>; an edit among them is one that \<open>ThreadCommandService\<close> makes, which moves a thread
  only to active or archived. Ports whose code lies
  outside the modelled part (clock, identifier generator, trigger port, delivery adapter, capability
  facts, decision trace) are parameters. The retry loop of the attention service has the source's bound of
  five attempts; every other loop runs over a list.

  \<^bold>\<open>What is shown\<close>

  \<^item> Authorization: a decision to allow rests on a grant or rule that authorises it at that moment; grants
    are never widened, never overdrawn, and final once revoked; the usage ledger is exact; retries are
    free; approvals are decided once and do not widen the terms that are compared; the risk of an intent cannot be
    talked down; one-time grants cover one use of one intent and long-term grants only safe reads.
  \<^item> Scheduling: only authorised jobs fire, each occurrence has its own identity, the next occurrence is
    in the future and on the grid, and concurrent dispatchers do not overwrite each other.
  \<^item> Attention: the Owner is disturbed only for cause and within the rate limit, each candidate is decided
    once, and a delivery has one settling claimant and is final once delivered.
  \<^item> Execution: a Run has one executing consumer, and what is offered can be claimed; the budget ledger
    balances, stays within its limits and charges a settlement once; background work respects its
    capacities, one consumer works on an occurrence, and retries back off within bounds.
  \<^item> Product state: a newer authority lease fences every older one; a command takes effect once, its
    revisions are gapless and it replaces what its client read; events are claimed exclusively, delivered
    at least once and in order, and the outbox drains; a Run in the product state follows its table.
  \<^item> Conversations: messages of a thread are numbered without gaps, a message is admitted once, a completed
    Run has exactly one answer, Runs keep to their table and ended ones are final, a subscriber misses no
    event before one that violates the message contract, and a deleted thread left no active task behind and
    is closed until it is restored, for good when the deletion is permanent. The services of threads write
    only steps of the conversation, each command of theirs takes effect once, and permanent deletion needs
    fresh authentication.
  \<^item> Domain: histories of Runs, threads, transfers, occurrences and memories follow their tables; authority
    is exclusive and stale fences are rejected.
  \<^item> Library: timestamps print and parse inversely and their string order is time order, and an edit of a
    serialised intent changes its fingerprint.

  Some theorems record surprises: \<open>PermissionService\<close> lets a covering grant override a deny rule, contrary
  to the architecture document; the scheduler reports a job as already advanced when the store refused
  the write for lack of disk space; an occurrence whose deadline passes while it is admitted keeps its
  capacity for good; the Run coordinator commits a transition under a revision it did not read; the
  event of a Run command is named by its idempotency key alone; a long idempotency key records an event on
  which every subscription of its scope fails; the grant of an approval is not compared with the intent in
  all its terms; and an answer committed directly, through
  the command the gateway offers for it, completes a Run that was only accepted.

  \<^bold>\<open>Not modelled\<close>

  Message texts and error details (of the message contracts, the path of a violation); encryption, transports, the browser and command-line applications,
  third-party runtimes and services; SQL itself, beyond the constraints the operations can meet. Of the
  core: the model router, delegation and suggestions, capabilities, memory and deletion operations of the
  store, and the transfer of authority between hosts. A history of conversations does not contain the
  removal of a thread that was deleted permanently, nor Runs admitted for schedules and events; of the
  thread store only the list of missing search projections is left out, whose \<open>LIMIT\<close> has no order.
\<close>

end
